(* ===== verification/Prelude.thy ===== *)
theory Prelude
  imports Main "HOL-Library.Word"
begin

text \<open>
  Shared vocabulary of the development: machine integers, I/O results, the part of Rust's
  string library the sources use, and the lemma collections the component theories extend.

  A Rust string is its UTF-8 byte sequence, written as Isabelle's \<^typ>\<open>string\<close> (a list of
  8-bit characters), so \<^verbatim>\<open>len\<close>, \<^verbatim>\<open>as_bytes\<close> and \<^verbatim>\<open>starts_with\<close> count bytes as in Rust.
\<close>

unbundle bit_operations_syntax

named_theorems bpf_code \<open>closed forms of emitted filter code\<close>
named_theorems dec_simps \<open>rewriting rules for decoders\<close>

type_synonym u8 = "8 word"
type_synonym u16 = "16 word"
type_synonym u32 = "32 word"
type_synonym u64 = "64 word"
type_synonym i16 = "16 word"
type_synonym i32 = "32 word"
type_synonym i64 = "64 word"

text \<open>
  The signed types are read with \<^const>\<open>sint\<close>; Rust's \<^verbatim>\<open>as\<close> between integer types of
  smaller or equal width is \<^const>\<open>ucast\<close> (it keeps the low bits).
\<close>

section \<open>I/O results\<close>

text \<open>\<^verbatim>\<open>std::io::Error\<close>: a kind and a message. \<open>OsError\<close> carries a raw \<^verbatim>\<open>errno\<close>.\<close>

datatype err_kind = NotFound | AlreadyExists | InvalidInput | InvalidData | TimedOut
  | WriteZero | UnexpectedEof | Other | OsError nat

datatype io_error = IoError (kind_of: err_kind) (message_of: string)

type_synonym 'a io_result = "io_error + 'a"

abbreviation Ok :: "'a \<Rightarrow> 'a io_result" where
  "Ok \<equiv> Inr"

abbreviation Err :: "err_kind \<Rightarrow> string \<Rightarrow> 'a io_result" where
  "Err k m \<equiv> Inl (IoError k m)"

text \<open>\<^verbatim>\<open>?\<close> on a result, and \<^verbatim>\<open>collect::<Result<Vec<_>>>\<close> over an iterator.\<close>

fun rbind :: "'e + 'a \<Rightarrow> ('a \<Rightarrow> 'e + 'b) \<Rightarrow> 'e + 'b" where
  "rbind (Inl e) f = Inl e"
| "rbind (Inr a) f = f a"

fun rcollect :: "('a \<Rightarrow> 'e + 'b) \<Rightarrow> 'a list \<Rightarrow> 'e + 'b list" where
  "rcollect f [] = Inr []"
| "rcollect f (x # xs) = rbind (f x) (\<lambda>y. rbind (rcollect f xs) (\<lambda>ys. Inr (y # ys)))"

text \<open>\<^verbatim>\<open>ok_or_else\<close>, \<^verbatim>\<open>unwrap_or\<close> and \<^verbatim>\<open>Option::transpose\<close>.\<close>

fun ok_or :: "'a option \<Rightarrow> 'e \<Rightarrow> 'e + 'a" where
  "ok_or None e = Inl e"
| "ok_or (Some a) e = Inr a"

fun unwrap_or :: "'a option \<Rightarrow> 'a \<Rightarrow> 'a" where
  "unwrap_or None d = d"
| "unwrap_or (Some a) d = a"

fun transpose_opt :: "('e + 'a) option \<Rightarrow> 'e + 'a option" where
  "transpose_opt None = Inr None"
| "transpose_opt (Some (Inl e)) = Inl e"
| "transpose_opt (Some (Inr a)) = Inr (Some a)"

fun and_then :: "'a option \<Rightarrow> ('a \<Rightarrow> 'b option) \<Rightarrow> 'b option" where
  "and_then None f = None"
| "and_then (Some a) f = f a"

definition is_ok :: "'e + 'a \<Rightarrow> bool" where
  "is_ok r = (case r of Inl _ \<Rightarrow> False | Inr _ \<Rightarrow> True)"

text \<open>\<^verbatim>\<open>filter_map\<close> of an iterator.\<close>

fun filter_map :: "('a \<Rightarrow> 'b option) \<Rightarrow> 'a list \<Rightarrow> 'b list" where
  "filter_map f [] = []"
| "filter_map f (x # xs) = (case f x of None \<Rightarrow> filter_map f xs | Some y \<Rightarrow> y # filter_map f xs)"

lemma rbind_Inr_iff [simp]: "rbind r f = Inr b \<longleftrightarrow> (\<exists>a. r = Inr a \<and> f a = Inr b)"
  by (cases r) auto

lemma rbind_Inl_iff: "rbind r f = Inl e \<longleftrightarrow> r = Inl e \<or> (\<exists>a. r = Inr a \<and> f a = Inl e)"
  by (cases r) auto

lemma rbind_ret [simp]: "rbind r Inr = r"
  by (cases r) auto

lemma ok_or_Inr [simp]: "ok_or x e = Inr a \<longleftrightarrow> x = Some a"
  by (cases x) auto

lemma ok_or_Inl [simp]: "ok_or x e = Inl e' \<longleftrightarrow> x = None \<and> e' = e"
  by (cases x) auto

lemma and_then_Some [simp]: "and_then x f = Some b \<longleftrightarrow> (\<exists>a. x = Some a \<and> f a = Some b)"
  by (cases x) auto

lemma and_then_None [simp]: "and_then x f = None \<longleftrightarrow> (\<forall>a. x = Some a \<longrightarrow> f a = None)"
  by (cases x) auto

lemma is_ok_simps [simp]: "is_ok (Inr a)" "\<not> is_ok (Inl e)"
  by (simp_all add: is_ok_def)

lemma is_ok_iff: "is_ok r \<longleftrightarrow> (\<exists>a. r = Inr a)"
  by (cases r) auto

lemma is_ok_rbind: "is_ok (rbind r f) \<longleftrightarrow> (\<exists>a. r = Inr a \<and> is_ok (f a))"
  by (cases r) auto

lemma rcollect_Inr_iff:
  "rcollect f xs = Inr ys \<longleftrightarrow> list_all2 (\<lambda>x y. f x = Inr y) xs ys"
  by (induction xs arbitrary: ys) (auto simp: list_all2_Cons1)

lemma rcollect_Inr_set: "rcollect f xs = Inr ys \<Longrightarrow> y \<in> set ys \<Longrightarrow> \<exists>x \<in> set xs. f x = Inr y"
  by (induction xs arbitrary: ys) auto

lemma rcollect_length: "rcollect f xs = Inr ys \<Longrightarrow> length ys = length xs"
  by (auto simp: rcollect_Inr_iff dest: list_all2_lengthD)

lemma rcollect_total: "(\<And>x. x \<in> set xs \<Longrightarrow> f x = Inr (g x)) \<Longrightarrow> rcollect f xs = Inr (map g xs)"
  by (induction xs) auto

lemma rcollect_Inl_ex: "rcollect f xs = Inl e \<Longrightarrow> \<exists>x \<in> set xs. f x = Inl e"
  by (induction xs) (auto simp: rbind_Inl_iff)

lemma rcollect_is_ok: "is_ok (rcollect f xs) \<longleftrightarrow> (\<forall>x \<in> set xs. is_ok (f x))"
proof (induction xs)
  case (Cons x xs)
  then show ?case
    by (cases "f x"; cases "rcollect f xs") auto
qed simp

lemma filter_map_append [simp]: "filter_map f (xs @ ys) = filter_map f xs @ filter_map f ys"
  by (induction xs) (auto split: option.splits)

lemma set_filter_map: "set (filter_map f xs) = {y. \<exists>x \<in> set xs. f x = Some y}"
  by (induction xs) (auto split: option.splits)

lemma filter_map_map_Some [simp]: "(\<And>x. f (g x) = Some x) \<Longrightarrow> filter_map f (map g xs) = xs"
  by (induction xs) auto

lemma filter_map_cong:
  "(\<And>x. x \<in> set xs \<Longrightarrow> f x = g x) \<Longrightarrow> filter_map f xs = filter_map g xs"
  by (induction xs) (auto split: option.splits)

end
