(* ===== verification/Ebpf.thy ===== *)
theory Ebpf
  imports Prelude
begin

text \<open>
  The target language of the device rule compiler: the fragment of the eBPF instruction set the
  kernel runs for \<^verbatim>\<open>BPF_PROG_TYPE_CGROUP_DEVICE\<close> programs. This theory is the specification
  side (what the emitted bytes mean); the emitter itself is in \<open>Devices\<close>. The instruction
  format and the opcode constants are those of \<^verbatim>\<open>crates/rsrun-ext/src/devices.rs\<close>.
\<close>

section \<open>Instruction format\<close>

record bpf_insn =
  code :: u8
  regs_byte :: u8
  off :: i16
  imm :: i32

definition regs :: "u8 \<Rightarrow> u8 \<Rightarrow> u8" where
  "regs dst src = (push_bit 4 src) OR (dst AND 0x0f)"

abbreviation (input) "BPF_LDX \<equiv> (0x01 :: u8)"
abbreviation (input) "BPF_W \<equiv> (0x00 :: u8)"
abbreviation (input) "BPF_MEM \<equiv> (0x60 :: u8)"
abbreviation (input) "BPF_ALU \<equiv> (0x04 :: u8)"
abbreviation (input) "BPF_ALU64 \<equiv> (0x07 :: u8)"
abbreviation (input) "BPF_K \<equiv> (0x00 :: u8)"
abbreviation (input) "BPF_AND \<equiv> (0x50 :: u8)"
abbreviation (input) "BPF_RSH \<equiv> (0x70 :: u8)"
abbreviation (input) "BPF_MOV \<equiv> (0xb0 :: u8)"
abbreviation (input) "BPF_JMP \<equiv> (0x05 :: u8)"
abbreviation (input) "BPF_JNE \<equiv> (0x50 :: u8)"
abbreviation (input) "BPF_JSET \<equiv> (0x40 :: u8)"
abbreviation (input) "BPF_EXIT_OP \<equiv> (0x90 :: u8)"

definition ldx_w :: "u8 \<Rightarrow> u8 \<Rightarrow> i16 \<Rightarrow> bpf_insn" where
  "ldx_w dst src f = \<lparr>code = BPF_LDX OR BPF_W OR BPF_MEM, regs_byte = regs dst src, off = f, imm = 0\<rparr>"

definition alu32_imm :: "u8 \<Rightarrow> u8 \<Rightarrow> i32 \<Rightarrow> bpf_insn" where
  "alu32_imm op dst i = \<lparr>code = BPF_ALU OR op OR BPF_K, regs_byte = regs dst 0, off = 0, imm = i\<rparr>"

definition alu64_mov_imm :: "u8 \<Rightarrow> i32 \<Rightarrow> bpf_insn" where
  "alu64_mov_imm dst i = \<lparr>code = BPF_ALU64 OR BPF_MOV OR BPF_K, regs_byte = regs dst 0, off = 0, imm = i\<rparr>"

definition jmp_imm :: "u8 \<Rightarrow> u8 \<Rightarrow> i32 \<Rightarrow> i16 \<Rightarrow> bpf_insn" where
  "jmp_imm op dst i f = \<lparr>code = BPF_JMP OR op OR BPF_K, regs_byte = regs dst 0, off = f, imm = i\<rparr>"

definition EXIT_INSN :: bpf_insn where
  "EXIT_INSN = \<lparr>code = BPF_JMP OR BPF_EXIT_OP, regs_byte = 0, off = 0, imm = 0\<rparr>"

section \<open>Execution\<close>

text \<open>
  The program context of a device check: \<^verbatim>\<open>struct bpf_cgroup_dev_ctx\<close>, three 32-bit fields at
  offsets 0, 4 and 8. The low half of \<open>access_type\<close> is the device type (1 block, 2 char), the
  high half the requested access (1 mknod, 2 read, 4 write).
\<close>

record dev_ctx =
  access_type :: u32
  ctx_major :: u32
  ctx_minor :: u32

definition ctx_type :: "dev_ctx \<Rightarrow> u32" where
  "ctx_type c = access_type c AND 0xffff"

definition ctx_access :: "dev_ctx \<Rightarrow> u32" where
  "ctx_access c = drop_bit 16 (access_type c)"

definition ctx_field :: "dev_ctx \<Rightarrow> i16 \<Rightarrow> u32 option" where
  "ctx_field c f =
     (if f = 0 then Some (access_type c)
      else if f = 4 then Some (ctx_major c)
      else if f = 8 then Some (ctx_minor c)
      else None)"

text \<open>
  A register file is a function from register numbers; register 1 holds the context pointer and is
  read only by loads. A step yields the next register file and program counter, a return value
  (\<open>EXIT\<close> returns register 0), or is stuck (an instruction outside the fragment).
\<close>

datatype bpf_step = Next "u8 \<Rightarrow> u64" nat | Done u64 | Stuck

definition dst_reg :: "bpf_insn \<Rightarrow> u8" where
  "dst_reg i = regs_byte i AND 0x0f"

definition src_reg :: "bpf_insn \<Rightarrow> u8" where
  "src_reg i = drop_bit 4 (regs_byte i)"

definition jump_target :: "nat \<Rightarrow> bpf_insn \<Rightarrow> nat" where
  "jump_target pc i = nat (int pc + 1 + sint (off i))"

definition bpf_exec1 :: "dev_ctx \<Rightarrow> bpf_insn \<Rightarrow> (u8 \<Rightarrow> u64) \<Rightarrow> nat \<Rightarrow> bpf_step" where
  "bpf_exec1 c i R pc =
     (if code i = 0x61 then
        (if src_reg i = 1
         then (case ctx_field c (off i) of
                 Some v \<Rightarrow> Next (R(dst_reg i := ucast v)) (Suc pc)
               | None \<Rightarrow> Stuck)
         else Stuck)
      else if code i = 0x74 then
        Next (R(dst_reg i := ucast (drop_bit (unat (imm i)) (ucast (R (dst_reg i)) :: u32)))) (Suc pc)
      else if code i = 0x54 then
        Next (R(dst_reg i := ucast ((ucast (R (dst_reg i)) :: u32) AND imm i))) (Suc pc)
      else if code i = 0xb7 then
        Next (R(dst_reg i := scast (imm i))) (Suc pc)
      else if code i = 0x55 then
        Next R (if R (dst_reg i) \<noteq> scast (imm i) then jump_target pc i else Suc pc)
      else if code i = 0x45 then
        Next R (if R (dst_reg i) AND scast (imm i) \<noteq> 0 then jump_target pc i else Suc pc)
      else if code i = 0x95 then Done (R 0)
      else Stuck)"

text \<open>Execution with fuel; \<open>None\<close> is stuck, out of the program, or out of fuel.\<close>

fun bpf_run :: "nat \<Rightarrow> dev_ctx \<Rightarrow> bpf_insn list \<Rightarrow> (u8 \<Rightarrow> u64) \<Rightarrow> nat \<Rightarrow> u64 option" where
  "bpf_run 0 c p R pc = None"
| "bpf_run (Suc n) c p R pc =
     (if pc < length p
      then (case bpf_exec1 c (p ! pc) R pc of
              Next R' pc' \<Rightarrow> bpf_run n c p R' pc'
            | Done v \<Rightarrow> Some v
            | Stuck \<Rightarrow> None)
      else None)"

lemma bpf_run_mono:
  "bpf_run n c p R pc = Some v \<Longrightarrow> n \<le> m \<Longrightarrow> bpf_run m c p R pc = Some v"
proof (induction n arbitrary: m R pc)
  case (Suc n)
  then obtain m' where "m = Suc m'" "n \<le> m'" by (cases m) auto
  with Suc show ?case by (auto split: if_splits bpf_step.splits)
qed simp

section \<open>Terminating runs\<close>

text \<open>
  A run that reaches \<open>EXIT\<close>, without fuel. A program whose conditional jumps go forward needs no
  more fuel than it has instructions (\<open>bpf_eval_run\<close>): the kernel's bound on such programs.
\<close>

inductive bpf_eval :: "dev_ctx \<Rightarrow> bpf_insn list \<Rightarrow> (u8 \<Rightarrow> u64) \<Rightarrow> nat \<Rightarrow> u64 \<Rightarrow> bool" for c p where
  eval_done: "pc < length p \<Longrightarrow> bpf_exec1 c (p ! pc) R pc = Done v \<Longrightarrow> bpf_eval c p R pc v"
| eval_next: "pc < length p \<Longrightarrow> bpf_exec1 c (p ! pc) R pc = Next R' pc' \<Longrightarrow>
     bpf_eval c p R' pc' v \<Longrightarrow> bpf_eval c p R pc v"

definition is_jump :: "bpf_insn \<Rightarrow> bool" where
  "is_jump i \<longleftrightarrow> code i = 0x55 \<or> code i = 0x45"

definition forward_jumps :: "bpf_insn list \<Rightarrow> bool" where
  "forward_jumps p \<longleftrightarrow> (\<forall>i \<in> set p. is_jump i \<longrightarrow> 0 \<le> sint (off i))"

lemma exec1_forward:
  "bpf_exec1 c i R pc = Next R' pc' \<Longrightarrow> (is_jump i \<Longrightarrow> 0 \<le> sint (off i)) \<Longrightarrow> pc < pc'"
  by (auto simp: bpf_exec1_def is_jump_def jump_target_def split: if_splits option.splits)

lemma bpf_eval_run:
  "bpf_eval c p R pc v \<Longrightarrow> forward_jumps p \<Longrightarrow> bpf_run (length p - pc) c p R pc = Some v"
proof (induction rule: bpf_eval.induct)
  case (eval_done pc R v)
  then obtain n where "length p - pc = Suc n" by (cases "length p - pc") auto
  with eval_done show ?case by simp
next
  case (eval_next pc R R' pc' v)
  then have "pc < pc'"
    by (intro exec1_forward [OF eval_next.hyps(2)]) (auto simp: forward_jumps_def)
  moreover obtain n where n: "length p - pc = Suc n" using eval_next.hyps(1) by (cases "length p - pc") auto
  ultimately have "length p - pc' \<le> n" by linarith
  with eval_next have "bpf_run n c p R' pc' = Some v" by (blast intro: bpf_run_mono)
  with eval_next.hyps show ?case by (simp add: n)
qed

lemma jump_target_forward: "sint (off i) = int k \<Longrightarrow> jump_target pc i = pc + k + 1"
  by (simp add: jump_target_def)

end
