(* ===== verification/Json_Api.thy ===== *)
theory Json_Api
  imports Prelude
begin

text \<open>
  The interface to \<^verbatim>\<open>serde_json\<close>, a third-party crate. The sources call it through the methods
  of \<^verbatim>\<open>serde_json::Value\<close>, the \<^verbatim>\<open>json!\<close> macro, \<^verbatim>\<open>to_vec\<close>/\<^verbatim>\<open>to_writer\<close> and \<^verbatim>\<open>from_slice\<close>; here they
  are a record of functions over an abstract value type \<^typ>\<open>'v\<close>, and every definition that uses
  JSON takes that record as its argument \<open>J\<close>. What the code relies on is the locale
  \<open>json_value\<close>: reading back a value that was built. The properties of the parsers hold for
  every \<open>J\<close>, without these laws; the round trips assume them.
\<close>

section \<open>The interface\<close>

record 'v json_api =
  jget :: "'v \<Rightarrow> string \<Rightarrow> 'v option"
  jas_str :: "'v \<Rightarrow> string option"
  jas_bool :: "'v \<Rightarrow> bool option"
  jas_i64 :: "'v \<Rightarrow> i64 option"
  jas_u64 :: "'v \<Rightarrow> u64 option"
  jas_array :: "'v \<Rightarrow> 'v list option"
  jas_object :: "'v \<Rightarrow> (string \<times> 'v) list option"
  jis_null :: "'v \<Rightarrow> bool"
  jnull :: 'v
  jbool :: "bool \<Rightarrow> 'v"
  ju64 :: "u64 \<Rightarrow> 'v"
  ji64 :: "i64 \<Rightarrow> 'v"
  jstr :: "string \<Rightarrow> 'v"
  jarr :: "'v list \<Rightarrow> 'v"
  jobj :: "(string \<times> 'v) list \<Rightarrow> 'v"

text \<open>Chains the sources write over and over: \<^verbatim>\<open>v.get(key).and_then(Value::as_x)\<close>.\<close>

definition get_str :: "'v json_api \<Rightarrow> 'v \<Rightarrow> string \<Rightarrow> string option" where
  "get_str J v k = and_then (jget J v k) (jas_str J)"

definition get_bool :: "'v json_api \<Rightarrow> 'v \<Rightarrow> string \<Rightarrow> bool option" where
  "get_bool J v k = and_then (jget J v k) (jas_bool J)"

definition get_i64 :: "'v json_api \<Rightarrow> 'v \<Rightarrow> string \<Rightarrow> i64 option" where
  "get_i64 J v k = and_then (jget J v k) (jas_i64 J)"

definition get_u64 :: "'v json_api \<Rightarrow> 'v \<Rightarrow> string \<Rightarrow> u64 option" where
  "get_u64 J v k = and_then (jget J v k) (jas_u64 J)"

definition get_array :: "'v json_api \<Rightarrow> 'v \<Rightarrow> string \<Rightarrow> 'v list option" where
  "get_array J v k = and_then (jget J v k) (jas_array J)"

definition get_object :: "'v json_api \<Rightarrow> 'v \<Rightarrow> string \<Rightarrow> (string \<times> 'v) list option" where
  "get_object J v k = and_then (jget J v k) (jas_object J)"

lemmas get_defs = get_str_def get_bool_def get_i64_def get_u64_def get_array_def get_object_def

text \<open>\<^verbatim>\<open>Option<T>\<close> in a \<^verbatim>\<open>json!\<close> object: \<^verbatim>\<open>None\<close> is \<^verbatim>\<open>null\<close>.\<close>

definition jopt :: "'v json_api \<Rightarrow> ('a \<Rightarrow> 'v) \<Rightarrow> 'a option \<Rightarrow> 'v" where
  "jopt J f x = (case x of None \<Rightarrow> jnull J | Some a \<Rightarrow> f a)"

section \<open>What the code relies on\<close>

locale json_value =
  fixes J :: "'v json_api"
  assumes get_obj: "distinct (map fst kvs) \<Longrightarrow> jget J (jobj J kvs) k = map_of kvs k"
    and as_str_str: "jas_str J (jstr J s) = Some s"
    and as_str_null: "jas_str J (jnull J) = None"
    and as_bool_bool: "jas_bool J (jbool J b) = Some b"
    and as_u64_u64: "jas_u64 J (ju64 J n) = Some n"
    and as_u64_null: "jas_u64 J (jnull J) = None"
    and as_array_arr: "jas_array J (jarr J vs) = Some vs"
begin

lemmas json_laws = get_obj as_str_str as_str_null as_bool_bool as_u64_u64 as_u64_null as_array_arr

lemma get_str_obj:
  "distinct (map fst kvs) \<Longrightarrow> map_of kvs k = Some (jstr J s) \<Longrightarrow> get_str J (jobj J kvs) k = Some s"
  by (simp add: get_str_def json_laws)

lemma get_u64_obj:
  "distinct (map fst kvs) \<Longrightarrow> map_of kvs k = Some (jopt J (ju64 J) n) \<Longrightarrow> get_u64 J (jobj J kvs) k = n"
  by (cases n) (simp_all add: get_u64_def jopt_def json_laws)

lemma get_bool_obj:
  "distinct (map fst kvs) \<Longrightarrow> map_of kvs k = Some (jbool J b) \<Longrightarrow> get_bool J (jobj J kvs) k = Some b"
  by (simp add: get_bool_def json_laws)

lemma get_str_opt_obj:
  "distinct (map fst kvs) \<Longrightarrow> map_of kvs k = Some (jopt J (jstr J) s) \<Longrightarrow> get_str J (jobj J kvs) k = s"
  by (cases s) (simp_all add: get_str_def jopt_def json_laws)

lemma get_array_obj:
  "distinct (map fst kvs) \<Longrightarrow> map_of kvs k = Some (jarr J vs) \<Longrightarrow> get_array J (jobj J kvs) k = Some vs"
  by (simp add: get_array_def json_laws)

lemma filter_map_as_str [simp]: "filter_map (jas_str J) (map (jstr J) ss) = ss"
  by (simp add: json_laws)

end

section \<open>A reference provider\<close>

text \<open>
  The value type of the JSON data model: numbers are split as the crate documents (non-negative
  integers, negative integers, everything else), objects keep their entries in order. It provides
  the interface for the witnesses and shows that the laws are satisfiable.
\<close>

datatype jval = JNull | JBool bool | JPos u64 | JNeg i64 | JFloat string | JStr string
  | JArr "jval list" | JObj "(string \<times> jval) list"

fun jv_get :: "jval \<Rightarrow> string \<Rightarrow> jval option" where
  "jv_get (JObj kvs) k = map_of kvs k"
| "jv_get _ k = None"

fun jv_str :: "jval \<Rightarrow> string option" where
  "jv_str (JStr s) = Some s"
| "jv_str _ = None"

fun jv_bool :: "jval \<Rightarrow> bool option" where
  "jv_bool (JBool b) = Some b"
| "jv_bool _ = None"

fun jv_u64 :: "jval \<Rightarrow> u64 option" where
  "jv_u64 (JPos n) = Some n"
| "jv_u64 _ = None"

fun jv_i64 :: "jval \<Rightarrow> i64 option" where
  "jv_i64 (JPos n) = (if 0 \<le> sint n then Some n else None)"
| "jv_i64 (JNeg n) = Some n"
| "jv_i64 _ = None"

fun jv_array :: "jval \<Rightarrow> jval list option" where
  "jv_array (JArr vs) = Some vs"
| "jv_array _ = None"

fun jv_object :: "jval \<Rightarrow> (string \<times> jval) list option" where
  "jv_object (JObj kvs) = Some kvs"
| "jv_object _ = None"

definition jv :: "jval json_api" where
  "jv = \<lparr>jget = jv_get, jas_str = jv_str, jas_bool = jv_bool, jas_i64 = jv_i64, jas_u64 = jv_u64,
     jas_array = jv_array, jas_object = jv_object, jis_null = (\<lambda>v. v = JNull),
     jnull = JNull, jbool = JBool, ju64 = JPos,
     ji64 = (\<lambda>n. if 0 \<le> sint n then JPos n else JNeg n), jstr = JStr, jarr = JArr, jobj = JObj\<rparr>"

lemma jv_simps [simp]:
  "jget jv = jv_get" "jas_str jv = jv_str" "jas_bool jv = jv_bool" "jas_i64 jv = jv_i64"
  "jas_u64 jv = jv_u64" "jas_array jv = jv_array" "jas_object jv = jv_object"
  "jis_null jv = (\<lambda>v. v = JNull)" "jnull jv = JNull" "jbool jv = JBool" "ju64 jv = JPos"
  "jstr jv = JStr" "jarr jv = JArr" "jobj jv = JObj"
  by (simp_all add: jv_def)

interpretation jv: json_value jv
  by unfold_locales simp_all

end
