(* ===== verification/Devices.thy ===== *)
theory Devices
  imports Ebpf Json_Api
begin

text \<open>
  \<^verbatim>\<open>crates/rsrun-ext/src/devices.rs\<close>: \<^verbatim>\<open>linux.resources.devices\<close> compiled to a cgroup device
  filter. The rule parsers and the emitter follow the source; \<open>decide\<close> is the abstract
  first-match specification the emitted program is proved to implement.
\<close>

section \<open>Rules and their parsers\<close>

record device_rule =
  dr_kind :: u8
  dr_access :: u32
  dr_major :: i32
  dr_minor :: i32
  dr_allow :: bool

fun access_bits :: "u32 \<Rightarrow> string \<Rightarrow> u32" where
  "access_bits a [] = a"
| "access_bits a (ch # cs) =
     access_bits (if ch = CHR ''m'' then a OR 1 else if ch = CHR ''r'' then a OR 2
                  else if ch = CHR ''w'' then a OR 4 else a) cs"

definition parse_rule :: "'v json_api \<Rightarrow> 'v \<Rightarrow> device_rule" where
  "parse_rule J r =
     (let ty = unwrap_or (get_str J r ''type'') ''a''
      in \<lparr>dr_kind = (if ty = ''a'' then 0 else if ty = ''b'' then 1 else if ty = ''c'' then 2
                     else if ty = ''u'' then 2 else 0),
          dr_access = access_bits 0 (unwrap_or (get_str J r ''access'') ''rwm''),
          dr_major = unwrap_or (map_option ucast (get_i64 J r ''major'')) (-1),
          dr_minor = unwrap_or (map_option ucast (get_i64 J r ''minor'')) (-1),
          dr_allow = unwrap_or (get_bool J r ''allow'') False\<rparr>)"

definition parse_rules :: "'v json_api \<Rightarrow> 'v option \<Rightarrow> device_rule list" where
  "parse_rules J resources =
     (case and_then resources (\<lambda>r. get_array J r ''devices'') of
        Some a \<Rightarrow> map (parse_rule J) a
      | None \<Rightarrow> [])"

definition parse_extra_device :: "'v json_api \<Rightarrow> 'v \<Rightarrow> device_rule option" where
  "parse_extra_device J d =
     (let ty = unwrap_or (get_str J d ''type'') []
      in and_then (if ty = ''b'' then Some 1 else if ty = ''c'' \<or> ty = ''u'' then Some 2 else None)
           (\<lambda>kind. case (map_option ucast (get_i64 J d ''major''), map_option ucast (get_i64 J d ''minor'')) of
              (Some major, Some minor) \<Rightarrow>
                Some \<lparr>dr_kind = kind, dr_access = 0x7, dr_major = major, dr_minor = minor, dr_allow = True\<rparr>
            | _ \<Rightarrow> None))"

definition parse_extra_devices :: "'v json_api \<Rightarrow> 'v option \<Rightarrow> device_rule list" where
  "parse_extra_devices J extra =
     (case and_then extra (jas_array J) of
        Some a \<Rightarrow> filter_map (parse_extra_device J) a
      | None \<Rightarrow> [])"

definition default_oci_devices :: "device_rule list" where
  "default_oci_devices =
     map (\<lambda>(maj, min). \<lparr>dr_kind = 2, dr_access = 0x7, dr_major = maj, dr_minor = min, dr_allow = True\<rparr>)
       [(1, 3), (1, 5), (1, 7), (1, 8), (1, 9), (5, 0)]"

section \<open>The emitter\<close>

definition is_wildcard :: "device_rule \<Rightarrow> bool" where
  "is_wildcard r \<longleftrightarrow> dr_kind r = 0 \<and> (dr_access r = 0 \<or> dr_access r = 0x7) \<and>
     sint (dr_major r) < 0 \<and> sint (dr_minor r) < 0"

text \<open>
  \<^verbatim>\<open>emit_rule\<close> appends conditional jumps with offset 0, remembers their indices, appends the
  verdict, and patches the offsets. The state is the program and the indices of its jumps. The
  offset is computed in wrapping 32-bit arithmetic and truncated to 16 bits, as in the source; the
  indices are \<^verbatim>\<open>u32\<close> there, exact for programs below \<open>2 ^ 32\<close> instructions.
\<close>

definition push_jump :: "bpf_insn \<Rightarrow> bpf_insn list \<times> nat list \<Rightarrow> bpf_insn list \<times> nat list" where
  "push_jump i st = (fst st @ [i], snd st @ [length (fst st)])"

definition patch_jump :: "nat \<Rightarrow> nat \<Rightarrow> bpf_insn list \<Rightarrow> bpf_insn list" where
  "patch_jump after j p =
     p[j := (p ! j)\<lparr>off := ucast ((of_nat after :: i32) - of_nat j - 1)\<rparr>]"

definition emit_rule :: "bpf_insn list \<Rightarrow> device_rule \<Rightarrow> bpf_insn list" where
  "emit_rule p r =
     (let st = (p, []);
          st = (if dr_kind r \<noteq> 0 then push_jump (jmp_imm BPF_JNE 2 (ucast (dr_kind r)) 0) st else st);
          st = (if dr_access r \<noteq> 0 \<and> dr_access r \<noteq> 0x7 then
                  (let mask = (NOT (dr_access r)) AND 0x7
                   in if mask \<noteq> 0 then push_jump (jmp_imm BPF_JSET 3 mask 0) st else st)
                else st);
          st = (if 0 \<le> sint (dr_major r) then push_jump (jmp_imm BPF_JNE 4 (dr_major r) 0) st else st);
          st = (if 0 \<le> sint (dr_minor r) then push_jump (jmp_imm BPF_JNE 5 (dr_minor r) 0) st else st);
          p = fst st @ [alu64_mov_imm 0 (if dr_allow r then 1 else 0), EXIT_INSN]
      in fold (patch_jump (length p)) (snd st) p)"

fun emit_rules :: "bpf_insn list \<Rightarrow> device_rule list \<Rightarrow> bpf_insn list \<times> bool" where
  "emit_rules p [] = (p, False)"
| "emit_rules p (r # rs) =
     (let p = emit_rule p r in if is_wildcard r then (p, True) else emit_rules p rs)"

definition prologue :: "bpf_insn list" where
  "prologue = [ldx_w 3 1 0, ldx_w 2 1 0, ldx_w 4 1 4, ldx_w 5 1 8,
     alu32_imm BPF_RSH 3 16, alu32_imm BPF_AND 2 0xffff]"

definition emit_insns :: "device_rule list \<Rightarrow> bpf_insn list" where
  "emit_insns rules =
     (let (p, wildcard_emitted) = emit_rules prologue rules
      in if \<not> wildcard_emitted then p @ [alu64_mov_imm 0 0, EXIT_INSN] else p)"

text \<open>\<^verbatim>\<open>insns_to_bytes\<close> copies the \<^verbatim>\<open>repr(C)\<close> structs; both supported targets are little-endian.\<close>

definition le16 :: "u16 \<Rightarrow> u8 list" where
  "le16 w = [ucast w, ucast (drop_bit 8 w)]"

definition le32 :: "u32 \<Rightarrow> u8 list" where
  "le32 w = [ucast w, ucast (drop_bit 8 w), ucast (drop_bit 16 w), ucast (drop_bit 24 w)]"

definition insn_bytes :: "bpf_insn \<Rightarrow> u8 list" where
  "insn_bytes i = [code i, regs_byte i] @ le16 (off i) @ le32 (imm i)"

definition insns_to_bytes :: "bpf_insn list \<Rightarrow> u8 list" where
  "insns_to_bytes p = concat (map insn_bytes p)"

definition emit_program :: "device_rule list \<Rightarrow> u8 list" where
  "emit_program rules = insns_to_bytes (emit_insns rules)"

definition devices_compile :: "'v json_api \<Rightarrow> 'v option \<Rightarrow> 'v option \<Rightarrow> u8 list io_result" where
  "devices_compile J resources extra =
     (let user_rules = parse_rules J resources
      in if user_rules = [] then Ok []
         else Ok (emit_program (default_oci_devices @ parse_extra_devices J extra @ user_rules)))"

section \<open>The specification: first match wins, deny by default\<close>

definition type_ok :: "device_rule \<Rightarrow> u32 \<Rightarrow> bool" where
  "type_ok r ty \<longleftrightarrow> dr_kind r = 0 \<or> ty = ucast (dr_kind r)"

definition access_ok :: "device_rule \<Rightarrow> u32 \<Rightarrow> bool" where
  "access_ok r acc \<longleftrightarrow> dr_access r = 0 \<or> acc AND (NOT (dr_access r)) AND 0x7 = 0"

definition number_ok :: "i32 \<Rightarrow> u32 \<Rightarrow> bool" where
  "number_ok n v \<longleftrightarrow> sint n < 0 \<or> v = n"

definition rule_matches :: "device_rule \<Rightarrow> dev_ctx \<Rightarrow> bool" where
  "rule_matches r c \<longleftrightarrow> type_ok r (ctx_type c) \<and> access_ok r (ctx_access c) \<and>
     number_ok (dr_major r) (ctx_major c) \<and> number_ok (dr_minor r) (ctx_minor c)"

fun decide :: "device_rule list \<Rightarrow> dev_ctx \<Rightarrow> bool" where
  "decide [] c = False"
| "decide (r # rs) c = (if rule_matches r c then dr_allow r else decide rs c)"

text \<open>How the kernel reads the bytes back.\<close>

definition of_le16 :: "u8 \<Rightarrow> u8 \<Rightarrow> u16" where
  "of_le16 a b = ucast a OR push_bit 8 (ucast b)"

definition of_le32 :: "u8 \<Rightarrow> u8 \<Rightarrow> u8 \<Rightarrow> u8 \<Rightarrow> u32" where
  "of_le32 a b c d = ucast a OR push_bit 8 (ucast b) OR push_bit 16 (ucast c) OR push_bit 24 (ucast d)"

fun decode_insns :: "u8 list \<Rightarrow> bpf_insn list option" where
  "decode_insns [] = Some []"
| "decode_insns (c # r # o0 # o1 # i0 # i1 # i2 # i3 # bs) =
     map_option ((#) \<lparr>code = c, regs_byte = r, off = of_le16 o0 o1, imm = of_le32 i0 i1 i2 i3\<rparr>)
       (decode_insns bs)"
| "decode_insns _ = None"

definition kernel_verdict :: "u8 list \<Rightarrow> (u8 \<Rightarrow> u64) \<Rightarrow> dev_ctx \<Rightarrow> u64 option" where
  "kernel_verdict bytes R c =
     and_then (decode_insns bytes) (\<lambda>p. bpf_run (length p) c p R 0)"

section \<open>The emitter in closed form\<close>

definition rule_checks :: "device_rule \<Rightarrow> (u8 \<times> u8 \<times> i32) list" where
  "rule_checks r =
     (if dr_kind r \<noteq> 0 then [(BPF_JNE, 2, ucast (dr_kind r))] else []) @
     (if dr_access r \<noteq> 0 \<and> dr_access r \<noteq> 0x7 \<and> (NOT (dr_access r)) AND 0x7 \<noteq> 0
      then [(BPF_JSET, 3, (NOT (dr_access r)) AND 0x7)] else []) @
     (if 0 \<le> sint (dr_major r) then [(BPF_JNE, 4, dr_major r)] else []) @
     (if 0 \<le> sint (dr_minor r) then [(BPF_JNE, 5, dr_minor r)] else [])"

fun check_code :: "(u8 \<times> u8 \<times> i32) list \<Rightarrow> bpf_insn list" where
  "check_code [] = []"
| "check_code ((op, d, i) # cs) = jmp_imm op d i (of_nat (length cs + 2)) # check_code cs"

definition rule_code :: "device_rule \<Rightarrow> bpf_insn list" where
  "rule_code r = check_code (rule_checks r) @ [alu64_mov_imm 0 (if dr_allow r then 1 else 0), EXIT_INSN]"

definition push_check :: "u8 \<times> u8 \<times> i32 \<Rightarrow> bpf_insn list \<times> nat list \<Rightarrow> bpf_insn list \<times> nat list" where
  "push_check c st = push_jump (jmp_imm (fst c) (fst (snd c)) (snd (snd c)) 0) st"

lemma fold_push_check:
  "fold push_check cs (p, js) =
     (p @ map (\<lambda>c. jmp_imm (fst c) (fst (snd c)) (snd (snd c)) 0) cs, js @ [length p ..< length p + length cs])"
  by (induction cs arbitrary: p js) (simp_all add: push_check_def push_jump_def upt_conv_Cons del: upt_Suc)

lemma emit_rule_fold:
  "emit_rule p r =
     (let st = fold push_check (rule_checks r) (p, []);
          q = fst st @ [alu64_mov_imm 0 (if dr_allow r then 1 else 0), EXIT_INSN]
      in fold (patch_jump (length q)) (snd st) q)"
  by (simp add: emit_rule_def rule_checks_def push_check_def Let_def)

lemma offset_cast: "ucast (of_nat n :: i32) = (of_nat n :: i16)"
  by (simp add: unsigned_of_nat word_of_nat_eq_iff)

lemma patch_jumps:
  "n = length p + length cs + 2 \<Longrightarrow>
   fold (patch_jump n) [length p ..< length p + length cs] (p @ map (\<lambda>c. jmp_imm (fst c) (fst (snd c)) (snd (snd c)) 0) cs @ q)
    = p @ check_code cs @ q"
proof (induction cs arbitrary: p)
  case (Cons c cs)
  obtain op d i where c: "c = (op, d, i)" by (cases c)
  let ?j = "jmp_imm op d i (of_nat (length cs + 2))"
  have d: "(of_nat n :: i32) - of_nat (length p) - 1 = of_nat (length cs + 2)"
    using Cons.prems by simp
  have h: "patch_jump n (length p) (p @ map (\<lambda>c. jmp_imm (fst c) (fst (snd c)) (snd (snd c)) 0) (c # cs) @ q)
     = (p @ [?j]) @ map (\<lambda>c. jmp_imm (fst c) (fst (snd c)) (snd (snd c)) 0) cs @ q"
    using offset_cast [of "length cs + 2"] by (simp add: patch_jump_def d c jmp_imm_def)
  have up: "[length p ..< length p + length (c # cs)]
      = length p # [length (p @ [?j]) ..< length (p @ [?j]) + length cs]"
    by (simp add: upt_conv_Cons del: upt_Suc)
  show ?case
    unfolding up fold.simps comp_apply h
    using Cons.IH [of "p @ [?j]"] Cons.prems by (simp add: c)
qed simp

lemma emit_rule_code: "emit_rule p r = p @ rule_code r"
  by (simp add: emit_rule_fold fold_push_check rule_code_def Let_def patch_jumps[symmetric])

lemma wildcard_matches: "is_wildcard r \<Longrightarrow> rule_matches r c"
  by (auto simp: is_wildcard_def rule_matches_def type_ok_def access_ok_def number_ok_def and.assoc)


fun body_code :: "device_rule list \<Rightarrow> bpf_insn list" where
  "body_code [] = [alu64_mov_imm 0 0, EXIT_INSN]"
| "body_code (r # rs) = rule_code r @ (if is_wildcard r then [] else body_code rs)"

lemma emit_insns_code: "emit_insns rules = prologue @ body_code rules"
proof -
  have "(let (p, w) = emit_rules q rules in if \<not> w then p @ [alu64_mov_imm 0 0, EXIT_INSN] else p)
      = q @ body_code rules" for q
    by (induction rules arbitrary: q) (auto simp: emit_rule_code Let_def)
  then show ?thesis by (simp add: emit_insns_def)
qed

section \<open>Execution of the emitted code\<close>

definition loaded :: "dev_ctx \<Rightarrow> (u8 \<Rightarrow> u64) \<Rightarrow> bool" where
  "loaded c R \<longleftrightarrow> R 2 = ucast (ctx_type c) \<and> R 3 = ucast (ctx_access c) \<and>
     R 4 = ucast (ctx_major c) \<and> R 5 = ucast (ctx_minor c)"

fun check_fails :: "(u8 \<times> u8 \<times> i32) \<Rightarrow> (u8 \<Rightarrow> u64) \<Rightarrow> bool" where
  "check_fails (op, d, i) R =
     (if op = BPF_JNE then R d \<noteq> scast i else R d AND scast i \<noteq> 0)"

definition check_wf :: "(u8 \<times> u8 \<times> i32) \<Rightarrow> bool" where
  "check_wf c \<longleftrightarrow> fst c \<in> {BPF_JNE, BPF_JSET} \<and> fst (snd c) \<in> {2, 3, 4, 5}"

lemma check_wf_rule: "c \<in> set (rule_checks r) \<Longrightarrow> check_wf c"
  by (auto simp: rule_checks_def check_wf_def split: if_splits)

lemma length_check_code [simp]: "length (check_code cs) = length cs"
  by (induction cs rule: check_code.induct) auto

lemma sint_small: "n < 4 \<Longrightarrow> sint (of_nat (n + 2) :: i16) = int (n + 2)"
proof -
  assume "n < 4"
  then consider "n = 0" | "n = 1" | "n = 2" | "n = 3" by linarith
  then show ?thesis by cases simp_all
qed

lemma exec_jne: "d < 16 \<Longrightarrow> regs d 0 AND 0x0f = d \<Longrightarrow> sint f = int k \<Longrightarrow>
    bpf_exec1 c (jmp_imm BPF_JNE d i f) R pc = Next R (if R d \<noteq> scast i then pc + k + 1 else Suc pc)"
  by (simp add: bpf_exec1_def jmp_imm_def dst_reg_def jump_target_forward)

lemma exec_jset: "d < 16 \<Longrightarrow> regs d 0 AND 0x0f = d \<Longrightarrow> sint f = int k \<Longrightarrow>
    bpf_exec1 c (jmp_imm BPF_JSET d i f) R pc = Next R (if R d AND scast i \<noteq> 0 then pc + k + 1 else Suc pc)"
  by (simp add: bpf_exec1_def jmp_imm_def dst_reg_def jump_target_forward)

lemma regs_low: "d \<in> {2, 3, 4, 5} \<Longrightarrow> d < 16 \<and> regs d 0 AND 0x0f = d"
  by (auto simp: regs_def)

lemma exec_check:
  assumes "check_wf (op, d, i)" and "n < 4"
  shows "bpf_exec1 c (jmp_imm op d i (of_nat (n + 2))) R pc
     = Next R (if check_fails (op, d, i) R then pc + n + 3 else Suc pc)"
proof -
  note s = sint_small [OF assms(2)]
  from assms(1) have op: "op = BPF_JNE \<or> op = BPF_JSET" and d: "d < 16 \<and> regs d 0 AND 0x0f = d"
    using regs_low by (auto simp: check_wf_def)
  from op show ?thesis
    using exec_jne [OF _ _ s, of d c i R pc] exec_jset [OF _ _ s, of d c i R pc] d
    by (auto simp del: of_nat_add)
qed

lemma exec_mov: "bpf_exec1 c (alu64_mov_imm 0 i) R pc = Next (R(0 := scast i)) (Suc pc)"
  by (simp add: bpf_exec1_def alu64_mov_imm_def dst_reg_def regs_def)

lemma exec_exit: "bpf_exec1 c EXIT_INSN R pc = Done (R 0)"
  by (simp add: bpf_exec1_def EXIT_INSN_def)

lemma eval_checks:
  assumes "\<forall>c \<in> set cs. check_wf c" and "length cs \<le> 4"
  and "bpf_eval c (p @ check_code cs @ q) R
     (length p + length cs + (if \<exists>x \<in> set cs. check_fails x R then 2 else 0)) v"
  shows "bpf_eval c (p @ check_code cs @ q) R (length p) v"
  using assms
proof (induction cs arbitrary: p)
  case (Cons x cs)
  obtain op d i where x: "x = (op, d, i)" by (cases x)
  let ?j = "jmp_imm op d i (of_nat (length cs + 2))"
  from Cons.prems have e: "bpf_exec1 c ?j R (length p)
     = Next R (if check_fails x R then length p + length cs + 3 else Suc (length p))"
    unfolding x by (intro exec_check) (auto simp: x)
  have code: "p @ check_code (x # cs) @ q = (p @ [?j]) @ check_code cs @ q"
    by (simp add: x)
  have nth: "((p @ [?j]) @ check_code cs @ q) ! length p = ?j"
    by simp
  show ?case
  proof (cases "check_fails x R")
    case True
    with Cons.prems(3) have rest: "bpf_eval c ((p @ [?j]) @ check_code cs @ q) R (length p + length cs + 3) v"
      by (simp add: code numeral_3_eq_3)
    show ?thesis
      unfolding code by (rule eval_next [OF _ _ rest]) (simp_all only: nth e True if_True, simp)
  next
    case False
    have rest: "bpf_eval c ((p @ [?j]) @ check_code cs @ q) R (length (p @ [?j])) v"
      using Cons.prems False by (intro Cons.IH) (simp_all add: code)
    show ?thesis
      unfolding code by (rule eval_next [OF _ _ rest]) (simp_all only: nth e False if_False, simp_all)
  qed
qed simp


lemma length_rule_code: "length (rule_code r) = length (rule_checks r) + 2"
  by (simp add: rule_code_def)

lemma length_rule_checks: "length (rule_checks r) \<le> 4"
  by (simp add: rule_checks_def)

lemma nonneg_iff: "0 \<le> sint (i :: i32) \<longleftrightarrow> \<not> bit i 31"
  by (simp add: sint_uint bit_uint_iff)

lemma scast_nonneg: "0 \<le> sint (i :: i32) \<Longrightarrow> (scast i :: u64) = ucast i"
proof -
  assume "0 \<le> sint i"
  then have n: "\<not> bit i n" if "31 \<le> n" for n
    using that by (cases "n = 31") (auto simp: nonneg_iff dest: bit_imp_le_length)
  show ?thesis
    by (rule bit_word_eqI) (auto simp: bit_simps min_def n)
qed

lemma scast_and7: "(scast (m AND 7 :: i32) :: u64) = ucast (m AND 7)"
  by (rule scast_nonneg) (simp add: nonneg_iff bit_simps)

lemma ucast_up_inj: "(ucast x :: u64) = ucast y \<longleftrightarrow> x = (y :: u32)"
proof
  assume h: "(ucast x :: u64) = ucast y"
  have "x = ucast (ucast x :: u64)" by (rule bit_word_eqI) (simp add: bit_simps)
  also have "\<dots> = ucast (ucast y :: u64)" by (simp add: h)
  also have "\<dots> = y" by (rule bit_word_eqI) (simp add: bit_simps)
  finally show "x = y" .
qed simp

lemma rule_checks_iff:
  assumes "loaded c R"
  shows "(\<exists>x \<in> set (rule_checks r). check_fails x R) \<longleftrightarrow> \<not> rule_matches r c"
proof -
  have n: "(ucast x :: u64) = scast n \<longleftrightarrow> x = n" if "0 \<le> sint n" for x n :: u32
    using that by (simp add: scast_nonneg ucast_up_inj)
  have t: "(ucast (ctx_type c) :: u64) = scast (ucast (dr_kind r) :: i32) \<longleftrightarrow> ctx_type c = ucast (dr_kind r)"
    by (rule n) (auto simp: nonneg_iff bit_simps dest: bit_imp_le_length)
  have a: "(ucast x :: u64) AND scast (m AND 7) = 0 \<longleftrightarrow> x AND m AND 7 = 0" for x m :: u32
    using ucast_up_inj [of "x AND m AND 7" 0]
    by (simp add: scast_and7 unsigned_and_eq [symmetric] and.assoc)
  from assms have R: "R 2 = ucast (ctx_type c)" "R 3 = ucast (ctx_access c)"
      "R 4 = ucast (ctx_major c)" "R 5 = ucast (ctx_minor c)"
    by (simp_all add: loaded_def)
  have 1: "(\<exists>x \<in> set (if dr_kind r \<noteq> 0 then [(BPF_JNE, 2, ucast (dr_kind r) :: i32)] else []). check_fails x R)
      \<longleftrightarrow> \<not> type_ok r (ctx_type c)"
    by (simp add: type_ok_def R t)
  have 2: "(\<exists>x \<in> set (if dr_access r \<noteq> 0 \<and> dr_access r \<noteq> 0x7 \<and> (NOT (dr_access r)) AND 0x7 \<noteq> 0
        then [(BPF_JSET, 3, (NOT (dr_access r)) AND 0x7)] else []). check_fails x R)
      \<longleftrightarrow> \<not> access_ok r (ctx_access c)"
    by (auto simp: access_ok_def R a and.assoc)
  have 3: "(\<exists>x \<in> set (if 0 \<le> sint n then [(BPF_JNE, d, n)] else []). check_fails x R)
      \<longleftrightarrow> \<not> number_ok n v" if "R d = ucast v" for d v n
    using that by (auto simp: number_ok_def n)
  show ?thesis
    unfolding rule_checks_def set_append bex_Un 1 2 3 [OF R(3)] 3 [OF R(4)]
    by (auto simp: rule_matches_def)
qed

lemma eval_rule:
  assumes "loaded c R"
    and "rule_matches r c \<Longrightarrow> v = (if dr_allow r then 1 else 0)"
    and "\<not> rule_matches r c \<Longrightarrow> bpf_eval c (p @ rule_code r @ q) R (length p + length (rule_code r)) v"
  shows "bpf_eval c (p @ rule_code r @ q) R (length p) v"
proof -
  let ?tail = "[alu64_mov_imm 0 (if dr_allow r then 1 else 0), EXIT_INSN] @ q"
  let ?p = "p @ check_code (rule_checks r) @ ?tail"
  let ?n = "length p + length (rule_checks r)"
  have P: "p @ rule_code r @ q = ?p" by (simp add: rule_code_def)
  have wf: "\<forall>x \<in> set (rule_checks r). check_wf x" using check_wf_rule by blast
  show ?thesis
    unfolding P
  proof (rule eval_checks [OF wf length_rule_checks])
    show "bpf_eval c ?p R (?n + (if \<exists>x \<in> set (rule_checks r). check_fails x R then 2 else 0)) v"
    proof (cases "rule_matches r c")
      case True
      have "bpf_eval c ?p (R(0 := scast (if dr_allow r then 1 else 0 :: i32))) (Suc ?n) v"
        by (rule eval_done) (simp_all add: nth_append exec_exit assms(2) [OF True])
      then have "bpf_eval c ?p R ?n v"
        by (intro eval_next [where pc = ?n]) (simp_all add: nth_append exec_mov)
      with True show ?thesis by (simp add: rule_checks_iff [OF assms(1)])
    next
      case False
      with assms(3) [OF False] show ?thesis
        by (simp add: rule_checks_iff [OF assms(1)] P length_rule_code add.assoc)
    qed
  qed
qed


lemma eval_body:
  "loaded c R \<Longrightarrow> bpf_eval c (p @ body_code rules) R (length p) (if decide rules c then 1 else 0)"
proof (induction rules arbitrary: p)
  case Nil
  have "bpf_eval c (p @ body_code []) (R(0 := 0)) (Suc (length p)) 0"
    by (rule eval_done) (simp_all add: nth_append exec_exit)
  then show ?case
    by (auto intro!: eval_next [where pc = "length p"] simp: exec_mov)
next
  case (Cons r rs)
  have "bpf_eval c (p @ rule_code r @ (if is_wildcard r then [] else body_code rs)) R (length p)
      (if decide (r # rs) c then 1 else 0)"
    using Cons.IH [of "p @ rule_code r"] Cons.prems wildcard_matches [of r c]
    by (intro eval_rule) auto
  then show ?case by simp
qed

lemma length_prologue [simp]: "length prologue = 6"
  by (simp add: prologue_def)

lemma eval_prologue:
  fixes R :: "u8 \<Rightarrow> u64"
  assumes "\<And>R. loaded c R \<Longrightarrow> bpf_eval c (prologue @ q) R 6 v"
  shows "bpf_eval c (prologue @ q) R 0 v"
proof -
  have l: "bpf_eval c (prologue @ q) S k v"
    if "bpf_exec1 c (prologue ! k) S k = Next S' k'" "k < 6" "bpf_eval c (prologue @ q) S' k' v"
    for k k' S S'
    using that by (intro eval_next [of k _ c S S' k']) (auto simp: nth_append)
  note s = prologue_def bpf_exec1_def ldx_w_def alu32_imm_def src_reg_def dst_reg_def regs_def ctx_field_def
  let ?x = "ucast (access_type c) :: u64"
  let ?R1 = "R(3 := ?x)"
  let ?R2 = "?R1(2 := ?x)"
  let ?R3 = "?R2(4 := ucast (ctx_major c))"
  let ?R4 = "?R3(5 := ucast (ctx_minor c))"
  let ?R5 = "?R4(3 := ucast (ctx_access c))"
  let ?R6 = "?R5(2 := ucast (ctx_type c))"
  have u: "ucast ?x = access_type c"
    by (rule bit_word_eqI) (simp add: bit_simps)
  have 1: "bpf_exec1 c (prologue ! 0) R 0 = Next ?R1 1" by (simp add: s)
  have 2: "bpf_exec1 c (prologue ! 1) ?R1 1 = Next ?R2 2" by (simp add: s)
  have 3: "bpf_exec1 c (prologue ! 2) ?R2 2 = Next ?R3 3" by (simp add: s)
  have 4: "bpf_exec1 c (prologue ! 3) ?R3 3 = Next ?R4 4" by (simp add: s)
  have 5: "bpf_exec1 c (prologue ! 4) ?R4 4 = Next ?R5 5" by (simp add: s u ctx_access_def)
  have 6: "bpf_exec1 c (prologue ! 5) ?R5 5 = Next ?R6 6" by (simp add: s u ctx_type_def)
  have e6: "bpf_eval c (prologue @ q) ?R6 6 v"
    by (rule assms) (simp add: loaded_def)
  have e4: "bpf_eval c (prologue @ q) ?R4 4 v"
    by (rule l [OF 5 _ l [OF 6 _ e6]]) simp_all
  have e2: "bpf_eval c (prologue @ q) ?R2 2 v"
    by (rule l [OF 3 _ l [OF 4 _ e4]]) simp_all
  show ?thesis
    by (rule l [OF 1 _ l [OF 2 _ e2]]) simp_all
qed


lemma forward_append [simp]: "forward_jumps (p @ q) \<longleftrightarrow> forward_jumps p \<and> forward_jumps q"
  by (auto simp: forward_jumps_def)

lemma forward_Cons [simp]:
  "forward_jumps (i # p) \<longleftrightarrow> (is_jump i \<longrightarrow> 0 \<le> sint (off i)) \<and> forward_jumps p"
  by (auto simp: forward_jumps_def)

lemma not_jump [simp]: "\<not> is_jump (alu64_mov_imm d i)" "\<not> is_jump EXIT_INSN" "\<not> is_jump (ldx_w d r f)"
  by (simp_all add: is_jump_def alu64_mov_imm_def EXIT_INSN_def ldx_w_def)

lemma forward_Nil [simp]: "forward_jumps []"
  by (simp add: forward_jumps_def)

lemma forward_prologue [simp]: "forward_jumps prologue"
  by (simp add: prologue_def del: not_jump) (simp add: is_jump_def alu32_imm_def ldx_w_def)

lemma off_jmp_imm [simp]: "off (jmp_imm op d i f) = f"
  by (simp add: jmp_imm_def)

lemma forward_checks: "length cs \<le> 4 \<Longrightarrow> forward_jumps (check_code cs)"
proof (induction cs rule: check_code.induct)
  case (2 op d i cs)
  then have "sint (of_nat (length cs + 2) :: i16) = int (length cs + 2)"
    by (intro sint_small) simp
  with 2 show ?case by (simp del: of_nat_add)
qed simp

lemma forward_body: "forward_jumps (body_code rules)"
  by (induction rules) (auto simp: rule_code_def forward_checks length_rule_checks)

lemma emit_insns_eval: "bpf_eval c (emit_insns rules) R 0 (if decide rules c then 1 else 0)"
  unfolding emit_insns_code
proof (rule eval_prologue)
  fix S assume "loaded c S"
  from eval_body [OF this, of prologue rules]
  show "bpf_eval c (prologue @ body_code rules) S 6 (if decide rules c then 1 else 0)"
    by (simp only: length_prologue)
qed

lemma emit_insns_run:
  "bpf_run (length (emit_insns rules)) c (emit_insns rules) R 0 = Some (if decide rules c then 1 else 0)"
  using bpf_eval_run [OF emit_insns_eval, of rules c R]
  by (simp add: emit_insns_code forward_body)

lemma le16_inverse: "of_le16 (ucast w) (ucast (drop_bit 8 w)) = w"
  unfolding of_le16_def
  by (rule bit_word_eqI) (auto simp: bit_simps not_less dest: bit_imp_le_length)

lemma le32_inverse:
  "of_le32 (ucast w) (ucast (drop_bit 8 w)) (ucast (drop_bit 16 w)) (ucast (drop_bit 24 w)) = w"
  unfolding of_le32_def
proof (rule bit_word_eqI)
  fix n assume "n < LENGTH(32)"
  then consider "n < 8" | "8 \<le> n" "n < 16" | "16 \<le> n" "n < 24" | "24 \<le> n" "n < 32"
    by force
  then show "bit (ucast (ucast w :: u8) OR push_bit 8 (ucast (ucast (drop_bit 8 w) :: u8)) OR
      push_bit 16 (ucast (ucast (drop_bit 16 w) :: u8)) OR
      push_bit 24 (ucast (ucast (drop_bit 24 w) :: u8)) :: u32) n = bit w n"
    by cases (auto simp: bit_simps)
qed

lemma decode_insns_to_bytes: "decode_insns (insns_to_bytes p) = Some p"
  by (induction p) (simp_all add: insns_to_bytes_def insn_bytes_def le16_def le32_def le16_inverse le32_inverse)

lemma kernel_verdict_emit [bpf_code]:
  "kernel_verdict (emit_program rules) R c = Some (if decide rules c then 1 else 0)"
  by (simp add: kernel_verdict_def emit_program_def decode_insns_to_bytes emit_insns_run)

lemma decide_append:
  "decide (rs @ rs') c = (if \<exists>r \<in> set rs. rule_matches r c then decide rs c else decide rs' c)"
  by (induction rs) auto

lemma decide_all_allow: "\<forall>r \<in> set rs. dr_allow r \<Longrightarrow> decide rs c \<longleftrightarrow> (\<exists>r \<in> set rs. rule_matches r c)"
  by (induction rs) auto

lemma body_code_wildcard: "is_wildcard r \<Longrightarrow> body_code (rs @ r # rs') = body_code (rs @ [r])"
  by (induction rs) auto

lemma defaults_allow: "\<forall>r \<in> set default_oci_devices. dr_allow r"
  by (auto simp: default_oci_devices_def)

lemma parse_extra_device_allow: "parse_extra_device J d = Some r \<Longrightarrow> dr_allow r"
  by (cases "get_i64 J d ''major''"; cases "get_i64 J d ''minor''")
     (auto simp: parse_extra_device_def Let_def split: if_splits)

lemma extras_allow: "\<forall>r \<in> set (parse_extra_devices J extra). dr_allow r"
  by (auto simp: parse_extra_devices_def set_filter_map parse_extra_device_allow split: option.splits)

lemma devices_compile_Ok:
  "devices_compile J res extra = Ok bytes \<longleftrightarrow>
     bytes = (if parse_rules J res = [] then []
              else emit_program (default_oci_devices @ parse_extra_devices J extra @ parse_rules J res))"
  by (auto simp: devices_compile_def Let_def)

lemma length_insns_to_bytes [simp]: "length (insns_to_bytes p) = 8 * length p"
  by (induction p) (simp_all add: insns_to_bytes_def insn_bytes_def le16_def le32_def)

lemma length_body_code: "length (body_code rules) \<le> 2 + 6 * length rules"
proof (induction rules)
  case (Cons r rs)
  then show ?case using length_rule_checks [of r] by (simp add: length_rule_code)
qed simp

lemma emit_program_nonempty: "emit_program rules \<noteq> []"
  by (metis emit_insns_code emit_program_def length_0_conv length_append length_insns_to_bytes
      length_prologue mult_is_0 add_is_0 zero_neq_numeral)

section \<open>Properties\<close>

text \<open>
  C1: the eBPF program \<^verbatim>\<open>emit_program\<close> produces, read back from its bytes and run by the kernel on
  any device access from any initial registers, terminates within as many steps as it has
  instructions and returns 1 exactly when the first rule that matches the access allows it, and 0
  when it denies it or no rule matches.
\<close>

theorem device_filter_correct:
  "kernel_verdict (emit_program rules) R c = Some (if decide rules c then 1 else 0)"
  by (simp add: kernel_verdict_emit)

text \<open>
  whenever a filter is installed at all, it allows every kind of access to the six OCI default
  devices, whatever the user's rules say: they cannot be locked out of the container.
\<close>

theorem default_devices_always_allowed:
  assumes "devices_compile J res extra = Ok bytes" and "bytes \<noteq> []"
    and "ctx_type c = 2"
    and "(ctx_major c, ctx_minor c) \<in> {(1, 3), (1, 5), (1, 7), (1, 8), (1, 9), (5, 0)}"
  shows "kernel_verdict bytes R c = Some 1"
proof -
  let ?rs = "default_oci_devices @ parse_extra_devices J extra @ parse_rules J res"
  have b: "bytes = emit_program ?rs"
    using assms(1,2) by (auto simp: devices_compile_Ok split: if_splits)
  have m: "\<exists>r \<in> set default_oci_devices. rule_matches r c"
    using assms(3,4)
    by (auto simp: default_oci_devices_def rule_matches_def type_ok_def access_ok_def number_ok_def and.assoc)
  then have "decide default_oci_devices c"
    using decide_all_allow [OF defaults_allow] by blast
  with m show ?thesis by (simp add: b kernel_verdict_emit decide_append)
qed

theorem default_devices_always_allowed_witness:
  "kernel_verdict
     (emit_program (default_oci_devices @
        [\<lparr>dr_kind = 0, dr_access = 7, dr_major = -1, dr_minor = -1, dr_allow = False\<rparr>]))
     (\<lambda>_. 0) \<lparr>access_type = 0x60002, ctx_major = 1, ctx_minor = 5\<rparr> = Some 1"
proof -
  let ?cfg = "JObj [(''devices'', JArr [JObj [(''allow'', JBool False), (''type'', JStr ''a'')]])]"
  have r: "parse_rules jv (Some ?cfg)
      = [\<lparr>dr_kind = 0, dr_access = 7, dr_major = -1, dr_minor = -1, dr_allow = False\<rparr>]"
    by (simp add: parse_rules_def parse_rule_def get_defs Let_def)
  have c: "devices_compile jv (Some ?cfg) None = Ok (emit_program (default_oci_devices @
        [\<lparr>dr_kind = 0, dr_access = 7, dr_major = -1, dr_minor = -1, dr_allow = False\<rparr>]))"
    by (simp add: devices_compile_def r parse_extra_devices_def)
  show ?thesis
    by (rule default_devices_always_allowed [OF c]) (simp_all add: emit_program_nonempty ctx_type_def)
qed

text \<open>
  C3: \<^verbatim>\<open>compile\<close> skips the filter (an empty program) exactly when the spec has no device rules, and
  it never fails.
\<close>

theorem device_filter_empty_iff:
  "\<exists>bytes. devices_compile J res extra = Ok bytes \<and> (bytes = [] \<longleftrightarrow> parse_rules J res = [])"
  by (auto simp: devices_compile_Ok emit_program_nonempty)

text \<open>
  a deny-everything rule at the head of the user's list, as container engines write it, makes
  every later user rule dead: the filter then allows an access only to a default device or to a
  device of the creation list, even where a later rule allows it.
\<close>

theorem leading_deny_all_shadows_later_rules:
  assumes "parse_rules J res = d # later" and "is_wildcard d" and "\<not> dr_allow d"
    and "devices_compile J res extra = Ok bytes"
  shows "kernel_verdict bytes R c = Some 1 \<longleftrightarrow>
    (\<exists>r \<in> set (default_oci_devices @ parse_extra_devices J extra). rule_matches r c)"
proof -
  let ?imp = "default_oci_devices @ parse_extra_devices J extra"
  have b: "bytes = emit_program (?imp @ d # later)"
    using assms by (simp add: devices_compile_Ok)
  have "\<forall>r \<in> set ?imp. dr_allow r" using defaults_allow extras_allow by auto
  note imp = decide_all_allow [OF this, of c]
  have "decide (d # later) c = False"
    using assms(2,3) wildcard_matches [of d c] by simp
  then show ?thesis
    unfolding b kernel_verdict_emit decide_append [of ?imp "d # later"] using imp by auto
qed

theorem leading_deny_all_shadows_later_rules_witness:
  "\<exists>res bytes. devices_compile jv (Some res) None = Ok bytes \<and>
     parse_rules jv (Some res) =
       [\<lparr>dr_kind = 0, dr_access = 7, dr_major = -1, dr_minor = -1, dr_allow = False\<rparr>,
        \<lparr>dr_kind = 2, dr_access = 7, dr_major = 10, dr_minor = 200, dr_allow = True\<rparr>] \<and>
     kernel_verdict bytes (\<lambda>_. 0) \<lparr>access_type = 0x20002, ctx_major = 10, ctx_minor = 200\<rparr> \<noteq> Some 1"
proof -
  let ?cfg = "JObj [(''devices'', JArr [JObj [(''allow'', JBool False), (''type'', JStr ''a'')],
     JObj [(''allow'', JBool True), (''type'', JStr ''c''), (''major'', JPos 10), (''minor'', JPos 200)]])]"
  let ?d = "\<lparr>dr_kind = 0, dr_access = 7, dr_major = -1, dr_minor = -1, dr_allow = False\<rparr>"
  let ?a = "\<lparr>dr_kind = 2, dr_access = 7, dr_major = 10, dr_minor = 200, dr_allow = True\<rparr>"
  let ?c = "\<lparr>access_type = 0x20002, ctx_major = 10, ctx_minor = 200\<rparr>"
  have r: "parse_rules jv (Some ?cfg) = [?d, ?a]"
    by (simp add: parse_rules_def parse_rule_def get_defs Let_def)
  obtain bytes where c: "devices_compile jv (Some ?cfg) None = Ok bytes"
    by (simp add: devices_compile_Ok)
  have "is_wildcard ?d" by (simp add: is_wildcard_def)
  from leading_deny_all_shadows_later_rules [OF r this _ c]
  have "kernel_verdict bytes (\<lambda>_. 0) ?c \<noteq> Some 1"
    by (simp add: default_oci_devices_def parse_extra_devices_def rule_matches_def type_ok_def number_ok_def)
  with c r show ?thesis by blast
qed

text \<open>
  what the kernel's verifier asks of the program: it decodes, every conditional jump goes
  forward, the last instruction is \<open>EXIT\<close>, and it has at most 8 + 6 n instructions of 8 bytes for n
  rules; six per rule are reached by a rule that restricts type, access, major and minor.
\<close>

theorem device_program_shape:
  "\<exists>p. decode_insns (emit_program rules) = Some p \<and> forward_jumps p \<and> last p = EXIT_INSN \<and>
     length (emit_program rules) = 8 * length p \<and> length p \<le> 8 + 6 * length rules"
proof -
  have "body_code rules \<noteq> [] \<and> last (body_code rules) = EXIT_INSN"
    by (induction rules) (simp_all add: rule_code_def)
  then have "last (emit_insns rules) = EXIT_INSN" by (simp add: emit_insns_code)
  moreover have "length (emit_insns rules) \<le> 8 + 6 * length rules"
    using length_body_code [of rules] by (simp add: emit_insns_code)
  ultimately show ?thesis
    by (intro exI [of _ "emit_insns rules"])
       (simp add: emit_program_def decode_insns_to_bytes emit_insns_code forward_body)
qed

text \<open>The sources' comment counts five instructions for the worst rule; this one takes six.\<close>

lemma six_instruction_rule:
  "length (rule_code \<lparr>dr_kind = 2, dr_access = 2, dr_major = 1, dr_minor = 3, dr_allow = True\<rparr>) = 6"
  by (simp add: rule_code_def rule_checks_def)

end
