(* ===== verification/Ebpf_Verifier.thy ===== *)
theory Ebpf_Verifier
  imports Devices
begin

text \<open>
  What the kernel's verifier asks of a device program, as a type system for the fragment of eBPF in \<open>Ebpf\<close>: a
  type is the set of registers that hold a number. Typed programs run to a verdict that no uninitialised register
  influences, and every program of the device rule compiler is typed.
\<close>

section \<open>The type system\<close>

text \<open>Register 1 holds the context and register 10 the frame; neither is written.\<close>

definition writable :: "u8 \<Rightarrow> bool" where
  "writable d \<longleftrightarrow> d < 10 \<and> d \<noteq> 1"

function verify :: "u8 set \<Rightarrow> bpf_insn list \<Rightarrow> bool" where
  "verify D [] = False"
| "verify D (i # p) =
     (if code i = 0x95 then 0 \<in> D
      else if code i = 0x61 then src_reg i = 1 \<and> off i \<in> {0, 4, 8} \<and> writable (dst_reg i) \<and> verify (insert (dst_reg i) D) p
      else if code i = 0xb7 then writable (dst_reg i) \<and> verify (insert (dst_reg i) D) p
      else if code i = 0x54 then dst_reg i \<in> D \<and> verify D p
      else if code i = 0x74 then dst_reg i \<in> D \<and> imm i < 32 \<and> verify D p
      else if code i = 0x55 \<or> code i = 0x45 then
        dst_reg i \<in> D \<and> 0 \<le> sint (off i) \<and> verify D p \<and> verify D (drop (nat (sint (off i))) p)
      else False)"
  by pat_completeness auto

termination
  by (relation "measure (\<lambda>(D, p). length p)") auto

section \<open>Soundness\<close>

text \<open>Register files that agree on the registers in use give the same verdict.\<close>

definition agree :: "u8 set \<Rightarrow> (u8 \<Rightarrow> u64) \<Rightarrow> (u8 \<Rightarrow> u64) \<Rightarrow> bool" where
  "agree D R S \<longleftrightarrow> (\<forall>d \<in> D. R d = S d)"

lemma agree_update [simp]: "agree D R S \<Longrightarrow> agree (insert d D) (R(d := v)) (S(d := v))"
  by (simp add: agree_def)

lemma agree_same: "agree D R S \<Longrightarrow> d \<in> D \<Longrightarrow> agree D (R(d := v)) (S(d := v))"
  by (simp add: agree_def)

text \<open>One step of a typed program: both runs end alike, or go on at the same place with a typed rest.\<close>

lemma verify_step:
  assumes "verify D (i # q)" and "agree D R S"
  shows "(\<exists>v. bpf_exec1 c i R pc = Done v \<and> bpf_exec1 c i S pc = Done v) \<or>
    (\<exists>R' S' D' k. bpf_exec1 c i R pc = Next R' (Suc pc + k) \<and> bpf_exec1 c i S pc = Next S' (Suc pc + k) \<and>
       agree D' R' S' \<and> verify D' (drop k q))"
proof -
  have same: "R d = S d" if "d \<in> D" for d using assms(2) that by (simp add: agree_def)
  consider "code i = 0x95" | "code i = 0x61" | "code i = 0xb7" | "code i = 0x54" | "code i = 0x74" | "code i = 0x55 \<or> code i = 0x45"
    using assms(1) by (auto split: if_splits)
  then show ?thesis
  proof cases
    case 6
    define k where "k = (if jump_target pc i = Suc pc \<or> bpf_exec1 c i R pc = Next R (Suc pc) then 0 else nat (sint (off i)))"
    have v: "dst_reg i \<in> D" "0 \<le> sint (off i)" "verify D q" "verify D (drop (nat (sint (off i))) q)" using assms(1) 6 by (auto split: if_splits)
    have t: "jump_target pc i = Suc pc + nat (sint (off i))" using v(2) by (simp add: jump_target_def)
    have "bpf_exec1 c i R pc = Next R (Suc pc + k) \<and> bpf_exec1 c i S pc = Next S (Suc pc + k)"
      using 6 same [OF v(1)] by (auto simp: bpf_exec1_def k_def t)
    moreover have "verify D (drop k q)" using v by (simp add: k_def)
    ultimately show ?thesis using assms(2) by blast
  next
    case 2
    then obtain v where "ctx_field c (off i) = Some v" using assms(1) by (auto simp: ctx_field_def)
    with 2 assms show ?thesis
      by (intro disjI2 exI [of _ "R(dst_reg i := ucast v)"] exI [of _ "S(dst_reg i := ucast v)"] exI [of _ "insert (dst_reg i) D"] exI [of _ 0])
         (simp add: bpf_exec1_def)
  next
    case 3
    with assms show ?thesis
      by (intro disjI2 exI [of _ "R(dst_reg i := scast (imm i))"] exI [of _ "S(dst_reg i := scast (imm i))"] exI [of _ "insert (dst_reg i) D"] exI [of _ 0])
         (simp add: bpf_exec1_def)
  next
    case 1
    with assms show ?thesis by (simp add: same bpf_exec1_def)
  next
    case 4
    then have d: "dst_reg i \<in> D" "verify D (drop 0 q)" using assms(1) by auto
    from 4 have "bpf_exec1 c i T pc = Next (T(dst_reg i := ucast ((ucast (T (dst_reg i)) :: u32) AND imm i))) (Suc pc + 0)" for T
      by (simp add: bpf_exec1_def)
    with agree_same [OF assms(2) d(1)] d same [OF d(1)] show ?thesis by metis
  next
    case 5
    then have d: "dst_reg i \<in> D" "verify D (drop 0 q)" using assms(1) by auto
    from 5 have "bpf_exec1 c i T pc = Next (T(dst_reg i := ucast (drop_bit (unat (imm i)) (ucast (T (dst_reg i)) :: u32)))) (Suc pc + 0)" for T
      by (simp add: bpf_exec1_def)
    with agree_same [OF assms(2) d(1)] d same [OF d(1)] show ?thesis by metis
  qed
qed

lemma verify_runs:
  assumes "verify D (drop pc p)" and "agree D R S"
  shows "\<exists>v. bpf_run (length p - pc) c p R pc = Some v \<and> bpf_run (length p - pc) c p S pc = Some v"
  using assms
proof (induction "length p - pc" arbitrary: D pc R S rule: less_induct)
  case less
  then obtain i q where q: "drop pc p = i # q" by (cases "drop pc p") auto
  then have i: "pc < length p" "p ! pc = i" "q = drop (Suc pc) p"
    by (auto simp: nth_via_drop drop_Suc tl_drop [symmetric]) (metis drop_all linorder_not_le list.discI)
  then obtain n where n: "length p - pc = Suc n" by (cases "length p - pc") auto
  from less.prems q have "verify D (i # q)" by simp
  from verify_step [OF this less.prems(2), of c pc] show ?case
  proof (elim disjE exE conjE)
    fix R' S' D' k
    assume s: "bpf_exec1 c i R pc = Next R' (Suc pc + k)" "bpf_exec1 c i S pc = Next S' (Suc pc + k)" "agree D' R' S'" "verify D' (drop k q)"
    have rest: "verify D' (drop (Suc pc + k) p)" using s(4) i(3) by (simp add: add.commute)
    from i(1) have "length p - (Suc pc + k) < length p - pc" by linarith
    from less.hyps [OF this rest s(3)] obtain v where
      "bpf_run (length p - (Suc pc + k)) c p R' (Suc pc + k) = Some v" "bpf_run (length p - (Suc pc + k)) c p S' (Suc pc + k) = Some v" by blast
    then have "bpf_run n c p R' (Suc pc + k) = Some v" "bpf_run n c p S' (Suc pc + k) = Some v"
      using n by (auto elim!: bpf_run_mono)
    with s(1,2) i n show ?case by simp
  qed (use i n in simp)
qed

section \<open>The emitted programs\<close>

lemma verify_jump:
  "code i = 0x55 \<or> code i = 0x45 \<Longrightarrow>
   verify D (i # p) \<longleftrightarrow> dst_reg i \<in> D \<and> 0 \<le> sint (off i) \<and> verify D p \<and> verify D (drop (nat (sint (off i))) p)"
  by auto

lemma verify_checks:
  assumes "\<And>c. c \<in> set cs \<Longrightarrow> check_wf c" and "length cs \<le> 4" and "{2, 3, 4, 5} \<subseteq> D" and "cs \<noteq> [] \<Longrightarrow> verify D rest"
  shows "verify D (check_code cs @ alu64_mov_imm 0 i # EXIT_INSN # rest)"
  using assms
proof (induction cs rule: check_code.induct)
  case 1
  show ?case by (simp add: alu64_mov_imm_def EXIT_INSN_def dst_reg_def regs_def writable_def)
next
  case (2 op d j cs)
  have off: "sint (of_nat (length cs + 2) :: i16) = int (length cs + 2)" using 2(3) by (intro sint_small) simp
  have d: "op = BPF_JNE \<or> op = BPF_JSET" "d \<in> {2, 3, 4, 5}" using 2(2) [of "(op, d, j)"] by (auto simp: check_wf_def)
  have "dst_reg (jmp_imm op d j f) = d" for f using regs_low [OF d(2)] by (simp add: dst_reg_def jmp_imm_def)
  moreover have "code (jmp_imm op d j f) = 0x55 \<or> code (jmp_imm op d j f) = 0x45" for f using d(1) by (auto simp: jmp_imm_def)
  moreover have "verify D (check_code cs @ alu64_mov_imm 0 i # EXIT_INSN # rest)" using 2 by simp
  moreover have "drop (nat (sint (of_nat (length cs + 2) :: i16))) (check_code cs @ alu64_mov_imm 0 i # EXIT_INSN # rest) = rest"
    unfolding off nat_int by simp
  moreover have "0 \<le> sint (of_nat (length cs + 2) :: i16)" "d \<in> D" "verify D rest" using off 2(4,5) d(2) by auto
  ultimately show ?case by (simp add: verify_jump del: of_nat_add verify.simps)
qed

lemma wildcard_checks: "is_wildcard r \<Longrightarrow> rule_checks r = []"
  by (auto simp: is_wildcard_def rule_checks_def)

lemma verify_body: "{2, 3, 4, 5} \<subseteq> D \<Longrightarrow> verify D (body_code rules)"
proof (induction rules)
  case Nil
  then show ?case using verify_checks [of "[]" D "[]"] by (simp del: verify.simps)
next
  case (Cons r rules)
  let ?rest = "if is_wildcard r then [] else body_code rules"
  have "rule_checks r \<noteq> [] \<Longrightarrow> verify D ?rest" using Cons by (auto dest: wildcard_checks)
  from verify_checks [OF check_wf_rule length_rule_checks Cons.prems this, where i = "if dr_allow r then 1 else 0"] show ?case
    by (simp add: rule_code_def del: verify.simps)
qed

lemma verify_emitted: "verify {} (emit_insns rules)"
  unfolding emit_insns_code prologue_def
  by (simp add: ldx_w_def alu32_imm_def src_reg_def dst_reg_def regs_def writable_def verify_body)

text \<open>
  C2: Every emitted device program is accepted by the verifier's typing: the bytes decode to instructions that read only
  registers written before, on every path, leave the context and frame registers alone, load
  inside the context, jump forward within the program and end in \<open>EXIT\<close> with a result. So, whatever the access and
  whatever the registers hold at entry, the run takes at most one step per instruction and returns the same verdict.
\<close>
theorem device_program_typed:
  "\<exists>p. decode_insns (emit_program rules) = Some p \<and> verify {} p \<and> length p \<le> 8 + 6 * length rules \<and>
     (\<forall>c R S. \<exists>v. bpf_run (length p) c p R 0 = Some v \<and> bpf_run (length p) c p S 0 = Some v)"
proof -
  have "length (emit_insns rules) \<le> 8 + 6 * length rules"
    using length_body_code [of rules] by (simp add: emit_insns_code)
  moreover have "\<exists>v. bpf_run (length (emit_insns rules)) c (emit_insns rules) R 0 = Some v \<and>
      bpf_run (length (emit_insns rules)) c (emit_insns rules) S 0 = Some v" for c R S
    using verify_runs [of "{}" 0 "emit_insns rules" R S c] verify_emitted by (simp add: agree_def)
  ultimately show ?thesis
    by (intro exI [of _ "emit_insns rules"]) (simp add: emit_program_def decode_insns_to_bytes verify_emitted)
qed

end
