(* ===== verification/Rust_Str.thy ===== *)
theory Rust_Str
  imports Prelude
begin

text \<open>
  The part of Rust's standard string library the sources use: printing and parsing of integers in
  a base, \<^verbatim>\<open>trim\<close>, \<^verbatim>\<open>strip_prefix\<close>/\<^verbatim>\<open>strip_suffix\<close>, \<^verbatim>\<open>split\<close>, \<^verbatim>\<open>join\<close>, \<^verbatim>\<open>rsplit_once\<close> and
  substring tests, on UTF-8 byte sequences.
\<close>

section \<open>Integers\<close>

definition digit_char :: "nat \<Rightarrow> char" where
  "digit_char d = (if d < 10 then char_of (48 + d) else char_of (87 + d))"

fun show_base :: "nat \<Rightarrow> nat \<Rightarrow> string" where
  "show_base b n = (if b < 2 \<or> n < b then [digit_char n] else show_base b (n div b) @ [digit_char (n mod b)])"

declare show_base.simps [simp del]

definition dec_nat :: "nat \<Rightarrow> string" where
  "dec_nat n = show_base 10 n"

definition dec_int :: "int \<Rightarrow> string" where
  "dec_int i = (if i < 0 then ''-'' @ dec_nat (nat (- i)) else dec_nat (nat i))"

definition dec_u64 :: "'a::len word \<Rightarrow> string" where
  "dec_u64 w = dec_nat (unat w)"

definition dec_i64 :: "'a::len word \<Rightarrow> string" where
  "dec_i64 w = dec_int (sint w)"

text \<open>\<^verbatim>\<open>char::to_digit\<close> for a radix up to ten.\<close>

definition digit_val :: "nat \<Rightarrow> char \<Rightarrow> nat option" where
  "digit_val b c = (let v = of_char c in if 48 \<le> v \<and> v < 48 + b \<and> v \<le> 57 then Some (v - 48) else None)"

fun parse_digits :: "nat \<Rightarrow> nat \<Rightarrow> string \<Rightarrow> nat option" where
  "parse_digits b acc [] = Some acc"
| "parse_digits b acc (c # cs) = and_then (digit_val b c) (\<lambda>d. parse_digits b (acc * b + d) cs)"

text \<open>
  \<^verbatim>\<open>from_str_radix\<close> for an unsigned type with values below \<open>lim\<close>: one leading plus sign is
  accepted, the empty string and an overflow are errors.
\<close>

definition parse_unsigned :: "nat \<Rightarrow> nat \<Rightarrow> string \<Rightarrow> nat option" where
  "parse_unsigned b lim s =
     (let ds = (case s of c # cs \<Rightarrow> if c = CHR ''+'' then cs else s | [] \<Rightarrow> s)
      in if ds = [] then None
         else and_then (parse_digits b 0 ds) (\<lambda>n. if n < lim then Some n else None))"

definition parse_u64 :: "string \<Rightarrow> u64 option" where
  "parse_u64 s = map_option of_nat (parse_unsigned 10 (2 ^ 64) s)"

definition parse_i32 :: "string \<Rightarrow> int option" where
  "parse_i32 s =
     (case s of
        c # cs \<Rightarrow>
          (if c = CHR ''-'' then
             (if cs = [] then None
              else and_then (parse_digits 10 0 cs) (\<lambda>n. if n \<le> 2 ^ 31 then Some (- int n) else None))
           else map_option int (parse_unsigned 10 (2 ^ 31) s))
      | [] \<Rightarrow> None)"

lemma digit_val_char: "b \<le> 10 \<Longrightarrow> d < b \<Longrightarrow> digit_val b (digit_char d) = Some d"
  by (simp add: digit_val_def digit_char_def Let_def)

lemma parse_digits_append:
  "parse_digits b acc (xs @ ys) = and_then (parse_digits b acc xs) (\<lambda>a. parse_digits b a ys)"
proof (induction xs arbitrary: acc)
  case (Cons c xs)
  then show ?case by (cases "digit_val b c") auto
qed simp

lemma parse_show_base:
  "2 \<le> b \<Longrightarrow> b \<le> 10 \<Longrightarrow> parse_digits b 0 (show_base b n) = Some n"
proof (induction b n rule: show_base.induct)
  case (1 b n)
  show ?case
  proof (cases "n < b")
    case True
    with 1 show ?thesis by (simp add: show_base.simps [of b n] digit_val_char)
  next
    case False
    with 1 have "parse_digits b 0 (show_base b (n div b)) = Some (n div b)" by simp
    with 1 False show ?thesis
      by (simp add: show_base.simps [of b n] parse_digits_append digit_val_char)
  qed
qed

lemma show_base_nonempty [simp]: "show_base b n \<noteq> []"
  by (simp add: show_base.simps [of b n])

lemma dec_nat_nonempty [simp]: "dec_nat n \<noteq> []"
  by (simp add: dec_nat_def)

lemma set_show_base: "2 \<le> b \<Longrightarrow> set (show_base b n) \<subseteq> digit_char ` {0 ..< b}"
proof (induction b n rule: show_base.induct)
  case (1 b n)
  show ?case
  proof (cases "n < b")
    case True
    with 1 show ?thesis by (simp add: show_base.simps [of b n])
  next
    case False
    with 1 have "set (show_base b (n div b)) \<subseteq> digit_char ` {0 ..< b}" by simp
    with 1 False show ?thesis by (simp add: show_base.simps [of b n])
  qed
qed

lemma length_show_base: "2 \<le> b \<Longrightarrow> n < b ^ k \<Longrightarrow> 0 < k \<Longrightarrow> length (show_base b n) \<le> k"
proof (induction b n arbitrary: k rule: show_base.induct)
  case (1 b n)
  show ?case
  proof (cases "n < b")
    case True
    with 1 show ?thesis by (simp add: show_base.simps [of b n])
  next
    case False
    obtain j where k: "k = Suc j" using 1(4) gr0_implies_Suc by blast
    with False 1(3) have j: "0 < j" by (cases j) simp_all
    with 1(3) k have "n div b < b ^ j" by (simp add: less_mult_imp_div_less mult.commute)
    with 1(1) [of j] 1(2) False j have "length (show_base b (n div b)) \<le> j" by simp
    with False 1(2) k show ?thesis by (simp add: show_base.simps [of b n])
  qed
qed

lemma length_show_base_ge: "2 \<le> b \<Longrightarrow> b ^ k \<le> n \<Longrightarrow> k < length (show_base b n)"
proof (induction b n arbitrary: k rule: show_base.induct)
  case (1 b n)
  show ?case
  proof (cases k)
    case (Suc j)
    have "b \<le> b ^ k" using 1 Suc by (simp add: self_le_power)
    with 1 have n: "\<not> n < b" by linarith
    have "b ^ j \<le> n div b"
      using 1 Suc by (simp add: less_eq_div_iff_mult_less_eq mult.commute)
    with 1 n have "j < length (show_base b (n div b))" by simp
    with n 1 Suc show ?thesis by (simp add: show_base.simps [of b n])
  qed (simp add: show_base.simps [of b n])
qed

text \<open>Decimal digits are ASCII digits: never a separator, a quote or a sign.\<close>

definition ascii_digits :: "char set" where
  "ascii_digits = set ''0123456789''"

lemma digit_char_simps [simp]:
  "digit_char 0 = CHR ''0''" "digit_char (Suc 0) = CHR ''1''" "digit_char 1 = CHR ''1''"
  "digit_char 2 = CHR ''2''" "digit_char 3 = CHR ''3''" "digit_char 4 = CHR ''4''"
  "digit_char 5 = CHR ''5''" "digit_char 6 = CHR ''6''" "digit_char 7 = CHR ''7''"
  "digit_char 8 = CHR ''8''" "digit_char 9 = CHR ''9''"
  by (simp_all add: digit_char_def char_of_def bit_simps)

lemma digit_char_ascii: "d < 10 \<Longrightarrow> digit_char d \<in> ascii_digits"
proof -
  assume "d < 10"
  then have "d \<in> {0, 1, 2, 3, 4, 5, 6, 7, 8, 9}" by auto
  then show ?thesis
    by (elim insertE emptyE) (simp_all add: ascii_digits_def)
qed

lemma set_dec_nat: "set (dec_nat n) \<subseteq> ascii_digits"
  using set_show_base [of 10 n] digit_char_ascii by (auto simp: dec_nat_def)

lemma plus_not_digit [simp]: "CHR ''+'' \<notin> ascii_digits"
  by (simp add: ascii_digits_def)

lemma dec_nat_hd: "hd (dec_nat n) \<in> ascii_digits"
  using set_dec_nat [of n] by (meson dec_nat_nonempty list.set_sel(1) subsetD)

lemma parse_unsigned_digits:
  "ds \<noteq> [] \<Longrightarrow> hd ds \<noteq> CHR ''+'' \<Longrightarrow> parse_digits b 0 ds = Some n \<Longrightarrow> n < lim \<Longrightarrow>
   parse_unsigned b lim ds = Some n"
  by (cases ds) (auto simp: parse_unsigned_def Let_def)

lemma parse_dec_nat: "n < lim \<Longrightarrow> parse_unsigned 10 lim (dec_nat n) = Some n"
  by (rule parse_unsigned_digits) (use dec_nat_hd [of n] plus_not_digit in \<open>auto simp: dec_nat_def parse_show_base\<close>)

lemma parse_u64_dec: "parse_u64 (dec_u64 w) = Some (w :: u64)"
  using unsigned_less [of w, where ?'a = nat] by (simp add: parse_u64_def dec_u64_def parse_dec_nat)

section \<open>Prefixes, suffixes, substrings\<close>

fun strip_prefix :: "string \<Rightarrow> string \<Rightarrow> string option" where
  "strip_prefix [] s = Some s"
| "strip_prefix (p # ps) [] = None"
| "strip_prefix (p # ps) (c # cs) = (if p = c then strip_prefix ps cs else None)"

definition starts_with :: "string \<Rightarrow> string \<Rightarrow> bool" where
  "starts_with s p = (strip_prefix p s \<noteq> None)"

definition strip_suffix :: "string \<Rightarrow> string \<Rightarrow> string option" where
  "strip_suffix p s = map_option rev (strip_prefix (rev p) (rev s))"

definition ends_with :: "string \<Rightarrow> string \<Rightarrow> bool" where
  "ends_with s p = (strip_suffix p s \<noteq> None)"

fun contains_str :: "string \<Rightarrow> string \<Rightarrow> bool" where
  "contains_str [] p = (p = [])"
| "contains_str (c # cs) p = (starts_with (c # cs) p \<or> contains_str cs p)"

lemma strip_prefix_iff: "strip_prefix p s = Some r \<longleftrightarrow> s = p @ r"
  by (induction p s rule: strip_prefix.induct) auto

lemma starts_with_iff: "starts_with s p \<longleftrightarrow> (\<exists>r. s = p @ r)"
  by (simp add: starts_with_def strip_prefix_iff)

lemma strip_suffix_iff: "strip_suffix p s = Some r \<longleftrightarrow> s = r @ p"
  by (auto simp: strip_suffix_def strip_prefix_iff rev_swap)

lemma ends_with_iff: "ends_with s p \<longleftrightarrow> (\<exists>r. s = r @ p)"
  by (simp add: ends_with_def strip_suffix_iff)

lemma contains_str_iff: "contains_str s p \<longleftrightarrow> (\<exists>u v. s = u @ p @ v)"
proof (induction s)
  case IH: (Cons c cs)
  show ?case
  proof
    assume "contains_str (c # cs) p"
    then show "\<exists>u v. c # cs = u @ p @ v"
    proof (cases "starts_with (c # cs) p")
      case True
      then obtain r where "c # cs = [] @ p @ r" by (auto simp: starts_with_iff)
      then show ?thesis by blast
    next
      case False
      with IH \<open>contains_str (c # cs) p\<close> obtain u v where "cs = u @ p @ v" by auto
      then have "c # cs = (c # u) @ p @ v" by simp
      then show ?thesis by blast
    qed
  next
    assume "\<exists>u v. c # cs = u @ p @ v"
    then obtain u v where uv: "c # cs = u @ p @ v" by blast
    show "contains_str (c # cs) p"
    proof (cases u)
      case Nil
      with uv have "starts_with (c # cs) p" unfolding starts_with_iff by simp
      then show ?thesis by simp
    next
      case (Cons d w)
      with uv have "cs = w @ p @ v" by simp
      with IH show ?thesis by auto
    qed
  qed
qed simp

section \<open>Trimming\<close>

text \<open>The UTF-8 encodings of the characters with the \<^verbatim>\<open>White_Space\<close> property.\<close>

definition ws_seqs :: "string list" where
  "ws_seqs = map (map char_of)
     ([[9], [10], [11], [12], [13], [32], [0xC2, 0x85], [0xC2, 0xA0], [0xE1, 0x9A, 0x80],
       [0xE2, 0x80, 0xA8], [0xE2, 0x80, 0xA9], [0xE2, 0x80, 0xAF], [0xE2, 0x81, 0x9F], [0xE3, 0x80, 0x80]] @
      map (\<lambda>k. [0xE2, 0x80, k]) [0x80 ..< 0x8B] :: nat list list)"

text \<open>One whitespace character at the front, for a set of encodings; each drops at least a byte.\<close>

fun strip_one :: "string list \<Rightarrow> string \<Rightarrow> string option" where
  "strip_one [] s = None"
| "strip_one (w # ws) s = (case strip_prefix w s of Some r \<Rightarrow> Some r | None \<Rightarrow> strip_one ws s)"

lemma strip_one_length: "[] \<notin> set ws \<Longrightarrow> strip_one ws s = Some r \<Longrightarrow> length r < length s"
  by (induction ws) (auto simp: strip_prefix_iff split: option.splits)

fun trim_front :: "nat \<Rightarrow> string list \<Rightarrow> string \<Rightarrow> string" where
  "trim_front 0 ws s = s"
| "trim_front (Suc n) ws s = (case strip_one ws s of Some r \<Rightarrow> trim_front n ws r | None \<Rightarrow> s)"

definition trim_start :: "string \<Rightarrow> string" where
  "trim_start s = trim_front (length s) ws_seqs s"

definition trim_end :: "string \<Rightarrow> string" where
  "trim_end s = rev (trim_front (length s) (map rev ws_seqs) (rev s))"

definition trim :: "string \<Rightarrow> string" where
  "trim s = trim_end (trim_start s)"

lemma trim_front_enough:
  "[] \<notin> set ws \<Longrightarrow> length s \<le> n \<Longrightarrow> strip_one ws (trim_front n ws s) = None"
proof (induction n arbitrary: s)
  case 0
  then show ?case by (cases "strip_one ws s") (auto dest: strip_one_length)
next
  case (Suc n)
  show ?case
  proof (cases "strip_one ws s")
    case (Some r)
    with Suc.prems have "length r \<le> n" by (fastforce dest: strip_one_length)
    with Some Suc show ?thesis by simp
  qed simp
qed

text \<open>Trimming leaves a text without white space alone.\<close>

definition word_chars :: "char set" where
  "word_chars = ascii_digits \<union> set ''abcdefghijklmnopqrstuvwxyz''"

lemma trim_word:
  assumes "\<forall>c \<in> set s. c \<in> word_chars"
  shows "trim s = s"
proof -
  have no: "strip_one ws t = None" if "\<forall>w \<in> set ws. w \<noteq> [] \<and> hd w \<notin> word_chars" "\<forall>c \<in> set t. c \<in> word_chars" for ws t
    using that
  proof (induction ws)
    case (Cons w ws)
    have "strip_prefix w t = None"
    proof (rule ccontr)
      assume "strip_prefix w t \<noteq> None"
      then obtain r where "t = w @ r" by (auto simp: strip_prefix_iff)
      with Cons.prems show False by (cases w) auto
    qed
    with Cons show ?case by simp
  qed simp
  have ws: "\<forall>w \<in> set ws_seqs. w \<noteq> [] \<and> hd w \<notin> word_chars" "\<forall>w \<in> set (map rev ws_seqs). w \<noteq> [] \<and> hd w \<notin> word_chars"
    by (simp_all add: ws_seqs_def word_chars_def ascii_digits_def upt_conv_Cons char_of_def bit_simps)
  have keep: "trim_front n ws t = t" if "\<forall>w \<in> set ws. w \<noteq> [] \<and> hd w \<notin> word_chars" "\<forall>c \<in> set t. c \<in> word_chars" for n ws t
    using no [OF that] by (cases n) simp_all
  show ?thesis
    unfolding trim_def trim_start_def trim_end_def
    using keep [OF ws(1) assms] keep [OF ws(2), of "rev s"] assms by simp
qed

lemma trim_ascii_digits: "\<forall>c \<in> set s. c \<in> ascii_digits \<Longrightarrow> trim s = s"
  by (rule trim_word) (simp add: word_chars_def)

section \<open>Splitting and joining\<close>

fun split_on :: "char \<Rightarrow> string \<Rightarrow> string list" where
  "split_on d [] = [[]]"
| "split_on d (c # cs) =
     (if c = d then [] # split_on d cs
      else (case split_on d cs of s # ss \<Rightarrow> (c # s) # ss | [] \<Rightarrow> [[c]]))"

fun join :: "string \<Rightarrow> string list \<Rightarrow> string" where
  "join sep [] = []"
| "join sep [s] = s"
| "join sep (s # ss) = s @ sep @ join sep ss"

lemma split_on_nonempty [simp]: "split_on d s \<noteq> []"
  by (induction s) (auto split: list.splits)

lemma split_on_no_sep: "d \<notin> set s \<Longrightarrow> split_on d s = [s]"
  by (induction s) auto

lemma split_on_append_sep: "split_on d (s @ d # t) = split_on d s @ split_on d t"
proof (induction s)
  case (Cons c s)
  then show ?case by (cases "split_on d s") (auto simp: append_eq_Cons_conv)
qed simp

lemma split_on_pieces: "p \<in> set (split_on d s) \<Longrightarrow> d \<notin> set p"
  by (induction s arbitrary: p) (auto split: list.splits if_splits)

lemma split_on_subset: "p \<in> set (split_on d s) \<Longrightarrow> set p \<subseteq> set s"
proof (induction s arbitrary: p)
  case (Cons c s)
  obtain q qs where q: "split_on d s = q # qs" by (cases "split_on d s") simp_all
  then have "r \<in> set (q # qs) \<Longrightarrow> set r \<subseteq> set s" for r using Cons.IH by simp
  from this [of q] this [of p] Cons.prems show ?case by (auto simp: q split: if_splits)
qed simp

lemma split_join:
  "ss \<noteq> [] \<Longrightarrow> \<forall>s \<in> set ss. d \<notin> set s \<Longrightarrow> split_on d (join [d] ss) = ss"
  by (induction "[d]" ss rule: join.induct) (auto simp: split_on_no_sep split_on_append_sep)

lemma join_split: "join [d] (split_on d s) = s"
proof (induction s)
  case (Cons c s)
  then show ?case by (cases "split_on d s") (auto, (metis join.simps(2,3) neq_Nil_conv append_Cons)+)
qed simp

lemma split_terminated:
  "(\<And>x. d \<notin> set (f x)) \<Longrightarrow> split_on d (concat (map (\<lambda>x. f x @ [d]) xs)) = map f xs @ [[]]"
proof (induction xs)
  case (Cons x xs)
  then show ?case
    using split_on_append_sep [of d "f x" "concat (map (\<lambda>x. f x @ [d]) xs)"]
    by (simp add: split_on_no_sep)
qed simp

text \<open>\<^verbatim>\<open>rsplit_once\<close> at the last separator, \<^verbatim>\<open>split_once\<close> at the first.\<close>

definition split_once :: "char \<Rightarrow> string \<Rightarrow> (string \<times> string) option" where
  "split_once d s =
     (if d \<in> set s then Some (takeWhile (\<lambda>c. c \<noteq> d) s, tl (dropWhile (\<lambda>c. c \<noteq> d) s)) else None)"

definition rsplit_once :: "char \<Rightarrow> string \<Rightarrow> (string \<times> string) option" where
  "rsplit_once d s = map_option (\<lambda>(a, b). (rev b, rev a)) (split_once d (rev s))"

lemma split_once_Some: "split_once d s = Some (a, b) \<Longrightarrow> s = a @ d # b \<and> d \<notin> set a"
proof -
  assume h: "split_once d s = Some (a, b)"
  then have d: "d \<in> set s" by (simp add: split_once_def split: if_splits)
  then have "dropWhile (\<lambda>c. c \<noteq> d) s = d # tl (dropWhile (\<lambda>c. c \<noteq> d) s)"
    by (metis (mono_tags, lifting) dropWhile_eq_Nil_conv hd_dropWhile list.collapse)
  then have "s = takeWhile (\<lambda>c. c \<noteq> d) s @ d # tl (dropWhile (\<lambda>c. c \<noteq> d) s)"
    by (metis takeWhile_dropWhile_id)
  with h d show ?thesis
    by (auto simp: split_once_def dest: set_takeWhileD)
qed

lemma rsplit_once_Some: "rsplit_once d s = Some (a, b) \<Longrightarrow> s = a @ d # b \<and> d \<notin> set b"
  by (auto simp: rsplit_once_def rev_swap dest: split_once_Some)

lemma rsplit_once_None: "rsplit_once d s = None \<longleftrightarrow> d \<notin> set s"
  by (simp add: rsplit_once_def split_once_def)

definition ascii_upper :: "char \<Rightarrow> char" where
  "ascii_upper c = (let v = of_char c :: nat in if 97 \<le> v \<and> v \<le> 122 then char_of (v - 32) else c)"

definition bytes_of :: "string \<Rightarrow> u8 list" where
  "bytes_of s = map of_char s"

lemma bytes_of_simps [simp]:
  "bytes_of [] = []" "bytes_of (c # s) = of_char c # bytes_of s" "bytes_of (s @ t) = bytes_of s @ bytes_of t"
  by (simp_all add: bytes_of_def)

end
