(* ===== verification/Ord_Map.thy ===== *)
theory Ord_Map
  imports Prelude "HOL-Library.Char_ord" "HOL-Library.List_Lexorder"
begin

text \<open>
  \<^verbatim>\<open>BTreeMap\<close> and \<^verbatim>\<open>BTreeSet\<close>: association lists kept in strictly ascending key order, which is
  also their iteration order. The interface the clients use (insertion, lookup, ordered
  iteration) is the locale \<open>ordered_map\<close>; the sorted list provides it. Strings are compared
  byte by byte, as Rust compares \<^verbatim>\<open>str\<close>.
\<close>

section \<open>The interface\<close>

locale ordered_map =
  fixes ins :: "'k::linorder \<Rightarrow> 'v \<Rightarrow> 'm \<Rightarrow> 'm"
    and entries :: "'m \<Rightarrow> ('k \<times> 'v) list"
    and emp :: 'm
  assumes entries_emp: "entries emp = []"
    and lookup_ins: "map_of (entries (ins k v m)) = (map_of (entries m))(k \<mapsto> v)"
    and ordered_ins: "sorted_wrt (<) (map fst (entries m)) \<Longrightarrow> sorted_wrt (<) (map fst (entries (ins k v m)))"
begin

text \<open>Inserting the pairs of a list one after the other: the last one of each key wins.\<close>

definition ins_all :: "('k \<times> 'v) list \<Rightarrow> 'm \<Rightarrow> 'm" where
  "ins_all kvs m = fold (\<lambda>(k, v). ins k v) kvs m"

lemma lookup_ins_all: "map_of (entries (ins_all kvs m)) = map_of (entries m) ++ map_of (rev kvs)"
proof (induction kvs arbitrary: m)
  case (Cons kv kvs)
  then show ?case by (cases kv) (simp add: ins_all_def lookup_ins map_add_def fun_eq_iff split: option.split)
qed (simp add: ins_all_def)

lemma ordered_ins_all:
  "sorted_wrt (<) (map fst (entries m)) \<Longrightarrow> sorted_wrt (<) (map fst (entries (ins_all kvs m)))"
proof (induction kvs arbitrary: m)
  case (Cons kv kvs)
  then show ?case by (cases kv) (simp add: ins_all_def ordered_ins)
qed (simp add: ins_all_def)

lemma collect_ordered: "sorted_wrt (<) (map fst (entries (ins_all kvs emp)))"
  by (rule ordered_ins_all) (simp add: entries_emp)

lemma collect_lookup: "map_of (entries (ins_all kvs emp)) = map_of (rev kvs)"
  by (simp add: lookup_ins_all entries_emp)

end

section \<open>The sorted association list\<close>

fun bt_insert :: "'k::linorder \<Rightarrow> 'v \<Rightarrow> ('k \<times> 'v) list \<Rightarrow> ('k \<times> 'v) list" where
  "bt_insert k v [] = [(k, v)]"
| "bt_insert k v ((k', v') # m) =
     (if k < k' then (k, v) # (k', v') # m
      else if k = k' then (k, v) # m
      else (k', v') # bt_insert k v m)"

lemma bt_insert_lookup: "map_of (bt_insert k v m) = (map_of m)(k \<mapsto> v)"
  by (induction k v m rule: bt_insert.induct) (auto simp: fun_eq_iff)

lemma bt_insert_keys: "fst ` set (bt_insert k v m) = insert k (fst ` set m)"
  by (induction k v m rule: bt_insert.induct) (auto simp: image_iff)

lemma bt_insert_ordered:
  "sorted_wrt (<) (map fst m) \<Longrightarrow> sorted_wrt (<) (map fst (bt_insert k v m))"
proof (induction k v m rule: bt_insert.induct)
  case (2 k v k' v' m)
  have keys: "set (map fst (bt_insert k v m)) = insert k (set (map fst m))"
    using bt_insert_keys [of k v m] by simp
  from 2 show ?case
    by (cases k k' rule: linorder_cases) (auto simp: keys simp flip: set_map dest: less_trans)
qed simp

interpretation bt: ordered_map bt_insert "\<lambda>m. m" "[]"
  by unfold_locales (simp_all add: bt_insert_lookup bt_insert_ordered)

lemma ordered_distinct: "sorted_wrt (<) (map fst m) \<Longrightarrow> distinct (map fst (m :: ('k::linorder \<times> 'v) list))"
  by (simp add: strict_sorted_iff)

text \<open>Two ordered association lists with the same lookups are equal.\<close>

lemma ordered_map_ext:
  assumes "sorted_wrt (<) (map fst m)" "sorted_wrt (<) (map fst m')" "map_of m = map_of m'"
  shows "m = (m' :: ('k::linorder \<times> 'v) list)"
proof -
  have "set m = set m'"
    using assms by (metis ordered_distinct set_map_of_compr)
  then have "map fst m = map fst m'"
    using assms(1,2) by (metis strict_sorted_equal set_map)
  moreover have "n = map (\<lambda>k. (k, the (map_of n k))) (map fst n)"
    if "sorted_wrt (<) (map fst n)" for n :: "('k \<times> 'v) list"
    using ordered_distinct [OF that] by (auto intro!: map_idI [symmetric] simp: o_def)
  ultimately show ?thesis
    using assms by metis
qed

end
