(* ===== verification/Cgroup.thy ===== *)
theory Cgroup
  imports Json_Api Rust_Str Ord_Map
begin

text \<open>
  \<^verbatim>\<open>rsrun-ext/src/cgroup.rs\<close> and the \<^verbatim>\<open>update\<close> mirror of it in \<^verbatim>\<open>runtime.rs\<close>: the OCI
  \<^verbatim>\<open>linux.resources\<close> object becomes a list of cgroup-v2 file writes. The release profile has no
  overflow checks, so the machine arithmetic wraps.
\<close>

type_synonym knob_write = "string \<times> u8 list"

section \<open>Compilation at create\<close>

definition encode_bytes :: "i64 \<Rightarrow> u8 list" where
  "encode_bytes v = (if sint v \<le> 0 then bytes_of ''max'' else bytes_of (dec_i64 v))"

definition encode_pids :: "i64 \<Rightarrow> u8 list" where
  "encode_pids v = (if sint v \<le> 0 then bytes_of ''max'' else bytes_of (dec_i64 v))"

definition swap_only :: "i64 option \<Rightarrow> i64 \<Rightarrow> i64" where
  "swap_only limit swap =
     (let mem = unwrap_or limit 0
      in if 0 < sint mem \<and> sint mem \<le> sint swap then swap - mem else swap)"

definition memory_writes :: "'v json_api \<Rightarrow> 'v \<Rightarrow> knob_write list" where
  "memory_writes J memory =
     (case get_i64 J memory ''limit'' of None \<Rightarrow> [] | Some n \<Rightarrow> [(''memory.max'', encode_bytes n)]) @
     (case get_i64 J memory ''swap'' of None \<Rightarrow> []
      | Some n \<Rightarrow> [(''memory.swap.max'', encode_bytes (swap_only (get_i64 J memory ''limit'') n))]) @
     (case get_i64 J memory ''reservation'' of None \<Rightarrow> [] | Some n \<Rightarrow> [(''memory.low'', encode_bytes n)])"

text \<open>\<^verbatim>\<open>saturating_sub\<close>, a wrapping multiplication, a division, then \<^verbatim>\<open>clamp\<close>.\<close>

definition cpu_weight :: "u64 \<Rightarrow> u64" where
  "cpu_weight shares =
     (let w = 1 + ((if shares < 2 then 0 else shares - 2) * 9999) div 262142
      in if w < 1 then 1 else if 10000 < w then 10000 else w)"

definition cpu_max :: "i64 option \<Rightarrow> u64 option \<Rightarrow> string" where
  "cpu_max quota period =
     (case quota of None \<Rightarrow> ''max'' | Some q \<Rightarrow> dec_i64 q) @ '' '' @ dec_u64 (unwrap_or period 100000)"

definition cpu_writes :: "'v json_api \<Rightarrow> 'v \<Rightarrow> knob_write list" where
  "cpu_writes J cpu =
     (let quota = get_i64 J cpu ''quota''; period = get_u64 J cpu ''period''
      in (if quota \<noteq> None \<or> period \<noteq> None then [(''cpu.max'', bytes_of (cpu_max quota period))] else []) @
         (case get_u64 J cpu ''shares'' of None \<Rightarrow> []
          | Some s \<Rightarrow> [(''cpu.weight'', bytes_of (dec_u64 (cpu_weight s)))]) @
         (case get_str J cpu ''cpus'' of None \<Rightarrow> [] | Some s \<Rightarrow> [(''cpuset.cpus'', bytes_of s)]) @
         (case get_str J cpu ''mems'' of None \<Rightarrow> [] | Some s \<Rightarrow> [(''cpuset.mems'', bytes_of s)]))"

definition pids_writes :: "'v json_api \<Rightarrow> 'v \<Rightarrow> knob_write list" where
  "pids_writes J pids =
     (case get_i64 J pids ''limit'' of None \<Rightarrow> [] | Some n \<Rightarrow> [(''pids.max'', encode_pids n)])"

text \<open>\<^verbatim>\<open>compile_blockio\<close>: collect the entries, group them by device, write one line per device.\<close>

definition throttle_keys :: "(string \<times> string) list" where
  "throttle_keys = [(''throttleReadBpsDevice'', ''rbps''), (''throttleWriteBpsDevice'', ''wbps''),
     (''throttleReadIOPSDevice'', ''riops''), (''throttleWriteIOPSDevice'', ''wiops'')]"

definition throttle_entry :: "'v json_api \<Rightarrow> string \<Rightarrow> 'v \<Rightarrow> (string \<times> string \<times> u64) option" where
  "throttle_entry J knob d =
     (case (get_u64 J d ''major'', get_u64 J d ''minor'', get_u64 J d ''rate'') of
        (Some maj, Some mnr, Some r) \<Rightarrow> Some (dec_u64 maj @ '':'' @ dec_u64 mnr, knob, r)
      | _ \<Rightarrow> None)"

definition blockio_entries :: "'v json_api \<Rightarrow> 'v \<Rightarrow> (string \<times> string \<times> u64) list" where
  "blockio_entries J blockio =
     concat (map (\<lambda>(key, knob). filter_map (throttle_entry J knob) (unwrap_or (get_array J blockio key) []))
       throttle_keys)"

definition add_entry ::
  "string \<times> string \<times> u64 \<Rightarrow> (string \<times> (string \<times> u64) list) list \<Rightarrow> (string \<times> (string \<times> u64) list) list" where
  "add_entry e m = (case e of (dev, knob, rate) \<Rightarrow>
     bt_insert dev (bt_insert knob rate (unwrap_or (map_of m dev) [])) m)"

definition by_dev :: "(string \<times> string \<times> u64) list \<Rightarrow> (string \<times> (string \<times> u64) list) list" where
  "by_dev es = fold add_entry es []"

definition io_line :: "string \<times> (string \<times> u64) list \<Rightarrow> string" where
  "io_line dk = fst dk @ concat (map (\<lambda>(knob, rate). '' '' @ knob @ ''='' @ dec_u64 rate) (snd dk)) @ [CHR 10]"

definition compile_blockio :: "'v json_api \<Rightarrow> 'v \<Rightarrow> knob_write list" where
  "compile_blockio J blockio =
     map (\<lambda>dk. (''io.max'', bytes_of (io_line dk))) (by_dev (blockio_entries J blockio))"

definition opt_section :: "'v json_api \<Rightarrow> 'v \<Rightarrow> string \<Rightarrow> ('v \<Rightarrow> knob_write list) \<Rightarrow> knob_write list" where
  "opt_section J v key f = (case jget J v key of None \<Rightarrow> [] | Some w \<Rightarrow> f w)"

definition compile_writes :: "'v json_api \<Rightarrow> 'v \<Rightarrow> knob_write list" where
  "compile_writes J resources =
     opt_section J resources ''memory'' (memory_writes J) @
     opt_section J resources ''cpu'' (cpu_writes J) @
     opt_section J resources ''pids'' (pids_writes J) @
     opt_section J resources ''blockIO'' (compile_blockio J)"

text \<open>\<^verbatim>\<open>compile\<close>; \<open>v2\<close> is the host test \<^verbatim>\<open>is_cgroup_v2\<close>.\<close>

definition cgroup_compile ::
  "'v json_api \<Rightarrow> bool \<Rightarrow> 'v option \<Rightarrow> string \<Rightarrow> string option \<times> knob_write list" where
  "cgroup_compile J v2 resources container_id =
     (case resources of None \<Rightarrow> (None, [])
      | Some r \<Rightarrow>
          if \<not> v2 then (None, [])
          else
            (let writes = compile_writes J r;
                 has_devices = (case get_array J r ''devices'' of None \<Rightarrow> False | Some a \<Rightarrow> a \<noteq> [])
             in if writes = [] \<and> \<not> has_devices then (None, [])
                else (Some (''/sys/fs/cgroup'' @ ''/rsrun-'' @ container_id), writes)))"

section \<open>The mirror used by update\<close>

definition push_int :: "string \<Rightarrow> i64 \<Rightarrow> knob_write" where
  "push_int knob n = (knob, bytes_of (if sint n < 0 then ''max'' @ [CHR 10] else dec_i64 n @ [CHR 10]))"

definition update_weight :: "u64 \<Rightarrow> u64" where
  "update_weight shares = ((shares - 2) * 9999) div 262142 + 1"

definition update_memory :: "'v json_api \<Rightarrow> 'v \<Rightarrow> knob_write list" where
  "update_memory J memory =
     (case get_i64 J memory ''limit'' of None \<Rightarrow> [] | Some n \<Rightarrow> [push_int ''memory.max'' n]) @
     (case get_i64 J memory ''swap'' of None \<Rightarrow> []
      | Some n \<Rightarrow> [push_int ''memory.swap.max'' (swap_only (get_i64 J memory ''limit'') n)])"

definition update_cpu :: "'v json_api \<Rightarrow> 'v \<Rightarrow> knob_write list" where
  "update_cpu J cpu =
     (let quota = get_i64 J cpu ''quota''; period = get_u64 J cpu ''period''
      in (if quota \<noteq> None \<or> period \<noteq> None
          then [(''cpu.max'', bytes_of ((case quota of None \<Rightarrow> ''max''
                   | Some q \<Rightarrow> if sint q < 0 then ''max'' else dec_i64 q) @ '' '' @
                   dec_u64 (unwrap_or period 100000) @ [CHR 10]))]
          else []) @
         (case get_u64 J cpu ''shares'' of None \<Rightarrow> []
          | Some s \<Rightarrow> [(''cpu.weight'', bytes_of (dec_u64 (update_weight s) @ [CHR 10]))]))"

definition update_pids :: "'v json_api \<Rightarrow> 'v \<Rightarrow> knob_write list" where
  "update_pids J pids =
     (case get_i64 J pids ''limit'' of None \<Rightarrow> [] | Some n \<Rightarrow> [push_int ''pids.max'' n])"

definition compile_resources_to_writes :: "'v json_api \<Rightarrow> 'v \<Rightarrow> knob_write list" where
  "compile_resources_to_writes J r =
     opt_section J r ''memory'' (update_memory J) @
     opt_section J r ''cpu'' (update_cpu J) @
     opt_section J r ''pids'' (update_pids J)"

section \<open>CPU shares\<close>

lemma unat_9999: "unat (9999 :: u64) = 9999" "unat (262142 :: u64) = 262142"
  by simp_all

text \<open>Without overflow the conversion is the documented linear one.\<close>

lemma cpu_weight_exact:
  assumes "unat shares < 2 ^ 50"
  shows "unat (cpu_weight shares) = min 10000 (1 + (unat shares - 2) * 9999 div 262142)"
proof -
  let ?s = "if shares < 2 then 0 else shares - 2"
  have s: "unat ?s = unat shares - 2"
    by (auto simp: word_less_nat_alt unat_sub_if_size not_less)
  have m: "unat (?s * 9999) = (unat shares - 2) * 9999"
    using assms by (simp add: unat_mult_lem [THEN iffD1] s)
  let ?n = "(unat shares - 2) * 9999 div 262142"
  have d: "unat (?s * 9999 div 262142) = ?n"
    by (simp add: unat_div m)
  have lt: "?n < 2 ^ 50" using assms by auto
  have w: "unat (1 + ?s * 9999 div 262142) = 1 + ?n"
    using lt d by (simp add: unat_word_ariths)
  show ?thesis
    using w by (simp add: cpu_weight_def Let_def word_less_nat_alt min_def)
qed

lemma cpu_weight_range: "1 \<le> unat (cpu_weight shares) \<and> unat (cpu_weight shares) \<le> 10000"
  by (auto simp: cpu_weight_def Let_def word_less_nat_alt not_less)

lemma update_weight_range:
  assumes "2 \<le> unat shares" "unat shares \<le> 262144"
  shows "update_weight shares = cpu_weight shares"
proof -
  have s: "unat (shares - 2) = unat shares - 2"
    using assms by (simp add: unat_sub_if_size)
  have m: "unat ((shares - 2) * 9999) = (unat shares - 2) * 9999"
    using assms by (subst unat_mult_lem [THEN iffD1]) (simp_all add: s)
  let ?n = "(unat shares - 2) * 9999 div 262142"
  have le: "?n \<le> 9999" using assms by (auto simp: div_le_mono [of _ "262142 * 9999" 262142, simplified])
  have "unat (update_weight shares) = 1 + ?n"
    using le by (simp add: update_weight_def unat_word_ariths(1) unat_div m del: left_diff_distrib_numeral)
  also have "\<dots> = unat (cpu_weight shares)"
    using assms le by (simp add: cpu_weight_exact)
  finally show ?thesis by (simp add: word_unat_eq_iff)
qed

text \<open>
  The cgroup weight written at create is in the range 1 to 10000 the kernel accepts, for every
  64-bit value of \<^verbatim>\<open>shares\<close>, the wrapping ones included; below 2^50 it is the documented
  conversion 1 + (shares - 2) * 9999 / 262142 cut at 10000, so 2 gives 1 and 262144 gives 10000.
\<close>
theorem cpu_weight_correct:
  "1 \<le> unat (cpu_weight shares) \<and> unat (cpu_weight shares) \<le> 10000 \<and>
   (unat shares < 2 ^ 50 \<longrightarrow>
      unat (cpu_weight shares) = min 10000 (1 + (unat shares - 2) * 9999 div 262142)) \<and>
   cpu_weight 2 = 1 \<and> cpu_weight 262144 = 10000"
proof -
  have "cpu_weight 2 = 1" "cpu_weight 262144 = 10000"
    by (simp_all add: cpu_weight_def)
  then show ?thesis
    using cpu_weight_range [of shares] cpu_weight_exact [of shares] by blast
qed

lemma cpu_weight_correct_witness:
  "unat (cpu_weight 1024) = 39"
  using cpu_weight_correct [of 1024] by (simp add: min_def)

text \<open>
  The update mirror has no saturation: for shares 0 and 1, below the range, the subtraction
  wraps and the weight written is far above the kernel's maximum of 10000, where create writes 1.
\<close>
theorem update_weight_wraps:
  "shares < 2 \<Longrightarrow> 10000 < update_weight shares \<and> cpu_weight shares = 1"
proof -
  assume "shares < 2"
  then have "unat shares = 0 \<or> unat shares = 1"
    by (auto simp: word_less_nat_alt)
  then have "shares = 0 \<or> shares = 1"
    by (auto simp: word_unat_eq_iff)
  then show ?thesis
    by (auto simp: update_weight_def cpu_weight_def)
qed

theorem update_weight_wraps_witness: "10000 < update_weight 0 \<and> cpu_weight 0 = 1"
  using update_weight_wraps [of 0] by simp

section \<open>Create and update agree\<close>

definition update_knobs :: "string list" where
  "update_knobs = [''memory.max'', ''memory.swap.max'', ''cpu.max'', ''cpu.weight'', ''pids.max'']"

text \<open>
  The resource objects on which the two are compared: limits strictly positive as the bundle gives
  them (memory and swap limits included), a quota that is not negative, shares in the OCI range.
\<close>

definition plain_limits :: "'v json_api \<Rightarrow> 'v \<Rightarrow> bool" where
  "plain_limits J r =
     (pred_option (\<lambda>m. pred_option (\<lambda>n. 0 < sint n) (get_i64 J m ''limit'') \<and>
         pred_option (\<lambda>n. 0 < sint n) (get_i64 J m ''swap''))
        (jget J r ''memory'') \<and>
      pred_option (\<lambda>c. pred_option (\<lambda>q. 0 \<le> sint q) (get_i64 J c ''quota'') \<and>
         pred_option (\<lambda>s. 2 \<le> unat s \<and> unat s \<le> 262144) (get_u64 J c ''shares''))
        (jget J r ''cpu'') \<and>
      pred_option (\<lambda>p. pred_option (\<lambda>n. 0 < sint n) (get_i64 J p ''limit'')) (jget J r ''pids''))"

definition mirrored :: "knob_write list \<Rightarrow> knob_write list" where
  "mirrored ws = map (\<lambda>(k, b). (k, b @ [10])) (filter (\<lambda>(k, _). k \<in> set update_knobs) ws)"

lemma mirrored_append [simp]: "mirrored (xs @ ys) = mirrored xs @ mirrored ys"
  by (simp add: mirrored_def)

lemma mirrored_Nil [simp]: "mirrored [] = []"
  by (simp add: mirrored_def)

lemma mirrored_blockio: "mirrored (compile_blockio J b) = []"
  by (auto simp: mirrored_def compile_blockio_def update_knobs_def filter_empty_conv)

text \<open>
  A bundle whose \<^verbatim>\<open>swap\<close> (memory and swap together) equals its memory limit forbids swap. Create
  and update part there: \<open>zero_swap\<close> is the line update writes.
\<close>

definition memory_equal_swap :: "'v json_api \<Rightarrow> 'v \<Rightarrow> bool" where
  "memory_equal_swap J m = (get_i64 J m ''limit'' \<noteq> None \<and> get_i64 J m ''swap'' = get_i64 J m ''limit'')"

definition equal_swap :: "'v json_api \<Rightarrow> 'v \<Rightarrow> bool" where
  "equal_swap J r = (case jget J r ''memory'' of None \<Rightarrow> False | Some m \<Rightarrow> memory_equal_swap J m)"

definition zero_swap :: "knob_write \<Rightarrow> knob_write" where
  "zero_swap w = (if fst w = ''memory.swap.max'' then (fst w, bytes_of (''0'' @ [CHR 10])) else w)"

lemma swap_only_zero_iff:
  assumes "pred_option (\<lambda>n. 0 < sint n) limit" and "0 < sint swap"
  shows "0 < sint (swap_only limit swap) \<or> limit = Some swap"
proof (cases "swap_only limit swap = swap")
  case True
  then show ?thesis using assms by simp
next
  case False
  then obtain l where l: "limit = Some l" "0 < sint l" "sint l \<le> sint swap" "swap_only limit swap = swap - l"
    by (cases limit) (auto simp: swap_only_def Let_def split: if_splits)
  have "sint (swap - l) = sint swap - sint l"
    using l sint_lt [of swap] sint_ge [of swap]
    by (subst sint_word_ariths(2)) (intro signed_take_bit_int_eq_self; simp)
  then show ?thesis
    using l signed_word_eqI [of l swap] by (cases "sint l = sint swap") auto
qed

lemma dec_i64_zero: "dec_i64 0 = ''0''"
  by (simp add: dec_i64_def dec_int_def dec_nat_def show_base.simps digit_char_def char_of_def bit_simps)

lemma mirrored_memory:
  assumes "pred_option (\<lambda>n. 0 < sint n) (get_i64 J m ''limit'')"
    and "pred_option (\<lambda>n. 0 < sint n) (get_i64 J m ''swap'')"
  shows "update_memory J m = (if memory_equal_swap J m then map zero_swap else (\<lambda>ws. ws)) (mirrored (memory_writes J m))"
proof (cases "memory_equal_swap J m")
  case True
  then obtain l where "get_i64 J m ''limit'' = Some l" "get_i64 J m ''swap'' = Some l"
    by (auto simp: memory_equal_swap_def)
  then show ?thesis
    using assms True
    by (auto simp: update_memory_def memory_writes_def mirrored_def update_knobs_def push_int_def
        encode_bytes_def swap_only_def zero_swap_def dec_i64_zero split: option.splits)
next
  case False
  have "0 < sint (swap_only (get_i64 J m ''limit'') n)" if "get_i64 J m ''swap'' = Some n" for n
    using swap_only_zero_iff [OF assms(1), of n] assms(2) that False
    by (auto simp: memory_equal_swap_def)
  then show ?thesis
    using assms False
    by (auto simp: update_memory_def memory_writes_def mirrored_def update_knobs_def push_int_def
        encode_bytes_def split: option.splits)
qed

lemma equal_swap_create:
  assumes "pred_option (\<lambda>n. 0 < sint n) (get_i64 J m ''limit'')" and "memory_equal_swap J m"
  shows "(''memory.swap.max'', bytes_of ''max'') \<in> set (memory_writes J m)"
  using assms by (auto simp: memory_equal_swap_def memory_writes_def swap_only_def encode_bytes_def)

lemma zero_swap_keeps:
  assumes "\<forall>w \<in> set ws. fst w \<noteq> ''memory.swap.max''"
  shows "map zero_swap ws = ws"
  using assms by (induction ws) (auto simp: zero_swap_def)

lemma no_swap_elsewhere:
  "map zero_swap (mirrored (cpu_writes J c)) = mirrored (cpu_writes J c)"
  "map zero_swap (mirrored (pids_writes J p)) = mirrored (pids_writes J p)"
  by (rule zero_swap_keeps;
      auto simp: mirrored_def cpu_writes_def pids_writes_def Let_def split: option.splits if_splits)+

lemma mirrored_cpu:
  assumes "pred_option (\<lambda>q. 0 \<le> sint q) (get_i64 J c ''quota'')"
    and "pred_option (\<lambda>s. 2 \<le> unat s \<and> unat s \<le> 262144) (get_u64 J c ''shares'')"
  shows "update_cpu J c = mirrored (cpu_writes J c)"
  using assms
  by (auto simp: update_cpu_def cpu_writes_def mirrored_def update_knobs_def cpu_max_def Let_def
      update_weight_range split: option.splits)

lemma mirrored_pids:
  assumes "pred_option (\<lambda>n. 0 < sint n) (get_i64 J p ''limit'')"
  shows "update_pids J p = mirrored (pids_writes J p)"
  using assms
  by (auto simp: update_pids_def pids_writes_def mirrored_def update_knobs_def push_int_def
      encode_pids_def split: option.splits)

lemma mirrored_split:
  assumes "plain_limits J r"
  shows "compile_resources_to_writes J r =
    (if equal_swap J r then map zero_swap else (\<lambda>ws. ws)) (mirrored (compile_writes J r))"
  using assms
  unfolding plain_limits_def compile_resources_to_writes_def compile_writes_def opt_section_def equal_swap_def
  by (auto simp: mirrored_memory mirrored_cpu mirrored_pids mirrored_blockio no_swap_elsewhere
      split: option.splits)

lemma update_mirrors_create_all:
  assumes "plain_limits J r"
  shows "(\<not> equal_swap J r \<longrightarrow> compile_resources_to_writes J r = mirrored (compile_writes J r)) \<and>
     (equal_swap J r \<longrightarrow>
        compile_resources_to_writes J r = map zero_swap (mirrored (compile_writes J r)) \<and>
        (''memory.swap.max'', bytes_of (''0'' @ [CHR 10])) \<in> set (compile_resources_to_writes J r) \<and>
        (''memory.swap.max'', bytes_of ''max'') \<in> set (compile_writes J r))"
proof (cases "equal_swap J r")
  case True
  then obtain m where m: "jget J r ''memory'' = Some m" "memory_equal_swap J m"
    by (auto simp: equal_swap_def split: option.splits)
  have "pred_option (\<lambda>n. 0 < sint n) (get_i64 J m ''limit'')"
    using assms m by (simp add: plain_limits_def)
  then have c: "(''memory.swap.max'', bytes_of ''max'') \<in> set (compile_writes J r)"
    using equal_swap_create [of J m] m by (simp add: compile_writes_def opt_section_def del: bytes_of_def)
  then have "(''memory.swap.max'', bytes_of ''max'' @ [10]) \<in> set (mirrored (compile_writes J r))"
    by (auto simp: mirrored_def update_knobs_def intro!: rev_image_eqI)
  then have "zero_swap (''memory.swap.max'', bytes_of ''max'' @ [10])
      \<in> set (map zero_swap (mirrored (compile_writes J r)))"
    by simp
  then show ?thesis
    using c True mirrored_split [OF assms] by (simp add: zero_swap_def)
qed (simp add: mirrored_split [OF assms])

text \<open>
  C3: On resource objects whose memory, swap and pids limits are positive, whose quota is not
  negative and whose shares are in the OCI range, \<^verbatim>\<open>update\<close> writes what \<^verbatim>\<open>create\<close> writes, restricted
  to the five knobs the mirror handles, in the same order, each value followed by a newline, with
  one exception: where the swap total equals the memory limit (no swap), \<^verbatim>\<open>update\<close> writes \<^verbatim>\<open>0\<close> to
  \<^verbatim>\<open>memory.swap.max\<close> and \<^verbatim>\<open>create\<close> writes \<^verbatim>\<open>max\<close>.
\<close>
theorem update_mirrors_create:
  "plain_limits J r \<Longrightarrow>
     (\<not> equal_swap J r \<longrightarrow> compile_resources_to_writes J r = mirrored (compile_writes J r)) \<and>
     (equal_swap J r \<longrightarrow>
        compile_resources_to_writes J r = map zero_swap (mirrored (compile_writes J r)) \<and>
        (''memory.swap.max'', bytes_of (''0'' @ [CHR 10])) \<in> set (compile_resources_to_writes J r) \<and>
        (''memory.swap.max'', bytes_of ''max'') \<in> set (compile_writes J r))"
  by (rule update_mirrors_create_all)

definition sample_resources :: "u64 \<Rightarrow> jval" where
  "sample_resources swap = JObj [(''memory'', JObj [(''limit'', JPos 128), (''swap'', JPos swap)]),
     (''cpu'', JObj [(''quota'', JPos 50000), (''shares'', JPos 1024)]), (''pids'', JObj [(''limit'', JPos 5)])]"

theorem update_mirrors_create_witness:
  "compile_resources_to_writes jv (sample_resources 200) = mirrored (compile_writes jv (sample_resources 200)) \<and>
   (''memory.swap.max'', bytes_of ''max'') \<in> set (compile_writes jv (sample_resources 128)) \<and>
   (''memory.swap.max'', bytes_of (''0'' @ [CHR 10])) \<in> set (compile_resources_to_writes jv (sample_resources 128))"
proof -
  have "plain_limits jv (sample_resources 200)" "plain_limits jv (sample_resources 128)"
    "\<not> equal_swap jv (sample_resources 200)" "equal_swap jv (sample_resources 128)"
    by (simp_all add: plain_limits_def equal_swap_def memory_equal_swap_def sample_resources_def get_defs)
  then show ?thesis
    using update_mirrors_create [of jv "sample_resources 200"] update_mirrors_create [of jv "sample_resources 128"]
    by blast
qed

section \<open>Block I/O\<close>

lemma by_dev_snoc: "by_dev (es @ [e]) = add_entry e (by_dev es)"
  by (simp add: by_dev_def)

lemma by_dev_ordered: "sorted_wrt (<) (map fst (by_dev es))"
proof (induction es rule: rev_induct)
  case (snoc e es)
  then show ?case
    by (cases e) (simp add: by_dev_snoc add_entry_def bt.ordered_ins)
qed (simp add: by_dev_def)

definition knobs_of :: "(string \<times> string \<times> u64) list \<Rightarrow> string \<Rightarrow> (string \<times> u64) list" where
  "knobs_of es dev = map snd (filter (\<lambda>e. fst e = dev) es)"

lemma knobs_of_snoc:
  "knobs_of (es @ [(d, k, r)]) dev = (if d = dev then knobs_of es dev @ [(k, r)] else knobs_of es dev)"
  by (simp add: knobs_of_def)

lemma by_dev_lookup:
  "map_of (by_dev es) dev =
     (if dev \<in> fst ` set es then Some (bt.ins_all (knobs_of es dev) []) else None)"
proof (induction es rule: rev_induct)
  case (snoc e es)
  obtain d k r where e: "e = (d, k, r)" by (cases e)
  have "knobs_of es d = []" if "d \<notin> fst ` set es"
    using that by (auto simp: knobs_of_def filter_empty_conv)
  then show ?case
    using snoc
    by (auto simp: by_dev_snoc add_entry_def bt.lookup_ins e knobs_of_snoc bt.ins_all_def)
qed (simp add: by_dev_def)

text \<open>
  The block I/O limits become one \<^verbatim>\<open>io.max\<close> line per device that has a complete throttle entry,
  the devices in strictly ascending order, and the line of a device lists each of its knobs once,
  in ascending order, with the rate of the last entry given for it.
\<close>
theorem io_max_one_line_per_device:
  "\<exists>m. compile_blockio J b = map (\<lambda>dk. (''io.max'', bytes_of (io_line dk))) m \<and>
     sorted_wrt (<) (map fst m) \<and>
     fst ` set m = fst ` set (blockio_entries J b) \<and>
     (\<forall>(dev, ks) \<in> set m. sorted_wrt (<) (map fst ks) \<and>
        map_of ks = map_of (rev (knobs_of (blockio_entries J b) dev)))"
proof (intro exI [of _ "by_dev (blockio_entries J b)"] conjI ballI)
  let ?es = "blockio_entries J b"
  show "compile_blockio J b = map (\<lambda>dk. (''io.max'', bytes_of (io_line dk))) (by_dev ?es)"
    by (rule compile_blockio_def)
  show "sorted_wrt (<) (map fst (by_dev ?es))" by (rule by_dev_ordered)
  have "dom (map_of (by_dev ?es)) = fst ` set ?es"
    by (auto simp: by_dev_lookup dom_def)
  then show "fst ` set (by_dev ?es) = fst ` set ?es" by (simp add: dom_map_of_conv_image_fst)
  fix dk assume dk: "dk \<in> set (by_dev ?es)"
  obtain dev ks where [simp]: "dk = (dev, ks)" by (cases dk)
  have "map_of (by_dev ?es) dev = Some ks"
    using dk ordered_distinct [OF by_dev_ordered] by (simp add: map_of_eq_Some_iff)
  then have "ks = bt.ins_all (knobs_of ?es dev) []"
    by (simp add: by_dev_lookup split: if_splits)
  then show "case dk of (dev, ks) \<Rightarrow>
      sorted_wrt (<) (map fst ks) \<and> map_of ks = map_of (rev (knobs_of ?es dev))"
    using bt.collect_ordered [of "knobs_of ?es dev"] bt.collect_lookup [of "knobs_of ?es dev"] by simp
qed

definition sample_blockio :: jval where
  "sample_blockio = JObj [(''throttleReadBpsDevice'', JArr [JObj [(''major'', JPos 8), (''minor'', JPos 0), (''rate'', JPos 5)]])]"

theorem io_max_one_line_per_device_witness:
  "\<exists>m. compile_blockio jv sample_blockio = map (\<lambda>dk. (''io.max'', bytes_of (io_line dk))) m \<and> fst ` set m = {''8:0''}"
proof -
  have "fst ` set (blockio_entries jv sample_blockio) = {''8:0''}"
    by (simp add: blockio_entries_def throttle_keys_def throttle_entry_def sample_blockio_def get_defs
        dec_u64_def dec_nat_def show_base.simps)
  moreover obtain m where "compile_blockio jv sample_blockio = map (\<lambda>dk. (''io.max'', bytes_of (io_line dk))) m"
      "fst ` set m = fst ` set (blockio_entries jv sample_blockio)"
    using io_max_one_line_per_device [of jv sample_blockio] by (elim exE conjE) (rule that)
  ultimately show ?thesis by auto
qed

section \<open>Where swap and quota part from the kernel's meaning\<close>

text \<open>
  A total memory+swap equal to the memory limit (no swap allowed) leaves a swap-only limit of 0,
  which \<^const>\<open>encode_bytes\<close> writes as unlimited.
\<close>

lemma no_swap_becomes_unlimited:
  "0 < sint limit \<Longrightarrow> encode_bytes (swap_only (Some limit) limit) = bytes_of ''max''"
  by (simp add: swap_only_def encode_bytes_def)

text \<open>A negative quota (unlimited in OCI) is written as a number by create, as \<^verbatim>\<open>max\<close> by update.\<close>

lemma negative_quota_create: "cpu_max (Some (- 1)) None = ''-1 100000''"
  by (simp add: cpu_max_def dec_i64_def dec_int_def dec_u64_def dec_nat_def show_base.simps)

end
