(* ===== verification/Paths.thy ===== *)
theory Paths
  imports Rust_Str
begin

text \<open>
  \<^verbatim>\<open>std::path\<close> on Unix: joining, components, prefixes and parents of byte-string paths.
\<close>

datatype component = RootDir | CurDir | ParentDir | Normal string

definition is_absolute :: "string \<Rightarrow> bool" where
  "is_absolute p = (case p of c # _ \<Rightarrow> c = CHR ''/'' | [] \<Rightarrow> False)"

text \<open>\<^verbatim>\<open>Path::join\<close>: an absolute argument replaces the path, a separator is added where needed.\<close>

definition path_join :: "string \<Rightarrow> string \<Rightarrow> string" where
  "path_join a b =
     (if is_absolute b then b
      else if a = [] \<or> last a = CHR ''/'' then a @ b
      else a @ ''/'' @ b)"

text \<open>
  \<^verbatim>\<open>Path::components\<close>: repeated separators and inner dots disappear, a leading dot of a relative
  path stays.
\<close>

definition comp_of :: "string \<Rightarrow> component option" where
  "comp_of s = (if s = [] \<or> s = ''.'' then None else if s = ''..'' then Some ParentDir else Some (Normal s))"

definition components :: "string \<Rightarrow> component list" where
  "components p =
     (if is_absolute p then [RootDir]
      else if hd (split_on CHR ''/'' p) = ''.'' then [CurDir] else []) @
     filter_map comp_of (split_on CHR ''/'' p)"

fun strip_comps :: "component list \<Rightarrow> component list \<Rightarrow> component list option" where
  "strip_comps [] cs = Some cs"
| "strip_comps (p # ps) (c # cs) = (if p = c then strip_comps ps cs else None)"
| "strip_comps (p # ps) [] = None"

lemma strip_comps_iff: "strip_comps ps cs = Some r \<longleftrightarrow> cs = ps @ r"
  by (induction ps cs rule: strip_comps.induct) auto

definition path_starts_with :: "string \<Rightarrow> string \<Rightarrow> bool" where
  "path_starts_with p base = (strip_comps (components base) (components p) \<noteq> None)"

lemma path_starts_with_iff: "path_starts_with p base \<longleftrightarrow> (\<exists>r. components p = components base @ r)"
  by (simp add: path_starts_with_def strip_comps_iff)

lemma components_append:
  assumes "\<not> is_absolute b" "\<not> (hd (split_on CHR ''/'' b) = ''.'')" "a \<noteq> []"
  shows "components (a @ ''/'' @ b) = components a @ components b"
proof -
  have abs: "is_absolute (a @ ''/'' @ b) = is_absolute a"
    using assms(3) by (cases a) (simp_all add: is_absolute_def)
  show ?thesis
    using assms abs by (simp add: components_def split_on_append_sep)
qed

lemma components_trailing: "components (a @ ''/'') = components a" if "a \<noteq> []"
proof -
  have "is_absolute (a @ ''/'') = is_absolute a"
    using that by (cases a) (simp_all add: is_absolute_def)
  then show ?thesis
    by (simp add: components_def split_on_append_sep [where t = "[]", simplified] comp_of_def)
qed

text \<open>Joining a relative path that does not start with a dot appends its components.\<close>

lemma components_join:
  assumes "\<not> is_absolute b" "hd (split_on CHR ''/'' b) \<noteq> ''.''" "a \<noteq> []"
  shows "components (path_join a b) = components a @ components b"
proof (cases "last a = CHR ''/''")
  case False
  with assms show ?thesis by (simp add: path_join_def components_append [simplified])
next
  case True
  with assms(3) obtain a' where a: "a = a' @ ''/''" by (metis append_butlast_last_id)
  show ?thesis
  proof (cases "a' = []")
    case True
    then show ?thesis
      using assms a by (simp add: path_join_def components_def is_absolute_def comp_of_def)
  next
    case False
    with assms a show ?thesis
      using components_append [OF assms(1,2) False] components_trailing [OF False]
      by (simp add: path_join_def)
  qed
qed

text \<open>\<^verbatim>\<open>Path::file_name\<close>: the last component, when it is a name.\<close>

definition file_name :: "string \<Rightarrow> string option" where
  "file_name p = (case rev (components p) of Normal s # _ \<Rightarrow> Some s | _ \<Rightarrow> None)"

end
