(* ===== verification/Spec_Parse.thy ===== *)
theory Spec_Parse
  imports Json_Api Paths
begin

text \<open>
  \<^verbatim>\<open>rsrun-core/src/spec.rs\<close>: the subset of the OCI \<^verbatim>\<open>config.json\<close> the runtime acts on, and
  \<^verbatim>\<open>Spec::from_value\<close>. Every field has the source's name, apart from those that clash.
\<close>

section \<open>Data\<close>

record rootfs_backend_spec =
  rb_backend :: string
  rb_lowerdir :: "string option"
  rb_upperdir :: "string option"
  rb_workdir :: "string option"
  rb_merged :: "string option"

datatype rlimit_kind = Cpu | Fsize | Data | Stack | Core | Rss | Nproc | Nofile | Memlock | As
  | Locks | Sigpending | Msgqueue | Nice | Rtprio | Rttime

record rlimit =
  rl_kind :: rlimit_kind
  rl_soft :: u64
  rl_hard :: u64

record scheduler_spec =
  sch_policy :: u32
  sch_nice :: i32
  sch_priority :: u32
  sch_flags :: u64
  sch_runtime :: u64
  sch_deadline :: u64
  sch_period :: u64

record capabilities =
  cap_bounding :: "string list"
  cap_effective :: "string list"
  cap_permitted :: "string list"
  cap_inheritable :: "string list"
  cap_ambient :: "string list"

record id_mapping =
  im_container_id :: u32
  im_host_id :: u32
  im_size :: u32

datatype namespace_kind = NsPid | NsNetwork | NsMount | NsIpc | NsUts | NsUser | NsCgroup

record namespace_entry =
  ns_kind :: namespace_kind
  ns_path :: "string option"

record mount_spec =
  ms_destination :: string
  ms_source :: string
  ms_fstype :: string
  ms_options :: "string list"
  ms_uid_mappings :: "id_mapping list"
  ms_gid_mappings :: "id_mapping list"

record 'v spec =
  sp_args :: "string list"
  sp_env :: "string list"
  sp_cwd :: string
  sp_terminal :: bool
  sp_root_path :: string
  sp_root_readonly :: bool
  sp_rootfs_backend :: "rootfs_backend_spec option"
  sp_hostname :: string
  sp_namespaces :: "namespace_entry list"
  sp_mounts :: "mount_spec list"
  sp_uid_mappings :: "id_mapping list"
  sp_gid_mappings :: "id_mapping list"
  sp_rlimits :: "rlimit list"
  sp_capabilities :: "capabilities option"
  sp_no_new_privileges :: bool
  sp_apparmor_profile :: "string option"
  sp_selinux_label :: "string option"
  sp_sysctls :: "(string \<times> string) list"
  sp_rootfs_propagation :: "string option"
  sp_oom_score_adj :: "i32 option"
  sp_scheduler :: "scheduler_spec option"
  sp_masked_paths :: "string list"
  sp_readonly_paths :: "string list"
  sp_user_uid :: u32
  sp_user_gid :: u32
  sp_user_additional_gids :: "u32 list"
  sp_user_umask :: "u32 option"
  sp_raw :: 'v
  sp_bundle :: string

section \<open>Field parsers\<close>

definition missing :: "string \<Rightarrow> io_error" where
  "missing field = IoError InvalidData (''missing OCI field: '' @ field)"

definition string_array :: "'v json_api \<Rightarrow> 'v \<Rightarrow> string list" where
  "string_array J v = (case jas_array J v of None \<Rightarrow> [] | Some a \<Rightarrow> filter_map (jas_str J) a)"

definition get_strings :: "'v json_api \<Rightarrow> 'v \<Rightarrow> string \<Rightarrow> string list" where
  "get_strings J v key = (case get_array J v key of None \<Rightarrow> [] | Some a \<Rightarrow> filter_map (jas_str J) a)"

definition get_items :: "'v json_api \<Rightarrow> ('v \<Rightarrow> 'a option) \<Rightarrow> 'v \<Rightarrow> string \<Rightarrow> 'a list" where
  "get_items J f v key = (case get_array J v key of None \<Rightarrow> [] | Some a \<Rightarrow> filter_map f a)"

definition nonempty :: "string option \<Rightarrow> string option" where
  "nonempty s = and_then s (\<lambda>x. if x = [] then None else Some x)"

definition parse_ns :: "string \<Rightarrow> namespace_kind option" where
  "parse_ns s = map_of [(''pid'', NsPid), (''network'', NsNetwork), (''mount'', NsMount), (''ipc'', NsIpc),
     (''uts'', NsUts), (''user'', NsUser), (''cgroup'', NsCgroup)] s"

definition parse_mapping :: "'v json_api \<Rightarrow> 'v \<Rightarrow> id_mapping option" where
  "parse_mapping J v =
     and_then (get_u64 J v ''containerID'') (\<lambda>c.
     and_then (get_u64 J v ''hostID'') (\<lambda>h.
     and_then (get_u64 J v ''size'') (\<lambda>s.
       Some \<lparr>im_container_id = ucast c, im_host_id = ucast h, im_size = ucast s\<rparr>)))"

definition parse_capabilities :: "'v json_api \<Rightarrow> 'v \<Rightarrow> capabilities" where
  "parse_capabilities J v =
     \<lparr>cap_bounding = get_strings J v ''bounding'', cap_effective = get_strings J v ''effective'',
      cap_permitted = get_strings J v ''permitted'', cap_inheritable = get_strings J v ''inheritable'',
      cap_ambient = get_strings J v ''ambient''\<rparr>"

definition rlimit_kinds :: "(string \<times> rlimit_kind) list" where
  "rlimit_kinds = [(''RLIMIT_CPU'', Cpu), (''RLIMIT_FSIZE'', Fsize), (''RLIMIT_DATA'', Data),
     (''RLIMIT_STACK'', Stack), (''RLIMIT_CORE'', Core), (''RLIMIT_RSS'', Rss), (''RLIMIT_NPROC'', Nproc),
     (''RLIMIT_NOFILE'', Nofile), (''RLIMIT_MEMLOCK'', Memlock), (''RLIMIT_AS'', As),
     (''RLIMIT_LOCKS'', Locks), (''RLIMIT_SIGPENDING'', Sigpending), (''RLIMIT_MSGQUEUE'', Msgqueue),
     (''RLIMIT_NICE'', Nice), (''RLIMIT_RTPRIO'', Rtprio), (''RLIMIT_RTTIME'', Rttime)]"

definition parse_rlimit :: "'v json_api \<Rightarrow> 'v \<Rightarrow> rlimit option" where
  "parse_rlimit J v =
     and_then (get_str J v ''type'') (\<lambda>ty.
     and_then (get_u64 J v ''soft'') (\<lambda>soft.
     and_then (get_u64 J v ''hard'') (\<lambda>hard.
     and_then (map_of rlimit_kinds ty) (\<lambda>kind.
       Some \<lparr>rl_kind = kind, rl_soft = soft, rl_hard = hard\<rparr>))))"

definition sched_policies :: "(string \<times> u32) list" where
  "sched_policies = [(''SCHED_OTHER'', 0), ('''', 0), (''SCHED_FIFO'', 1), (''SCHED_RR'', 2),
     (''SCHED_BATCH'', 3), (''SCHED_IDLE'', 5), (''SCHED_DEADLINE'', 6)]"

definition sched_flags :: "(string \<times> u64) list" where
  "sched_flags = [(''SCHED_FLAG_RESET_ON_FORK'', 0x01), (''SCHED_FLAG_RECLAIM'', 0x02),
     (''SCHED_FLAG_DL_OVERRUN'', 0x04), (''SCHED_FLAG_KEEP_POLICY'', 0x08),
     (''SCHED_FLAG_KEEP_PARAMS'', 0x10), (''SCHED_FLAG_UTIL_CLAMP_MIN'', 0x20),
     (''SCHED_FLAG_UTIL_CLAMP_MAX'', 0x40)]"

fun or_flags :: "u64 \<Rightarrow> string list \<Rightarrow> u64 io_result" where
  "or_flags acc [] = Ok acc"
| "or_flags acc (name # names) =
     (case map_of sched_flags name of
        Some b \<Rightarrow> or_flags (acc OR b) names
      | None \<Rightarrow> Err Other (''process.scheduler: unknown flag '' @ name))"

definition parse_scheduler :: "'v json_api \<Rightarrow> 'v \<Rightarrow> scheduler_spec io_result" where
  "parse_scheduler J v =
     (let name = unwrap_or (get_str J v ''policy'') ''''
      in case map_of sched_policies name of
           None \<Rightarrow> Err Other (''process.scheduler: unknown policy '' @ name)
         | Some policy \<Rightarrow>
             rbind (or_flags 0 (get_strings J v ''flags'')) (\<lambda>flags.
               Ok \<lparr>sch_policy = policy, sch_nice = ucast (unwrap_or (get_i64 J v ''nice'') 0),
                  sch_priority = ucast (unwrap_or (get_u64 J v ''priority'') 0), sch_flags = flags,
                  sch_runtime = unwrap_or (get_u64 J v ''runtime'') 0,
                  sch_deadline = unwrap_or (get_u64 J v ''deadline'') 0,
                  sch_period = unwrap_or (get_u64 J v ''period'') 0\<rparr>))"

definition parse_rootfs_backend :: "'v json_api \<Rightarrow> 'v option \<Rightarrow> rootfs_backend_spec option io_result" where
  "parse_rootfs_backend J rsrun =
     (case and_then rsrun (\<lambda>v. jget J v ''rootfs'') of
        None \<Rightarrow> Ok None
      | Some rootfs \<Rightarrow>
          if jis_null J rootfs then Ok None
          else rbind (ok_or (get_str J rootfs ''backend'') (missing ''rsrun.rootfs.backend'')) (\<lambda>backend.
            if backend \<noteq> ''overlayfs''
            then Err Other (''rsrun.rootfs.backend '' @ backend @ '' is not supported'')
            else Ok (Some \<lparr>rb_backend = backend,
              rb_lowerdir = nonempty (get_str J rootfs ''lowerdir''),
              rb_upperdir = nonempty (get_str J rootfs ''upperdir''),
              rb_workdir = nonempty (get_str J rootfs ''workdir''),
              rb_merged = nonempty (get_str J rootfs ''merged'')\<rparr>)))"

definition parse_ns_entry :: "'v json_api \<Rightarrow> 'v \<Rightarrow> namespace_entry option" where
  "parse_ns_entry J ns =
     and_then (get_str J ns ''type'') (\<lambda>ty.
     and_then (parse_ns ty) (\<lambda>k.
       Some \<lparr>ns_kind = k, ns_path = nonempty (get_str J ns ''path'')\<rparr>))"

definition parse_mount_entry :: "'v json_api \<Rightarrow> 'v \<Rightarrow> mount_spec option" where
  "parse_mount_entry J m =
     (let destination = unwrap_or (get_str J m ''destination'') ''''
      in if destination = '''' then None
         else Some \<lparr>ms_destination = destination,
           ms_source = unwrap_or (get_str J m ''source'') '''',
           ms_fstype = unwrap_or (get_str J m ''type'') ''none'',
           ms_options = (case jget J m ''options'' of None \<Rightarrow> [] | Some v \<Rightarrow> string_array J v),
           ms_uid_mappings = get_items J (parse_mapping J) m ''uidMappings'',
           ms_gid_mappings = get_items J (parse_mapping J) m ''gidMappings''\<rparr>)"

definition parse_sysctls :: "'v json_api \<Rightarrow> 'v \<Rightarrow> (string \<times> string) list" where
  "parse_sysctls J linux =
     (case get_object J linux ''sysctl'' of None \<Rightarrow> []
      | Some obj \<Rightarrow> filter_map (\<lambda>(k, v). map_option (\<lambda>s. (k, s)) (jas_str J v)) obj)"

section \<open>The whole configuration\<close>

definition spec_from_value :: "'v json_api \<Rightarrow> 'v \<Rightarrow> string \<Rightarrow> 'v spec io_result" where
  "spec_from_value J v bundle =
     rbind (ok_or (jget J v ''process'') (missing ''process'')) (\<lambda>process.
     rbind (ok_or (jget J process ''args'') (missing ''process.args'')) (\<lambda>args.
     rbind (transpose_opt (map_option (parse_scheduler J) (jget J process ''scheduler''))) (\<lambda>scheduler.
     rbind (ok_or (jget J v ''root'') (missing ''root'')) (\<lambda>root.
     rbind (ok_or (get_str J root ''path'') (missing ''root.path'')) (\<lambda>root_rel.
     rbind (parse_rootfs_backend J (jget J v ''rsrun'')) (\<lambda>rootfs_backend.
     let user = jget J process ''user''; linux = jget J v ''linux'';
         ufield = (\<lambda>k. and_then user (\<lambda>u. get_u64 J u k));
         litems = (\<lambda>g. case linux of None \<Rightarrow> [] | Some l \<Rightarrow> g l)
     in Ok \<lparr>
       sp_args = string_array J args,
       sp_env = (case jget J process ''env'' of None \<Rightarrow> [] | Some e \<Rightarrow> string_array J e),
       sp_cwd = unwrap_or (get_str J process ''cwd'') ''/'',
       sp_terminal = unwrap_or (get_bool J process ''terminal'') False,
       sp_root_path = (if is_absolute root_rel then root_rel else path_join bundle root_rel),
       sp_root_readonly = unwrap_or (get_bool J root ''readonly'') False,
       sp_rootfs_backend = rootfs_backend,
       sp_hostname = unwrap_or (get_str J v ''hostname'') ''rsrun'',
       sp_namespaces = (case linux of None \<Rightarrow> [] | Some l \<Rightarrow> get_items J (parse_ns_entry J) l ''namespaces''),
       sp_mounts = get_items J (parse_mount_entry J) v ''mounts'',
       sp_uid_mappings = (case linux of None \<Rightarrow> [] | Some l \<Rightarrow> get_items J (parse_mapping J) l ''uidMappings''),
       sp_gid_mappings = (case linux of None \<Rightarrow> [] | Some l \<Rightarrow> get_items J (parse_mapping J) l ''gidMappings''),
       sp_rlimits = get_items J (parse_rlimit J) process ''rlimits'',
       sp_capabilities = map_option (parse_capabilities J) (jget J process ''capabilities''),
       sp_no_new_privileges = unwrap_or (get_bool J process ''noNewPrivileges'') False,
       sp_apparmor_profile = nonempty (get_str J process ''apparmorProfile''),
       sp_selinux_label = nonempty (get_str J process ''selinuxLabel''),
       sp_sysctls = (case linux of None \<Rightarrow> [] | Some l \<Rightarrow> parse_sysctls J l),
       sp_rootfs_propagation = and_then linux (\<lambda>l. nonempty (get_str J l ''rootfsPropagation'')),
       sp_oom_score_adj = map_option ucast (get_i64 J process ''oomScoreAdj''),
       sp_scheduler = scheduler,
       sp_masked_paths = litems (\<lambda>l. get_strings J l ''maskedPaths''),
       sp_readonly_paths = litems (\<lambda>l. get_strings J l ''readonlyPaths''),
       sp_user_uid = ucast (unwrap_or (ufield ''uid'') 0),
       sp_user_gid = ucast (unwrap_or (ufield ''gid'') 0),
       sp_user_additional_gids =
         (case user of None \<Rightarrow> []
          | Some u \<Rightarrow> get_items J (\<lambda>g. map_option ucast (jas_u64 J g)) u ''additionalGids''),
       sp_user_umask = map_option ucast (ufield ''umask''),
       sp_raw = v,
       sp_bundle = bundle\<rparr>))))))"

section \<open>Which configurations are accepted\<close>

lemma or_flags_ok:
  "is_ok (or_flags acc names) \<longleftrightarrow> (\<forall>n \<in> set names. n \<in> fst ` set sched_flags)"
proof (induction names arbitrary: acc)
  case (Cons n names)
  have "map_of sched_flags n = None \<longleftrightarrow> n \<notin> fst ` set sched_flags"
    by (rule map_of_eq_None_iff)
  with Cons show ?case by (auto split: option.split)
qed simp

definition scheduler_ok :: "'v json_api \<Rightarrow> 'v \<Rightarrow> bool" where
  "scheduler_ok J s =
     (unwrap_or (get_str J s ''policy'') '''' \<in> fst ` set sched_policies \<and>
      (\<forall>n \<in> set (get_strings J s ''flags''). n \<in> fst ` set sched_flags))"

lemma parse_scheduler_ok: "is_ok (parse_scheduler J s) \<longleftrightarrow> scheduler_ok J s"
proof -
  have p: "map_of sched_policies n = None \<longleftrightarrow> n \<notin> fst ` set sched_policies" for n
    by (rule map_of_eq_None_iff)
  show ?thesis
    using or_flags_ok [of 0 "get_strings J s ''flags''"]
      p [of "unwrap_or (get_str J s ''policy'') ''''"]
    by (cases "or_flags 0 (get_strings J s ''flags'')")
      (auto simp: parse_scheduler_def scheduler_ok_def Let_def split: option.split)
qed

definition backend_ok :: "'v json_api \<Rightarrow> 'v \<Rightarrow> bool" where
  "backend_ok J v =
     (case and_then (jget J v ''rsrun'') (\<lambda>r. jget J r ''rootfs'') of None \<Rightarrow> True
      | Some rootfs \<Rightarrow> jis_null J rootfs \<or> get_str J rootfs ''backend'' = Some ''overlayfs'')"

lemma parse_rootfs_backend_ok: "is_ok (parse_rootfs_backend J (jget J v ''rsrun'')) \<longleftrightarrow> backend_ok J v"
proof (cases "and_then (jget J v ''rsrun'') (\<lambda>r. jget J r ''rootfs'')")
  case (Some r)
  then show ?thesis
    unfolding parse_rootfs_backend_def backend_ok_def Some
    by (cases "get_str J r ''backend''") simp_all
next
  case None
  show ?thesis unfolding parse_rootfs_backend_def backend_ok_def None by simp
qed

lemma is_ok_transpose: "(\<exists>s. transpose_opt x = Inr s) \<longleftrightarrow> pred_option is_ok x"
proof (cases x)
  case (Some r)
  then show ?thesis by (cases r) auto
qed simp

text \<open>
  C5: Exactly the configurations with \<^verbatim>\<open>process\<close>, \<^verbatim>\<open>process.args\<close>, \<^verbatim>\<open>root\<close> and a string \<^verbatim>\<open>root.path\<close>
  are accepted, provided a scheduler has a known policy and known flags and an \<^verbatim>\<open>rsrun.rootfs\<close>
  section, when present, names the overlayfs backend; nothing else makes the parser fail.
\<close>
theorem spec_accepted_iff:
  "is_ok (spec_from_value J v bundle) \<longleftrightarrow>
     (case jget J v ''process'' of None \<Rightarrow> False
      | Some p \<Rightarrow> jget J p ''args'' \<noteq> None \<and> pred_option (scheduler_ok J) (jget J p ''scheduler'')) \<and>
     (case jget J v ''root'' of None \<Rightarrow> False | Some r \<Rightarrow> get_str J r ''path'' \<noteq> None) \<and>
     backend_ok J v"
proof (cases "jget J v ''process''")
  case (Some p)
  have s: "(\<exists>s. transpose_opt (map_option (parse_scheduler J) (jget J p ''scheduler'')) = Inr s) \<longleftrightarrow>
      pred_option (scheduler_ok J) (jget J p ''scheduler'')"
    by (simp add: is_ok_transpose parse_scheduler_ok option.pred_map o_def)
  have b: "(\<exists>b. parse_rootfs_backend J (jget J v ''rsrun'') = Inr b) \<longleftrightarrow> backend_ok J v"
    using parse_rootfs_backend_ok [of J v] by (simp add: is_ok_iff)
  show ?thesis
    unfolding spec_from_value_def is_ok_rbind Let_def is_ok_simps ok_or_Inr
    using Some by (auto simp: s [symmetric] b [symmetric] split: option.split)
qed (simp add: spec_from_value_def)

text \<open>
  Numeric identities are cut to 32 bits without an error: the parsed uid is the low half of the
  number in the file, so the uid 2^32 of an accepted configuration is run as root.
\<close>
theorem spec_uid_truncates:
  assumes "spec_from_value J v bundle = Ok spec"
    and "jget J v ''process'' = Some p" "jget J p ''user'' = Some u" "get_u64 J u ''uid'' = Some n"
  shows "uint (sp_user_uid spec) = uint n mod 2 ^ 32 \<and> (n = 0x100000000 \<longrightarrow> sp_user_uid spec = 0)"
proof -
  have "sp_user_uid spec = ucast n"
    using assms by (auto simp: spec_from_value_def Let_def)
  then show ?thesis by (auto simp: uint_up_ucast unsigned_ucast_eq take_bit_eq_mod)
qed

definition root_by_wrap :: jval where
  "root_by_wrap = JObj [(''process'', JObj [(''args'', JArr [JStr ''sh'']),
     (''user'', JObj [(''uid'', JPos 0x100000000)])]), (''root'', JObj [(''path'', JStr ''rootfs'')])]"

theorem spec_uid_truncates_witness:
  "\<exists>spec. spec_from_value jv root_by_wrap ''/b'' = Ok spec \<and> sp_user_uid spec = 0"
proof -
  obtain spec where spec: "spec_from_value jv root_by_wrap ''/b'' = Ok spec"
    by (simp add: spec_from_value_def root_by_wrap_def get_defs parse_rootfs_backend_def Let_def)
  show ?thesis
    using spec_uid_truncates [OF spec, of "JObj [(''args'', JArr [JStr ''sh'']),
        (''user'', JObj [(''uid'', JPos 0x100000000)])]" "JObj [(''uid'', JPos 0x100000000)]"] spec
    by (simp add: root_by_wrap_def get_defs)
qed

end
