(* ===== verification/Seccomp.thy ===== *)
theory Seccomp
  imports Json_Api Syscall_Tables
begin

text \<open>
  \<^verbatim>\<open>rsrun-ext/src/seccomp.rs\<close>: the OCI \<^verbatim>\<open>linux.seccomp\<close> object becomes a classic BPF program. The
  kernel's interpreter for the four instructions the emitter uses is written out, so that the
  theorems speak about the verdict the program gives on a system call.
\<close>

section \<open>Actions\<close>

abbreviation (input) "SECCOMP_RET_KILL_PROCESS \<equiv> (0x80000000 :: u32)"
abbreviation (input) "SECCOMP_RET_KILL_THREAD \<equiv> (0x00000000 :: u32)"
abbreviation (input) "SECCOMP_RET_TRAP \<equiv> (0x00030000 :: u32)"
abbreviation (input) "SECCOMP_RET_ERRNO \<equiv> (0x00050000 :: u32)"
abbreviation (input) "SECCOMP_RET_LOG \<equiv> (0x7ffc0000 :: u32)"
abbreviation (input) "SECCOMP_RET_ALLOW \<equiv> (0x7fff0000 :: u32)"

definition parse_action :: "string option \<Rightarrow> u32 option \<Rightarrow> u32 io_result" where
  "parse_action s errno_ret =
     (let a = unwrap_or s ''SCMP_ACT_ERRNO''
      in if a = ''SCMP_ACT_ALLOW'' then Ok SECCOMP_RET_ALLOW
         else if a = ''SCMP_ACT_ERRNO'' then Ok (SECCOMP_RET_ERRNO OR unwrap_or errno_ret 1)
         else if a = ''SCMP_ACT_KILL'' \<or> a = ''SCMP_ACT_KILL_THREAD'' then Ok SECCOMP_RET_KILL_THREAD
         else if a = ''SCMP_ACT_KILL_PROCESS'' then Ok SECCOMP_RET_KILL_PROCESS
         else if a = ''SCMP_ACT_LOG'' then Ok SECCOMP_RET_LOG
         else if a = ''SCMP_ACT_TRAP'' then Ok SECCOMP_RET_TRAP
         else Err Other (''unsupported seccomp action: '' @ a))"

text \<open>The build target, which \<^verbatim>\<open>cfg!(target_arch)\<close> fixes.\<close>

datatype target = X86_64 | Aarch64 | Other_Arch

fun host_audit_arch :: "target \<Rightarrow> u32 io_result" where
  "host_audit_arch X86_64 = Ok 0xc000003e"
| "host_audit_arch Aarch64 = Ok 0xc00000b7"
| "host_audit_arch Other_Arch = Err Other ''seccomp: unsupported target arch''"

fun syscall_nr :: "target \<Rightarrow> string \<Rightarrow> int option" where
  "syscall_nr X86_64 name = syscall_nr_x86_64 name"
| "syscall_nr Aarch64 name = syscall_nr_aarch64 name"
| "syscall_nr Other_Arch name = None"

section \<open>The emitter\<close>

record sock_filter =
  sf_code :: u16
  sf_jt :: u8
  sf_jf :: u8
  sf_k :: u32

definition cstmt :: "u16 \<Rightarrow> u32 \<Rightarrow> sock_filter" where
  "cstmt code k = \<lparr>sf_code = code, sf_jt = 0, sf_jf = 0, sf_k = k\<rparr>"

definition cjump :: "u16 \<Rightarrow> u32 \<Rightarrow> u8 \<Rightarrow> u8 \<Rightarrow> sock_filter" where
  "cjump code k jt jf = \<lparr>sf_code = code, sf_jt = jt, sf_jf = jf, sf_k = k\<rparr>"

text \<open>\<^verbatim>\<open>BPF_LD|BPF_W|BPF_ABS\<close>, \<^verbatim>\<open>BPF_JMP|BPF_JEQ|BPF_K\<close> and \<^verbatim>\<open>BPF_RET|BPF_K\<close>.\<close>

abbreviation (input) "CODE_LD \<equiv> (0x00 OR 0x00 OR 0x20 :: u16)"
abbreviation (input) "CODE_JEQ \<equiv> (0x05 OR 0x10 OR 0x00 :: u16)"
abbreviation (input) "CODE_RET \<equiv> (0x06 OR 0x00 :: u16)"

definition emit_pair :: "u32 \<times> u32 \<Rightarrow> sock_filter list" where
  "emit_pair r = [cjump CODE_JEQ (fst r) 0 1, cstmt CODE_RET (snd r)]"

definition emit_filter :: "u32 \<Rightarrow> (u32 \<times> u32) list \<Rightarrow> u32 \<Rightarrow> sock_filter list" where
  "emit_filter arch rules default_action =
     [cstmt CODE_LD 4, cjump CODE_JEQ arch 1 0, cstmt CODE_RET SECCOMP_RET_KILL_PROCESS, cstmt CODE_LD 0] @
     concat (map emit_pair rules) @ [cstmt CODE_RET default_action]"

section \<open>The compiler\<close>

definition entry_rules :: "'v json_api \<Rightarrow> target \<Rightarrow> 'v \<Rightarrow> (u32 \<times> u32) list io_result" where
  "entry_rules J t entry =
     rbind (parse_action (get_str J entry ''action'') (map_option ucast (get_i64 J entry ''errnoRet'')))
       (\<lambda>action.
          let names = (case get_array J entry ''names'' of None \<Rightarrow> [] | Some a \<Rightarrow> filter_map (jas_str J) a)
          in Ok (filter_map (\<lambda>name. map_option (\<lambda>nr. (word_of_int nr, action)) (syscall_nr t name)) names))"

definition spec_rules :: "'v json_api \<Rightarrow> target \<Rightarrow> 'v \<Rightarrow> (u32 \<times> u32) list io_result" where
  "spec_rules J t seccomp =
     (case get_array J seccomp ''syscalls'' of None \<Rightarrow> Ok []
      | Some arr \<Rightarrow> rbind (rcollect (entry_rules J t) arr) (\<lambda>rs. Ok (concat rs)))"

definition seccomp_compile ::
  "'v json_api \<Rightarrow> target \<Rightarrow> 'v option \<Rightarrow> sock_filter list io_result" where
  "seccomp_compile J t seccomp =
     (case seccomp of None \<Rightarrow> Ok []
      | Some v \<Rightarrow>
          rbind (host_audit_arch t) (\<lambda>arch.
          rbind (parse_action (get_str J v ''defaultAction'') (map_option ucast (get_i64 J v ''defaultErrnoRet'')))
            (\<lambda>default_action.
          rbind (spec_rules J t v) (\<lambda>rules.
            if rules = [] \<and> default_action = SECCOMP_RET_ALLOW then Ok []
            else Ok (emit_filter arch rules default_action)))))"

section \<open>The kernel's interpreter\<close>

record seccomp_data =
  sd_nr :: u32
  sd_arch :: u32

fun seccomp_load :: "seccomp_data \<Rightarrow> u32 \<Rightarrow> u32 option" where
  "seccomp_load d k = (if k = 0 then Some (sd_nr d) else if k = 4 then Some (sd_arch d) else None)"

text \<open>The jump offsets count from the next instruction, so a program is run on its suffixes.\<close>

fun cbpf :: "seccomp_data \<Rightarrow> u32 \<Rightarrow> sock_filter list \<Rightarrow> u32 option" where
  "cbpf d acc [] = None"
| "cbpf d acc (i # is) =
     (if sf_code i = CODE_RET then Some (sf_k i)
      else if sf_code i = CODE_LD then and_then (seccomp_load d (sf_k i)) (\<lambda>v. cbpf d v is)
      else if sf_code i = CODE_JEQ then
        (if acc = sf_k i then cbpf d acc (drop (unat (sf_jt i)) is) else cbpf d acc (drop (unat (sf_jf i)) is))
      else None)"

lemma cbpf_steps [simp, bpf_code]:
  "cbpf d acc (cstmt 6 k # is) = Some k"
  "cbpf d acc (cstmt 32 k # is) = and_then (seccomp_load d k) (\<lambda>v. cbpf d v is)"
  "cbpf d acc (cjump 21 k jt jf # is) =
     (if acc = k then cbpf d acc (drop (unat jt) is) else cbpf d acc (drop (unat jf) is))"
  by (simp_all add: cstmt_def cjump_def)

declare cbpf.simps(2) [simp del]

lemma cbpf_pairs:
  "cbpf d acc (concat (map emit_pair rules) @ tail) =
     (case find (\<lambda>r. fst r = acc) rules of Some r \<Rightarrow> Some (snd r) | None \<Rightarrow> cbpf d acc tail)"
proof (induction rules)
  case (Cons r rules)
  then show ?case by (auto simp: emit_pair_def)
qed simp

text \<open>
  C4: The verdict of an emitted filter: a call from another architecture kills the process; otherwise
  the first rule with the number of the call decides, and the default action where no rule has it.
\<close>
theorem seccomp_filter_verdict:
  "cbpf d acc (emit_filter arch rules default_action) =
     Some (if sd_arch d \<noteq> arch then SECCOMP_RET_KILL_PROCESS
           else case find (\<lambda>r. fst r = sd_nr d) rules of Some r \<Rightarrow> snd r | None \<Rightarrow> default_action)"
  by (auto simp: emit_filter_def cbpf_pairs split: option.split)

section \<open>From the profile to the verdict\<close>

text \<open>The \<^verbatim>\<open>errno\<close> values the ABI can carry stay in the data half of the action.\<close>

text \<open>
  An errno action keeps its kind exactly when the requested errno fits the 16 data bits of a
  seccomp return value: then the upper half is ERRNO and the lower half the errno. The value is
  not masked: with errnoRet 0x7ffa0000 the "errno" action is the ALLOW action.
\<close>
theorem errno_action_kind:
  "(unat e < 2 ^ 16 \<longrightarrow>
      (\<exists>a. parse_action (Some ''SCMP_ACT_ERRNO'') (Some e) = Ok a \<and>
         a AND 0xffff0000 = SECCOMP_RET_ERRNO \<and> a AND 0xffff = e)) \<and>
   parse_action (Some ''SCMP_ACT_ERRNO'') (Some 0x7ffa0000) = Ok SECCOMP_RET_ALLOW"
proof -
  have "(0x50000 OR e) AND 0xffff0000 = 0x50000 \<and> (0x50000 OR e) AND 0xffff = e" if "unat e < 2 ^ 16"
  proof -
    have "unat (take_bit 16 e) = unat e"
      using that by (simp only: unsigned_take_bit_eq take_bit_nat_eq_self)
    then have "e AND mask 16 = e"
      by (simp only: take_bit_eq_mask word_unat_eq_iff)
    then have low: "e AND 0xffff = e" by (simp add: mask_eq_exp_minus_1)
    have "e AND 0xffff0000 = (e AND 0xffff) AND 0xffff0000" by (simp only: low)
    also have "\<dots> = 0" by (simp add: word_bw_assocs(1))
    finally have high: "e AND 0xffff0000 = 0" .
    show ?thesis by (simp add: word_ao_dist low high)
  qed
  then show ?thesis by (simp add: parse_action_def)
qed

lemma errno_action_kind_witness:
  "\<exists>a. parse_action (Some ''SCMP_ACT_ERRNO'') (Some 38) = Ok a \<and> a AND 0xffff = 38"
  using errno_action_kind [of 38] by auto

text \<open>
  What a compiled profile does to a native system call: an empty program (no filter) is only
  produced when no rule resolves and the default is ALLOW; in every case the verdict is that of
  the first rule listed for the number, or the default action.
\<close>
theorem seccomp_compile_verdict:
  assumes "seccomp_compile J t (Some v) = Ok prog"
    and "host_audit_arch t = Ok (sd_arch d)"
  shows "\<exists>rules default_action.
    spec_rules J t v = Ok rules \<and>
    parse_action (get_str J v ''defaultAction'') (map_option ucast (get_i64 J v ''defaultErrnoRet'')) =
      Ok default_action \<and>
    (if prog = [] then SECCOMP_RET_ALLOW else the (cbpf d 0 prog)) =
      (case find (\<lambda>r. fst r = sd_nr d) rules of Some r \<Rightarrow> snd r | None \<Rightarrow> default_action)"
proof -
  from assms obtain rules dflt where
    r: "spec_rules J t v = Ok rules"
    and a: "parse_action (get_str J v ''defaultAction'') (map_option ucast (get_i64 J v ''defaultErrnoRet'')) =
      Ok dflt"
    and p: "prog = (if rules = [] \<and> dflt = SECCOMP_RET_ALLOW then [] else emit_filter (sd_arch d) rules dflt)"
    by (auto simp: seccomp_compile_def split: if_splits)
  have "emit_filter (sd_arch d) rules dflt \<noteq> []" by (simp add: emit_filter_def)
  then have "(if prog = [] then SECCOMP_RET_ALLOW else the (cbpf d 0 prog)) =
      (case find (\<lambda>r. fst r = sd_nr d) rules of Some r \<Rightarrow> snd r | None \<Rightarrow> dflt)"
    using p seccomp_filter_verdict [of d 0 "sd_arch d" rules dflt] by auto
  with r a show ?thesis by blast
qed

definition sample_profile :: jval where
  "sample_profile = JObj [(''defaultAction'', JStr ''SCMP_ACT_ALLOW''),
     (''syscalls'', JArr [JObj [(''names'', JArr [JStr ''read'']), (''action'', JStr ''SCMP_ACT_KILL'')]])]"

lemma sample_rules: "spec_rules jv X86_64 sample_profile = Ok [(0, 0)]"
  by (simp add: spec_rules_def sample_profile_def entry_rules_def parse_action_def get_defs
      syscall_nr_x86_64_def syscall_table_x86_64_defs)

theorem seccomp_compile_verdict_witness:
  "\<exists>prog rules default_action.
    seccomp_compile jv X86_64 (Some sample_profile) = Ok prog \<and>
    spec_rules jv X86_64 sample_profile = Ok rules \<and>
    (if prog = [] then SECCOMP_RET_ALLOW else the (cbpf \<lparr>sd_nr = 0, sd_arch = 0xc000003e\<rparr> 0 prog)) =
      (case find (\<lambda>r. fst r = 0) rules of Some r \<Rightarrow> snd r | None \<Rightarrow> default_action)"
proof -
  obtain prog where prog: "seccomp_compile jv X86_64 (Some sample_profile) = Ok prog"
    using sample_rules
    by (simp add: seccomp_compile_def parse_action_def) (simp add: sample_profile_def get_defs)
  then show ?thesis
    using seccomp_compile_verdict [OF prog, of "\<lparr>sd_nr = 0, sd_arch = 0xc000003e\<rparr>"] by auto
qed

text \<open>
  The x86-64 table resolves two different names to two different numbers, and every number of
  either table is small enough that the cast to the 32-bit operand of the comparison is faithful.
\<close>
theorem syscall_numbers_faithful:
  "(syscall_nr X86_64 a = Some n \<longrightarrow> syscall_nr X86_64 b = Some n \<longrightarrow> a = b) \<and>
   (syscall_nr t a = Some n \<longrightarrow> uint (word_of_int n :: u32) = n)"
proof -
  have x: "a = b" if "syscall_nr X86_64 a = Some n" "syscall_nr X86_64 b = Some n"
    using that table_inj [OF sorted_x86_64] by (simp add: syscall_nr_x86_64_def)
  have "0 \<le> n \<and> n < 1024" if "syscall_nr t a = Some n"
    using that range_x86_64 range_aarch64
    by (cases t) (force simp: syscall_nr_x86_64_def syscall_nr_aarch64_def dest: map_of_SomeD)+
  then show ?thesis using x by (auto simp: uint_word_of_int_eq take_bit_int_eq_self)
qed

lemma syscall_numbers_faithful_witness:
  "uint (word_of_int 0 :: u32) = 0 \<and> syscall_nr X86_64 ''read'' = Some 0"
proof -
  have "syscall_nr X86_64 ''read'' = Some 0"
    by (simp add: syscall_nr_x86_64_def syscall_table_x86_64_defs)
  then show ?thesis using syscall_numbers_faithful [of "''read''" 0 "''read''" X86_64] by auto
qed

end
