(* ===== verification/Plan.thy ===== *)
theory Plan
  imports Spec_Parse Seccomp
begin

text \<open>
  \<^verbatim>\<open>rsrun-core/src/plan.rs\<close>: \<^verbatim>\<open>CompiledPlan::from_spec\<close>, the mount, capability, namespace and
  id-map compilers and the JSON form of hooks. Flag words carry the Linux values of the \<^verbatim>\<open>libc\<close>
  constants. A \<^verbatim>\<open>CString\<close> is a string without a NUL byte.
\<close>

section \<open>Data\<close>

record hook_cmd =
  hc_path :: string
  hc_args :: "string list"
  hc_env :: "string list"
  hc_timeout_ms :: "u64 option"

record hooks =
  hk_prestart :: "hook_cmd list"
  hk_create_runtime :: "hook_cmd list"
  hk_create_container :: "hook_cmd list"
  hk_start_container :: "hook_cmd list"
  hk_poststart :: "hook_cmd list"
  hk_poststop :: "hook_cmd list"

definition no_hooks :: hooks where
  "no_hooks = \<lparr>hk_prestart = [], hk_create_runtime = [], hk_create_container = [],
     hk_start_container = [], hk_poststart = [], hk_poststop = []\<rparr>"

definition hooks_is_empty :: "hooks \<Rightarrow> bool" where
  "hooks_is_empty h \<longleftrightarrow> hk_prestart h = [] \<and> hk_create_runtime h = [] \<and> hk_create_container h = [] \<and>
     hk_start_container h = [] \<and> hk_poststart h = [] \<and> hk_poststop h = []"

record ext_plan =
  ep_seccomp_bpf :: "sock_filter list"
  ep_cgroup_v2_path :: "string option"
  ep_cgroup_v2_writes :: "(string \<times> u8 list) list"
  ep_device_cgroup_bpf :: "u8 list"
  ep_hooks :: hooks

definition ext_default :: ext_plan where
  "ext_default = \<lparr>ep_seccomp_bpf = [], ep_cgroup_v2_path = None, ep_cgroup_v2_writes = [],
     ep_device_cgroup_bpf = [], ep_hooks = no_hooks\<rparr>"

record cap_bitmasks =
  cb_bounding :: u64
  cb_effective :: u64
  cb_permitted :: u64
  cb_inheritable :: u64
  cb_ambient :: u64

record default_device =
  dd_path :: string
  dd_mode :: u32
  dd_kind :: char
  dd_major :: u32
  dd_minor :: u32

record mount_op =
  mo_source :: string
  mo_target :: string
  mo_fstype :: string
  mo_flags :: u64
  mo_propagation :: u64
  mo_data :: "string option"
  mo_idmap_uid :: "u8 list"
  mo_idmap_gid :: "u8 list"

record compiled_plan =
  cp_join_namespaces :: "(namespace_kind \<times> string) list"
  cp_ext :: ext_plan
  cp_clone_flags :: u32
  cp_wants_userns :: bool
  cp_uid_map_data :: "u8 list"
  cp_gid_map_data :: "u8 list"
  cp_set_hostname :: bool
  cp_rlimits :: "(u32 \<times> u64 \<times> u64) list"
  cp_caps :: "cap_bitmasks option"
  cp_no_new_privileges :: bool
  cp_default_devices :: "default_device list"
  cp_default_symlinks :: "(string \<times> string) list"
  cp_masked_paths :: "string list"
  cp_readonly_paths :: "string list"
  cp_user_uid :: u32
  cp_user_gid :: u32
  cp_user_additional_gids :: "u32 list"
  cp_user_umask :: "u32 option"
  cp_apparmor_profile :: "string option"
  cp_selinux_label :: "string option"
  cp_sysctls :: "(string \<times> u8 list) list"
  cp_rootfs_propagation :: u64
  cp_no_pivot :: bool
  cp_oom_score_adj :: "i32 option"
  cp_scheduler :: "scheduler_spec option"
  cp_hostname :: string
  cp_root_path :: string
  cp_root_readonly :: bool
  cp_mounts :: "mount_op list"
  cp_terminal :: bool
  cp_console_socket :: "string option"
  cp_argv :: "string list"
  cp_envp :: "string list"
  cp_cwd :: string

section \<open>Strings for the kernel\<close>

abbreviation (input) NUL :: char where
  "NUL \<equiv> CHR 0x00"

definition cstr :: "string \<Rightarrow> string io_result" where
  "cstr s = (if NUL \<in> set s then Err InvalidInput ''string contains NUL byte'' else Ok s)"

lemma cstr_Inr [simp]: "cstr s = Inr t \<longleftrightarrow> NUL \<notin> set s \<and> t = s"
  by (auto simp: cstr_def)

lemma cstr_ok [simp]: "is_ok (cstr s) \<longleftrightarrow> NUL \<notin> set s"
  by (simp add: cstr_def)

section \<open>Capabilities\<close>

definition cap_table :: "(string \<times> nat) list" where
  "cap_table = [
    (''CHOWN'', 0), (''DAC_OVERRIDE'', 1), (''DAC_READ_SEARCH'', 2), (''FOWNER'', 3),
    (''FSETID'', 4), (''KILL'', 5), (''SETGID'', 6), (''SETUID'', 7), (''SETPCAP'', 8),
    (''LINUX_IMMUTABLE'', 9), (''NET_BIND_SERVICE'', 10), (''NET_BROADCAST'', 11),
    (''NET_ADMIN'', 12), (''NET_RAW'', 13), (''IPC_LOCK'', 14), (''IPC_OWNER'', 15),
    (''SYS_MODULE'', 16), (''SYS_RAWIO'', 17), (''SYS_CHROOT'', 18), (''SYS_PTRACE'', 19),
    (''SYS_PACCT'', 20), (''SYS_ADMIN'', 21), (''SYS_BOOT'', 22), (''SYS_NICE'', 23),
    (''SYS_RESOURCE'', 24), (''SYS_TIME'', 25), (''SYS_TTY_CONFIG'', 26), (''MKNOD'', 27),
    (''LEASE'', 28), (''AUDIT_WRITE'', 29), (''AUDIT_CONTROL'', 30), (''SETFCAP'', 31),
    (''MAC_OVERRIDE'', 32), (''MAC_ADMIN'', 33), (''SYSLOG'', 34), (''WAKE_ALARM'', 35),
    (''BLOCK_SUSPEND'', 36), (''AUDIT_READ'', 37), (''PERFMON'', 38), (''BPF'', 39),
    (''CHECKPOINT_RESTORE'', 40)]"

definition cap_bit :: "string \<Rightarrow> nat option" where
  "cap_bit name = map_of cap_table (unwrap_or (strip_prefix ''CAP_'' name) name)"

fun cap_mask_from :: "u64 \<Rightarrow> string list \<Rightarrow> u64" where
  "cap_mask_from acc [] = acc"
| "cap_mask_from acc (n # ns) =
     (case cap_bit n of Some b \<Rightarrow> cap_mask_from (acc OR push_bit b 1) ns | None \<Rightarrow> cap_mask_from acc ns)"

definition cap_mask :: "string list \<Rightarrow> u64" where
  "cap_mask names = cap_mask_from 0 names"

lemma cap_table_bits: "map snd cap_table = [0 ..< 41]"
  by (simp add: cap_table_def upt_conv_Cons)

lemma cap_bit_le: "cap_bit name = Some i \<Longrightarrow> i < 41"
proof -
  assume "cap_bit name = Some i"
  then have "i \<in> set (map snd cap_table)"
    unfolding cap_bit_def by (force dest: map_of_SomeD)
  then show ?thesis by (simp add: cap_table_bits)
qed

lemma cap_mask_from_bits:
  "bit (cap_mask_from acc names) i \<longleftrightarrow> bit acc i \<or> (\<exists>n \<in> set names. cap_bit n = Some i)"
proof (induction names arbitrary: acc)
  case (Cons n names)
  show ?case
  proof (cases "cap_bit n")
    case (Some b)
    then have "b < 64" using cap_bit_le by fastforce
    then have "bit (push_bit b (1 :: u64)) i \<longleftrightarrow> b = i"
      by (auto simp: bit_push_bit_iff bit_1_iff bit_exp_iff)
    with Cons Some show ?thesis by (auto simp: bit_or_iff)
  qed (simp add: Cons)
qed simp

text \<open>
  A capability mask has exactly the bits of the known names in the list, with or without the
  \<^verbatim>\<open>CAP_\<close> prefix; unknown names are ignored, every bit is at most 40, and each bit of the range
  belongs to one name only.
\<close>
theorem cap_mask_correct:
  "(bit (cap_mask names) i \<longleftrightarrow> (\<exists>n \<in> set names. cap_bit n = Some i)) \<and>
   (bit (cap_mask names) i \<longrightarrow> i \<le> 40) \<and>
   (cap_bit a = Some i \<longrightarrow> cap_bit b = Some i \<longrightarrow>
      unwrap_or (strip_prefix ''CAP_'' a) a = unwrap_or (strip_prefix ''CAP_'' b) b)"
proof -
  have d: "distinct (map snd cap_table)" by (simp add: cap_table_bits)
  have "x = y" if "map_of cap_table x = Some i" "map_of cap_table y = Some i" for x y
    using that d by (metis distinct_map inj_onD map_of_SomeD prod.inject snd_conv)
  then show ?thesis
    using cap_bit_le by (fastforce simp: cap_mask_def cap_mask_from_bits cap_bit_def)
qed

lemma cap_mask_correct_witness: "bit (cap_mask [''CAP_CHOWN'', ''BOGUS'']) 0"
proof -
  have "cap_bit ''CAP_CHOWN'' = Some 0" by (simp add: cap_bit_def cap_table_def)
  then show ?thesis using cap_mask_correct [of "[''CAP_CHOWN'', ''BOGUS'']" 0] by auto
qed

section \<open>Namespaces\<close>

fun clone_flag :: "namespace_kind \<Rightarrow> u32" where
  "clone_flag NsPid = 0x20000000"
| "clone_flag NsNetwork = 0x40000000"
| "clone_flag NsMount = 0x00020000"
| "clone_flag NsIpc = 0x08000000"
| "clone_flag NsUts = 0x04000000"
| "clone_flag NsCgroup = 0x02000000"
| "clone_flag NsUser = 0x10000000"

fun split_namespaces ::
  "u32 \<times> bool \<times> (namespace_kind \<times> string) list \<Rightarrow> namespace_entry list \<Rightarrow>
   u32 \<times> bool \<times> (namespace_kind \<times> string) list" where
  "split_namespaces acc [] = acc"
| "split_namespaces (flags, userns, joins) (ns # rest) =
     (case ns_path ns of
        Some path \<Rightarrow> split_namespaces (flags, userns, joins @ [(ns_kind ns, path)]) rest
      | None \<Rightarrow> split_namespaces (flags OR clone_flag (ns_kind ns), userns \<or> ns_kind ns = NsUser, joins) rest)"

definition fresh_kinds :: "namespace_entry list \<Rightarrow> namespace_kind list" where
  "fresh_kinds nss = map ns_kind (filter (\<lambda>ns. ns_path ns = None) nss)"

definition joined :: "namespace_entry list \<Rightarrow> (namespace_kind \<times> string) list" where
  "joined nss = filter_map (\<lambda>ns. map_option (Pair (ns_kind ns)) (ns_path ns)) nss"

lemma word_or_zero_iff: "a OR b = 0 \<longleftrightarrow> a = 0 \<and> b = (0 :: 'a::len word)"
  by (auto simp: bit_eq_iff bit_or_iff)

lemma clone_flag_overlap: "clone_flag k AND clone_flag l = 0 \<longleftrightarrow> k \<noteq> l"
  by (cases k; cases l) simp_all

lemma add_clone_flag:
  "(flags OR clone_flag k) AND clone_flag l = 0 \<longleftrightarrow> flags AND clone_flag l = 0 \<and> k \<noteq> l"
  by (simp only: word_ao_dist word_or_zero_iff clone_flag_overlap)

lemma split_namespaces_result:
  "split_namespaces (flags, userns, joins) nss =
     (fold (\<lambda>k f. f OR clone_flag k) (fresh_kinds nss) flags,
      userns \<or> NsUser \<in> set (fresh_kinds nss), joins @ joined nss)"
proof (induction nss arbitrary: flags userns joins)
  case (Cons ns nss)
  then show ?case
    by (cases "ns_path ns") (auto simp: fresh_kinds_def joined_def)
qed (simp add: fresh_kinds_def joined_def)

lemma clone_flags_kinds:
  "fold (\<lambda>k f. f OR clone_flag k) ks flags AND clone_flag l = 0 \<longleftrightarrow> flags AND clone_flag l = 0 \<and> l \<notin> set ks"
proof (induction ks arbitrary: flags)
  case (Cons k ks)
  show ?case
    unfolding fold.simps o_apply Cons.IH add_clone_flag list.set by blast
qed simp

section \<open>Id maps\<close>

definition id_map_line :: "id_mapping \<Rightarrow> string" where
  "id_map_line m = dec_u64 (im_container_id m) @ '' '' @ dec_u64 (im_host_id m) @ '' '' @
     dec_u64 (im_size m) @ [CHR 10]"

definition format_id_map :: "id_mapping list \<Rightarrow> u8 list" where
  "format_id_map ms = concat (map (\<lambda>m. bytes_of (id_map_line m)) ms)"

text \<open>How \<^verbatim>\<open>/proc/<pid>/uid_map\<close> is read: lines of three decimal numbers.\<close>

definition char_bytes :: "u8 list \<Rightarrow> string" where
  "char_bytes bs = map (\<lambda>b. char_of (unat b)) bs"

definition read_id_line :: "string \<Rightarrow> id_mapping option" where
  "read_id_line l =
     (case split_on CHR '' '' l of
        [c, h, s] \<Rightarrow>
          and_then (parse_unsigned 10 (2 ^ 32) c) (\<lambda>c. and_then (parse_unsigned 10 (2 ^ 32) h) (\<lambda>h.
          and_then (parse_unsigned 10 (2 ^ 32) s) (\<lambda>s.
            Some \<lparr>im_container_id = of_nat c, im_host_id = of_nat h, im_size = of_nat s\<rparr>)))
      | _ \<Rightarrow> None)"

definition read_id_map :: "u8 list \<Rightarrow> id_mapping option list" where
  "read_id_map bs = map read_id_line (butlast (split_on (CHR 10) (char_bytes bs)))"

lemma bytes_of_concat: "bytes_of (concat (map f xs)) = concat (map (\<lambda>x. bytes_of (f x)) xs)"
  by (induction xs) simp_all

lemma char_bytes_of [simp]: "char_bytes (bytes_of s) = s"
proof -
  have "char_of (unat (of_char c :: u8)) = (c :: char)" for c
  proof -
    have "unat (of_char c :: u8) = of_char c"
      using nat_of_char_less_256 [of c]
      by (simp add: unat_of_nat take_bit_nat_eq_self flip: of_nat_of_char [of c, where ?'a = "8 word"])
    then show ?thesis by simp
  qed
  then show ?thesis by (induction s) (simp_all add: char_bytes_def)
qed

text \<open>
  The id-map text written to \<^verbatim>\<open>/proc/<pid>/uid_map\<close> reads back, line by line, as exactly the
  mappings of the specification, at the full 32-bit range.
\<close>
theorem id_map_roundtrip: "read_id_map (format_id_map ms) = map Some ms"
proof -
  have digits: "set (dec_u64 w) \<subseteq> ascii_digits" for w :: u32
    by (simp add: dec_u64_def set_dec_nat)
  have sep: "CHR '' '' \<notin> ascii_digits" "CHR 10 \<notin> ascii_digits"
    by (simp_all add: ascii_digits_def)
  then have nosep: "CHR '' '' \<notin> set (dec_u64 w)" "CHR 10 \<notin> set (dec_u64 w)" for w :: u32
    using digits by blast+
  have parse: "parse_unsigned 10 (2 ^ 32) (dec_u64 w) = Some (unat w)" for w :: u32
    using unsigned_less [of w, where ?'a = nat] by (simp add: dec_u64_def parse_dec_nat)
  let ?body = "\<lambda>m. dec_u64 (im_container_id m) @ '' '' @ dec_u64 (im_host_id m) @ '' '' @ dec_u64 (im_size m)"
  have line: "read_id_line (?body m) = Some m" for m
    using split_on_append_sep [of "CHR '' ''"] nosep parse
    by (cases m) (simp add: read_id_line_def split_on_no_sep)
  have nl: "CHR 10 \<notin> set (?body m)" for m
    using nosep by simp
  have "id_map_line = (\<lambda>m. ?body m @ [CHR 10])"
    by (simp add: id_map_line_def fun_eq_iff)
  then have "split_on (CHR 10) (concat (map id_map_line ms)) = map ?body ms @ [[]]"
    using split_terminated [of "CHR 10" ?body ms] nl by (simp only:) blast
  moreover have "char_bytes (format_id_map ms) = concat (map id_map_line ms)"
    by (simp add: format_id_map_def bytes_of_concat [symmetric])
  ultimately show ?thesis
    unfolding read_id_map_def by (simp add: o_def line [simplified])
qed

section \<open>Mounts\<close>

abbreviation (input) "MS_RDONLY \<equiv> (0x1 :: u64)"
abbreviation (input) "MS_NOSUID \<equiv> (0x2 :: u64)"
abbreviation (input) "MS_NODEV \<equiv> (0x4 :: u64)"
abbreviation (input) "MS_NOEXEC \<equiv> (0x8 :: u64)"
abbreviation (input) "MS_NOATIME \<equiv> (0x400 :: u64)"
abbreviation (input) "MS_BIND \<equiv> (0x1000 :: u64)"
abbreviation (input) "MS_REC \<equiv> (0x4000 :: u64)"
abbreviation (input) "MS_UNBINDABLE \<equiv> (0x20000 :: u64)"
abbreviation (input) "MS_PRIVATE \<equiv> (0x40000 :: u64)"
abbreviation (input) "MS_SLAVE \<equiv> (0x80000 :: u64)"
abbreviation (input) "MS_SHARED \<equiv> (0x100000 :: u64)"
abbreviation (input) "MS_RELATIME \<equiv> (0x200000 :: u64)"
abbreviation (input) "MS_STRICTATIME \<equiv> (0x1000000 :: u64)"

definition parse_propagation :: "string option \<Rightarrow> u64" where
  "parse_propagation s = unwrap_or (map_of
     [(''shared'', MS_SHARED), (''slave'', MS_SLAVE), (''private'', MS_PRIVATE),
      (''unbindable'', MS_UNBINDABLE), (''rshared'', MS_SHARED OR MS_REC), (''rslave'', MS_SLAVE OR MS_REC),
      (''rprivate'', MS_PRIVATE OR MS_REC), (''runbindable'', MS_UNBINDABLE OR MS_REC)]
     (unwrap_or s '''')) 0"

text \<open>The arms of the option match: what each name adds to the flags and to the propagation.\<close>

definition mount_arms :: "(string \<times> u64 \<times> u64) list" where
  "mount_arms =
     [(''ro'', MS_RDONLY, 0), (''rw'', 0, 0), (''nosuid'', MS_NOSUID, 0), (''nodev'', MS_NODEV, 0),
      (''noexec'', MS_NOEXEC, 0), (''relatime'', MS_RELATIME, 0), (''noatime'', MS_NOATIME, 0),
      (''strictatime'', MS_STRICTATIME, 0), (''bind'', MS_BIND, 0), (''rbind'', MS_BIND OR MS_REC, 0),
      (''private'', 0, MS_PRIVATE), (''rprivate'', 0, MS_PRIVATE OR MS_REC), (''shared'', 0, MS_SHARED),
      (''rshared'', 0, MS_SHARED OR MS_REC), (''slave'', 0, MS_SLAVE), (''rslave'', 0, MS_SLAVE OR MS_REC),
      (''unbindable'', 0, MS_UNBINDABLE), (''runbindable'', 0, MS_UNBINDABLE OR MS_REC)]"

fun mount_options :: "u64 \<times> u64 \<times> string list \<Rightarrow> string list \<Rightarrow> u64 \<times> u64 \<times> string list" where
  "mount_options acc [] = acc"
| "mount_options (flags, pg, data) (opt # opts) =
     (case map_of mount_arms opt of
        Some (f, p) \<Rightarrow> mount_options (flags OR f, pg OR p, data) opts
      | None \<Rightarrow> mount_options (flags, pg, data @ [opt]) opts)"

definition compile_mount :: "mount_spec \<Rightarrow> string \<Rightarrow> mount_op io_result" where
  "compile_mount m root =
     (case mount_options (0, 0, []) (ms_options m) of (flags, propagation, data_parts) \<Rightarrow>
      rbind (if data_parts = [] then Ok None else rbind (cstr (join '','' data_parts)) (\<lambda>d. Ok (Some d))) (\<lambda>data.
      rbind (cstr (ms_source m)) (\<lambda>source.
      rbind (cstr (ms_fstype m)) (\<lambda>fstype.
        Ok \<lparr>mo_source = source,
          mo_target = path_join root (dropWhile (\<lambda>c. c = CHR ''/'') (ms_destination m)),
          mo_fstype = fstype, mo_flags = flags, mo_propagation = propagation, mo_data = data,
          mo_idmap_uid = format_id_map (ms_uid_mappings m), mo_idmap_gid = format_id_map (ms_gid_mappings m)\<rparr>))))"

definition arm_flags :: "string \<Rightarrow> u64" where
  "arm_flags opt = (case map_of mount_arms opt of Some (f, _) \<Rightarrow> f | None \<Rightarrow> 0)"

definition arm_prop :: "string \<Rightarrow> u64" where
  "arm_prop opt = (case map_of mount_arms opt of Some (_, p) \<Rightarrow> p | None \<Rightarrow> 0)"

lemma mount_options_result:
  "mount_options (flags, pg, data) opts =
     (fold (\<lambda>x f. f OR arm_flags x) opts flags, fold (\<lambda>x p. p OR arm_prop x) opts pg,
      data @ filter (\<lambda>x. x \<notin> fst ` set mount_arms) opts)"
proof (induction opts arbitrary: flags pg data)
  case (Cons opt opts)
  have "map_of mount_arms opt = None \<longleftrightarrow> opt \<notin> fst ` set mount_arms"
    by (rule map_of_eq_None_iff)
  with Cons show ?case
    by (cases "map_of mount_arms opt") (auto simp: arm_flags_def arm_prop_def)
qed simp

lemma fold_or_bits:
  "bit (fold (\<lambda>x f. f OR g x) xs a) i \<longleftrightarrow> bit a i \<or> (\<exists>x \<in> set xs. bit (g x :: 'w::len word) i)"
  by (induction xs arbitrary: a) (auto simp: bit_or_iff)

lemma fold_or_and:
  "fold (\<lambda>x f. f OR g x) xs a AND m = 0 \<longleftrightarrow> a AND m = 0 \<and> (\<forall>x \<in> set xs. g x AND m = (0 :: 'w::len word))"
proof (induction xs arbitrary: a)
  case (Cons x xs)
  show ?case
    unfolding fold.simps o_apply Cons.IH word_ao_dist word_or_zero_iff list.set ball_simps by blast
qed simp

lemma arm_cases:
  assumes "list_all (\<lambda>(x, f, p). P x f p) mount_arms" "\<And>x. x \<notin> fst ` set mount_arms \<Longrightarrow> P x 0 0"
  shows "P opt (arm_flags opt) (arm_prop opt)"
proof (cases "map_of mount_arms opt")
  case None
  then show ?thesis
    using assms(2) [of opt] by (simp add: arm_flags_def arm_prop_def flip: map_of_eq_None_iff)
next
  case (Some fp)
  then have "(opt, fp) \<in> set mount_arms" by (rule map_of_SomeD)
  with assms(1) Some show ?thesis
    by (cases fp) (auto simp: arm_flags_def arm_prop_def list_all_iff)
qed

lemma arm_flags_no_prop: "arm_flags opt AND 0x1e0000 = 0"
  by (rule arm_cases [where P = "\<lambda>_ f _. f AND 0x1e0000 = 0"]) (code_simp, simp)

lemma arm_flags_readonly: "arm_flags opt AND MS_RDONLY = 0 \<longleftrightarrow> opt \<noteq> ''ro''"
  by (rule arm_cases [where P = "\<lambda>x f _. f AND MS_RDONLY = 0 \<longleftrightarrow> x \<noteq> ''ro''"])
    (code_simp, simp add: mount_arms_def)

lemma arm_flags_bind: "arm_flags opt AND MS_BIND = 0 \<longleftrightarrow> opt \<noteq> ''bind'' \<and> opt \<noteq> ''rbind''"
  by (rule arm_cases [where P = "\<lambda>x f _. f AND MS_BIND = 0 \<longleftrightarrow> x \<noteq> ''bind'' \<and> x \<noteq> ''rbind''"])
    (code_simp, simp add: mount_arms_def)

lemma arm_prop_only: "arm_prop opt AND NOT 0x1e4000 = 0"
  by (rule arm_cases [where P = "\<lambda>_ _ p. p AND NOT 0x1e4000 = 0"]) (code_simp, simp)

text \<open>
  A compiled mount keeps creation and propagation apart: the creation flags carry no propagation
  bit, the propagation word nothing else than propagation bits and \<^verbatim>\<open>MS_REC\<close>; it is read-only exactly
  when \<^verbatim>\<open>ro\<close> is among the options, a bind mount exactly when \<^verbatim>\<open>bind\<close> or \<^verbatim>\<open>rbind\<close> is, and the mount
  data are the unknown options in order, joined by commas.
\<close>
theorem mount_options_split:
  assumes "compile_mount m root = Ok op"
  shows "mo_flags op AND (MS_SHARED OR MS_SLAVE OR MS_PRIVATE OR MS_UNBINDABLE) = 0 \<and>
    mo_propagation op AND NOT (MS_SHARED OR MS_SLAVE OR MS_PRIVATE OR MS_UNBINDABLE OR MS_REC) = 0 \<and>
    (mo_flags op AND MS_RDONLY \<noteq> 0 \<longleftrightarrow> ''ro'' \<in> set (ms_options m)) \<and>
    (mo_flags op AND MS_BIND \<noteq> 0 \<longleftrightarrow> ''bind'' \<in> set (ms_options m) \<or> ''rbind'' \<in> set (ms_options m)) \<and>
    mo_data op = (let ds = filter (\<lambda>x. x \<notin> fst ` set mount_arms) (ms_options m)
                  in if ds = [] then None else Some (join '','' ds))"
proof -
  let ?opts = "ms_options m"
  let ?ds = "filter (\<lambda>x. x \<notin> fst ` set mount_arms) ?opts"
  have f: "mo_flags op = fold (\<lambda>x f. f OR arm_flags x) ?opts 0"
    and p: "mo_propagation op = fold (\<lambda>x p. p OR arm_prop x) ?opts 0"
    and d: "mo_data op = (if ?ds = [] then None else Some (join '','' ?ds))"
    using assms by (auto simp: compile_mount_def mount_options_result simp del: filter_empty_conv split: if_splits)
  show ?thesis
    unfolding f p d Let_def
    using arm_flags_no_prop arm_prop_only
    by (simp add: fold_or_and arm_flags_readonly arm_flags_bind) blast
qed

theorem mount_options_split_witness:
  "\<exists>op. compile_mount \<lparr>ms_destination = ''/tmp'', ms_source = ''tmpfs'', ms_fstype = ''tmpfs'',
      ms_options = [''ro'', ''size=1m''], ms_uid_mappings = [], ms_gid_mappings = []\<rparr> ''/r'' = Ok op \<and>
    mo_flags op AND MS_RDONLY \<noteq> 0"
proof -
  let ?m = "\<lparr>ms_destination = ''/tmp'', ms_source = ''tmpfs'', ms_fstype = ''tmpfs'',
      ms_options = [''ro'', ''size=1m''], ms_uid_mappings = [], ms_gid_mappings = []\<rparr>"
  obtain op where op: "compile_mount ?m ''/r'' = Ok op"
    by (simp add: compile_mount_def mount_arms_def cstr_def)
  show ?thesis using mount_options_split [OF op] op by auto
qed

section \<open>The plan\<close>

fun rlimit_resource :: "rlimit_kind \<Rightarrow> u32" where
  "rlimit_resource Cpu = 0"
| "rlimit_resource Fsize = 1"
| "rlimit_resource Data = 2"
| "rlimit_resource Stack = 3"
| "rlimit_resource Core = 4"
| "rlimit_resource Rss = 5"
| "rlimit_resource Nproc = 6"
| "rlimit_resource Nofile = 7"
| "rlimit_resource Memlock = 8"
| "rlimit_resource As = 9"
| "rlimit_resource Locks = 10"
| "rlimit_resource Sigpending = 11"
| "rlimit_resource Msgqueue = 12"
| "rlimit_resource Nice = 13"
| "rlimit_resource Rtprio = 14"
| "rlimit_resource Rttime = 15"

definition cap_bitmasks_of :: "capabilities \<Rightarrow> cap_bitmasks" where
  "cap_bitmasks_of c = \<lparr>cb_bounding = cap_mask (cap_bounding c), cb_effective = cap_mask (cap_effective c),
     cb_permitted = cap_mask (cap_permitted c), cb_inheritable = cap_mask (cap_inheritable c),
     cb_ambient = cap_mask (cap_ambient c)\<rparr>"

definition char_device :: "string \<Rightarrow> u32 \<Rightarrow> u32 \<Rightarrow> default_device" where
  "char_device path major minor = \<lparr>dd_path = path, dd_mode = 438, dd_kind = CHR ''c'', dd_major = major, dd_minor = minor\<rparr>"

definition default_devices :: "default_device list" where
  "default_devices = [char_device ''/dev/null'' 1 3, char_device ''/dev/zero'' 1 5, char_device ''/dev/full'' 1 7,
     char_device ''/dev/random'' 1 8, char_device ''/dev/urandom'' 1 9, char_device ''/dev/tty'' 5 0]"

definition default_symlinks :: "(string \<times> string) list" where
  "default_symlinks = [(''/proc/self/fd'', ''/dev/fd''), (''/proc/self/fd/0'', ''/dev/stdin''),
     (''/proc/self/fd/1'', ''/dev/stdout''), (''/proc/self/fd/2'', ''/dev/stderr''), (''pts/ptmx'', ''/dev/ptmx'')]"

definition sysctl_path :: "string \<Rightarrow> string" where
  "sysctl_path k = ''/proc/sys/'' @ map (\<lambda>c. if c = CHR ''.'' then CHR ''/'' else c) k"

definition compile_sysctl :: "string \<times> string \<Rightarrow> (string \<times> u8 list) io_result" where
  "compile_sysctl kv = rbind (cstr (sysctl_path (fst kv))) (\<lambda>p. Ok (p, bytes_of (snd kv)))"

definition from_spec :: "'v spec \<Rightarrow> compiled_plan io_result" where
  "from_spec spec =
     (case split_namespaces (0, False, []) (sp_namespaces spec) of (clone_flags, wants_userns, join_namespaces) \<Rightarrow>
      rbind (rcollect (\<lambda>m. compile_mount m (sp_root_path spec)) (sp_mounts spec)) (\<lambda>mounts.
      rbind (rcollect cstr (sp_args spec)) (\<lambda>argv.
      rbind (rcollect cstr (sp_env spec)) (\<lambda>envp.
      rbind (rcollect cstr (sp_masked_paths spec)) (\<lambda>masked_paths.
      rbind (rcollect cstr (sp_readonly_paths spec)) (\<lambda>readonly_paths.
      rbind (cstr (sp_hostname spec)) (\<lambda>hostname.
      rbind (cstr (sp_cwd spec)) (\<lambda>cwd.
      rbind (transpose_opt (map_option cstr (sp_apparmor_profile spec))) (\<lambda>apparmor.
      rbind (transpose_opt (map_option cstr (sp_selinux_label spec))) (\<lambda>selinux.
      rbind (rcollect compile_sysctl (sp_sysctls spec)) (\<lambda>sysctls.
      Ok \<lparr>cp_join_namespaces = join_namespaces, cp_ext = ext_default, cp_clone_flags = clone_flags,
        cp_wants_userns = wants_userns,
        cp_uid_map_data = (if wants_userns then format_id_map (sp_uid_mappings spec) else []),
        cp_gid_map_data = (if wants_userns then format_id_map (sp_gid_mappings spec) else []),
        cp_set_hostname = (sp_hostname spec \<noteq> ''''),
        cp_rlimits = map (\<lambda>r. (rlimit_resource (rl_kind r), rl_soft r, rl_hard r)) (sp_rlimits spec),
        cp_caps = map_option cap_bitmasks_of (sp_capabilities spec),
        cp_no_new_privileges = sp_no_new_privileges spec, cp_default_devices = default_devices,
        cp_default_symlinks = default_symlinks, cp_masked_paths = masked_paths,
        cp_readonly_paths = readonly_paths, cp_user_uid = sp_user_uid spec, cp_user_gid = sp_user_gid spec,
        cp_user_additional_gids = sp_user_additional_gids spec, cp_user_umask = sp_user_umask spec,
        cp_apparmor_profile = apparmor, cp_selinux_label = selinux, cp_sysctls = sysctls,
        cp_rootfs_propagation = parse_propagation (sp_rootfs_propagation spec), cp_no_pivot = False,
        cp_oom_score_adj = sp_oom_score_adj spec, cp_scheduler = sp_scheduler spec, cp_hostname = hostname,
        cp_root_path = sp_root_path spec, cp_root_readonly = sp_root_readonly spec, cp_mounts = mounts,
        cp_terminal = sp_terminal spec, cp_console_socket = None, cp_argv = argv, cp_envp = envp,
        cp_cwd = cwd\<rparr>)))))))))))"

text \<open>
  Namespaces without a path become clone flags, those with a path are joined in the order of the
  specification, no kind is both lost and unrequested: a kind's flag is set exactly when an entry
  asks for a fresh one, and the user-namespace switch and the id maps follow that flag.
\<close>
theorem namespaces_partition:
  assumes "from_spec spec = Ok plan"
  shows "cp_join_namespaces plan = filter_map (\<lambda>ns. map_option (Pair (ns_kind ns)) (ns_path ns)) (sp_namespaces spec) \<and>
    (cp_clone_flags plan AND clone_flag k \<noteq> 0 \<longleftrightarrow>
       (\<exists>ns \<in> set (sp_namespaces spec). ns_kind ns = k \<and> ns_path ns = None)) \<and>
    (cp_wants_userns plan \<longleftrightarrow> cp_clone_flags plan AND clone_flag NsUser \<noteq> 0) \<and>
    (\<not> cp_wants_userns plan \<longrightarrow> cp_uid_map_data plan = [] \<and> cp_gid_map_data plan = [])"
proof -
  let ?nss = "sp_namespaces spec"
  have fields: "cp_join_namespaces plan = joined ?nss"
    "cp_clone_flags plan = fold (\<lambda>k f. f OR clone_flag k) (fresh_kinds ?nss) 0"
    "cp_wants_userns plan \<longleftrightarrow> NsUser \<in> set (fresh_kinds ?nss)"
    "\<not> cp_wants_userns plan \<longrightarrow> cp_uid_map_data plan = [] \<and> cp_gid_map_data plan = []"
    using assms by (auto simp: from_spec_def split_namespaces_result)
  have flag: "cp_clone_flags plan AND clone_flag l \<noteq> 0 \<longleftrightarrow> l \<in> set (fresh_kinds ?nss)" for l
    by (simp add: fields(2) clone_flags_kinds)
  have kinds: "l \<in> set (fresh_kinds ?nss) \<longleftrightarrow> (\<exists>ns \<in> set ?nss. ns_kind ns = l \<and> ns_path ns = None)" for l
    by (auto simp: fresh_kinds_def)
  show ?thesis
    using fields(1) [unfolded joined_def] fields(3,4) unfolding flag kinds by blast
qed

lemma sysctl_no_parent: "ParentDir \<notin> set (components (sysctl_path k))"
proof -
  have dots: "CHR ''.'' \<notin> set (sysctl_path k)" by (auto simp: sysctl_path_def)
  have "comp_of p \<noteq> Some ParentDir" if "p \<in> set (split_on CHR ''/'' (sysctl_path k))" for p
  proof -
    have "CHR ''.'' \<notin> set p"
      using that dots by (metis split_on_subset subsetD)
    then show ?thesis by (auto simp: comp_of_def)
  qed
  moreover have "is_absolute (sysctl_path k)" by (simp add: is_absolute_def sysctl_path_def)
  ultimately show ?thesis by (simp add: components_def set_filter_map)
qed

text \<open>
  A sysctl key cannot leave \<^verbatim>\<open>/proc/sys\<close>: every compiled path starts with \<^verbatim>\<open>/proc/sys/\<close> and has no
  parent-directory component, because all dots of the key became separators; the values are the
  bytes of the specification, in order.
\<close>
theorem sysctl_paths_confined:
  assumes "from_spec spec = Ok plan"
  shows "map snd (cp_sysctls plan) = map (\<lambda>kv. bytes_of (snd kv)) (sp_sysctls spec) \<and>
    (\<forall>(p, v) \<in> set (cp_sysctls plan). starts_with p ''/proc/sys/'' \<and> ParentDir \<notin> set (components p))"
proof -
  have "rcollect compile_sysctl (sp_sysctls spec) = Ok (cp_sysctls plan)"
    using assms by (auto simp: from_spec_def split: prod.splits)
  then have all: "list_all2 (\<lambda>kv q. q = (sysctl_path (fst kv), bytes_of (snd kv))) (sp_sysctls spec) (cp_sysctls plan)"
    by (auto simp: rcollect_Inr_iff compile_sysctl_def elim: list_all2_mono)
  then have "cp_sysctls plan = map (\<lambda>kv. (sysctl_path (fst kv), bytes_of (snd kv))) (sp_sysctls spec)"
    by (induction rule: list_all2_induct) auto
  moreover have "starts_with (sysctl_path k) ''/proc/sys/''" for k
    by (auto simp: starts_with_iff sysctl_path_def)
  ultimately show ?thesis by (auto simp: sysctl_no_parent)
qed

lemma rcollect_cstr_ok: "(\<exists>ys. rcollect cstr xs = Inr ys) \<longleftrightarrow> (\<forall>x \<in> set xs. NUL \<notin> set x)"
  using rcollect_is_ok [of cstr xs] by (simp add: is_ok_iff)

lemma transpose_cstr_ok:
  "(\<exists>s. transpose_opt (map_option cstr x) = Inr s) \<longleftrightarrow> pred_option (\<lambda>s. NUL \<notin> set s) x"
  by (simp add: is_ok_transpose option.pred_map o_def)

definition mount_data_parts :: "mount_spec \<Rightarrow> string list" where
  "mount_data_parts m = filter (\<lambda>x. x \<notin> fst ` set mount_arms) (ms_options m)"

lemma compile_mount_ok:
  "is_ok (compile_mount m root) \<longleftrightarrow>
     NUL \<notin> set (ms_source m) \<and> NUL \<notin> set (ms_fstype m) \<and> NUL \<notin> set (join '','' (mount_data_parts m))"
  unfolding compile_mount_def mount_options_result is_ok_rbind mount_data_parts_def [symmetric] append.simps prod.case
  by (cases "mount_data_parts m = []") (auto simp: is_ok_iff)

text \<open>
  Compilation of a parsed configuration fails exactly when a string that has to reach the kernel
  as a C string holds a NUL byte: an argument, an environment entry, the hostname, the working
  directory, a masked or read-only path, a label, a sysctl key, a mount source, type or data.
\<close>
theorem plan_compiles_iff:
  "is_ok (from_spec spec) \<longleftrightarrow>
     (\<forall>s \<in> set (sp_args spec) \<union> set (sp_env spec) \<union> set (sp_masked_paths spec) \<union> set (sp_readonly_paths spec) \<union>
        {sp_hostname spec, sp_cwd spec} \<union> fst ` set (sp_sysctls spec). NUL \<notin> set s) \<and>
     pred_option (\<lambda>s. NUL \<notin> set s) (sp_apparmor_profile spec) \<and>
     pred_option (\<lambda>s. NUL \<notin> set s) (sp_selinux_label spec) \<and>
     (\<forall>m \<in> set (sp_mounts spec). NUL \<notin> set (ms_source m) \<and> NUL \<notin> set (ms_fstype m) \<and>
        NUL \<notin> set (join '','' (mount_data_parts m)))"
proof -
  have m: "(\<exists>ys. rcollect (\<lambda>m. compile_mount m r) ms = Inr ys) \<longleftrightarrow>
      (\<forall>m \<in> set ms. NUL \<notin> set (ms_source m) \<and> NUL \<notin> set (ms_fstype m) \<and>
        NUL \<notin> set (join '','' (mount_data_parts m)))" for r ms
    using rcollect_is_ok [of "\<lambda>m. compile_mount m r" ms]
    unfolding compile_mount_ok unfolding is_ok_iff .
  have s: "(\<exists>ys. rcollect compile_sysctl kvs = Inr ys) \<longleftrightarrow> (\<forall>k \<in> fst ` set kvs. NUL \<notin> set k)" for kvs
  proof -
    have "is_ok (compile_sysctl kv) \<longleftrightarrow> NUL \<notin> set (fst kv)" for kv
      by (auto simp: compile_sysctl_def is_ok_rbind sysctl_path_def)
    then show ?thesis
      using rcollect_is_ok [of compile_sysctl kvs] by (simp add: is_ok_iff)
  qed
  have "is_ok (from_spec spec) \<longleftrightarrow>
      (\<exists>ys. rcollect (\<lambda>m. compile_mount m (sp_root_path spec)) (sp_mounts spec) = Inr ys) \<and>
      (\<exists>ys. rcollect cstr (sp_args spec) = Inr ys) \<and> (\<exists>ys. rcollect cstr (sp_env spec) = Inr ys) \<and>
      (\<exists>ys. rcollect cstr (sp_masked_paths spec) = Inr ys) \<and> (\<exists>ys. rcollect cstr (sp_readonly_paths spec) = Inr ys) \<and>
      NUL \<notin> set (sp_hostname spec) \<and> NUL \<notin> set (sp_cwd spec) \<and>
      (\<exists>s. transpose_opt (map_option cstr (sp_apparmor_profile spec)) = Inr s) \<and>
      (\<exists>s. transpose_opt (map_option cstr (sp_selinux_label spec)) = Inr s) \<and>
      (\<exists>ys. rcollect compile_sysctl (sp_sysctls spec) = Inr ys)"
    unfolding from_spec_def split_namespaces_result prod.case is_ok_rbind by simp
  then show ?thesis
    unfolding m s rcollect_cstr_ok transpose_cstr_ok by blast
qed

text \<open>A sample configuration: a container with a joined network namespace and one sysctl.\<close>

definition sample_spec :: "jval spec" where
  "sample_spec = \<lparr>sp_args = [''sh''], sp_env = [], sp_cwd = ''/'', sp_terminal = False,
     sp_root_path = ''/b/rootfs'', sp_root_readonly = False, sp_rootfs_backend = None, sp_hostname = ''box'',
     sp_namespaces = [\<lparr>ns_kind = NsPid, ns_path = None\<rparr>, \<lparr>ns_kind = NsNetwork, ns_path = Some ''/n''\<rparr>],
     sp_mounts = [], sp_uid_mappings = [], sp_gid_mappings = [], sp_rlimits = [], sp_capabilities = None,
     sp_no_new_privileges = True, sp_apparmor_profile = None, sp_selinux_label = None,
     sp_sysctls = [(''../../etc'', ''1'')], sp_rootfs_propagation = None, sp_oom_score_adj = None,
     sp_scheduler = None, sp_masked_paths = [], sp_readonly_paths = [], sp_user_uid = 0, sp_user_gid = 0,
     sp_user_additional_gids = [], sp_user_umask = None, sp_raw = JNull, sp_bundle = ''/b''\<rparr>"

lemma sample_plan: "\<exists>plan. from_spec sample_spec = Ok plan"
  by (simp add: from_spec_def sample_spec_def cstr_def compile_sysctl_def sysctl_path_def)

theorem namespaces_partition_witness:
  "\<exists>plan. from_spec sample_spec = Ok plan \<and> cp_join_namespaces plan = [(NsNetwork, ''/n'')] \<and>
     cp_clone_flags plan AND clone_flag NsPid \<noteq> 0 \<and> \<not> cp_wants_userns plan"
proof -
  obtain plan where p: "from_spec sample_spec = Ok plan" using sample_plan by blast
  from namespaces_partition [OF p, of NsPid] namespaces_partition [OF p, of NsUser] show ?thesis
    by (intro exI [of _ plan] conjI p) (simp_all add: sample_spec_def)
qed

theorem sysctl_paths_confined_witness:
  "\<exists>plan. from_spec sample_spec = Ok plan \<and>
     (\<forall>(p, v) \<in> set (cp_sysctls plan). starts_with p ''/proc/sys/'' \<and> ParentDir \<notin> set (components p))"
proof -
  obtain plan where p: "from_spec sample_spec = Ok plan" using sample_plan by blast
  from sysctl_paths_confined [OF p] p show ?thesis by blast
qed

lemma plan_compiles_iff_witness: "is_ok (from_spec sample_spec)"
  using plan_compiles_iff [of sample_spec] by (simp add: sample_spec_def)

section \<open>The JSON form of hooks\<close>

definition hook_to_json :: "'v json_api \<Rightarrow> hook_cmd \<Rightarrow> 'v" where
  "hook_to_json J h = jobj J [(''path'', jstr J (hc_path h)), (''args'', jarr J (map (jstr J) (hc_args h))),
     (''env'', jarr J (map (jstr J) (hc_env h))), (''timeout_ms'', jopt J (ju64 J) (hc_timeout_ms h))]"

definition cstring_ok :: "string \<Rightarrow> string option" where
  "cstring_ok s = (if NUL \<in> set s then None else Some s)"

definition json_cstrs :: "'v json_api \<Rightarrow> 'v \<Rightarrow> string \<Rightarrow> string list" where
  "json_cstrs J v key =
     (case get_array J v key of None \<Rightarrow> [] | Some a \<Rightarrow> filter_map cstring_ok (filter_map (jas_str J) a))"

definition hook_from_json :: "'v json_api \<Rightarrow> 'v \<Rightarrow> hook_cmd option" where
  "hook_from_json J v =
     and_then (and_then (get_str J v ''path'') cstring_ok) (\<lambda>path.
       Some \<lparr>hc_path = path, hc_args = json_cstrs J v ''args'', hc_env = json_cstrs J v ''env'',
         hc_timeout_ms = get_u64 J v ''timeout_ms''\<rparr>)"

definition hooks_to_json :: "'v json_api \<Rightarrow> hooks \<Rightarrow> 'v" where
  "hooks_to_json J h =
     (let ph = (\<lambda>v. jarr J (map (hook_to_json J) v))
      in jobj J [(''prestart'', ph (hk_prestart h)), (''createRuntime'', ph (hk_create_runtime h)),
           (''createContainer'', ph (hk_create_container h)), (''startContainer'', ph (hk_start_container h)),
           (''poststart'', ph (hk_poststart h)), (''poststop'', ph (hk_poststop h))])"

definition hooks_from_json :: "'v json_api \<Rightarrow> 'v \<Rightarrow> hooks" where
  "hooks_from_json J v =
     (let phase = (\<lambda>key. case get_array J v key of None \<Rightarrow> [] | Some a \<Rightarrow> filter_map (hook_from_json J) a)
      in \<lparr>hk_prestart = phase ''prestart'', hk_create_runtime = phase ''createRuntime'',
          hk_create_container = phase ''createContainer'', hk_start_container = phase ''startContainer'',
          hk_poststart = phase ''poststart'', hk_poststop = phase ''poststop''\<rparr>)"

text \<open>The \<^verbatim>\<open>CString\<close> invariant of the fields.\<close>

definition wf_hook :: "hook_cmd \<Rightarrow> bool" where
  "wf_hook h \<longleftrightarrow> (\<forall>s \<in> {hc_path h} \<union> set (hc_args h) \<union> set (hc_env h). NUL \<notin> set s)"

definition all_hooks :: "hooks \<Rightarrow> hook_cmd list" where
  "all_hooks h = hk_prestart h @ hk_create_runtime h @ hk_create_container h @ hk_start_container h @
     hk_poststart h @ hk_poststop h"

lemma filter_map_id: "(\<And>x. x \<in> set xs \<Longrightarrow> f (g x) = Some x) \<Longrightarrow> filter_map f (map g xs) = xs"
  by (induction xs) auto

lemma filter_map_cstring [simp]: "\<forall>s \<in> set ss. NUL \<notin> set s \<Longrightarrow> filter_map cstring_ok ss = ss"
  using filter_map_id [of ss cstring_ok "\<lambda>s. s"] by (simp add: cstring_ok_def)

context json_value
begin

lemma hook_json: "wf_hook h \<Longrightarrow> hook_from_json J (hook_to_json J h) = Some h"
proof -
  assume wf: "wf_hook h"
  have s: "get_str J (hook_to_json J h) ''path'' = Some (hc_path h)"
    unfolding hook_to_json_def by (rule get_str_obj) simp_all
  have a: "get_array J (hook_to_json J h) ''args'' = Some (map (jstr J) (hc_args h))"
    and e: "get_array J (hook_to_json J h) ''env'' = Some (map (jstr J) (hc_env h))"
    unfolding hook_to_json_def by (rule get_array_obj; simp)+
  have t: "get_u64 J (hook_to_json J h) ''timeout_ms'' = hc_timeout_ms h"
    unfolding hook_to_json_def by (rule get_u64_obj) simp_all
  show ?thesis
    using wf by (simp add: hook_from_json_def json_cstrs_def s a e t cstring_ok_def wf_hook_def)
qed

lemma hooks_json: "\<forall>h \<in> set (all_hooks hs). wf_hook h \<Longrightarrow> hooks_from_json J (hooks_to_json J hs) = hs"
proof -
  assume wf: "\<forall>h \<in> set (all_hooks hs). wf_hook h"
  have a: "get_array J (hooks_to_json J hs) ''prestart'' = Some (map (hook_to_json J) (hk_prestart hs))"
    "get_array J (hooks_to_json J hs) ''createRuntime'' = Some (map (hook_to_json J) (hk_create_runtime hs))"
    "get_array J (hooks_to_json J hs) ''createContainer'' = Some (map (hook_to_json J) (hk_create_container hs))"
    "get_array J (hooks_to_json J hs) ''startContainer'' = Some (map (hook_to_json J) (hk_start_container hs))"
    "get_array J (hooks_to_json J hs) ''poststart'' = Some (map (hook_to_json J) (hk_poststart hs))"
    "get_array J (hooks_to_json J hs) ''poststop'' = Some (map (hook_to_json J) (hk_poststop hs))"
    unfolding hooks_to_json_def Let_def by (rule get_array_obj; simp)+
  have f: "filter_map (hook_from_json J) (map (hook_to_json J) xs) = xs"
    if "set xs \<subseteq> set (all_hooks hs)" for xs
    using that wf hook_json by (auto intro!: filter_map_id)
  show ?thesis
    by (rule hooks.equality) (simp_all add: hooks_from_json_def a f all_hooks_def Let_def subset_iff)
qed

end

end
