(* ===== verification/Hooks_Compile.thy ===== *)
theory Hooks_Compile
  imports Plan
begin

text \<open>
  \<^verbatim>\<open>rsrun-ext/src/hooks.rs\<close>: the OCI \<^verbatim>\<open>hooks\<close> object becomes the six phase lists of
  \<^typ>\<open>hooks\<close>, which create persists as JSON and start and delete load again.
\<close>

definition hook_cstrs :: "'v json_api \<Rightarrow> string \<Rightarrow> 'v \<Rightarrow> string \<Rightarrow> string list option io_result" where
  "hook_cstrs J msg h key =
     transpose_opt (map_option
       (\<lambda>a. rcollect (\<lambda>s. if NUL \<in> set s then Err Other msg else Ok s) (filter_map (jas_str J) a))
       (get_array J h key))"

definition saturating_mul_1000 :: "u64 \<Rightarrow> u64" where
  "saturating_mul_1000 s = (if unat s * 1000 < 2 ^ 64 then s * 1000 else - 1)"

definition parse_hook :: "'v json_api \<Rightarrow> 'v \<Rightarrow> hook_cmd io_result" where
  "parse_hook J h =
     rbind (ok_or (get_str J h ''path'') (IoError Other ''hook entry missing path'')) (\<lambda>path.
     rbind (if NUL \<in> set path then Err Other ''hook path contains NUL'' else Ok path) (\<lambda>path_c.
     rbind (hook_cstrs J ''hook arg has NUL'' h ''args'') (\<lambda>argv.
     rbind (hook_cstrs J ''hook env has NUL'' h ''env'') (\<lambda>envp.
       Ok \<lparr>hc_path = path_c, hc_args = unwrap_or argv [path_c], hc_env = unwrap_or envp [],
          hc_timeout_ms = map_option saturating_mul_1000 (get_u64 J h ''timeout'')\<rparr>))))"

definition parse_phase :: "'v json_api \<Rightarrow> 'v option \<Rightarrow> hook_cmd list io_result" where
  "parse_phase J arr =
     (case and_then arr (jas_array J) of None \<Rightarrow> Ok [] | Some a \<Rightarrow> rcollect (parse_hook J) a)"

definition hooks_compile :: "'v json_api \<Rightarrow> 'v option \<Rightarrow> hooks io_result" where
  "hooks_compile J hooks =
     (case hooks of None \<Rightarrow> Ok no_hooks
      | Some v \<Rightarrow>
          rbind (parse_phase J (jget J v ''prestart'')) (\<lambda>prestart.
          rbind (parse_phase J (jget J v ''createRuntime'')) (\<lambda>create_runtime.
          rbind (parse_phase J (jget J v ''createContainer'')) (\<lambda>create_container.
          rbind (parse_phase J (jget J v ''startContainer'')) (\<lambda>start_container.
          rbind (parse_phase J (jget J v ''poststart'')) (\<lambda>poststart.
          rbind (parse_phase J (jget J v ''poststop'')) (\<lambda>poststop.
            Ok \<lparr>hk_prestart = prestart, hk_create_runtime = create_runtime,
              hk_create_container = create_container, hk_start_container = start_container,
              hk_poststart = poststart, hk_poststop = poststop\<rparr>)))))))"

section \<open>Well-formedness\<close>

lemma hook_cstrs_clean:
  "hook_cstrs J msg h key = Ok (Some ss) \<Longrightarrow> s \<in> set ss \<Longrightarrow> NUL \<notin> set s"
  by (cases "get_array J h key")
    (auto simp: hook_cstrs_def elim!: transpose_opt.elims dest!: rcollect_Inr_set split: if_splits)

lemma parse_hook_wf: "parse_hook J h = Ok c \<Longrightarrow> wf_hook c"
proof -
  assume "parse_hook J h = Ok c"
  then obtain p argv envp where p: "NUL \<notin> set p" and a: "hook_cstrs J ''hook arg has NUL'' h ''args'' = Ok argv"
    and e: "hook_cstrs J ''hook env has NUL'' h ''env'' = Ok envp"
    and c: "hc_path c = p" "hc_args c = unwrap_or argv [p]" "hc_env c = unwrap_or envp []"
    by (auto simp: parse_hook_def split: if_splits)
  have "\<forall>s \<in> set (hc_args c). NUL \<notin> set s"
    using a p by (cases argv) (auto simp: c dest: hook_cstrs_clean)
  moreover have "\<forall>s \<in> set (hc_env c). NUL \<notin> set s"
    using e by (cases envp) (auto simp: c dest: hook_cstrs_clean)
  ultimately show ?thesis using p by (auto simp: wf_hook_def simp flip: c)
qed

lemma parse_phase_wf: "parse_phase J v = Ok cs \<Longrightarrow> c \<in> set cs \<Longrightarrow> wf_hook c"
  by (auto simp: parse_phase_def dest!: rcollect_Inr_set intro: parse_hook_wf split: option.splits)

lemma hooks_compile_wf: "hooks_compile J v = Ok hs \<Longrightarrow> c \<in> set (all_hooks hs) \<Longrightarrow> wf_hook c"
  by (auto simp: hooks_compile_def all_hooks_def no_hooks_def dest: parse_phase_wf split: option.splits)

text \<open>
  The hooks create persists for the later phases are the ones start and delete load: writing a
  compiled hook set as JSON and reading it back gives the same six lists, with the paths,
  arguments, environments and timeouts of every hook.
\<close>
theorem hooks_persist_roundtrip:
  assumes "json_value J" and "hooks_compile J' v = Ok hs"
  shows "hooks_from_json J (hooks_to_json J hs) = hs"
  using json_value.hooks_json [OF assms(1)] hooks_compile_wf [OF assms(2)] by blast

theorem hooks_persist_roundtrip_witness:
  "\<exists>hs. hooks_compile jv (Some (JObj [(''poststop'', JArr [JObj [(''path'', JStr ''/h''), (''timeout'', JPos 2)]])])) = Ok hs
     \<and> hk_poststop hs \<noteq> [] \<and> hooks_from_json jv (hooks_to_json jv hs) = hs"
proof -
  let ?v = "Some (JObj [(''poststop'', JArr [JObj [(''path'', JStr ''/h''), (''timeout'', JPos 2)]])])"
  obtain hs where hs: "hooks_compile jv ?v = Ok hs" "hk_poststop hs \<noteq> []"
    by (simp add: hooks_compile_def parse_phase_def parse_hook_def hook_cstrs_def get_defs)
  show ?thesis using hooks_persist_roundtrip [OF jv.json_value_axioms hs(1)] hs by blast
qed

text \<open>
  C23: A hook entry without \<^verbatim>\<open>args\<close> gets its own path as the argument vector, so the program always
  has an argv[0]; the timeout in seconds becomes milliseconds without ever wrapping to a smaller one.
\<close>
theorem hook_defaults:
  assumes "parse_hook J h = Ok c"
  shows "(get_array J h ''args'' = None \<longrightarrow> hc_args c = [hc_path c]) \<and>
    (\<forall>s. get_u64 J h ''timeout'' = Some s \<longrightarrow>
       (\<exists>ms. hc_timeout_ms c = Some ms \<and> unat ms = min (unat s * 1000) (2 ^ 64 - 1)))"
proof -
  have m: "unat (saturating_mul_1000 s) = min (unat s * 1000) (2 ^ 64 - 1)" for s
  proof (cases "unat s * 1000 < 2 ^ 64")
    case True
    then have "unat (s * 1000) = unat s * 1000"
      by (subst unat_mult_lem [THEN iffD1]) simp_all
    with True show ?thesis by (simp add: saturating_mul_1000_def)
  next
    case False
    then show ?thesis by (simp add: saturating_mul_1000_def unsigned_minus_1_eq_mask mask_eq_exp_minus_1)
  qed
  show ?thesis
    using assms m by (auto simp: parse_hook_def hook_cstrs_def split: if_splits)
qed

theorem hook_defaults_witness:
  "\<exists>c. parse_hook jv (JObj [(''path'', JStr ''/h'')]) = Ok c \<and> hc_args c = [''/h'']"
proof -
  obtain c where c: "parse_hook jv (JObj [(''path'', JStr ''/h'')]) = Ok c" "hc_path c = ''/h''"
    by (simp add: parse_hook_def hook_cstrs_def get_defs)
  show ?thesis using hook_defaults [OF c(1)] c by (simp add: get_defs)
qed

end
