(* ===== verification/State_Files.thy ===== *)
theory State_Files
  imports Json_Api Paths
begin

text \<open>
  \<^verbatim>\<open>rsrun-core/src/state.rs\<close> and the readers and rewriters of \<^verbatim>\<open>state.json\<close> in \<^verbatim>\<open>runtime.rs\<close>. Files
  are byte strings. \<^verbatim>\<open>serde_json\<close>'s text functions are the record \<open>T\<close>; the one property of its
  string encoding that the in-place status patch relies on is the locale \<open>json_strings\<close>.
\<close>

section \<open>The text side of the JSON library\<close>

record 'v json_text =
  jt_parse :: "string \<Rightarrow> 'v option"
  jt_print :: "'v \<Rightarrow> string"
  jt_set :: "'v \<Rightarrow> string \<Rightarrow> 'v \<Rightarrow> 'v"
  jt_str :: "string \<Rightarrow> string"

abbreviation (input) QUOTE :: char where
  "QUOTE \<equiv> CHR 0x22"

abbreviation (input) BACKSLASH :: char where
  "BACKSLASH \<equiv> CHR 0x5C"

text \<open>
  Every quote inside an encoded string is directly preceded by a backslash, and lower-case words
  are encoded as themselves between quotes.
\<close>

definition plain_word :: "string \<Rightarrow> bool" where
  "plain_word s = (\<forall>c \<in> set s. c \<in> set ''abcdefghijklmnopqrstuvwxyz'')"

definition quotes_escaped :: "string \<Rightarrow> bool" where
  "quotes_escaped body = (\<forall>i < length body. body ! i = QUOTE \<longrightarrow> 0 < i \<and> body ! (i - 1) = BACKSLASH)"

locale json_strings =
  fixes enc :: "string \<Rightarrow> string"
  assumes enc_quoted: "\<exists>body. enc s = QUOTE # body @ [QUOTE] \<and> quotes_escaped body"
    and enc_plain: "plain_word s \<Longrightarrow> enc s = QUOTE # s @ [QUOTE]"

section \<open>Container paths\<close>

text \<open>
  \<^verbatim>\<open>ContainerPaths::for_id\<close>: the environment gives \<^verbatim>\<open>RSRUN_ROOT\<close>, the effective uid and
  \<^verbatim>\<open>XDG_RUNTIME_DIR\<close>.
\<close>

definition state_root :: "string option \<Rightarrow> u32 \<Rightarrow> string option \<Rightarrow> string" where
  "state_root rsrun_root euid xdg =
     (case rsrun_root of Some r \<Rightarrow> r
      | None \<Rightarrow> if euid = 0 then ''/run/rsrun''
                else (case xdg of Some x \<Rightarrow> path_join x ''rsrun'' | None \<Rightarrow> ''/tmp/rsrun-'' @ dec_u64 euid))"

definition container_root :: "string option \<Rightarrow> u32 \<Rightarrow> string option \<Rightarrow> string \<Rightarrow> string" where
  "container_root rsrun_root euid xdg cid = path_join (state_root rsrun_root euid xdg) cid"

text \<open>The files of one container; \<open>None\<close> as a whole when the directory does not exist.\<close>

record cdir =
  cd_state :: "string option"
  cd_pid :: "string option"
  cd_fifo :: bool
  cd_hooks :: "string option"
  cd_overlay :: "string option"

definition empty_cdir :: cdir where
  "empty_cdir = \<lparr>cd_state = None, cd_pid = None, cd_fifo = False, cd_hooks = None, cd_overlay = None\<rparr>"

definition not_found :: io_error where
  "not_found = IoError NotFound ''No such file or directory''"

section \<open>Writing\<close>

text \<open>The text of \<^verbatim>\<open>write_state\<close>, piece by piece as it is appended.\<close>

definition state_text :: "'v json_text \<Rightarrow> string \<Rightarrow> int \<Rightarrow> string \<Rightarrow> string \<Rightarrow> string option \<Rightarrow> string" where
  "state_text T cid pid bundle status comm_hint =
     ''{\"ociVersion\":\"1.0.2\",\"id\":'' @ jt_str T cid @
     '',\"status\":'' @ jt_str T status @
     '',\"pid\":'' @ dec_int pid @
     '',\"bundle\":'' @ jt_str T bundle @
     '',\"annotations\":{},\"commHint\":'' @
     (case comm_hint of Some comm \<Rightarrow> jt_str T comm | None \<Rightarrow> ''null'') @ ''}''"

definition write_state ::
  "'v json_text \<Rightarrow> string \<Rightarrow> int \<Rightarrow> string \<Rightarrow> string \<Rightarrow> string option \<Rightarrow> cdir \<Rightarrow> cdir" where
  "write_state T cid pid bundle status comm_hint w = w\<lparr>cd_state := Some (state_text T cid pid bundle status comm_hint)\<rparr>"

section \<open>Reading\<close>

definition read_pid :: "cdir \<Rightarrow> int io_result" where
  "read_pid w =
     (case cd_pid w of None \<Rightarrow> Inl not_found
      | Some s \<Rightarrow> ok_or (parse_i32 (trim s)) (IoError InvalidData ''bad pid file''))"

definition i64_as_i32 :: "i64 \<Rightarrow> int" where
  "i64_as_i32 n = sint (ucast n :: i32)"

text \<open>\<^verbatim>\<open>read_status_pid_comm\<close>, with the recovery from a missing or unreadable \<^verbatim>\<open>state.json\<close>.\<close>

definition read_status_pid_comm ::
  "'v json_api \<Rightarrow> 'v json_text \<Rightarrow> cdir \<Rightarrow> string option \<times> int \<times> string option" where
  "read_status_pid_comm J T w =
     (case and_then (cd_state w) (jt_parse T) of
        Some v \<Rightarrow> (get_str J v ''status'', i64_as_i32 (unwrap_or (get_i64 J v ''pid'') 0), get_str J v ''commHint'')
      | None \<Rightarrow>
          let pid = (case read_pid w of Inr p \<Rightarrow> p | Inl _ \<Rightarrow> 0)
          in (if 0 < pid then Some ''creating'' else None, pid, None))"

definition read_json_state :: "'v json_text \<Rightarrow> cdir \<Rightarrow> 'v io_result" where
  "read_json_state T w =
     rbind (ok_or (cd_state w) not_found) (\<lambda>t. ok_or (jt_parse T t) (IoError InvalidData ''json''))"

definition read_bundle_comm_hint :: "'v json_api \<Rightarrow> 'v json_text \<Rightarrow> cdir \<Rightarrow> (string \<times> string option) io_result" where
  "read_bundle_comm_hint J T w =
     rbind (read_json_state T w) (\<lambda>v.
       Ok (unwrap_or (get_str J v ''bundle'') '''', get_str J v ''commHint''))"

definition read_bundle :: "'v json_api \<Rightarrow> 'v json_text \<Rightarrow> cdir \<Rightarrow> string io_result" where
  "read_bundle J T w = rbind (read_json_state T w) (\<lambda>v. Ok (unwrap_or (get_str J v ''bundle'') ''''))"

section \<open>Rewriting the status\<close>

definition needle :: string where
  "needle = ''\"status\":\"created\"''"

text \<open>The first occurrence of the needle gets \<^verbatim>\<open>running\<close> in place of \<^verbatim>\<open>created\<close>.\<close>

fun replace_created_status_with_running :: "string \<Rightarrow> string option" where
  "replace_created_status_with_running [] = None"
| "replace_created_status_with_running (c # cs) =
     (case strip_prefix needle (c # cs) of
        Some rest \<Rightarrow> Some (''\"status\":\"'' @ ''running'' @ ''\"'' @ rest)
      | None \<Rightarrow> map_option (Cons c) (replace_created_status_with_running cs))"

definition mark_state_running ::
  "'v json_api \<Rightarrow> 'v json_text \<Rightarrow> string \<Rightarrow> int \<Rightarrow> cdir \<Rightarrow> cdir io_result" where
  "mark_state_running J T cid pid w =
     rbind (ok_or (cd_state w) not_found) (\<lambda>bytes.
       case replace_created_status_with_running bytes of
         Some bytes' \<Rightarrow> Ok (w\<lparr>cd_state := Some bytes'\<rparr>)
       | None \<Rightarrow>
           rbind (read_bundle_comm_hint J T w) (\<lambda>(bundle, comm_hint).
             Ok (write_state T cid pid bundle ''running'' comm_hint w)))"

definition update_status ::
  "'v json_api \<Rightarrow> 'v json_text \<Rightarrow> string \<Rightarrow> cdir \<Rightarrow> cdir io_result" where
  "update_status J T status w =
     rbind (read_json_state T w) (\<lambda>v. Ok (w\<lparr>cd_state := Some (jt_print T (jt_set T v ''status'' (jstr J status)))\<rparr>))"

definition mark_failed ::
  "'v json_api \<Rightarrow> 'v json_text \<Rightarrow> string \<Rightarrow> cdir \<Rightarrow> cdir io_result" where
  "mark_failed J T reason w =
     rbind (read_json_state T w) (\<lambda>v.
       Ok (w\<lparr>cd_state := Some (jt_print T (jt_set T (jt_set T v ''status'' (jstr J ''failed''))
          ''cleanupError'' (jstr J reason)))\<rparr>))"

section \<open>The patch is exact\<close>

text \<open>Quotes of a suffix are escaped, apart from one at its very front.\<close>

definition inner_escaped :: "string \<Rightarrow> bool" where
  "inner_escaped t = (\<forall>i < length t. 0 < i \<longrightarrow> t ! i = QUOTE \<longrightarrow> t ! (i - 1) = BACKSLASH)"

lemma inner_escaped_tl: "inner_escaped (c # t) \<Longrightarrow> inner_escaped t"
  unfolding inner_escaped_def
proof (intro allI impI)
  fix i assume h: "\<forall>i < length (c # t). 0 < i \<longrightarrow> (c # t) ! i = QUOTE \<longrightarrow> (c # t) ! (i - 1) = BACKSLASH"
    and i: "i < length t" "0 < i" "t ! i = QUOTE"
  from h [rule_format, of "Suc i"] i show "t ! (i - 1) = BACKSLASH" by (cases i) simp_all
qed

lemma inner_escaped_status: "inner_escaped (QUOTE # ''status'' @ QUOTE # v) \<Longrightarrow> False"
  unfolding inner_escaped_def by (drule spec [of _ 7]) simp

lemma skip_char:
  "c \<noteq> QUOTE \<Longrightarrow> replace_created_status_with_running (c # s) = map_option (Cons c) (replace_created_status_with_running s)"
  by (simp add: needle_def)

lemma skip_quoteless:
  "\<forall>c \<in> set t. c \<noteq> QUOTE \<Longrightarrow>
     replace_created_status_with_running (t @ s) = map_option (\<lambda>x. t @ x) (replace_created_status_with_running s)"
proof (induction t)
  case Nil
  show ?case by (cases "replace_created_status_with_running s") simp_all
next
  case (Cons c t)
  then show ?case
    by (cases "replace_created_status_with_running s") (simp_all add: skip_char del: replace_created_status_with_running.simps)
qed

lemma no_needle_at_quote:
  assumes "inner_escaped (QUOTE # t)" and d: "d \<in> {CHR '','', CHR ''}''}"
  shows "strip_prefix needle (QUOTE # t @ QUOTE # d # r) = None"
proof (rule ccontr)
  assume "strip_prefix needle (QUOTE # t @ QUOTE # d # r) \<noteq> None"
  then obtain z where z: "t @ QUOTE # d # r = ''status\":\"created\"'' @ z"
    by (auto simp: strip_prefix_iff needle_def)
  show False
  proof (cases "length t < 7")
    case True
    then have "length t = 0 \<or> length t = 1 \<or> length t = 2 \<or> length t = 3 \<or> length t = 4 \<or>
        length t = 5 \<or> length t = 6" by linarith
    moreover have "(t @ QUOTE # d # r) ! length t = QUOTE" "(t @ QUOTE # d # r) ! Suc (length t) = d"
      by (simp_all add: nth_append)
    ultimately show False using d unfolding z by (elim disjE) auto
  next
    case False
    then have "take 7 t = ''status\"''"
      using arg_cong [OF z, of "take 7"] by simp
    then have "t = ''status\"'' @ drop 7 t" by (metis append_take_drop_id)
    then have "t = ''status'' @ QUOTE # drop 7 t" by simp
    with assms(1) show False using inner_escaped_status by metis
  qed
qed

lemma skip_body:
  assumes d: "d \<in> {CHR '','', CHR ''}''}"
  shows "inner_escaped t \<Longrightarrow>
   replace_created_status_with_running (t @ QUOTE # d # r) =
     map_option (\<lambda>s. t @ QUOTE # d # s) (replace_created_status_with_running r)"
proof (induction t)
  case Nil
  have "strip_prefix needle (QUOTE # d # r) = None" "strip_prefix needle (d # r) = None"
    using d by (auto simp: needle_def)
  then show ?case by (simp add: option.map_comp o_def)
next
  case (Cons c t)
  from Cons.prems have t: "inner_escaped t" by (rule inner_escaped_tl)
  show ?case
  proof (cases "c = QUOTE")
    case True
    with Cons.prems no_needle_at_quote [OF _ d, of t r] show ?thesis
      by (simp add: Cons.IH [OF t] option.map_comp o_def)
  next
    case False
    then show ?thesis by (simp add: skip_char Cons.IH [OF t] option.map_comp o_def del: replace_created_status_with_running.simps)
  qed
qed

lemma quotes_inner: "quotes_escaped body \<Longrightarrow> inner_escaped (QUOTE # body)"
  unfolding inner_escaped_def quotes_escaped_def
proof (intro allI impI)
  fix i assume h: "\<forall>i < length body. body ! i = QUOTE \<longrightarrow> 0 < i \<and> body ! (i - 1) = BACKSLASH"
    and i: "i < length (QUOTE # body)" "0 < i" "(QUOTE # body) ! i = QUOTE"
  then obtain j where j: "i = Suc j" "j < length body" "body ! j = QUOTE" by (cases i) simp_all
  with h have "0 < j" "body ! (j - 1) = BACKSLASH" by simp_all
  then show "(QUOTE # body) ! (i - 1) = BACKSLASH" by (simp add: j(1))
qed

context json_strings
begin

lemma skip_encoded_upto:
  assumes "d \<in> {CHR '','', CHR ''}''}"
  shows "replace_created_status_with_running (enc s @ d # r) =
     map_option (\<lambda>x. enc s @ d # x) (replace_created_status_with_running r)"
proof -
  obtain body where b: "enc s = QUOTE # body @ [QUOTE]" "quotes_escaped body" using enc_quoted by blast
  then show ?thesis using skip_body [OF assms quotes_inner [OF b(2)], of r] by simp
qed

lemma skip_encoded:
  "replace_created_status_with_running (enc s @ CHR '','' # r) =
     map_option (\<lambda>x. enc s @ CHR '','' # x) (replace_created_status_with_running r)"
  by (rule skip_encoded_upto) simp

lemma patch_state_text:
  assumes "T = \<lparr>jt_parse = p, jt_print = q, jt_set = r, jt_str = enc\<rparr>"
  shows "replace_created_status_with_running (state_text T cid pid bundle ''created'' comm) =
    Some (state_text T cid pid bundle ''running'' comm)"
proof -
  have words: "enc ''created'' = ''\"created\"''" "enc ''running'' = ''\"running\"''"
    by (simp_all add: enc_plain plain_word_def)
  let ?pre = "''{\"ociVersion\":\"1.0.2\",\"id\":''"
  have head: "replace_created_status_with_running (?pre @ enc cid @ CHR '','' # z) =
      map_option (\<lambda>s. ?pre @ enc cid @ CHR '','' # s) (replace_created_status_with_running z)" for z
    by (simp add: needle_def skip_encoded option.map_comp o_def)
  have status: "replace_created_status_with_running (''\"status\":'' @ ''\"created\"'' @ z) =
      Some (''\"status\":'' @ ''\"running\"'' @ z)" for z
    by (simp add: needle_def)
  obtain tail where "\<And>st. state_text T cid pid bundle st comm = ?pre @ enc cid @ CHR '','' # ''\"status\":'' @ enc st @ tail"
    by (rule that) (simp add: state_text_def assms)
  then show ?thesis by (simp only: words head status option.map)
qed

lemma patch_needs_created:
  assumes "T = \<lparr>jt_parse = p, jt_print = q, jt_set = r, jt_str = enc\<rparr>" "st \<in> {''paused'', ''running''}" "0 \<le> pid"
  shows "replace_created_status_with_running (state_text T cid pid bundle st comm) = None"
proof -
  have word: "enc st = QUOTE # st @ [QUOTE]" using assms(2) by (intro enc_plain) (auto simp: plain_word_def)
  have digits: "replace_created_status_with_running (dec_int pid @ z) =
      map_option (\<lambda>s. dec_int pid @ s) (replace_created_status_with_running z)" for z
  proof -
    have "\<forall>c \<in> set (dec_int pid). c \<noteq> QUOTE"
      using assms(3) set_dec_nat [of "nat pid"] by (auto simp: dec_int_def ascii_digits_def)
    then show ?thesis by (rule skip_quoteless)
  qed
  show ?thesis
    using assms(2) by (auto simp: state_text_def assms(1) word skip_encoded skip_encoded_upto digits needle_def split: option.split)
qed

end

section \<open>A provider of the string encoding\<close>

definition hex_digit :: "nat \<Rightarrow> char" where
  "hex_digit d = ''0123456789abcdef'' ! d"

definition esc_char :: "char \<Rightarrow> string" where
  "esc_char c =
     (if c = QUOTE then [BACKSLASH, QUOTE] else if c = BACKSLASH then [BACKSLASH, BACKSLASH]
      else if (of_char c :: nat) < 32
      then [BACKSLASH] @ ''u00'' @ [hex_digit (of_char c div 16), hex_digit (of_char c mod 16)]
      else [c])"

definition json_escape :: "string \<Rightarrow> string" where
  "json_escape s = QUOTE # concat (map esc_char s) @ [QUOTE]"

lemma quotes_escaped_append: "quotes_escaped a \<Longrightarrow> quotes_escaped b \<Longrightarrow> quotes_escaped (a @ b)"
  unfolding quotes_escaped_def
proof (intro allI impI)
  fix i assume a: "\<forall>i < length a. a ! i = QUOTE \<longrightarrow> 0 < i \<and> a ! (i - 1) = BACKSLASH"
    and b: "\<forall>i < length b. b ! i = QUOTE \<longrightarrow> 0 < i \<and> b ! (i - 1) = BACKSLASH"
    and i: "i < length (a @ b)" "(a @ b) ! i = QUOTE"
  show "0 < i \<and> (a @ b) ! (i - 1) = BACKSLASH"
  proof (cases "i < length a")
    case True
    with a i show ?thesis by (auto simp: nth_append)
  next
    case False
    then obtain j where j: "i = length a + j" using le_Suc_ex not_less by blast
    with b i have "0 < j \<and> b ! (j - 1) = BACKSLASH" by (simp add: nth_append)
    then show ?thesis by (auto simp: j nth_append)
  qed
qed

lemma hex_digit_not_quote: "d < 16 \<Longrightarrow> hex_digit d \<noteq> QUOTE"
proof -
  assume "d < 16"
  then have "hex_digit d \<in> set ''0123456789abcdef''" unfolding hex_digit_def by (intro nth_mem) simp
  then show ?thesis by auto
qed

lemma quotes_escaped_none: "QUOTE \<notin> set s \<Longrightarrow> quotes_escaped s"
  unfolding quotes_escaped_def by (metis nth_mem)

lemma quotes_escaped_pair: "quotes_escaped [BACKSLASH, QUOTE]"
  by (simp add: quotes_escaped_def less_Suc_eq)

lemma quotes_escaped_esc: "quotes_escaped (esc_char c)"
proof (cases "c = QUOTE")
  case True
  then show ?thesis by (simp add: esc_char_def quotes_escaped_pair)
next
  case False
  have "(of_char c :: nat) div 16 < 16" using nat_of_char_less_256 [of c] by (intro less_mult_imp_div_less) simp
  then have "hex_digit (of_char c div 16) \<noteq> QUOTE" by (rule hex_digit_not_quote)
  moreover have "hex_digit (of_char c mod 16) \<noteq> QUOTE" by (rule hex_digit_not_quote) simp
  ultimately have "hex_digit (of_char c div 16) \<noteq> QUOTE" "hex_digit (of_char c mod 16) \<noteq> QUOTE" by blast+
  with False have "QUOTE \<notin> set (esc_char c)" unfolding esc_char_def by auto
  then show ?thesis by (rule quotes_escaped_none)
qed

lemma esc_plain: "plain_word s \<Longrightarrow> concat (map esc_char s) = s"
proof (induction s)
  case (Cons c s)
  have "esc_char c = [c]" if "c \<in> set ''abcdefghijklmnopqrstuvwxyz''"
    using that by (auto simp: esc_char_def)
  with Cons show ?case by (simp add: plain_word_def)
qed simp

interpretation js: json_strings json_escape
proof unfold_locales
  show "\<exists>body. json_escape s = QUOTE # body @ [QUOTE] \<and> quotes_escaped body" for s
  proof (intro exI conjI)
    show "json_escape s = QUOTE # concat (map esc_char s) @ [QUOTE]" by (rule json_escape_def)
    show "quotes_escaped (concat (map esc_char s))"
      by (induction s) (simp_all add: quotes_escaped_append quotes_escaped_esc, simp add: quotes_escaped_def)
  qed
  show "plain_word s \<Longrightarrow> json_escape s = QUOTE # s @ [QUOTE]" for s
    by (simp add: json_escape_def esc_plain)
qed

section \<open>Start records the running state\<close>

text \<open>
  C6: Marking a container running patches the file create wrote in place, and the patched bytes are
  exactly what writing the state afresh with the status \<^verbatim>\<open>running\<close> would give: no other field can be
  hit by the byte search, whatever the identifier, the bundle path or the command name contain.
\<close>
theorem mark_running_exact:
  assumes "json_strings (jt_str T)"
    and "cd_state w = Some (state_text T cid pid bundle ''created'' comm)"
  shows "mark_state_running J T cid' pid' w = Ok (write_state T cid pid bundle ''running'' comm w)"
proof -
  have "T = \<lparr>jt_parse = jt_parse T, jt_print = jt_print T, jt_set = jt_set T, jt_str = jt_str T\<rparr>" by simp
  from json_strings.patch_state_text [OF assms(1) this] assms(2) show ?thesis
    by (simp add: mark_state_running_def write_state_def)
qed

definition escape_text :: "jval json_text" where
  "escape_text = \<lparr>jt_parse = (\<lambda>_. None), jt_print = (\<lambda>_. []), jt_set = (\<lambda>v _ _. v), jt_str = json_escape\<rparr>"

theorem mark_running_exact_witness:
  "\<exists>w. mark_state_running jv escape_text ''x'' 7
      (write_state escape_text ''\"status\":\"created\"'' 7 ''/b'' ''created'' None empty_cdir) = Ok w \<and>
    cd_state w = Some (state_text escape_text ''\"status\":\"created\"'' 7 ''/b'' ''running'' None)"
proof -
  let ?w = "write_state escape_text ''\"status\":\"created\"'' 7 ''/b'' ''created'' None empty_cdir"
  have "json_strings (jt_str escape_text)" by (simp add: escape_text_def js.json_strings_axioms)
  from mark_running_exact [OF this, of ?w "''\"status\":\"created\"''" 7 "''/b''" None jv "''x''" 7] show ?thesis
    by (simp add: write_state_def)
qed

end
