(* ===== verification/Deadline.thy ===== *)
theory Deadline
  imports Plan
begin

text \<open>
  Operation deadlines and the running of hooks in \<^verbatim>\<open>runtime.rs\<close>. An instant is a number of
  nanoseconds; every reading of the clock and every outcome of a system call is an argument.
\<close>

section \<open>Deadlines\<close>

type_synonym deadline = "nat option"

definition ms :: "nat \<Rightarrow> nat" where
  "ms n = n * 1000000"

definition from_timeout_ms :: "nat \<Rightarrow> u64 option \<Rightarrow> deadline" where
  "from_timeout_ms now timeout = map_option (\<lambda>t. now + ms (unat t)) timeout"

definition exceeded :: "string \<Rightarrow> io_error" where
  "exceeded opname = IoError TimedOut (opname @ '' exceeded timeout'')"

definition deadline_check :: "deadline \<Rightarrow> nat \<Rightarrow> string \<Rightarrow> unit io_result" where
  "deadline_check d now opname =
     (case d of None \<Rightarrow> Ok () | Some e \<Rightarrow> if e \<le> now then Inl (exceeded opname) else Ok ())"

definition remaining_ms :: "deadline \<Rightarrow> nat \<Rightarrow> string \<Rightarrow> nat option io_result" where
  "remaining_ms d now opname =
     (case d of None \<Rightarrow> Ok None
      | Some e \<Rightarrow> if e \<le> now then Inl (exceeded opname)
                 else Ok (Some (min ((e - now) div 1000000) (2 ^ 64 - 1))))"

definition hook_timeout_ms :: "deadline \<Rightarrow> nat \<Rightarrow> u64 option \<Rightarrow> nat option io_result" where
  "hook_timeout_ms d now hook =
     rbind (remaining_ms d now ''hook'') (\<lambda>remaining. Ok (case (hook, remaining) of
         (Some h, Some r) \<Rightarrow> Some (min (unat h) r)
       | (Some h, None) \<Rightarrow> Some (unat h)
       | (None, Some r) \<Rightarrow> Some r
       | (None, None) \<Rightarrow> None))"

definition delete_wait_timeout_ms :: "deadline \<Rightarrow> nat \<Rightarrow> nat io_result" where
  "delete_wait_timeout_ms d now =
     rbind (remaining_ms d now ''delete'') (\<lambda>r. Ok (case r of Some t \<Rightarrow> min t (2 ^ 31 - 1) | None \<Rightarrow> 1000))"

section \<open>Waiting for one hook\<close>

text \<open>
  An outcome is an errno or a value. A call that is retried on \<^verbatim>\<open>EINTR\<close> takes its outcomes from a
  list; \<open>None\<close> means that it is still waiting when the list is used up.
\<close>

fun retry_eintr :: "(nat + 'a) list \<Rightarrow> (nat + 'a) option" where
  "retry_eintr [] = None"
| "retry_eintr (Inl e # os) = (if e = 4 then retry_eintr os else Some (Inl e))"
| "retry_eintr (Inr a # os) = Some (Inr a)"

definition os_error :: "nat \<Rightarrow> io_error" where
  "os_error e = IoError (OsError e) ''''"

definition os_result :: "nat + 'a \<Rightarrow> unit io_result" where
  "os_result r = (case r of Inl e \<Rightarrow> Inl (os_error e) | Inr _ \<Rightarrow> Ok ())"

text \<open>\<open>hw_waits\<close> carries the exit statuses \<^verbatim>\<open>waitpid\<close> reports, \<open>hw_polls\<close> the results of \<^verbatim>\<open>poll\<close>.\<close>

record hook_waits =
  hw_pidfd_ok :: bool
  hw_polls :: "(nat + nat) list"
  hw_waits :: "(nat + int) list"

definition wait_hook_with_timeout :: "nat option \<Rightarrow> hook_waits \<Rightarrow> unit io_result option" where
  "wait_hook_with_timeout timeout k =
     (case timeout of
        None \<Rightarrow> map_option os_result (retry_eintr (hw_waits k))
      | Some t \<Rightarrow>
          if \<not> hw_pidfd_ok k then
            (case hw_waits k of [] \<Rightarrow> None | r # _ \<Rightarrow> Some (os_result r))
          else
            (case retry_eintr (hw_polls k) of
               None \<Rightarrow> None
             | Some (Inl e) \<Rightarrow> Some (Inl (os_error e))
             | Some (Inr rc) \<Rightarrow>
                 if rc = 0 then Some (Err Other (''hook exceeded '' @ dec_nat t @ '' ms timeout, killed''))
                 else (case hw_waits k of [] \<Rightarrow> None | r # _ \<Rightarrow> Some (os_result r))))"

section \<open>Running a list of hooks\<close>

record hook_run =
  hr_check_at :: nat
  hr_fork :: "nat + int"
  hr_wait_at :: nat
  hr_waits :: hook_waits

text \<open>
  The hooks that were forked, and the outcome; the runs are consumed in step with the hooks. A run
  list that is too short, or a hook that never ends, gives \<open>None\<close>.
\<close>

fun run_hooks :: "deadline \<Rightarrow> hook_cmd list \<Rightarrow> hook_run list \<Rightarrow> (hook_cmd list \<times> unit io_result) option" where
  "run_hooks d [] rs = Some ([], Ok ())"
| "run_hooks d (h # hs) [] = None"
| "run_hooks d (h # hs) (r # rs) =
     (case deadline_check d (hr_check_at r) ''hook'' of
        Inl e \<Rightarrow> Some ([], Inl e)
      | Inr _ \<Rightarrow>
        (case hr_fork r of
           Inl e \<Rightarrow> Some ([], Inl (os_error e))
         | Inr pid \<Rightarrow>
           (case hook_timeout_ms d (hr_wait_at r) (hc_timeout_ms h) of
              Inl e \<Rightarrow> Some ([h], Inl e)
            | Inr t \<Rightarrow>
              (case wait_hook_with_timeout t (hr_waits r) of
                 None \<Rightarrow> None
               | Some (Inl e) \<Rightarrow> Some ([h], Inl e)
               | Some (Inr _) \<Rightarrow> map_option (\<lambda>(execd, res). (h # execd, res)) (run_hooks d hs rs)))))"

text \<open>
  A hook's wait is bounded both by its own timeout and by the time the operation has left: the
  poll timeout never exceeds either, and an operation whose deadline has passed never waits.
\<close>
theorem hook_timeout_bounds:
  assumes "hook_timeout_ms d now hook = Ok t"
  shows "(\<forall>e. d = Some e \<longrightarrow> now < e \<and> (\<exists>w. t = Some w \<and> now + ms w \<le> e)) \<and>
    (\<forall>h. hook = Some h \<longrightarrow> (\<exists>w. t = Some w \<and> w \<le> unat h)) \<and>
    (t = None \<longleftrightarrow> d = None \<and> hook = None)"
proof -
  have le: "now + ms w \<le> e" if "now < e" "w \<le> (e - now) div 1000000" for w e
  proof -
    have "w * 1000000 \<le> (e - now) div 1000000 * 1000000" using that(2) by (rule mult_le_mono1)
    also have "\<dots> \<le> e - now" by simp
    finally show ?thesis using that(1) by (simp add: ms_def)
  qed
  show ?thesis
    using assms
    by (cases d; cases hook) (auto simp: hook_timeout_ms_def remaining_ms_def intro!: le split: if_splits)
qed

theorem hook_timeout_bounds_witness:
  "hook_timeout_ms (Some 5000000) 1000000 (Some 9) = Ok (Some 4) \<and> 1000000 + ms 4 \<le> 5000000"
proof -
  have "hook_timeout_ms (Some 5000000) 1000000 (Some 9) = Ok (Some 4)"
    by (simp add: hook_timeout_ms_def remaining_ms_def)
  from hook_timeout_bounds [OF this] this show ?thesis by simp
qed

section \<open>Hook failures\<close>

lemma run_hooks_prefix: "run_hooks d hs rs = Some (execd, res) \<Longrightarrow> execd = take (length execd) hs"
  by (induction d hs rs arbitrary: execd rule: run_hooks.induct) (auto split: sum.splits option.splits)

lemma run_hooks_all: "run_hooks d hs rs = Some (execd, Ok ()) \<Longrightarrow> execd = hs"
  by (induction d hs rs arbitrary: execd rule: run_hooks.induct) (auto split: sum.splits option.splits)

definition exits :: "int list \<Rightarrow> hook_run list" where
  "exits sts = map (\<lambda>st. \<lparr>hr_check_at = 0, hr_fork = Inr 1, hr_wait_at = 0,
     hr_waits = \<lparr>hw_pidfd_ok = True, hw_polls = [Inr 1], hw_waits = [Inr st]\<rparr>\<rparr>) sts"

lemma wait_exited:
  "wait_hook_with_timeout t \<lparr>hw_pidfd_ok = True, hw_polls = [Inr 1], hw_waits = [Inr st]\<rparr> = Some (Ok ())"
  by (simp add: wait_hook_with_timeout_def os_result_def split: option.split)

text \<open>
  The exit status of a hook is never looked at: whatever statuses the hooks return, all of them
  run, in order, and the phase succeeds. A failing createRuntime or prestart hook therefore does
  not stop the creation of a container; only a timeout or a failing system call does.
\<close>
theorem hook_exit_status_ignored:
  "length sts = length hs \<Longrightarrow> run_hooks None hs (exits sts) = Some (hs, Ok ())"
proof (induction hs arbitrary: sts)
  case (Cons h hs)
  then obtain st sts' where sts: "sts = st # sts'" by (cases sts) simp_all
  have "hook_timeout_ms None 0 (hc_timeout_ms h) = Ok (map_option unat (hc_timeout_ms h))"
    by (cases "hc_timeout_ms h") (simp_all add: hook_timeout_ms_def remaining_ms_def)
  with Cons sts show ?case
    by (simp add: exits_def deadline_check_def wait_exited [simplified])
qed simp

theorem hook_exit_status_ignored_witness:
  "run_hooks None [\<lparr>hc_path = ''/bin/false'', hc_args = [], hc_env = [], hc_timeout_ms = None\<rparr>] (exits [256]) =
     Some ([\<lparr>hc_path = ''/bin/false'', hc_args = [], hc_env = [], hc_timeout_ms = None\<rparr>], Ok ())"
  by (rule hook_exit_status_ignored) simp

end
