(* ===== verification/Lifecycle.thy ===== *)
theory Lifecycle
  imports State_Files Deadline Cgroup
begin

text \<open>
  The commands of \<^verbatim>\<open>runtime.rs\<close> on an existing container: start, state, delete, kill, pause, resume
  and update. A container is its directory (\<^typ>\<open>cdir\<close>) or nothing; a command takes the
  outcomes of its system calls as an environment and returns the new directory, what it did, and
  its result.
\<close>

type_synonym world = "cdir option"

definition no_container :: "string \<Rightarrow> io_error" where
  "no_container cid = IoError Other (''container '' @ cid @ '' does not exist'')"

definition load_hooks :: "'v json_api \<Rightarrow> 'v json_text \<Rightarrow> cdir \<Rightarrow> hooks" where
  "load_hooks J T w =
     (case and_then (cd_hooks w) (jt_parse T) of None \<Rightarrow> no_hooks | Some v \<Rightarrow> hooks_from_json J v)"

section \<open>start\<close>

text \<open>The directory path, the clock readings and the outcomes of opening and writing the fifo.\<close>

record start_env =
  se_root :: string
  se_now :: nat
  se_open :: "unit io_result"
  se_write :: "unit io_result"
  se_now2 :: nat

text \<open>Besides the result: whether the init was released, and the poststart hooks that are run.\<close>

definition cmd_start ::
  "'v json_api \<Rightarrow> 'v json_text \<Rightarrow> start_env \<Rightarrow> deadline \<Rightarrow> string \<Rightarrow> world \<Rightarrow>
   world \<times> bool \<times> hook_cmd list \<times> unit io_result" where
  "cmd_start J T k d cid w =
     (case w of None \<Rightarrow> (w, False, [], Inl (no_container cid))
      | Some c \<Rightarrow>
      (case read_pid c of Inl e \<Rightarrow> (w, False, [], Inl e)
       | Inr pid \<Rightarrow>
      (case deadline_check d (se_now k) ''start'' of Inl e \<Rightarrow> (w, False, [], Inl e)
       | Inr _ \<Rightarrow>
      if NUL \<in> set (path_join (se_root k) ''init.fifo'')
      then (w, False, [], Err Other ''fifo path contains NUL'')
      else
      (case se_open k of Inl e \<Rightarrow> (w, False, [], Inl e)
       | Inr _ \<Rightarrow>
      (case se_write k of Inl e \<Rightarrow> (w, False, [], Inl e)
       | Inr _ \<Rightarrow>
      (case deadline_check d (se_now2 k) ''start'' of Inl e \<Rightarrow> (w, True, [], Inl e)
       | Inr _ \<Rightarrow>
      (case mark_state_running J T cid pid c of Inl e \<Rightarrow> (w, True, [], Inl e)
       | Inr c' \<Rightarrow> (Some c', True, hk_poststart (load_hooks J T c'), Ok ()))))))))"

section \<open>state\<close>

definition stopped_or_creating :: "bool \<Rightarrow> string" where
  "stopped_or_creating live = (if live then ''creating'' else ''stopped'')"

text \<open>
  The JSON value printed on stdout. \<open>ji32\<close> builds the number for the pid of the synthesized state.
\<close>

definition cmd_state ::
  "'v json_api \<Rightarrow> 'v json_text \<Rightarrow> (int \<Rightarrow> 'v) \<Rightarrow> (int \<Rightarrow> bool) \<Rightarrow> string \<Rightarrow> world \<Rightarrow> world \<times> 'v io_result" where
  "cmd_state J T ji32 alive cid w =
     (case w of None \<Rightarrow> (w, Inl (no_container cid))
      | Some c \<Rightarrow>
      (case cd_state c of
         None \<Rightarrow>
           (let pid = (case read_pid c of Inr p \<Rightarrow> p | Inl _ \<Rightarrow> 0);
                status = stopped_or_creating (0 < pid \<and> alive pid)
            in (w, Ok (jobj J [(''ociVersion'', jstr J ''1.0.2''), (''id'', jstr J cid), (''status'', jstr J status),
                  (''pid'', ji32 pid), (''bundle'', jstr J ''''), (''annotations'', jobj J [])])))
       | Some t \<Rightarrow>
      (case jt_parse T t of None \<Rightarrow> (w, Err InvalidData ''json'')
       | Some v \<Rightarrow>
           (let status = unwrap_or (get_str J v ''status'') ''created'';
                pid = i64_as_i32 (unwrap_or (get_i64 J v ''pid'') 0)
            in if status \<noteq> ''stopped'' \<and> 0 < pid \<and> \<not> alive pid
               then (let v' = jt_set T v ''status'' (jstr J ''stopped'')
                     in (Some (c\<lparr>cd_state := Some (jt_print T v')\<rparr>), Ok v'))
               else (w, Ok v)))))"

section \<open>delete\<close>

text \<open>What a delete does to the outside, in order.\<close>

datatype effect = Kill int | Run_Hooks "hook_cmd list" | Cleanup_Overlay | Destroy

text \<open>
  The members of the cgroup are the text of \<^verbatim>\<open>cgroup.procs\<close>; \<open>de_wait\<close> and \<open>de_gone\<close> are the bounded
  waits for the init, \<open>de_now\<close> the clock at the two deadline checks.
\<close>

record delete_env =
  de_alive :: "int \<Rightarrow> bool"
  de_now :: nat
  de_procs :: "string option"
  de_wait :: "unit io_result"
  de_gone :: "unit io_result"
  de_now2 :: nat
  de_overlay :: "unit io_result"
  de_destroy :: "unit io_result"

definition lines_of :: "string \<Rightarrow> string list" where
  "lines_of s = (let ls = split_on (CHR 10) s in if last ls = [] then butlast ls else ls)"

definition cgroup_victims :: "string option \<Rightarrow> int \<Rightarrow> int list" where
  "cgroup_victims procs init_pid =
     (case procs of None \<Rightarrow> []
      | Some s \<Rightarrow> filter (\<lambda>p. p \<noteq> init_pid) (filter_map (\<lambda>l. parse_i32 (trim l)) (lines_of s)))"

text \<open>\<^verbatim>\<open>mark_failed\<close> with its result dropped.\<close>

definition try_mark_failed :: "'v json_api \<Rightarrow> 'v json_text \<Rightarrow> io_error \<Rightarrow> cdir \<Rightarrow> cdir" where
  "try_mark_failed J T e c = (case mark_failed J T (message_of e) c of Inr c' \<Rightarrow> c' | Inl _ \<Rightarrow> c)"

text \<open>The tail after the init is gone: the poststop hooks, the overlay, the directory.\<close>

definition delete_finish ::
  "'v json_api \<Rightarrow> 'v json_text \<Rightarrow> delete_env \<Rightarrow> deadline \<Rightarrow> cdir \<Rightarrow> world \<times> effect list \<times> unit io_result" where
  "delete_finish J T k d c =
     (case deadline_check d (de_now2 k) ''delete'' of
        Inl e \<Rightarrow> (Some (try_mark_failed J T e c), [], Inl e)
      | Inr _ \<Rightarrow>
          let hooks = hk_poststop (load_hooks J T c);
              pre = (if hooks = [] then [] else [Run_Hooks hooks])
          in case de_overlay k of
               Inl e \<Rightarrow> (Some (try_mark_failed J T e c), pre @ [Cleanup_Overlay], Inl e)
             | Inr _ \<Rightarrow>
                 (case de_destroy k of
                    Inl e \<Rightarrow> (Some c, pre @ [Cleanup_Overlay, Destroy], Inl e)
                  | Inr _ \<Rightarrow> (None, pre @ [Cleanup_Overlay, Destroy], Ok ())))"

definition prefix_effects :: "effect list \<Rightarrow> world \<times> effect list \<times> unit io_result \<Rightarrow> world \<times> effect list \<times> unit io_result" where
  "prefix_effects es r = (fst r, es @ fst (snd r), snd (snd r))"

definition delete_wait ::
  "'v json_api \<Rightarrow> 'v json_text \<Rightarrow> delete_env \<Rightarrow> deadline \<Rightarrow> bool \<Rightarrow> cdir \<Rightarrow> world \<times> effect list \<times> unit io_result" where
  "delete_wait J T k d force c =
     (case read_pid c of
        Inl _ \<Rightarrow> delete_finish J T k d c
      | Inr pid \<Rightarrow>
          prefix_effects (if force then Kill pid # map Kill (cgroup_victims (de_procs k) pid) else [])
            (case de_wait k of Inl e \<Rightarrow> (Some c, [], Inl e)
             | Inr _ \<Rightarrow>
                 (case de_gone k of Inl e \<Rightarrow> (Some (try_mark_failed J T e c), [], Inl e)
                  | Inr _ \<Rightarrow> delete_finish J T k d c)))"

definition cmd_delete ::
  "'v json_api \<Rightarrow> 'v json_text \<Rightarrow> delete_env \<Rightarrow> deadline \<Rightarrow> string \<Rightarrow> bool \<Rightarrow> world \<Rightarrow>
   world \<times> effect list \<times> unit io_result" where
  "cmd_delete J T k d cid force w =
     (case w of
        None \<Rightarrow> if force then (w, [], Ok ()) else (w, [], Inl (no_container cid))
      | Some c \<Rightarrow>
          (case read_status_pid_comm J T c of (status, pid, _) \<Rightarrow>
           if \<not> force \<and> status \<noteq> Some ''stopped'' \<and> 0 < pid \<and> de_alive k pid
           then (w, [], Err Other (''cannot delete container '' @ cid @ '' in state '' @
                  unwrap_or status ''creating'' @ ''; use --force''))
           else
             (case deadline_check d (de_now k) ''delete'' of
                Inl e \<Rightarrow> (w, [], Inl e)
              | Inr _ \<Rightarrow> delete_wait J T k d force c)))"

section \<open>kill\<close>

definition signal_names :: "(string \<times> int) list" where
  "signal_names = [(''TERM'', 15), (''KILL'', 9), (''INT'', 2), (''HUP'', 1), (''QUIT'', 3), (''USR1'', 10), (''USR2'', 12)]"

text \<open>\<^verbatim>\<open>Signal::try_from\<close> knows the standard signals 1 to 31.\<close>

definition parse_signal :: "string \<Rightarrow> int io_result" where
  "parse_signal s =
     (let upper = map ascii_upper s; bare = unwrap_or (strip_prefix ''SIG'' upper) upper
      in case map_of signal_names bare of Some n \<Rightarrow> Ok n
         | None \<Rightarrow>
             (case parse_i32 bare of
                Some num \<Rightarrow> if 1 \<le> num \<and> num \<le> 31 then Ok num else Err Other ''bad signal number''
              | None \<Rightarrow> Err Other (''unknown signal: '' @ s)))"

text \<open>The pid and the signal sent, if any; \<open>errno\<close> is the outcome of the call.\<close>

definition cmd_kill :: "nat option \<Rightarrow> cdir \<Rightarrow> string \<Rightarrow> (int \<times> int) option \<times> unit io_result" where
  "cmd_kill errno c signal =
     (case read_pid c of Inl e \<Rightarrow> (None, Inl e)
      | Inr pid \<Rightarrow>
          (case parse_signal signal of Inl e \<Rightarrow> (None, Inl e)
           | Inr sig \<Rightarrow> (Some (pid, sig), case errno of None \<Rightarrow> Ok () | Some e \<Rightarrow> Inl (os_error e))))"

section \<open>pause, resume, update\<close>

text \<open>\<open>cg\<close> is \<open>None\<close> when the cgroup directory does not exist, else the outcome of the write.\<close>

definition set_freeze :: "unit io_result option \<Rightarrow> string \<Rightarrow> bool \<Rightarrow> knob_write option \<times> unit io_result" where
  "set_freeze cg cid freeze =
     (case cg of
        None \<Rightarrow> (None, Err Other (''container '' @ cid @ '' has no cgroup (was it created without resources?)''))
      | Some r \<Rightarrow> (Some (''cgroup.freeze'', bytes_of (if freeze then ''1'' else ''0'')), r))"

definition cmd_freeze ::
  "'v json_api \<Rightarrow> 'v json_text \<Rightarrow> unit io_result option \<Rightarrow> string \<Rightarrow> bool \<Rightarrow> cdir \<Rightarrow> cdir \<times> unit io_result" where
  "cmd_freeze J T cg cid freeze c =
     (case set_freeze cg cid freeze of
        (_, Inl e) \<Rightarrow> (c, Inl e)
      | (_, Inr _) \<Rightarrow>
          (case update_status J T (if freeze then ''paused'' else ''running'') c of
             Inl e \<Rightarrow> (c, Inl e)
           | Inr c' \<Rightarrow> (c', Ok ())))"

definition cmd_update ::
  "'v json_api \<Rightarrow> 'v json_text \<Rightarrow> bool \<Rightarrow> string \<Rightarrow> string io_result \<Rightarrow> knob_write list \<times> unit io_result" where
  "cmd_update J T has_cgroup cid input =
     (case input of Inl e \<Rightarrow> ([], Inl e)
      | Inr bytes \<Rightarrow>
          (case jt_parse T bytes of None \<Rightarrow> ([], Err InvalidData ''json'')
           | Some v \<Rightarrow>
               if \<not> has_cgroup then ([], Err Other (''container '' @ cid @ '' has no cgroup''))
               else (compile_resources_to_writes J v, Ok ())))"

section \<open>Properties of delete\<close>

text \<open>A container directory that holds only a pid file, as after a crash in create.\<close>

definition pid_only :: cdir where
  "pid_only = empty_cdir\<lparr>cd_pid := Some ''7''\<rparr>"

lemma read_pid_pid_only: "read_pid pid_only = Ok 7"
proof -
  have "trim ''7'' = ''7''"
    by (simp add: trim_def trim_start_def trim_end_def ws_seqs_def upt_conv_Cons char_of_def bit_simps)
  then show ?thesis
    by (simp add: read_pid_def pid_only_def parse_i32_def parse_unsigned_def digit_val_def)
qed

lemma status_pid_only: "read_status_pid_comm J T pid_only = (Some ''creating'', 7, None)"
  using read_pid_pid_only by (simp add: read_status_pid_comm_def pid_only_def empty_cdir_def)

text \<open>
  Delete without force never touches a container whose init is alive and whose recorded status
  is not stopped: no signal, no hook, no cleanup, the directory unchanged, and an error reported.
  This includes the container killed in the middle of create, which only has a pid file.
\<close>
theorem delete_spares_live_container:
  assumes "read_status_pid_comm J T c = (status, pid, comm)"
    and "status \<noteq> Some ''stopped''" "0 < pid" "de_alive k pid"
  shows "\<exists>e. cmd_delete J T k d cid False (Some c) = (Some c, [], Inl e)"
  using assms by (simp add: cmd_delete_def)

definition quiet_delete :: "bool \<Rightarrow> delete_env" where
  "quiet_delete live = \<lparr>de_alive = (\<lambda>_. live), de_now = 0, de_procs = None, de_wait = Ok (), de_gone = Ok (),
     de_now2 = 0, de_overlay = Ok (), de_destroy = Ok ()\<rparr>"

theorem delete_spares_live_container_witness:
  "\<exists>e. cmd_delete jv escape_text (quiet_delete True) None ''x'' False (Some pid_only) =
     (Some pid_only, [], Inl e)"
proof (rule delete_spares_live_container)
  show "read_status_pid_comm jv escape_text pid_only = (Some ''creating'', 7, None)"
    by (rule status_pid_only)
qed (simp_all add: quiet_delete_def)

lemma delete_finish_cases:
  obtains (late) e where "delete_finish J T k d c = (Some (try_mark_failed J T e c), [], Inl e)"
  | (busy) e es where "delete_finish J T k d c = (Some (try_mark_failed J T e c), es @ [Cleanup_Overlay], Inl e)"
      "set es \<subseteq> range Run_Hooks"
  | (stuck) e es where "delete_finish J T k d c = (Some c, es @ [Cleanup_Overlay, Destroy], Inl e)"
      "set es \<subseteq> range Run_Hooks"
  | (gone) es where "delete_finish J T k d c = (None, es @ [Cleanup_Overlay, Destroy], Ok ())"
      "set es \<subseteq> range Run_Hooks"
proof -
  let ?hs = "hk_poststop (load_hooks J T c)"
  let ?pre = "if ?hs = [] then [] else [Run_Hooks ?hs]"
  have pre: "set ?pre \<subseteq> range Run_Hooks" by simp
  show thesis
  proof (cases "deadline_check d (de_now2 k) ''delete''")
    case (Inl e)
    then show ?thesis by (intro late) (simp add: delete_finish_def)
  next
    case d: (Inr u)
    show ?thesis
    proof (cases "de_overlay k")
      case (Inl e)
      with d show ?thesis by (intro busy [OF _ pre]) (simp add: delete_finish_def Let_def)
    next
      case o: (Inr u)
      show ?thesis
      proof (cases "de_destroy k")
        case (Inl e)
        with d o show ?thesis by (intro stuck [OF _ pre]) (simp add: delete_finish_def Let_def)
      next
        case (Inr u)
        with d o show ?thesis by (intro gone [OF _ pre]) (simp add: delete_finish_def Let_def)
      qed
    qed
  qed
qed

lemma delete_finish_facts:
  assumes "delete_finish J T k d c = (w', es, r)"
  shows "(w' = None \<longleftrightarrow> r = Ok ()) \<and> (\<forall>p. Kill p \<notin> set es) \<and> (r = Ok () \<longrightarrow> (\<exists>pre. es = pre @ [Cleanup_Overlay, Destroy]))"
  using assms by (cases rule: delete_finish_cases [of J T k d c]) auto

lemma delete_wait_facts:
  assumes "delete_wait J T k d force c = (w', es, r)"
  shows "(w' = None \<longleftrightarrow> r = Ok ()) \<and>
    (\<forall>p. Kill p \<in> set es \<longrightarrow> force \<and> (\<exists>q. read_pid c = Ok q \<and> (p = q \<or> p \<in> set (cgroup_victims (de_procs k) q)))) \<and>
    (r = Ok () \<longrightarrow> (\<exists>pre. es = pre @ [Cleanup_Overlay, Destroy]) \<and>
       (\<forall>q. read_pid c = Ok q \<longrightarrow> de_wait k = Ok () \<and> de_gone k = Ok ()))"
proof (cases "read_pid c")
  case (Inl e)
  with assms delete_finish_facts [of J T k d c w' es r] show ?thesis by (auto simp: delete_wait_def)
next
  case pid: (Inr pid)
  let ?kills = "if force then Kill pid # map Kill (cgroup_victims (de_procs k) pid) else []"
  let ?rest = "case de_wait k of Inl e \<Rightarrow> (Some c, [], Inl e)
     | Inr _ \<Rightarrow> (case de_gone k of Inl e \<Rightarrow> (Some (try_mark_failed J T e c), [], Inl e)
                  | Inr _ \<Rightarrow> delete_finish J T k d c)"
  obtain w2 es2 r2 where rest: "?rest = (w2, es2, r2)" by (cases ?rest)
  have eq: "w' = w2" "es = ?kills @ es2" "r = r2"
    using assms pid rest by (simp_all add: delete_wait_def prefix_effects_def split: if_splits)
  have facts: "(w2 = None \<longleftrightarrow> r2 = Ok ()) \<and> (\<forall>p. Kill p \<notin> set es2) \<and>
      (r2 = Ok () \<longrightarrow> (\<exists>pre. es2 = pre @ [Cleanup_Overlay, Destroy]) \<and> de_wait k = Ok () \<and> de_gone k = Ok ())"
    using rest delete_finish_facts [of J T k d c w2 es2 r2] by (auto split: sum.splits)
  show ?thesis
    using facts pid unfolding eq by auto
qed

text \<open>
  What a delete may do: it succeeds exactly when the directory is gone afterwards; it sends
  signals only under force, and only to the recorded init and the members of its cgroup; and a
  container that existed is removed only after both waits for its init succeeded, the overlay being
  cleaned up before the directory.
\<close>
theorem delete_effects:
  assumes "cmd_delete J T k d cid force w = (w', es, r)"
  shows "(r = Ok () \<longleftrightarrow> w' = None \<and> (w \<noteq> None \<or> force)) \<and>
    (\<forall>p. Kill p \<in> set es \<longrightarrow> force \<and>
       (\<exists>c q. w = Some c \<and> read_pid c = Ok q \<and> (p = q \<or> p \<in> set (cgroup_victims (de_procs k) q)))) \<and>
    (\<forall>c. w = Some c \<and> w' = None \<longrightarrow> (\<exists>pre. es = pre @ [Cleanup_Overlay, Destroy]) \<and>
       (\<forall>q. read_pid c = Ok q \<longrightarrow> de_wait k = Ok () \<and> de_gone k = Ok ()))"
proof (cases w)
  case None
  with assms show ?thesis by (auto simp: cmd_delete_def split: if_splits)
next
  case (Some c)
  obtain status pid comm where s: "read_status_pid_comm J T c = (status, pid, comm)"
    by (cases "read_status_pid_comm J T c")
  show ?thesis
  proof (cases "delete_wait J T k d force c = (w', es, r)")
    case True
    with Some delete_wait_facts [OF True] show ?thesis by auto
  next
    case False
    have "w' = Some c \<and> es = [] \<and> (\<exists>e. r = Inl e)"
    proof (cases "\<not> force \<and> status \<noteq> Some ''stopped'' \<and> 0 < pid \<and> de_alive k pid")
      case True
      with assms Some s show ?thesis by (auto simp: cmd_delete_def)
    next
      case guard: False
      show ?thesis
      proof (cases "deadline_check d (de_now k) ''delete''")
        case (Inl e)
        have "cmd_delete J T k d cid force w = (w, [], Inl e)"
          unfolding cmd_delete_def Some option.case s prod.case if_not_P [OF guard] Inl sum.case ..
        with assms Some show ?thesis by simp
      next
        case (Inr u)
        have "cmd_delete J T k d cid force w = delete_wait J T k d force c"
          unfolding cmd_delete_def Some option.case s prod.case if_not_P [OF guard] Inr sum.case ..
        with assms False show ?thesis by simp
      qed
    qed
    with Some show ?thesis by auto
  qed
qed

theorem delete_effects_witness:
  "fst (cmd_delete jv escape_text (quiet_delete True) None ''x'' True (Some pid_only)) = None"
proof -
  let ?run = "cmd_delete jv escape_text (quiet_delete True) None ''x'' True (Some pid_only)"
  obtain w' es r where run: "?run = (w', es, r)" by (cases ?run)
  have "snd (snd ?run) = Ok ()"
    by (simp add: cmd_delete_def quiet_delete_def delete_wait_def delete_finish_def Let_def
        prefix_effects_def status_pid_only read_pid_pid_only deadline_check_def)
  with delete_effects [OF run] run show ?thesis by simp
qed

section \<open>Properties of start and state\<close>

text \<open>
  Start changes the recorded state only after the init was released, and success means that it
  was released and the state rewritten as running. The converse fails: when the deadline passes
  after the release, or the state cannot be rewritten, start reports an error and leaves the old
  state on disk although the workload is running.
\<close>
theorem start_outcome:
  assumes "cmd_start J T k d cid w = (w', released, hs, r)"
  shows "(\<not> released \<longrightarrow> w' = w \<and> hs = [] \<and> r \<noteq> Ok ()) \<and>
    (r = Ok () \<longrightarrow> released \<and> (\<exists>c pid c'. w = Some c \<and> read_pid c = Ok pid \<and> w' = Some c' \<and>
       mark_state_running J T cid pid c = Ok c' \<and> hs = hk_poststart (load_hooks J T c'))) \<and>
    (released \<and> r \<noteq> Ok () \<longrightarrow> w' = w)"
  using assms unfolding cmd_start_def
  by (simp split: option.splits sum.splits if_splits) auto

definition late_start :: start_env where
  "late_start = \<lparr>se_root = ''/run/rsrun/x'', se_now = 0, se_open = Ok (), se_write = Ok (), se_now2 = 9\<rparr>"

theorem start_outcome_witness:
  "\<exists>e. cmd_start jv escape_text late_start (Some 5) ''x'' (Some pid_only) =
     (Some pid_only, True, [], Inl e)"
proof -
  let ?w = "Some pid_only"
  let ?run = "cmd_start jv escape_text late_start (Some 5) ''x'' ?w"
  obtain w' released hs r where run: "?run = (w', released, hs, r)" by (cases ?run)
  have "released \<and> hs = [] \<and> (\<exists>e. r = Inl e)"
    using run read_pid_pid_only by (auto simp: cmd_start_def late_start_def deadline_check_def path_join_def is_absolute_def)
  with start_outcome [OF run] run show ?thesis by auto
qed

text \<open>
  A stopped container stays stopped: once a state query has found the init dead, it records
  that, and every later query reports the recorded value and changes nothing, whatever process has
  been given the same pid since. The hypotheses are the JSON library's: the document just written
  reads back, and setting a key determines that key.
\<close>
theorem state_stopped_is_sticky:
  assumes "cd_state c = Some t" "jt_parse T t = Some v" "get_str J v ''status'' = Some st"
    and "0 < i64_as_i32 (unwrap_or (get_i64 J v ''pid'') 0)" "\<not> alive (i64_as_i32 (unwrap_or (get_i64 J v ''pid'') 0))"
    and "st = ''stopped'' \<or> v' = jt_set T v ''status'' (jstr J ''stopped'')"
    and "st = ''stopped'' \<Longrightarrow> v' = v"
    and "jt_parse T (jt_print T v') = Some v'" "get_str J v' ''status'' = Some ''stopped''"
  shows "\<exists>c'. cmd_state J T ji alive cid (Some c) = (Some c', Ok v') \<and>
    cmd_state J T ji alive' cid (Some c') = (Some c', Ok v')"
proof (cases "st = ''stopped''")
  case True
  with assms show ?thesis by (intro exI [of _ c]) (simp add: cmd_state_def)
next
  case False
  with assms show ?thesis
    by (intro exI [of _ "c\<lparr>cd_state := Some (jt_print T v')\<rparr>"]) (simp add: cmd_state_def Let_def)
qed

text \<open>A two-document JSON store for the witness.\<close>

definition doc :: "string \<Rightarrow> jval" where
  "doc st = JObj [(''status'', JStr st), (''pid'', JPos 7)]"

definition two_docs :: "jval json_text" where
  "two_docs = \<lparr>jt_parse = (\<lambda>t. if t = ''a'' then Some (doc ''running'') else if t = ''b'' then Some (doc ''stopped'') else None),
     jt_print = (\<lambda>v. if v = doc ''stopped'' then ''b'' else ''a''),
     jt_set = (\<lambda>v k x. case v of JObj kvs \<Rightarrow> JObj (map (\<lambda>(k', y). (k', if k' = k then x else y)) kvs) | _ \<Rightarrow> v),
     jt_str = json_escape\<rparr>"

theorem state_stopped_is_sticky_witness:
  "\<exists>c'. cmd_state jv two_docs (\<lambda>_. JNull) (\<lambda>_. False) ''x'' (Some (empty_cdir\<lparr>cd_state := Some ''a''\<rparr>)) =
       (Some c', Ok (doc ''stopped'')) \<and>
    cmd_state jv two_docs (\<lambda>_. JNull) (\<lambda>_. True) ''x'' (Some c') = (Some c', Ok (doc ''stopped''))"
  by (rule state_stopped_is_sticky [of _ "''a''" _ "doc ''running''" _ "''running''"])
    (simp_all add: two_docs_def doc_def get_defs i64_as_i32_def)

section \<open>Signals\<close>

text \<open>
  C31: The seven named signals are accepted in any case and with or without the SIG prefix, and every
  accepted name or number denotes a signal between 1 and 31.
\<close>
theorem parse_signal_range:
  "(parse_signal s = Ok n \<longrightarrow> 1 \<le> n \<and> n \<le> 31) \<and>
   (map_of signal_names (map ascii_upper s) = Some n \<longrightarrow> parse_signal s = Ok n \<and> parse_signal (''sig'' @ s) = Ok n)"
proof -
  have names: "1 \<le> m \<and> m \<le> 31" if "map_of signal_names x = Some m" for x m
    using map_of_SomeD [OF that] by (auto simp: signal_names_def)
  have nosig: "strip_prefix ''SIG'' x = None" if "map_of signal_names x = Some m" for x m
    using map_of_SomeD [OF that] by (auto simp: signal_names_def)
  have up: "map ascii_upper ''sig'' = ''SIG''" by code_simp
  show ?thesis
    using names nosig [of "map ascii_upper s" n] up
    by (auto simp: parse_signal_def Let_def split: option.splits if_splits)
qed

lemma parse_signal_range_witness: "parse_signal ''sigTerm'' = Ok 15"
  using parse_signal_range [of "''Term''" 15] by (simp add: signal_names_def ascii_upper_def char_of_def bit_simps)

end
