(* ===== verification/Spawn.thy ===== *)
theory Spawn
  imports Lifecycle
begin

text \<open>
  \<^verbatim>\<open>cmd_create_full_with_timeout\<close>, \<^verbatim>\<open>cmd_activate_prepared_with_ext\<close> and the function they share,
  \<^verbatim>\<open>spawn_container_init\<close>: every fallible call in the order of the source, with the error paths
  that tear the half-made container down and those that only return.
\<close>

section \<open>Namespace paths\<close>

text \<open>What opening a path and asking for its namespace type gives: an errno, or the type.\<close>

definition ns_path_error :: "string \<Rightarrow> io_error" where
  "ns_path_error p = IoError Other (''namespace path '' @ p @ '' does not match declared type'')"

fun validate_namespace_paths :: "(string \<Rightarrow> nat + int) \<Rightarrow> namespace_entry list \<Rightarrow> unit io_result" where
  "validate_namespace_paths ns_type [] = Ok ()"
| "validate_namespace_paths ns_type (ns # rest) =
     (case ns_path ns of
        None \<Rightarrow> validate_namespace_paths ns_type rest
      | Some p \<Rightarrow>
          if NUL \<in> set p then Err Other ''namespace path has interior NUL''
          else (case ns_type p of
                  Inl e \<Rightarrow> Inl (os_error e)
                | Inr actual \<Rightarrow>
                    if actual < 0 \<or> actual \<noteq> uint (clone_flag (ns_kind ns)) then Inl (ns_path_error p)
                    else validate_namespace_paths ns_type rest))"

section \<open>clone3\<close>

record clone_args =
  ca_flags :: u64
  ca_exit_signal :: u64
  ca_cgroup :: u64

abbreviation (input) "CLONE_PIDFD \<equiv> (0x1000 :: u64)"
abbreviation (input) "CLONE_INTO_CGROUP \<equiv> (0x200000000 :: u64)"

definition build_clone_args :: "u64 \<Rightarrow> int option \<Rightarrow> clone_args" where
  "build_clone_args namespace_flags cgroup_fd =
     (case cgroup_fd of
        None \<Rightarrow> \<lparr>ca_flags = namespace_flags OR CLONE_PIDFD, ca_exit_signal = 17, ca_cgroup = 0\<rparr>
      | Some fd \<Rightarrow> \<lparr>ca_flags = namespace_flags OR CLONE_PIDFD OR CLONE_INTO_CGROUP, ca_exit_signal = 17,
          ca_cgroup = word_of_int fd\<rparr>)"

text \<open>\<^verbatim>\<open>EINVAL\<close>, \<^verbatim>\<open>EOPNOTSUPP\<close>, \<^verbatim>\<open>EACCES\<close>, \<^verbatim>\<open>EBUSY\<close>, \<^verbatim>\<open>ENODEV\<close>.\<close>

definition should_retry_without_clone_into_cgroup :: "nat \<Rightarrow> bool" where
  "should_retry_without_clone_into_cgroup errno = (errno \<in> {22, 95, 13, 16, 19})"

definition clone_into_cgroup_enabled :: "string option \<Rightarrow> bool" where
  "clone_into_cgroup_enabled var = (var \<in> {Some ''1'', Some ''true'', Some ''yes'', Some ''on''})"

text \<open>
  The clone with its one retry; the kernel is a function from the arguments to an errno or a pid. The
  flag says whether the child is already in its cgroup.
\<close>

definition clone_init :: "(clone_args \<Rightarrow> nat + int) \<Rightarrow> u64 \<Rightarrow> int option \<Rightarrow> (int \<times> bool) io_result" where
  "clone_init clone3 flags cgroup_fd =
     (case clone3 (build_clone_args flags cgroup_fd) of
        Inr pid \<Rightarrow> Ok (pid, cgroup_fd \<noteq> None)
      | Inl e \<Rightarrow>
          if cgroup_fd \<noteq> None \<and> should_retry_without_clone_into_cgroup e then
            (case clone3 (build_clone_args flags None) of
               Inr pid \<Rightarrow> Ok (pid, False) | Inl e' \<Rightarrow> Inl (os_error e'))
          else Inl (os_error e))"

section \<open>The environment of a spawn\<close>

datatype rootfs_source = Bundle_Configured | Prepared_Rootfs string

text \<open>
  The outcomes of the system calls and helpers, in the order they are consumed. \<open>pe_overlay\<close> is the
  merged path and the overlay record of a prepared overlay.
\<close>

record spawn_env =
  pe_root :: string
  pe_mkfifo :: "unit io_result"
  pe_chmod :: "unit io_result"
  pe_overlay :: "(string \<times> string) option io_result"
  pe_write_overlay :: "unit io_result"
  pe_open_fifo :: "unit io_result"
  pe_open_err :: "unit io_result"
  pe_sync_pipe :: "unit io_result"
  pe_cgroup_dir :: "unit io_result"
  pe_attach :: "unit io_result"
  pe_runtime_hooks :: "unit io_result"
  pe_prestart_hooks :: "unit io_result"
  pe_now :: nat
  pe_openpty :: "unit io_result"
  pe_relay_pipe :: "unit io_result"
  pe_idmap :: "unit io_result"
  pe_cgroup_fd :: "int option"
  pe_clone3 :: "clone_args \<Rightarrow> nat + int"
  pe_send_pty :: "unit io_result"
  pe_uid_map :: "unit io_result"
  pe_gid_map :: "unit io_result"
  pe_sync :: "unit io_result"
  pe_relay_pid :: "int option"
  pe_write_pid :: "unit io_result"
  pe_write_ext_pid :: "unit io_result"
  pe_write_creating :: "unit io_result"
  pe_scheduler :: "unit io_result"
  pe_write_hooks :: "unit io_result"
  pe_write_created :: "unit io_result"
  pe_destroy_ok :: bool

text \<open>The directory and the init process that is alive, if any.\<close>

record spawned =
  ss_dir :: world
  ss_init :: "int option"

definition on_dir :: "(cdir \<Rightarrow> cdir) \<Rightarrow> spawned \<Rightarrow> spawned" where
  "on_dir f s = s\<lparr>ss_dir := map_option f (ss_dir s)\<rparr>"

definition cleanup_failed_spawn ::
  "'v json_text \<Rightarrow> bool \<Rightarrow> string \<Rightarrow> string \<Rightarrow> bool \<Rightarrow> spawned \<Rightarrow> spawned" where
  "cleanup_failed_spawn T destroy_ok cid bundle destroy s =
     (let s1 = on_dir (\<lambda>c. c\<lparr>cd_fifo := False, cd_pid := None\<rparr>) s
      in if destroy then (if destroy_ok then s1\<lparr>ss_dir := None\<rparr> else s1)
         else on_dir (write_state T cid 0 bundle ''stopped'' None) s1)"

text \<open>\<^verbatim>\<open>?\<close> with and without the clean-up closure.\<close>

type_synonym spawn_result = "spawned \<times> int io_result"

fun guarded :: "(spawned \<Rightarrow> spawned) \<Rightarrow> 'a io_result \<Rightarrow> spawned \<Rightarrow> ('a \<Rightarrow> spawn_result) \<Rightarrow> spawn_result" where
  "guarded cl (Inl e) s f = (cl s, Inl e)"
| "guarded cl (Inr a) s f = f a"

abbreviation (input) keep :: "spawned \<Rightarrow> spawned" where
  "keep \<equiv> (\<lambda>s. s)"

definition when_io :: "bool \<Rightarrow> unit io_result \<Rightarrow> unit io_result" where
  "when_io b r = (if b then r else Ok ())"

definition nul_check :: "string \<Rightarrow> string \<Rightarrow> unit io_result" where
  "nul_check msg s = (if NUL \<in> set s then Err Other msg else Ok ())"

section \<open>The spawn\<close>

text \<open>From the parent's bookkeeping after the clone to the end.\<close>

definition spawn_record ::
  "'v json_api \<Rightarrow> 'v json_text \<Rightarrow> spawn_env \<Rightarrow> string \<Rightarrow> string \<Rightarrow> compiled_plan \<Rightarrow> string option \<Rightarrow> bool \<Rightarrow>
   bool \<Rightarrow> int \<Rightarrow> spawned \<Rightarrow> spawn_result" where
  "spawn_record J T k cid bundle plan comm_hint ext_pid destroy init s =
     (let cl = cleanup_failed_spawn T (pe_destroy_ok k) cid bundle destroy \<circ> (\<lambda>s. s\<lparr>ss_init := None\<rparr>) in
      guarded keep (pe_write_pid k) s (\<lambda>_.
      let s = on_dir (\<lambda>c. c\<lparr>cd_pid := Some (dec_int init)\<rparr>) s in
      guarded keep (when_io ext_pid (pe_write_ext_pid k)) s (\<lambda>_.
      guarded keep (pe_write_creating k) s (\<lambda>_.
      let s = on_dir (write_state T cid init bundle ''creating'' comm_hint) s in
      guarded cl (when_io (cp_scheduler plan \<noteq> None) (pe_scheduler k)) s (\<lambda>_.
      let hooks = ep_hooks (cp_ext plan) in
      guarded cl (when_io (\<not> hooks_is_empty hooks) (pe_write_hooks k)) s (\<lambda>_.
      let s = (if hooks_is_empty hooks then s
               else on_dir (\<lambda>c. c\<lparr>cd_hooks := Some (jt_print T (hooks_to_json J hooks))\<rparr>) s) in
      guarded cl (pe_write_created k) s (\<lambda>_.
      (on_dir (write_state T cid init bundle ''created'' comm_hint) s, Ok init))))))))"

text \<open>From the clone to the init's pid.\<close>

definition spawn_clone ::
  "'v json_api \<Rightarrow> 'v json_text \<Rightarrow> spawn_env \<Rightarrow> string \<Rightarrow> string \<Rightarrow> compiled_plan \<Rightarrow> string option \<Rightarrow> bool \<Rightarrow>
   bool \<Rightarrow> spawned \<Rightarrow> spawn_result" where
  "spawn_clone J T k cid bundle plan comm_hint ext_pid destroy s =
     (let needs_join = (\<exists>(kind, _) \<in> set (cp_join_namespaces plan). kind = NsPid);
          has_pty = cp_terminal plan \<and> cp_console_socket plan \<noteq> None in
      guarded keep (when_io has_pty (pe_openpty k)) s (\<lambda>_.
      guarded keep (when_io needs_join (pe_relay_pipe k)) s (\<lambda>_.
      guarded keep (pe_idmap k) s (\<lambda>_.
      guarded keep (clone_init (pe_clone3 k) (ucast (cp_clone_flags plan)) (pe_cgroup_fd k)) s (\<lambda>(pid, _).
      let s = s\<lparr>ss_init := Some pid\<rparr> in
      guarded keep (when_io has_pty (pe_send_pty k)) s (\<lambda>_.
      guarded keep (when_io (cp_wants_userns plan) (pe_uid_map k)) s (\<lambda>_.
      guarded keep (when_io (cp_wants_userns plan) (pe_gid_map k)) s (\<lambda>_.
      guarded keep (when_io (cp_wants_userns plan) (pe_sync k)) s (\<lambda>_.
      guarded keep (if needs_join then ok_or (pe_relay_pid k)
          (IoError Other ''PID-ns join: failed to read init pid from intermediate'') else Ok pid) s (\<lambda>init.
      spawn_record J T k cid bundle plan comm_hint ext_pid destroy init (s\<lparr>ss_init := Some init\<rparr>)))))))))))"

definition spawn_container_init ::
  "'v json_api \<Rightarrow> 'v json_text \<Rightarrow> spawn_env \<Rightarrow> string \<Rightarrow> string \<Rightarrow> 'v spec \<Rightarrow> bool \<Rightarrow> ext_plan \<Rightarrow>
   string option \<Rightarrow> bool \<Rightarrow> deadline \<Rightarrow> rootfs_source \<Rightarrow> bool \<Rightarrow> spawned \<Rightarrow> spawn_result" where
  "spawn_container_init J T k cid bundle spec ext_pid ext console no_pivot d source destroy s =
     (let cl = cleanup_failed_spawn T (pe_destroy_ok k) cid bundle destroy;
          s = on_dir (\<lambda>c. c\<lparr>cd_fifo := False\<rparr>) s in
      guarded keep (pe_mkfifo k) s (\<lambda>_.
      let s = on_dir (\<lambda>c. c\<lparr>cd_fifo := True\<rparr>) s in
      guarded keep (pe_chmod k) s (\<lambda>_.
      guarded cl (case source of Bundle_Configured \<Rightarrow> pe_overlay k | Prepared_Rootfs _ \<Rightarrow> Ok None) s (\<lambda>overlay.
      let root = (case source of Prepared_Rootfs r \<Rightarrow> r
                  | Bundle_Configured \<Rightarrow> (case overlay of Some (merged, _) \<Rightarrow> merged | None \<Rightarrow> sp_root_path spec)) in
      guarded cl (when_io (overlay \<noteq> None) (pe_write_overlay k)) s (\<lambda>_.
      let s = (case overlay of None \<Rightarrow> s | Some (_, record_text) \<Rightarrow> on_dir (\<lambda>c. c\<lparr>cd_overlay := Some record_text\<rparr>) s) in
      guarded cl (from_spec (spec\<lparr>sp_root_path := root\<rparr>)) s (\<lambda>plan0.
      let plan = plan0\<lparr>cp_ext := ext, cp_console_socket := console, cp_no_pivot := no_pivot\<rparr> in
      guarded cl (nul_check ''rootfs path contains NUL'' root) s (\<lambda>_.
      guarded keep (nul_check ''fifo path contains NUL'' (path_join (pe_root k) ''init.fifo'')) s (\<lambda>_.
      guarded keep (pe_open_fifo k) s (\<lambda>_.
      guarded keep (nul_check ''error path contains NUL'' (path_join (pe_root k) ''child.err'')) s (\<lambda>_.
      guarded keep (pe_open_err k) s (\<lambda>_.
      guarded keep (when_io (cp_wants_userns plan) (pe_sync_pipe k)) s (\<lambda>_.
      let in_cgroup = ep_cgroup_v2_path ext \<noteq> None in
      guarded cl (when_io in_cgroup (pe_cgroup_dir k)) s (\<lambda>_.
      guarded cl (when_io (in_cgroup \<and> ep_device_cgroup_bpf ext \<noteq> []) (pe_attach k)) s (\<lambda>_.
      guarded cl (when_io (hk_create_runtime (ep_hooks ext) \<noteq> []) (pe_runtime_hooks k)) s (\<lambda>_.
      guarded cl (when_io (hk_prestart (ep_hooks ext) \<noteq> []) (pe_prestart_hooks k)) s (\<lambda>_.
      guarded keep (deadline_check d (pe_now k) ''create'') s (\<lambda>_.
      spawn_clone J T k cid bundle plan (and_then (case sp_args spec of [] \<Rightarrow> None | a # _ \<Rightarrow> Some a) file_name)
        ext_pid destroy s)))))))))))))))))"

section \<open>create and activate\<close>

text \<open>The bundle, its parsed configuration, the clock and the namespace oracle come first.\<close>

record 'v create_env =
  ce_bundle :: "string io_result"
  ce_spec :: "'v spec io_result"
  ce_now :: nat
  ce_ns :: "string \<Rightarrow> nat + int"
  ce_ensure :: "unit io_result"

definition cmd_create ::
  "'v json_api \<Rightarrow> 'v json_text \<Rightarrow> 'v create_env \<Rightarrow> spawn_env \<Rightarrow> string \<Rightarrow> bool \<Rightarrow> ext_plan \<Rightarrow> string option \<Rightarrow>
   bool \<Rightarrow> deadline \<Rightarrow> spawned \<Rightarrow> spawn_result" where
  "cmd_create J T ce k cid ext_pid ext console no_pivot d s =
     guarded keep (ce_bundle ce) s (\<lambda>bundle.
     guarded keep (ce_spec ce) s (\<lambda>spec.
     guarded keep (deadline_check d (ce_now ce) ''create'') s (\<lambda>_.
     guarded keep (validate_namespace_paths (ce_ns ce) (sp_namespaces spec)) s (\<lambda>_.
     guarded keep (if ss_dir s \<noteq> None then Err Other (''container '' @ cid @ '' already exists'') else Ok ()) s (\<lambda>_.
     guarded keep (ce_ensure ce) s (\<lambda>_.
     spawn_container_init J T k cid bundle spec ext_pid ext console no_pivot d Bundle_Configured True
       (s\<lparr>ss_dir := Some empty_cdir\<rparr>)))))))"

definition cannot_activate :: "string \<Rightarrow> string \<Rightarrow> io_error" where
  "cannot_activate cid st = IoError Other (''cannot activate container '' @ cid @ '' in state '' @ st)"

text \<open>\<open>merged\<close> is the result of reading the overlay record of the container.\<close>

definition cmd_activate ::
  "'v json_api \<Rightarrow> 'v json_text \<Rightarrow> 'v create_env \<Rightarrow> spawn_env \<Rightarrow> (int \<Rightarrow> bool) \<Rightarrow> string io_result \<Rightarrow> string \<Rightarrow>
   ext_plan \<Rightarrow> deadline \<Rightarrow> spawned \<Rightarrow> spawn_result" where
  "cmd_activate J T ce k alive merged cid ext d s =
     guarded keep (ce_bundle ce) s (\<lambda>bundle.
     guarded keep (ce_spec ce) s (\<lambda>spec.
     guarded keep (deadline_check d (ce_now ce) ''activate'') s (\<lambda>_.
     guarded keep (validate_namespace_paths (ce_ns ce) (sp_namespaces spec)) s (\<lambda>_.
     guarded keep (ok_or (ss_dir s) (no_container cid)) s (\<lambda>c.
     case read_status_pid_comm J T c of (status, pid, _) \<Rightarrow>
     guarded keep (if 0 < pid \<and> alive pid then Inl (cannot_activate cid (unwrap_or status ''creating'')) else Ok ()) s (\<lambda>_.
     guarded keep (if status \<noteq> Some ''stopped'' then Inl (cannot_activate cid (unwrap_or status ''unknown'')) else Ok ()) s (\<lambda>_.
     guarded keep merged s (\<lambda>rootfs.
     spawn_container_init J T k cid bundle spec False ext None False d (Prepared_Rootfs rootfs) False s))))))))"

section \<open>Success\<close>

lemma guarded_Ok [simp]: "guarded cl r s f = (s', Inr x) \<longleftrightarrow> (\<exists>a. r = Inr a \<and> f a = (s', Inr x))"
  by (cases r) auto

lemma guarded_Err: "guarded cl r s f = (s', Inl e) \<longleftrightarrow> r = Inl e \<and> s' = cl s \<or> (\<exists>a. r = Inr a \<and> f a = (s', Inl e))"
  by (cases r) auto

lemma on_dir_simps [simp]: "ss_dir (on_dir f s) = map_option f (ss_dir s)" "ss_init (on_dir f s) = ss_init s"
  by (simp_all add: on_dir_def)

lemma spawn_record_success:
  assumes "spawn_record J T k cid bundle plan comm ext_pid destroy init s = (s', Ok pid)" "ss_dir s = Some c"
  shows "\<exists>c'. ss_dir s' = Some c' \<and> cd_state c' = Some (state_text T cid init bundle ''created'' comm) \<and>
    cd_pid c' = Some (dec_int init) \<and> ss_init s' = ss_init s \<and> pid = init \<and> cd_fifo c' = cd_fifo c \<and>
    cd_hooks c' = (if hooks_is_empty (ep_hooks (cp_ext plan)) then cd_hooks c
                   else Some (jt_print T (hooks_to_json J (ep_hooks (cp_ext plan)))))"
  using assms by (auto simp: spawn_record_def Let_def write_state_def)

lemma spawn_clone_success:
  assumes "spawn_clone J T k cid bundle plan comm ext_pid destroy s = (s', Ok pid)" "ss_dir s = Some c"
  shows "\<exists>c'. ss_dir s' = Some c' \<and> cd_state c' = Some (state_text T cid pid bundle ''created'' comm) \<and>
    cd_pid c' = Some (dec_int pid) \<and> ss_init s' = Some pid \<and> cd_fifo c' = cd_fifo c \<and>
    cd_hooks c' = (if hooks_is_empty (ep_hooks (cp_ext plan)) then cd_hooks c
                   else Some (jt_print T (hooks_to_json J (ep_hooks (cp_ext plan)))))"
proof -
  from assms(1) obtain init s1 where
    run: "spawn_record J T k cid bundle plan comm ext_pid destroy init (s1\<lparr>ss_init := Some init\<rparr>) = (s', Ok pid)"
    and "ss_dir s1 = ss_dir s"
    by (fastforce simp: spawn_clone_def Let_def split: prod.splits)
  with assms(2) spawn_record_success [OF run, of c] show ?thesis by auto
qed

lemma spawn_success:
  assumes "spawn_container_init J T k cid bundle spec ext_pid ext console no_pivot d source destroy s = (s', Ok pid)"
    and "ss_dir s = Some c"
  shows "\<exists>c' comm. ss_dir s' = Some c' \<and> cd_state c' = Some (state_text T cid pid bundle ''created'' comm) \<and>
    cd_pid c' = Some (dec_int pid) \<and> ss_init s' = Some pid \<and> cd_fifo c' \<and>
    cd_hooks c' = (if hooks_is_empty (ep_hooks ext) then cd_hooks c
                   else Some (jt_print T (hooks_to_json J (ep_hooks ext))))"
proof -
  let ?comm = "and_then (case sp_args spec of [] \<Rightarrow> None | a # _ \<Rightarrow> Some a) file_name"
  let ?s1 = "\<lambda>overlay. case overlay of None \<Rightarrow> on_dir (\<lambda>c. c\<lparr>cd_fifo := True\<rparr>) (on_dir (\<lambda>c. c\<lparr>cd_fifo := False\<rparr>) s)
      | Some (m :: string, t) \<Rightarrow> on_dir (\<lambda>c. c\<lparr>cd_overlay := Some t\<rparr>)
          (on_dir (\<lambda>c. c\<lparr>cd_fifo := True\<rparr>) (on_dir (\<lambda>c. c\<lparr>cd_fifo := False\<rparr>) s))"
  from assms(1) obtain overlay plan0 where run:
      "spawn_clone J T k cid bundle (plan0\<lparr>cp_ext := ext, cp_console_socket := console, cp_no_pivot := no_pivot\<rparr>)
        ?comm ext_pid destroy (?s1 overlay) = (s', Ok pid)"
    unfolding spawn_container_init_def Let_def guarded_Ok by blast
  have "\<exists>c1. ss_dir (?s1 overlay) = Some c1 \<and> cd_fifo c1 \<and> cd_hooks c1 = cd_hooks c"
    using assms(2) by (auto split: option.split)
  with spawn_clone_success [OF run] show ?thesis by fastforce
qed

lemma create_result:
  assumes "cmd_create J T ce k cid ext_pid ext console no_pivot d s = (s', Ok pid)"
  shows "ss_dir s = None \<and> (\<exists>c bundle comm. ss_dir s' = Some c \<and> ss_init s' = Some pid \<and>
    cd_state c = Some (state_text T cid pid bundle ''created'' comm) \<and> cd_pid c = Some (dec_int pid) \<and> cd_fifo c \<and>
    cd_hooks c = (if hooks_is_empty (ep_hooks ext) then None else Some (jt_print T (hooks_to_json J (ep_hooks ext)))))"
proof -
  from assms obtain b spec where absent: "ss_dir s = None"
    and run: "spawn_container_init J T k cid b spec ext_pid ext console no_pivot d Bundle_Configured True
       (s\<lparr>ss_dir := Some empty_cdir\<rparr>) = (s', Ok pid)"
    by (auto simp: cmd_create_def split: if_splits)
  from spawn_success [OF run] absent show ?thesis by (fastforce simp: empty_cdir_def)
qed

text \<open>
  C7: A successful create leaves exactly the files the later commands rely on: the state text with
  the status \<^verbatim>\<open>created\<close> and the pid of the live init, that pid in the pid file, the fifo start will
  open, and the hooks file when and only when a hook is configured.
\<close>
theorem create_success:
  assumes "cmd_create J T ce k cid ext_pid ext console no_pivot d s = (s', Ok pid)"
  shows "ss_dir s = None \<and> (\<exists>c bundle comm. ss_dir s' = Some c \<and> ss_init s' = Some pid \<and>
    cd_state c = Some (state_text T cid pid bundle ''created'' comm) \<and> cd_pid c = Some (dec_int pid) \<and> cd_fifo c \<and>
    cd_hooks c = (if hooks_is_empty (ep_hooks ext) then None else Some (jt_print T (hooks_to_json J (ep_hooks ext)))))"
  by (rule create_result [OF assms])

section \<open>Failure\<close>

text \<open>The calls whose error paths only return: when none of them fails, a failure is cleaned up.\<close>

definition bare_calls_ok :: "spawn_env \<Rightarrow> deadline \<Rightarrow> bool" where
  "bare_calls_ok k d \<longleftrightarrow>
     (\<forall>r \<in> {pe_mkfifo k, pe_chmod k, pe_open_fifo k, pe_open_err k, pe_sync_pipe k, pe_openpty k, pe_relay_pipe k,
        pe_idmap k, pe_send_pty k, pe_uid_map k, pe_gid_map k, pe_sync k, pe_write_pid k, pe_write_ext_pid k,
        pe_write_creating k}. r = Ok ()) \<and>
     pe_relay_pid k \<noteq> None \<and> (\<forall>a. \<exists>p. pe_clone3 k a = Inr p) \<and> NUL \<notin> set (pe_root k) \<and>
     deadline_check d (pe_now k) ''create'' = Ok ()"

lemma when_io_ok: "r = Ok () \<Longrightarrow> when_io b r = Ok ()"
  by (simp add: when_io_def)

lemma clone_init_ok: "(\<forall>a. \<exists>p. clone3 a = Inr p) \<Longrightarrow> \<exists>p. clone_init clone3 f fd = Ok p"
  by (drule spec [of _ "build_clone_args f fd"]) (auto simp: clone_init_def)

lemma nul_check_join: "NUL \<notin> set r \<Longrightarrow> NUL \<notin> set f \<Longrightarrow> nul_check msg (path_join r f) = Ok ()"
  by (simp add: nul_check_def path_join_def)

lemma cleanup_destroys [simp]:
  "ok \<Longrightarrow> ss_dir (cleanup_failed_spawn T ok cid b True s) = None"
  "ss_init (cleanup_failed_spawn T ok cid b destroy s) = ss_init s"
  by (simp_all add: cleanup_failed_spawn_def Let_def)

definition torn_down :: "bool \<Rightarrow> spawn_result \<Rightarrow> bool" where
  "torn_down destroy r \<longleftrightarrow> (\<forall>e. snd r = Inl e \<longrightarrow> ss_init (fst r) = None \<and> (destroy \<longrightarrow> ss_dir (fst r) = None))"

lemma torn_down_keep: "r = Inr a \<Longrightarrow> torn_down destroy (f a) \<Longrightarrow> torn_down destroy (guarded keep r s f)"
  by simp

lemma torn_down_clean:
  "(destroy \<longrightarrow> ss_dir (cl s) = None) \<Longrightarrow> ss_init (cl s) = None \<Longrightarrow> (\<And>a. torn_down destroy (f a)) \<Longrightarrow>
     torn_down destroy (guarded cl r s f)"
  by (cases r) (simp_all add: torn_down_def)

lemma torn_down_Ok: "torn_down destroy (s, Inr a)"
  by (simp add: torn_down_def)

lemma record_torn_down:
  assumes ok: "bare_calls_ok k d"
  shows "torn_down (destroy \<and> pe_destroy_ok k) (spawn_record J T k cid b plan comm ext_pid destroy init s)"
  unfolding spawn_record_def Let_def
  by (intro torn_down_keep [where a = "()"] torn_down_clean torn_down_Ok)
    (use ok in \<open>simp_all add: bare_calls_ok_def when_io_ok\<close>)

lemma clone_torn_down:
  assumes ok: "bare_calls_ok k d"
  shows "torn_down (destroy \<and> pe_destroy_ok k) (spawn_clone J T k cid b plan comm ext_pid destroy s)"
proof -
  obtain p c where p: "clone_init (pe_clone3 k) (ucast (cp_clone_flags plan)) (pe_cgroup_fd k) = Inr (p, c)"
    using ok clone_init_ok [of "pe_clone3 k"] by (fastforce simp: bare_calls_ok_def)
  obtain q where q: "pe_relay_pid k = Some q" using ok by (auto simp: bare_calls_ok_def)
  show ?thesis
    unfolding spawn_clone_def Let_def p guarded.simps prod.case q ok_or.simps if_distrib [of "\<lambda>x. guarded _ x _ _"]
    by (intro torn_down_keep [where a = "()"])
      (use ok in \<open>simp_all add: bare_calls_ok_def when_io_ok record_torn_down [OF ok]\<close>)
qed

lemma spawn_torn_down:
  assumes ok: "bare_calls_ok k d" and "ss_init s = None"
  shows "torn_down (destroy \<and> pe_destroy_ok k) (spawn_container_init J T k cid b spec ext_pid ext console no_pivot d source destroy s)"
proof -
  have nul: "nul_check m (path_join (pe_root k) ''init.fifo'') = Ok ()"
    "nul_check m (path_join (pe_root k) ''child.err'') = Ok ()" for m
    using ok by (auto intro!: nul_check_join simp: bare_calls_ok_def)
  show ?thesis
    unfolding spawn_container_init_def Let_def nul guarded.simps
    apply (intro torn_down_keep [where a = "()"] torn_down_clean clone_torn_down [OF ok])
    using ok assms(2) by (auto simp: bare_calls_ok_def when_io_ok split: option.splits)
qed

lemma create_failure_cases:
  assumes "cmd_create J T ce k cid ext_pid ext console no_pivot d \<lparr>ss_dir = None, ss_init = None\<rparr> = (s', Inl e)"
  obtains "s' = \<lparr>ss_dir = None, ss_init = None\<rparr>"
  | b spec where "spawn_container_init J T k cid b spec ext_pid ext console no_pivot d Bundle_Configured True
         \<lparr>ss_dir = Some empty_cdir, ss_init = None\<rparr> = (s', Inl e)"
  using assms by (auto simp: cmd_create_def guarded_Err split: if_splits)

lemma failed_create_cleaned:
  assumes "cmd_create J T ce k cid ext_pid ext console no_pivot d \<lparr>ss_dir = None, ss_init = None\<rparr> = (s', Inl e)"
    and ok: "bare_calls_ok k d"
  shows "ss_init s' = None \<and> (pe_destroy_ok k \<longrightarrow> ss_dir s' = None)"
  using assms(1)
proof (cases rule: create_failure_cases)
  case (2 b spec)
  have "torn_down (True \<and> pe_destroy_ok k) (spawn_container_init J T k cid b spec ext_pid ext console no_pivot d
      Bundle_Configured True \<lparr>ss_dir = Some empty_cdir, ss_init = None\<rparr>)"
    by (rule spawn_torn_down [OF ok]) simp
  with 2 show ?thesis by (simp add: torn_down_def)
qed simp

lemma create_refused:
  assumes "ss_dir s \<noteq> None"
  shows "\<exists>e. cmd_create J T ce k cid x ext y z d s = (s, Inl e)"
  using assms by (cases "cmd_create J T ce k cid x ext y z d s"; cases "snd (cmd_create J T ce k cid x ext y z d s)")
    (auto simp: cmd_create_def guarded_Err split: if_splits)

text \<open>
  C8: What a failed create leaves behind. When none of the calls without a clean-up closure fails,
  every failure leaves no init, and it removes the directory again if the removal itself succeeds.
  Nothing is promised after the failure of one of those bare calls (the deadline check after the
  hooks, the opening of the fifo, the pipes, the clone, the id maps, the pid file, the first state
  write). Whenever the directory stays, every later create of the same identifier is refused and
  changes nothing, until somebody deletes it.
\<close>
theorem failed_create:
  assumes "cmd_create J T ce k cid ext_pid ext console no_pivot d \<lparr>ss_dir = None, ss_init = None\<rparr> = (s', Inl e)"
  shows "(bare_calls_ok k d \<longrightarrow> ss_init s' = None \<and> (pe_destroy_ok k \<longrightarrow> ss_dir s' = None)) \<and>
    (ss_dir s' \<noteq> None \<longrightarrow>
       (\<forall>ce' k' x ext' y z d'. \<exists>e'. cmd_create J T ce' k' cid x ext' y z d' s' = (s', Inl e')))"
  using failed_create_cleaned [OF assms] create_refused by blast

text \<open>An environment in which everything succeeds at time 9.\<close>

definition fine_env :: spawn_env where
  "fine_env = \<lparr>pe_root = ''/run/rsrun/x'', pe_mkfifo = Ok (), pe_chmod = Ok (), pe_overlay = Ok None,
     pe_write_overlay = Ok (), pe_open_fifo = Ok (), pe_open_err = Ok (), pe_sync_pipe = Ok (), pe_cgroup_dir = Ok (),
     pe_attach = Ok (), pe_runtime_hooks = Ok (), pe_prestart_hooks = Ok (), pe_now = 9, pe_openpty = Ok (),
     pe_relay_pipe = Ok (), pe_idmap = Ok (), pe_cgroup_fd = None, pe_clone3 = (\<lambda>_. Inr 7), pe_send_pty = Ok (),
     pe_uid_map = Ok (), pe_gid_map = Ok (), pe_sync = Ok (), pe_relay_pid = Some 8, pe_write_pid = Ok (),
     pe_write_ext_pid = Ok (), pe_write_creating = Ok (), pe_scheduler = Ok (), pe_write_hooks = Ok (),
     pe_write_created = Ok (), pe_destroy_ok = True\<rparr>"

definition sample_create :: "jval create_env" where
  "sample_create = \<lparr>ce_bundle = Ok ''/b'', ce_spec = Ok (sample_spec\<lparr>sp_namespaces := []\<rparr>), ce_now = 1,
     ce_ns = (\<lambda>_. Inl 2), ce_ensure = Ok ()\<rparr>"

lemma sample_create_run:
  "\<exists>r. cmd_create J T sample_create fine_env ''x'' False ext_default None False d \<lparr>ss_dir = None, ss_init = None\<rparr> = r \<and>
     (d = Some 5 \<longrightarrow> ss_dir (fst r) \<noteq> None \<and> (\<exists>e. snd r = Inl e)) \<and> (d = None \<longrightarrow> snd r = Ok 7)"
  by (simp add: cmd_create_def sample_create_def fine_env_def deadline_check_def spawn_container_init_def
      from_spec_def sample_spec_def cstr_def compile_sysctl_def sysctl_path_def Let_def when_io_def nul_check_def
      path_join_def is_absolute_def ext_default_def no_hooks_def spawn_clone_def clone_init_def spawn_record_def
      hooks_is_empty_def)

theorem create_success_witness:
  "\<exists>s'. cmd_create jv escape_text sample_create fine_env ''x'' False ext_default None False None
      \<lparr>ss_dir = None, ss_init = None\<rparr> = (s', Ok 7) \<and> ss_init s' = Some 7"
proof -
  obtain s' where run: "cmd_create jv escape_text sample_create fine_env ''x'' False ext_default None False None
      \<lparr>ss_dir = None, ss_init = None\<rparr> = (s', Ok 7)"
    using sample_create_run [of jv escape_text None] by (metis prod.collapse)
  from create_success [OF run] run show ?thesis by blast
qed

theorem failed_create_witness:
  "\<exists>s' e. cmd_create jv escape_text sample_create fine_env ''x'' False ext_default None False (Some 5)
      \<lparr>ss_dir = None, ss_init = None\<rparr> = (s', Inl e) \<and> ss_dir s' \<noteq> None \<and>
     (\<exists>e'. cmd_create jv escape_text sample_create fine_env ''x'' False ext_default None False None s' = (s', Inl e'))"
proof -
  obtain s' e where run: "cmd_create jv escape_text sample_create fine_env ''x'' False ext_default None False (Some 5)
      \<lparr>ss_dir = None, ss_init = None\<rparr> = (s', Inl e)" and left: "ss_dir s' \<noteq> None"
    using sample_create_run [of jv escape_text "Some 5"] by (metis prod.collapse)
  from failed_create [OF run] left have
    "\<exists>e'. cmd_create jv escape_text sample_create fine_env ''x'' False ext_default None False None s' = (s', Inl e')"
    by blast
  with run left show ?thesis by blast
qed

end
