(* ===== verification/Utf8.thy ===== *)
theory Utf8
  imports Rust_Str
begin

text \<open>
  Byte strings: \<^verbatim>\<open>str::from_utf8\<close> (the table of well-formed sequences of the Unicode standard) and
  the reading of bytes as text.
\<close>

definition utf8_cont :: "u8 \<Rightarrow> bool" where
  "utf8_cont b \<longleftrightarrow> 0x80 \<le> b \<and> b \<le> 0xBF"

fun utf8_ok :: "u8 list \<Rightarrow> bool" where
  "utf8_ok [] = True"
| "utf8_ok (b # bs) =
     (if b < 0x80 then utf8_ok bs
      else if 0xC2 \<le> b \<and> b \<le> 0xDF then
        (case bs of c1 # r \<Rightarrow> utf8_cont c1 \<and> utf8_ok r | _ \<Rightarrow> False)
      else if 0xE0 \<le> b \<and> b \<le> 0xEF then
        (case bs of c1 # c2 # r \<Rightarrow>
            (if b = 0xE0 then 0xA0 \<le> c1 \<and> c1 \<le> 0xBF else if b = 0xED then 0x80 \<le> c1 \<and> c1 \<le> 0x9F else utf8_cont c1) \<and>
            utf8_cont c2 \<and> utf8_ok r
         | _ \<Rightarrow> False)
      else if 0xF0 \<le> b \<and> b \<le> 0xF4 then
        (case bs of c1 # c2 # c3 # r \<Rightarrow>
            (if b = 0xF0 then 0x90 \<le> c1 \<and> c1 \<le> 0xBF else if b = 0xF4 then 0x80 \<le> c1 \<and> c1 \<le> 0x8F else utf8_cont c1) \<and>
            utf8_cont c2 \<and> utf8_cont c3 \<and> utf8_ok r
         | _ \<Rightarrow> False)
      else False)"

definition ascii_bytes :: "u8 list \<Rightarrow> bool" where
  "ascii_bytes bs \<longleftrightarrow> (\<forall>b \<in> set bs. b < 0x80)"

lemma utf8_ascii: "ascii_bytes bs \<Longrightarrow> utf8_ok bs"
  by (induction bs) (simp_all add: ascii_bytes_def)

definition byte_string :: "u8 list \<Rightarrow> string" where
  "byte_string bs = map (\<lambda>b. char_of (unat b)) bs"

lemma char_of_byte [simp]: "char_of (unat (of_char c :: u8)) = c"
proof -
  have "unat (of_char c :: u8) = of_char c"
    using nat_of_char_less_256 [of c]
    by (simp add: unat_of_nat take_bit_nat_eq_self flip: of_nat_of_char [of c, where ?'a = "8 word"])
  then show ?thesis by simp
qed

lemma byte_string_bytes [simp]: "byte_string (bytes_of s) = s"
  by (induction s) (simp_all add: byte_string_def)

end
