(* ===== verification/Fs_Tree.thy ===== *)
theory Fs_Tree
  imports Utf8 Ord_Map Paths "HOL-Library.Multiset" "HOL-Library.AList"
begin

text \<open>
  Directory trees, as \<^verbatim>\<open>rollout.rs\<close> walks them: the node types \<^verbatim>\<open>symlink_metadata\<close> tells apart,
  their permission bits, owner, device number and extended attributes. A directory lists its
  entries in the order \<^verbatim>\<open>read_dir\<close> returns them, which is arbitrary: the code sorts them by name.
\<close>

record meta =
  perm :: u32
  uid :: u32
  gid :: u32
  xattrs :: "(string \<times> u8 list) list"

datatype tree =
    Dir meta "(string \<times> tree) list"
  | File meta "u8 list"
  | Symlink meta string
  | Char_Device meta u32 u32
  | Block_Device meta u32 u32
  | Fifo meta
  | Socket meta

fun meta_of :: "tree \<Rightarrow> meta" where
  "meta_of (Dir m _) = m"
| "meta_of (File m _) = m"
| "meta_of (Symlink m _) = m"
| "meta_of (Char_Device m _ _) = m"
| "meta_of (Block_Device m _ _) = m"
| "meta_of (Fifo m) = m"
| "meta_of (Socket m) = m"

fun with_meta :: "meta \<Rightarrow> tree \<Rightarrow> tree" where
  "with_meta m (Dir _ es) = Dir m es"
| "with_meta m (File _ c) = File m c"
| "with_meta m (Symlink _ l) = Symlink m l"
| "with_meta m (Char_Device _ a b) = Char_Device m a b"
| "with_meta m (Block_Device _ a b) = Block_Device m a b"
| "with_meta m (Fifo _) = Fifo m"
| "with_meta m (Socket _) = Socket m"

fun is_dir :: "tree \<Rightarrow> bool" where
  "is_dir (Dir _ _) = True"
| "is_dir _ = False"

fun is_file :: "tree \<Rightarrow> bool" where
  "is_file (File _ _) = True"
| "is_file _ = False"

fun is_symlink :: "tree \<Rightarrow> bool" where
  "is_symlink (Symlink _ _) = True"
| "is_symlink _ = False"

fun is_socket :: "tree \<Rightarrow> bool" where
  "is_socket (Socket _) = True"
| "is_socket _ = False"

fun entries_of :: "tree \<Rightarrow> (string \<times> tree) list" where
  "entries_of (Dir _ es) = es"
| "entries_of _ = []"

text \<open>The node types in \<^verbatim>\<open>st_mode\<close>.\<close>

fun type_bits :: "tree \<Rightarrow> u32" where
  "type_bits (Dir _ _) = 0x4000"
| "type_bits (File _ _) = 0x8000"
| "type_bits (Symlink _ _) = 0xA000"
| "type_bits (Char_Device _ _ _) = 0x2000"
| "type_bits (Block_Device _ _ _) = 0x6000"
| "type_bits (Fifo _) = 0x1000"
| "type_bits (Socket _) = 0xC000"

definition st_mode :: "tree \<Rightarrow> u32" where
  "st_mode t = type_bits t OR perm (meta_of t)"

text \<open>\<^verbatim>\<open>makedev\<close> of the C library, and the number of bytes of a file.\<close>

definition makedev :: "u32 \<Rightarrow> u32 \<Rightarrow> u64" where
  "makedev ma mi =
     push_bit 32 (ucast (ma AND 0xFFFFF000)) OR push_bit 8 (ucast (ma AND 0xFFF)) OR
     push_bit 12 (ucast (mi AND 0xFFFFFF00)) OR ucast (mi AND 0xFF)"

fun rdev :: "tree \<Rightarrow> u64" where
  "rdev (Char_Device _ ma mi) = makedev ma mi"
| "rdev (Block_Device _ ma mi) = makedev ma mi"
| "rdev _ = 0"

text \<open>A directory in the order the code visits it.\<close>

abbreviation in_order :: "(string \<times> tree) list \<Rightarrow> (string \<times> tree) list" where
  "in_order es \<equiv> sort_key fst es"

lemma size_entry [termination_simp]: "(n, t) \<in> set es \<Longrightarrow> size t < Suc (size_list (size_prod (\<lambda>_. 0) size) es)"
  by (induction es) auto

lemma size_entry' [termination_simp]: "x \<in> set es \<Longrightarrow> size (snd x) < Suc (size_list (size_prod (\<lambda>_. 0) size) es)"
  by (cases x) (simp add: size_entry)

section \<open>Paths of a tree\<close>

fun lookup :: "tree \<Rightarrow> string list \<Rightarrow> tree option" where
  "lookup t [] = Some t"
| "lookup t (n # ns) = (case map_of (entries_of t) n of None \<Rightarrow> None | Some c \<Rightarrow> lookup c ns)"

text \<open>
  \<^verbatim>\<open>slash_path\<close> of a relative path, given by its names. Names are UTF-8, where \<^verbatim>\<open>to_string_lossy\<close>
  changes nothing.
\<close>

definition slash_path :: "string list \<Rightarrow> string" where
  "slash_path ns = join ''/'' ns"

text \<open>Names of a directory are distinct, not empty, without separator or NUL, and not a dot name.\<close>

definition name_ok :: "string \<Rightarrow> bool" where
  "name_ok n \<longleftrightarrow> n \<noteq> [] \<and> n \<noteq> ''.'' \<and> n \<noteq> ''..'' \<and> CHR ''/'' \<notin> set n \<and> CHR 0x00 \<notin> set n"

definition wf_meta :: "meta \<Rightarrow> bool" where
  "wf_meta m \<longleftrightarrow> distinct (map fst (xattrs m)) \<and> perm m AND 0xFFF = perm m"

fun wf_tree :: "tree \<Rightarrow> bool" where
  "wf_tree (Dir m es) \<longleftrightarrow>
     wf_meta m \<and> distinct (map fst es) \<and> (\<forall>x \<in> set es. name_ok (fst x) \<and> wf_tree (snd x))"
| "wf_tree t \<longleftrightarrow> wf_meta (meta_of t)"

lemma wf_tree_meta: "wf_tree t \<Longrightarrow> wf_meta (meta_of t)"
  by (cases t) simp_all

lemma wf_tree_child: "wf_tree t \<Longrightarrow> map_of (entries_of t) n = Some c \<Longrightarrow> wf_tree c"
  by (cases t) (auto dest!: map_of_SomeD)

text \<open>A node without its entries: what \<^verbatim>\<open>symlink_metadata\<close>, \<^verbatim>\<open>read\<close> and \<^verbatim>\<open>read_link\<close> tell of it.\<close>

fun bare :: "tree \<Rightarrow> tree" where
  "bare (Dir m es) = Dir m []"
| "bare t = t"

lemma bare_simps [simp]:
  "meta_of (bare t) = meta_of t" "is_dir (bare t) = is_dir t" "is_symlink (bare t) = is_symlink t"
  "is_socket (bare t) = is_socket t" "bare (bare t) = bare t" "bare (with_meta m t) = with_meta m (bare t)"
  by (cases t; simp)+

lemma with_meta_simps [simp]:
  "meta_of (with_meta m t) = m" "is_dir (with_meta m t) = is_dir t" "is_symlink (with_meta m t) = is_symlink t"
  "is_socket (with_meta m t) = is_socket t" "entries_of (with_meta m t) = entries_of t"
  "with_meta m (with_meta m' t) = with_meta m t"
  by (cases t; simp)+

lemma lookup_not_dir: "\<not> is_dir t \<Longrightarrow> lookup t p = (if p = [] then Some t else None)"
  by (cases t; cases p) simp_all

lemma wf_tree_lookup: "wf_tree t \<Longrightarrow> lookup t p = Some s \<Longrightarrow> wf_tree s"
  by (induction t p rule: lookup.induct) (auto split: option.splits dest: wf_tree_child)

lemma distinct_fst_sort [simp]: "distinct (map fst (in_order es)) = distinct (map fst es)"
  by (metis mset_eq_imp_distinct_iff mset_map mset_sort)

text \<open>The sort is stable, so the first entry of a name stays the first.\<close>

lemma map_of_sort [simp]: "map_of (in_order es) = map_of es"
proof
  fix k
  have first: "map_of xs k = map_of (filter (\<lambda>x. fst x = k) xs) k" for xs :: "(string \<times> tree) list"
    by (induction xs) auto
  show "map_of (in_order es) k = map_of es k"
    using first [of es] first [of "in_order es"] by (simp add: sort_key_stable)
qed

end
