(* ===== verification/Tree_Copy.thy ===== *)
theory Tree_Copy
  imports Fs_Tree
begin

text \<open>
  Snapshot copies of \<^verbatim>\<open>rollout.rs\<close>: cloning an upper directory, making a tree read-only, and
  measuring a tree against the snapshot limits. What the kernel decides (the errors of opening, reading
  and making the copy of a node, of \<^verbatim>\<open>chmod\<close>, \<^verbatim>\<open>lchown\<close> and \<^verbatim>\<open>lsetxattr\<close>, the permissions a \<^verbatim>\<open>chown\<close>
  leaves on a file) is the record \<open>host\<close>, an argument of the operations.
\<close>

record host =
  make_err :: "tree \<Rightarrow> nat option"
  chmod_err :: "meta \<Rightarrow> nat option"
  chown_err :: "u32 \<Rightarrow> u32 \<Rightarrow> nat option"
  chown_perm :: "u32 \<Rightarrow> u32"
  xattr_err :: "string \<Rightarrow> u8 list \<Rightarrow> nat option"
  me :: "u32 \<times> u32"

definition os_result :: "nat option \<Rightarrow> 'a \<Rightarrow> 'a io_result" where
  "os_result e a = (case e of None \<Rightarrow> Ok a | Some n \<Rightarrow> Err (OsError n) [])"

lemma os_result_Ok [simp]: "os_result e a = Inr b \<longleftrightarrow> e = None \<and> a = b"
  by (simp add: os_result_def split: option.split)

lemma os_result_None [simp]: "os_result None a = Ok a"
  by (simp add: os_result_def)

lemma rcollect_cong [fundef_cong]:
  "xs = ys \<Longrightarrow> (\<And>x. x \<in> set ys \<Longrightarrow> f x = g x) \<Longrightarrow> rcollect f xs = rcollect g ys"
  by (induction xs arbitrary: ys) auto

section \<open>Metadata\<close>

text \<open>
  \<^verbatim>\<open>list_xattrs\<close> skips the names that are empty or not UTF-8; \<^verbatim>\<open>lgetxattr_value\<close> reads an empty value
  as no value at all, so such an attribute is not copied.
\<close>

definition list_xattrs :: "meta \<Rightarrow> string list" where
  "list_xattrs m = filter (\<lambda>n. n \<noteq> [] \<and> utf8_ok (bytes_of n)) (map fst (xattrs m))"

definition lgetxattr_value :: "meta \<Rightarrow> string \<Rightarrow> u8 list option" where
  "lgetxattr_value m n = (case map_of (xattrs m) n of Some (b # bs) \<Rightarrow> Some (b # bs) | _ \<Rightarrow> None)"

definition set_xattr :: "host \<Rightarrow> string \<Rightarrow> u8 list \<Rightarrow> meta \<Rightarrow> meta io_result" where
  "set_xattr H n v m = os_result (xattr_err H n v) (m\<lparr>xattrs := AList.update n v (xattrs m)\<rparr>)"

fun set_xattrs :: "host \<Rightarrow> meta \<Rightarrow> string list \<Rightarrow> meta \<Rightarrow> meta io_result" where
  "set_xattrs H src [] m = Ok m"
| "set_xattrs H src (n # ns) m =
     (case lgetxattr_value src n of
        None \<Rightarrow> set_xattrs H src ns m
      | Some v \<Rightarrow> rbind (set_xattr H n v m) (set_xattrs H src ns))"

definition copy_xattrs :: "host \<Rightarrow> meta \<Rightarrow> meta \<Rightarrow> meta io_result" where
  "copy_xattrs H src m = set_xattrs H src (list_xattrs src) m"

text \<open>\<^verbatim>\<open>copy_owner\<close>: \<^verbatim>\<open>EPERM\<close> (1) is ignored; the kernel may change the mode of what it chowns.\<close>

definition copy_owner :: "host \<Rightarrow> (u32 \<Rightarrow> u32) \<Rightarrow> meta \<Rightarrow> meta \<Rightarrow> meta io_result" where
  "copy_owner H strip src m =
     (case chown_err H (uid src) (gid src) of
        None \<Rightarrow> Ok (m\<lparr>uid := uid src, gid := gid src, perm := strip (perm m)\<rparr>)
      | Some e \<Rightarrow> if e = 1 then Ok m else Err (OsError e) [])"

definition chmod :: "host \<Rightarrow> u32 \<Rightarrow> meta \<Rightarrow> meta io_result" where
  "chmod H mode m = os_result (chmod_err H m) (m\<lparr>perm := mode AND 0xFFF\<rparr>)"

definition copy_metadata :: "host \<Rightarrow> (u32 \<Rightarrow> u32) \<Rightarrow> meta \<Rightarrow> meta \<Rightarrow> meta io_result" where
  "copy_metadata H strip src m =
     rbind (chmod H (perm src AND 0xFFF) m) (\<lambda>m. rbind (copy_owner H strip src m) (copy_xattrs H src))"

definition fresh :: "host \<Rightarrow> u32 \<Rightarrow> meta" where
  "fresh H p = \<lparr>perm = p, uid = fst (me H), gid = snd (me H), xattrs = []\<rparr>"

section \<open>Cloning\<close>

text \<open>
  The calls that read a node and make its copy: \<^verbatim>\<open>create_dir\<close> and \<^verbatim>\<open>read_dir\<close>, \<^verbatim>\<open>open\<close>, \<^verbatim>\<open>create_new\<close> and
  the copying of a file, \<^verbatim>\<open>read_link\<close> and \<^verbatim>\<open>symlink\<close>, \<^verbatim>\<open>mkfifo\<close> or \<^verbatim>\<open>mknod\<close>. Any of them may fail.
\<close>

definition made :: "host \<Rightarrow> tree \<Rightarrow> 'a io_result \<Rightarrow> 'a io_result" where
  "made H t r = rbind (os_result (make_err H t) ()) (\<lambda>_. r)"

lemma made_Ok [simp]: "made H t r = Inr a \<longleftrightarrow> make_err H t = None \<and> r = Inr a"
  by (auto simp: made_def)

text \<open>
  \<^verbatim>\<open>clone_path\<close>: a socket is skipped (\<open>None\<close>, nothing is created), every other node becomes a new one
  that receives the metadata; a directory receives its own after its entries.
\<close>

fun clone_path :: "host \<Rightarrow> tree \<Rightarrow> tree option io_result" where
  "clone_path H (Dir m es) = made H (Dir m es)
     (rbind (rcollect (\<lambda>x. rbind (clone_path H (snd x)) (\<lambda>c. Ok (map_option (Pair (fst x)) c))) (in_order es)) (\<lambda>cs.
      rbind (copy_metadata H (\<lambda>p. p) m (fresh H 0x1FF)) (\<lambda>m'. Ok (Some (Dir m' (filter_map (\<lambda>c. c) cs))))))"
| "clone_path H (File m c) = made H (File m c)
     (rbind (copy_metadata H (chown_perm H) m (fresh H 0x1B6)) (\<lambda>m'. Ok (Some (File m' c))))"
| "clone_path H (Symlink m l) = made H (Symlink m l)
     (rbind (copy_xattrs H m (fresh H 0x1FF)) (\<lambda>m'. rbind (copy_owner H (\<lambda>p. p) m m') (\<lambda>m'. Ok (Some (Symlink m' l)))))"
| "clone_path H (Socket m) = Ok None"
| "clone_path H (Char_Device m ma mi) = made H (Char_Device m ma mi)
     (rbind (copy_metadata H (chown_perm H) m (fresh H (perm m))) (\<lambda>m'. Ok (Some (Char_Device m' ma mi))))"
| "clone_path H (Block_Device m ma mi) = made H (Block_Device m ma mi)
     (rbind (copy_metadata H (chown_perm H) m (fresh H (perm m))) (\<lambda>m'. Ok (Some (Block_Device m' ma mi))))"
| "clone_path H (Fifo m) = made H (Fifo m)
     (rbind (copy_metadata H (chown_perm H) m (fresh H (perm m))) (\<lambda>m'. Ok (Some (Fifo m'))))"

text \<open>\<^verbatim>\<open>clone_upperdir\<close>: the destination must not exist, the source must be a directory (\<^verbatim>\<open>ENOTDIR\<close> is 20).\<close>

definition clone_upperdir :: "host \<Rightarrow> string \<Rightarrow> bool \<Rightarrow> tree \<Rightarrow> tree io_result" where
  "clone_upperdir H dst dst_exists src =
     (if dst_exists then Err Other (''destination '' @ dst @ '' already exists'')
      else if \<not> is_dir src then Err (OsError 20) []
      else rbind (clone_path H src) (\<lambda>c. case c of Some t \<Rightarrow> Ok t | None \<Rightarrow> Err (OsError 20) []))"

section \<open>Read-only trees\<close>

text \<open>\<open>old\<close> is the node as it was read, before its entries changed.\<close>

definition readonly_meta :: "host \<Rightarrow> tree \<Rightarrow> tree \<Rightarrow> tree io_result" where
  "readonly_meta H old t =
     rbind (chmod H (st_mode old AND NOT 0x92) (meta_of t)) (\<lambda>m. Ok (with_meta m t))"

fun make_tree_readonly :: "host \<Rightarrow> tree \<Rightarrow> tree io_result" where
  "make_tree_readonly H (Dir m es) =
     rbind (rcollect (\<lambda>x.
         rbind (if is_dir (snd x) then make_tree_readonly H (snd x) else Ok (snd x)) (\<lambda>c.
         rbind (if is_symlink (snd x) then Ok c else readonly_meta H (snd x) c) (\<lambda>c. Ok (fst x, c)))) (in_order es)) (\<lambda>es'.
       readonly_meta H (Dir m es') (Dir m es'))"
| "make_tree_readonly H t = Err (OsError 20) []"

section \<open>Measuring\<close>

definition u64_max :: nat where
  "u64_max = 2 ^ 64 - 1"

definition sat_add :: "nat \<Rightarrow> nat \<Rightarrow> nat" where
  "sat_add a b = min (a + b) u64_max"

record stats =
  st_entries :: nat
  st_bytes :: nat

fun file_len :: "tree \<Rightarrow> nat" where
  "file_len (File _ c) = length c"
| "file_len _ = 0"

fun measure_upperdir_inner :: "tree \<Rightarrow> stats \<Rightarrow> stats" where
  "measure_upperdir_inner (Dir m es) st =
     fold (\<lambda>x st.
       measure_upperdir_inner (snd x)
         \<lparr>st_entries = sat_add (st_entries st) 1,
          st_bytes = (if is_file (snd x) then sat_add (st_bytes st) (file_len (snd x)) else st_bytes st)\<rparr>)
       (in_order es) st"
| "measure_upperdir_inner t st = st"

definition measure_upperdir :: "tree \<Rightarrow> stats io_result" where
  "measure_upperdir t =
     (if is_dir t then Ok (measure_upperdir_inner t \<lparr>st_entries = 0, st_bytes = 0\<rparr>) else Err (OsError 20) [])"

text \<open>\<^verbatim>\<open>snapshot_limit_env\<close>: the variable when it parses, else the default.\<close>

definition snapshot_limit_env :: "string option \<Rightarrow> nat \<Rightarrow> nat" where
  "snapshot_limit_env var d = unwrap_or (and_then var (parse_unsigned 10 (2 ^ 64))) d"

definition enforce_snapshot_limits :: "string option \<Rightarrow> string option \<Rightarrow> tree \<Rightarrow> stats io_result" where
  "enforce_snapshot_limits env_bytes env_entries t =
     rbind (measure_upperdir t) (\<lambda>st.
       let max_bytes = snapshot_limit_env env_bytes (10 * 1024 * 1024 * 1024);
           max_entries = snapshot_limit_env env_entries 500000
       in if 0 < max_bytes \<and> max_bytes < st_bytes st then
            Err Other (''snapshot upperdir has '' @ dec_nat (st_bytes st) @ '' bytes, exceeds limit '' @ dec_nat max_bytes)
          else if 0 < max_entries \<and> max_entries < st_entries st then
            Err Other (''snapshot upperdir has '' @ dec_nat (st_entries st) @ '' entries, exceeds limit '' @ dec_nat max_entries)
          else Ok st)"

section \<open>The copy, path by path\<close>

definition privileged :: "host \<Rightarrow> bool" where
  "privileged H \<longleftrightarrow> (\<forall>t. make_err H t = None) \<and> (\<forall>m. chmod_err H m = None) \<and> (\<forall>u g. chown_err H u g = None) \<and> (\<forall>n v. xattr_err H n v = None)"

definition kept_xattrs :: "meta \<Rightarrow> (string \<times> u8 list) list" where
  "kept_xattrs m = filter (\<lambda>(n, v). n \<noteq> [] \<and> utf8_ok (bytes_of n) \<and> v \<noteq> []) (xattrs m)"

definition clone_meta :: "host \<Rightarrow> tree \<Rightarrow> meta" where
  "clone_meta H t =
     \<lparr>perm = (if is_dir t then perm (meta_of t) else if is_symlink t then 0x1FF else chown_perm H (perm (meta_of t))),
      uid = uid (meta_of t), gid = gid (meta_of t), xattrs = kept_xattrs (meta_of t)\<rparr>"

lemma update_absent: "n \<notin> fst ` set al \<Longrightarrow> AList.update n v al = al @ [(n, v)]"
  by (induction al) auto

lemma set_xattrs_privileged:
  assumes "privileged H" "distinct ns" "fst ` set (xattrs m) \<inter> set ns = {}"
  shows "set_xattrs H src ns m =
    Ok (m\<lparr>xattrs := xattrs m @ filter_map (\<lambda>n. map_option (Pair n) (lgetxattr_value src n)) ns\<rparr>)"
  using assms(2,3)
proof (induction ns arbitrary: m)
  case (Cons n ns)
  show ?case
  proof (cases "lgetxattr_value src n")
    case (Some v)
    have "set_xattr H n v m = Ok (m\<lparr>xattrs := xattrs m @ [(n, v)]\<rparr>)"
      using assms(1) Cons.prems by (simp add: set_xattr_def privileged_def update_absent)
    with Some Cons show ?thesis by auto
  qed (use Cons in auto)
qed simp

lemma filter_map_filter: "filter_map f (filter P xs) = filter_map (\<lambda>x. if P x then f x else None) xs"
  by (induction xs) (auto split: option.splits)

lemma filter_map_map: "filter_map f (map g xs) = filter_map (\<lambda>x. f (g x)) xs"
  by (induction xs) (auto split: option.splits)

lemma filter_map_guard: "filter_map (\<lambda>x. if P x then Some x else None) xs = filter P xs"
  by (induction xs) auto

lemma xattr_names_values:
  assumes "distinct (map fst (xattrs m))"
  shows "filter_map (\<lambda>n. map_option (Pair n) (lgetxattr_value m n)) (list_xattrs m) = kept_xattrs m"
proof -
  have "filter_map (\<lambda>n. map_option (Pair n) (lgetxattr_value m n)) (list_xattrs m) =
    filter_map (\<lambda>x. if fst x \<noteq> [] \<and> utf8_ok (bytes_of (fst x)) then map_option (Pair (fst x)) (lgetxattr_value m (fst x)) else None) (xattrs m)"
    by (simp add: list_xattrs_def filter_map_filter filter_map_map)
  also have "\<dots> = filter_map (\<lambda>x. if (case x of (n, v) \<Rightarrow> n \<noteq> [] \<and> utf8_ok (bytes_of n) \<and> v \<noteq> []) then Some x else None) (xattrs m)"
  proof (rule filter_map_cong)
    fix x assume "x \<in> set (xattrs m)"
    with assms have "map_of (xattrs m) (fst x) = Some (snd x)" by simp
    then show "(if fst x \<noteq> [] \<and> utf8_ok (bytes_of (fst x)) then map_option (Pair (fst x)) (lgetxattr_value m (fst x)) else None) =
      (if (case x of (n, v) \<Rightarrow> n \<noteq> [] \<and> utf8_ok (bytes_of n) \<and> v \<noteq> []) then Some x else None)"
      by (cases x; cases "snd x") (simp_all add: lgetxattr_value_def)
  qed
  finally show ?thesis
    by (simp add: kept_xattrs_def filter_map_guard)
qed

lemma copy_xattrs_privileged:
  assumes "privileged H" "wf_meta src" "xattrs m = []"
  shows "copy_xattrs H src m = Ok (m\<lparr>xattrs := kept_xattrs src\<rparr>)"
  using set_xattrs_privileged [OF assms(1), of "list_xattrs src" m src] assms(2,3)
  by (simp add: copy_xattrs_def xattr_names_values wf_meta_def) (simp add: list_xattrs_def)

lemma copy_metadata_privileged:
  assumes "privileged H" "wf_meta src" "xattrs m = []"
  shows "copy_metadata H strip src m =
    Ok \<lparr>perm = strip (perm src), uid = uid src, gid = gid src, xattrs = kept_xattrs src\<rparr>"
proof -
  have p: "perm src AND 0xFFF = perm src"
    using assms(2) by (simp add: wf_meta_def)
  have "copy_metadata H strip src m = copy_xattrs H src (m\<lparr>uid := uid src, gid := gid src, perm := strip (perm src)\<rparr>)"
    using assms(1) by (simp add: copy_metadata_def chmod_def copy_owner_def privileged_def p)
  with assms show ?thesis by (simp add: copy_xattrs_privileged)
qed

lemma copy_metadata_fresh:
  "privileged H \<Longrightarrow> wf_meta src \<Longrightarrow> copy_metadata H strip src (fresh H p) =
    Ok \<lparr>perm = strip (perm src), uid = uid src, gid = gid src, xattrs = kept_xattrs src\<rparr>"
  by (rule copy_metadata_privileged) (simp_all add: fresh_def)

lemma copy_xattrs_fresh:
  "privileged H \<Longrightarrow> wf_meta src \<Longrightarrow> copy_xattrs H src (fresh H p) =
    Ok \<lparr>perm = p, uid = fst (me H), gid = snd (me H), xattrs = kept_xattrs src\<rparr>"
  by (subst copy_xattrs_privileged) (simp_all add: fresh_def)

lemma copy_owner_privileged:
  "privileged H \<Longrightarrow> copy_owner H strip src m = Ok (m\<lparr>uid := uid src, gid := gid src, perm := strip (perm m)\<rparr>)"
  by (simp add: copy_owner_def privileged_def)

lemma made_privileged: "privileged H \<Longrightarrow> made H t r = r"
  by (simp add: made_def privileged_def)

lemmas privileged_copies = copy_metadata_fresh copy_xattrs_fresh copy_owner_privileged made_privileged

lemma collect_entries:
  assumes "rcollect (\<lambda>x. rbind (f (snd x)) (\<lambda>c. Ok (map_option (Pair (fst x)) c))) xs = Ok cs" "distinct (map fst xs)"
  shows "case map_of xs n of None \<Rightarrow> map_of (filter_map (\<lambda>c. c) cs) n = None
    | Some c \<Rightarrow> f c = Ok (map_of (filter_map (\<lambda>c. c) cs) n)"
  using assms
proof (induction xs arbitrary: cs)
  case (Cons x xs)
  then obtain c cs' where c: "f (snd x) = Ok c" "cs = map_option (Pair (fst x)) c # cs'"
    and cs': "rcollect (\<lambda>x. rbind (f (snd x)) (\<lambda>c. Ok (map_option (Pair (fst x)) c))) xs = Ok cs'"
    by auto
  note IH = Cons.IH [OF cs']
  have absent: "map_of xs (fst x) = None"
    using Cons.prems(2) by (simp add: map_of_eq_None_iff)
  show ?case
  proof (cases "n = fst x")
    case True
    with absent IH Cons.prems(2) have "map_of (filter_map (\<lambda>c. c) cs') n = None" by simp
    with True c show ?thesis by (cases x; cases c) simp_all
  next
    case False
    with IH c Cons.prems(2) show ?thesis by (cases x; cases c; cases "map_of xs n") simp_all
  qed
qed simp

definition clone_of :: "host \<Rightarrow> tree \<Rightarrow> tree option" where
  "clone_of H s = (if is_socket s then None else Some (with_meta (clone_meta H s) (bare s)))"

lemma clone_path_node:
  assumes "privileged H" "wf_meta (meta_of t)" "clone_path H t = Ok c"
  shows "map_option bare c = clone_of H t"
  using assms by (cases t) (auto simp: clone_of_def clone_meta_def privileged_copies)

lemma clone_path_is_ok: "privileged H \<Longrightarrow> wf_tree t \<Longrightarrow> is_ok (clone_path H t)"
proof (induction H t rule: clone_path.induct)
  case (1 H m es)
  then have "is_ok (clone_path H (snd x))" if "x \<in> set es" for x
    using that by (cases x) fastforce
  then have "is_ok (rcollect (\<lambda>x. rbind (clone_path H (snd x)) (\<lambda>c. Ok (map_option (Pair (fst x)) c))) (in_order es))"
    unfolding rcollect_is_ok is_ok_rbind by (auto simp: is_ok_iff)
  moreover have "is_ok (copy_metadata H (\<lambda>p. p) m (fresh H 0x1FF))"
    using 1 by (subst copy_metadata_fresh) simp_all
  ultimately show ?case using 1(2) by (auto simp: is_ok_rbind is_ok_iff privileged_def)
qed (simp_all add: privileged_copies)

lemma clone_child:
  assumes "privileged H" "wf_tree t" "clone_path H t = Ok (Some t')"
  shows "case map_of (entries_of t) n of None \<Rightarrow> map_of (entries_of t') n = None
    | Some c \<Rightarrow> clone_path H c = Ok (map_of (entries_of t') n)"
proof (cases t)
  case (Dir m es)
  with assms(3) obtain cs m' where
    cs: "rcollect (\<lambda>x. rbind (clone_path H (snd x)) (\<lambda>c. Ok (map_option (Pair (fst x)) c))) (in_order es) = Ok cs"
    and t': "t' = Dir m' (filter_map (\<lambda>c. c) cs)"
    by auto
  from assms(2) Dir have d: "distinct (map fst es)" by simp
  from collect_entries [OF cs, of n] d show ?thesis unfolding Dir t' entries_of.simps by simp
qed (use assms(3) in auto)

lemma clone_lookup:
  assumes "privileged H" "wf_tree t" "clone_path H t = Ok (Some t')"
  shows "map_option bare (lookup t' p) = Option.bind (lookup t p) (clone_of H)"
  using assms(2,3)
proof (induction p arbitrary: t t')
  case Nil
  then show ?case using clone_path_node [OF assms(1) wf_tree_meta] by fastforce
next
  case (Cons n p)
  show ?case
  proof (cases "map_of (entries_of t) n")
    case None
    with clone_child [OF assms(1) Cons.prems, of n] show ?thesis by simp
  next
    case (Some c)
    with clone_child [OF assms(1) Cons.prems, of n]
    have c: "clone_path H c = Ok (map_of (entries_of t') n)" by simp
    have wf: "wf_tree c" by (rule wf_tree_child [OF Cons.prems(1) Some])
    show ?thesis
    proof (cases "map_of (entries_of t') n")
      case (Some c')
      with c wf Cons.IH [of c c'] \<open>map_of (entries_of t) n = Some c\<close> show ?thesis by simp
    next
      case None
      with clone_path_node [OF assms(1) wf_tree_meta [OF wf] c] have "is_socket c"
        by (simp add: clone_of_def split: if_splits)
      then show ?thesis
        using None \<open>map_of (entries_of t) n = Some c\<close>
        by (cases c; cases p) (simp_all add: clone_of_def)
    qed
  qed
qed

lemma clone_upperdir_ok:
  assumes "privileged H" "wf_tree (Dir m es)"
  obtains t' where "clone_path H (Dir m es) = Ok (Some t')" "clone_upperdir H dst False (Dir m es) = Ok t'"
proof -
  obtain c where c: "clone_path H (Dir m es) = Ok c"
    using clone_path_is_ok [OF assms] by (auto simp only: is_ok_iff)
  then obtain t' where t': "c = Some t'" by auto
  have "clone_upperdir H dst False (Dir m es) = Ok t'"
    by (simp only: clone_upperdir_def c t') simp
  with c t' that show thesis by blast
qed

text \<open>
  C25: A clone made with the privileges it needs succeeds on every well-formed tree, and at every path it
  holds the same node with the same content, target or device number, the same owner and the readable
  non-empty extended attributes; only sockets are missing, and the permissions of a node that is no
  directory are those a chown leaves.
\<close>

theorem clone_upperdir_faithful:
  assumes "privileged H" "wf_tree (Dir m es)"
  shows "\<exists>t'. clone_upperdir H dst False (Dir m es) = Ok t' \<and>
    (\<forall>p. map_option bare (lookup t' p) = Option.bind (lookup (Dir m es) p) (clone_of H))"
  using clone_upperdir_ok [OF assms] clone_lookup [OF assms] by metis

text \<open>
  Linux: \<^verbatim>\<open>chown\<close> clears the set-user-ID bit of what is no directory, and the set-group-ID bit when the
  group may execute it.
\<close>

definition linux_host :: host where
  "linux_host = \<lparr>make_err = \<lambda>_. None, chmod_err = \<lambda>_. None, chown_err = \<lambda>_ _. None, chown_perm = \<lambda>p. if p AND 8 = 0 then p AND 0x7FF else p AND 0x3FF,
     xattr_err = \<lambda>_ _. None, me = (0, 0)\<rparr>"

definition plain_meta :: "u32 \<Rightarrow> meta" where
  "plain_meta p = \<lparr>perm = p, uid = 0, gid = 0, xattrs = []\<rparr>"

definition sample_tree :: tree where
  "sample_tree = Dir (plain_meta 0x1ED)
     [(''su'', File (plain_meta 0x9ED) [1, 2]), (''log'', Socket (plain_meta 0x1FF)),
      (''etc'', Dir (plain_meta 0x1ED) [(''motd'', File (plain_meta 0x1A4) [3]), (''gone'', Char_Device (plain_meta 0) 0 0)])]"

lemma linux_privileged: "privileged linux_host"
  by (simp add: privileged_def linux_host_def)

lemma sample_wf: "wf_tree sample_tree"
  by (simp add: sample_tree_def plain_meta_def wf_meta_def name_ok_def)

theorem clone_upperdir_faithful_witness:
  "\<exists>t'. clone_upperdir linux_host ''/s'' False sample_tree = Ok t' \<and>
    (\<forall>p. map_option bare (lookup t' p) = Option.bind (lookup sample_tree p) (clone_of linux_host))"
  using clone_upperdir_faithful [OF linux_privileged sample_wf [unfolded sample_tree_def]] unfolding sample_tree_def by simp

text \<open>
  The clone sets the permissions before it changes the owner. On a kernel whose chown clears the
  set-user-ID bit, no regular file of a snapshot, fork or checkpoint keeps it.
\<close>

theorem clone_drops_setuid:
  assumes "privileged H" "wf_tree t" "\<And>p. chown_perm H p AND 0x800 = 0"
    and "clone_path H t = Ok (Some t')" "lookup t' p = Some (File m c)"
  shows "perm m AND 0x800 = 0"
proof -
  have "Option.bind (lookup t p) (clone_of H) = Some (File m c)"
    using clone_lookup [OF assms(1,2,4), of p] assms(5) by simp
  then obtain s where s: "clone_of H s = Some (File m c)"
    by (cases "lookup t p") simp_all
  then have "m = clone_meta H s \<and> \<not> is_dir s \<and> \<not> is_symlink s"
    by (cases s) (simp_all add: clone_of_def)
  then have "perm m = chown_perm H (perm (meta_of s))"
    by (simp add: clone_meta_def)
  with assms(3) show ?thesis by simp
qed

theorem clone_drops_setuid_witness:
  "clone_path linux_host (File (plain_meta 0x9ED) [1, 2]) = Ok (Some (File (plain_meta 0x1ED) [1, 2])) \<and>
   perm (plain_meta 0x1ED) AND 0x800 = 0"
proof
  have strip: "chown_perm linux_host p AND 0x800 = 0" for p
    by (simp add: linux_host_def and.assoc)
  show c: "clone_path linux_host (File (plain_meta 0x9ED) [1, 2]) = Ok (Some (File (plain_meta 0x1ED) [1, 2]))"
    by (simp add: copy_metadata_fresh linux_privileged wf_meta_def plain_meta_def kept_xattrs_def)
      (simp add: linux_host_def)
  from clone_drops_setuid [OF linux_privileged _ strip c, of "[]"]
  show "perm (plain_meta 0x1ED) AND 0x800 = 0"
    by (simp add: wf_meta_def plain_meta_def)
qed

section \<open>Read-only trees, path by path\<close>

definition readonly_of :: "tree \<Rightarrow> tree" where
  "readonly_of t =
     (if is_symlink t then bare t else with_meta (meta_of t\<lparr>perm := perm (meta_of t) AND 0xF6D\<rparr>) (bare t))"

lemma st_mode_mask: "(st_mode t AND NOT 0x92) AND 0xFFF = perm (meta_of t) AND 0xF6D"
  by (cases t) (simp_all add: st_mode_def and.assoc bit.conj_disj_distrib2)

lemma readonly_meta_privileged:
  "privileged H \<Longrightarrow> readonly_meta H old t = Ok (with_meta (meta_of t\<lparr>perm := perm (meta_of old) AND 0xF6D\<rparr>) t)"
  using st_mode_mask [of old] by (simp add: readonly_meta_def chmod_def privileged_def)

definition readonly_entry :: "host \<Rightarrow> tree \<Rightarrow> tree io_result" where
  "readonly_entry H t =
     rbind (if is_dir t then make_tree_readonly H t else Ok t) (\<lambda>c.
       if is_symlink t then Ok c else readonly_meta H t c)"

lemma make_tree_readonly_entries:
  "make_tree_readonly H (Dir m es) =
     rbind (rcollect (\<lambda>x. rbind (readonly_entry H (snd x)) (\<lambda>c. Ok (fst x, c))) (in_order es)) (\<lambda>es'.
       readonly_meta H (Dir m es') (Dir m es'))"
proof -
  have "rbind (rbind r f) g = rbind r (\<lambda>a. rbind (f a) g)" for r :: "tree io_result" and f :: "tree \<Rightarrow> tree io_result" and g :: "tree \<Rightarrow> (string \<times> tree) io_result"
    by (cases r) simp_all
  then show ?thesis by (simp add: readonly_entry_def del: make_tree_readonly.simps) simp
qed

text \<open>With the privileges, both are this function on trees.\<close>

fun readonly :: "tree \<Rightarrow> tree" where
  "readonly (Dir m es) = Dir (m\<lparr>perm := perm m AND 0xF6D\<rparr>) (map (\<lambda>x. (fst x, readonly (snd x))) (in_order es))"
| "readonly t = readonly_of t"

lemma readonly_dir: "is_dir (readonly t) = is_dir t"
  by (cases t) (simp_all add: readonly_of_def)

lemma make_tree_readonly_privileged:
  "privileged H \<Longrightarrow> is_dir t \<Longrightarrow> make_tree_readonly H t = Ok (readonly t)"
proof (induction H t rule: make_tree_readonly.induct)
  case (1 H m es)
  have entry: "readonly_entry H (snd x) = Ok (readonly (snd x))" if "x \<in> set es" for x
  proof (cases "is_dir (snd x)")
    case True
    with 1 that have "make_tree_readonly H (snd x) = Ok (readonly (snd x))" by simp
    with True 1(2) show ?thesis
      by (cases "snd x") (simp_all add: readonly_entry_def readonly_meta_privileged)
  next
    case False
    with 1(2) show ?thesis
      by (cases "snd x") (simp_all add: readonly_entry_def readonly_meta_privileged readonly_of_def)
  qed
  have "rcollect (\<lambda>x. rbind (readonly_entry H (snd x)) (\<lambda>c. Ok (fst x, c))) (in_order es) =
      Ok (map (\<lambda>x. (fst x, readonly (snd x))) (in_order es))"
    by (rule rcollect_total) (simp add: entry)
  with 1(2) show ?case
    by (simp only: make_tree_readonly_entries) (simp add: readonly_meta_privileged)
qed simp_all

lemma map_of_map_snd: "map_of (map (\<lambda>x. (fst x, f (snd x))) xs) k = map_option f (map_of xs k)"
  by (induction xs) auto

lemma readonly_lookup: "map_option bare (lookup (readonly t) p) = map_option readonly_of (lookup t p)"
proof (induction p arbitrary: t)
  case Nil
  then show ?case by (cases t) (simp_all add: readonly_of_def)
next
  case (Cons n p)
  show ?case
  proof (cases t)
    case (Dir m es)
    have "map_of (entries_of (readonly (Dir m es))) n = map_option readonly (map_of es n)"
      by (simp add: map_of_map_snd)
    with Cons Dir show ?thesis by (cases "map_of es n") simp_all
  qed (simp_all add: readonly_of_def)
qed

text \<open>
  Making a layer read-only succeeds with the privileges it needs, and changes nothing but permission bits:
  at every path of the tree it clears the three write bits and leaves the rest, except that it passes over
  symbolic links.
\<close>

theorem readonly_tree_exact:
  assumes "privileged H" "is_dir t"
  shows "\<exists>t'. make_tree_readonly H t = Ok t' \<and>
    (\<forall>p. map_option bare (lookup t' p) = map_option readonly_of (lookup t p))"
  using assms by (auto simp: make_tree_readonly_privileged readonly_lookup)

theorem readonly_tree_exact_witness:
  "\<exists>t'. make_tree_readonly linux_host sample_tree = Ok t' \<and>
    (\<forall>p. map_option bare (lookup t' p) = map_option readonly_of (lookup sample_tree p))"
  by (rule readonly_tree_exact [OF linux_privileged]) (simp add: sample_tree_def)

section \<open>What is measured\<close>

text \<open>The nodes below a directory and the bytes of the files among them, without saturation.\<close>

fun nodes :: "tree \<Rightarrow> nat" where
  "nodes (Dir m es) = (\<Sum>x\<leftarrow>es. Suc (nodes (snd x)))"
| "nodes t = 0"

fun total_bytes :: "tree \<Rightarrow> nat" where
  "total_bytes (Dir m es) = (\<Sum>x\<leftarrow>es. file_len (snd x) + total_bytes (snd x))"
| "total_bytes t = 0"

lemma sum_in_order: "(\<Sum>x\<leftarrow>in_order es. f x) = (\<Sum>x\<leftarrow>es. f x :: nat)"
  by (metis mset_map mset_sort sum_mset_sum_list)

lemma sat_add_assoc: "sat_add (sat_add a b) c = sat_add a (b + c)"
  by (simp add: sat_add_def)

lemma sat_add_zero: "a \<le> u64_max \<Longrightarrow> sat_add a 0 = a"
  by (simp add: sat_add_def)

lemma sat_add_le: "sat_add a b \<le> u64_max"
  by (simp add: sat_add_def)

definition bounded_stats :: "stats \<Rightarrow> bool" where
  "bounded_stats st \<longleftrightarrow> st_entries st \<le> u64_max \<and> st_bytes st \<le> u64_max"

definition add_stats :: "nat \<Rightarrow> nat \<Rightarrow> stats \<Rightarrow> stats" where
  "add_stats e b st = \<lparr>st_entries = sat_add (st_entries st) e, st_bytes = sat_add (st_bytes st) b\<rparr>"

lemma add_stats_simps [simp]:
  "bounded_stats (add_stats e b st)"
  "add_stats e' b' (add_stats e b st) = add_stats (e + e') (b + b') st"
  "bounded_stats st \<Longrightarrow> add_stats 0 0 st = st"
  by (simp_all add: bounded_stats_def add_stats_def sat_add_le sat_add_assoc sat_add_zero)

lemma fold_saturating:
  assumes "\<And>x st. x \<in> set xs \<Longrightarrow> bounded_stats st \<Longrightarrow> step x st = add_stats (f x) (g x) st" "bounded_stats st"
  shows "fold step xs st = add_stats (\<Sum>x\<leftarrow>xs. f x) (\<Sum>x\<leftarrow>xs. g x) st"
  using assms by (induction xs arbitrary: st) simp_all

lemma measure_inner: "bounded_stats st \<Longrightarrow> measure_upperdir_inner t st = add_stats (nodes t) (total_bytes t) st"
proof (induction t st rule: measure_upperdir_inner.induct)
  case (1 m es st)
  have step: "measure_upperdir_inner (snd x)
         \<lparr>st_entries = sat_add (st_entries s) 1,
          st_bytes = (if is_file (snd x) then sat_add (st_bytes s) (file_len (snd x)) else st_bytes s)\<rparr> =
       add_stats (Suc (nodes (snd x))) (file_len (snd x) + total_bytes (snd x)) s"
    if "x \<in> set es" "bounded_stats s" for x s
  proof -
    have len: "is_file (snd x) \<or> file_len (snd x) = 0" by (cases "snd x") simp_all
    have "\<lparr>st_entries = sat_add (st_entries s) 1,
       st_bytes = (if is_file (snd x) then sat_add (st_bytes s) (file_len (snd x)) else st_bytes s)\<rparr> =
      add_stats 1 (file_len (snd x)) s"
      using len that(2) by (auto simp: add_stats_def bounded_stats_def sat_add_zero)
    then show ?thesis using 1(1) [of x s] that(1) by simp
  qed
  show ?case
    unfolding measure_upperdir_inner.simps nodes.simps total_bytes.simps sum_in_order [of _ es, symmetric]
    by (rule fold_saturating) (use step 1(2) in simp_all)
qed (simp_all)

lemma limits_choice:
  "(if 0 < mb \<and> mb < st_bytes s then Err k a else if 0 < mx \<and> mx < st_entries s then Err k b else Ok s) = Ok st \<longleftrightarrow>
   st = s \<and> (mb = 0 \<or> st_bytes st \<le> mb) \<and> (mx = 0 \<or> st_entries st \<le> mx)"
  by auto

text \<open>
  The snapshot limits: the counters are the number of nodes and of file bytes below the directory, in any
  order of its entries, saturated at 64 bits; the tree is accepted exactly when each is within its limit or
  the limit is zero, and the stated counters are returned.
\<close>

theorem snapshot_limits_exact:
  "enforce_snapshot_limits eb ee (Dir m es) = Ok st \<longleftrightarrow>
     (let max_bytes = snapshot_limit_env eb 10737418240; max_entries = snapshot_limit_env ee 500000 in
      st = \<lparr>st_entries = min (nodes (Dir m es)) (2 ^ 64 - 1), st_bytes = min (total_bytes (Dir m es)) (2 ^ 64 - 1)\<rparr> \<and>
      (max_bytes = 0 \<or> st_bytes st \<le> max_bytes) \<and> (max_entries = 0 \<or> st_entries st \<le> max_entries))"
proof -
  have "measure_upperdir (Dir m es) =
    Ok \<lparr>st_entries = min (nodes (Dir m es)) (2 ^ 64 - 1), st_bytes = min (total_bytes (Dir m es)) (2 ^ 64 - 1)\<rparr>"
    unfolding measure_upperdir_def
    by (subst measure_inner) (simp_all add: bounded_stats_def add_stats_def sat_add_def u64_max_def del: nodes.simps total_bytes.simps)
  moreover have "10 * 1024 * 1024 * 1024 = (10737418240 :: nat)" by simp
  ultimately show ?thesis
    by (simp only: enforce_snapshot_limits_def rbind.simps Let_def limits_choice)
qed

end
