(* ===== verification/Layer_Store.thy ===== *)
theory Layer_Store
  imports Tree_Copy Json_Api
begin

text \<open>
  The content-addressed layer store of \<^verbatim>\<open>rollout.rs\<close>: the 64-bit FNV-1a digest of a tree, the short
  links, installing a layer, layer references and their JSON form, and resolving a reference.
\<close>

section \<open>Digests\<close>

definition hash_step :: "u64 \<Rightarrow> u8 \<Rightarrow> u64" where
  "hash_step h b = (h XOR ucast b) * 0x100000001b3"

definition hash_update :: "u64 \<Rightarrow> u8 list \<Rightarrow> u64" where
  "hash_update h bytes = foldl hash_step h bytes"

lemma hash_update_append [simp]: "hash_update h (xs @ ys) = hash_update (hash_update h xs) ys"
  by (simp add: hash_update_def)

lemma hash_update_Nil [simp]: "hash_update h [] = h"
  by (simp add: hash_update_def)

lemma hash_update_Cons: "hash_update h (b # bs) = hash_update (hash_step h b) bs"
  by (simp add: hash_update_def)

text \<open>\<^verbatim>\<open>to_le_bytes\<close>.\<close>

definition le_bytes :: "nat \<Rightarrow> 'a::len word \<Rightarrow> u8 list" where
  "le_bytes n w = map (\<lambda>i. ucast (drop_bit (8 * i) w)) [0 ..< n]"

definition hash_xattrs :: "meta \<Rightarrow> u64 \<Rightarrow> u64" where
  "hash_xattrs m h =
     fold (\<lambda>n h. let h = hash_update h (bytes_of n)
                 in (case lgetxattr_value m n of None \<Rightarrow> h | Some v \<Rightarrow> hash_update h v)) (list_xattrs m) h"

text \<open>
  One entry of the walk: its path, mode, owner and device number, then a tag and the content. A file
  is hashed in the pieces \<^verbatim>\<open>read\<close> returns, which is the same as at once.
\<close>

fun digest_tree_inner :: "string list \<Rightarrow> tree \<Rightarrow> u64 \<Rightarrow> u64" where
  "digest_tree_inner rel (Dir m es) h =
     fold (\<lambda>x h.
       let child_rel = rel @ [fst x];
           mt = meta_of (snd x);
           h = hash_update h (bytes_of (slash_path child_rel));
           h = hash_update h (le_bytes 4 (st_mode (snd x)));
           h = hash_update h (le_bytes 4 (uid mt));
           h = hash_update h (le_bytes 4 (gid mt));
           h = hash_update h (le_bytes 8 (rdev (snd x)));
           h = (case snd x of
                  File _ c \<Rightarrow> hash_update (hash_update h (bytes_of ''file'')) c
                | Dir _ _ \<Rightarrow> digest_tree_inner child_rel (snd x) (hash_update h (bytes_of ''dir''))
                | Symlink _ l \<Rightarrow> hash_update (hash_update h (bytes_of ''symlink'')) (bytes_of l)
                | _ \<Rightarrow> hash_update h (bytes_of ''special''))
       in hash_xattrs mt h) (in_order es) h"
| "digest_tree_inner rel t h = h"

definition digest_tree :: "tree \<Rightarrow> u64 io_result" where
  "digest_tree t = (if is_dir t then Ok (digest_tree_inner [] t 0xcbf29ce484222325) else Err (OsError 20) [])"

text \<open>\<^verbatim>\<open>{:016x}\<close>.\<close>

definition hex16 :: "u64 \<Rightarrow> string" where
  "hex16 w = (let s = show_base 16 (unat w) in replicate (16 - length s) CHR ''0'' @ s)"

definition layer_digest :: "u64 \<Rightarrow> string" where
  "layer_digest h = ''fnv64-'' @ hex16 h"

definition ascii_alnum :: "char \<Rightarrow> bool" where
  "ascii_alnum c = (let v = of_char c :: nat in (48 \<le> v \<and> v \<le> 57) \<or> (65 \<le> v \<and> v \<le> 90) \<or> (97 \<le> v \<and> v \<le> 122))"

definition short_layer_link :: "string \<Rightarrow> string" where
  "short_layer_link digest = take 26 (filter ascii_alnum digest)"

section \<open>References\<close>

record layer_ref =
  lr_backend :: string
  lr_format :: string
  lr_store :: string
  lr_path :: string
  lr_link :: "string option"
  lr_digest :: "string option"

definition layer_ref_json :: "'v json_api \<Rightarrow> layer_ref \<Rightarrow> 'v" where
  "layer_ref_json J l = jobj J
     [(''backend'', jstr J (lr_backend l)), (''format'', jstr J (lr_format l)), (''store'', jstr J (lr_store l)),
      (''path'', jstr J (lr_path l)), (''link'', jopt J (jstr J) (lr_link l)), (''digest'', jopt J (jstr J) (lr_digest l))]"

definition layer_string :: "'v json_api \<Rightarrow> 'v \<Rightarrow> string \<Rightarrow> string io_result" where
  "layer_string J v key = ok_or (get_str J v key) (IoError Other (''layer metadata missing '' @ key))"

definition layer_ref_from_json :: "'v json_api \<Rightarrow> 'v \<Rightarrow> layer_ref io_result" where
  "layer_ref_from_json J v =
     rbind (layer_string J v ''backend'') (\<lambda>b.
     rbind (layer_string J v ''format'') (\<lambda>f.
     rbind (layer_string J v ''store'') (\<lambda>s.
     rbind (layer_string J v ''path'') (\<lambda>p.
       Ok \<lparr>lr_backend = b, lr_format = f, lr_store = s, lr_path = p,
           lr_link = get_str J v ''link'', lr_digest = get_str J v ''digest''\<rparr>))))"

definition layer_store_root :: "string \<Rightarrow> string" where
  "layer_store_root runtime_root = path_join runtime_root ''.layers''"

definition resolve_layer_ref :: "string \<Rightarrow> layer_ref \<Rightarrow> string io_result" where
  "resolve_layer_ref runtime_root l =
     (if lr_backend l \<noteq> ''overlayfs'' then Err Other (''unsupported layer backend '' @ lr_backend l)
      else if lr_format l \<noteq> ''overlay-upperdir'' \<and> lr_format l \<noteq> ''flattened-rootfs'' \<or>
              lr_store l \<noteq> ''local-directory'' \<and> lr_store l \<noteq> ''overlay2-directory'' then
        Err Other (''unsupported layer format/store '' @ lr_format l @ ''/'' @ lr_store l)
      else if lr_store l = ''local-directory'' then Ok (lr_path l)
      else case lr_link l of
          Some link \<Rightarrow> Ok (path_join (path_join (layer_store_root runtime_root) ''l'') link)
        | None \<Rightarrow> Ok (path_join (lr_path l) ''diff''))"

section \<open>Installing a layer\<close>

text \<open>
  The store: the \<^verbatim>\<open>diff\<close> tree and the \<^verbatim>\<open>link\<close>, \<^verbatim>\<open>lower\<close> and \<^verbatim>\<open>metadata.json\<close> files of every layer directory,
  by digest, and the links of \<^verbatim>\<open>l/\<close> with the digest each points to.
\<close>

record layer_dir =
  ld_diff :: tree
  ld_link :: string
  ld_lower :: "string option"
  ld_format :: string

record store =
  st_layers :: "string \<Rightarrow> layer_dir option"
  st_links :: "string \<Rightarrow> string option"

text \<open>\<^verbatim>\<open>link_path.exists()\<close> follows the link.\<close>

definition link_exists :: "store \<Rightarrow> string \<Rightarrow> bool" where
  "link_exists S link = (case st_links S link of None \<Rightarrow> False | Some d \<Rightarrow> st_layers S d \<noteq> None)"

definition add_link :: "string \<Rightarrow> string \<Rightarrow> store \<Rightarrow> store io_result" where
  "add_link link digest S =
     (if link_exists S link then Ok S
      else case st_links S link of
          Some _ \<Rightarrow> Err (OsError 17) []
        | None \<Rightarrow> Ok (S\<lparr>st_links := (st_links S)(link \<mapsto> digest)\<rparr>))"

definition build_layer :: "host \<Rightarrow> string \<Rightarrow> string option \<Rightarrow> string \<Rightarrow> tree \<Rightarrow> layer_dir io_result" where
  "build_layer H format parent digest src =
     rbind (clone_upperdir H ''diff'' False src) (\<lambda>t.
     rbind (make_tree_readonly H t) (\<lambda>t.
       Ok \<lparr>ld_diff = t, ld_link = short_layer_link digest, ld_lower = parent, ld_format = format\<rparr>))"

definition installed_ref :: "string \<Rightarrow> string \<Rightarrow> string \<Rightarrow> layer_ref" where
  "installed_ref runtime_root format digest =
     \<lparr>lr_backend = ''overlayfs'', lr_format = format, lr_store = ''overlay2-directory'',
      lr_path = path_join (path_join (layer_store_root runtime_root) ''layers'') digest,
      lr_link = Some (short_layer_link digest), lr_digest = Some digest\<rparr>"

definition install_overlay2_layer_as ::
  "host \<Rightarrow> string \<Rightarrow> string \<Rightarrow> string option \<Rightarrow> tree \<Rightarrow> store \<Rightarrow> (layer_ref \<times> store) io_result" where
  "install_overlay2_layer_as H runtime_root format parent src S =
     rbind (digest_tree src) (\<lambda>h.
     let digest = layer_digest h in
     rbind (if st_layers S digest \<noteq> None then Ok S
            else rbind (build_layer H format parent digest src) (\<lambda>l.
              Ok (S\<lparr>st_layers := (st_layers S)(digest \<mapsto> l)\<rparr>))) (\<lambda>S.
     rbind (add_link (short_layer_link digest) digest S) (\<lambda>S.
       Ok (installed_ref runtime_root format digest, S))))"

definition install_overlay2_layer ::
  "host \<Rightarrow> string \<Rightarrow> string option \<Rightarrow> tree \<Rightarrow> store \<Rightarrow> (layer_ref \<times> store) io_result" where
  "install_overlay2_layer H runtime_root parent = install_overlay2_layer_as H runtime_root ''overlay-upperdir'' parent"

section \<open>References round trip\<close>

text \<open>
  A layer reference written into checkpoint metadata is read back unchanged, for every JSON library
  that reads back what it builds.
\<close>

theorem layer_ref_roundtrip:
  assumes "json_value J"
  shows "layer_ref_from_json J (layer_ref_json J l) = Ok l"
proof -
  let ?kvs = "[(''backend'', jstr J (lr_backend l)), (''format'', jstr J (lr_format l)), (''store'', jstr J (lr_store l)),
    (''path'', jstr J (lr_path l)), (''link'', jopt J (jstr J) (lr_link l)), (''digest'', jopt J (jstr J) (lr_digest l))]"
  have d: "distinct (map fst ?kvs)" by simp
  note s = json_value.get_str_obj [OF assms d] and o' = json_value.get_str_opt_obj [OF assms d]
  show ?thesis
    by (simp add: layer_ref_from_json_def layer_ref_json_def layer_string_def s o')
qed

theorem layer_ref_roundtrip_witness:
  "layer_ref_from_json jv (layer_ref_json jv \<lparr>lr_backend = ''overlayfs'', lr_format = ''overlay-upperdir'',
     lr_store = ''local-directory'', lr_path = ''/l'', lr_link = None, lr_digest = Some ''d''\<rparr>) =
   Ok \<lparr>lr_backend = ''overlayfs'', lr_format = ''overlay-upperdir'',
     lr_store = ''local-directory'', lr_path = ''/l'', lr_link = None, lr_digest = Some ''d''\<rparr>"
  by (rule layer_ref_roundtrip) (rule jv.json_value_axioms)

section \<open>Links\<close>

definition hex_val :: "char \<Rightarrow> nat" where
  "hex_val c = (let v = of_char c in if v < 97 then v - 48 else v - 87)"

lemma hex_val_digit: "d < 16 \<Longrightarrow> hex_val (digit_char d) = d"
  by (simp add: hex_val_def digit_char_def)

lemma ascii_alnum_digit: "d < 16 \<Longrightarrow> ascii_alnum (digit_char d)"
  by (simp add: ascii_alnum_def digit_char_def)

definition hex_read :: "string \<Rightarrow> nat" where
  "hex_read s = foldl (\<lambda>a c. a * 16 + hex_val c) 0 s"

lemma hex_read_show: "hex_read (show_base 16 n) = n"
proof (induction "16 :: nat" n rule: show_base.induct)
  case (1 n)
  show ?case
  proof (cases "n < 16")
    case True
    then show ?thesis by (simp add: show_base.simps [of 16 n] hex_read_def hex_val_digit)
  next
    case False
    with 1 show ?thesis by (simp add: show_base.simps [of 16 n] hex_read_def hex_val_digit)
  qed
qed

lemma hex_read_hex16: "hex_read (hex16 w) = unat w"
proof -
  have z: "hex_val CHR ''0'' = 0" by (simp add: hex_val_def)
  have "hex_read (replicate k CHR ''0'' @ s) = hex_read s" for k s
    by (induction k) (simp_all add: hex_read_def z)
  then show ?thesis by (simp add: hex16_def Let_def hex_read_show)
qed

lemma length_hex16: "length (hex16 w) = 16"
proof -
  have "unat w < 16 ^ 16" using unsigned_less [of w, where ?'a = nat] by simp
  then show ?thesis using length_show_base [of 16 "unat w" 16] by (simp add: hex16_def Let_def)
qed

lemma alnum_hex16: "\<forall>c \<in> set (hex16 w). ascii_alnum c"
proof -
  have "ascii_alnum CHR ''0''" by (simp add: ascii_alnum_def)
  then show ?thesis
    using set_show_base [of 16 "unat w"] ascii_alnum_digit by (fastforce simp: hex16_def Let_def)
qed

lemma short_link: "short_layer_link (layer_digest h) = ''fnv64'' @ hex16 h"
proof -
  have "filter ascii_alnum (layer_digest h) = ''fnv64'' @ hex16 h"
    using alnum_hex16 [of h] by (simp add: layer_digest_def ascii_alnum_def filter_id_conv)
  then show ?thesis by (simp add: short_layer_link_def length_hex16)
qed

lemma short_link_inj: "short_layer_link (layer_digest h) = short_layer_link (layer_digest h') \<Longrightarrow> h = h'"
  using hex_read_hex16 [of h] hex_read_hex16 [of h'] by (simp add: short_link word_unat_eq_iff)

section \<open>The store\<close>

text \<open>Every layer is filed under a digest, every link is the short form of the digest it points to, and no link dangles.\<close>

definition store_ok :: "store \<Rightarrow> bool" where
  "store_ok S \<longleftrightarrow>
     (\<forall>d \<in> dom (st_layers S). \<exists>h. d = layer_digest h) \<and>
     (\<forall>link \<in> dom (st_links S). \<exists>h. st_links S link = Some (layer_digest h) \<and>
        link = short_layer_link (layer_digest h) \<and> layer_digest h \<in> dom (st_layers S))"

definition empty_store :: store where
  "empty_store = \<lparr>st_layers = \<lambda>_. None, st_links = \<lambda>_. None\<rparr>"

lemma empty_store_ok: "store_ok empty_store"
  by (simp add: store_ok_def empty_store_def)

lemma add_link_ok:
  assumes "store_ok S" "layer_digest h \<in> dom (st_layers S)"
  shows "\<exists>S'. add_link (short_layer_link (layer_digest h)) (layer_digest h) S = Ok S' \<and> store_ok S' \<and>
    st_layers S' = st_layers S \<and> st_links S' (short_layer_link (layer_digest h)) = Some (layer_digest h)"
proof (cases "st_links S (short_layer_link (layer_digest h))")
  case None
  then show ?thesis
    using assms by (auto simp: add_link_def link_exists_def store_ok_def)
next
  case (Some d)
  then have "short_layer_link (layer_digest h) \<in> dom (st_links S)" by blast
  with assms(1) Some obtain h' where "d = layer_digest h'" "short_layer_link (layer_digest h) = short_layer_link (layer_digest h')"
    unfolding store_ok_def by (metis option.inject)
  with short_link_inj have "d = layer_digest h" by blast
  with Some assms show ?thesis by (auto simp: add_link_def link_exists_def)
qed

lemma install_effect:
  assumes "store_ok S" "install_overlay2_layer_as H root f parent src S = Ok (r, S')"
  obtains h where "digest_tree src = Ok h" "r = installed_ref root f (layer_digest h)" "store_ok S'"
    "\<forall>d \<in> dom (st_layers S). st_layers S' d = st_layers S d" "layer_digest h \<in> dom (st_layers S')"
    "st_links S' (short_layer_link (layer_digest h)) = Some (layer_digest h)"
proof -
  obtain h S1 where h: "digest_tree src = Ok h"
    and S1: "(if st_layers S (layer_digest h) \<noteq> None then Ok S
            else rbind (build_layer H f parent (layer_digest h) src) (\<lambda>l.
              Ok (S\<lparr>st_layers := (st_layers S)(layer_digest h \<mapsto> l)\<rparr>))) = Ok S1"
    and S': "add_link (short_layer_link (layer_digest h)) (layer_digest h) S1 = Ok S'"
    and r: "r = installed_ref root f (layer_digest h)"
    using assms(2) unfolding install_overlay2_layer_as_def Let_def rbind_Inr_iff by auto
  have dom: "dom (st_layers S1) = insert (layer_digest h) (dom (st_layers S))"
    and kept: "\<forall>d \<in> dom (st_layers S). st_layers S1 d = st_layers S d" and links: "st_links S1 = st_links S"
    using S1 by (auto split: if_splits)
  have "store_ok S1"
    using assms(1) unfolding store_ok_def links dom by blast
  from add_link_ok [OF this, of h] dom S' have "store_ok S'" "st_layers S' = st_layers S1"
    "st_links S' (short_layer_link (layer_digest h)) = Some (layer_digest h)" by auto
  with h r kept dom show thesis by (intro that [of h]) auto
qed

text \<open>
  C26: Installing a layer keeps the store sound: every layer stays filed under its digest and unchanged, every
  short link points to the layer whose digest it abbreviates and no link dangles; and the reference returned
  resolves, through its link, to the layer with the digest of the source.
\<close>

theorem install_layer_sound:
  assumes "store_ok S" "f = ''overlay-upperdir'' \<or> f = ''flattened-rootfs''"
    and "install_overlay2_layer_as H root f parent src S = Ok (r, S')"
  shows "store_ok S' \<and> (\<forall>d \<in> dom (st_layers S). st_layers S' d = st_layers S d) \<and>
    (\<exists>h link l. digest_tree src = Ok h \<and> lr_link r = Some link \<and>
       resolve_layer_ref root r = Ok (path_join (path_join (layer_store_root root) ''l'') link) \<and>
       st_links S' link = Some (layer_digest h) \<and> st_layers S' (layer_digest h) = Some l)"
proof -
  obtain h where "digest_tree src = Ok h" "r = installed_ref root f (layer_digest h)" "store_ok S'"
    "\<forall>d \<in> dom (st_layers S). st_layers S' d = st_layers S d" "layer_digest h \<in> dom (st_layers S')"
    "st_links S' (short_layer_link (layer_digest h)) = Some (layer_digest h)"
    using assms(1,3) by (rule install_effect)
  moreover have "resolve_layer_ref root (installed_ref root f d) =
      Ok (path_join (path_join (layer_store_root root) ''l'') (short_layer_link d))" for d
    using assms(2) by (auto simp: resolve_layer_ref_def installed_ref_def)
  moreover have "lr_link (installed_ref root f d) = Some (short_layer_link d)" for d
    by (simp add: installed_ref_def)
  ultimately show ?thesis by blast
qed

lemma build_layer_total:
  assumes "privileged H" "wf_tree (Dir m es)"
  shows "\<exists>t. clone_path H (Dir m es) = Ok (Some t) \<and> build_layer H f parent d (Dir m es) =
    Ok \<lparr>ld_diff = readonly t, ld_link = short_layer_link d, ld_lower = parent, ld_format = f\<rparr>"
proof -
  obtain t where t: "clone_path H (Dir m es) = Ok (Some t)" "clone_upperdir H ''diff'' False (Dir m es) = Ok t"
    using clone_upperdir_ok [OF assms] .
  from t(1) have "is_dir t" by auto
  with assms(1) have "make_tree_readonly H t = Ok (readonly t)" by (simp add: make_tree_readonly_privileged)
  with t show ?thesis by (auto simp only: build_layer_def rbind.simps)
qed

lemma install_total:
  assumes "privileged H" "wf_tree (Dir m es)" "store_ok S"
  shows "\<exists>r S'. install_overlay2_layer_as H root f parent (Dir m es) S = Ok (r, S')"
proof -
  let ?h = "digest_tree_inner [] (Dir m es) 0xcbf29ce484222325"
  have h: "digest_tree (Dir m es) = Ok ?h" by (simp add: digest_tree_def del: digest_tree_inner.simps)
  obtain l where l: "build_layer H f parent (layer_digest ?h) (Dir m es) = Ok l"
    using build_layer_total [OF assms(1,2)] by blast
  let ?S1 = "if st_layers S (layer_digest ?h) \<noteq> None then S
    else S\<lparr>st_layers := (st_layers S)(layer_digest ?h \<mapsto> l)\<rparr>"
  have dom: "dom (st_layers ?S1) = insert (layer_digest ?h) (dom (st_layers S))" and links: "st_links ?S1 = st_links S"
    by auto
  have "store_ok ?S1"
    using assms(3) unfolding store_ok_def links dom by blast
  then obtain S' where S': "add_link (short_layer_link (layer_digest ?h)) (layer_digest ?h) ?S1 = Ok S'"
    using add_link_ok [of ?S1 ?h] dom by blast
  have "(if st_layers S (layer_digest ?h) \<noteq> None then Ok S
    else rbind (build_layer H f parent (layer_digest ?h) (Dir m es)) (\<lambda>l. Ok (S\<lparr>st_layers := (st_layers S)(layer_digest ?h \<mapsto> l)\<rparr>))) = Ok ?S1"
    by (simp only: l rbind.simps split: if_split) simp
  with h S' show ?thesis
    by (auto simp only: install_overlay2_layer_as_def rbind.simps Let_def)
qed

definition sample_layer :: tree where
  "sample_layer = Dir (plain_meta 0x1ED) [(''a'', File (plain_meta 0x1A4) [1])]"

theorem install_layer_sound_witness:
  "\<exists>r S' h l. install_overlay2_layer_as linux_host ''/run/rsrun'' ''overlay-upperdir'' None sample_layer empty_store = Ok (r, S') \<and>
     store_ok S' \<and> digest_tree sample_layer = Ok h \<and> st_layers S' (layer_digest h) = Some l"
proof -
  have "wf_tree sample_layer" by (simp add: sample_layer_def plain_meta_def wf_meta_def name_ok_def)
  then obtain r S' where i: "install_overlay2_layer_as linux_host ''/run/rsrun'' ''overlay-upperdir'' None sample_layer empty_store = Ok (r, S')"
    using install_total [OF linux_privileged _ empty_store_ok] unfolding sample_layer_def by blast
  from install_layer_sound [OF empty_store_ok _ i] i show ?thesis by blast
qed

section \<open>Different trees, one digest\<close>

text \<open>
  Nothing separates the pieces that are hashed, so the record of a second file can be part of the
  content of the first.
\<close>

definition file_record :: "string \<Rightarrow> meta \<Rightarrow> u8 list \<Rightarrow> u8 list" where
  "file_record n m c =
     bytes_of n @ le_bytes 4 (st_mode (File m c)) @ le_bytes 4 (uid m) @ le_bytes 4 (gid m) @ le_bytes 8 (0 :: u64) @
     bytes_of ''file'' @ c"

definition one_file :: "meta \<Rightarrow> string \<Rightarrow> meta \<Rightarrow> u8 list \<Rightarrow> tree" where
  "one_file m a ma c = Dir m [(a, File ma c)]"

definition two_files :: "meta \<Rightarrow> string \<Rightarrow> meta \<Rightarrow> u8 list \<Rightarrow> string \<Rightarrow> meta \<Rightarrow> u8 list \<Rightarrow> tree" where
  "two_files m a ma c b mb d = Dir m [(a, File ma c), (b, File mb d)]"

lemma digest_collision:
  assumes "a < b" "xattrs ma = []" "xattrs mb = []"
  shows "digest_tree (two_files m a ma c b mb d) = digest_tree (one_file m a ma (c @ file_record b mb d))"
proof -
  have no: "hash_xattrs mt h = h" if "xattrs mt = []" for mt h
    using that by (simp add: hash_xattrs_def list_xattrs_def)
  have "in_order [(a, File ma c), (b, File mb d)] = [(a, File ma c), (b, File mb d)]"
    using assms(1) less_imp_le [of a b] by simp
  then show ?thesis
    using assms(2,3) unfolding two_files_def digest_tree_def is_dir.simps digest_tree_inner.simps
    by (simp only:) (simp add: one_file_def file_record_def Let_def no slash_path_def st_mode_def digest_tree_def
        hash_update_Cons)
qed

text \<open>
  Layers are told apart by their digest only, and the digest does not separate what it hashes: once the
  layer with two files is in the store, installing the different tree whose single file continues with the
  second file's record succeeds, leaves the store's layers as they are and returns the same layer.
\<close>

theorem install_confuses_colliding_trees:
  assumes "store_ok S" "a < b" "xattrs ma = []" "xattrs mb = []"
    and "install_overlay2_layer_as H root f parent (two_files m a ma c b mb d) S = Ok (r, S1)"
  shows "install_overlay2_layer_as H root f parent (one_file m a ma (c @ file_record b mb d)) S1 = Ok (r, S1) \<and>
    lookup (one_file m a ma (c @ file_record b mb d)) [b] = None"
proof -
  have same: "digest_tree (one_file m a ma (c @ file_record b mb d)) = digest_tree (two_files m a ma c b mb d)"
    by (rule digest_collision [OF assms(2-4), symmetric])
  obtain h where h: "digest_tree (two_files m a ma c b mb d) = Ok h" and r: "r = installed_ref root f (layer_digest h)"
    and layer: "layer_digest h \<in> dom (st_layers S1)"
    and link: "st_links S1 (short_layer_link (layer_digest h)) = Some (layer_digest h)"
    using assms(1,5) by (rule install_effect)
  have "link_exists S1 (short_layer_link (layer_digest h))"
    using link layer by (auto simp: link_exists_def)
  then have "add_link (short_layer_link (layer_digest h)) (layer_digest h) S1 = Ok S1"
    by (simp add: add_link_def)
  moreover have "st_layers S1 (layer_digest h) \<noteq> None"
    using layer by blast
  ultimately have "install_overlay2_layer_as H root f parent (one_file m a ma (c @ file_record b mb d)) S1 = Ok (r, S1)"
    by (simp only: install_overlay2_layer_as_def same h r rbind.simps Let_def if_True not_False_eq_True simp_thms)
  moreover have "b \<noteq> a" using assms(2) by blast
  ultimately show ?thesis by (simp add: one_file_def)
qed

theorem install_confuses_colliding_trees_witness:
  "\<exists>r S1. install_overlay2_layer_as linux_host ''/run/rsrun'' ''overlay-upperdir'' None
       (two_files (plain_meta 0x1ED) ''a'' (plain_meta 0x1A4) [1] ''b'' (plain_meta 0x1A4) [2]) empty_store = Ok (r, S1) \<and>
     install_overlay2_layer_as linux_host ''/run/rsrun'' ''overlay-upperdir'' None
       (one_file (plain_meta 0x1ED) ''a'' (plain_meta 0x1A4) ([1] @ file_record ''b'' (plain_meta 0x1A4) [2])) S1 = Ok (r, S1)"
proof -
  let ?two = "two_files (plain_meta 0x1ED) ''a'' (plain_meta 0x1A4) [1] ''b'' (plain_meta 0x1A4) [2]"
  have "wf_tree ?two" by (simp add: two_files_def plain_meta_def wf_meta_def name_ok_def)
  then obtain r S1 where i: "install_overlay2_layer_as linux_host ''/run/rsrun'' ''overlay-upperdir'' None ?two empty_store = Ok (r, S1)"
    using install_total [OF linux_privileged _ empty_store_ok] unfolding two_files_def by blast
  from install_confuses_colliding_trees [OF empty_store_ok _ _ _ i] i show ?thesis
    by (auto simp: plain_meta_def)
qed

end
