(* ===== verification/Overlay_Fs.thy ===== *)
theory Overlay_Fs
  imports Layer_Store
begin

text \<open>
  What overlayfs shows of a stack of directories, after the kernel's documentation of its markers
  (Documentation/filesystems/overlayfs.rst) and not after \<^verbatim>\<open>rollout.rs\<close>: a whiteout is a character device
  with number 0/0 or an empty regular file that has the attribute \<^verbatim>\<open>trusted.overlay.whiteout\<close>, whatever its
  value; a directory is opaque when its \<^verbatim>\<open>trusted.overlay.opaque\<close> is \<^verbatim>\<open>y\<close>. The theories on the diff and on
  flattened layers compare the code with this view.
\<close>

section \<open>The kernel's markers\<close>

fun ovl_whiteout :: "tree \<Rightarrow> bool" where
  "ovl_whiteout (Char_Device _ ma mi) = (ma = 0 \<and> mi = 0)"
| "ovl_whiteout (File m c) = (c = [] \<and> map_of (xattrs m) ''trusted.overlay.whiteout'' \<noteq> None)"
| "ovl_whiteout _ = False"

fun ovl_opaque :: "tree \<Rightarrow> bool" where
  "ovl_opaque (Dir m _) = (map_of (xattrs m) ''trusted.overlay.opaque'' = Some [0x79])"
| "ovl_opaque _ = False"

text \<open>
  Two markers the kernel and the code read differently: \<^verbatim>\<open>x\<close> as the value of the opaque attribute, with
  which the kernel marks a directory that holds whiteout files and that is merged all the same, and a
  whiteout attribute with an empty value. A conventional tree has neither.
\<close>

fun conventional :: "tree \<Rightarrow> bool" where
  "conventional (Dir m es) \<longleftrightarrow>
     map_of (xattrs m) ''trusted.overlay.opaque'' \<noteq> Some [0x78] \<and> (\<forall>x \<in> set es. conventional (snd x))"
| "conventional (File m c) \<longleftrightarrow> map_of (xattrs m) ''trusted.overlay.whiteout'' \<noteq> Some []"
| "conventional _ \<longleftrightarrow> True"

lemma conventional_child: "conventional t \<Longrightarrow> map_of (entries_of t) n = Some c \<Longrightarrow> conventional c"
  by (cases t) (auto dest!: map_of_SomeD)

lemma conventional_lookup: "conventional t \<Longrightarrow> lookup t p = Some s \<Longrightarrow> conventional s"
  by (induction t p rule: lookup.induct) (auto split: option.splits dest: conventional_child)

section \<open>The merged view\<close>

text \<open>
  A stack of directories, uppermost first: a whiteout hides what is below, a file ends the stack, an
  opaque directory is its last element.
\<close>

fun merge_below :: "tree list \<Rightarrow> tree list" where
  "merge_below [] = []"
| "merge_below (c # cs) =
     (if ovl_whiteout c \<or> \<not> is_dir c then [] else c # (if ovl_opaque c then [] else merge_below cs))"

fun visible :: "tree list \<Rightarrow> tree list" where
  "visible [] = []"
| "visible (c # cs) =
     (if ovl_whiteout c then [] else if \<not> is_dir c then [c] else c # (if ovl_opaque c then [] else merge_below cs))"

definition child_of :: "string \<Rightarrow> tree \<Rightarrow> tree option" where
  "child_of n t = map_of (entries_of t) n"

fun merged :: "tree list \<Rightarrow> string list \<Rightarrow> tree option" where
  "merged [] p = None"
| "merged (t # ts) [] = Some t"
| "merged (t # ts) (n # ns) = merged (visible (filter_map (child_of n) (t # ts))) ns"

text \<open>Plain directories: nothing for overlayfs to treat specially.\<close>

definition plain_dir :: "tree \<Rightarrow> bool" where
  "plain_dir t \<longleftrightarrow> is_dir t \<and> \<not> ovl_opaque t"

definition first_node :: "tree list \<Rightarrow> tree option" where
  "first_node ts = (case ts of [] \<Rightarrow> None | c # _ \<Rightarrow> if ovl_whiteout c then None else Some c)"

lemma plain_dir_no_whiteout: "plain_dir t \<Longrightarrow> \<not> ovl_whiteout t"
  by (cases t) (simp_all add: plain_dir_def)

lemma ovl_whiteout_leaf: "ovl_whiteout c \<Longrightarrow> \<not> is_dir c"
  by (cases c) simp_all

lemma visible_plain: "\<forall>c \<in> set cs. plain_dir c \<Longrightarrow> visible cs = cs"
proof -
  have "\<forall>c \<in> set cs. plain_dir c \<Longrightarrow> merge_below cs = cs" for cs
    by (induction cs) (auto simp: plain_dir_no_whiteout, auto simp: plain_dir_def)
  then show "\<forall>c \<in> set cs. plain_dir c \<Longrightarrow> visible cs = cs"
    by (cases cs) (auto simp: plain_dir_no_whiteout, auto simp: plain_dir_def)
qed

lemma merged_head: "merged (visible cs) [] = first_node cs"
  by (cases cs) (simp_all add: first_node_def)

lemma filter_map_lookup:
  "filter_map (\<lambda>t. lookup t (n # ns)) ts = filter_map (\<lambda>t. lookup t ns) (filter_map (child_of n) ts)"
  by (induction ts) (auto simp: child_of_def split: option.splits)

lemma merged_step: "merged ts (n # q) = merged (visible (filter_map (child_of n) ts)) q"
  by (cases ts; cases q) simp_all

lemma merged_leaf: "\<not> is_dir c \<Longrightarrow> merged [c] q = (if q = [] then Some c else None)"
  by (cases c; cases q) (simp_all add: child_of_def)

lemma merged_over:
  "merged (Dir m es # ts) (n # q) =
     (case map_of es n of None \<Rightarrow> merged ts (n # q)
      | Some c \<Rightarrow>
          if ovl_whiteout c then None
          else if is_dir c then merged (c # (if ovl_opaque c then [] else merge_below (filter_map (child_of n) ts))) q
          else merged [c] q)"
proof -
  have "filter_map (child_of n) (Dir m es # ts) =
      (case map_of es n of None \<Rightarrow> filter_map (child_of n) ts | Some c \<Rightarrow> c # filter_map (child_of n) ts)"
    by (simp add: child_of_def)
  then show ?thesis
    by (cases "map_of es n") (simp_all add: merged_step [of ts n q] del: filter_map.simps)
qed

lemma merged_first:
  assumes "p \<noteq> []" "\<forall>t \<in> set ts. \<forall>k \<in> {1 ..< length p}. \<forall>s. lookup t (take k p) = Some s \<longrightarrow> plain_dir s"
  shows "merged ts p = first_node (filter_map (\<lambda>t. lookup t p) ts)"
  using assms
proof (induction p arbitrary: ts)
  case (Cons n p)
  have step: "merged ts (n # p) = merged (visible (filter_map (child_of n) ts)) p"
    by (cases ts; cases p) simp_all
  show ?case
  proof (cases "p = []")
    case True
    have "filter_map (\<lambda>t. lookup t [n]) ts = filter_map (child_of n) ts"
      by (induction ts) (auto simp: child_of_def split: option.splits)
    with True step show ?thesis by (simp only: merged_head)
  next
    case False
    have plain: "plain_dir c" if "c \<in> set (filter_map (child_of n) ts)" for c
    proof -
      from that obtain t where t: "t \<in> set ts" "child_of n t = Some c" by (auto simp: set_filter_map)
      then have "lookup t (take 1 (n # p)) = Some c" by (simp add: child_of_def)
      moreover have "1 \<in> {1 ..< length (n # p)}" using False by simp
      ultimately show ?thesis using Cons.prems(2) t(1) by blast
    qed
    have deeper: "plain_dir s" if c: "c \<in> set (filter_map (child_of n) ts)" and k: "k \<in> {1 ..< length p}"
      and s: "lookup c (take k p) = Some s" for c k s
    proof -
      from c obtain t where t: "t \<in> set ts" "child_of n t = Some c" by (auto simp: set_filter_map)
      then have "lookup t (take (Suc k) (n # p)) = Some s" using s by (simp add: child_of_def)
      moreover have "Suc k \<in> {1 ..< length (n # p)}" using k by simp
      ultimately show ?thesis using Cons.prems(2) t(1) by blast
    qed
    have "merged ts (n # p) = merged (filter_map (child_of n) ts) p"
      using step visible_plain plain by metis
    also have "\<dots> = first_node (filter_map (\<lambda>t. lookup t p) (filter_map (child_of n) ts))"
      using Cons.IH [OF False] deeper by blast
    finally show ?thesis by (simp only: filter_map_lookup)
  qed
qed simp

end
