(* ===== verification/Overlay_Diff.thy ===== *)
theory Overlay_Diff
  imports Overlay_Fs "HOL-Library.Product_Lexorder"
begin

text \<open>
  Comparing an overlay's upper directory with its lower layers: \<^verbatim>\<open>scan_overlay_diff\<close> of \<^verbatim>\<open>rollout.rs\<close>
  and what it calls.
\<close>

section \<open>Overlay markers\<close>

definition is_overlay_whiteout :: "tree \<Rightarrow> bool" where
  "is_overlay_whiteout t =
     (case t of
        Char_Device _ ma mi \<Rightarrow> ma = 0 \<and> mi = 0
      | File m c \<Rightarrow> c = [] \<and> lgetxattr_value m ''trusted.overlay.whiteout'' \<noteq> None
      | _ \<Rightarrow> False)"

definition is_overlay_opaque_dir :: "tree \<Rightarrow> bool" where
  "is_overlay_opaque_dir t =
     (lgetxattr_value (meta_of t) ''trusted.overlay.opaque'' \<in> {Some (bytes_of ''y''), Some (bytes_of ''x'')})"

text \<open>
  A layer is its tree and what the kernel finds behind a symbolic link in the middle of a path: the
  path of the link, its target and the names after it.
\<close>

record layer =
  lay_tree :: tree
  lay_follow :: "string list \<Rightarrow> string \<Rightarrow> string list \<Rightarrow> tree option"

fun lstat_from :: "(string list \<Rightarrow> string \<Rightarrow> string list \<Rightarrow> tree option) \<Rightarrow> string list \<Rightarrow> tree \<Rightarrow> string list \<Rightarrow> tree option" where
  "lstat_from R at t [] = Some t"
| "lstat_from R at (Symlink _ l) (n # ns) = R at l (n # ns)"
| "lstat_from R at t (n # ns) = and_then (map_of (entries_of t) n) (\<lambda>c. lstat_from R (at @ [n]) c ns)"

definition lstat :: "layer \<Rightarrow> string list \<Rightarrow> tree option" where
  "lstat L p = lstat_from (lay_follow L) [] (lay_tree L) p"

text \<open>\<^verbatim>\<open>lower_hides_path\<close>: some proper ancestor of the path is an opaque directory of this layer.\<close>

definition lower_hides_path :: "layer \<Rightarrow> string list \<Rightarrow> bool" where
  "lower_hides_path L rel =
     (\<exists>k \<in> set [1 ..< length rel]. case lstat L (take k rel) of
        None \<Rightarrow> False | Some t \<Rightarrow> is_dir t \<and> is_overlay_opaque_dir t)"

fun lower_metadata :: "layer list \<Rightarrow> string list \<Rightarrow> tree option" where
  "lower_metadata [] rel = None"
| "lower_metadata (L # Ls) rel =
     (if lower_hides_path L rel then None
      else case lstat L rel of
          None \<Rightarrow> lower_metadata Ls rel
        | Some t \<Rightarrow> if is_overlay_whiteout t then None else Some t)"

section \<open>Entries\<close>

datatype diff_kind = Added | Modified | Deleted | OpaqueDir

fun kind_str :: "diff_kind \<Rightarrow> string" where
  "kind_str Added = ''added''"
| "kind_str Modified = ''modified''"
| "kind_str Deleted = ''deleted''"
| "kind_str OpaqueDir = ''opaque_dir''"

record diff_entry =
  de_path :: string
  de_kind :: diff_kind
  de_file_type :: string
  de_size :: "nat option"
  de_lower_size :: "nat option"
  de_size_delta :: "i64 option"
  de_sensitive :: bool
  de_fingerprint :: string
  de_upper :: "string list option"

definition trim_start_slashes :: "string \<Rightarrow> string" where
  "trim_start_slashes p = dropWhile (\<lambda>c. c = CHR ''/'') p"

definition is_sensitive_path :: "string \<Rightarrow> bool" where
  "is_sensitive_path path =
     (let p = trim_start_slashes path in
      p = ''etc/passwd'' \<or> p = ''etc/shadow'' \<or> p = ''etc/sudoers'' \<or> starts_with p ''root/.ssh/'' \<or>
      contains_str p ''/.ssh/'' \<or> ends_with p ''.pem'' \<or> ends_with p ''.key'' \<or> contains_str p ''id_rsa'' \<or>
      contains_str p ''id_ed25519'' \<or> contains_str p ''token'' \<or> contains_str p ''credential'')"

fun file_type_name :: "tree \<Rightarrow> string" where
  "file_type_name (Dir _ _) = ''directory''"
| "file_type_name (File _ _) = ''file''"
| "file_type_name (Symlink _ _) = ''symlink''"
| "file_type_name (Char_Device _ _ _) = ''char_device''"
| "file_type_name (Block_Device _ _ _) = ''block_device''"
| "file_type_name (Fifo _) = ''fifo''"
| "file_type_name (Socket _) = ''socket''"

text \<open>What \<^verbatim>\<open>lstat\<close> reports beside the tree: the length of what is no file, and the times.\<close>

record stat_extra =
  x_len :: nat
  x_mtime :: int
  x_mtime_nsec :: int
  x_ctime :: int
  x_ctime_nsec :: int

definition meta_len :: "stat_extra \<Rightarrow> tree \<Rightarrow> nat" where
  "meta_len X t = (if is_file t then file_len t else x_len X)"

definition diff_fingerprint :: "string \<Rightarrow> stat_extra \<Rightarrow> tree \<Rightarrow> string" where
  "diff_fingerprint file_type X t =
     ''type='' @ file_type @ '':mode='' @ show_base 8 (unat (st_mode t)) @ '':uid='' @ dec_u64 (uid (meta_of t)) @
     '':gid='' @ dec_u64 (gid (meta_of t)) @ '':rdev='' @ dec_u64 (rdev t) @ '':size='' @ dec_nat (meta_len X t) @
     '':mtime='' @ dec_int (x_mtime X) @ ''.'' @ dec_int (x_mtime_nsec X) @
     '':ctime='' @ dec_int (x_ctime X) @ ''.'' @ dec_int (x_ctime_nsec X)"

definition size_of_file :: "tree \<Rightarrow> nat option" where
  "size_of_file t = (if is_file t then Some (file_len t) else None)"

fun size_delta :: "diff_kind \<Rightarrow> nat option \<Rightarrow> nat option \<Rightarrow> i64 option" where
  "size_delta k (Some a) (Some b) = Some (of_nat a - of_nat b)"
| "size_delta k (Some a) None = Some (of_nat a)"
| "size_delta Deleted None (Some b) = Some (- of_nat b)"
| "size_delta _ None _ = None"

definition diff_entry :: "string list \<Rightarrow> diff_kind \<Rightarrow> string \<Rightarrow> stat_extra \<Rightarrow> tree \<Rightarrow> tree option \<Rightarrow> bool \<Rightarrow> diff_entry" where
  "diff_entry rel kind file_type X t lower include_upper =
     (let path = slash_path rel; sz = size_of_file t; lower_sz = and_then lower size_of_file
      in \<lparr>de_path = path, de_kind = kind, de_file_type = file_type, de_size = sz, de_lower_size = lower_sz,
          de_size_delta = size_delta kind sz lower_sz, de_sensitive = is_sensitive_path path,
          de_fingerprint = diff_fingerprint file_type X t,
          de_upper = (if include_upper then Some rel else None)\<rparr>)"

section \<open>The scan\<close>

definition child_entries :: "layer list \<Rightarrow> (string list \<Rightarrow> stat_extra) \<Rightarrow> string list \<Rightarrow> tree \<Rightarrow> diff_entry list" where
  "child_entries Ls X rel t =
     (let lower = lower_metadata Ls rel in
      if is_overlay_whiteout t then [diff_entry rel Deleted ''whiteout'' (X rel) t lower False]
      else diff_entry rel (if lower \<noteq> None then Modified else Added) (file_type_name t) (X rel) t lower True #
        (if is_dir t \<and> is_overlay_opaque_dir t
         then [diff_entry rel OpaqueDir ''directory'' (X rel) t lower True] else []))"

fun scan_overlay_dir :: "layer list \<Rightarrow> (string list \<Rightarrow> stat_extra) \<Rightarrow> string list \<Rightarrow> tree \<Rightarrow> diff_entry list" where
  "scan_overlay_dir Ls X rel_dir (Dir m es) =
     concat (map (\<lambda>x. let rel = rel_dir @ [fst x] in
       child_entries Ls X rel (snd x) @ scan_overlay_dir Ls X rel (snd x)) (in_order es))"
| "scan_overlay_dir Ls X rel_dir t = []"

text \<open>\<^verbatim>\<open>scan_overlay_diff\<close>: by path, then by the name of the kind.\<close>

definition scan_overlay_diff :: "layer list \<Rightarrow> (string list \<Rightarrow> stat_extra) \<Rightarrow> tree option \<Rightarrow> diff_entry list io_result" where
  "scan_overlay_diff Ls X upper =
     (case upper of None \<Rightarrow> Ok []
      | Some t \<Rightarrow> if is_dir t then Ok (sort_key (\<lambda>e. (de_path e, kind_str (de_kind e))) (scan_overlay_dir Ls X [] t))
                  else Err (OsError 20) [])"

section \<open>Reports\<close>

definition changed_files_json :: "'v json_api \<Rightarrow> string \<Rightarrow> diff_entry list \<Rightarrow> 'v" where
  "changed_files_json J cid es = jobj J
     [(''id'', jstr J cid), (''backend'', jstr J ''overlayfs''),
      (''files'', jarr J (map (\<lambda>e. jobj J
         [(''path'', jstr J (de_path e)), (''kind'', jstr J (kind_str (de_kind e))),
          (''sensitive'', jbool J (de_sensitive e))]) es))]"

definition diff_json :: "'v json_api \<Rightarrow> string \<Rightarrow> diff_entry list \<Rightarrow> 'v" where
  "diff_json J cid es = jobj J
     [(''id'', jstr J cid), (''backend'', jstr J ''overlayfs''),
      (''files'', jarr J (map (\<lambda>e. jobj J
         [(''path'', jstr J (de_path e)), (''kind'', jstr J (kind_str (de_kind e))),
          (''file_type'', jstr J (de_file_type e)), (''size'', jopt J (\<lambda>n. ju64 J (of_nat n)) (de_size e)),
          (''lower_size'', jopt J (\<lambda>n. ju64 J (of_nat n)) (de_lower_size e)),
          (''size_delta'', jopt J (ji64 J) (de_size_delta e)), (''sensitive'', jbool J (de_sensitive e))]) es))]"

section \<open>The lower node and the merged view\<close>

text \<open>On a path whose proper ancestors are no symbolic links, the kernel's walk is the lookup.\<close>

lemma lstat_lookup:
  assumes "\<forall>k < length p. \<forall>s. lookup t (take k p) = Some s \<longrightarrow> \<not> is_symlink s"
  shows "lstat_from R at t p = lookup t p"
  using assms
proof (induction p arbitrary: t at)
  case (Cons n p)
  have "\<not> is_symlink t" using Cons.prems by force
  then have step: "lstat_from R at t (n # p) = and_then (map_of (entries_of t) n) (\<lambda>c. lstat_from R (at @ [n]) c p)"
    by (cases t) simp_all
  show ?case
  proof (cases "map_of (entries_of t) n")
    case (Some c)
    have "\<forall>k < length p. \<forall>s. lookup c (take k p) = Some s \<longrightarrow> \<not> is_symlink s"
      using Cons.prems Some by (metis length_Cons lookup.simps(2) Suc_less_eq option.simps(5) take_Suc_Cons)
    with Cons.IH Some step show ?thesis by simp
  qed (use step in simp)
qed simp

lemma take_take_less: "k < j \<Longrightarrow> take k (take j p) = take k p"
  by (simp add: min_def)

text \<open>Above the path every layer has a plain directory or nothing; so it has none of the cases a later property lists.\<close>

definition plain_above :: "layer list \<Rightarrow> string list \<Rightarrow> bool" where
  "plain_above Ls p \<longleftrightarrow> (\<forall>L \<in> set Ls. is_dir (lay_tree L) \<and>
     (\<forall>k \<in> {1 ..< length p}. \<forall>s. lookup (lay_tree L) (take k p) = Some s \<longrightarrow> plain_dir s))"

lemma whiteout_agrees: "conventional t \<Longrightarrow> is_overlay_whiteout t = ovl_whiteout t"
  by (cases t) (auto simp: is_overlay_whiteout_def lgetxattr_value_def split: option.splits list.splits)

lemma opaque_agrees: "conventional t \<Longrightarrow> is_dir t \<Longrightarrow> is_overlay_opaque_dir t = ovl_opaque t"
  by (cases t) (auto simp: is_overlay_opaque_dir_def lgetxattr_value_def bytes_of_def split: option.splits list.splits)

lemma lower_merged:
  assumes "p \<noteq> []" "plain_above Ls p" "\<forall>L \<in> set Ls. conventional (lay_tree L)"
  shows "lower_metadata Ls p = merged (map lay_tree Ls) p"
proof -
  note plain = assms(2) [unfolded plain_above_def, rule_format]
  have stat: "lstat L (take k p) = lookup (lay_tree L) (take k p)" if "L \<in> set Ls" for L k
    unfolding lstat_def
  proof (rule lstat_lookup, intro allI impI)
    fix j s assume j: "j < length (take k p)" "lookup (lay_tree L) (take j (take k p)) = Some s"
    then have s: "lookup (lay_tree L) (take j p) = Some s" by (simp add: take_take_less)
    show "\<not> is_symlink s"
    proof (cases "j = 0")
      case True
      with s plain [OF that] show ?thesis by (cases "lay_tree L") auto
    next
      case False
      with j(1) have "j \<in> {1 ..< length p}" by simp
      with plain [OF that] s have "plain_dir s" by blast
      then show ?thesis by (cases s) (simp_all add: plain_dir_def)
    qed
  qed
  have agree: "is_overlay_whiteout s = ovl_whiteout s" "is_dir s \<Longrightarrow> is_overlay_opaque_dir s = ovl_opaque s"
    if "L \<in> set Ls" "lookup (lay_tree L) q = Some s" for L q s
    using assms(3) that conventional_lookup whiteout_agrees opaque_agrees by blast+
  have hides: "\<not> lower_hides_path L p" if L: "L \<in> set Ls" for L
  proof
    assume "lower_hides_path L p"
    then obtain k s where k: "k \<in> {1 ..< length p}" and s: "lookup (lay_tree L) (take k p) = Some s" "is_dir s" "is_overlay_opaque_dir s"
      unfolding lower_hides_path_def stat [OF L] by (auto split: option.splits)
    with agree(2) [OF L s(1)] plain [OF L] show False by (auto simp: plain_dir_def)
  qed
  have "lower_metadata Ms p = first_node (filter_map (\<lambda>t. lookup t p) (map lay_tree Ms))" if "set Ms \<subseteq> set Ls" for Ms
    using that
  proof (induction Ms)
    case (Cons L Ms)
    then have "L \<in> set Ls" by simp
    with Cons hides stat [of L "length p"] agree(1) [of L p] show ?case
      by (cases "lookup (lay_tree L) p") (simp_all add: first_node_def)
  qed (simp add: first_node_def)
  moreover have "merged (map lay_tree Ls) p = first_node (filter_map (\<lambda>t. lookup t p) (map lay_tree Ls))"
    by (rule merged_first [OF assms(1)]) (use plain in auto)
  ultimately show ?thesis by simp
qed

section \<open>The scan is complete and sound\<close>

definition names_ok :: "string list \<Rightarrow> bool" where
  "names_ok p \<longleftrightarrow> (\<forall>n \<in> set p. name_ok n)"

lemma slash_path_inj:
  assumes "p \<noteq> []" "q \<noteq> []" "names_ok p" "names_ok q" "slash_path p = slash_path q"
  shows "p = q"
proof -
  have "split_on CHR ''/'' (slash_path r) = r" if "r \<noteq> []" "names_ok r" for r
    using that split_join [of r "CHR ''/''"] by (simp add: slash_path_def names_ok_def name_ok_def)
  with assms show ?thesis by metis
qed

lemma slash_path_nonempty: "q \<noteq> [] \<Longrightarrow> names_ok q \<Longrightarrow> slash_path q \<noteq> []"
  by (cases "(''/'', q)" rule: join.cases) (auto simp: slash_path_def names_ok_def name_ok_def)

lemma lookup_names: "wf_tree t \<Longrightarrow> lookup t p = Some s \<Longrightarrow> names_ok p"
proof (induction t p rule: lookup.induct)
  case (2 t n ns)
  then obtain c where c: "map_of (entries_of t) n = Some c" "lookup c ns = Some s"
    by (auto split: option.splits)
  moreover have "wf_tree c" by (rule wf_tree_child [OF 2(2) c(1)])
  moreover have "name_ok n" using 2(2) c(1) by (cases t) (auto dest!: map_of_SomeD)
  ultimately show ?case using 2(1) by (simp add: names_ok_def)
qed (simp add: names_ok_def)

lemma scan_dir_set:
  "wf_tree t \<Longrightarrow> e \<in> set (scan_overlay_dir Ls X rel t) \<longleftrightarrow>
    (\<exists>p s. p \<noteq> [] \<and> lookup t p = Some s \<and> e \<in> set (child_entries Ls X (rel @ p) s))"
proof (induction Ls X rel t rule: scan_overlay_dir.induct)
  case (1 Ls X rel m es)
  have IH: "e \<in> set (scan_overlay_dir Ls X (rel @ [fst x]) (snd x)) \<longleftrightarrow>
      (\<exists>p s. p \<noteq> [] \<and> lookup (snd x) p = Some s \<and> e \<in> set (child_entries Ls X (rel @ fst x # p) s))"
    if "x \<in> set es" for x
    using 1 that by simp
  have "e \<in> set (scan_overlay_dir Ls X rel (Dir m es)) \<longleftrightarrow>
      (\<exists>x \<in> set es. \<exists>p s. lookup (snd x) p = Some s \<and> e \<in> set (child_entries Ls X (rel @ fst x # p) s))"
  proof -
    have "e \<in> set (child_entries Ls X (rel @ [fst x]) (snd x)) \<or> e \<in> set (scan_overlay_dir Ls X (rel @ [fst x]) (snd x)) \<longleftrightarrow>
      (\<exists>p s. lookup (snd x) p = Some s \<and> e \<in> set (child_entries Ls X (rel @ fst x # p) s))" if "x \<in> set es" for x
    proof -
      have "(\<exists>p s. lookup (snd x) p = Some s \<and> e \<in> set (child_entries Ls X (rel @ fst x # p) s)) \<longleftrightarrow>
        e \<in> set (child_entries Ls X (rel @ [fst x]) (snd x)) \<or>
        (\<exists>p s. p \<noteq> [] \<and> lookup (snd x) p = Some s \<and> e \<in> set (child_entries Ls X (rel @ fst x # p) s))"
        by (metis lookup.simps(1) option.inject)
      with IH [OF that] show ?thesis by simp
    qed
    then show ?thesis by (auto simp: Let_def)
  qed
  also have "\<dots> \<longleftrightarrow> (\<exists>n c p s. map_of es n = Some c \<and> lookup c p = Some s \<and> e \<in> set (child_entries Ls X (rel @ n # p) s))"
    using 1(2) by (auto dest: map_of_SomeD) (metis map_of_SomeD fst_conv snd_conv)+
  also have "\<dots> \<longleftrightarrow> (\<exists>p s. p \<noteq> [] \<and> lookup (Dir m es) p = Some s \<and> e \<in> set (child_entries Ls X (rel @ p) s))"
    by (rule iffI; elim exE conjE) (fastforce split: option.splits simp: neq_Nil_conv)+
  finally show ?case .
qed (simp_all add: lookup_not_dir)

definition kinds_at :: "diff_entry list \<Rightarrow> string \<Rightarrow> diff_kind set" where
  "kinds_at es path = de_kind ` {e \<in> set es. de_path e = path}"

text \<open>
  What a diff ought to report of a node of the upper directory, given whether the lower layers have the path,
  in terms of the kernel's markers.
\<close>

definition expected_kinds :: "bool \<Rightarrow> tree option \<Rightarrow> diff_kind set" where
  "expected_kinds there node =
     (case node of None \<Rightarrow> {}
      | Some s \<Rightarrow>
          if ovl_whiteout s then {Deleted}
          else (if there then {Modified} else {Added}) \<union> (if ovl_opaque s then {OpaqueDir} else {}))"

lemma child_entries_path: "e \<in> set (child_entries Ls X p s) \<Longrightarrow> de_path e = slash_path p"
  by (auto simp: child_entries_def diff_entry_def Let_def split: if_splits)

lemma child_entries_kinds:
  assumes "conventional s"
  shows "de_kind ` set (child_entries Ls X p s) = expected_kinds (lower_metadata Ls p \<noteq> None) (Some s)"
proof -
  have k: "de_kind (diff_entry rel k ft Y t l u) = k" for rel k ft Y t l u
    by (simp add: diff_entry_def Let_def)
  have o': "ovl_opaque s \<longleftrightarrow> is_dir s \<and> is_overlay_opaque_dir s"
    using opaque_agrees [OF assms] by (cases s) auto
  show ?thesis
    unfolding expected_kinds_def o' whiteout_agrees [OF assms, symmetric] option.case
    by (cases "is_overlay_whiteout s"; cases "is_dir s"; cases "is_overlay_opaque_dir s"; cases "lower_metadata Ls p")
      (simp_all add: child_entries_def Let_def k insert_commute)
qed

text \<open>
  C27: The diff of a well-formed upper directory is complete, sound and ordered: at every path below it the
  kinds reported are exactly deleted for a whiteout, else added or modified, with opaque_dir besides for an
  opaque directory; nothing is reported elsewhere, and the entries are ordered by path and then by kind.
  Whether a path is added or modified follows the merged lower layers of overlayfs where every layer has a plain
  directory or nothing above the path (elsewhere it may not, as a finding reports). The upper directory and
  the layers are conventional, without the two markers that the kernel and the code read differently.
\<close>

theorem diff_classifies_every_path:
  assumes "wf_tree (Dir m es)" "p \<noteq> []" "names_ok p" "scan_overlay_diff Ls X (Some (Dir m es)) = Ok ds"
    and "conventional (Dir m es)" "\<forall>L \<in> set Ls. conventional (lay_tree L)"
  shows "(\<exists>there. kinds_at ds (slash_path p) = expected_kinds there (lookup (Dir m es) p) \<and>
      (plain_above Ls p \<longrightarrow> there = (merged (map lay_tree Ls) p \<noteq> None))) \<and>
    sorted (map (\<lambda>e. (de_path e, kind_str (de_kind e))) ds) \<and> kinds_at ds [] = {}"
proof -
  let ?t = "Dir m es"
  have ds: "ds = sort_key (\<lambda>e. (de_path e, kind_str (de_kind e))) (scan_overlay_dir Ls X [] ?t)"
    using assms(4) by (simp add: scan_overlay_diff_def del: scan_overlay_dir.simps)
  have set_ds: "e \<in> set ds \<longleftrightarrow> (\<exists>q s. q \<noteq> [] \<and> lookup ?t q = Some s \<and> e \<in> set (child_entries Ls X q s))" for e
    using scan_dir_set [OF assms(1), of e Ls X "[]"] unfolding ds set_sort by simp
  have at_p: "e \<in> set ds \<and> de_path e = slash_path p \<longleftrightarrow> (\<exists>s. lookup ?t p = Some s \<and> e \<in> set (child_entries Ls X p s))" for e
    unfolding set_ds
    using child_entries_path slash_path_inj [OF assms(2) _ assms(3) lookup_names [OF assms(1)]] assms(2) by metis
  have "kinds_at ds (slash_path p) = expected_kinds (lower_metadata Ls p \<noteq> None) (lookup ?t p)"
  proof (cases "lookup ?t p")
    case None
    with at_p show ?thesis unfolding kinds_at_def expected_kinds_def by auto
  next
    case (Some s)
    then have "{e \<in> set ds. de_path e = slash_path p} = set (child_entries Ls X p s)"
      using at_p by auto
    then show ?thesis
      unfolding kinds_at_def Some by (simp only: child_entries_kinds [OF conventional_lookup [OF assms(5) Some]])
  qed
  moreover have "kinds_at ds [] = {}"
  proof -
    have False if "e \<in> set ds" "de_path e = []" for e
    proof -
      from that(1) obtain q s where q: "q \<noteq> []" "lookup ?t q = Some s" "e \<in> set (child_entries Ls X q s)"
        unfolding set_ds by blast
      have "names_ok q" by (rule lookup_names [OF assms(1) q(2)])
      moreover have "slash_path q = []" using child_entries_path [OF q(3)] that(2) by simp
      ultimately show False
        using q(1) slash_path_nonempty by blast
    qed
    then show ?thesis by (auto simp: kinds_at_def)
  qed
  moreover have "plain_above Ls p \<longrightarrow> (lower_metadata Ls p \<noteq> None) = (merged (map lay_tree Ls) p \<noteq> None)"
    using lower_merged [OF assms(2) _ assms(6)] by simp
  moreover have "sorted (map (\<lambda>e. (de_path e, kind_str (de_kind e))) ds)" unfolding ds by (rule sorted_sort_key)
  ultimately show ?thesis by blast
qed

definition sample_overlay_meta :: "string \<Rightarrow> meta" where
  "sample_overlay_meta v = \<lparr>perm = 0x1ED, uid = 0, gid = 0, xattrs = [(''trusted.overlay.opaque'', bytes_of v)]\<rparr>"

definition sample_upper :: tree where
  "sample_upper = Dir (plain_meta 0x1ED)
     [(''old'', Char_Device (plain_meta 0) 0 0), (''new'', File (plain_meta 0x1A4) [1]),
      (''dir'', Dir (sample_overlay_meta ''y'') [(''f'', File (plain_meta 0x1A4) [2])])]"

definition sample_lower :: layer where
  "sample_lower = \<lparr>lay_tree = Dir (plain_meta 0x1ED)
     [(''dir'', Dir (plain_meta 0x1ED) []), (''old'', File (plain_meta 0x1A4) [])], lay_follow = \<lambda>_ _ _. None\<rparr>"

definition no_extra :: "string list \<Rightarrow> stat_extra" where
  "no_extra p = \<lparr>x_len = 4096, x_mtime = 0, x_mtime_nsec = 0, x_ctime = 0, x_ctime_nsec = 0\<rparr>"

lemma sample_upper_wf: "wf_tree sample_upper"
  by (simp add: sample_upper_def sample_overlay_meta_def plain_meta_def wf_meta_def name_ok_def)

lemma sample_lower_plain: "plain_above [sample_lower] [n]" "plain_above [sample_lower] [''dir'', n]"
  by (auto simp: plain_above_def sample_lower_def plain_dir_def plain_meta_def less_Suc_eq_le le_Suc_eq numeral_2_eq_2)

theorem diff_classifies_every_path_witness:
  "\<exists>ds. scan_overlay_diff [sample_lower] no_extra (Some sample_upper) = Ok ds \<and>
     kinds_at ds ''old'' = {Deleted} \<and> kinds_at ds ''new'' = {Added} \<and> kinds_at ds ''dir'' = {Modified, OpaqueDir} \<and>
     kinds_at ds ''dir/f'' = {Added} \<and> kinds_at ds ''other'' = {}"
proof -
  obtain ds where ds: "scan_overlay_diff [sample_lower] no_extra (Some sample_upper) = Ok ds"
    by (simp add: scan_overlay_diff_def sample_upper_def del: scan_overlay_dir.simps)
  have plain: "conventional sample_upper" "\<forall>L \<in> set [sample_lower]. conventional (lay_tree L)"
    by (simp_all add: sample_upper_def sample_lower_def sample_overlay_meta_def plain_meta_def bytes_of_def)
  have at: "kinds_at ds (slash_path p) = expected_kinds (merged [lay_tree sample_lower] p \<noteq> None) (lookup sample_upper p)"
    if "p \<noteq> []" "names_ok p" "plain_above [sample_lower] p" for p
    using diff_classifies_every_path [OF sample_upper_wf [unfolded sample_upper_def] that(1,2) ds [unfolded sample_upper_def]
        plain(1) [unfolded sample_upper_def] plain(2)] that(3)
    unfolding sample_upper_def by auto
  have ok: "names_ok [''old'']" "names_ok [''new'']" "names_ok [''dir'']" "names_ok [''dir'', ''f'']" "names_ok [''other'']"
    by (simp_all add: names_ok_def name_ok_def)
  note ab = sample_lower_plain
  note defs = expected_kinds_def sample_upper_def sample_lower_def child_of_def sample_overlay_meta_def plain_meta_def bytes_of_def
  have "kinds_at ds ''old'' = {Deleted}" using at [OF _ ok(1) ab(1)] by (simp add: slash_path_def defs)
  moreover have "kinds_at ds ''new'' = {Added}" using at [OF _ ok(2) ab(1)] by (simp add: slash_path_def defs)
  moreover have "kinds_at ds ''dir'' = {Modified, OpaqueDir}" using at [OF _ ok(3) ab(1)] by (simp add: slash_path_def defs) blast
  moreover have "kinds_at ds ''dir/f'' = {Added}" using at [OF _ ok(4) ab(2)] by (simp add: slash_path_def defs)
  moreover have "kinds_at ds ''other'' = {}" using at [OF _ ok(5) ab(1)] by (simp add: slash_path_def defs)
  ultimately show ?thesis using ds by blast
qed

section \<open>The lower layers as overlayfs merges them\<close>

text \<open>
  C28: Where no lower layer has an opaque directory, a whiteout, a symbolic link or a file above the path, the
  lower node the diff compares with is exactly the one overlayfs shows in the merged lower layers. The layers
  are conventional: the kernel and the code disagree on a whiteout attribute with an empty value (and on
  \<^verbatim>\<open>x\<close> for an opaque directory), which is reported as a finding.
\<close>

theorem lower_metadata_is_merged_view:
  assumes "p \<noteq> []" "plain_above Ls p" "\<forall>L \<in> set Ls. conventional (lay_tree L)"
  shows "lower_metadata Ls p = merged (map lay_tree Ls) p"
  by (rule lower_merged [OF assms])

theorem lower_metadata_is_merged_view_witness:
  "lower_metadata [sample_lower] [''dir'', ''f''] = merged [lay_tree sample_lower] [''dir'', ''f'']"
proof -
  have "\<forall>L \<in> set [sample_lower]. conventional (lay_tree L)" by (simp add: sample_lower_def plain_meta_def)
  from lower_metadata_is_merged_view [OF _ sample_lower_plain(2) this] show ?thesis by simp
qed

text \<open>
  Elsewhere the comparison departs from overlayfs in both directions: a file of an opaque directory of a
  lower layer counts as absent, although the layer's own entries stay visible; and a file of a directory that
  a higher layer has whited out counts as present.
\<close>

theorem lower_metadata_departs:
  assumes "map_of es d = Some (Dir md fs)" "map_of fs f = Some c" "\<not> ovl_whiteout c" "\<not> is_overlay_whiteout c"
  shows "(is_overlay_opaque_dir (Dir md fs) \<longrightarrow>
      lower_metadata (\<lparr>lay_tree = Dir m es, lay_follow = R\<rparr> # Ls) [d, f] = None \<and> merged (Dir m es # ts) [d, f] = Some c) \<and>
    (map_of ws d = Some (Char_Device mw 0 0) \<and> \<not> is_overlay_opaque_dir (Dir md fs) \<longrightarrow>
      lower_metadata [\<lparr>lay_tree = Dir m ws, lay_follow = R\<rparr>, \<lparr>lay_tree = Dir m es, lay_follow = R\<rparr>] [d, f] = Some c \<and>
      merged [Dir m ws, Dir m es] [d, f] = None)"
proof -
  have w: "\<not> is_overlay_whiteout (Dir md fs)" by (simp add: is_overlay_whiteout_def)
  have "visible (c # cs) = c # tl (visible (c # cs))" for cs
    using assms(3) by simp
  then have top: "merged (visible (c # cs)) [] = Some c" for cs by (metis merged.simps(2))
  have "lower_metadata (\<lparr>lay_tree = Dir m es, lay_follow = R\<rparr> # Ls) [d, f] = None \<and> merged (Dir m es # ts) [d, f] = Some c"
    if "is_overlay_opaque_dir (Dir md fs)"
    using assms that w top by (simp add: lower_hides_path_def lstat_def child_of_def)
  moreover have "lower_metadata [\<lparr>lay_tree = Dir m ws, lay_follow = R\<rparr>, \<lparr>lay_tree = Dir m es, lay_follow = R\<rparr>] [d, f] = Some c \<and>
      merged [Dir m ws, Dir m es] [d, f] = None"
    if "map_of ws d = Some (Char_Device mw 0 0)" "\<not> is_overlay_opaque_dir (Dir md fs)"
    using assms that by (simp add: lower_hides_path_def lstat_def child_of_def is_overlay_whiteout_def)
  ultimately show ?thesis by blast
qed

theorem lower_metadata_departs_witness:
  "lower_metadata [\<lparr>lay_tree = Dir (plain_meta 0) [(''d'', Dir (sample_overlay_meta ''y'') [(''f'', File (plain_meta 0) [1])])],
      lay_follow = \<lambda>_ _ _. None\<rparr>] [''d'', ''f''] = None \<and>
   lower_metadata [\<lparr>lay_tree = Dir (plain_meta 0) [(''d'', Char_Device (plain_meta 0) 0 0)], lay_follow = \<lambda>_ _ _. None\<rparr>,
      \<lparr>lay_tree = Dir (plain_meta 0) [(''d'', Dir (plain_meta 0) [(''f'', File (plain_meta 0) [1])])], lay_follow = \<lambda>_ _ _. None\<rparr>]
      [''d'', ''f''] = Some (File (plain_meta 0) [1])"
proof -
  let ?c = "File (plain_meta 0) [1]" and ?fs = "[(''f'', File (plain_meta 0) [1])]"
  have c: "map_of ?fs ''f'' = Some ?c" "\<not> ovl_whiteout ?c" "\<not> is_overlay_whiteout ?c" by (simp_all add: is_overlay_whiteout_def)
  have d: "map_of [(''d'', Dir m ?fs)] ''d'' = Some (Dir m ?fs)" for m by simp
  have o': "is_overlay_opaque_dir (Dir (sample_overlay_meta ''y'') ?fs)" "\<not> is_overlay_opaque_dir (Dir (plain_meta 0) ?fs)"
    by (simp_all add: is_overlay_opaque_dir_def lgetxattr_value_def sample_overlay_meta_def plain_meta_def)
  show ?thesis
    using lower_metadata_departs [OF d c, THEN conjunct1, rule_format, OF o'(1)]
      lower_metadata_departs [OF d c, THEN conjunct2, rule_format, OF conjI, OF _ o'(2), of "[(''d'', Char_Device (plain_meta 0) 0 0)]"]
    by simp
qed

text \<open>
  A directory whose opaque attribute is \<^verbatim>\<open>x\<close> is still merged by the kernel; for the code it is opaque, so a
  file of a lower layer below it counts as absent.
\<close>

lemma opaque_x_departs:
  assumes "map_of es d = Some (Dir md fs)" "map_of (xattrs md) ''trusted.overlay.opaque'' = Some [0x78]" "map_of fs f = None"
    and "map_of es' d = Some (Dir md' fs')" "map_of fs' f = Some c" "\<not> ovl_whiteout c"
  shows "lower_metadata [\<lparr>lay_tree = Dir m es, lay_follow = R\<rparr>, \<lparr>lay_tree = Dir m' es', lay_follow = R'\<rparr>] [d, f] = None \<and>
    merged [Dir m es, Dir m' es'] [d, f] = Some c"
proof -
  have o': "is_overlay_opaque_dir (Dir md fs)" "\<not> ovl_opaque (Dir md fs)"
    using assms(2) by (simp_all add: is_overlay_opaque_dir_def lgetxattr_value_def bytes_of_def)
  have "merged [Dir m es, Dir m' es'] [d, f] = merged (visible [c]) []"
    using assms o'(2) by (simp add: child_of_def)
  also have "\<dots> = Some c" using assms(6) by simp
  finally show ?thesis using assms(1) o'(1) by (simp add: lower_hides_path_def lstat_def)
qed

end
