(* ===== verification/Tar.thy ===== *)
theory Tar
  imports Overlay_Diff
begin

text \<open>
  The ustar reader and writer of \<^verbatim>\<open>rollout.rs\<close>. A header is a list of 512 bytes that the writer fills
  field by field; a run of the program that would panic is \<open>None\<close>.
\<close>

type_synonym 'a run = "'a io_result option"

definition run_bind :: "'a run \<Rightarrow> ('a \<Rightarrow> 'b run) \<Rightarrow> 'b run" where
  "run_bind r f = (case r of None \<Rightarrow> None | Some (Inl e) \<Rightarrow> Some (Inl e) | Some (Inr a) \<Rightarrow> f a)"

lemma run_bind_ok [simp]: "run_bind r f = Some (Inr b) \<longleftrightarrow> (\<exists>a. r = Some (Inr a) \<and> f a = Some (Inr b))"
  by (auto simp: run_bind_def split: option.splits sum.splits)

lemma run_bind_ret [simp]: "run_bind (Some (Inr a)) f = f a"
  by (simp add: run_bind_def)

section \<open>Fields of a buffer\<close>

definition slice :: "nat \<Rightarrow> nat \<Rightarrow> 'a list \<Rightarrow> 'a list" where
  "slice off n h = take n (drop off h)"

definition put :: "nat \<Rightarrow> 'a list \<Rightarrow> 'a list \<Rightarrow> 'a list" where
  "put off src h = take off h @ src @ drop (off + length src) h"

lemma length_put [simp]: "off + length src \<le> length h \<Longrightarrow> length (put off src h) = length h"
  by (simp add: put_def)

lemma slice_put_before: "off + n \<le> o' \<Longrightarrow> o' + length src \<le> length h \<Longrightarrow> slice off n (put o' src h) = slice off n h"
  by (simp add: slice_def put_def take_drop min_def)

lemma slice_put_after:
  "o' + length src \<le> off \<Longrightarrow> o' + length src \<le> length h \<Longrightarrow> slice off n (put o' src h) = slice off n h"
  by (simp add: slice_def put_def drop_append min_def)

lemma slice_put_same:
  "off + length src \<le> length h \<Longrightarrow> length src \<le> n \<Longrightarrow>
   slice off n (put off src h) = src @ slice (off + length src) (n - length src) h"
  by (simp add: slice_def put_def min_def)

lemma nth_put_same: "off < length h \<Longrightarrow> put off [b] h ! off = b"
  by (simp add: put_def nth_append)

lemma nth_put_other:
  "o' + length src \<le> length h \<Longrightarrow> i < o' \<or> o' + length src \<le> i \<Longrightarrow> put o' src h ! i = h ! i"
  by (auto simp: put_def nth_append)

lemma slice_zero [simp]: "slice off 0 h = []"
  by (simp add: slice_def)

lemma slice_replicate [simp]: "off + n \<le> m \<Longrightarrow> slice off n (replicate m b) = replicate n b"
  by (simp add: slice_def)

lemmas field_simps = slice_put_before slice_put_after slice_put_same nth_put_same nth_put_other

section \<open>Numbers\<close>

text \<open>
  \<^verbatim>\<open>write_octal\<close> into a field of \<open>w\<close> bytes: the digits, padded with zeros to \<open>w - 1\<close>, then the last
  byte is set to NUL whatever stands there. More than \<open>w\<close> digits index out of the field and panic.
\<close>

definition octal_digits :: "nat \<Rightarrow> nat \<Rightarrow> u8 list" where
  "octal_digits width v = (let s = bytes_of (show_base 8 v) in replicate (width - length s) 0x30 @ s)"

definition octal_field :: "nat \<Rightarrow> nat \<Rightarrow> u8 list option" where
  "octal_field w v =
     (let s = octal_digits (w - 1) v; start = w - (1 + length s)
      in if w < start + length s then None
         else Some (list_update (put start s (replicate w 0)) (w - 1) 0))"

definition parse_tar_octal :: "u8 list \<Rightarrow> nat io_result" where
  "parse_tar_octal bytes =
     (let s = filter (\<lambda>b. b \<noteq> 0) (takeWhile (\<lambda>b. b \<noteq> 0 \<and> b \<noteq> 0x20) bytes)
      in if s = [] then Ok 0
         else if \<not> utf8_ok s then Err Other ''invalid utf-8''
         else ok_or (parse_unsigned 8 (2 ^ 64) (trim (map (\<lambda>b. char_of (unat b)) s))) (IoError Other ''parse error''))"

section \<open>Names\<close>

definition write_bytes :: "nat \<Rightarrow> nat \<Rightarrow> u8 list \<Rightarrow> u8 list \<Rightarrow> u8 list io_result" where
  "write_bytes off len src h =
     (if len < length src then Err Other ''tar header field too long'' else Ok (put off src h))"

fun find_split :: "nat \<Rightarrow> u8 list \<Rightarrow> nat option" where
  "find_split 0 bytes = None"
| "find_split (Suc i) bytes =
     (if bytes ! i = 0x2F \<and> i \<le> 155 \<and> length bytes - (i + 1) \<le> 100 then Some i else find_split i bytes)"

definition write_tar_name :: "string \<Rightarrow> u8 list \<Rightarrow> u8 list io_result" where
  "write_tar_name name h =
     (let bytes = bytes_of name
      in if length bytes \<le> 100 then write_bytes 0 100 bytes h
         else if length bytes \<le> 255 then
           (case find_split (length bytes) bytes of
              Some i \<Rightarrow> rbind (write_bytes 0 100 (drop (i + 1) bytes) h) (write_bytes 345 155 (take i bytes))
            | None \<Rightarrow> Err Other (''tar path too long for ustar header: '' @ name))
         else Err Other (''tar path too long for ustar header: '' @ name))"

definition tar_header_string :: "u8 list \<Rightarrow> string io_result" where
  "tar_header_string bytes =
     (let s = takeWhile (\<lambda>b. b \<noteq> 0) bytes in if utf8_ok s then Ok (byte_string s) else Err Other ''invalid utf-8'')"

definition tar_header_name :: "u8 list \<Rightarrow> string io_result" where
  "tar_header_name h =
     rbind (tar_header_string (slice 0 100 h)) (\<lambda>name.
     rbind (tar_header_string (slice 345 155 h)) (\<lambda>prefix.
       Ok (if prefix = [] then name else prefix @ ''/'' @ name)))"

section \<open>Headers\<close>

definition lift_option :: "'a option \<Rightarrow> 'a run" where
  "lift_option x = map_option Inr x"

definition put_octal :: "nat \<Rightarrow> nat \<Rightarrow> nat \<Rightarrow> u8 list \<Rightarrow> u8 list run" where
  "put_octal off w v h = lift_option (map_option (\<lambda>f. put off f h) (octal_field w v))"

definition checksum :: "u8 list \<Rightarrow> nat" where
  "checksum h = sum_list (map unat h)"

text \<open>The fields common to \<^verbatim>\<open>write_tar_header\<close> and \<^verbatim>\<open>write_tar_special\<close>, up to the type flag.\<close>

definition header_base :: "string \<Rightarrow> nat \<Rightarrow> nat \<Rightarrow> u8 \<Rightarrow> u8 list run" where
  "header_base name mode sz typeflag =
     run_bind (Some (write_tar_name name (replicate 512 0))) (\<lambda>h.
     run_bind (put_octal 100 8 mode h) (\<lambda>h.
     run_bind (put_octal 108 8 0 h) (\<lambda>h.
     run_bind (put_octal 116 8 0 h) (\<lambda>h.
     run_bind (put_octal 124 12 sz h) (\<lambda>h.
     run_bind (put_octal 136 12 0 h) (\<lambda>h.
       Some (Ok (put 156 [typeflag] (put 148 (replicate 8 0x20) h)))))))))"

definition header_finish :: "u8 list \<Rightarrow> u8 list run" where
  "header_finish h =
     put_octal 148 8 (checksum h) h"

definition magic :: "u8 list \<Rightarrow> u8 list run" where
  "magic h = Some (rbind (write_bytes 257 6 (bytes_of ''ustar'' @ [0]) h) (write_bytes 263 2 (bytes_of ''00'')))"

definition write_tar_header :: "string \<Rightarrow> nat \<Rightarrow> nat \<Rightarrow> u8 \<Rightarrow> string option \<Rightarrow> u8 list run" where
  "write_tar_header name mode sz typeflag linkname =
     run_bind (header_base name mode sz typeflag) (\<lambda>h.
     run_bind (case linkname of None \<Rightarrow> Some (Ok h) | Some l \<Rightarrow> Some (write_bytes 157 100 (bytes_of l) h)) (\<lambda>h.
     run_bind (magic h) header_finish))"

definition write_tar_special :: "string \<Rightarrow> nat \<Rightarrow> u8 \<Rightarrow> nat \<Rightarrow> nat \<Rightarrow> u8 list run" where
  "write_tar_special name mode typeflag major minor =
     run_bind (header_base name mode 0 typeflag) (\<lambda>h.
     run_bind (magic h) (\<lambda>h.
     run_bind (if typeflag = 0x33 \<or> typeflag = 0x34
               then run_bind (put_octal 329 8 major h) (put_octal 337 8 minor) else Some (Ok h)) header_finish))"

definition write_tar_empty_file :: "string \<Rightarrow> nat \<Rightarrow> u8 list run" where
  "write_tar_empty_file name mode = write_tar_header name mode 0 0x30 None"

definition padding :: "nat \<Rightarrow> nat" where
  "padding sz = (512 - sz mod 512) mod 512"

definition pad_tar :: "nat \<Rightarrow> u8 list" where
  "pad_tar sz = replicate (padding sz) 0"

section \<open>Octal fields read back\<close>

lemma length_octal_field: "octal_field w v = Some f \<Longrightarrow> length f = w"
proof -
  assume a: "octal_field w v = Some f"
  let ?s = "octal_digits (w - 1) v"
  have le: "w - (1 + length ?s) + length ?s \<le> w" and f: "f = list_update (put (w - (1 + length ?s)) ?s (replicate w 0)) (w - 1) 0"
    using a by (auto simp: octal_field_def Let_def split: if_splits)
  then show ?thesis by (simp add: f)
qed

lemma octal_digits_fit:
  assumes "v < 8 ^ n" "0 < n"
  shows "length (octal_digits n v) = n"
  using length_show_base [of 8 v n] assms by (simp add: octal_digits_def bytes_of_def Let_def)

text \<open>Below the capacity of the field the digits fill it up to the closing NUL.\<close>

lemma octal_field_fit:
  assumes "v < 8 ^ n" "0 < n"
  shows "octal_field (Suc n) v = Some (octal_digits n v @ [0])"
proof -
  have "drop n (replicate (Suc n) (0 :: u8)) = [0]"
    by (simp add: drop_replicate Suc_diff_le del: replicate_Suc) simp
  then show ?thesis
    using octal_digits_fit [OF assms]
    by (simp add: octal_field_def put_def list_update_append Let_def del: replicate_Suc)
qed

definition octal_byte :: "u8 \<Rightarrow> bool" where
  "octal_byte b \<longleftrightarrow> b \<in> {0x30, 0x31, 0x32, 0x33, 0x34, 0x35, 0x36, 0x37}"

lemma octal_byte_plain: "octal_byte b \<Longrightarrow> b \<noteq> 0 \<and> b \<noteq> 0x20 \<and> b < 0x80"
  by (auto simp: octal_byte_def)

lemma set_bytes_octal: "\<forall>b \<in> set (bytes_of (show_base 8 v)). octal_byte b"
proof -
  have "octal_byte (of_char (digit_char d))" if "d < 8" for d
  proof -
    from that have "d = 0 \<or> d = 1 \<or> d = 2 \<or> d = 3 \<or> d = 4 \<or> d = 5 \<or> d = 6 \<or> d = 7" by linarith
    then show ?thesis by (elim disjE) (simp_all add: octal_byte_def)
  qed
  then show ?thesis using set_show_base [of 8 v] by (fastforce simp: bytes_of_def)
qed

lemma octal_digits_bytes: "\<forall>b \<in> set (octal_digits n v). octal_byte b"
  using set_bytes_octal [of v] by (auto simp: octal_digits_def Let_def octal_byte_def)

lemma parse_digits_zeros:
  "parse_digits 8 0 (replicate k CHR ''0'' @ s) = parse_digits 8 0 s"
  by (induction k) (simp_all add: digit_val_def)

lemma parse_octal_digits:
  assumes "v < 2 ^ 64"
  shows "parse_unsigned 8 (2 ^ 64) (byte_string (octal_digits n v)) = Some v"
proof -
  have z: "(char_of (unat (0x30 :: u8)) :: char) = CHR ''0''"
    by (simp add: char_of_def bit_simps)
  have s: "byte_string (octal_digits n v) = replicate (n - length (show_base 8 v)) CHR ''0'' @ show_base 8 v"
    using byte_string_bytes [of "show_base 8 v"]
    unfolding octal_digits_def Let_def byte_string_def map_append map_replicate z by (simp add: bytes_of_def)
  have hd: "hd (replicate k CHR ''0'' @ show_base 8 v) \<noteq> CHR ''+''" for k
  proof (cases k)
    case 0
    have "hd (show_base 8 v) \<in> digit_char ` {0 ..< 8}"
      using set_show_base [of 8 v] by (meson list.set_sel(1) show_base_nonempty subsetD order.refl numeral_le_iff semiring_norm)
    then obtain d where d: "hd (show_base 8 v) = digit_char d" "d < 8" by auto
    have "digit_char d \<in> ascii_digits" using d(2) by (intro digit_char_ascii) simp
    then have "digit_char d \<noteq> CHR ''+''" using plus_not_digit by metis
    then show ?thesis using 0 d(1) by simp
  qed simp
  show ?thesis
    unfolding s by (rule parse_unsigned_digits [OF _ _ _ assms]) (simp_all add: hd parse_digits_zeros parse_show_base)
qed

lemma octal_byte_digit: "octal_byte b \<Longrightarrow> char_of (unat b) \<in> ascii_digits"
  unfolding octal_byte_def
  by (elim insertE emptyE) (simp_all only:, simp_all add: ascii_digits_def char_of_def bit_simps)

lemma parse_octal_field:
  assumes "v < 8 ^ n" "0 < n" "v < 2 ^ 64" "octal_field (Suc n) v = Some f"
  shows "parse_tar_octal f = Ok v"
proof -
  let ?d = "octal_digits n v"
  have f: "f = ?d @ [0]" using octal_field_fit [OF assms(1,2)] assms(4) by simp
  have bytes: "\<forall>b \<in> set ?d. octal_byte b" by (rule octal_digits_bytes)
  have take: "takeWhile (\<lambda>b. b \<noteq> 0 \<and> b \<noteq> 0x20) f = ?d"
    unfolding f using bytes octal_byte_plain by (subst takeWhile_append2) auto
  have filter: "filter (\<lambda>b. b \<noteq> 0) ?d = ?d" using bytes octal_byte_plain by (auto intro!: filter_True)
  have ne: "?d \<noteq> []" using octal_digits_fit [OF assms(1,2)] assms(2) by auto
  have utf: "utf8_ok ?d" using bytes octal_byte_plain by (intro utf8_ascii) (auto simp: ascii_bytes_def)
  have trim: "trim (byte_string ?d) = byte_string ?d"
    using bytes octal_byte_digit by (intro trim_ascii_digits) (auto simp: byte_string_def)
  show ?thesis
    using parse_octal_digits [OF assms(3), of n] trim
    unfolding parse_tar_octal_def take filter Let_def by (simp add: ne utf byte_string_def)
qed

section \<open>Writing an archive\<close>

fun run_concat :: "('a \<Rightarrow> u8 list run) \<Rightarrow> 'a list \<Rightarrow> u8 list run" where
  "run_concat f [] = Some (Ok [])"
| "run_concat f (x # xs) = run_bind (f x) (\<lambda>a. run_bind (run_concat f xs) (\<lambda>b. Some (Ok (a @ b))))"

lemma run_concat_cong [fundef_cong]:
  "xs = ys \<Longrightarrow> (\<And>x. x \<in> set ys \<Longrightarrow> f x = g x) \<Longrightarrow> run_concat f xs = run_concat g ys"
  by (induction xs arbitrary: ys) auto

definition tar_mode :: "tree \<Rightarrow> nat" where
  "tar_mode t = unat (perm (meta_of t) AND 0xFFF)"

fun write_tar_path :: "string \<Rightarrow> tree \<Rightarrow> u8 list run" where
  "write_tar_path name (Dir m es) =
     write_tar_header (if ends_with name ''/'' then name else name @ ''/'') (tar_mode (Dir m es)) 0 0x35 None"
| "write_tar_path name (Symlink m l) = write_tar_header name (tar_mode (Symlink m l)) 0 0x32 (Some l)"
| "write_tar_path name (File m c) =
     run_bind (write_tar_header name (tar_mode (File m c)) (length c) 0x30 None) (\<lambda>h. Some (Ok (h @ c @ pad_tar (length c))))"
| "write_tar_path name (Char_Device m ma mi) =
     write_tar_special name (tar_mode (Char_Device m ma mi)) 0x33 (unat ma) (unat mi)"
| "write_tar_path name (Block_Device m ma mi) =
     write_tar_special name (tar_mode (Block_Device m ma mi)) 0x34 (unat ma) (unat mi)"
| "write_tar_path name (Fifo m) = write_tar_special name (tar_mode (Fifo m)) 0x36 0 0"
| "write_tar_path name (Socket m) = Some (Ok [])"

fun write_tree_tar :: "string list \<Rightarrow> tree \<Rightarrow> u8 list run" where
  "write_tree_tar rel (Dir m es) =
     run_concat (\<lambda>x. run_bind (write_tar_path (slash_path (rel @ [fst x])) (snd x)) (\<lambda>a.
       if is_dir (snd x) then run_bind (write_tree_tar (rel @ [fst x]) (snd x)) (\<lambda>b. Some (Ok (a @ b)))
       else Some (Ok a))) (in_order es)"
| "write_tree_tar rel t = Some (Err (OsError 20) [])"

definition write_checkpoint_artifact_tar :: "u8 list \<Rightarrow> tree \<Rightarrow> u8 list run" where
  "write_checkpoint_artifact_tar manifest rootfs =
     run_bind (write_tar_header ''.rsrun/'' 0x1ED 0 0x35 None) (\<lambda>h1.
     run_bind (write_tar_header ''.rsrun/checkpoint.json'' 0x1A4 (length manifest) 0x30 None) (\<lambda>h2.
     run_bind (write_tar_header ''rootfs/'' 0x1ED 0 0x35 None) (\<lambda>h3.
     run_bind (write_tree_tar [''rootfs''] rootfs) (\<lambda>t.
       Some (Ok (h1 @ h2 @ manifest @ pad_tar (length manifest) @ h3 @ t @ replicate 1024 0))))))"

text \<open>The exported diff: whiteouts and opaque markers as empty files, what was added or changed as itself.\<close>

definition tar_whiteout_path :: "string \<Rightarrow> string" where
  "tar_whiteout_path path =
     (case rsplit_once CHR ''/'' path of
        Some (dir, name) \<Rightarrow> dir @ ''/.wh.'' @ name
      | None \<Rightarrow> ''.wh.'' @ path)"

definition overlay_tar_entry :: "(string list \<Rightarrow> tree option) \<Rightarrow> diff_entry \<Rightarrow> u8 list run" where
  "overlay_tar_entry upper e =
     (case de_kind e of
        Deleted \<Rightarrow> write_tar_empty_file (tar_whiteout_path (de_path e)) 0
      | OpaqueDir \<Rightarrow>
          write_tar_empty_file (if de_path e = [] then ''.wh..wh..opq'' else de_path e @ ''/.wh..wh..opq'') 0
      | _ \<Rightarrow> (case de_upper e of None \<Rightarrow> Some (Ok [])
              | Some p \<Rightarrow> (case upper p of None \<Rightarrow> Some (Err NotFound [])
                         | Some t \<Rightarrow> write_tar_path (de_path e) t)))"

definition write_overlay_tar :: "(string list \<Rightarrow> tree option) \<Rightarrow> diff_entry list \<Rightarrow> u8 list run" where
  "write_overlay_tar upper es =
     run_bind (run_concat (overlay_tar_entry upper) es) (\<lambda>b. Some (Ok (b @ replicate 1024 0)))"

section \<open>Reading an archive\<close>

text \<open>
  What one entry does to the file system, with the creation of the parent directory and, but for files
  and directories, the removal of what was there: \<open>Op_Partial\<close> is a file whose content was cut short,
  \<open>Op_Clear\<close> stops after the removal.
\<close>

datatype tar_op =
    Op_Mkdir (op_path: string) u32
  | Op_Symlink (op_path: string) string
  | Op_File (op_path: string) "u8 list" u32
  | Op_Partial (op_path: string) "u8 list"
  | Op_Node (op_path: string) u8 u32 u32 u32
  | Op_Clear (op_path: string)

text \<open>
  \<^verbatim>\<open>copy_exact\<close> through a buffer: the bytes written, and the rest of the input unless it ended early.
\<close>

function copy_exact :: "nat \<Rightarrow> nat \<Rightarrow> u8 list \<Rightarrow> u8 list \<times> u8 list option" where
  "copy_exact buf n input =
     (if n = 0 \<or> buf = 0 then ([], Some input)
      else let want = min n buf
           in if length input < want then ([], None)
              else let (w, r) = copy_exact buf (n - want) (drop want input) in (take want input @ w, r))"
  by pat_completeness auto
termination by (relation "measure (\<lambda>(buf, n, input). n)") auto

declare copy_exact.simps [simp del]

definition eof :: io_error where
  "eof = IoError UnexpectedEof ''failed to fill whole buffer''"

definition skip_exact :: "nat \<Rightarrow> u8 list \<Rightarrow> u8 list io_result" where
  "skip_exact n input = ok_or (snd (copy_exact 8192 n input)) eof"

definition pad_tar_read :: "nat \<Rightarrow> u8 list \<Rightarrow> u8 list io_result" where
  "pad_tar_read sz input = (if 0 < padding sz then skip_exact (padding sz) input else Ok input)"

fun push_components :: "string \<Rightarrow> component list \<Rightarrow> string io_result" where
  "push_components out [] = Ok out"
| "push_components out (c # cs) =
     (case c of
        Normal part \<Rightarrow> push_components (path_join out part) cs
      | CurDir \<Rightarrow> push_components out cs
      | _ \<Rightarrow> Err Other ''tar entry escapes artifact root'')"

definition safe_artifact_path :: "string \<Rightarrow> string \<Rightarrow> string io_result" where
  "safe_artifact_path root name =
     (if is_absolute name then Err Other ''tar entry path is absolute'' else push_components root (components name))"

record tar_head =
  th_name :: string
  th_size :: nat
  th_mode :: u32
  th_flag :: u8
  th_link :: string

definition read_tar_header :: "u8 list \<Rightarrow> tar_head io_result" where
  "read_tar_header h =
     rbind (tar_header_name h) (\<lambda>name.
     rbind (parse_tar_octal (slice 124 12 h)) (\<lambda>sz.
     rbind (parse_tar_octal (slice 100 8 h)) (\<lambda>mode.
     rbind (tar_header_string (slice 157 100 h)) (\<lambda>link.
       Ok \<lparr>th_name = name, th_size = sz, th_mode = of_nat mode, th_flag = h ! 156, th_link = link\<rparr>))))"

type_synonym 's exec = "tar_op \<Rightarrow> 's \<Rightarrow> unit io_result \<times> 's"

text \<open>A file's content follows its header; other entries skip their content, if they announce any.\<close>

definition skip_content :: "nat \<Rightarrow> u8 list \<Rightarrow> u8 list io_result" where
  "skip_content sz input = rbind (skip_exact sz input) (pad_tar_read sz)"

definition node_numbers :: "u8 \<Rightarrow> u8 list \<Rightarrow> (u32 \<times> u32) io_result" where
  "node_numbers flag h =
     (if flag = 0x33 \<or> flag = 0x34 then
        rbind (parse_tar_octal (slice 329 8 h)) (\<lambda>ma.
        rbind (parse_tar_octal (slice 337 8 h)) (\<lambda>mi. Ok (of_nat ma, of_nat mi)))
      else Ok (0, 0))"

definition exec_then :: "'s exec \<Rightarrow> tar_op \<Rightarrow> u8 list io_result \<Rightarrow> 's \<Rightarrow> u8 list io_result \<times> 's" where
  "exec_then exec act rest s =
     (case exec act s of (Inl e, s) \<Rightarrow> (Inl e, s) | (Inr _, s) \<Rightarrow> (rest, s))"

definition extract_entry :: "'s exec \<Rightarrow> string \<Rightarrow> u8 list \<Rightarrow> u8 list \<Rightarrow> 's \<Rightarrow> u8 list io_result \<times> 's" where
  "extract_entry exec dst h rest s =
     (case rbind (read_tar_header h) (\<lambda>hr. rbind (safe_artifact_path dst (th_name hr)) (\<lambda>target. Ok (hr, target))) of
        Inl e \<Rightarrow> (Inl e, s)
      | Inr (hr, target) \<Rightarrow>
          let flag = th_flag hr; sz = th_size hr; skip = (if 0 < sz then skip_content sz rest else Ok rest)
          in if flag = 0x35 then exec_then exec (Op_Mkdir target (th_mode hr)) skip s
             else if flag = 0x32 then exec_then exec (Op_Symlink target (th_link hr)) skip s
             else if flag = 0x30 \<or> flag = 0 then
               (case copy_exact 65536 sz rest of
                  (w, None) \<Rightarrow> exec_then exec (Op_Partial target w) (Inl eof) s
                | (w, Some rest) \<Rightarrow> exec_then exec (Op_File target w (th_mode hr)) (pad_tar_read sz rest) s)
             else if flag = 0x33 \<or> flag = 0x34 \<or> flag = 0x36 then
               (case node_numbers flag h of
                  Inl e \<Rightarrow> exec_then exec (Op_Clear target) (Inl e) s
                | Inr (ma, mi) \<Rightarrow> exec_then exec (Op_Node target flag (th_mode hr) ma mi) skip s)
             else (skip_content sz rest, s))"


text \<open>The loop of \<^verbatim>\<open>extract_checkpoint_artifact_tar\<close>: every entry takes at least its header from the input.\<close>

lemma copy_exact_rest: "copy_exact buf n input = (w, Some r) \<Longrightarrow> length r \<le> length input"
proof (induction buf n input arbitrary: w rule: copy_exact.induct)
  case (1 buf n input)
  show ?case
  proof (cases "n = 0 \<or> buf = 0 \<or> length input < min n buf")
    case True
    with 1(2) show ?thesis by (subst (asm) copy_exact.simps) (auto simp: Let_def split: if_splits)
  next
    case False
    with 1(2) obtain w' where "copy_exact buf (n - min n buf) (drop (min n buf) input) = (w', Some r)"
      by (subst (asm) copy_exact.simps) (auto simp: Let_def split: prod.splits)
    with 1(1) [OF _ refl _ ] False have "length r \<le> length (drop (min n buf) input)" by blast
    then show ?thesis by simp
  qed
qed

lemma skip_exact_rest: "skip_exact n input = Ok r \<Longrightarrow> length r \<le> length input"
  by (cases "copy_exact 8192 n input") (auto simp: skip_exact_def dest: copy_exact_rest)

lemma pad_read_rest: "pad_tar_read n input = Ok r \<Longrightarrow> length r \<le> length input"
  by (auto simp: pad_tar_read_def dest: skip_exact_rest split: if_splits)

lemma skip_content_rest: "skip_content n input = Ok r \<Longrightarrow> length r \<le> length input"
  by (auto simp: skip_content_def dest!: skip_exact_rest pad_read_rest)

lemma exec_then_rest: "exec_then exec act rest s = (Inr r, s') \<Longrightarrow> rest = Inr r"
  by (auto simp: exec_then_def split: prod.splits sum.splits)

lemma extract_entry_rest:
  assumes "extract_entry exec dst h rest s = (Inr r, s')"
  shows "length r \<le> length rest"
proof -
  have skip: "(if 0 < n then skip_content n rest else Ok rest) = Inr r \<Longrightarrow> length r \<le> length rest" for n
    by (auto dest: skip_content_rest split: if_splits)
  have whole: "copy_exact 65536 n rest = (w, Some r') \<Longrightarrow> pad_tar_read k r' = Inr r \<Longrightarrow> length r \<le> length rest" for n w r' k
    using copy_exact_rest pad_read_rest by (metis order_trans)
  show ?thesis
    using assms unfolding extract_entry_def Let_def
    by (auto split: sum.splits prod.splits if_splits option.splits dest!: exec_then_rest dest: skip whole skip_content_rest)
qed

function extract_checkpoint_artifact_tar :: "'s exec \<Rightarrow> string \<Rightarrow> u8 list \<Rightarrow> 's \<Rightarrow> unit io_result \<times> 's" where
  "extract_checkpoint_artifact_tar exec dst input s =
     (if length input < 512 then (Inl eof, s)
      else if \<forall>b \<in> set (take 512 input). b = 0 then
        (if length (drop 512 input) < 512 then (Inl eof, s) else (Ok (), s))
      else case extract_entry exec dst (take 512 input) (drop 512 input) s of
          (Inl e, s) \<Rightarrow> (Inl e, s)
        | (Inr rest, s) \<Rightarrow> extract_checkpoint_artifact_tar exec dst rest s)"
  by pat_completeness auto
termination
  by (relation "measure (\<lambda>(exec, dst, input, s). length input)") (auto dest!: sym [THEN extract_entry_rest])

declare extract_checkpoint_artifact_tar.simps [simp del]

section \<open>Extraction stays below its directory\<close>

text \<open>The paths an extraction may name: the directory with plain names appended.\<close>

definition below :: "string \<Rightarrow> string \<Rightarrow> bool" where
  "below dst p \<longleftrightarrow> (\<exists>ns. p = foldl path_join dst ns \<and>
     (\<forall>n \<in> set ns. n \<noteq> [] \<and> n \<noteq> ''.'' \<and> n \<noteq> ''..'' \<and> CHR ''/'' \<notin> set n))"

lemma comp_of_Normal: "comp_of s = Some (Normal n) \<Longrightarrow> n = s \<and> n \<noteq> [] \<and> n \<noteq> ''.'' \<and> n \<noteq> ''..''"
  by (auto simp: comp_of_def split: if_splits)

lemma components_Normal:
  assumes "Normal n \<in> set (components p)"
  shows "n \<noteq> [] \<and> n \<noteq> ''.'' \<and> n \<noteq> ''..'' \<and> CHR ''/'' \<notin> set n"
proof -
  have "Normal n \<in> set (filter_map comp_of (split_on CHR ''/'' p))"
    using assms by (auto simp: components_def split: if_splits)
  then obtain s where "s \<in> set (split_on CHR ''/'' p)" "comp_of s = Some (Normal n)"
    by (auto simp: set_filter_map)
  then show ?thesis using comp_of_Normal split_on_pieces by metis
qed

lemma push_components_below:
  assumes "below dst out" "\<And>n. Normal n \<in> set cs \<Longrightarrow> n \<noteq> [] \<and> n \<noteq> ''.'' \<and> n \<noteq> ''..'' \<and> CHR ''/'' \<notin> set n"
    and "push_components out cs = Ok p"
  shows "below dst p"
  using assms
proof (induction out cs rule: push_components.induct)
  case (2 out c cs)
  show ?case
  proof (cases c)
    case (Normal n)
    from 2(3) obtain ns where ns: "out = foldl path_join dst ns"
      "\<forall>n \<in> set ns. n \<noteq> [] \<and> n \<noteq> ''.'' \<and> n \<noteq> ''..'' \<and> CHR ''/'' \<notin> set n" by (auto simp: below_def)
    have "path_join out n = foldl path_join dst (ns @ [n])" using ns by simp
    moreover have "\<forall>k \<in> set (ns @ [n]). k \<noteq> [] \<and> k \<noteq> ''.'' \<and> k \<noteq> ''..'' \<and> CHR ''/'' \<notin> set k"
      using ns(2) 2(4) [of n] Normal by auto
    ultimately have "below dst (path_join out n)" unfolding below_def by blast
    with 2 Normal show ?thesis by simp
  next
    case CurDir
    with 2 show ?thesis by simp
  qed (use 2 in auto)
qed simp

lemma safe_artifact_path_below: "safe_artifact_path dst name = Ok p \<Longrightarrow> below dst p"
proof -
  assume "safe_artifact_path dst name = Ok p"
  then have "push_components dst (components name) = Ok p"
    by (simp add: safe_artifact_path_def split: if_splits)
  moreover have "below dst dst" by (auto simp: below_def intro: exI [of _ "[]"])
  ultimately show ?thesis using push_components_below components_Normal by blast
qed

lemma extract_entry_invariant:
  assumes "\<And>act s. Q s \<Longrightarrow> below dst (op_path act) \<Longrightarrow> Q (snd (exec act s))" "Q s"
  shows "Q (snd (extract_entry exec dst h rest s))"
proof -
  have step: "Q (snd (exec_then exec act r s))" if "below dst (op_path act)" for act r
    using assms(1) [OF assms(2) that] by (cases "exec act s") (auto simp: exec_then_def split: sum.split)
  show ?thesis
    using assms(2)
    by (auto simp: extract_entry_def Let_def step dest!: safe_artifact_path_below split: sum.splits prod.splits option.splits)
qed

lemma extract_invariant:
  "(\<And>act s. Q s \<Longrightarrow> below dst (op_path act) \<Longrightarrow> Q (snd (exec act s))) \<Longrightarrow> Q s \<Longrightarrow>
   Q (snd (extract_checkpoint_artifact_tar exec dst input s))"
proof (induction exec dst input s rule: extract_checkpoint_artifact_tar.induct)
  case (1 exec dst input s)
  have entry: "Q (snd (extract_entry exec dst (take 512 input) (drop 512 input) s))"
    by (rule extract_entry_invariant) (use 1(2,3) in auto)
  show ?case
  proof (cases "length input < 512 \<or> (\<forall>b \<in> set (take 512 input). b = 0)")
    case True
    with 1(3) show ?thesis by (subst extract_checkpoint_artifact_tar.simps) auto
  next
    case False
    obtain r s' where e: "extract_entry exec dst (take 512 input) (drop 512 input) s = (r, s')" by fastforce
    with entry have Qs: "Q s'" by simp
    show ?thesis
    proof (cases r)
      case (Inl err)
      with False e Qs show ?thesis by (subst extract_checkpoint_artifact_tar.simps) auto
    next
      case (Inr rest)
      have "Q (snd (extract_checkpoint_artifact_tar exec dst rest s'))"
        using 1(1) [OF _ _ e [symmetric] Inr] False 1(2) Qs by blast
      with False e Inr show ?thesis by (subst extract_checkpoint_artifact_tar.simps) auto
    qed
  qed
qed

text \<open>
  C33: Whatever the artifact, everything its extraction does names the destination directory with plain names
  appended: no entry name that is absolute or climbs out is acted on, so that any condition on the file system
  that such operations keep still holds when the extraction ends, with success or with an error.
\<close>

theorem extraction_confined:
  assumes "\<And>act s. Q s \<Longrightarrow> below dst (op_path act) \<Longrightarrow> Q (snd (exec act s))" "Q s"
  shows "Q (snd (extract_checkpoint_artifact_tar exec dst input s))"
  by (rule extract_invariant [OF assms])

definition log_exec :: "string list exec" where
  "log_exec act s = (Ok (), s @ [op_path act])"

theorem extraction_confined_witness:
  "(\<Union>input. set (snd (extract_checkpoint_artifact_tar log_exec ''/tmp/x'' input []))) \<subseteq> Collect (below ''/tmp/x'')"
proof -
  have "\<forall>p \<in> set (snd (extract_checkpoint_artifact_tar log_exec ''/tmp/x'' input [])). below ''/tmp/x'' p" for input
    by (rule extraction_confined [where Q = "\<lambda>s. \<forall>p \<in> set s. below ''/tmp/x'' p"])
      (auto simp: log_exec_def)
  then show ?thesis by blast
qed

section \<open>Headers read back\<close>

text \<open>Names the round trip covers: plain ASCII without NUL, relative, not empty.\<close>

definition ascii_text :: "string \<Rightarrow> bool" where
  "ascii_text s \<longleftrightarrow> (\<forall>c \<in> set s. of_char c < (0x80 :: u8) \<and> of_char c \<noteq> (0 :: u8))"

lemma ascii_text_bytes: "ascii_text s \<longleftrightarrow> ascii_bytes (bytes_of s) \<and> 0 \<notin> set (bytes_of s)"
  by (auto simp: ascii_text_def ascii_bytes_def bytes_of_def)

lemma ascii_text_append [simp]: "ascii_text (s @ t) \<longleftrightarrow> ascii_text s \<and> ascii_text t"
  by (auto simp: ascii_text_def)

lemma length_bytes [simp]: "length (bytes_of s) = length s"
  by (simp add: bytes_of_def)

lemma takeWhile_field:
  "0 \<notin> set src \<Longrightarrow> takeWhile (\<lambda>b. b \<noteq> 0) (src @ replicate k (0 :: u8)) = src"
  by (induction src) auto

lemma header_string_field:
  "ascii_text s \<Longrightarrow> tar_header_string (bytes_of s @ replicate k 0) = Ok s"
  by (simp add: tar_header_string_def Let_def takeWhile_field ascii_text_bytes utf8_ascii)

lemma bytes_take: "take i (bytes_of s) = bytes_of (take i s)" and bytes_drop: "drop i (bytes_of s) = bytes_of (drop i s)"
  by (simp_all add: bytes_of_def take_map drop_map)

lemma ascii_text_take: "ascii_text s \<Longrightarrow> ascii_text (take i s)" and ascii_text_drop: "ascii_text s \<Longrightarrow> ascii_text (drop i s)"
  by (auto simp: ascii_text_def dest: in_set_takeD in_set_dropD)

lemma find_split_Some:
  "find_split k bytes = Some i \<Longrightarrow> i < k \<and> bytes ! i = 0x2F \<and> i \<le> 155 \<and> length bytes - (i + 1) \<le> 100"
  by (induction k) (auto split: if_splits)

lemma slash_byte: "(of_char c :: u8) = 0x2F \<longleftrightarrow> c = CHR ''/''"
proof
  assume "(of_char c :: u8) = 0x2F"
  then have "c = char_of (unat (0x2F :: u8))" by (metis char_of_byte)
  then show "c = CHR ''/''" by (simp only:) (simp add: char_of_def bit_simps)
qed simp

text \<open>The name is split over both fields in a way that reading puts together again.\<close>

lemma write_tar_name_reads:
  assumes "write_tar_name name (replicate 512 0) = Ok h" "ascii_text name" "name \<noteq> []" "hd name \<noteq> CHR ''/''"
  shows "length h = 512 \<and> tar_header_name h = Ok name \<and>
    (\<forall>off n. 100 \<le> off \<longrightarrow> off + n \<le> 345 \<longrightarrow> slice off n h = replicate n 0)"
proof (cases "length name \<le> 100")
  case True
  then have h: "h = put 0 (bytes_of name) (replicate 512 0)"
    using assms(1) by (auto simp: write_tar_name_def write_bytes_def Let_def)
  have "slice 0 100 h = bytes_of name @ replicate (100 - length name) 0"
    unfolding h using True by (subst slice_put_same) simp_all
  moreover have "slice 345 155 h = replicate 155 0"
    unfolding h using True by (subst slice_put_after) simp_all
  moreover have "slice off n h = replicate n 0" if "100 \<le> off" "off + n \<le> 345" for off n
    unfolding h using True that by (subst slice_put_after) simp_all
  moreover have "tar_header_string (replicate k 0) = Ok []" for k
    by (cases k) (simp_all add: tar_header_string_def Let_def byte_string_def)
  ultimately show ?thesis
    using True assms(2) by (simp add: tar_header_name_def header_string_field h)
next
  case False
  then obtain i where i: "find_split (length name) (bytes_of name) = Some i" and len: "length name \<le> 255"
    and h: "rbind (write_bytes 0 100 (drop (i + 1) (bytes_of name)) (replicate 512 0))
      (write_bytes 345 155 (take i (bytes_of name))) = Ok h"
    using assms(1) by (auto simp: write_tar_name_def Let_def split: if_splits option.splits)
  let ?p = "take i name" and ?s = "drop (i + 1) name"
  from find_split_Some [OF i] have fs: "i < length name" "bytes_of name ! i = 0x2F" "i \<le> 155" "length name - (i + 1) \<le> 100"
    by simp_all
  then have "name ! i = CHR ''/''" by (simp add: bytes_of_def slash_byte)
  then have name: "name = ?p @ ''/'' @ ?s"
    using id_take_nth_drop [OF fs(1)] by simp
  have p: "?p \<noteq> []"
  proof
    assume "?p = []"
    then have "i = 0" using fs(1) by auto
    with \<open>name ! i = CHR ''/''\<close> assms(3,4) show False by (cases name) auto
  qed
  have h: "h = put 345 (bytes_of ?p) (put 0 (bytes_of ?s) (replicate 512 0))"
    using h fs by (auto simp: write_bytes_def bytes_take bytes_drop split: if_splits)
  have l: "length ?p \<le> 155" "length ?s \<le> 100" using fs by auto
  have "slice 0 100 h = bytes_of ?s @ replicate (100 - length ?s) 0"
    unfolding h using l by (subst slice_put_before; simp) (subst slice_put_same; simp)
  moreover have "slice 345 155 h = bytes_of ?p @ replicate (155 - length ?p) 0"
    unfolding h using l by (subst slice_put_same; simp) (subst slice_put_after; simp)
  moreover have "slice off n h = replicate n 0" if "100 \<le> off" "off + n \<le> 345" for off n
    unfolding h using l that by (subst slice_put_before; simp) (subst slice_put_after; simp)
  moreover have "tar_header_string (bytes_of ?s @ replicate k 0) = Ok ?s" "tar_header_string (bytes_of ?p @ replicate k 0) = Ok ?p" for k
    using ascii_text_take [OF assms(2)] ascii_text_drop [OF assms(2)] by (simp_all add: header_string_field)
  moreover have "length h = 512" unfolding h using l by simp
  ultimately show ?thesis
    using p name by (simp add: tar_header_name_def)
qed

definition header_reads :: "string \<Rightarrow> nat \<Rightarrow> nat \<Rightarrow> u8 \<Rightarrow> u8 list \<Rightarrow> bool" where
  "header_reads name mode sz flag h \<longleftrightarrow>
     length h = 512 \<and> tar_header_name h = Ok name \<and> parse_tar_octal (slice 100 8 h) = Ok mode \<and>
     parse_tar_octal (slice 124 12 h) = Ok sz \<and> h ! 156 = flag"

definition zero_tail :: "u8 list \<Rightarrow> bool" where
  "zero_tail h \<longleftrightarrow> (\<forall>off n. 157 \<le> off \<longrightarrow> off + n \<le> 345 \<longrightarrow> slice off n h = replicate n 0)"

lemma header_reads_put:
  assumes "header_reads name mode sz flag h"
    and "157 \<le> off \<and> off + length src \<le> 345 \<or> 136 \<le> off \<and> off + length src \<le> 156"
  shows "header_reads name mode sz flag (put off src h)"
proof -
  have l: "length h = 512" using assms(1) by (simp add: header_reads_def)
  have b: "136 \<le> off" "off + length src \<le> 345" and c: "156 < off \<or> off + length src \<le> 156"
    using assms(2) by linarith+
  have "slice o' n (put off src h) = slice o' n h" if "o' + n \<le> 136" for o' n
    by (rule slice_put_before) (use that b l in linarith)+
  from this [of 0 100] this [of 100 8] this [of 124 12]
  have "slice 0 100 (put off src h) = slice 0 100 h" "slice 100 8 (put off src h) = slice 100 8 h"
    "slice 124 12 (put off src h) = slice 124 12 h" by simp_all
  moreover have "slice 345 155 (put off src h) = slice 345 155 h"
    by (rule slice_put_after) (use b l in linarith)+
  moreover have "put off src h ! 156 = h ! 156"
    by (rule nth_put_other) (use b c l in linarith)+
  moreover have "length (put off src h) = 512" using b l by simp
  ultimately show ?thesis using assms(1) by (simp add: header_reads_def tar_header_name_def)
qed

lemma put_octal_Ok:
  "put_octal off w v h = Some (Ok h') \<longleftrightarrow> (\<exists>f. octal_field w v = Some f \<and> h' = put off f h)"
  by (auto simp: put_octal_def lift_option_def)

lemma octal_8: "v < 8 ^ 7 \<Longrightarrow> octal_field 8 v = Some f \<Longrightarrow> parse_tar_octal f = Ok v"
  by (rule parse_octal_field [of v 7]) simp_all

lemma octal_12: "v < 8 ^ 11 \<Longrightarrow> octal_field 12 v = Some f \<Longrightarrow> parse_tar_octal f = Ok v"
  by (rule parse_octal_field [of v 11]) simp_all

lemma header_base_reads:
  assumes "header_base name mode sz flag = Some (Ok h)" "ascii_text name" "name \<noteq> []" "hd name \<noteq> CHR ''/''"
    and "mode < 8 ^ 7" "sz < 8 ^ 11"
  shows "header_reads name mode sz flag h \<and> zero_tail h"
proof -
  obtain h0 fm z8 fs z12 where
    h0: "write_tar_name name (replicate 512 0) = Ok h0" and fm: "octal_field 8 mode = Some fm" and
    z8: "octal_field 8 0 = Some z8" and fs: "octal_field 12 sz = Some fs" and z12: "octal_field 12 0 = Some z12" and
    h: "h = put 156 [flag] (put 148 (replicate 8 0x20) (put 136 z12 (put 124 fs (put 116 z8 (put 108 z8 (put 100 fm h0))))))"
    using assms(1) unfolding header_base_def run_bind_ok put_octal_Ok by auto
  from write_tar_name_reads [OF h0 assms(2-4)] have n: "length h0 = 512" "tar_header_name h0 = Ok name"
    "\<And>off n. 100 \<le> off \<Longrightarrow> off + n \<le> 345 \<Longrightarrow> slice off n h0 = replicate n 0" by auto
  have l: "length fm = 8" "length z8 = 8" "length fs = 12" "length z12 = 12"
    using fm z8 fs z12 by (auto dest: length_octal_field)
  have "slice 0 100 h = slice 0 100 h0" "slice 345 155 h = slice 345 155 h0"
    unfolding h by (simp_all add: slice_put_before slice_put_after l n(1))
  then have name: "tar_header_name h = Ok name" using n(2) by (simp add: tar_header_name_def)
  have mode: "slice 100 8 h = fm" and sz: "slice 124 12 h = fs"
    unfolding h by (simp_all add: slice_put_before slice_put_after slice_put_same l n(1))
  have flag: "h ! 156 = flag" "length h = 512"
    unfolding h by (simp_all add: nth_put_same l n(1))
  have tail: "slice off k h = replicate k 0" if "157 \<le> off" "off + k \<le> 345" for off k
    unfolding h using that n(3) [of off k] by (simp add: slice_put_after l n(1))
  show ?thesis
    using name mode sz flag tail octal_8 [OF assms(5) fm] octal_12 [OF assms(6) fs]
    by (simp add: header_reads_def zero_tail_def)
qed

lemma write_bytes_Ok: "write_bytes off len src h = Ok h' \<longleftrightarrow> length src \<le> len \<and> h' = put off src h"
  by (auto simp: write_bytes_def)

lemma link_field:
  assumes "zero_tail h" "length h = 512" "ascii_text l" "length l \<le> 100"
  shows "tar_header_string (slice 157 100 (put 157 (bytes_of l) h)) = Ok l"
proof -
  have "slice (157 + length l) (100 - length l) h = replicate (100 - length l) 0"
    using assms(1,4) by (simp add: zero_tail_def)
  then have "slice 157 100 (put 157 (bytes_of l) h) = bytes_of l @ replicate (100 - length l) 0"
    using assms(2,4) by (simp add: slice_put_same)
  then show ?thesis by (simp add: header_string_field assms(3))
qed

lemma no_link_field: "zero_tail h \<Longrightarrow> tar_header_string (slice 157 100 h) = Ok []"
  by (simp add: zero_tail_def tar_header_string_def byte_string_def)

lemma magic_Ok: "magic h = Some (Ok h') \<longleftrightarrow> h' = put 263 (bytes_of ''00'') (put 257 (bytes_of ''ustar'' @ [0]) h)"
  by (auto simp: magic_def write_bytes_Ok simp del: bytes_of_simps)

lemma header_finish_Ok:
  "header_finish h = Some (Ok h') \<Longrightarrow> \<exists>f. length f = 8 \<and> h' = put 148 f h"
  by (auto simp: header_finish_def put_octal_Ok dest: length_octal_field)

lemma write_tar_header_reads:
  assumes "write_tar_header name mode sz flag link = Some (Ok h)"
    and "ascii_text name" "name \<noteq> []" "hd name \<noteq> CHR ''/''" "mode < 8 ^ 7" "sz < 8 ^ 11" "pred_option ascii_text link"
  shows "header_reads name mode sz flag h \<and> tar_header_string (slice 157 100 h) = Ok (case link of None \<Rightarrow> [] | Some l \<Rightarrow> l)"
proof -
  obtain h0 h1 h2 where h0: "header_base name mode sz flag = Some (Ok h0)"
    and h1: "(case link of None \<Rightarrow> Some (Ok h0) | Some l \<Rightarrow> Some (write_bytes 157 100 (bytes_of l) h0)) = Some (Ok h1)"
    and h2: "magic h1 = Some (Ok h2)" "header_finish h2 = Some (Ok h)"
    using assms(1) unfolding write_tar_header_def run_bind_ok by blast
  from header_base_reads [OF h0 assms(2-6)] have r0: "header_reads name mode sz flag h0" "zero_tail h0" by simp_all
  then have l0: "length h0 = 512" by (simp add: header_reads_def)
  have r1: "header_reads name mode sz flag h1 \<and> tar_header_string (slice 157 100 h1) = Ok (case link of None \<Rightarrow> [] | Some l \<Rightarrow> l)"
  proof (cases link)
    case None
    with h1 r0 show ?thesis by (simp add: no_link_field)
  next
    case (Some l)
    with h1 have l: "length l \<le> 100" "h1 = put 157 (bytes_of l) h0" by (simp_all add: write_bytes_Ok)
    with r0 l0 Some assms(7) show ?thesis by (simp add: header_reads_put link_field)
  qed
  obtain f where f: "length f = 8" "h = put 148 f h2" using header_finish_Ok [OF h2(2)] by blast
  have l1: "length h1 = 512" using r1 by (simp add: header_reads_def)
  have h: "h = put 148 f (put 263 (bytes_of ''00'') (put 257 (bytes_of ''ustar'' @ [0]) h1))"
    using f(2) h2(1) by (simp only: magic_Ok)
  have "header_reads name mode sz flag h"
    unfolding h by (intro header_reads_put) (use r1 f(1) in \<open>simp_all add: bytes_of_def\<close>)
  moreover have "slice 157 100 h = slice 157 100 h1"
    unfolding h by (simp add: slice_put_before slice_put_after l1 f(1) bytes_of_def)
  ultimately show ?thesis using r1 by simp
qed

lemma write_tar_special_reads:
  assumes "write_tar_special name mode flag ma mi = Some (Ok h)"
    and "ascii_text name" "name \<noteq> []" "hd name \<noteq> CHR ''/''" "mode < 8 ^ 7"
    and "ma < 8 ^ 7" "mi < 8 ^ 7" "flag = 0x36 \<longrightarrow> ma = 0 \<and> mi = 0" "flag = 0x33 \<or> flag = 0x34 \<or> flag = 0x36"
  shows "header_reads name mode 0 flag h \<and> tar_header_string (slice 157 100 h) = Ok [] \<and>
    node_numbers flag h = Ok (of_nat ma, of_nat mi)"
proof -
  obtain h0 h1 h2 where h0: "header_base name mode 0 flag = Some (Ok h0)" and h1: "magic h0 = Some (Ok h1)"
    and h2: "(if flag = 0x33 \<or> flag = 0x34
               then run_bind (put_octal 329 8 ma h1) (put_octal 337 8 mi) else Some (Ok h1)) = Some (Ok h2)"
    and fin: "header_finish h2 = Some (Ok h)"
    using assms(1) unfolding write_tar_special_def run_bind_ok by blast
  from header_base_reads [OF h0 assms(2-5)] have r0: "header_reads name mode 0 flag h0" "zero_tail h0" by simp_all
  then have l0: "length h0 = 512" by (simp add: header_reads_def)
  have h1: "h1 = put 263 (bytes_of ''00'') (put 257 (bytes_of ''ustar'' @ [0]) h0)" using h1 by (simp only: magic_Ok)
  have r1: "header_reads name mode 0 flag h1"
    unfolding h1 by (intro header_reads_put) (use r0 in \<open>simp_all add: bytes_of_def\<close>)
  have l1: "length h1 = 512" using r1 by (simp add: header_reads_def)
  have s1: "slice 157 100 h1 = slice 157 100 h0"
    unfolding h1 by (simp add: slice_put_before l0 bytes_of_def)
  obtain f where f: "length f = 8" "h = put 148 f h2" using header_finish_Ok [OF fin] by blast
  have r2: "header_reads name mode 0 flag h2 \<and> slice 157 100 h2 = slice 157 100 h0 \<and>
    node_numbers flag (put 148 f h2) = Ok (of_nat ma, of_nat mi)"
  proof (cases "flag = 0x36")
    case True
    with h2 assms(8) r1 s1 show ?thesis by (simp add: node_numbers_def)
  next
    case False
    with assms(9) have flag: "flag = 0x33 \<or> flag = 0x34" by blast
    with h2 obtain fa fi where fa: "octal_field 8 ma = Some fa" and fi: "octal_field 8 mi = Some fi"
      and h2': "h2 = put 337 fi (put 329 fa h1)" by (auto simp: put_octal_Ok)
    then have l: "length fa = 8" "length fi = 8" by (auto dest: length_octal_field)
    have "slice 329 8 (put 148 f h2) = fa" "slice 337 8 (put 148 f h2) = fi" "slice 157 100 h2 = slice 157 100 h1"
      unfolding h2' by (simp_all add: slice_put_before slice_put_after slice_put_same l l1 f(1))
    moreover have "header_reads name mode 0 flag h2"
      unfolding h2' by (intro header_reads_put) (use r1 l in simp_all)
    ultimately show ?thesis
      using flag octal_8 [OF assms(6) fa] octal_8 [OF assms(7) fi] s1 by (simp add: node_numbers_def)
  qed
  have l2: "length h2 = 512" using r2 by (simp add: header_reads_def)
  have "header_reads name mode 0 flag h"
    unfolding f(2) by (intro header_reads_put) (use r2 f(1) in simp_all)
  moreover have "slice 157 100 h = slice 157 100 h2"
    unfolding f(2) by (simp add: slice_put_after l2 f(1))
  ultimately show ?thesis using r2 f(2) no_link_field [OF r0(2)] by simp
qed

section \<open>Archives read back\<close>

lemma copy_exact_enough: "0 < buf \<Longrightarrow> n \<le> length input \<Longrightarrow> copy_exact buf n input = (take n input, Some (drop n input))"
proof (induction buf n input rule: copy_exact.induct)
  case (1 buf n input)
  show ?case
  proof (cases "n = 0")
    case False
    have "copy_exact buf (n - min n buf) (drop (min n buf) input) =
        (take (n - min n buf) (drop (min n buf) input), Some (drop (n - min n buf) (drop (min n buf) input)))"
      using 1 False by simp
    moreover have "take (min n buf) input @ take (n - min n buf) (drop (min n buf) input) = take n input"
      by (metis add_diff_inverse_nat min.absorb_iff2 min_le_iff_disj not_less order.refl take_add)
    ultimately show ?thesis
      using 1(2,3) False by (subst copy_exact.simps) (simp add: Let_def)
  qed (simp add: copy_exact.simps)
qed

lemma padding_less: "padding n < 512"
  by (simp add: padding_def)

lemma pad_tar_read_pad: "pad_tar_read n (pad_tar n @ rest) = Ok rest"
  using copy_exact_enough [of 8192 "padding n" "pad_tar n @ rest"]
  by (auto simp: pad_tar_read_def skip_exact_def pad_tar_def)

definition then_do :: "unit io_result \<times> 's \<Rightarrow> ('s \<Rightarrow> unit io_result \<times> 's) \<Rightarrow> unit io_result \<times> 's" where
  "then_do r f = (case r of (Inl e, s) \<Rightarrow> (Inl e, s) | (Inr _, s) \<Rightarrow> f s)"

fun exec_ops :: "'s exec \<Rightarrow> tar_op list \<Rightarrow> 's \<Rightarrow> unit io_result \<times> 's" where
  "exec_ops exec [] s = (Ok (), s)"
| "exec_ops exec (act # acts) s = then_do (exec act s) (exec_ops exec acts)"

lemma then_do_simps [simp]:
  "then_do (Inl e, s) f = (Inl e, s)" "then_do (Inr u, s) f = f s" "then_do (then_do r f) g = then_do r (\<lambda>s. then_do (f s) g)"
  by (auto simp: then_do_def split: prod.split sum.split)

lemma exec_ops_Cons: "exec_ops exec (act # acts) = (\<lambda>s. then_do (exec act s) (exec_ops exec acts))"
  by (rule ext) simp

lemma exec_ops_append: "exec_ops exec (xs @ ys) s = then_do (exec_ops exec xs s) (exec_ops exec ys)"
proof (induction xs arbitrary: s)
  case (Cons x xs)
  then have "exec_ops exec (xs @ ys) = (\<lambda>s. then_do (exec_ops exec xs s) (exec_ops exec ys))" by blast
  then show ?case by simp
qed simp

lemma extract_step:
  assumes "length h = 512" "h ! 156 \<noteq> 0"
  shows "extract_checkpoint_artifact_tar exec dst (h @ rest) s =
    (case extract_entry exec dst h rest s of
       (Inl e, s) \<Rightarrow> (Inl e, s) | (Inr r, s) \<Rightarrow> extract_checkpoint_artifact_tar exec dst r s)"
proof -
  have "\<not> (\<forall>b \<in> set h. b = 0)" using assms nth_mem [of 156 h] by auto
  moreover have "take 512 (h @ rest) = h" "drop 512 (h @ rest) = rest" "\<not> length (h @ rest) < 512"
    using assms(1) by simp_all
  ultimately show ?thesis
    by (subst extract_checkpoint_artifact_tar.simps) (simp only: if_False)
qed

lemma extract_end: "extract_checkpoint_artifact_tar exec dst (replicate 1024 0) s = (Ok (), s)"
  by (subst extract_checkpoint_artifact_tar.simps) simp

text \<open>One entry: the operation it stands for.\<close>

fun node_op :: "string \<Rightarrow> tree \<Rightarrow> tar_op list" where
  "node_op p (Dir m es) = [Op_Mkdir p (perm m AND 0xFFF)]"
| "node_op p (Symlink m l) = [Op_Symlink p l]"
| "node_op p (File m c) = [Op_File p c (perm m AND 0xFFF)]"
| "node_op p (Char_Device m ma mi) = [Op_Node p 0x33 (perm m AND 0xFFF) ma mi]"
| "node_op p (Block_Device m ma mi) = [Op_Node p 0x34 (perm m AND 0xFFF) ma mi]"
| "node_op p (Fifo m) = [Op_Node p 0x36 (perm m AND 0xFFF) 0 0]"
| "node_op p (Socket m) = []"

fun tar_node_ok :: "tree \<Rightarrow> bool" where
  "tar_node_ok (File m c) \<longleftrightarrow> length c < 8 ^ 11"
| "tar_node_ok (Symlink m l) \<longleftrightarrow> ascii_text l"
| "tar_node_ok (Char_Device m ma mi) \<longleftrightarrow> unat ma < 8 ^ 7 \<and> unat mi < 8 ^ 7"
| "tar_node_ok (Block_Device m ma mi) \<longleftrightarrow> unat ma < 8 ^ 7 \<and> unat mi < 8 ^ 7"
| "tar_node_ok t \<longleftrightarrow> True"

lemma tar_mode_less: "tar_mode t < 8 ^ 7"
proof -
  have "perm (meta_of t) AND 0xFFF \<le> 0xFFF" by (simp add: word_and_le1)
  then have "unat (perm (meta_of t) AND 0xFFF) \<le> unat (0xFFF :: u32)" by (simp only: word_le_nat_alt)
  then show ?thesis by (simp add: tar_mode_def)
qed

lemma tar_mode_word [simp]: "word_of_nat (tar_mode t) = (perm (meta_of t) AND 0xFFF :: u32)"
  by (simp add: tar_mode_def)

definition tar_name :: "string \<Rightarrow> string \<Rightarrow> string \<Rightarrow> bool" where
  "tar_name dst name target \<longleftrightarrow> ascii_text name \<and> name \<noteq> [] \<and> hd name \<noteq> CHR ''/'' \<and> safe_artifact_path dst name = Ok target"

lemma header_flag_step:
  assumes "header_reads name mode sz flag h" "tar_name dst name target" "tar_header_string (slice 157 100 h) = Ok l" "flag \<noteq> 0"
  shows "rbind (read_tar_header h) (\<lambda>hr. rbind (safe_artifact_path dst (th_name hr)) (\<lambda>target. Ok (hr, target))) =
      Ok (\<lparr>th_name = name, th_size = sz, th_mode = of_nat mode, th_flag = flag, th_link = l\<rparr>, target)"
    and "length h = 512" "h ! 156 \<noteq> 0"
  using assms by (simp_all add: header_reads_def read_tar_header_def tar_name_def)

lemma extract_header:
  assumes "write_tar_header name (tar_mode t) sz flag link = Some (Ok h)" "tar_name dst name target" "sz < 8 ^ 11"
    "pred_option ascii_text link" "flag = 0x35 \<or> flag = 0x32 \<or> flag = 0x30"
  shows "extract_entry exec dst h rest s =
      (let skip = (if 0 < sz then skip_content sz rest else Ok rest); mode = perm (meta_of t) AND 0xFFF
       in if flag = 0x35 then exec_then exec (Op_Mkdir target mode) skip s
          else if flag = 0x32 then exec_then exec (Op_Symlink target (case link of None \<Rightarrow> [] | Some l \<Rightarrow> l)) skip s
          else
            (case copy_exact 65536 sz rest of
               (w, None) \<Rightarrow> exec_then exec (Op_Partial target w) (Inl eof) s
             | (w, Some rest) \<Rightarrow> exec_then exec (Op_File target w mode) (pad_tar_read sz rest) s))"
    and "length h = 512" "h ! 156 \<noteq> 0"
proof -
  have n: "ascii_text name" "name \<noteq> []" "hd name \<noteq> CHR ''/''" using assms(2) by (simp_all add: tar_name_def)
  from write_tar_header_reads [OF assms(1) n tar_mode_less assms(3,4)]
  have r: "header_reads name (tar_mode t) sz flag h"
    and l: "tar_header_string (slice 157 100 h) = Ok (case link of None \<Rightarrow> [] | Some l \<Rightarrow> l)" by simp_all
  have "flag \<noteq> 0" using assms(5) by auto
  note step = header_flag_step [OF r assms(2) l this]
  show "length h = 512" "h ! 156 \<noteq> 0" by (rule step(2), rule step(3))
  show "extract_entry exec dst h rest s =
      (let skip = (if 0 < sz then skip_content sz rest else Ok rest); mode = perm (meta_of t) AND 0xFFF
       in if flag = 0x35 then exec_then exec (Op_Mkdir target mode) skip s
          else if flag = 0x32 then exec_then exec (Op_Symlink target (case link of None \<Rightarrow> [] | Some l \<Rightarrow> l)) skip s
          else
            (case copy_exact 65536 sz rest of
               (w, None) \<Rightarrow> exec_then exec (Op_Partial target w) (Inl eof) s
             | (w, Some rest) \<Rightarrow> exec_then exec (Op_File target w mode) (pad_tar_read sz rest) s))"
    unfolding extract_entry_def step(1) Let_def using assms(5) by (elim disjE) simp_all
qed

lemma exec_then_case:
  "(case exec_then exec act (Ok rest) s of (Inl e, s) \<Rightarrow> (Inl e, s) | (Inr r, s) \<Rightarrow> f r s) = then_do (exec act s) (f rest)"
  by (auto simp: exec_then_def then_do_def split: prod.split sum.split)

lemma extract_plain_header:
  assumes "write_tar_header name (tar_mode t) 0 flag link = Some (Ok h)" "tar_name dst name target"
    "pred_option ascii_text link" "flag = 0x35 \<or> flag = 0x32"
  shows "extract_checkpoint_artifact_tar exec dst (h @ rest) s =
    then_do (exec (if flag = 0x35 then Op_Mkdir target (perm (meta_of t) AND 0xFFF)
                   else Op_Symlink target (case link of None \<Rightarrow> [] | Some l \<Rightarrow> l)) s)
      (extract_checkpoint_artifact_tar exec dst rest)"
proof -
  have "flag = 0x35 \<or> flag = 0x32 \<or> flag = 0x30" "(0 :: nat) < 8 ^ 11" using assms(4) by auto
  note hd = extract_header [OF assms(1,2) this(2) assms(3) this(1)]
  show ?thesis
    unfolding extract_step [OF hd(2,3)] hd(1) using assms(4) by (elim disjE) (simp_all add: exec_then_case)
qed

lemma extract_special_header:
  assumes "write_tar_special name (tar_mode t) flag ma mi = Some (Ok h)" "tar_name dst name target"
    "ma < 8 ^ 7" "mi < 8 ^ 7" "flag = 0x36 \<longrightarrow> ma = 0 \<and> mi = 0" "flag = 0x33 \<or> flag = 0x34 \<or> flag = 0x36"
  shows "extract_checkpoint_artifact_tar exec dst (h @ rest) s =
    then_do (exec (Op_Node target flag (perm (meta_of t) AND 0xFFF) (of_nat ma) (of_nat mi)) s)
      (extract_checkpoint_artifact_tar exec dst rest)"
proof -
  have n: "ascii_text name" "name \<noteq> []" "hd name \<noteq> CHR ''/''" using assms(2) by (simp_all add: tar_name_def)
  from write_tar_special_reads [OF assms(1) n tar_mode_less assms(3-6)]
  have r: "header_reads name (tar_mode t) 0 flag h" and l: "tar_header_string (slice 157 100 h) = Ok []"
    and num: "node_numbers flag h = Ok (of_nat ma, of_nat mi)" by simp_all
  have f0: "flag \<noteq> 0" using assms(6) by auto
  note step = header_flag_step [OF r assms(2) l f0]
  have e: "extract_entry exec dst h rest s =
      exec_then exec (Op_Node target flag (perm (meta_of t) AND 0xFFF) (of_nat ma) (of_nat mi)) (Ok rest) s"
    unfolding extract_entry_def step(1) Let_def using assms(6) num by (elim disjE) simp_all
  show ?thesis
    unfolding extract_step [OF step(2,3)] e by (rule exec_then_case)
qed

lemma extract_node:
  assumes "write_tar_path name t = Some (Ok bytes)" "tar_node_ok t" "tar_name dst name target"
    and "is_dir t \<Longrightarrow> \<not> ends_with name ''/'' \<and> tar_name dst (name @ ''/'') target"
  shows "extract_checkpoint_artifact_tar exec dst (bytes @ rest) s =
    then_do (exec_ops exec (node_op target t) s) (extract_checkpoint_artifact_tar exec dst rest)"
proof (cases t)
  case (Dir m es)
  have "write_tar_header (name @ ''/'') (tar_mode t) 0 0x35 None = Some (Ok bytes)" using assms(1,4) Dir by simp
  from extract_plain_header [OF this, of dst target exec rest s] assms(4) Dir show ?thesis by simp
next
  case (Symlink m l)
  have "write_tar_header name (tar_mode t) 0 0x32 (Some l) = Some (Ok bytes)" using assms(1) Symlink by simp
  from extract_plain_header [OF this assms(3), of exec rest s] assms(2) Symlink show ?thesis by simp
next
  case (File m c)
  then obtain h where h: "write_tar_header name (tar_mode t) (length c) 0x30 None = Some (Ok h)"
    and bytes: "bytes = h @ c @ pad_tar (length c)" using assms(1) by auto
  have len: "length c < 8 ^ 11" using assms(2) File by simp
  have flag: "(0x30 :: u8) = 0x35 \<or> (0x30 :: u8) = 0x32 \<or> (0x30 :: u8) = 0x30" by simp
  have none: "pred_option ascii_text None" by simp
  note hd = extract_header [OF h assms(3) len none flag]
  have c: "copy_exact 65536 (length c) (c @ pad_tar (length c) @ rest) = (c, Some (pad_tar (length c) @ rest))"
    using copy_exact_enough [of 65536 "length c" "c @ pad_tar (length c) @ rest"] by simp
  show ?thesis
    unfolding bytes append_assoc extract_step [OF hd(2,3)] hd(1) Let_def
    using File by (simp add: c pad_tar_read_pad exec_then_case)
next
  case (Char_Device m ma mi)
  have "write_tar_special name (tar_mode t) 0x33 (unat ma) (unat mi) = Some (Ok bytes)" using assms(1) Char_Device by simp
  from extract_special_header [OF this assms(3), of exec rest s] assms(2) Char_Device show ?thesis by simp
next
  case (Block_Device m ma mi)
  have "write_tar_special name (tar_mode t) 0x34 (unat ma) (unat mi) = Some (Ok bytes)" using assms(1) Block_Device by simp
  from extract_special_header [OF this assms(3), of exec rest s] assms(2) Block_Device show ?thesis by simp
next
  case (Fifo m)
  have "write_tar_special name (tar_mode t) 0x36 0 0 = Some (Ok bytes)" using assms(1) Fifo by simp
  from extract_special_header [OF this assms(3), of exec rest s] Fifo show ?thesis by simp
next
  case (Socket m)
  with assms(1) show ?thesis by simp
qed

section \<open>Trees\<close>

lemma components_slash_path:
  assumes "ns \<noteq> []" "names_ok ns"
  shows "components (slash_path ns) = map Normal ns" "\<not> is_absolute (slash_path ns)"
proof -
  have split: "split_on CHR ''/'' (slash_path ns) = ns"
    using assms split_join [of ns "CHR ''/''"] by (simp add: slash_path_def names_ok_def name_ok_def)
  obtain n ns' where ns: "ns = n # ns'" using assms(1) by (cases ns) simp_all
  have n: "name_ok n" using assms(2) ns by (simp add: names_ok_def)
  have comps: "filter_map comp_of ns = map Normal ns"
    using assms(2) unfolding names_ok_def by (induction ns) (auto simp: comp_of_def name_ok_def)
  obtain c n' where c: "n = c # n'" using n by (cases n) (simp_all add: name_ok_def)
  obtain r where "slash_path ns = c # r" using ns c by (cases ns') (simp_all add: slash_path_def)
  moreover have "c \<noteq> CHR ''/''" using n c by (auto simp: name_ok_def)
  ultimately show abs: "\<not> is_absolute (slash_path ns)" by (simp add: is_absolute_def)
  have "n \<noteq> ''.''" using n by (simp add: name_ok_def)
  with abs split comps ns show "components (slash_path ns) = map Normal ns"
    by (simp add: components_def)
qed

lemma push_normals: "push_components out (map Normal ns) = Ok (foldl path_join out ns)"
  by (induction ns arbitrary: out) simp_all

definition ascii_names :: "string list \<Rightarrow> bool" where
  "ascii_names ns \<longleftrightarrow> (\<forall>n \<in> set ns. ascii_text n)"

lemma slash_path_ascii: "ascii_names ns \<Longrightarrow> ascii_text (slash_path ns)"
  unfolding slash_path_def
  by (induction "''/''" ns rule: join.induct) (simp_all add: ascii_names_def, simp_all add: ascii_text_def)

lemma not_absolute_hd: "\<not> is_absolute s \<Longrightarrow> s \<noteq> [] \<Longrightarrow> hd s \<noteq> CHR ''/''"
  by (cases s) (simp_all add: is_absolute_def)

lemma tar_name_slash_path:
  assumes "ns \<noteq> []" "names_ok ns" "ascii_names ns"
  shows "tar_name dst (slash_path ns) (foldl path_join dst ns)"
    and "\<not> ends_with (slash_path ns) ''/''"
    and "tar_name dst (slash_path ns @ ''/'') (foldl path_join dst ns)"
proof -
  note c = components_slash_path [OF assms(1,2)]
  have ne: "slash_path ns \<noteq> []" by (rule slash_path_nonempty [OF assms(1,2)])
  have a: "ascii_text (slash_path ns)" by (rule slash_path_ascii [OF assms(3)])
  have hd: "hd (slash_path ns) \<noteq> CHR ''/''" by (rule not_absolute_hd [OF c(2) ne])
  show "tar_name dst (slash_path ns) (foldl path_join dst ns)"
    using a ne hd c by (simp add: tar_name_def safe_artifact_path_def push_normals)
  have "\<not> is_absolute (slash_path ns @ ''/'')" using c(2) ne by (cases "slash_path ns") (simp_all add: is_absolute_def)
  moreover have "components (slash_path ns @ ''/'') = map Normal ns"
    using components_trailing [OF ne] c(1) by simp
  ultimately show "tar_name dst (slash_path ns @ ''/'') (foldl path_join dst ns)"
    using a ne hd by (simp add: tar_name_def safe_artifact_path_def push_normals) (simp add: ascii_text_def)
  show "\<not> ends_with (slash_path ns) ''/''"
  proof
    assume "ends_with (slash_path ns) ''/''"
    then obtain r where "slash_path ns = r @ CHR ''/'' # []" by (auto simp: ends_with_iff)
    then have "split_on CHR ''/'' (slash_path ns) = split_on CHR ''/'' r @ [[]]"
      by (simp only: split_on_append_sep) simp
    moreover have "split_on CHR ''/'' (slash_path ns) = ns"
      using assms split_join [of ns "CHR ''/''"] by (simp add: slash_path_def names_ok_def name_ok_def)
    ultimately have "[] \<in> set ns" by (metis in_set_conv_decomp)
    with assms(2) show False by (auto simp: names_ok_def name_ok_def)
  qed
qed

text \<open>The operations that rebuild a tree below a destination, in the order of the archive.\<close>

fun tree_ops :: "string \<Rightarrow> string list \<Rightarrow> tree \<Rightarrow> tar_op list" where
  "tree_ops dst rel (Dir m es) =
     concat (map (\<lambda>x. node_op (foldl path_join dst (rel @ [fst x])) (snd x) @ tree_ops dst (rel @ [fst x]) (snd x)) (in_order es))"
| "tree_ops dst rel t = []"

fun tar_tree_ok :: "tree \<Rightarrow> bool" where
  "tar_tree_ok (Dir m es) \<longleftrightarrow>
     (\<forall>x \<in> set es. name_ok (fst x) \<and> ascii_text (fst x) \<and> tar_node_ok (snd x) \<and> tar_tree_ok (snd x))"
| "tar_tree_ok t \<longleftrightarrow> True"

lemma extract_concat:
  assumes "\<And>x a rest s. x \<in> set xs \<Longrightarrow> f x = Some (Ok a) \<Longrightarrow>
      extract_checkpoint_artifact_tar exec dst (a @ rest) s = then_do (exec_ops exec (g x) s) (extract_checkpoint_artifact_tar exec dst rest)"
    and "run_concat f xs = Some (Ok bytes)"
  shows "extract_checkpoint_artifact_tar exec dst (bytes @ rest) s =
    then_do (exec_ops exec (concat (map g xs)) s) (extract_checkpoint_artifact_tar exec dst rest)"
  using assms
proof (induction xs arbitrary: bytes s)
  case (Cons x xs)
  from Cons.prems(2) obtain a b where a: "f x = Some (Ok a)" and b: "run_concat f xs = Some (Ok b)" and bytes: "bytes = a @ b"
    by auto
  have "extract_checkpoint_artifact_tar exec dst (b @ rest) =
      (\<lambda>s. then_do (exec_ops exec (concat (map g xs)) s) (extract_checkpoint_artifact_tar exec dst rest))"
    using Cons.IH [OF _ b] Cons.prems(1) by (intro ext) simp
  with Cons.prems(1) [OF _ a, of "b @ rest" s] show ?case
    by (simp add: bytes exec_ops_append)
qed simp

lemma extract_tree:
  assumes "tar_tree_ok t" "names_ok rel" "ascii_names rel" "write_tree_tar rel t = Some (Ok bytes)"
  shows "extract_checkpoint_artifact_tar exec dst (bytes @ rest) s =
    then_do (exec_ops exec (tree_ops dst rel t) s) (extract_checkpoint_artifact_tar exec dst rest)"
  using assms
proof (induction rel t arbitrary: bytes rest s rule: write_tree_tar.induct)
  case (1 rel m es)
  let ?f = "\<lambda>x. run_bind (write_tar_path (slash_path (rel @ [fst x])) (snd x)) (\<lambda>a.
       if is_dir (snd x) then run_bind (write_tree_tar (rel @ [fst x]) (snd x)) (\<lambda>b. Some (Ok (a @ b)))
       else Some (Ok a))"
  let ?g = "\<lambda>x. node_op (foldl path_join dst (rel @ [fst x])) (snd x) @ tree_ops dst (rel @ [fst x]) (snd x)"
  have step: "extract_checkpoint_artifact_tar exec dst (a @ rest) s =
      then_do (exec_ops exec (?g x) s) (extract_checkpoint_artifact_tar exec dst rest)"
    if x: "x \<in> set (in_order es)" and fx: "?f x = Some (Ok a)" for x a rest s
  proof -
    have ok: "name_ok (fst x)" "ascii_text (fst x)" "tar_node_ok (snd x)" "tar_tree_ok (snd x)" using 1(2) x by auto
    have ns: "rel @ [fst x] \<noteq> []" "names_ok (rel @ [fst x])" "ascii_names (rel @ [fst x])"
      using 1(3,4) ok by (auto simp: names_ok_def ascii_names_def)
    obtain h b where h: "write_tar_path (slash_path (rel @ [fst x])) (snd x) = Some (Ok h)"
      and b: "if is_dir (snd x) then write_tree_tar (rel @ [fst x]) (snd x) = Some (Ok b) else b = []" and a: "a = h @ b"
      using fx by (auto split: if_splits)
    note tn = tar_name_slash_path [OF ns]
    have node: "extract_checkpoint_artifact_tar exec dst (h @ r) s =
        then_do (exec_ops exec (node_op (foldl path_join dst (rel @ [fst x])) (snd x)) s) (extract_checkpoint_artifact_tar exec dst r)" for r s
      by (rule extract_node [OF h ok(3) tn(1)]) (rule conjI [OF tn(2,3)])
    have sub: "extract_checkpoint_artifact_tar exec dst (b @ rest) =
        (\<lambda>s. then_do (exec_ops exec (tree_ops dst (rel @ [fst x]) (snd x)) s) (extract_checkpoint_artifact_tar exec dst rest))"
    proof (cases "is_dir (snd x)")
      case True
      with b 1(1) [OF x True ok(4) ns(2,3)] h show ?thesis by (intro ext) auto
    next
      case False
      with b show ?thesis by (cases "snd x") auto
    qed
    show ?thesis
      unfolding a append_assoc node sub exec_ops_append by simp
  qed
  have "run_concat ?f (in_order es) = Some (Ok bytes)" using 1(5) by simp
  from extract_concat [where f = ?f and g = ?g, OF step this] show ?case by simp
qed auto

definition artifact_ops :: "string \<Rightarrow> u8 list \<Rightarrow> tree \<Rightarrow> tar_op list" where
  "artifact_ops dst manifest rootfs =
     [Op_Mkdir (path_join dst ''.rsrun'') 0x1ED,
      Op_File (path_join (path_join dst ''.rsrun'') ''checkpoint.json'') manifest 0x1A4,
      Op_Mkdir (path_join dst ''rootfs'') 0x1ED] @ tree_ops dst [''rootfs''] rootfs"

text \<open>The fixed entries around the tree.\<close>

lemma fixed_modes:
  "tar_mode (File (plain_meta 0x1ED) []) = 0x1ED" "tar_mode (File (plain_meta 0x1A4) []) = 0x1A4"
  "perm (plain_meta 0x1ED) AND 0xFFF = 0x1ED" "perm (plain_meta 0x1A4) AND 0xFFF = 0x1A4"
  by (simp_all add: tar_mode_def plain_meta_def)

lemma fixed_names:
  "tar_name dst ''.rsrun/'' (path_join dst ''.rsrun'')"
  "tar_name dst ''rootfs/'' (path_join dst ''rootfs'')"
  "tar_name dst ''.rsrun/checkpoint.json'' (path_join (path_join dst ''.rsrun'') ''checkpoint.json'')"
proof -
  have names: "names_ok [''.rsrun'']" "names_ok [''.rsrun'', ''checkpoint.json'']" "names_ok [''rootfs'']"
    by (simp_all add: names_ok_def name_ok_def)
  have ascii: "ascii_names [''.rsrun'']" "ascii_names [''.rsrun'', ''checkpoint.json'']" "ascii_names [''rootfs'']"
    by (simp_all add: ascii_names_def ascii_text_def)
  show "tar_name dst ''.rsrun/'' (path_join dst ''.rsrun'')" "tar_name dst ''rootfs/'' (path_join dst ''rootfs'')"
    "tar_name dst ''.rsrun/checkpoint.json'' (path_join (path_join dst ''.rsrun'') ''checkpoint.json'')"
    using tar_name_slash_path(3) [OF _ names(1) ascii(1)] tar_name_slash_path(3) [OF _ names(3) ascii(3)]
      tar_name_slash_path(1) [OF _ names(2) ascii(2)]
    by (simp_all add: slash_path_def)
qed

lemma extract_fixed_dir:
  assumes "write_tar_header name 0x1ED 0 0x35 None = Some (Ok h)" "tar_name dst name target"
  shows "extract_checkpoint_artifact_tar exec dst (h @ rest) s =
    then_do (exec (Op_Mkdir target 0x1ED) s) (extract_checkpoint_artifact_tar exec dst rest)"
proof -
  have "write_tar_header name (tar_mode (File (plain_meta 0x1ED) [])) 0 0x35 None = Some (Ok h)"
    using assms(1) by (simp only: fixed_modes)
  from extract_plain_header [OF this assms(2), of exec rest s] show ?thesis by (simp add: fixed_modes)
qed

lemma extract_manifest:
  assumes "write_tar_header name 0x1A4 (length c) 0x30 None = Some (Ok h)" "tar_name dst name target" "length c < 8 ^ 11"
  shows "extract_checkpoint_artifact_tar exec dst (h @ c @ pad_tar (length c) @ rest) s =
    then_do (exec (Op_File target c 0x1A4) s) (extract_checkpoint_artifact_tar exec dst rest)"
proof -
  have h: "write_tar_header name (tar_mode (File (plain_meta 0x1A4) [])) (length c) 0x30 None = Some (Ok h)"
    using assms(1) by (simp only: fixed_modes)
  have none: "pred_option ascii_text None" and flag: "(0x30 :: u8) = 0x35 \<or> (0x30 :: u8) = 0x32 \<or> (0x30 :: u8) = 0x30"
    by simp_all
  note hd = extract_header [OF h assms(2,3) none flag]
  have "copy_exact 65536 (length c) (c @ pad_tar (length c) @ rest) = (c, Some (pad_tar (length c) @ rest))"
    using copy_exact_enough [of 65536 "length c" "c @ pad_tar (length c) @ rest"] by simp
  then show ?thesis
    unfolding extract_step [OF hd(2,3)] hd(1) Let_def by (simp add: fixed_modes pad_tar_read_pad exec_then_case)
qed

lemma extract_tree_and_end:
  assumes "tar_tree_ok t" "write_tree_tar [''rootfs''] t = Some (Ok bytes)"
  shows "extract_checkpoint_artifact_tar exec dst (bytes @ replicate 1024 0) = exec_ops exec (tree_ops dst [''rootfs''] t)"
proof
  fix s
  have "names_ok [''rootfs'']" "ascii_names [''rootfs'']"
    by (simp_all add: names_ok_def name_ok_def ascii_names_def ascii_text_def)
  moreover have "extract_checkpoint_artifact_tar exec dst (replicate 1024 0) = (\<lambda>s. (Ok (), s))"
    by (intro ext) (rule extract_end)
  moreover have "then_do r (\<lambda>s. (Ok (), s)) = r" for r :: "unit io_result \<times> 'a"
    by (cases r; cases "fst r") (auto simp: then_do_def)
  ultimately show "extract_checkpoint_artifact_tar exec dst (bytes @ replicate 1024 0) s = exec_ops exec (tree_ops dst [''rootfs''] t) s"
    using extract_tree [OF assms(1) _ _ assms(2), of exec dst "replicate 1024 0" s] by simp
qed

lemma exported_ops:
  assumes "write_checkpoint_artifact_tar manifest rootfs = Some (Ok bytes)"
    and "tar_tree_ok rootfs" "length manifest < 8 ^ 11"
  shows "extract_checkpoint_artifact_tar exec dst bytes s = exec_ops exec (artifact_ops dst manifest rootfs) s"
proof -
  obtain h1 h2 h3 t where
    h1: "write_tar_header ''.rsrun/'' 0x1ED 0 0x35 None = Some (Ok h1)" and
    h2: "write_tar_header ''.rsrun/checkpoint.json'' 0x1A4 (length manifest) 0x30 None = Some (Ok h2)" and
    h3: "write_tar_header ''rootfs/'' 0x1ED 0 0x35 None = Some (Ok h3)" and
    t: "write_tree_tar [''rootfs''] rootfs = Some (Ok t)" and
    bytes: "bytes = h1 @ h2 @ manifest @ pad_tar (length manifest) @ h3 @ t @ replicate 1024 0"
    using assms(1) unfolding write_checkpoint_artifact_tar_def run_bind_ok by auto
  show ?thesis
    unfolding bytes extract_fixed_dir [OF h1 fixed_names(1)] extract_manifest [OF h2 fixed_names(3) assms(3)]
      extract_fixed_dir [OF h3 fixed_names(2)] extract_tree_and_end [OF assms(2) t] artifact_ops_def
    by (simp add: exec_ops_Cons del: exec_ops.simps)
qed

text \<open>
  C32: An exported checkpoint reads back: when writing the artifact succeeds, extracting it performs, in order
  and until one fails, exactly the operations that recreate the manifest and every node of the root file
  system, each at its own path below the destination with its content, target, mode and numbers. It covers
  trees of ASCII names, of files below 8 GiB and of device numbers below 2^21.
\<close>

theorem artifact_roundtrip:
  assumes "write_checkpoint_artifact_tar manifest rootfs = Some (Ok bytes)"
    and "tar_tree_ok rootfs" "length manifest < 8 ^ 11"
  shows "extract_checkpoint_artifact_tar exec dst bytes s = exec_ops exec (artifact_ops dst manifest rootfs) s"
  by (rule exported_ops [OF assms])

section \<open>Writing succeeds\<close>

lemma octal_field_some: "v < 8 ^ n \<Longrightarrow> 0 < n \<Longrightarrow> \<exists>f. octal_field (Suc n) v = Some f \<and> length f = Suc n"
  using octal_field_fit octal_digits_fit by (metis length_append_singleton)

lemma octal_8_some: "v < 8 ^ 7 \<Longrightarrow> \<exists>f. octal_field 8 v = Some f \<and> length f = 8"
  using octal_field_some [of v 7] by simp

lemma octal_12_some: "v < 8 ^ 11 \<Longrightarrow> \<exists>f. octal_field 12 v = Some f \<and> length f = 12"
  using octal_field_some [of v 11] by simp

lemma header_base_total:
  assumes "length name \<le> 100" "mode < 8 ^ 7" "sz < 8 ^ 11"
  shows "\<exists>h. header_base name mode sz flag = Some (Ok h) \<and> length h = 512"
proof -
  obtain f8 f12 z8 z12 where "octal_field 8 mode = Some f8" "octal_field 12 sz = Some f12" "octal_field 8 0 = Some z8" "octal_field 12 0 = Some z12"
    and "length f8 = 8" "length f12 = 12" "length z8 = 8" "length z12 = 12"
    using octal_8_some [OF assms(2)] octal_12_some [OF assms(3)] octal_8_some [of 0] octal_12_some [of 0] by auto
  then show ?thesis
    using assms(1) by (simp add: header_base_def write_tar_name_def write_bytes_def Let_def put_octal_def lift_option_def)
qed

lemma checksum_less: "length h = 512 \<Longrightarrow> checksum h < 8 ^ 7"
proof -
  have "sum_list (map unat h) \<le> 255 * length h" for h :: "u8 list"
  proof (induction h)
    case (Cons b h)
    have "unat b < 256" using unsigned_less [of b, where ?'a = nat] by simp
    with Cons show ?case by simp
  qed simp
  from this [of h] show "length h = 512 \<Longrightarrow> checksum h < 8 ^ 7" by (simp add: checksum_def)
qed

lemma write_tar_header_total:
  assumes "length name \<le> 100" "mode < 8 ^ 7" "sz < 8 ^ 11"
  shows "\<exists>h. write_tar_header name mode sz flag None = Some (Ok h)"
proof -
  obtain h where h: "header_base name mode sz flag = Some (Ok h)" "length h = 512"
    using header_base_total [OF assms] by blast
  let ?m = "put 263 (bytes_of ''00'') (put 257 (bytes_of ''ustar'' @ [0]) h)"
  have m: "magic h = Some (Ok ?m)" by (simp only: magic_Ok)
  have "length ?m = 512" using h(2) by (simp add: bytes_of_def)
  then obtain f where "octal_field 8 (checksum ?m) = Some f"
    using octal_8_some [OF checksum_less] by blast
  then have "header_finish ?m = Some (Ok (put 148 f ?m))"
    by (simp add: header_finish_def put_octal_def lift_option_def)
  then show ?thesis
    by (simp only: write_tar_header_def h(1) m run_bind_ret option.case) blast
qed

definition sample_rootfs :: tree where
  "sample_rootfs = Dir (plain_meta 0x1ED) [(''b'', File (plain_meta 0x1ED) [1, 2]), (''a'', Dir (plain_meta 0x1ED) [])]"

theorem artifact_roundtrip_witness:
  "\<exists>bytes. write_checkpoint_artifact_tar [0x7B, 0x7D] sample_rootfs = Some (Ok bytes) \<and>
     extract_checkpoint_artifact_tar log_exec ''/tmp/x'' bytes [] =
       (Ok (), [''/tmp/x/.rsrun'', ''/tmp/x/.rsrun/checkpoint.json'', ''/tmp/x/rootfs'', ''/tmp/x/rootfs/a'', ''/tmp/x/rootfs/b''])"
proof -
  have order: "in_order [(''b'', File (plain_meta 0x1ED) [1, 2]), (''a'', Dir (plain_meta 0x1ED) [])] =
      [(''a'', Dir (plain_meta 0x1ED) []), (''b'', File (plain_meta 0x1ED) [1, 2])]"
    by (simp add: less_char_def)
  have w: "\<exists>h. write_tar_header name mode sz flag None = Some (Ok h)" if "length name \<le> 100" "mode < 8 ^ 7" "sz < 8 ^ 11" for name mode sz flag
    using that by (rule write_tar_header_total)
  obtain h1 h2 h3 ha hb where
    h1: "write_tar_header ''.rsrun/'' 0x1ED 0 0x35 None = Some (Ok h1)" and
    h2: "write_tar_header ''.rsrun/checkpoint.json'' 0x1A4 2 0x30 None = Some (Ok h2)" and
    h3: "write_tar_header ''rootfs/'' 0x1ED 0 0x35 None = Some (Ok h3)" and
    ha: "write_tar_header ''rootfs/a/'' 0x1ED 0 0x35 None = Some (Ok ha)" and
    hb: "write_tar_header ''rootfs/b'' 0x1ED 2 0x30 None = Some (Ok hb)"
    using w [of "''.rsrun/''" "0x1ED" 0 "0x35"] w [of "''.rsrun/checkpoint.json''" "0x1A4" 2 "0x30"] w [of "''rootfs/''" "0x1ED" 0 "0x35"]
      w [of "''rootfs/a/''" "0x1ED" 0 "0x35"] w [of "''rootfs/b''" "0x1ED" 2 "0x30"] by auto
  have two: "Suc (Suc 0) = 2" by simp
  have m: "tar_mode (File (plain_meta 0x1ED) c) = 0x1ED" "tar_mode (Dir (plain_meta 0x1ED) es) = 0x1ED" for c es
    by (simp_all add: tar_mode_def plain_meta_def)
  have "write_tree_tar [''rootfs''] sample_rootfs = Some (Ok (ha @ hb @ [1, 2] @ pad_tar 2))"
    unfolding sample_rootfs_def write_tree_tar.simps order
    using ha hb by (simp add: slash_path_def ends_with_def strip_suffix_def m two)
  then obtain bytes where b: "write_checkpoint_artifact_tar [0x7B, 0x7D] sample_rootfs = Some (Ok bytes)"
    using h1 h2 h3 by (simp add: write_checkpoint_artifact_tar_def two)
  have ok: "tar_tree_ok sample_rootfs" by (simp add: sample_rootfs_def name_ok_def ascii_text_def)
  have "extract_checkpoint_artifact_tar log_exec ''/tmp/x'' bytes [] = exec_ops log_exec (artifact_ops ''/tmp/x'' [0x7B, 0x7D] sample_rootfs) []"
    by (rule artifact_roundtrip [OF b ok]) simp
  also have "\<dots> = (Ok (), [''/tmp/x/.rsrun'', ''/tmp/x/.rsrun/checkpoint.json'', ''/tmp/x/rootfs'', ''/tmp/x/rootfs/a'', ''/tmp/x/rootfs/b''])"
    unfolding sample_rootfs_def artifact_ops_def tree_ops.simps order
    by (simp add: log_exec_def path_join_def is_absolute_def)
  finally show ?thesis using b by blast
qed

section \<open>The capacity of a number field\<close>

lemma octal_digits_long:
  assumes "8 ^ n \<le> v"
  shows "octal_digits n v = bytes_of (show_base 8 v)" "n < length (show_base 8 v)"
proof -
  show l: "n < length (show_base 8 v)" using length_show_base_ge [of 8 n v] assms by simp
  then show "octal_digits n v = bytes_of (show_base 8 v)" by (simp add: octal_digits_def Let_def)
qed

lemma parse_octal_text:
  assumes "v < 2 ^ 64"
  shows "parse_tar_octal (bytes_of (show_base 8 v) @ [0]) = Ok v"
proof -
  let ?d = "bytes_of (show_base 8 v)"
  have bytes: "\<forall>b \<in> set ?d. octal_byte b" by (rule set_bytes_octal)
  have take: "takeWhile (\<lambda>b. b \<noteq> 0 \<and> b \<noteq> 0x20) (?d @ [0]) = ?d"
    using bytes octal_byte_plain by (subst takeWhile_append2) auto
  have filter: "filter (\<lambda>b. b \<noteq> 0) ?d = ?d" using bytes octal_byte_plain by (auto intro!: filter_True)
  have ne: "?d \<noteq> []" by (simp add: bytes_of_def)
  have utf: "utf8_ok ?d" using bytes octal_byte_plain by (intro utf8_ascii) (auto simp: ascii_bytes_def)
  have trim: "trim (byte_string ?d) = byte_string ?d"
    using bytes octal_byte_digit by (intro trim_ascii_digits) (auto simp: byte_string_def)
  have "parse_unsigned 8 (2 ^ 64) (byte_string ?d) = Some v"
    using parse_octal_digits [OF assms, of 0] by (simp add: octal_digits_def)
  then show ?thesis
    unfolding parse_tar_octal_def take filter Let_def using trim by (simp add: ne utf byte_string_def)
qed

text \<open>
  A number field of n + 1 bytes keeps every value below 8^n. A value with one digit more is written without
  its last digit, so that it reads back as an eighth of itself: a file of 8 GiB or more gets a header that
  announces too little content. A longer value makes the writer panic.
\<close>

theorem octal_field_capacity:
  assumes "0 < n" "v < 2 ^ 64"
  shows "(if v < 8 ^ n then map_option parse_tar_octal (octal_field (Suc n) v) = Some (Ok v)
      else if v < 8 ^ Suc n then map_option parse_tar_octal (octal_field (Suc n) v) = Some (Ok (v div 8))
      else octal_field (Suc n) v = None)"
proof -
  consider "v < 8 ^ n" | "8 ^ n \<le> v" "v < 8 ^ Suc n" | "8 ^ Suc n \<le> v" by linarith
  then show ?thesis
  proof cases
    case 1
    from octal_field_fit [OF 1 assms(1)] parse_octal_field [OF 1 assms] 1 show ?thesis by simp
  next
    case 2
    let ?s = "bytes_of (show_base 8 v)"
    have len: "length ?s = Suc n"
      using octal_digits_long(2) [OF 2(1)] length_show_base [of 8 v "Suc n"] 2(2) by simp
    have "octal_field (Suc n) v = Some (butlast ?s @ [0])"
    proof -
      have "put 0 ?s (replicate (Suc n) 0) = ?s" using len by (simp add: put_def)
      then have "octal_field (Suc n) v = Some (list_update ?s n 0)"
        using len octal_digits_long(1) [OF 2(1)] by (simp add: octal_field_def Let_def del: replicate_Suc)
      moreover have "list_update ?s n 0 = butlast ?s @ [0]"
        using len by (metis butlast_snoc append_butlast_last_id length_append_singleton list.size(3) list_update_length nat.simps(3) nat.inject)
      ultimately show ?thesis by simp
    qed
    moreover have "8 \<le> v" using 2(1) assms(1) by (metis One_nat_def Suc_leI order_trans power_increasing power_one_right numeral_le_one_iff one_le_numeral)
    then have "butlast ?s = bytes_of (show_base 8 (v div 8))"
      by (subst show_base.simps) (simp add: bytes_of_def)
    moreover have "v div 8 < 2 ^ 64" using assms(2) by simp
    ultimately show ?thesis using 2 by (simp add: parse_octal_text)
  next
    case 3
    then have l: "Suc n < length (show_base 8 v)" by (rule octal_digits_long(2))
    have "8 ^ n \<le> v" using 3 by (rule order_trans [rotated]) simp
    with octal_digits_long(1) [OF this] l 3 show ?thesis
      by (simp add: octal_field_def Let_def)
  qed
qed

theorem octal_field_capacity_witness:
  "map_option parse_tar_octal (octal_field 12 8589934592) = Some (Ok 1073741824)"
  using octal_field_capacity [of 11 8589934592] by simp

end
