(* ===== verification/Computations.thy ===== *)
theory Computations
  imports Prelude
begin

text \<open>
  Computations over a state that succeed with a value or fail with an error and keep the state they
  reached, and triples with one postcondition per exit. The file system commands run them over a
  directory tree, the container's init over the history of its system calls.
\<close>

section \<open>The computations\<close>

type_synonym ('s, 'e, 'a) comp = "'s \<Rightarrow> 's \<times> ('e + 'a)"

type_synonym ('s, 'a) io = "('s, io_error, 'a) comp"

definition io_ok :: "'a \<Rightarrow> ('s, 'e, 'a) comp" where
  "io_ok a = (\<lambda>s. (s, Inr a))"

definition io_of :: "('e + 'a) \<Rightarrow> ('s, 'e, 'a) comp" where
  "io_of r = (\<lambda>s. (s, r))"

definition io_get :: "('s \<Rightarrow> 'a) \<Rightarrow> ('s, 'e, 'a) comp" where
  "io_get f = (\<lambda>s. (s, Inr (f s)))"

text \<open>A result read off the state.\<close>

definition io_read :: "('s \<Rightarrow> ('e + 'a)) \<Rightarrow> ('s, 'e, 'a) comp" where
  "io_read f = (\<lambda>s. (s, f s))"

definition io_bind :: "('s, 'e, 'a) comp \<Rightarrow> ('a \<Rightarrow> ('s, 'e, 'b) comp) \<Rightarrow> ('s, 'e, 'b) comp" where
  "io_bind m f = (\<lambda>s. case m s of (s', Inl e) \<Rightarrow> (s', Inl e) | (s', Inr a) \<Rightarrow> f a s')"

text \<open>\<^verbatim>\<open>let _ = m\<close>: the effect without the result; and \<^verbatim>\<open>if let Err(e) = m { h; return Err(e) }\<close>.\<close>

definition io_try :: "('s, 'e, 'a) comp \<Rightarrow> ('s, 'e, ('e + 'a)) comp" where
  "io_try m = (\<lambda>s. case m s of (s', r) \<Rightarrow> (s', Inr r))"

definition io_undo :: "('s, 'e, 'a) comp \<Rightarrow> ('s, 'e, 'b) comp \<Rightarrow> ('s, 'e, 'a) comp" where
  "io_undo m h = (\<lambda>s. case m s of (s', Inl e) \<Rightarrow> (fst (h s'), Inl e) | (s', Inr a) \<Rightarrow> (s', Inr a))"

abbreviation io_when :: "bool \<Rightarrow> ('s, 'e, unit) comp \<Rightarrow> ('s, 'e, unit) comp" where
  "io_when b m \<equiv> if b then m else io_ok ()"

text \<open>One computation after the other, and a loop over a list.\<close>

fun io_seq :: "('s, 'e, unit) comp list \<Rightarrow> ('s, 'e, unit) comp" where
  "io_seq [] = io_ok ()"
| "io_seq (m # ms) = io_bind m (\<lambda>_. io_seq ms)"

abbreviation io_each :: "('a \<Rightarrow> ('s, 'e, unit) comp) \<Rightarrow> 'a list \<Rightarrow> ('s, 'e, unit) comp" where
  "io_each f xs \<equiv> io_seq (map f xs)"

lemma io_bind_Inr: "m s = (s', Inr a) \<Longrightarrow> io_bind m f s = f a s'"
  by (simp add: io_bind_def)

lemma io_bind_Inl: "m s = (s', Inl e) \<Longrightarrow> io_bind m f s = (s', Inl e)"
  by (simp add: io_bind_def)

lemma io_run [simp]:
  "io_ok a s = (s, Inr a)" "io_of r s = (s, r)" "io_get f s = (s, Inr (f s))" "io_read g s = (s, g s)"
  "io_bind (io_ok a) k = k a" "io_bind (io_of (Inr a)) k = k a" "io_bind (io_of (Inl e)) k = io_of (Inl e)"
  "io_bind (io_get f) h s = h (f s) s"
  by (simp_all add: io_ok_def io_of_def io_get_def io_read_def io_bind_def fun_eq_iff)

lemma io_of_Inr [simp]: "io_of (Inr a) = io_ok a"
  by (simp add: io_ok_def io_of_def)

lemma io_bind_Inr_iff: "io_bind m f s = (s', Inr b) \<longleftrightarrow> (\<exists>t a. m s = (t, Inr a) \<and> f a t = (s', Inr b))"
  by (auto simp: io_bind_def split: prod.splits sum.splits)

lemma io_bind_Inl_iff:
  "io_bind m f s = (s', Inl e) \<longleftrightarrow> m s = (s', Inl e) \<or> (\<exists>t a. m s = (t, Inr a) \<and> f a t = (s', Inl e))"
  by (auto simp: io_bind_def split: prod.splits sum.splits)

text \<open>
  A triple with a condition for each exit: \<open>Q\<close> when the computation succeeds, \<open>R\<close> when it fails.
\<close>

definition triple :: "('s \<Rightarrow> bool) \<Rightarrow> ('s, 'e, 'a) comp \<Rightarrow> ('a \<Rightarrow> 's \<Rightarrow> bool) \<Rightarrow> ('e \<Rightarrow> 's \<Rightarrow> bool) \<Rightarrow> bool" where
  "triple P m Q R \<longleftrightarrow> (\<forall>s. P s \<longrightarrow> (case m s of (s', Inr a) \<Rightarrow> Q a s' | (s', Inl e) \<Rightarrow> R e s'))"

abbreviation keeps :: "('s \<Rightarrow> bool) \<Rightarrow> ('s, 'e, 'a) comp \<Rightarrow> bool" where
  "keeps I m \<equiv> triple I m (\<lambda>_. I) (\<lambda>_. I)"

named_theorems io_rules \<open>rules of the triples\<close>

lemma tripleI: "(\<And>s s' a. P s \<Longrightarrow> m s = (s', Inr a) \<Longrightarrow> Q a s') \<Longrightarrow>
    (\<And>s s' e. P s \<Longrightarrow> m s = (s', Inl e) \<Longrightarrow> R e s') \<Longrightarrow> triple P m Q R"
  by (auto simp: triple_def split: prod.splits sum.splits)

lemma triple_Inr: "triple P m Q R \<Longrightarrow> P s \<Longrightarrow> m s = (s', Inr a) \<Longrightarrow> Q a s'"
  by (auto simp: triple_def split: prod.splits sum.splits)

lemma triple_Inl: "triple P m Q R \<Longrightarrow> P s \<Longrightarrow> m s = (s', Inl e) \<Longrightarrow> R e s'"
  by (auto simp: triple_def split: prod.splits sum.splits)

lemma triple_weaken:
  "triple P m Q R \<Longrightarrow> (\<And>s. P' s \<Longrightarrow> P s) \<Longrightarrow> (\<And>a s. Q a s \<Longrightarrow> Q' a s) \<Longrightarrow> (\<And>e s. R e s \<Longrightarrow> R' e s) \<Longrightarrow> triple P' m Q' R'"
  by (rule tripleI) (blast dest: triple_Inr triple_Inl)+

lemma triple_bind:
  "triple P m Q R \<Longrightarrow> (\<And>a. triple (Q a) (f a) Q' R) \<Longrightarrow> triple P (io_bind m f) Q' R"
  by (rule tripleI) (auto simp: io_bind_Inr_iff io_bind_Inl_iff dest: triple_Inr triple_Inl)

lemma keeps_bind [io_rules]: "keeps I m \<Longrightarrow> (\<And>a. keeps I (f a)) \<Longrightarrow> keeps I (io_bind m f)"
  by (rule triple_bind)

lemma keeps_ok [io_rules]: "keeps I (io_ok a)"
  by (simp add: triple_def)

lemma keeps_of [io_rules]: "keeps I (io_of r)"
  by (cases r) (simp_all add: triple_def)

lemma keeps_get [io_rules]: "keeps I (io_get f)"
  by (simp add: triple_def)

lemma keeps_read [io_rules]: "keeps I (io_read f)"
  by (rule tripleI) simp_all

lemma keeps_seq [io_rules]: "(\<And>m. m \<in> set ms \<Longrightarrow> keeps I m) \<Longrightarrow> keeps I (io_seq ms)"
  by (induction ms) (auto intro!: keeps_bind keeps_ok)

lemma keeps_try [io_rules]:
  assumes "keeps I m" shows "keeps I (io_try m)"
proof (rule tripleI)
  fix s s' a assume h: "I s" "io_try m s = (s', Inr a)"
  then have "m s = (s', a)" by (auto simp: io_try_def split: prod.splits)
  with assms h(1) show "I s'" by (cases a) (auto dest: triple_Inr triple_Inl)
qed (simp add: io_try_def split: prod.splits)

lemma keeps_if [io_rules]: "(b \<Longrightarrow> keeps I m) \<Longrightarrow> (\<not> b \<Longrightarrow> keeps I n) \<Longrightarrow> keeps I (if b then m else n)"
  by simp

end
