(* ===== verification/Tree_Edit.thy ===== *)
theory Tree_Edit
  imports Fs_Tree "HOL-Library.Sublist"
begin

text \<open>
  Writing into a directory tree along a path of names: what \<^verbatim>\<open>std::fs::write\<close>, \<^verbatim>\<open>create_dir_all\<close> and
  \<^verbatim>\<open>remove_dir_all\<close> do to it, and the laws of looking up afterwards.
\<close>

definition no_entry :: io_error where
  "no_entry = IoError NotFound ''No such file or directory''"

definition not_a_directory :: io_error where
  "not_a_directory = IoError (OsError 20) []"

text \<open>A new node at a path, whose parent exists.\<close>

fun put_node :: "string list \<Rightarrow> tree \<Rightarrow> tree \<Rightarrow> tree io_result" where
  "put_node [] x t = Ok x"
| "put_node [n] x (Dir m es) = Ok (Dir m (AList.update n x es))"
| "put_node (n # ns) x (Dir m es) =
     (case map_of es n of None \<Rightarrow> Inl no_entry
      | Some c \<Rightarrow> rbind (put_node ns x c) (\<lambda>c'. Ok (Dir m (AList.update n c' es))))"
| "put_node (n # ns) x t = Inl not_a_directory"

text \<open>\<^verbatim>\<open>create_dir_all\<close>: every missing directory of the path, with the metadata \<open>d\<close> of a new one.\<close>

fun make_dirs :: "meta \<Rightarrow> string list \<Rightarrow> tree \<Rightarrow> tree io_result" where
  "make_dirs d [] t = (if is_dir t then Ok t else Err AlreadyExists ''File exists'')"
| "make_dirs d (n # ns) (Dir m es) =
     rbind (make_dirs d ns (unwrap_or (map_of es n) (Dir d []))) (\<lambda>c. Ok (Dir m (AList.update n c es)))"
| "make_dirs d (n # ns) t = Inl not_a_directory"

text \<open>\<^verbatim>\<open>remove_dir_all\<close> of a directory that is not the root.\<close>

fun drop_node :: "string list \<Rightarrow> tree \<Rightarrow> tree io_result" where
  "drop_node [] t = Err (OsError 16) []"
| "drop_node [n] (Dir m es) =
     (case map_of es n of None \<Rightarrow> Inl no_entry
      | Some c \<Rightarrow> if is_dir c then Ok (Dir m (filter (\<lambda>e. fst e \<noteq> n) es)) else Inl not_a_directory)"
| "drop_node (n # ns) (Dir m es) =
     (case map_of es n of None \<Rightarrow> Inl no_entry
      | Some c \<Rightarrow> rbind (drop_node ns c) (\<lambda>c'. Ok (Dir m (AList.update n c' es))))"
| "drop_node (n # ns) t = Inl not_a_directory"

section \<open>Looking up\<close>

lemma lookup_append: "lookup t (p @ q) = and_then (lookup t p) (\<lambda>c. lookup c q)"
  by (induction t p rule: lookup.induct) (auto split: option.splits)

lemma lookup_dir_prefix: "lookup t (p @ n # q) = Some c \<Longrightarrow> \<exists>m es. lookup t p = Some (Dir m es)"
proof -
  assume "lookup t (p @ n # q) = Some c"
  then obtain d where d: "lookup t p = Some d" "lookup d (n # q) = Some c" by (auto simp: lookup_append)
  then show ?thesis by (cases d) simp_all
qed

lemma map_of_keep: "map_of (filter (\<lambda>e. fst e \<noteq> n) es) k = (if k = n then None else map_of es k)"
  by (induction es) auto

text \<open>Only what lies at or below \<open>p\<close> differs; the directories above it keep their metadata.\<close>

definition only_below :: "string list \<Rightarrow> tree \<Rightarrow> tree \<Rightarrow> bool" where
  "only_below p t t' \<longleftrightarrow> (\<forall>q. \<not> prefix p q \<longrightarrow>
     (if prefix q p then map_option bare (lookup t' q) = map_option bare (lookup t q)
      else lookup t' q = lookup t q))"

lemma only_below_refl [simp, intro]: "only_below p t t"
  by (simp add: only_below_def)

lemma only_below_Nil [simp, intro]: "only_below [] t t'"
  by (simp add: only_below_def)

lemma only_below_trans: "only_below p t u \<Longrightarrow> only_below p u v \<Longrightarrow> only_below p t v"
  unfolding only_below_def by (metis (no_types))

lemma only_below_disjoint: "only_below p t t' \<Longrightarrow> \<not> prefix p q \<Longrightarrow> \<not> prefix q p \<Longrightarrow> lookup t' q = lookup t q"
  unfolding only_below_def by metis

lemma only_below_bare: "only_below p t t' \<Longrightarrow> \<not> prefix p q \<Longrightarrow> map_option bare (lookup t' q) = map_option bare (lookup t q)"
  unfolding only_below_def by metis

lemma only_below_dir:
  assumes "only_below p t t'" "\<not> prefix p q" "lookup t q = Some (Dir m es)"
  shows "\<exists>es'. lookup t' q = Some (Dir m es')"
proof -
  from only_below_bare [OF assms(1,2)] assms(3) obtain c where c: "lookup t' q = Some c" "bare c = Dir m []" by auto
  then show ?thesis by (cases c) auto
qed

lemma only_below_mono:
  assumes "only_below (p @ r) t t'" shows "only_below p t t'"
  unfolding only_below_def
proof (intro allI impI)
  fix q assume q: "\<not> prefix p q"
  then have nq: "\<not> prefix (p @ r) q" by (meson append_prefixD)
  show "if prefix q p then map_option bare (lookup t' q) = map_option bare (lookup t q) else lookup t' q = lookup t q"
  proof (cases "prefix q p")
    case True
    with only_below_bare [OF assms nq] show ?thesis by simp
  next
    case False
    with q have "\<not> prefix q (p @ r)" by (metis prefix_same_cases prefixI)
    with False only_below_disjoint [OF assms nq] show ?thesis by simp
  qed
qed

text \<open>A step into a directory.\<close>

lemma only_below_step:
  assumes "only_below p c c'" "map_of es n = Some c"
  shows "only_below (n # p) (Dir m es) (Dir m (AList.update n c' es))"
  unfolding only_below_def
proof (intro allI impI)
  fix q assume q: "\<not> prefix (n # p) q"
  show "if prefix q (n # p) then map_option bare (lookup (Dir m (AList.update n c' es)) q) = map_option bare (lookup (Dir m es) q)
    else lookup (Dir m (AList.update n c' es)) q = lookup (Dir m es) q"
  proof (cases q)
    case (Cons k r)
    with q assms show ?thesis by (auto simp: update_conv' only_below_def)
  qed simp
qed

lemma only_below_new:
  assumes "map_of es n = None"
  shows "only_below [n] (Dir m es) (Dir m (AList.update n c es))"
  unfolding only_below_def
proof (intro allI impI)
  fix q assume "\<not> prefix [n] q"
  then show "if prefix q [n] then map_option bare (lookup (Dir m (AList.update n c es)) q) = map_option bare (lookup (Dir m es) q)
    else lookup (Dir m (AList.update n c es)) q = lookup (Dir m es) q"
    by (cases q) (auto simp: update_conv')
qed

lemma only_below_entry: "only_below [n] (Dir m es) (Dir m (AList.update n c es))"
proof (cases "map_of es n")
  case None
  then show ?thesis by (rule only_below_new)
next
  case (Some c0)
  have "only_below [] c0 c" by (simp add: only_below_def)
  from only_below_step [OF this Some] show ?thesis by simp
qed

section \<open>Laws of the edits\<close>

lemma put_node_lookup: "put_node p x t = Ok t' \<Longrightarrow> lookup t' (p @ q) = lookup x q"
proof (induction p x t arbitrary: t' rule: put_node.induct)
  case (3 n a ns x m es)
  then obtain c c' where c: "map_of es n = Some c" "put_node (a # ns) x c = Ok c'" "t' = Dir m (AList.update n c' es)"
    by (auto split: option.splits)
  from 3(1) [OF c(1,2)] c show ?case by (simp add: update_conv' del: lookup.simps(2)) (simp add: update_conv')
qed (auto simp: update_conv')

lemma put_node_at: "put_node p x t = Ok t' \<Longrightarrow> lookup t' p = Some x"
  using put_node_lookup [of p x t t' "[]"] by simp

lemma put_node_frame: "put_node p x t = Ok t' \<Longrightarrow> only_below p t t'"
proof (induction p x t arbitrary: t' rule: put_node.induct)
  case (3 n a ns x m es)
  then obtain c c' where "map_of es n = Some c" "put_node (a # ns) x c = Ok c'" "t' = Dir m (AList.update n c' es)"
    by (auto split: option.splits)
  with 3 show ?case by (auto intro: only_below_step)
qed (auto intro: only_below_entry)

lemma put_node_ok: "lookup t p = Some (Dir m es) \<Longrightarrow> is_ok (put_node (p @ [n]) x t)"
proof (induction t p rule: lookup.induct)
  case (2 t k ks)
  then obtain c where c: "map_of (entries_of t) k = Some c" "lookup c ks = Some (Dir m es)" by (auto split: option.splits)
  then obtain m' es' where t: "t = Dir m' es'" by (cases t) auto
  obtain j js where j: "ks @ [n] = j # js" by (cases ks) auto
  from 2 c have "is_ok (put_node (ks @ [n]) x c)" by simp
  with c t j show ?case by (auto simp: is_ok_rbind is_ok_iff)
qed simp

lemma make_dirs_dir: "make_dirs d p t = Ok t' \<Longrightarrow> \<exists>m es. lookup t' p = Some (Dir m es)"
proof (induction d p t arbitrary: t' rule: make_dirs.induct)
  case (1 d t)
  then show ?case by (cases t) auto
qed (auto simp: update_conv')

text \<open>What is there already is not touched, and the rest is empty.\<close>

lemma make_dirs_exists: "make_dirs d p t = Ok t' \<Longrightarrow> lookup t p = Some c \<Longrightarrow> lookup t' p = Some c"
proof (induction d p t arbitrary: t' rule: make_dirs.induct)
  case (2 d n ns m es)
  then show ?case by (auto simp: update_conv' split: option.splits)
qed (auto split: if_splits)

lemma make_dirs_empty_below: "make_dirs d p (Dir d []) = Ok t' \<Longrightarrow> lookup t' p = Some (Dir d [])"
proof (induction p arbitrary: t')
  case (Cons n p)
  then show ?case by auto
qed simp

lemma make_dirs_new: "make_dirs d p t = Ok t' \<Longrightarrow> lookup t p = None \<Longrightarrow> lookup t' p = Some (Dir d [])"
proof (induction d p t arbitrary: t' rule: make_dirs.induct)
  case (2 d n ns m es)
  then obtain c where c: "make_dirs d ns (unwrap_or (map_of es n) (Dir d [])) = Ok c" "t' = Dir m (AList.update n c es)"
    by auto
  show ?case
  proof (cases "map_of es n")
    case None
    with c make_dirs_empty_below [of d ns c] show ?thesis by (simp add: update_conv')
  next
    case (Some b)
    with c 2 show ?thesis by (simp add: update_conv')
  qed
qed (auto split: if_splits)

lemma make_dirs_frame:
  "make_dirs d (p @ n # q) t = Ok t' \<Longrightarrow> lookup t p = Some (Dir m es) \<Longrightarrow> only_below (p @ [n]) t t'"
proof (induction t p arbitrary: t' rule: lookup.induct)
  case (1 t)
  then show ?case by (auto intro: only_below_entry)
next
  case (2 t k ks)
  then obtain c where c: "map_of (entries_of t) k = Some c" "lookup c ks = Some (Dir m es)" by (auto split: option.splits)
  then obtain m' es' where t: "t = Dir m' es'" by (cases t) auto
  with 2 c obtain c' where c': "make_dirs d (ks @ n # q) c = Ok c'" "t' = Dir m' (AList.update k c' es')" by auto
  from 2(1) [OF c(1) c'(1) c(2)] c(1) show ?case by (simp add: c'(2) t only_below_step)
qed

lemma make_dirs_ok: "lookup t p = Some (Dir m es) \<Longrightarrow> lookup t (p @ q) = None \<or> is_ok (make_dirs d (p @ q) t) \<Longrightarrow>
    q = [] \<or> lookup t (p @ [hd q]) = None \<Longrightarrow> is_ok (make_dirs d (p @ q) t)"
proof (induction t p rule: lookup.induct)
  case (1 t)
  have e: "is_ok (make_dirs d r (Dir d []))" for r by (induction r) (auto simp: is_ok_rbind is_ok_iff)
  from 1 show ?case
    by (cases q) (auto simp: is_ok_rbind is_ok_iff e [unfolded is_ok_iff] split: option.splits)
next
  case (2 t k ks)
  then obtain c where c: "map_of (entries_of t) k = Some c" "lookup c ks = Some (Dir m es)" by (auto split: option.splits)
  then obtain m' es' where t: "t = Dir m' es'" by (cases t) auto
  from 2 c t show ?case by (auto simp: is_ok_rbind is_ok_iff)
qed

lemma drop_node_gone: "drop_node p t = Ok t' \<Longrightarrow> lookup t' (p @ q) = None"
proof (induction p t arbitrary: t' rule: drop_node.induct)
  case (3 n a ns m es)
  then obtain c c' where c: "map_of es n = Some c" "drop_node (a # ns) c = Ok c'" "t' = Dir m (AList.update n c' es)"
    by (auto split: option.splits)
  from 3(1) [OF c(1,2)] c show ?case by (simp add: update_conv' del: lookup.simps(2)) (simp add: update_conv')
qed (auto simp: map_of_keep split: option.splits if_splits)

lemma drop_node_frame: "drop_node p t = Ok t' \<Longrightarrow> only_below p t t'"
proof (induction p t arbitrary: t' rule: drop_node.induct)
  case (2 n m es)
  then have t': "t' = Dir m (filter (\<lambda>e. fst e \<noteq> n) es)" by (auto split: option.splits if_splits)
  show ?case unfolding only_below_def t'
  proof (intro allI impI)
    fix q assume "\<not> prefix [n] q"
    then show "if prefix q [n]
      then map_option bare (lookup (Dir m (filter (\<lambda>e. fst e \<noteq> n) es)) q) = map_option bare (lookup (Dir m es) q)
      else lookup (Dir m (filter (\<lambda>e. fst e \<noteq> n) es)) q = lookup (Dir m es) q"
      by (cases q) (auto simp: map_of_keep)
  qed
next
  case (3 n a ns m es)
  then obtain c c' where "map_of es n = Some c" "drop_node (a # ns) c = Ok c'" "t' = Dir m (AList.update n c' es)"
    by (auto split: option.splits)
  with 3 show ?case by (auto intro: only_below_step)
qed auto

lemma drop_node_ok:
  "p \<noteq> [] \<Longrightarrow> lookup t p = Some (Dir m es) \<Longrightarrow> is_ok (drop_node p t)"
proof (induction t p rule: lookup.induct)
  case (2 t k ks)
  then obtain c where c: "map_of (entries_of t) k = Some c" "lookup c ks = Some (Dir m es)" by (auto split: option.splits)
  then obtain m' es' where t: "t = Dir m' es'" by (cases t) auto
  with 2 c show ?case by (cases ks) (auto simp: is_ok_rbind is_ok_iff)
qed simp

lemma drop_node_missing: "drop_node p t = Inl e \<Longrightarrow> kind_of e = NotFound \<Longrightarrow> lookup t p = None"
proof (induction p t rule: drop_node.induct)
  case (3 n a ns m es)
  then show ?case by (auto simp: rbind_Inl_iff split: option.splits)
qed (auto simp: not_a_directory_def split: option.splits if_splits)

end
