(* ===== verification/Rollout_Fs.thy ===== *)
theory Rollout_Fs
  imports Computations Tree_Edit State_Files Layer_Store
begin

text \<open>
  The file system as the commands of \<^verbatim>\<open>rollout.rs\<close> use it: one directory tree, the layer store and the
  mounted overlays, with the calls of \<^verbatim>\<open>std::fs\<close> as computations that return a result and the new state.
\<close>

section \<open>The state and the environment\<close>

text \<open>
  \<open>fs_mounts\<close> lists the mounted overlays: the directory each covers and its option string.
\<close>

record fsys =
  fs_tree :: tree
  fs_store :: store
  fs_mounts :: "(string \<times> string) list"

text \<open>The calls that can fail for reasons the tree does not show.\<close>

datatype fs_call = Create_Dirs string | Write_File string | Remove_All string | Clone_Tree string
  | Mount string | Umount string

text \<open>
  What the commands find around them: the JSON library, the host, the current and the state directory,
  the limits of the snapshot size, the liveness of a process with a name, the failures of the calls, what
  failed calls leave behind (\<open>fe_debris\<close> the part of a copy a failed clone has made, \<open>fe_torn\<close> the text a
  failed write leaves in its file, if it touched the file at all, and \<open>fe_remains\<close> what a failed removal
  leaves of a directory), and \<open>fe_walk\<close>, the directory the kernel reaches from a path when it follows
  symbolic links. Paths under the state directory are looked up by their names: the code
  creates no links in them.
\<close>

record 'v fs_env =
  fe_json :: "'v json_api"
  fe_text :: "'v json_text"
  fe_host :: host
  fe_umask :: u32
  fe_cwd :: string
  fe_root :: string
  fe_max_bytes :: "string option"
  fe_max_entries :: "string option"
  fe_alive :: "int \<Rightarrow> string option \<Rightarrow> bool"
  fe_fails :: "fs_call \<Rightarrow> io_error option"
  fe_debris :: "tree \<Rightarrow> tree"
  fe_torn :: "string \<Rightarrow> string option"
  fe_remains :: "tree \<Rightarrow> tree"
  fe_walk :: "fsys \<Rightarrow> string \<Rightarrow> tree option"

fun comp_name :: "component \<Rightarrow> string option" where
  "comp_name (Normal s) = Some s"
| "comp_name ParentDir = Some ''..''"
| "comp_name _ = None"

definition path_names :: "string \<Rightarrow> string list" where
  "path_names p = filter_map comp_name (components p)"

text \<open>A path as names from the root of the file system.\<close>

definition names :: "'v fs_env \<Rightarrow> string \<Rightarrow> string list" where
  "names E p = path_names (path_join (fe_cwd E) p)"

definition new_dir :: "'v fs_env \<Rightarrow> meta" where
  "new_dir E = fresh (fe_host E) (0x1FF AND NOT (fe_umask E))"

definition find_node :: "'v fs_env \<Rightarrow> string \<Rightarrow> fsys \<Rightarrow> tree option" where
  "find_node E p s = lookup (fs_tree s) (names E p)"

definition path_exists :: "'v fs_env \<Rightarrow> string \<Rightarrow> fsys \<Rightarrow> bool" where
  "path_exists E p s = (find_node E p s \<noteq> None)"

section \<open>The calls\<close>

definition call :: "'v fs_env \<Rightarrow> fs_call \<Rightarrow> (fsys, unit) io" where
  "call E c = io_of (case fe_fails E c of None \<Rightarrow> Ok () | Some e \<Rightarrow> Inl e)"

text \<open>A change of the tree, with its own error.\<close>

definition edit :: "(tree \<Rightarrow> tree io_result) \<Rightarrow> (fsys, unit) io" where
  "edit f = (\<lambda>s. case f (fs_tree s) of Inl e \<Rightarrow> (s, Inl e) | Inr t \<Rightarrow> (s\<lparr>fs_tree := t\<rparr>, Ok ()))"

definition create_dir_all :: "'v fs_env \<Rightarrow> string \<Rightarrow> (fsys, unit) io" where
  "create_dir_all E p =
     io_bind (call E (Create_Dirs p)) (\<lambda>_. edit (make_dirs (new_dir E) (names E p)))"

text \<open>What a failed call has done to the node at a path before it gives its error.\<close>

definition fail_leaving :: "io_error \<Rightarrow> (fsys, unit) io \<Rightarrow> (fsys, unit) io" where
  "fail_leaving e m = io_bind (io_try m) (\<lambda>_. io_of (Inl e))"

text \<open>
  \<^verbatim>\<open>remove_dir_all\<close> goes down into whatever is mounted below the path and then finds the mount point
  busy (\<^verbatim>\<open>EBUSY\<close>, 16). A failed removal leaves what \<open>fe_remains\<close> says of the directory; the upper
  directory of an overlay, which a removal through the mount changes, lies in the container directory
  its merged directory lies in.
\<close>

definition busy :: "'v fs_env \<Rightarrow> string \<Rightarrow> fsys \<Rightarrow> bool" where
  "busy E p s \<longleftrightarrow> (\<exists>m \<in> set (fs_mounts s). prefix (names E p) (names E (fst m)))"

definition remove_error :: "'v fs_env \<Rightarrow> string \<Rightarrow> fsys \<Rightarrow> io_error option" where
  "remove_error E p s =
     (case fe_fails E (Remove_All p) of
        Some e \<Rightarrow> Some e
      | None \<Rightarrow> if busy E p s then Some (IoError (OsError 16) []) else None)"

definition remove_dir_all :: "'v fs_env \<Rightarrow> string \<Rightarrow> (fsys, unit) io" where
  "remove_dir_all E p =
     io_bind (io_get (\<lambda>s. (find_node E p s, remove_error E p s))) (\<lambda>(old, err).
       case err of
         None \<Rightarrow> edit (drop_node (names E p))
       | Some e \<Rightarrow> fail_leaving e
           (case old of None \<Rightarrow> io_ok () | Some t \<Rightarrow> edit (put_node (names E p) (fe_remains E t))))"

text \<open>
  \<^verbatim>\<open>std::fs::write\<close>: an existing file keeps its metadata. A write that fails may have created or truncated
  the file and written part of the text.
\<close>

definition written :: "'v fs_env \<Rightarrow> string \<Rightarrow> tree option \<Rightarrow> tree io_result" where
  "written E text old =
     (case old of
        Some (File m _) \<Rightarrow> Ok (File m (bytes_of text))
      | Some (Dir _ _) \<Rightarrow> Err (OsError 21) []
      | Some _ \<Rightarrow> Err Other []
      | None \<Rightarrow> Ok (File (fresh (fe_host E) (0x1B6 AND NOT (fe_umask E))) (bytes_of text)))"

definition put_text :: "'v fs_env \<Rightarrow> string \<Rightarrow> string \<Rightarrow> (fsys, unit) io" where
  "put_text E p text =
     edit (\<lambda>t. rbind (written E text (lookup t (names E p))) (\<lambda>f. put_node (names E p) f t))"

definition write_file :: "'v fs_env \<Rightarrow> string \<Rightarrow> string \<Rightarrow> (fsys, unit) io" where
  "write_file E p text =
     (case fe_fails E (Write_File p) of
        None \<Rightarrow> put_text E p text
      | Some e \<Rightarrow> fail_leaving e (case fe_torn E p of None \<Rightarrow> io_ok () | Some part \<Rightarrow> put_text E p part))"

definition file_text :: "tree option \<Rightarrow> string option" where
  "file_text n = (case n of Some (File _ c) \<Rightarrow> Some (byte_string c) | _ \<Rightarrow> None)"

definition read_file :: "'v fs_env \<Rightarrow> string \<Rightarrow> fsys \<Rightarrow> string io_result" where
  "read_file E p s = ok_or (file_text (find_node E p s)) no_entry"

text \<open>
  \<^verbatim>\<open>clone_upperdir\<close> on paths: the destination directory is created before the source is read, and a failure
  leaves what was copied so far.
\<close>

definition clone_dir :: "'v fs_env \<Rightarrow> string \<Rightarrow> string \<Rightarrow> (fsys, unit) io" where
  "clone_dir E src dst =
     io_bind (io_get (path_exists E dst)) (\<lambda>there.
     if there then io_of (Err Other (''destination '' @ dst @ '' already exists''))
     else
       io_bind (create_dir_all E dst) (\<lambda>_.
       io_bind (io_get (find_node E src)) (\<lambda>t.
       let r = (case fe_fails E (Clone_Tree dst) of
                  Some e \<Rightarrow> Inl e
                | None \<Rightarrow> rbind (ok_or t no_entry) (clone_upperdir (fe_host E) dst False))
       in case r of
            Inr c \<Rightarrow> edit (put_node (names E dst) c)
          | Inl e \<Rightarrow> io_bind (io_try (edit (put_node (names E dst) (fe_debris E (unwrap_or t (Dir (new_dir E) []))))))
                (\<lambda>_. io_of (Inl e)))))"

definition mount_at :: "'v fs_env \<Rightarrow> string \<Rightarrow> string \<Rightarrow> (fsys, unit) io" where
  "mount_at E dir data =
     io_bind (call E (Mount dir)) (\<lambda>_ s. (s\<lparr>fs_mounts := (dir, data) # fs_mounts s\<rparr>, Ok ()))"

text \<open>\<^verbatim>\<open>EINVAL\<close> (22) is the answer when nothing is mounted there.\<close>

fun pop_mount :: "string \<Rightarrow> (string \<times> string) list \<Rightarrow> (string \<times> string) list option" where
  "pop_mount dir [] = None"
| "pop_mount dir (m # ms) = (if fst m = dir then Some ms else map_option (Cons m) (pop_mount dir ms))"

definition umount2 :: "'v fs_env \<Rightarrow> string \<Rightarrow> (fsys, unit) io" where
  "umount2 E dir =
     io_bind (call E (Umount dir)) (\<lambda>_ s.
       case pop_mount dir (fs_mounts s) of
         None \<Rightarrow> (s, Err (OsError 22) [])
       | Some ms \<Rightarrow> (s\<lparr>fs_mounts := ms\<rparr>, Ok ()))"

section \<open>Container directories\<close>

definition container_dir :: "'v fs_env \<Rightarrow> string \<Rightarrow> string" where
  "container_dir E cid = path_join (fe_root E) cid"

text \<open>The files of a container directory, as the lifecycle commands see them.\<close>

definition cdir_of :: "tree \<Rightarrow> cdir" where
  "cdir_of t =
     \<lparr>cd_state = file_text (lookup t [''state.json'']), cd_pid = file_text (lookup t [''init.pid'']),
      cd_fifo = (case lookup t [''init.fifo''] of Some (Fifo _) \<Rightarrow> True | _ \<Rightarrow> False),
      cd_hooks = file_text (lookup t [''hooks.json'']), cd_overlay = file_text (lookup t [''overlay.json''])\<rparr>"

definition cdir_at :: "'v fs_env \<Rightarrow> string \<Rightarrow> fsys \<Rightarrow> cdir" where
  "cdir_at E root s = (case find_node E root s of Some t \<Rightarrow> cdir_of t | None \<Rightarrow> empty_cdir)"

text \<open>\<^verbatim>\<open>ContainerPaths::ensure\<close> and \<^verbatim>\<open>destroy\<close>, and \<^verbatim>\<open>write_state\<close> into the directory.\<close>

definition ensure :: "'v fs_env \<Rightarrow> string \<Rightarrow> (fsys, unit) io" where
  "ensure E root = create_dir_all E root"

definition destroy :: "'v fs_env \<Rightarrow> string \<Rightarrow> (fsys, unit) io" where
  "destroy E root =
     io_bind (io_try (remove_dir_all E root)) (\<lambda>r.
       case r of Inl e \<Rightarrow> if kind_of e = NotFound then io_ok () else io_of (Inl e) | Inr _ \<Rightarrow> io_ok ())"

definition write_state_file ::
  "'v fs_env \<Rightarrow> string \<Rightarrow> string \<Rightarrow> int \<Rightarrow> string \<Rightarrow> string \<Rightarrow> string option \<Rightarrow> (fsys, unit) io" where
  "write_state_file E root cid pid bundle status comm =
     write_file E (path_join root ''state.json'') (state_text (fe_text E) cid pid bundle status comm)"

section \<open>Names of the paths the code forms\<close>

lemma path_names_append: "path_names (a @ ''/'' @ b) = path_names a @ path_names b"
  if "a \<noteq> []" "\<not> is_absolute b" "hd (split_on CHR ''/'' b) \<noteq> ''.''"
  using components_append [OF that(2,3,1)] by (simp add: path_names_def)

lemma path_names_join:
  "\<not> is_absolute b \<Longrightarrow> hd (split_on CHR ''/'' b) \<noteq> ''.'' \<Longrightarrow> a \<noteq> [] \<Longrightarrow>
   path_names (path_join a b) = path_names a @ path_names b"
  by (simp add: path_names_def components_join)

lemma path_join_assoc:
  assumes "\<not> is_absolute b" "is_absolute c \<or> a \<noteq> []" "b \<noteq> []"
  shows "path_join c (path_join a b) = path_join (path_join c a) b"
  using assms by (auto simp: path_join_def is_absolute_def split: list.splits)

lemma names_join:
  assumes "\<not> is_absolute b" "hd (split_on CHR ''/'' b) \<noteq> ''.''" "b \<noteq> []" "is_absolute (fe_cwd E)"
  shows "names E (path_join a b) = names E a @ path_names b"
proof (cases "a = []")
  case True
  have "fe_cwd E \<noteq> []" using assms(4) by (auto simp: is_absolute_def)
  moreover have "path_names (path_join (fe_cwd E) []) = path_names (fe_cwd E)"
    using components_trailing [of "fe_cwd E"] \<open>fe_cwd E \<noteq> []\<close>
    by (simp add: path_names_def path_join_def is_absolute_def)
  ultimately show ?thesis
    using assms path_names_join [of b "fe_cwd E"] True by (simp add: names_def path_join_def)
next
  case False
  then have "path_join (fe_cwd E) a \<noteq> []" by (auto simp: path_join_def)
  with assms path_names_join [of b "path_join (fe_cwd E) a"] False
  show ?thesis unfolding names_def by (simp add: path_join_assoc [OF assms(1) _ assms(3)])
qed

lemma name_ok_path:
  assumes "name_ok n"
  shows "\<not> is_absolute n" "hd (split_on CHR ''/'' n) \<noteq> ''.''" "n \<noteq> []" "path_names n = [n]"
proof -
  show abs: "\<not> is_absolute n" using assms by (cases n) (auto simp: is_absolute_def name_ok_def)
  have "split_on CHR ''/'' n = [n]" using assms by (simp add: split_on_no_sep name_ok_def)
  then show "hd (split_on CHR ''/'' n) \<noteq> ''.''" "path_names n = [n]"
    using assms abs by (simp_all add: name_ok_def path_names_def components_def comp_of_def)
  show "n \<noteq> []" using assms by (simp add: name_ok_def)
qed

lemma names_container: "name_ok cid \<Longrightarrow> is_absolute (fe_cwd E) \<Longrightarrow> names E (container_dir E cid) = names E (fe_root E) @ [cid]"
  using names_join [of cid E "fe_root E"] name_ok_path [of cid] by (simp add: container_dir_def)

section \<open>Calls that succeed\<close>

lemma call_Inr: "call E c s = (s', Inr ()) \<longleftrightarrow> s' = s \<and> fe_fails E c = None"
  by (auto simp: call_def split: option.splits)

lemma edit_Inr: "edit f s = (s', Inr ()) \<longleftrightarrow> (\<exists>t. f (fs_tree s) = Ok t \<and> s' = s\<lparr>fs_tree := t\<rparr>)"
  by (auto simp: edit_def split: sum.splits)

lemma fail_leaving_result [simp]: "snd (fail_leaving e m s) = Inl e"
  by (auto simp: fail_leaving_def io_bind_def io_try_def split: prod.split)

lemma fail_leaving_Inr [simp]: "fail_leaving e m s \<noteq> (s', Inr a)"
  by (metis fail_leaving_result old.sum.distinct(2) snd_conv)

lemma write_Inr: "write_file E p x s = (s', Inr ()) \<longleftrightarrow> fe_fails E (Write_File p) = None \<and> put_text E p x s = (s', Inr ())"
  by (auto simp: write_file_def split: option.splits)

lemma remove_Inr:
  "remove_dir_all E p s = (s', Inr ()) \<longleftrightarrow>
     fe_fails E (Remove_All p) = None \<and> \<not> busy E p s \<and>
     (\<exists>t. drop_node (names E p) (fs_tree s) = Ok t \<and> s' = s\<lparr>fs_tree := t\<rparr>)"
  by (auto simp: remove_dir_all_def remove_error_def edit_Inr split: option.splits)

lemma remove_quiet:
  "fe_fails E (Remove_All p) = None \<Longrightarrow> \<not> busy E p s \<Longrightarrow> remove_dir_all E p s = edit (drop_node (names E p)) s"
  by (simp add: remove_dir_all_def remove_error_def)

section \<open>What the calls leave alone\<close>

definition has_dir :: "string list \<Rightarrow> fsys \<Rightarrow> bool" where
  "has_dir C s \<longleftrightarrow> (\<exists>m es. lookup (fs_tree s) C = Some (Dir m es))"

text \<open>\<open>C\<close> is a directory, and since \<open>s0\<close> the tree changed below it only.\<close>

definition inside :: "string list \<Rightarrow> fsys \<Rightarrow> fsys \<Rightarrow> bool" where
  "inside C s0 s \<longleftrightarrow> has_dir C s \<and> only_below C (fs_tree s0) (fs_tree s) \<and> fs_store s = fs_store s0"

lemma inside_refl: "has_dir C s \<Longrightarrow> inside C s s"
  by (simp add: inside_def)

lemma inside_edit:
  assumes "\<And>t t'. (\<exists>m es. lookup t C = Some (Dir m es)) \<Longrightarrow> f t = Ok t' \<Longrightarrow> only_below (C @ [n]) t t'"
  shows "keeps (inside C s0) (edit f)"
proof (rule tripleI)
  fix s s' a assume i: "inside C s0 s" and e: "edit f s = (s', Inr a)"
  then obtain t' where t': "f (fs_tree s) = Ok t'" "s' = s\<lparr>fs_tree := t'\<rparr>"
    by (auto simp: edit_def split: sum.splits)
  from i obtain m es where C: "lookup (fs_tree s) C = Some (Dir m es)" by (auto simp: inside_def has_dir_def)
  with assms t'(1) have below: "only_below (C @ [n]) (fs_tree s) t'" by blast
  have "\<not> prefix (C @ [n]) C" by (auto dest: prefix_length_le)
  from only_below_dir [OF below this C] i below [THEN only_below_mono] show "inside C s0 s'"
    by (auto simp: inside_def has_dir_def t'(2) intro: only_below_trans)
next
  fix s s' e assume "inside C s0 s" "edit f s = (s', Inl e)"
  then show "inside C s0 s'" by (auto simp: edit_def split: sum.splits)
qed

lemma keeps_call [io_rules]: "keeps I (call E c)"
  by (simp add: call_def keeps_of)

lemma keeps_fail [io_rules]: "keeps I m \<Longrightarrow> keeps I (fail_leaving e m)"
  unfolding fail_leaving_def by (intro keeps_bind keeps_try keeps_of)

text \<open>An invariant of the text that is put is one of the write, whole or torn.\<close>

lemma keeps_write: "(\<And>x. keeps I (put_text E p x)) \<Longrightarrow> keeps I (write_file E p text)"
  unfolding write_file_def by (auto intro!: keeps_fail keeps_ok split: option.split)

lemma keeps_remove:
  "keeps I (edit (drop_node (names E p))) \<Longrightarrow> (\<And>t. keeps I (edit (put_node (names E p) t))) \<Longrightarrow> keeps I (remove_dir_all E p)"
  unfolding remove_dir_all_def by (intro keeps_bind keeps_get) (auto intro!: keeps_fail keeps_ok split: option.split)

lemma only_below_entry_of: "only_below (C @ n # r) t t' \<Longrightarrow> only_below (C @ [n]) t t'"
  by (rule only_below_mono [where r=r]) simp

lemma inside_put: "keeps (inside C s0) (edit (put_node (C @ n # r) x))"
  by (rule inside_edit [where n=n]) (auto intro: only_below_entry_of dest!: put_node_frame)

lemma inside_write [io_rules]: "names E p = C @ n # r \<Longrightarrow> keeps (inside C s0) (write_file E p text)"
  by (rule keeps_write, unfold put_text_def, rule inside_edit [where n=n])
    (auto intro: only_below_entry_of dest!: put_node_frame)

lemma inside_create [io_rules]: "names E p = C @ n # r \<Longrightarrow> keeps (inside C s0) (create_dir_all E p)"
  unfolding create_dir_all_def
  by (intro keeps_bind keeps_call inside_edit [where n=n]) (auto intro: make_dirs_frame)

lemma inside_clone [io_rules]:
  assumes "names E dst = C @ n # r" shows "keeps (inside C s0) (clone_dir E src dst)"
  unfolding clone_dir_def Let_def
  by (intro keeps_bind keeps_get keeps_if keeps_of inside_create [OF assms])
    (auto split: sum.splits intro!: keeps_bind keeps_try keeps_of inside_put simp: assms)

lemma inside_mount [io_rules]: "keeps (inside C s0) (mount_at E dir data)"
  unfolding mount_at_def by (intro keeps_bind keeps_call) (simp add: triple_def inside_def has_dir_def)

lemma inside_umount [io_rules]: "keeps (inside C s0) (umount2 E dir)"
  unfolding umount2_def by (intro keeps_bind keeps_call) (simp add: triple_def inside_def has_dir_def split: option.splits)

end
