(* ===== verification/Json_Codec.thy ===== *)
theory Json_Codec
  imports State_Files Utf8
begin

text \<open>
  Writing a JSON value to a file and reading it back: the law the metadata files of \<^verbatim>\<open>rollout.rs\<close> rely on,
  and a concrete encoding of the values of \<open>jval\<close> that has it.
\<close>

locale json_file = json_value J for J :: "'v json_api" +
  fixes T :: "'v json_text"
  assumes parse_print: "jt_parse T (jt_print T v) = Some v"

section \<open>Compact JSON text\<close>

text \<open>
  The text \<^verbatim>\<open>serde_json\<close> prints without white space. A float of \<open>jval\<close> keeps its digits as an opaque
  string behind a tilde; no file of the program holds one.
\<close>

definition hex_value :: "char \<Rightarrow> nat" where
  "hex_value c = (let v = of_char c in if v < 58 then v - 48 else v - 87)"

fun take_body :: "string \<Rightarrow> (string \<times> string) option" where
  "take_body [] = None"
| "take_body (c # r) =
     (if c = QUOTE then Some ([], r)
      else if c = BACKSLASH then
        (case r of
           d # r' \<Rightarrow>
             if d = CHR ''u'' then
               (case r' of
                  _ # _ # h # l # r'' \<Rightarrow>
                    map_option (apfst (Cons (char_of (16 * hex_value h + hex_value l)))) (take_body r'')
                | _ \<Rightarrow> None)
             else map_option (apfst (Cons d)) (take_body r')
         | [] \<Rightarrow> None)
      else map_option (apfst (Cons c)) (take_body r))"

definition take_str :: "string \<Rightarrow> (string \<times> string) option" where
  "take_str s = (case s of q # r \<Rightarrow> if q = QUOTE then take_body r else None | [] \<Rightarrow> None)"

lemma hex_digit_value: "d < 16 \<Longrightarrow> hex_value (hex_digit d) = d"
proof -
  assume "d < 16"
  then have "d \<in> {0, 1, 2, 3, 4, 5, 6, 7, 8, 9, 10, 11, 12, 13, 14, 15}" by simp presburger
  then show ?thesis by (auto simp: hex_digit_def hex_value_def)
qed

lemma take_body_char: "take_body (esc_char c @ r) = map_option (apfst (Cons c)) (take_body r)"
proof (cases "c = QUOTE \<or> c = BACKSLASH \<or> 32 \<le> (of_char c :: nat)")
  case True
  then show ?thesis by (auto simp: esc_char_def)
next
  case False
  let ?n = "of_char c :: nat"
  have n: "?n < 32" using False by simp
  have "esc_char c = [BACKSLASH, CHR ''u'', CHR ''0'', CHR ''0'', hex_digit (?n div 16), hex_digit (?n mod 16)]"
    using False by (simp add: esc_char_def)
  moreover have "16 * hex_value (hex_digit (?n div 16)) + hex_value (hex_digit (?n mod 16)) = ?n"
    using n by (simp add: hex_digit_value)
  ultimately show ?thesis by simp
qed

lemma take_body_put: "take_body (concat (map esc_char s) @ QUOTE # r) = Some (s, r)"
  by (induction s) (simp_all add: take_body_char)

lemma take_put_str [simp]: "take_str (json_escape s @ r) = Some (s, r)"
  by (simp add: take_str_def json_escape_def take_body_put)

text \<open>Numbers: digits up to the first other character.\<close>

definition is_digit :: "char \<Rightarrow> bool" where
  "is_digit c \<longleftrightarrow> c \<in> ascii_digits"

definition take_word :: "string \<Rightarrow> (u64 \<times> string) option" where
  "take_word s = map_option (\<lambda>w. (w, dropWhile is_digit s)) (parse_u64 (takeWhile is_digit s))"

text \<open>What may follow a value.\<close>

definition closed_by :: "string \<Rightarrow> bool" where
  "closed_by r \<longleftrightarrow> (case r of [] \<Rightarrow> True | c # _ \<Rightarrow> c \<in> {CHR '','', CHR '']'', CHR ''}''})"

lemma closed_simps [simp]: "closed_by []" "closed_by (CHR '','' # r)" "closed_by (CHR '']'' # r)" "closed_by (CHR ''}'' # r)"
  by (simp_all add: closed_by_def)

lemma digit_range: "is_digit c \<Longrightarrow> 48 \<le> (of_char c :: nat) \<and> (of_char c :: nat) \<le> 57"
  by (auto simp: is_digit_def ascii_digits_def)

lemma take_dec_word: "closed_by r \<Longrightarrow> take_word (dec_u64 w @ r) = Some (w, r)"
proof -
  assume r: "closed_by r"
  have d: "\<forall>c \<in> set (dec_u64 w). is_digit c" using set_dec_nat by (auto simp: dec_u64_def is_digit_def)
  have "takeWhile is_digit r = [] \<and> dropWhile is_digit r = r"
    using r by (cases r) (auto simp: closed_by_def is_digit_def ascii_digits_def)
  with d show ?thesis by (simp add: take_word_def takeWhile_append2 dropWhile_append2 parse_u64_dec)
qed

definition separated :: "('a \<Rightarrow> string) \<Rightarrow> 'a list \<Rightarrow> string" where
  "separated f xs = (case xs of [] \<Rightarrow> [] | y # ys \<Rightarrow> f y @ concat (map (\<lambda>x. CHR '','' # f x) ys))"

lemma separated_cong [fundef_cong]: "xs = ys \<Longrightarrow> (\<And>x. x \<in> set ys \<Longrightarrow> f x = g x) \<Longrightarrow> separated f xs = separated g ys"
  by (cases ys) (simp_all add: separated_def cong: map_cong)

fun put_val :: "jval \<Rightarrow> string" where
  "put_val JNull = ''null''"
| "put_val (JBool b) = (if b then ''true'' else ''false'')"
| "put_val (JPos w) = dec_u64 w"
| "put_val (JNeg w) = CHR ''-'' # dec_u64 (- w)"
| "put_val (JFloat s) = CHR ''~'' # json_escape s"
| "put_val (JStr s) = json_escape s"
| "put_val (JArr vs) = CHR ''['' # separated put_val vs @ '']''"
| "put_val (JObj kvs) = CHR ''{'' # separated (\<lambda>kv. json_escape (fst kv) @ CHR '':'' # put_val (snd kv)) kvs @ ''}''"

text \<open>The items of a list up to its closing character; each but the first after a comma.\<close>

fun take_more :: "nat \<Rightarrow> char \<Rightarrow> (string \<Rightarrow> ('a \<times> string) option) \<Rightarrow> string \<Rightarrow> ('a list \<times> string) option" where
  "take_more 0 q f s = None"
| "take_more (Suc k) q f [] = None"
| "take_more (Suc k) q f (c # s) =
     (if c = q then Some ([], s)
      else if c = CHR '','' then and_then (f s) (\<lambda>(x, s). map_option (apfst (Cons x)) (take_more k q f s))
      else None)"

definition take_items :: "nat \<Rightarrow> char \<Rightarrow> (string \<Rightarrow> ('a \<times> string) option) \<Rightarrow> string \<Rightarrow> ('a list \<times> string) option" where
  "take_items k q f s = (case s of c # r \<Rightarrow> take_more k q f (if c = q then s else CHR '','' # s) | [] \<Rightarrow> None)"

fun take_val :: "nat \<Rightarrow> string \<Rightarrow> (jval \<times> string) option" where
  "take_val 0 s = None"
| "take_val (Suc k) [] = None"
| "take_val (Suc k) (c # s) =
     (if c = CHR ''n'' then Some (JNull, drop 3 s)
      else if c = CHR ''t'' then Some (JBool True, drop 3 s)
      else if c = CHR ''f'' then Some (JBool False, drop 4 s)
      else if c = CHR ''-'' then map_option (apfst (\<lambda>w. JNeg (- w))) (take_word s)
      else if c = CHR ''~'' then map_option (apfst JFloat) (take_str s)
      else if c = QUOTE then map_option (apfst JStr) (take_str (c # s))
      else if c = CHR ''['' then map_option (apfst JArr) (take_items k (CHR '']'') (take_val k) s)
      else if c = CHR ''{'' then
        map_option (apfst JObj)
          (take_items k (CHR ''}'') (\<lambda>s. and_then (take_str s) (\<lambda>(n, s). map_option (apfst (Pair n)) (take_val k (drop 1 s)))) s)
      else map_option (apfst JPos) (take_word (c # s)))"

lemma take_more_put:
  assumes "\<And>x r. x \<in> set xs \<Longrightarrow> closed_by r \<Longrightarrow> f (enc x @ r) = Some (x, r)" "length xs < k" "q \<in> {CHR '']'', CHR ''}''}"
  shows "take_more k q f (concat (map (\<lambda>x. CHR '','' # enc x) xs) @ q # r) = Some (xs, r)"
  using assms
proof (induction xs arbitrary: k)
  case Nil
  then show ?case by (cases k) simp_all
next
  case (Cons x xs)
  then obtain j where j: "k = Suc j" "length xs < j" by (cases k) auto
  have "closed_by (concat (map (\<lambda>x. CHR '','' # enc x) xs) @ q # r)" using Cons.prems(3) by (cases xs) auto
  with Cons j show ?case by auto
qed

lemma take_items_put:
  assumes "\<And>x r. x \<in> set xs \<Longrightarrow> closed_by r \<Longrightarrow> f (enc x @ r) = Some (x, r)" "length xs < k" "q \<in> {CHR '']'', CHR ''}''}"
    and "\<And>x. x \<in> set xs \<Longrightarrow> \<exists>c s. enc x = c # s \<and> c \<noteq> q"
  shows "take_items k q f (separated enc xs @ q # r) = Some (xs, r)"
proof (cases xs)
  case Nil
  with assms(2) take_more_put [of "[]" f enc k q r] assms(3) show ?thesis by (simp add: take_items_def separated_def)
next
  case (Cons y ys)
  with assms(4) obtain c s where "enc y = c # s" "c \<noteq> q" by fastforce
  moreover have "take_more k q f (concat (map (\<lambda>x. CHR '','' # enc x) xs) @ q # r) = Some (xs, r)"
    by (rule take_more_put [OF assms(1-3)])
  ultimately show ?thesis using Cons by (simp add: take_items_def separated_def)
qed

lemma length_separated: "length (separated enc xs) + 1 \<ge> length xs + (\<Sum>x\<leftarrow>xs. length (enc x))"
proof (cases xs)
  case (Cons y ys)
  have "length (concat (map (\<lambda>x. CHR '','' # enc x) ys)) \<ge> length ys + (\<Sum>x\<leftarrow>ys. length (enc x))"
    by (induction ys) simp_all
  with Cons show ?thesis by (simp add: separated_def)
qed simp

lemma item_le: "x \<in> set xs \<Longrightarrow> length (enc x) \<le> (\<Sum>x\<leftarrow>xs. length (enc x))"
  by (simp add: member_le_sum_list)

lemma put_val_head: "\<exists>c s. put_val v = c # s \<and> c \<noteq> CHR '']''"
proof (cases v)
  case (JPos w)
  obtain c s where "dec_u64 w = c # s" using dec_nat_nonempty by (cases "dec_u64 w") (auto simp: dec_u64_def)
  moreover from this have "is_digit c" using set_dec_nat [of "unat w"] by (auto simp: dec_u64_def is_digit_def)
  ultimately show ?thesis using JPos by (auto simp: is_digit_def ascii_digits_def)
qed (simp_all add: json_escape_def)

lemma digit_first: "\<exists>c s. dec_u64 w = c # s \<and> is_digit c"
  using set_dec_nat [of "unat w"] dec_nat_nonempty [of "unat w"] by (cases "dec_nat (unat w)") (auto simp: dec_u64_def is_digit_def)

lemma take_val_word: "is_digit c \<Longrightarrow> take_val (Suc k) (c # s) = map_option (apfst JPos) (take_word (c # s))"
  by (auto simp: is_digit_def ascii_digits_def)

lemma take_put_val: "length (put_val v) < k \<Longrightarrow> closed_by r \<Longrightarrow> take_val k (put_val v @ r) = Some (v, r)"
proof (induction v arbitrary: k r)
  case (JArr vs)
  then obtain j where k: "k = Suc j" by (cases k) simp_all
  have len: "length vs + (\<Sum>v\<leftarrow>vs. length (put_val v)) < j"
    using JArr.prems length_separated [of vs put_val] by (simp add: k)
  have "take_val j (put_val v @ r') = Some (v, r')" if "v \<in> set vs" "closed_by r'" for v r'
    using JArr.IH [OF that(1) _ that(2)] item_le [OF that(1), of "put_val"] len by simp
  from take_items_put [OF this, of vs j "CHR '']''" r] put_val_head len show ?case by (simp add: k)
next
  case (JObj kvs)
  then obtain j where k: "k = Suc j" by (cases k) simp_all
  let ?enc = "\<lambda>kv. json_escape (fst kv) @ CHR '':'' # put_val (snd kv)"
  have len: "length kvs + (\<Sum>kv\<leftarrow>kvs. length (?enc kv)) < j"
    using JObj.prems length_separated [of kvs ?enc] by (simp add: k)
  let ?take = "\<lambda>s. and_then (take_str s) (\<lambda>(n, s). map_option (apfst (Pair n)) (take_val j (drop 1 s)))"
  have item: "?take (?enc kv @ r') = Some (kv, r')" if "kv \<in> set kvs" "closed_by r'" for kv r'
    using JObj.IH [of kv "snd kv" j r'] that item_le [OF that(1), of ?enc] len by (cases kv) simp
  have "\<exists>c s. ?enc kv = c # s \<and> c \<noteq> CHR ''}''" for kv by (simp add: json_escape_def)
  with take_items_put [of kvs ?take ?enc j "CHR ''}''" r, OF item] len show ?case by (simp add: k)
next
  case (JPos w)
  then obtain j where k: "k = Suc j" by (cases k) simp_all
  obtain c s where c: "dec_u64 w = c # s" "is_digit c" using digit_first by blast
  have "take_val k (dec_u64 w @ r) = map_option (apfst JPos) (take_word (dec_u64 w @ r))"
    using c take_val_word [OF c(2), of j "s @ r"] by (simp add: k del: take_val.simps)
  with take_dec_word [OF JPos.prems(2)] show ?case by simp
next
  case (JNeg w)
  then show ?case by (cases k) (simp_all add: take_dec_word)
next
  case (JStr s)
  then obtain j where k: "k = Suc j" by (cases k) simp_all
  have "json_escape s @ r = QUOTE # (concat (map esc_char s) @ QUOTE # r)" by (simp add: json_escape_def)
  moreover have "take_str (json_escape s @ r) = Some (s, r)" by simp
  ultimately show ?case by (simp add: k)
next
  case JNull
  then show ?case by (cases k) simp_all
next
  case (JBool b)
  then show ?case by (cases k; cases b) simp_all
next
  case (JFloat s)
  then show ?case by (cases k) simp_all
qed

definition codec_parse :: "string \<Rightarrow> jval option" where
  "codec_parse s = map_option fst (take_val (Suc (length s)) s)"

lemma codec_roundtrip: "codec_parse (put_val v) = Some v"
  using take_put_val [of v "Suc (length (put_val v))" "[]"] by (simp add: codec_parse_def)

text \<open>\<^verbatim>\<open>value[key] = x\<close> on an object.\<close>

fun jv_set :: "jval \<Rightarrow> string \<Rightarrow> jval \<Rightarrow> jval" where
  "jv_set (JObj kvs) k x = JObj (if k \<in> fst ` set kvs then map (\<lambda>kv. if fst kv = k then (k, x) else kv) kvs else kvs @ [(k, x)])"
| "jv_set v k x = v"

definition codec :: "jval json_text" where
  "codec = \<lparr>jt_parse = codec_parse, jt_print = put_val, jt_set = jv_set, jt_str = json_escape\<rparr>"

interpretation codec: json_file jv codec
  by unfold_locales (simp add: codec_def codec_roundtrip)

end
