(* ===== verification/Overlay_State.thy ===== *)
theory Overlay_State
  imports Rollout_Fs Spec_Parse Json_Codec
begin

text \<open>
  The overlay of a container (\<^verbatim>\<open>OverlayRootfs\<close> of \<^verbatim>\<open>rollout.rs\<close>): where its directories are, the checks
  on their paths, the mount, and \<^verbatim>\<open>overlay.json\<close>. A container is given by the path \<open>root\<close> of its
  directory (\<^verbatim>\<open>ContainerPaths\<close>).
\<close>

record overlay =
  ov_lowers :: "string list"
  ov_upper :: string
  ov_work :: string
  ov_merged :: string

section \<open>Paths\<close>

definition resolve_bundle_path :: "(string \<Rightarrow> string io_result) \<Rightarrow> string \<Rightarrow> string \<Rightarrow> string io_result" where
  "resolve_bundle_path canonicalize bundle path =
     canonicalize (if is_absolute path then path else path_join bundle path)"

definition resolve_state_path :: "string \<Rightarrow> string option \<Rightarrow> string \<Rightarrow> string" where
  "resolve_state_path root configured d =
     (case configured of
        Some p \<Rightarrow> if is_absolute p then p else path_join root p
      | None \<Rightarrow> d)"

definition overlay_paths :: "(string \<Rightarrow> string io_result) \<Rightarrow> string \<Rightarrow> 'v spec \<Rightarrow> overlay io_result" where
  "overlay_paths canonicalize root spec =
     rbind (ok_or (sp_rootfs_backend spec) (IoError Other ''missing rootfs backend'')) (\<lambda>cfg.
     let base = path_join root ''overlay'' in
     rbind (resolve_bundle_path canonicalize (sp_bundle spec) (unwrap_or (rb_lowerdir cfg) (sp_root_path spec))) (\<lambda>lower.
       Ok \<lparr>ov_lowers = [lower],
           ov_upper = resolve_state_path root (rb_upperdir cfg) (path_join base ''upper''),
           ov_work = resolve_state_path root (rb_workdir cfg) (path_join base ''work''),
           ov_merged = resolve_state_path root (rb_merged cfg) (path_join base ''merged'')\<rparr>))"

text \<open>The stack of names \<^verbatim>\<open>absolute_lexical\<close> builds, and whether it is rooted; \<^verbatim>\<open>pop\<close> fails on no name.\<close>

fun lexical_from :: "bool \<times> string list \<Rightarrow> component list \<Rightarrow> (bool \<times> string list) option" where
  "lexical_from out [] = Some out"
| "lexical_from (_, ns) (RootDir # cs) = lexical_from (True, []) cs"
| "lexical_from out (CurDir # cs) = lexical_from out cs"
| "lexical_from (b, ns) (Normal n # cs) = lexical_from (b, ns @ [n]) cs"
| "lexical_from (b, ns) (ParentDir # cs) = (if ns = [] then None else lexical_from (b, butlast ns) cs)"

definition lexical_names :: "string \<Rightarrow> string \<Rightarrow> (bool \<times> string list) option" where
  "lexical_names cwd path =
     lexical_from (False, []) (components (if is_absolute path then path else path_join cwd path))"

definition absolute_lexical :: "string \<Rightarrow> string \<Rightarrow> string io_result" where
  "absolute_lexical cwd path =
     (case lexical_names cwd path of
        None \<Rightarrow> Err Other (''path '' @ path @ '' escapes its root'')
      | Some (rooted, ns) \<Rightarrow> Ok ((if rooted then ''/'' else '''') @ join ''/'' ns))"

section \<open>Checks\<close>

definition reject_overlay_option_chars :: "string \<Rightarrow> unit io_result" where
  "reject_overlay_option_chars path =
     (if CHR '','' \<in> set path \<or> CHR 10 \<in> set path \<or> CHR 0x00 \<in> set path
      then Err Other (''overlay path '' @ path @ '' contains an unsupported character'') else Ok ())"

definition reject_overlay_lowerdir_chars :: "string \<Rightarrow> unit io_result" where
  "reject_overlay_lowerdir_chars path =
     rbind (reject_overlay_option_chars path) (\<lambda>_.
       if CHR '':'' \<in> set path
       then Err Other (''overlay lowerdir '' @ path @ '' contains colon which is unsupported by this mount path'')
       else Ok ())"

definition walk_dir :: "'v fs_env \<Rightarrow> fsys \<Rightarrow> string \<Rightarrow> bool" where
  "walk_dir E s p = (case fe_walk E s p of Some t \<Rightarrow> is_dir t | None \<Rightarrow> False)"

definition check_lowerdir :: "'v fs_env \<Rightarrow> fsys \<Rightarrow> string \<Rightarrow> unit io_result" where
  "check_lowerdir E s p =
     (if \<not> walk_dir E s p then Err Other (''overlay lowerdir '' @ p @ '' is not a directory'')
      else reject_overlay_lowerdir_chars p)"

definition check_under :: "string \<Rightarrow> string \<Rightarrow> string \<times> string \<Rightarrow> unit io_result" where
  "check_under cwd root np =
     rbind (absolute_lexical cwd (snd np)) (\<lambda>p.
       if path_starts_with p root then Ok ()
       else Err Other (''overlay '' @ fst np @ '' must be under rsrun state directory '' @ root))"

text \<open>\<^verbatim>\<open>PathBuf\<close>s are equal when their components are.\<close>

definition same_path :: "string \<Rightarrow> string \<Rightarrow> bool" where
  "same_path a b \<longleftrightarrow> components a = components b"

definition validate_overlay_paths :: "'v fs_env \<Rightarrow> string \<Rightarrow> overlay \<Rightarrow> fsys \<Rightarrow> unit io_result" where
  "validate_overlay_paths E root ov s =
     (if ov_lowers ov = [] then Err Other ''overlay lowerdir chain is empty''
      else
        rbind (rcollect (check_lowerdir E s) (ov_lowers ov)) (\<lambda>_.
        rbind (rcollect reject_overlay_option_chars [ov_upper ov, ov_work ov, ov_merged ov]) (\<lambda>_.
        rbind (absolute_lexical (fe_cwd E) root) (\<lambda>base.
        rbind (rcollect (check_under (fe_cwd E) base)
            [(''upperdir'', ov_upper ov), (''workdir'', ov_work ov), (''merged'', ov_merged ov)]) (\<lambda>_.
          if same_path (ov_upper ov) (ov_work ov) \<or> same_path (ov_upper ov) (ov_merged ov) \<or> same_path (ov_work ov) (ov_merged ov)
          then Err Other ''overlay upperdir, workdir, and merged must be distinct'' else Ok ())))))"

section \<open>Mounting\<close>

definition overlay_data :: "overlay \<Rightarrow> string" where
  "overlay_data ov =
     ''lowerdir='' @ join '':'' (ov_lowers ov) @ '',upperdir='' @ ov_upper ov @ '',workdir='' @ ov_work ov"

definition mount_overlay :: "'v fs_env \<Rightarrow> overlay \<Rightarrow> (fsys, unit) io" where
  "mount_overlay E ov = mount_at E (ov_merged ov) (overlay_data ov)"

text \<open>\<^verbatim>\<open>EINVAL\<close> is 22; \<^verbatim>\<open>ENOENT\<close> is the kind \<open>NotFound\<close>.\<close>

definition unmount_overlay :: "'v fs_env \<Rightarrow> overlay \<Rightarrow> (fsys, unit) io" where
  "unmount_overlay E ov =
     io_bind (io_try (umount2 E (ov_merged ov))) (\<lambda>r.
       case r of
         Inl e \<Rightarrow> if kind_of e = OsError 22 \<or> kind_of e = NotFound then io_ok () else io_of (Inl e)
       | Inr _ \<Rightarrow> io_ok ())"

definition prepare_overlay_rootfs ::
  "'v fs_env \<Rightarrow> (string \<Rightarrow> string io_result) \<Rightarrow> string \<Rightarrow> 'v spec \<Rightarrow> (fsys, overlay option) io" where
  "prepare_overlay_rootfs E canonicalize root spec =
     (case sp_rootfs_backend spec of
        None \<Rightarrow> io_ok None
      | Some cfg \<Rightarrow>
          if rb_backend cfg \<noteq> ''overlayfs''
          then io_of (Err Other (''rootfs backend '' @ rb_backend cfg @ '' is not supported''))
          else
            io_bind (io_of (overlay_paths canonicalize root spec)) (\<lambda>ov.
            io_bind (io_read (validate_overlay_paths E root ov)) (\<lambda>_.
            io_bind (create_dir_all E (ov_upper ov)) (\<lambda>_.
            io_bind (create_dir_all E (ov_work ov)) (\<lambda>_.
            io_bind (create_dir_all E (ov_merged ov)) (\<lambda>_.
            io_bind (mount_overlay E ov) (\<lambda>_. io_ok (Some ov))))))))"

section \<open>overlay.json\<close>

definition overlay_json :: "'v json_api \<Rightarrow> overlay \<Rightarrow> u64 \<Rightarrow> 'v" where
  "overlay_json J ov reset_count = jobj J
     [(''backend'', jstr J ''overlayfs''),
      (''lowerdir'', jopt J (jstr J) (case ov_lowers ov of [] \<Rightarrow> None | l # _ \<Rightarrow> Some l)),
      (''lowerdirs'', jarr J (map (jstr J) (ov_lowers ov))),
      (''upperdir'', jstr J (ov_upper ov)), (''workdir'', jstr J (ov_work ov)), (''merged'', jstr J (ov_merged ov)),
      (''resetCount'', ju64 J reset_count)]"

definition write_overlay_state :: "'v fs_env \<Rightarrow> string \<Rightarrow> overlay \<Rightarrow> u64 \<Rightarrow> (fsys, unit) io" where
  "write_overlay_state E root ov reset_count =
     write_file E (path_join root ''overlay.json'') (jt_print (fe_text E) (overlay_json (fe_json E) ov reset_count))"

definition overlay_field :: "'v json_api \<Rightarrow> 'v \<Rightarrow> string \<Rightarrow> string io_result" where
  "overlay_field J v key = ok_or (get_str J v key) (IoError Other (''overlay metadata missing '' @ key))"

text \<open>A list of paths of a metadata file.\<close>

definition path_list :: "'v json_api \<Rightarrow> string \<Rightarrow> 'v list \<Rightarrow> string list io_result" where
  "path_list J msg vs = rcollect (\<lambda>v. ok_or (jas_str J v) (IoError Other msg)) vs"

definition overlay_from_json :: "'v json_api \<Rightarrow> 'v \<Rightarrow> overlay io_result" where
  "overlay_from_json J v =
     (if get_str J v ''backend'' \<noteq> Some ''overlayfs'' then Err Other ''container is not overlayfs-backed''
      else
        rbind (case get_array J v ''lowerdirs'' of
                 Some vs \<Rightarrow> path_list J ''overlay metadata has invalid lowerdirs'' vs
               | None \<Rightarrow> rbind (overlay_field J v ''lowerdir'') (\<lambda>l. Ok [l])) (\<lambda>lowers.
        rbind (overlay_field J v ''upperdir'') (\<lambda>upper.
        rbind (overlay_field J v ''workdir'') (\<lambda>work.
        rbind (overlay_field J v ''merged'') (\<lambda>merged.
          Ok \<lparr>ov_lowers = lowers, ov_upper = upper, ov_work = work, ov_merged = merged\<rparr>)))))"

definition read_json :: "'v fs_env \<Rightarrow> string \<Rightarrow> fsys \<Rightarrow> 'v io_result" where
  "read_json E p s =
     rbind (read_file E p s) (\<lambda>t. ok_or (jt_parse (fe_text E) t) (IoError InvalidData ''json''))"

definition read_overlay_state :: "'v fs_env \<Rightarrow> string \<Rightarrow> fsys \<Rightarrow> (overlay \<times> u64) io_result" where
  "read_overlay_state E root s =
     rbind (read_json E (path_join root ''overlay.json'') s) (\<lambda>v.
     rbind (overlay_from_json (fe_json E) v) (\<lambda>ov.
     rbind (validate_overlay_paths E root ov s) (\<lambda>_.
       Ok (ov, unwrap_or (get_u64 (fe_json E) v ''resetCount'') 0))))"

definition cleanup_overlay_rootfs :: "'v fs_env \<Rightarrow> string \<Rightarrow> (fsys, unit) io" where
  "cleanup_overlay_rootfs E root =
     (\<lambda>s. case read_overlay_state E root s of
        Inl _ \<Rightarrow> (s, Ok ())
      | Inr (ov, _) \<Rightarrow> unmount_overlay E ov s)"

section \<open>Lexical paths\<close>

definition plain_name :: "string \<Rightarrow> bool" where
  "plain_name n \<longleftrightarrow> n \<noteq> [] \<and> n \<noteq> ''.'' \<and> n \<noteq> ''..'' \<and> CHR ''/'' \<notin> set n"

lemma components_plain: "Normal n \<in> set (components p) \<Longrightarrow> plain_name n"
  by (auto simp: components_def comp_of_def set_filter_map plain_name_def dest: split_on_pieces split: if_splits)

lemma lexical_from_plain:
  "lexical_from out cs = Some (b, ns) \<Longrightarrow> \<forall>n. Normal n \<in> set cs \<longrightarrow> plain_name n \<Longrightarrow> \<forall>n \<in> set (snd out). plain_name n \<Longrightarrow>
   \<forall>n \<in> set ns. plain_name n"
  by (induction out cs rule: lexical_from.induct) (auto dest: in_set_butlastD split: if_splits)

lemma lexical_from_rooted: "lexical_from out cs = Some r \<Longrightarrow> fst out \<Longrightarrow> fst r"
  by (induction out cs rule: lexical_from.induct) (auto split: if_splits)

lemma components_absolute: "is_absolute p \<Longrightarrow> \<exists>cs. components p = RootDir # cs"
  by (simp add: components_def)

lemma is_absolute_join: "is_absolute a \<Longrightarrow> is_absolute (path_join a b)"
  by (cases a) (auto simp: path_join_def is_absolute_def)

lemma lexical_names_Some:
  assumes "is_absolute cwd" "lexical_names cwd p = Some (b, ns)"
  shows "b" "\<forall>n \<in> set ns. plain_name n"
proof -
  let ?p = "if is_absolute p then p else path_join cwd p"
  have "is_absolute ?p" using assms(1) by (simp add: is_absolute_join)
  then obtain cs where cs: "components ?p = RootDir # cs" using components_absolute by blast
  then have from_root: "lexical_from (True, []) cs = Some (b, ns)" using assms(2) by (simp add: lexical_names_def)
  from lexical_from_rooted [OF this] show "b" by simp
  from cs have "\<forall>n. Normal n \<in> set cs \<longrightarrow> plain_name n" using components_plain [of _ ?p] by simp
  from lexical_from_plain [OF from_root this] show "\<forall>n \<in> set ns. plain_name n" by simp
qed

lemma components_rooted:
  assumes "\<forall>n \<in> set ns. plain_name n"
  shows "components (''/'' @ join ''/'' ns) = RootDir # map Normal ns"
proof -
  have pieces: "filter_map comp_of ns = map Normal ns"
    using assms by (induction ns) (auto simp: comp_of_def plain_name_def)
  have "split_on CHR ''/'' (join ''/'' ns) = (if ns = [] then [''''] else ns)"
    using assms split_join [of ns "CHR ''/''"] by (auto simp: plain_name_def)
  then show ?thesis by (simp add: components_def is_absolute_def pieces comp_of_def)
qed

lemma absolute_lexical_Ok:
  assumes "is_absolute cwd" "absolute_lexical cwd p = Ok q"
  obtains ns where "lexical_names cwd p = Some (True, ns)" "components q = RootDir # map Normal ns"
proof -
  from assms(2) obtain b ns where ns: "lexical_names cwd p = Some (b, ns)" "q = (if b then ''/'' else '''') @ join ''/'' ns"
    by (auto simp: absolute_lexical_def split: option.splits)
  from lexical_names_Some [OF assms(1) ns(1)] ns components_rooted [of ns] that show thesis by simp
qed

lemma check_under_Ok:
  assumes "is_absolute cwd" "check_under cwd base (name, p) = Ok ()" "components base = RootDir # map Normal R"
  shows "\<exists>u. lexical_names cwd p = Some (True, R @ u)"
proof -
  from assms(2) obtain q where q: "absolute_lexical cwd p = Ok q" "path_starts_with q base"
    by (auto simp: check_under_def split: if_splits)
  from absolute_lexical_Ok [OF assms(1) q(1)] obtain ns
    where ns: "lexical_names cwd p = Some (True, ns)" "components q = RootDir # map Normal ns" .
  from q(2) ns(2) assms(3) obtain r where "map Normal ns = map Normal R @ r" by (auto simp: path_starts_with_iff)
  then have "R = take (length R) ns"
    by (metis append_eq_conv_conj component.inject inj_map_eq_map inj_def length_map take_map)
  with ns(1) show ?thesis by (metis append_take_drop_id)
qed

section \<open>What the checks guarantee\<close>

lemma rcollect_unit: "rcollect f xs = Inr ys \<Longrightarrow> x \<in> set xs \<Longrightarrow> f x = Inr ()"
  by (induction xs arbitrary: ys) auto

lemma validate_cases:
  assumes "validate_overlay_paths E root ov s = Ok ()"
  obtains base where "ov_lowers ov \<noteq> []" "\<forall>l \<in> set (ov_lowers ov). check_lowerdir E s l = Ok ()"
    "\<forall>p \<in> {ov_upper ov, ov_work ov, ov_merged ov}. reject_overlay_option_chars p = Ok ()"
    "absolute_lexical (fe_cwd E) root = Ok base"
    "check_under (fe_cwd E) base (''upperdir'', ov_upper ov) = Ok ()"
    "check_under (fe_cwd E) base (''workdir'', ov_work ov) = Ok ()"
    "check_under (fe_cwd E) base (''merged'', ov_merged ov) = Ok ()"
    "\<not> same_path (ov_upper ov) (ov_work ov)" "\<not> same_path (ov_upper ov) (ov_merged ov)" "\<not> same_path (ov_work ov) (ov_merged ov)"
proof -
  from assms obtain us base vs where u: "rcollect (check_lowerdir E s) (ov_lowers ov) = Ok us"
    and h: "ov_lowers ov \<noteq> []" "rcollect reject_overlay_option_chars [ov_upper ov, ov_work ov, ov_merged ov] = Ok vs"
      "absolute_lexical (fe_cwd E) root = Ok base"
      "check_under (fe_cwd E) base (''upperdir'', ov_upper ov) = Ok ()"
      "check_under (fe_cwd E) base (''workdir'', ov_work ov) = Ok ()"
      "check_under (fe_cwd E) base (''merged'', ov_merged ov) = Ok ()"
      "\<not> same_path (ov_upper ov) (ov_work ov)" "\<not> same_path (ov_upper ov) (ov_merged ov)" "\<not> same_path (ov_work ov) (ov_merged ov)"
    by (auto simp: validate_overlay_paths_def split: if_splits)
  from that [OF h(1) _ _ h(3-)] rcollect_unit [OF u] rcollect_unit [OF h(2)] show thesis by simp
qed

text \<open>
  When the paths of an overlay pass the checks, the upper, work and merged directory lie, after resolving dots
  from the working directory, at or below the state directory of the container, and no two are the same path.
\<close>

theorem validated_overlay_confined:
  assumes "is_absolute (fe_cwd E)" "validate_overlay_paths E root ov s = Ok ()"
  shows "\<exists>R u w m. lexical_names (fe_cwd E) root = Some (True, R) \<and>
    lexical_names (fe_cwd E) (ov_upper ov) = Some (True, R @ u) \<and>
    lexical_names (fe_cwd E) (ov_work ov) = Some (True, R @ w) \<and>
    lexical_names (fe_cwd E) (ov_merged ov) = Some (True, R @ m) \<and>
    components (ov_upper ov) \<noteq> components (ov_work ov) \<and> components (ov_upper ov) \<noteq> components (ov_merged ov) \<and>
    components (ov_work ov) \<noteq> components (ov_merged ov)"
proof -
  obtain base where v: "absolute_lexical (fe_cwd E) root = Ok base"
    "check_under (fe_cwd E) base (''upperdir'', ov_upper ov) = Ok ()"
    "check_under (fe_cwd E) base (''workdir'', ov_work ov) = Ok ()"
    "check_under (fe_cwd E) base (''merged'', ov_merged ov) = Ok ()"
    "\<not> same_path (ov_upper ov) (ov_work ov)" "\<not> same_path (ov_upper ov) (ov_merged ov)" "\<not> same_path (ov_work ov) (ov_merged ov)"
    by (rule validate_cases [OF assms(2)])
  from absolute_lexical_Ok [OF assms(1) v(1)] obtain R
    where R: "lexical_names (fe_cwd E) root = Some (True, R)" "components base = RootDir # map Normal R" .
  note under = check_under_Ok [OF assms(1) _ R(2)]
  from under [OF v(2)] under [OF v(3)] under [OF v(4)] v(5-) show ?thesis unfolding R(1) same_path_def by blast
qed

text \<open>
  The mount options of a validated overlay mean what they say: split at the commas they are the lower, upper
  and work directory, and split at the colons the lower part is the chain of lower directories.
\<close>

theorem mount_options_unambiguous:
  assumes "validate_overlay_paths E root ov s = Ok ()"
  shows "split_on CHR '','' (overlay_data ov) =
      [''lowerdir='' @ join '':'' (ov_lowers ov), ''upperdir='' @ ov_upper ov, ''workdir='' @ ov_work ov] \<and>
    split_on CHR '':'' (join '':'' (ov_lowers ov)) = ov_lowers ov"
proof -
  have ne: "ov_lowers ov \<noteq> []" and low: "\<forall>l \<in> set (ov_lowers ov). check_lowerdir E s l = Ok ()"
    and opt: "\<forall>p \<in> {ov_upper ov, ov_work ov, ov_merged ov}. reject_overlay_option_chars p = Ok ()"
    by (rule validate_cases [OF assms]; assumption)+
  have no_sep: "CHR '','' \<notin> set l \<and> CHR '':'' \<notin> set l" if "l \<in> set (ov_lowers ov)" for l
    using low that by (fastforce simp: check_lowerdir_def reject_overlay_lowerdir_chars_def reject_overlay_option_chars_def
        split: if_splits)
  have "set (join '':'' ls) \<subseteq> insert CHR '':'' (\<Union> (set ` set ls))" for ls by (induction "'':''" ls rule: join.induct) auto
  with no_sep have low_comma: "CHR '','' \<notin> set (join '':'' (ov_lowers ov))" by fastforce
  have comma: "CHR '','' \<notin> set (ov_upper ov)" "CHR '','' \<notin> set (ov_work ov)"
    using opt by (auto simp: reject_overlay_option_chars_def split: if_splits)
  have "overlay_data ov = (''lowerdir='' @ join '':'' (ov_lowers ov)) @ CHR '','' # (''upperdir='' @ ov_upper ov) @ CHR '','' # (''workdir='' @ ov_work ov)"
    by (simp add: overlay_data_def)
  then have "split_on CHR '','' (overlay_data ov) =
      [''lowerdir='' @ join '':'' (ov_lowers ov), ''upperdir='' @ ov_upper ov, ''workdir='' @ ov_work ov]"
    using low_comma comma by (simp only: split_on_append_sep) (simp add: split_on_no_sep)
  with no_sep ne show ?thesis by (simp add: split_join)
qed

section \<open>The written state is read back\<close>

context json_file
begin

lemma overlay_json_back:
  "overlay_from_json J (overlay_json J ov n) = Ok ov" "get_u64 J (overlay_json J ov n) ''resetCount'' = Some n"
proof -
  show "get_u64 J (overlay_json J ov n) ''resetCount'' = Some n"
    by (simp add: overlay_json_def get_u64_def json_laws)
  have list: "path_list J msg (map (jstr J) ls) = Ok ls" for msg ls
    unfolding path_list_def by (induction ls) (simp_all add: as_str_str)
  show "overlay_from_json J (overlay_json J ov n) = Ok ov"
    by (simp add: overlay_from_json_def overlay_json_def overlay_field_def get_str_def get_array_def json_laws list)
qed

end

lemma write_file_reads:
  assumes "write_file E p text s = (s', Inr ())"
  shows "read_file E p s' = Ok text"
proof -
  from assms obtain f t' where "written E text (lookup (fs_tree s) (names E p)) = Ok f"
    "put_node (names E p) f (fs_tree s) = Ok t'" "s' = s\<lparr>fs_tree := t'\<rparr>"
    by (auto simp: write_Inr put_text_def edit_def split: sum.splits option.splits prod.splits)
  then show ?thesis
    by (auto simp: read_file_def find_node_def put_node_at written_def file_text_def split: option.splits tree.splits)
qed

text \<open>
  The overlay and reset count written to a container directory are read back unchanged as long as the paths
  still pass the checks, for every JSON library that reads back what it writes.
\<close>

theorem overlay_state_roundtrip:
  assumes "json_file (fe_json E) (fe_text E)"
    and "write_overlay_state E root ov n s = (s', Inr ())" "validate_overlay_paths E root ov s' = Ok ()"
  shows "read_overlay_state E root s' = Ok (ov, n)"
  using write_file_reads [OF assms(2) [unfolded write_overlay_state_def]] assms(3)
  by (simp add: read_overlay_state_def read_json_def json_file.parse_print [OF assms(1)]
      json_file.overlay_json_back [OF assms(1)])

section \<open>Where the checks stop short\<close>

text \<open>A state directory with one container, and a lower directory.\<close>

definition sample_fs :: fsys where
  "sample_fs = \<lparr>fs_tree = Dir (plain_meta 0x1ED)
       [(''b'', Dir (plain_meta 0x1ED) []), (''s'', Dir (plain_meta 0x1C0) [(''c'', Dir (plain_meta 0x1ED) [])])],
     fs_store = \<lparr>st_layers = \<lambda>_. None, st_links = \<lambda>_. None\<rparr>, fs_mounts = []\<rparr>"

definition sample_env :: "jval fs_env" where
  "sample_env = \<lparr>fe_json = jv, fe_text = codec, fe_host = linux_host, fe_umask = 0x12, fe_cwd = ''/'', fe_root = ''/s'',
     fe_max_bytes = None, fe_max_entries = None, fe_alive = \<lambda>_ _. False, fe_fails = \<lambda>_. None,
     fe_debris = \<lambda>t. t, fe_torn = \<lambda>_. None, fe_remains = \<lambda>t. t, fe_walk = \<lambda>s p. lookup (fs_tree s) (path_names p)\<rparr>"

definition overlay_at :: "string \<Rightarrow> string \<Rightarrow> string \<Rightarrow> overlay" where
  "overlay_at u w m = \<lparr>ov_lowers = [''/b''], ov_upper = u, ov_work = w, ov_merged = m\<rparr>"

lemmas path_eval = components_def is_absolute_def comp_of_def path_names_def path_starts_with_def lexical_names_def
  absolute_lexical_def

lemmas validate_eval = validate_overlay_paths_def check_lowerdir_def walk_dir_def reject_overlay_lowerdir_chars_def
  reject_overlay_option_chars_def check_under_def same_path_def overlay_at_def sample_env_def sample_fs_def

lemma sample_validates:
  "validate_overlay_paths sample_env ''/s/c'' (overlay_at ''/s/c/u'' ''/s/c/w'' ''/s/c/m'') sample_fs = Ok ()"
  by (simp add: validate_eval path_eval)

text \<open>
  The check that the three directories differ compares the paths as they are written, not as they resolve: an
  upper and a work directory that are the same directory after resolving a parent step pass it.
\<close>

theorem distinct_check_is_textual:
  "validate_overlay_paths sample_env ''/s/c'' (overlay_at ''/s/c/a'' ''/s/c/w/../a'' ''/s/c/m'') sample_fs = Ok () \<and>
   absolute_lexical ''/'' ''/s/c/a'' = absolute_lexical ''/'' ''/s/c/w/../a''"
  by (simp add: validate_eval path_eval)

text \<open>
  The state directory itself passes as upper directory, the directory that holds the state files and that a
  reset empties.
\<close>

theorem state_dir_accepted_as_upperdir:
  "validate_overlay_paths sample_env ''/s/c'' (overlay_at ''/s/c'' ''/s/c/w'' ''/s/c/m'') sample_fs = Ok ()"
  by (simp add: validate_eval path_eval)

text \<open>
  Cleaning up the overlay of a container whose lower directory is gone reports success and leaves the overlay
  mounted: the unmount is behind the checks of reading the state.
\<close>

theorem cleanup_skips_without_lowerdir:
  assumes "read_json E (path_join root ''overlay.json'') s = Ok v" "overlay_from_json (fe_json E) v = Ok ov"
    and "l \<in> set (ov_lowers ov)" "\<not> walk_dir E s l"
  shows "cleanup_overlay_rootfs E root s = (s, Ok ())"
proof -
  have "validate_overlay_paths E root ov s \<noteq> Ok ()"
  proof
    assume "validate_overlay_paths E root ov s = Ok ()"
    then have "\<forall>l \<in> set (ov_lowers ov). check_lowerdir E s l = Ok ()" by (rule validate_cases)
    with assms(3,4) show False by (auto simp: check_lowerdir_def)
  qed
  then obtain e where "validate_overlay_paths E root ov s = Inl e"
    by (cases "validate_overlay_paths E root ov s") simp_all
  then show ?thesis by (simp add: cleanup_overlay_rootfs_def read_overlay_state_def assms(1,2))
qed

section \<open>A container with an overlay\<close>

definition sample_with :: "overlay \<Rightarrow> u64 \<Rightarrow> fsys" where
  "sample_with ov n = fst (write_overlay_state sample_env ''/s/c'' ov n sample_fs)"

lemma sample_calls_ok [simp]: "fe_fails sample_env c = None"
  by (simp add: sample_env_def)

lemma names_overlay_json: "names sample_env ''/s/c/overlay.json'' = [''s'', ''c'', ''overlay.json'']"
  by (simp add: names_def path_join_def sample_env_def path_eval)

lemma sample_write: "write_overlay_state sample_env ''/s/c'' ov n sample_fs = (sample_with ov n, Inr ())"
proof -
  have "path_join ''/s/c'' ''overlay.json'' = ''/s/c/overlay.json''" by (simp add: path_join_def is_absolute_def)
  then have "snd (write_overlay_state sample_env ''/s/c'' ov n sample_fs) = Inr ()"
    by (simp add: write_overlay_state_def write_file_def put_text_def names_overlay_json edit_def written_def)
      (simp add: sample_env_def sample_fs_def)
  then show ?thesis by (simp add: sample_with_def prod_eq_iff)
qed

lemma sample_json_file: "json_file (fe_json sample_env) (fe_text sample_env)"
  by (simp add: sample_env_def codec.json_file_axioms)

lemma sample_below: "only_below [''s'', ''c''] (fs_tree sample_fs) (fs_tree (sample_with ov n))"
proof -
  have j: "path_join ''/s/c'' ''overlay.json'' = ''/s/c/overlay.json''" by (simp add: path_join_def is_absolute_def)
  have "keeps (inside [''s'', ''c''] sample_fs) (write_overlay_state sample_env ''/s/c'' ov n)"
    unfolding write_overlay_state_def j by (rule inside_write [OF names_overlay_json [THEN trans]]) simp
  moreover have "inside [''s'', ''c''] sample_fs sample_fs"
    by (rule inside_refl) (simp add: has_dir_def sample_fs_def)
  ultimately have "inside [''s'', ''c''] sample_fs (sample_with ov n)" using sample_write by (rule triple_Inr)
  then show ?thesis by (simp add: inside_def)
qed

lemma sample_walk: "fe_walk sample_env (sample_with ov n) ''/b'' = fe_walk sample_env sample_fs ''/b''"
  using only_below_disjoint [OF sample_below, of "[''b'']"] by (simp add: sample_env_def path_eval)

lemma sample_read:
  "read_json sample_env ''/s/c/overlay.json'' (sample_with ov n) = Ok (overlay_json jv ov n)"
proof -
  have j: "path_join ''/s/c'' ''overlay.json'' = ''/s/c/overlay.json''" by (simp add: path_join_def is_absolute_def)
  from write_file_reads [OF sample_write [unfolded write_overlay_state_def j]]
  show ?thesis using json_file.parse_print [OF sample_json_file] by (simp add: read_json_def) (simp add: sample_env_def)
qed

lemma validate_cong_walk:
  "(\<And>l. l \<in> set (ov_lowers ov) \<Longrightarrow> fe_walk E s l = fe_walk E s' l) \<Longrightarrow>
   validate_overlay_paths E root ov s = validate_overlay_paths E root ov s'"
proof -
  assume "\<And>l. l \<in> set (ov_lowers ov) \<Longrightarrow> fe_walk E s l = fe_walk E s' l"
  then have "rcollect (check_lowerdir E s) (ov_lowers ov) = rcollect (check_lowerdir E s') (ov_lowers ov)"
    by (intro rcollect_cong) (simp_all add: check_lowerdir_def walk_dir_def)
  then show ?thesis by (simp add: validate_overlay_paths_def)
qed

lemma sample_with_validates:
  "validate_overlay_paths sample_env ''/s/c'' (overlay_at ''/s/c/u'' ''/s/c/w'' ''/s/c/m'') (sample_with ov n) = Ok ()"
  using sample_validates validate_cong_walk [of "overlay_at ''/s/c/u'' ''/s/c/w'' ''/s/c/m''" sample_env sample_fs "sample_with ov n" "''/s/c''"]
  by (simp add: overlay_at_def sample_walk)

theorem validated_overlay_confined_witness:
  "\<exists>R u w m. lexical_names ''/'' ''/s/c'' = Some (True, R) \<and>
    lexical_names ''/'' ''/s/c/u'' = Some (True, R @ u) \<and> lexical_names ''/'' ''/s/c/w'' = Some (True, R @ w) \<and>
    lexical_names ''/'' ''/s/c/m'' = Some (True, R @ m) \<and>
    components ''/s/c/u'' \<noteq> components ''/s/c/w'' \<and> components ''/s/c/u'' \<noteq> components ''/s/c/m'' \<and>
    components ''/s/c/w'' \<noteq> components ''/s/c/m''"
  using validated_overlay_confined [OF _ sample_validates] by (simp add: sample_env_def overlay_at_def is_absolute_def)

theorem mount_options_unambiguous_witness:
  "split_on CHR '','' ''lowerdir=/b,upperdir=/s/c/u,workdir=/s/c/w'' =
     [''lowerdir=/b'', ''upperdir=/s/c/u'', ''workdir=/s/c/w'']"
  using mount_options_unambiguous [OF sample_validates] by (simp add: overlay_data_def overlay_at_def)

theorem overlay_state_roundtrip_witness:
  "read_overlay_state sample_env ''/s/c'' (sample_with (overlay_at ''/s/c/u'' ''/s/c/w'' ''/s/c/m'') 3) =
   Ok (overlay_at ''/s/c/u'' ''/s/c/w'' ''/s/c/m'', 3)"
  by (rule overlay_state_roundtrip [OF sample_json_file sample_write sample_with_validates])

theorem cleanup_skips_without_lowerdir_witness:
  "cleanup_overlay_rootfs sample_env ''/s/c''
     (sample_with \<lparr>ov_lowers = [''/gone''], ov_upper = ''/s/c/u'', ov_work = ''/s/c/w'', ov_merged = ''/s/c/m''\<rparr> 0) =
   (sample_with \<lparr>ov_lowers = [''/gone''], ov_upper = ''/s/c/u'', ov_work = ''/s/c/w'', ov_merged = ''/s/c/m''\<rparr> 0, Ok ())"
proof (rule cleanup_skips_without_lowerdir)
  let ?ov = "\<lparr>ov_lowers = [''/gone''], ov_upper = ''/s/c/u'', ov_work = ''/s/c/w'', ov_merged = ''/s/c/m''\<rparr>"
  show "read_json sample_env (path_join ''/s/c'' ''overlay.json'') (sample_with ?ov 0) = Ok (overlay_json jv ?ov 0)"
    using sample_read by (simp add: path_join_def is_absolute_def)
  show "overlay_from_json (fe_json sample_env) (overlay_json jv ?ov 0) = Ok ?ov"
    using json_file.overlay_json_back(1) [OF sample_json_file, of ?ov 0] by (simp add: sample_env_def)
  show "''/gone'' \<in> set (ov_lowers ?ov)" by simp
  from only_below_disjoint [OF sample_below, of "[''gone'']"] show "\<not> walk_dir sample_env (sample_with ?ov 0) ''/gone''"
    by (simp add: walk_dir_def sample_env_def path_eval sample_fs_def)
qed

end
