(* ===== verification/Effects.thy ===== *)
theory Effects
  imports Overlay_Diff
begin

text \<open>
  Markers and effects of \<^verbatim>\<open>rollout.rs\<close>: what a marker keeps of a diff, its JSON form, and the
  comparison of a marker with the current diff.
\<close>

section \<open>Entries\<close>

record mark_entry =
  mk_path :: string
  mk_kind :: string
  mk_sensitive :: bool
  mk_size :: "u64 option"
  mk_fingerprint :: string

record effect_entry =
  ef_path :: string
  ef_before :: "string option"
  ef_after :: "string option"
  ef_sensitive :: bool
  ef_bytes_written :: u64

definition marker_entry :: "diff_entry \<Rightarrow> mark_entry" where
  "marker_entry e =
     \<lparr>mk_path = de_path e, mk_kind = kind_str (de_kind e), mk_sensitive = de_sensitive e,
      mk_size = map_option of_nat (de_size e), mk_fingerprint = de_fingerprint e\<rparr>"

definition marker_entries_from_diff :: "diff_entry list \<Rightarrow> mark_entry list" where
  "marker_entries_from_diff es = map marker_entry es"

section \<open>The marker file\<close>

definition mark_entry_json :: "'v json_api \<Rightarrow> mark_entry \<Rightarrow> 'v" where
  "mark_entry_json J e = jobj J
     [(''path'', jstr J (mk_path e)), (''kind'', jstr J (mk_kind e)), (''sensitive'', jbool J (mk_sensitive e)),
      (''size'', jopt J (ju64 J) (mk_size e)), (''fingerprint'', jstr J (mk_fingerprint e))]"

definition marker_json :: "'v json_api \<Rightarrow> string \<Rightarrow> string \<Rightarrow> u64 \<Rightarrow> diff_entry list \<Rightarrow> 'v" where
  "marker_json J cid name reset_count es = jobj J
     [(''version'', ju64 J 1), (''id'', jstr J cid), (''name'', jstr J name), (''backend'', jstr J ''overlayfs''),
      (''resetCount'', ju64 J reset_count),
      (''files'', jarr J (map (mark_entry_json J) (marker_entries_from_diff es)))]"

definition marker_field :: "'v json_api \<Rightarrow> 'v \<Rightarrow> string \<Rightarrow> string io_result" where
  "marker_field J file name = ok_or (get_str J file name) (IoError Other (''marker file missing '' @ name))"

definition mark_entry_from_json :: "'v json_api \<Rightarrow> 'v \<Rightarrow> mark_entry io_result" where
  "mark_entry_from_json J file =
     rbind (marker_field J file ''path'') (\<lambda>p.
     rbind (marker_field J file ''kind'') (\<lambda>k.
     rbind (marker_field J file ''fingerprint'') (\<lambda>f.
       Ok \<lparr>mk_path = p, mk_kind = k, mk_sensitive = unwrap_or (get_bool J file ''sensitive'') False,
           mk_size = get_u64 J file ''size'', mk_fingerprint = f\<rparr>)))"

definition marker_entries_from_json :: "'v json_api \<Rightarrow> 'v \<Rightarrow> mark_entry list io_result" where
  "marker_entries_from_json J v =
     rbind (ok_or (get_array J v ''files'') (IoError Other ''marker metadata missing files''))
       (rcollect (mark_entry_from_json J))"

text \<open>\<^verbatim>\<open>read_marker\<close> on the parsed file.\<close>

definition read_marker :: "'v json_api \<Rightarrow> 'v io_result \<Rightarrow> 'v io_result" where
  "read_marker J file =
     rbind file (\<lambda>v. if get_str J v ''backend'' \<noteq> Some ''overlayfs'' then Err Other ''marker is not overlayfs-backed'' else Ok v)"

section \<open>Comparing\<close>

definition marker_key :: "mark_entry \<Rightarrow> string" where
  "marker_key e = mk_path e @ [CHR 0x00] @ mk_kind e"

definition marker_entry_map :: "mark_entry list \<Rightarrow> (string \<times> mark_entry) list" where
  "marker_entry_map es = bt.ins_all (map (\<lambda>e. (marker_key e, e)) es) []"

definition effect_of :: "mark_entry option \<Rightarrow> mark_entry option \<Rightarrow> string \<Rightarrow> effect_entry" where
  "effect_of before after key =
     \<lparr>ef_path = (case after of Some e \<Rightarrow> mk_path e | None \<Rightarrow> (case before of Some e \<Rightarrow> mk_path e | None \<Rightarrow> key)),
      ef_before = map_option mk_kind before, ef_after = map_option mk_kind after,
      ef_sensitive = (unwrap_or (map_option mk_sensitive before) False \<or> unwrap_or (map_option mk_sensitive after) False),
      ef_bytes_written = unwrap_or (and_then after mk_size) 0\<rparr>"

text \<open>The order of \<^verbatim>\<open>Option<String>\<close>: \<^verbatim>\<open>None\<close> first.\<close>

definition option_key :: "string option \<Rightarrow> bool \<times> string" where
  "option_key x = (case x of None \<Rightarrow> (False, []) | Some s \<Rightarrow> (True, s))"

definition effects_since :: "mark_entry list \<Rightarrow> mark_entry list \<Rightarrow> effect_entry list" where
  "effects_since marked current =
     (let mm = marker_entry_map marked; cm = marker_entry_map current;
          keys = map fst (bt.ins_all (map (\<lambda>k. (k, ())) (map fst mm @ map fst cm)) [])
      in sort_key (\<lambda>e. (ef_path e, option_key (ef_after e)))
           (filter_map (\<lambda>k.
              let before = map_of mm k; after = map_of cm k
              in if map_option mk_fingerprint before = map_option mk_fingerprint after then None
                 else Some (effect_of before after k)) keys))"

text \<open>\<^verbatim>\<open>dedup\<close> of a sorted vector.\<close>

fun dedup :: "string list \<Rightarrow> string list" where
  "dedup (x # y # zs) = (if x = y then dedup (y # zs) else x # dedup (y # zs))"
| "dedup xs = xs"

text \<open>
  \<^verbatim>\<open>sum::<u64>\<close>: release builds wrap around.
\<close>

definition effects_json :: "'v json_api \<Rightarrow> string \<Rightarrow> string \<Rightarrow> effect_entry list \<Rightarrow> 'v" where
  "effects_json J cid since es = jobj J
     [(''id'', jstr J cid), (''backend'', jstr J ''overlayfs''), (''since'', jstr J since),
      (''persistent_fs_change'', jbool J (es \<noteq> [])),
      (''changed_files'', jarr J (map (jstr J) (dedup (sort (map ef_path es))))),
      (''files'', jarr J (map (\<lambda>e. jobj J
         [(''path'', jstr J (ef_path e)), (''before'', jopt J (jstr J) (ef_before e)), (''after'', jopt J (jstr J) (ef_after e)),
          (''sensitive'', jbool J (ef_sensitive e)), (''bytes_written'', ju64 J (ef_bytes_written e))]) es)),
      (''sensitive_path_touched'', jbool J (\<exists>e \<in> set es. ef_sensitive e)),
      (''processes_spawned'', jnull J), (''network_used'', jnull J),
      (''bytes_written'', ju64 J (sum_list (map ef_bytes_written es)))]"

text \<open>
  \<^verbatim>\<open>cmd_mark\<close> and \<^verbatim>\<open>cmd_effects\<close>, from the parsed marker, the diff and the reset count of the container.
\<close>

definition validate_state_name :: "string \<Rightarrow> string \<Rightarrow> unit io_result" where
  "validate_state_name name label =
     (if name = [] \<or> name = ''.'' \<or> name = ''..'' \<or> CHR ''/'' \<in> set name \<or> CHR 0x00 \<in> set name
      then Err Other (''invalid '' @ label @ '': '' @ name) else Ok ())"

definition cmd_mark ::
  "'v json_api \<Rightarrow> string \<Rightarrow> string \<Rightarrow> ('o \<times> u64) io_result \<Rightarrow> ('o \<Rightarrow> diff_entry list io_result) \<Rightarrow> 'v io_result" where
  "cmd_mark J cid name overlay_state scan =
     rbind (validate_state_name name ''marker name'') (\<lambda>_.
     rbind overlay_state (\<lambda>(overlay, reset_count).
     rbind (scan overlay) (\<lambda>es. Ok (marker_json J cid name reset_count es))))"

definition cmd_effects ::
  "'v json_api \<Rightarrow> string \<Rightarrow> string \<Rightarrow> ('o \<times> u64) io_result \<Rightarrow> 'v io_result \<Rightarrow> ('o \<Rightarrow> diff_entry list io_result) \<Rightarrow>
    (effect_entry list \<times> 'v) io_result" where
  "cmd_effects J cid since overlay_state marker_file scan =
     rbind (validate_state_name since ''marker name'') (\<lambda>_.
     rbind overlay_state (\<lambda>(overlay, reset_count).
     rbind (read_marker J marker_file) (\<lambda>marker.
     rbind (ok_or (get_u64 J marker ''resetCount'') (IoError Other ''marker metadata missing resetCount'')) (\<lambda>marked_at.
     if marked_at \<noteq> reset_count then
       Err Other (''marker '' @ since @ '' was created before reset count '' @ dec_u64 reset_count @ ''; create a new marker'')
     else
       rbind (marker_entries_from_json J marker) (\<lambda>marked.
       rbind (scan overlay) (\<lambda>es.
         let effects = effects_since marked (marker_entries_from_diff es)
         in Ok (effects, effects_json J cid since effects)))))))"

section \<open>The comparison is exact\<close>

text \<open>The last entry of the list for a path and a kind; the map keeps it under the joined key.\<close>

definition entry_at :: "mark_entry list \<Rightarrow> string \<Rightarrow> string \<Rightarrow> mark_entry option" where
  "entry_at es path kind = find (\<lambda>e. mk_path e = path \<and> mk_kind e = kind) (rev es)"

definition plain_paths :: "mark_entry list \<Rightarrow> bool" where
  "plain_paths es \<longleftrightarrow> (\<forall>e \<in> set es. CHR 0x00 \<notin> set (mk_path e))"

text \<open>A change: the old and the new entry of one path and kind, and what is reported of them.\<close>

definition reports :: "effect_entry \<Rightarrow> mark_entry option \<Rightarrow> mark_entry option \<Rightarrow> bool" where
  "reports e old new \<longleftrightarrow>
     ef_before e = map_option mk_kind old \<and> ef_after e = map_option mk_kind new \<and>
     (\<forall>x. new = Some x \<longrightarrow> ef_path e = mk_path x \<and> ef_bytes_written e = (case mk_size x of Some n \<Rightarrow> n | None \<Rightarrow> 0)) \<and>
     (new = None \<longrightarrow> ef_bytes_written e = 0 \<and> (\<forall>x. old = Some x \<longrightarrow> ef_path e = mk_path x)) \<and>
     (ef_sensitive e \<longleftrightarrow> (\<exists>x. old = Some x \<and> mk_sensitive x) \<or> (\<exists>x. new = Some x \<and> mk_sensitive x))"

lemma reports_effect:
  assumes "old \<noteq> None \<or> new \<noteq> None"
  shows "reports e old new \<longleftrightarrow> e = effect_of old new k"
proof
  assume "reports e old new"
  with assms show "e = effect_of old new k"
    by (intro effect_entry.equality; cases old; cases new) (auto simp: reports_def effect_of_def split: option.splits)
next
  assume "e = effect_of old new k"
  with assms show "reports e old new"
    by (cases old; cases new) (auto simp: reports_def effect_of_def split: option.splits)
qed

lemma find_map_of: "find (\<lambda>e. f e = k) es = map_of (map (\<lambda>e. (f e, e)) es) k"
  by (induction es) auto

lemma marker_entry_map_lookup: "map_of (marker_entry_map es) k = find (\<lambda>e. marker_key e = k) (rev es)"
  by (simp add: marker_entry_map_def bt.collect_lookup find_map_of rev_map)

lemma joined_key: "CHR 0x00 \<notin> set p \<Longrightarrow> CHR 0x00 \<notin> set q \<Longrightarrow> p @ CHR 0x00 # k = q @ CHR 0x00 # l \<longleftrightarrow> p = q \<and> k = l"
proof (induction p arbitrary: q)
  case Nil
  then show ?case by (cases q) auto
next
  case (Cons c p)
  then show ?case by (cases q) auto
qed

lemma entry_at_joined:
  assumes "plain_paths es" "CHR 0x00 \<notin> set p"
  shows "map_of (marker_entry_map es) (p @ CHR 0x00 # k) = entry_at es p k"
  unfolding marker_entry_map_lookup entry_at_def
  by (rule find_cong) (use assms in \<open>auto simp: plain_paths_def marker_key_def joined_key\<close>)

lemma marker_map_key:
  assumes "plain_paths es" "map_of (marker_entry_map es) key = Some e"
  shows "CHR 0x00 \<notin> set (mk_path e) \<and> key = mk_path e @ CHR 0x00 # mk_kind e"
  using assms unfolding marker_entry_map_lookup
  by (auto simp: find_Some_iff plain_paths_def marker_key_def) (metis nth_mem rev_rev_ident length_rev set_rev)

lemma ordered_set_keys:
  "set (map fst (bt.ins_all (map (\<lambda>k. (k, ())) ks) [])) = set ks"
proof -
  let ?m = "bt.ins_all (map (\<lambda>k. (k, ())) ks) []"
  have "dom (map_of ?m) = dom (map_of (rev (map (\<lambda>k. (k, ())) ks)))"
    by (simp only: bt.collect_lookup)
  then show ?thesis by (simp add: dom_map_of_conv_image_fst image_image)
qed

text \<open>Over the joined keys, as the code goes through them.\<close>

lemma effects_over_keys:
  "e \<in> set (effects_since marked current) \<longleftrightarrow>
     (\<exists>key. let old = map_of (marker_entry_map marked) key; new = map_of (marker_entry_map current) key in
        map_option mk_fingerprint old \<noteq> map_option mk_fingerprint new \<and> reports e old new)"
proof -
  let ?mm = "map_of (marker_entry_map marked)" and ?cm = "map_of (marker_entry_map current)"
  let ?keys = "map fst (bt.ins_all (map (\<lambda>k. (k, ())) (map fst (marker_entry_map marked) @ map fst (marker_entry_map current))) [])"
  have keys: "k \<in> set ?keys \<longleftrightarrow> ?mm k \<noteq> None \<or> ?cm k \<noteq> None" for k
    unfolding ordered_set_keys by (simp only: set_append Un_iff map_of_eq_None_iff set_map) blast
  have "e \<in> set (effects_since marked current) \<longleftrightarrow>
    (\<exists>k \<in> set ?keys. map_option mk_fingerprint (?mm k) \<noteq> map_option mk_fingerprint (?cm k) \<and> e = effect_of (?mm k) (?cm k) k)"
    unfolding effects_since_def Let_def set_sort set_filter_map by (auto split: if_splits)
  moreover have "map_option mk_fingerprint (?mm k) \<noteq> map_option mk_fingerprint (?cm k) \<Longrightarrow> k \<in> set ?keys" for k
    unfolding keys by auto
  ultimately show ?thesis
    unfolding Let_def using keys reports_effect by blast
qed

text \<open>
  C30: The effects since a marker are exactly the pairs of a path and a kind whose fingerprint differs between
  the two lists, a pair only one of them has included. Each is reported with its path, the old kind as before and
  the new one as after, the size of the new entry as the bytes written (none when it has none or is gone), and as
  sensitive when either entry is. The report is ordered by path and then by the new kind. The paths
  hold no NUL character, as no path of a file system does: the code joins path and kind with it.
\<close>

theorem effects_exact:
  assumes "plain_paths marked" "plain_paths current"
  shows "(e \<in> set (effects_since marked current) \<longleftrightarrow>
     (\<exists>path kind. CHR 0x00 \<notin> set path \<and>
        map_option mk_fingerprint (entry_at marked path kind) \<noteq> map_option mk_fingerprint (entry_at current path kind) \<and>
        reports e (entry_at marked path kind) (entry_at current path kind))) \<and>
   sorted (map (\<lambda>e. (ef_path e, option_key (ef_after e))) (effects_since marked current))"
proof
  show "sorted (map (\<lambda>e. (ef_path e, option_key (ef_after e))) (effects_since marked current))"
    by (simp add: effects_since_def Let_def)
  have "\<exists>p k. CHR 0x00 \<notin> set p \<and> key = p @ CHR 0x00 # k"
    if "map_of (marker_entry_map marked) key \<noteq> None \<or> map_of (marker_entry_map current) key \<noteq> None" for key
    using that marker_map_key assms by (metis not_None_eq)
  then have "\<exists>p k. CHR 0x00 \<notin> set p \<and> key = p @ CHR 0x00 # k"
    if "map_option mk_fingerprint (map_of (marker_entry_map marked) key) \<noteq> map_option mk_fingerprint (map_of (marker_entry_map current) key)" for key
    using that by (metis option.simps(8))
  then show "e \<in> set (effects_since marked current) \<longleftrightarrow>
     (\<exists>path kind. CHR 0x00 \<notin> set path \<and>
        map_option mk_fingerprint (entry_at marked path kind) \<noteq> map_option mk_fingerprint (entry_at current path kind) \<and>
        reports e (entry_at marked path kind) (entry_at current path kind))"
    unfolding effects_over_keys Let_def using entry_at_joined [OF assms(1)] entry_at_joined [OF assms(2)] by metis
qed

definition sample_mark :: "string \<Rightarrow> string \<Rightarrow> u64 option \<Rightarrow> string \<Rightarrow> mark_entry" where
  "sample_mark path kind sz fingerprint =
     \<lparr>mk_path = path, mk_kind = kind, mk_sensitive = False, mk_size = sz, mk_fingerprint = fingerprint\<rparr>"

theorem effects_exact_witness:
  "\<lparr>ef_path = ''f'', ef_before = Some ''added'', ef_after = Some ''added'', ef_sensitive = False, ef_bytes_written = 5\<rparr>
     \<in> set (effects_since [sample_mark ''f'' ''added'' (Some 3) ''x'', sample_mark ''g'' ''added'' None ''z'']
         [sample_mark ''f'' ''added'' (Some 5) ''y'', sample_mark ''g'' ''added'' None ''z''])"
proof -
  let ?m = "[sample_mark ''f'' ''added'' (Some 3) ''x'', sample_mark ''g'' ''added'' None ''z'']"
  let ?c = "[sample_mark ''f'' ''added'' (Some 5) ''y'', sample_mark ''g'' ''added'' None ''z'']"
  have "plain_paths ?m" "plain_paths ?c" by (simp_all add: plain_paths_def sample_mark_def)
  then show ?thesis
    by (rule effects_exact [THEN conjunct1, THEN iffD2, OF _ _ exI [of _ "''f''"], OF _ _ exI [of _ "''added''"]])
      (simp add: entry_at_def sample_mark_def reports_def)
qed

section \<open>Markers round trip\<close>

lemma mark_entry_roundtrip:
  assumes "json_value J"
  shows "mark_entry_from_json J (mark_entry_json J e) = Ok e"
proof -
  let ?kvs = "[(''path'', jstr J (mk_path e)), (''kind'', jstr J (mk_kind e)), (''sensitive'', jbool J (mk_sensitive e)),
      (''size'', jopt J (ju64 J) (mk_size e)), (''fingerprint'', jstr J (mk_fingerprint e))]"
  have d: "distinct (map fst ?kvs)" by simp
  show ?thesis
    by (simp add: mark_entry_from_json_def mark_entry_json_def marker_field_def json_value.get_str_obj [OF assms d]
        json_value.get_bool_obj [OF assms d] json_value.get_u64_obj [OF assms d])
qed

lemma marker_reads_back:
  assumes "json_value J"
  shows "marker_entries_from_json J (marker_json J cid name rc es) = Ok (marker_entries_from_diff es)"
    and "get_u64 J (marker_json J cid name rc es) ''resetCount'' = Some rc"
    and "get_str J (marker_json J cid name rc es) ''backend'' = Some ''overlayfs''"
proof -
  let ?kvs = "[(''version'', ju64 J 1), (''id'', jstr J cid), (''name'', jstr J name), (''backend'', jstr J ''overlayfs''),
      (''resetCount'', ju64 J rc), (''files'', jarr J (map (mark_entry_json J) (marker_entries_from_diff es)))]"
  have d: "distinct (map fst ?kvs)" by simp
  have "rcollect (mark_entry_from_json J) (map (mark_entry_json J) ms) = Ok ms" for ms
    by (induction ms) (simp_all add: mark_entry_roundtrip [OF assms])
  then show "marker_entries_from_json J (marker_json J cid name rc es) = Ok (marker_entries_from_diff es)"
    by (simp add: marker_entries_from_json_def marker_json_def json_value.get_array_obj [OF assms d])
  have "jopt J (ju64 J) (Some rc) = ju64 J rc" by (simp add: jopt_def)
  then show "get_u64 J (marker_json J cid name rc es) ''resetCount'' = Some rc"
    by (simp add: marker_json_def json_value.get_u64_obj [OF assms d, of _ "Some rc"])
  show "get_str J (marker_json J cid name rc es) ''backend'' = Some ''overlayfs''"
    by (simp add: marker_json_def json_value.get_str_obj [OF assms d])
qed

text \<open>
  C31: Asking for the effects since a marker that mark has written compares, if the container was not reset in
  between, exactly the entries of the two scans; after a reset it is an error. In particular nothing is
  reported when the scan has not changed.
\<close>

theorem mark_then_effects:
  assumes "json_value J" "cmd_mark J cid name (Ok (ov, rc)) scan = Ok marker" "scan ov = Ok es" "scan' ov' = Ok es'"
  shows "cmd_effects J cid name (Ok (ov', rc')) (Ok marker) scan' =
      (if rc \<noteq> rc' then
         Err Other (''marker '' @ name @ '' was created before reset count '' @ dec_u64 rc' @ ''; create a new marker'')
       else let effects = effects_since (marker_entries_from_diff es) (marker_entries_from_diff es')
         in Ok (effects, effects_json J cid name effects)) \<and>
    effects_since (marker_entries_from_diff es) (marker_entries_from_diff es) = []"
proof
  from assms(2,3) have v: "validate_state_name name ''marker name'' = Ok ()" and m: "marker = marker_json J cid name rc es"
    by (auto simp: cmd_mark_def)
  show "cmd_effects J cid name (Ok (ov', rc')) (Ok marker) scan' =
      (if rc \<noteq> rc' then
         Err Other (''marker '' @ name @ '' was created before reset count '' @ dec_u64 rc' @ ''; create a new marker'')
       else let effects = effects_since (marker_entries_from_diff es) (marker_entries_from_diff es')
         in Ok (effects, effects_json J cid name effects))"
    using assms(4) by (simp add: cmd_effects_def v m read_marker_def marker_reads_back [OF assms(1)])
  show "effects_since (marker_entries_from_diff es) (marker_entries_from_diff es) = []"
  proof -
    have "filter_map (\<lambda>k. None) ks = ([] :: effect_entry list)" for ks :: "string list"
      by (induction ks) simp_all
    then show ?thesis by (simp add: effects_since_def Let_def)
  qed
qed

theorem mark_then_effects_witness:
  "\<exists>marker. cmd_mark jv ''c1'' ''m'' (Ok ((), 3)) (\<lambda>_. Ok []) = Ok marker \<and>
     is_ok (cmd_effects jv ''c1'' ''m'' (Ok ((), 3)) (Ok marker) (\<lambda>_. Ok [])) \<and>
     \<not> is_ok (cmd_effects jv ''c1'' ''m'' (Ok ((), 4)) (Ok marker) (\<lambda>_. Ok []))"
proof -
  have m: "cmd_mark jv ''c1'' ''m'' (Ok ((), 3)) (\<lambda>_. Ok []) = Ok (marker_json jv ''c1'' ''m'' 3 [])"
    by (simp add: cmd_mark_def validate_state_name_def)
  note at = mark_then_effects [OF jv.json_value_axioms m refl, of "\<lambda>_. Ok []" "()" "[]", OF refl, THEN conjunct1]
  from at [of 3] at [of 4] m show ?thesis by (simp add: Let_def)
qed

end
