(* ===== verification/Rollout_Cmds.thy ===== *)
theory Rollout_Cmds
  imports Overlay_State Effects
begin

text \<open>
  The commands of \<^verbatim>\<open>rollout.rs\<close> on the state of containers: snapshot, restore, fork, checkpoint, fork of a
  checkpoint, reset, and the reports on the changes of a container. A command is a computation over the
  file system; the JSON line it prints on request is its result.
\<close>

section \<open>Where snapshots and checkpoints are\<close>

text \<open>
  \<^verbatim>\<open>Path::parent\<close>: the body of a path is what follows its root or leading dot; its empty and dot pieces at the
  end are dropped, before and after the last component is taken off.
\<close>

definition trivial_piece :: "string \<Rightarrow> bool" where
  "trivial_piece p \<longleftrightarrow> p = [] \<or> p = ''.''"

definition path_parent :: "string \<Rightarrow> string option" where
  "path_parent p =
     (let k = (if is_absolute p \<or> hd (split_on CHR ''/'' p) = ''.'' then 1 else 0) in
      case dropWhile trivial_piece (rev (split_on CHR ''/'' (drop k p))) of
        _ # rest \<Rightarrow> Some (take k p @ join ''/'' (rev (dropWhile trivial_piece rest)))
      | [] \<Rightarrow> if k = 1 \<and> \<not> is_absolute p then Some [] else None)"

definition runtime_root_dir :: "'v fs_env \<Rightarrow> string io_result" where
  "runtime_root_dir E = ok_or (path_parent (container_dir E ''__rsrun_root__'')) (IoError Other ''invalid runtime root'')"

record snapshot_paths =
  sn_root :: string
  sn_upper :: string
  sn_meta :: string

record checkpoint_paths =
  ck_root :: string
  ck_layer :: string
  ck_meta :: string

definition snapshot_paths_of :: "'v fs_env \<Rightarrow> string \<Rightarrow> snapshot_paths io_result" where
  "snapshot_paths_of E snapshot_id =
     rbind (runtime_root_dir E) (\<lambda>r.
       let base = path_join (path_join r ''.snapshots'') snapshot_id
       in Ok \<lparr>sn_root = base, sn_upper = path_join base ''upper'', sn_meta = path_join base ''meta.json''\<rparr>)"

definition checkpoint_paths_of :: "'v fs_env \<Rightarrow> string \<Rightarrow> checkpoint_paths io_result" where
  "checkpoint_paths_of E checkpoint_id =
     rbind (runtime_root_dir E) (\<lambda>r.
       let base = path_join (path_join r ''.checkpoints'') checkpoint_id
       in Ok \<lparr>ck_root = base, ck_layer = path_join base ''layer'', ck_meta = path_join base ''meta.json''\<rparr>)"

section \<open>Metadata\<close>

text \<open>\<^verbatim>\<open>SnapshotMeta\<close> and \<^verbatim>\<open>CheckpointMeta\<close>.\<close>

record fs_meta =
  fm_lowers :: "string list"
  fm_bundle :: string
  fm_reset :: u64

definition check_available :: "'v fs_env \<Rightarrow> fsys \<Rightarrow> string \<Rightarrow> string \<Rightarrow> unit io_result" where
  "check_available E s what l =
     (if walk_dir E s l then Ok () else Err Other (what @ '' lowerdir '' @ l @ '' is not available''))"

definition meta_tail :: "'v json_api \<Rightarrow> string list \<Rightarrow> 'v \<Rightarrow> fs_meta" where
  "meta_tail J lowers v =
     \<lparr>fm_lowers = lowers, fm_bundle = unwrap_or (get_str J v ''bundle'') [],
      fm_reset = unwrap_or (get_u64 J v ''resetCount'') 0\<rparr>"

definition snapshot_lowers :: "'v json_api \<Rightarrow> 'v \<Rightarrow> string list io_result" where
  "snapshot_lowers J v =
     (if get_str J v ''backend'' \<noteq> Some ''overlayfs'' then Err Other ''snapshot is not overlayfs-backed''
      else case get_array J v ''lowerdirs'' of
          Some vs \<Rightarrow> path_list J ''snapshot metadata has invalid lowerdirs'' vs
        | None \<Rightarrow> rbind (ok_or (get_str J v ''lowerdir'') (IoError Other ''snapshot metadata missing lowerdir'')) (\<lambda>l. Ok [l]))"

definition read_snapshot_meta :: "'v fs_env \<Rightarrow> snapshot_paths \<Rightarrow> fsys \<Rightarrow> fs_meta io_result" where
  "read_snapshot_meta E paths s =
     rbind (read_json E (sn_meta paths) s) (\<lambda>v.
     rbind (snapshot_lowers (fe_json E) v) (\<lambda>lowers.
     rbind (rcollect (check_available E s ''snapshot'') lowers) (\<lambda>_.
       Ok (meta_tail (fe_json E) lowers v))))"

definition checkpoint_lowers :: "'v json_api \<Rightarrow> string \<Rightarrow> 'v \<Rightarrow> string list io_result" where
  "checkpoint_lowers J runtime_root v =
     (if get_str J v ''kind'' \<noteq> Some ''checkpoint'' then Err Other ''metadata is not a checkpoint''
      else if get_str J v ''backend'' \<noteq> Some ''overlayfs'' then Err Other ''checkpoint backend is not supported''
      else
        rbind (case get_array J v ''layers'' of
                 Some vs \<Rightarrow> rcollect (layer_ref_from_json J) vs
               | None \<Rightarrow> Ok []) (\<lambda>layers.
        if layers \<noteq> [] then
          rbind (rcollect (resolve_layer_ref runtime_root) layers) (\<lambda>resolved.
            case get_array J v ''parent_lowerdirs'' of
              Some vs \<Rightarrow> rbind (path_list J ''checkpoint metadata has invalid parent_lowerdirs'' vs) (\<lambda>ps. Ok (resolved @ ps))
            | None \<Rightarrow> Ok resolved)
        else
          rbind (ok_or (get_array J v ''lowerdirs'') (IoError Other ''checkpoint metadata missing lowerdirs'')) (\<lambda>vs.
            path_list J ''checkpoint metadata has invalid lowerdirs'' vs)))"

definition read_checkpoint_meta :: "'v fs_env \<Rightarrow> checkpoint_paths \<Rightarrow> fsys \<Rightarrow> fs_meta io_result" where
  "read_checkpoint_meta E paths s =
     rbind (read_json E (ck_meta paths) s) (\<lambda>v.
     rbind (runtime_root_dir E) (\<lambda>r.
     rbind (checkpoint_lowers (fe_json E) r v) (\<lambda>lowers.
     if lowers = [] then Err Other ''checkpoint lowerdir chain is empty''
     else
       rbind (rcollect (check_available E s ''checkpoint'') lowers) (\<lambda>_.
         Ok (meta_tail (fe_json E) lowers v)))))"

section \<open>Guards\<close>

definition ensure_stopped_for_fs_state :: "'v fs_env \<Rightarrow> string \<Rightarrow> string \<Rightarrow> string \<Rightarrow> fsys \<Rightarrow> unit io_result" where
  "ensure_stopped_for_fs_state E cid root action s =
     (if \<not> path_exists E root s then Err Other (''container '' @ cid @ '' does not exist'')
      else
        (case read_status_pid_comm (fe_json E) (fe_text E) (cdir_at E root s) of (status, pid, comm) \<Rightarrow>
           if 0 < pid \<and> fe_alive E pid comm
           then Err Other (''cannot '' @ action @ '' container '' @ cid @ '' in state '' @ unwrap_or status ''creating'' @
                  ''; stop it first'')
           else Ok ()))"

definition ensure_checkpoint_quiescent :: "'v fs_env \<Rightarrow> string \<Rightarrow> string \<Rightarrow> fsys \<Rightarrow> unit io_result" where
  "ensure_checkpoint_quiescent E cid root s =
     (if \<not> path_exists E root s then Err Other (''container '' @ cid @ '' does not exist'')
      else
        (case read_status_pid_comm (fe_json E) (fe_text E) (cdir_at E root s) of (status, pid, comm) \<Rightarrow>
           if 0 < pid \<and> fe_alive E pid comm \<and> unwrap_or status ''creating'' \<noteq> ''created''
           then Err Other (''cannot checkpoint container '' @ cid @ '' in state '' @ unwrap_or status ''creating'' @
                  ''; stop it first'')
           else Ok ()))"

definition measured :: "'v fs_env \<Rightarrow> string \<Rightarrow> fsys \<Rightarrow> stats io_result" where
  "measured E p s =
     rbind (ok_or (find_node E p s) no_entry) (enforce_snapshot_limits (fe_max_bytes E) (fe_max_entries E))"

definition bundle_or_empty :: "'v fs_env \<Rightarrow> string \<Rightarrow> fsys \<Rightarrow> string" where
  "bundle_or_empty E root s =
     (case read_bundle (fe_json E) (fe_text E) (cdir_at E root s) of Inr b \<Rightarrow> b | Inl _ \<Rightarrow> [])"

definition refuse_existing :: "'v fs_env \<Rightarrow> string \<Rightarrow> string \<Rightarrow> (fsys, unit) io" where
  "refuse_existing E what p =
     io_bind (io_get (path_exists E p)) (\<lambda>there.
       if there then io_of (Err Other (what @ '' already exists'')) else io_ok ())"

text \<open>The JSON line of a command that was asked for it.\<close>

definition report :: "'v fs_env \<Rightarrow> bool \<Rightarrow> (string \<times> 'v) list \<Rightarrow> (fsys, 'v option) io" where
  "report E json kvs = io_ok (if json then Some (jobj (fe_json E) kvs) else None)"

section \<open>snapshot\<close>

definition first_lower :: "'v json_api \<Rightarrow> overlay \<Rightarrow> 'v" where
  "first_lower J ov = jopt J (jstr J) (case ov_lowers ov of [] \<Rightarrow> None | l # _ \<Rightarrow> Some l)"

definition snapshot_json ::
  "'v json_api \<Rightarrow> string \<Rightarrow> string \<Rightarrow> overlay \<Rightarrow> string \<Rightarrow> u64 \<Rightarrow> stats \<Rightarrow> 'v" where
  "snapshot_json J snapshot_id cid ov bundle reset_count st = jobj J
     [(''version'', ju64 J 1), (''backend'', jstr J ''overlayfs''), (''id'', jstr J snapshot_id), (''source_id'', jstr J cid),
      (''lowerdir'', first_lower J ov), (''lowerdirs'', jarr J (map (jstr J) (ov_lowers ov))), (''bundle'', jstr J bundle),
      (''resetCount'', ju64 J reset_count), (''entries'', ju64 J (of_nat (st_entries st))),
      (''bytes'', ju64 J (of_nat (st_bytes st)))]"

definition cmd_snapshot :: "'v fs_env \<Rightarrow> string \<Rightarrow> string \<Rightarrow> (fsys, unit) io" where
  "cmd_snapshot E cid snapshot_id =
     io_bind (io_of (validate_state_name snapshot_id ''snapshot id'')) (\<lambda>_.
     let root = container_dir E cid in
     io_bind (io_read (ensure_stopped_for_fs_state E cid root ''snapshot'')) (\<lambda>_.
     io_bind (io_read (read_overlay_state E root)) (\<lambda>(ov, reset_count).
     io_bind (io_get (bundle_or_empty E root)) (\<lambda>bundle.
     io_bind (io_of (snapshot_paths_of E snapshot_id)) (\<lambda>sn.
     io_bind (refuse_existing E (''snapshot '' @ snapshot_id) (sn_root sn)) (\<lambda>_.
     io_bind (io_read (measured E (ov_upper ov))) (\<lambda>st.
     io_bind (create_dir_all E (sn_root sn)) (\<lambda>_.
     io_bind (io_undo (clone_dir E (ov_upper ov) (sn_upper sn)) (remove_dir_all E (sn_root sn))) (\<lambda>_.
       write_file E (sn_meta sn)
         (jt_print (fe_text E) (snapshot_json (fe_json E) snapshot_id cid ov bundle reset_count st)))))))))))"

section \<open>restore and fork\<close>

definition fresh_overlay :: "string \<Rightarrow> string list \<Rightarrow> overlay" where
  "fresh_overlay root lowers =
     \<lparr>ov_lowers = lowers, ov_upper = path_join root ''overlay/upper'', ov_work = path_join root ''overlay/work'',
      ov_merged = path_join root ''overlay/merged''\<rparr>"

text \<open>The end of a restore and of a fork: mount the new overlay and record the container as stopped.\<close>

definition attach_overlay :: "'v fs_env \<Rightarrow> string \<Rightarrow> string \<Rightarrow> overlay \<Rightarrow> u64 \<Rightarrow> string \<Rightarrow> (fsys, unit) io" where
  "attach_overlay E cid root ov reset_count bundle =
     io_bind (create_dir_all E (ov_work ov)) (\<lambda>_.
     io_bind (create_dir_all E (ov_merged ov)) (\<lambda>_.
     io_bind (io_read (validate_overlay_paths E root ov)) (\<lambda>_.
     io_bind (mount_overlay E ov) (\<lambda>_.
     io_bind (write_overlay_state E root ov reset_count) (\<lambda>_.
       write_state_file E root cid 0 bundle ''stopped'' None)))))"

definition abandon :: "'v fs_env \<Rightarrow> string \<Rightarrow> overlay \<Rightarrow> (fsys, unit io_result) io" where
  "abandon E root ov = io_bind (io_try (unmount_overlay E ov)) (\<lambda>_. io_try (destroy E root))"

text \<open>A new container from the upper directory \<open>src\<close>.\<close>

definition clone_container ::
  "'v fs_env \<Rightarrow> string \<Rightarrow> string \<Rightarrow> string \<Rightarrow> string list \<Rightarrow> u64 \<Rightarrow> string \<Rightarrow> (fsys, unit) io" where
  "clone_container E src cid root lowers reset_count bundle =
     io_bind (ensure E root) (\<lambda>_.
     let ov = fresh_overlay root lowers in
     io_undo
       (io_bind (io_read (measured E src)) (\<lambda>_.
        io_bind (clone_dir E src (ov_upper ov)) (\<lambda>_.
          attach_overlay E cid root ov reset_count bundle)))
       (abandon E root ov))"

definition restore_snapshot_into ::
  "'v fs_env \<Rightarrow> snapshot_paths \<Rightarrow> fs_meta \<Rightarrow> string \<Rightarrow> string \<Rightarrow> (fsys, unit) io" where
  "restore_snapshot_into E sn meta cid root =
     clone_container E (sn_upper sn) cid root (fm_lowers meta) (fm_reset meta) (fm_bundle meta)"

definition cmd_restore :: "'v fs_env \<Rightarrow> string \<Rightarrow> string \<Rightarrow> bool \<Rightarrow> (fsys, 'v option) io" where
  "cmd_restore E snapshot_id new_id json =
     io_bind (io_of (validate_state_name snapshot_id ''snapshot id'')) (\<lambda>_.
     io_bind (io_of (validate_state_name new_id ''container id'')) (\<lambda>_.
     io_bind (io_of (snapshot_paths_of E snapshot_id)) (\<lambda>sn.
     io_bind (io_read (read_snapshot_meta E sn)) (\<lambda>meta.
     let root = container_dir E new_id; J = fe_json E in
     io_bind (refuse_existing E (''container '' @ new_id) root) (\<lambda>_.
     io_bind (restore_snapshot_into E sn meta new_id root) (\<lambda>_.
       report E json
         [(''id'', jstr J new_id), (''snapshot'', jstr J snapshot_id), (''backend'', jstr J ''overlayfs''),
          (''restored'', jbool J True), (''merged'', jstr J (path_join root ''overlay/merged''))]))))))"

definition cmd_fork :: "'v fs_env \<Rightarrow> string \<Rightarrow> string \<Rightarrow> bool \<Rightarrow> (fsys, 'v option) io" where
  "cmd_fork E cid new_id json =
     io_bind (io_of (validate_state_name new_id ''container id'')) (\<lambda>_.
     let source_root = container_dir E cid; root = container_dir E new_id; J = fe_json E in
     io_bind (io_read (ensure_stopped_for_fs_state E cid source_root ''fork'')) (\<lambda>_.
     io_bind (io_read (read_overlay_state E source_root)) (\<lambda>(source, reset_count).
     io_bind (io_get (bundle_or_empty E source_root)) (\<lambda>bundle.
     io_bind (refuse_existing E (''container '' @ new_id) root) (\<lambda>_.
     io_bind (clone_container E (ov_upper source) new_id root (ov_lowers source) reset_count bundle) (\<lambda>_.
       report E json
         [(''id'', jstr J new_id), (''source'', jstr J cid), (''backend'', jstr J ''overlayfs''),
          (''forked'', jbool J True), (''merged'', jstr J (ov_merged (fresh_overlay root (ov_lowers source))))]))))))"

section \<open>checkpoint\<close>

definition readonly_dir :: "'v fs_env \<Rightarrow> string \<Rightarrow> (fsys, unit) io" where
  "readonly_dir E p =
     edit (\<lambda>root. rbind (ok_or (lookup root (names E p)) no_entry) (\<lambda>t.
       rbind (make_tree_readonly (fe_host E) t) (\<lambda>t'. put_node (names E p) t' root)))"

definition install_layer :: "'v fs_env \<Rightarrow> string \<Rightarrow> string option \<Rightarrow> (fsys, layer_ref) io" where
  "install_layer E src parent = (\<lambda>s.
     case rbind (runtime_root_dir E) (\<lambda>r. rbind (ok_or (find_node E src s) no_entry) (\<lambda>t.
            install_overlay2_layer (fe_host E) r parent t (fs_store s))) of
       Inl e \<Rightarrow> (s, Inl e)
     | Inr (l, S) \<Rightarrow> (s\<lparr>fs_store := S\<rparr>, Ok l))"

definition directory_ref :: "string \<Rightarrow> layer_ref" where
  "directory_ref path =
     \<lparr>lr_backend = ''overlayfs'', lr_format = ''overlay-upperdir'', lr_store = ''local-directory'', lr_path = path,
      lr_link = None, lr_digest = None\<rparr>"

definition checkpoint_json ::
  "'v json_api \<Rightarrow> string \<Rightarrow> string \<Rightarrow> string \<Rightarrow> u64 \<Rightarrow> stats \<Rightarrow> string \<Rightarrow> string list \<Rightarrow> string list \<Rightarrow> layer_ref \<Rightarrow> 'v" where
  "checkpoint_json J checkpoint_id cid bundle reset_count st layer lowers parents primary = jobj J
     [(''version'', ju64 J 1), (''kind'', jstr J ''checkpoint''), (''backend'', jstr J ''overlayfs''),
      (''id'', jstr J checkpoint_id), (''source_id'', jstr J cid), (''bundle'', jstr J bundle),
      (''resetCount'', ju64 J reset_count), (''entries'', ju64 J (of_nat (st_entries st))),
      (''bytes'', ju64 J (of_nat (st_bytes st))), (''layer'', jstr J layer),
      (''lowerdirs'', jarr J (map (jstr J) lowers)), (''parent_lowerdirs'', jarr J (map (jstr J) parents)),
      (''layers'', jarr J [layer_ref_json J primary])]"

definition cmd_checkpoint :: "'v fs_env \<Rightarrow> string \<Rightarrow> string \<Rightarrow> string \<Rightarrow> bool \<Rightarrow> (fsys, 'v option) io" where
  "cmd_checkpoint E cid checkpoint_id pack json =
     io_bind (io_of (validate_state_name checkpoint_id ''checkpoint id'')) (\<lambda>_.
     if pack \<noteq> ''directory'' \<and> pack \<noteq> ''overlay2''
     then io_of (Err Other ''checkpoint --pack must be directory or overlay2'')
     else
     let root = container_dir E cid; J = fe_json E in
     io_bind (io_read (ensure_checkpoint_quiescent E cid root)) (\<lambda>_.
     io_bind (io_read (read_overlay_state E root)) (\<lambda>(ov, reset_count).
     io_bind (io_get (bundle_or_empty E root)) (\<lambda>bundle.
     io_bind (io_of (checkpoint_paths_of E checkpoint_id)) (\<lambda>ck.
     io_bind (refuse_existing E (''checkpoint '' @ checkpoint_id) (ck_root ck)) (\<lambda>_.
     io_bind (io_read (measured E (ov_upper ov))) (\<lambda>st.
     io_bind (create_dir_all E (ck_root ck)) (\<lambda>_.
     io_bind (io_undo (clone_dir E (ov_upper ov) (ck_layer ck)) (remove_dir_all E (ck_root ck))) (\<lambda>_.
     io_bind (io_undo (readonly_dir E (ck_layer ck)) (remove_dir_all E (ck_root ck))) (\<lambda>_.
     io_bind (if pack = ''overlay2''
              then install_layer E (ck_layer ck) (case ov_lowers ov of [] \<Rightarrow> None | l # _ \<Rightarrow> Some l)
              else io_ok (directory_ref (ck_layer ck))) (\<lambda>primary.
     io_bind (io_of (rbind (runtime_root_dir E) (\<lambda>r. resolve_layer_ref r primary))) (\<lambda>resolved.
     let lowers = resolved # ov_lowers ov in
     io_bind (write_file E (ck_meta ck) (jt_print (fe_text E)
       (checkpoint_json J checkpoint_id cid bundle reset_count st (ck_layer ck) lowers (ov_lowers ov) primary))) (\<lambda>_.
       report E json
         [(''id'', jstr J checkpoint_id), (''source'', jstr J cid), (''backend'', jstr J ''overlayfs''),
          (''checkpointed'', jbool J True), (''layer'', jstr J (ck_layer ck)), (''lowerdirs'', jarr J (map (jstr J) lowers)),
          (''entries'', ju64 J (of_nat (st_entries st))), (''bytes'', ju64 J (of_nat (st_bytes st))),
          (''pack'', jstr J pack)])))))))))))))"

definition cmd_fork_checkpoint :: "'v fs_env \<Rightarrow> string \<Rightarrow> string \<Rightarrow> bool \<Rightarrow> (fsys, 'v option) io" where
  "cmd_fork_checkpoint E checkpoint_id new_id json =
     io_bind (io_of (validate_state_name checkpoint_id ''checkpoint id'')) (\<lambda>_.
     io_bind (io_of (validate_state_name new_id ''container id'')) (\<lambda>_.
     io_bind (io_of (checkpoint_paths_of E checkpoint_id)) (\<lambda>ck.
     io_bind (io_read (read_checkpoint_meta E ck)) (\<lambda>meta.
     let root = container_dir E new_id; J = fe_json E; ov = fresh_overlay root (fm_lowers meta) in
     io_bind (refuse_existing E (''container '' @ new_id) root) (\<lambda>_.
     io_bind (ensure E root) (\<lambda>_.
     io_bind (io_undo
         (io_bind (create_dir_all E (ov_upper ov)) (\<lambda>_.
            attach_overlay E new_id root ov (fm_reset meta) (fm_bundle meta)))
         (abandon E root ov)) (\<lambda>_.
       report E json
         [(''id'', jstr J new_id), (''checkpoint'', jstr J checkpoint_id), (''backend'', jstr J ''overlayfs''),
          (''forked'', jbool J True), (''merged'', jstr J (ov_merged ov)), (''upperdir'', jstr J (ov_upper ov)),
          (''lowerdirs'', jarr J (map (jstr J) (ov_lowers ov)))])))))))"

section \<open>reset\<close>

definition sat_succ :: "u64 \<Rightarrow> u64" where
  "sat_succ n = (if n = - 1 then n else n + 1)"

text \<open>The rewrite of \<^verbatim>\<open>state.json\<close>; a file that cannot be read or parsed is left alone.\<close>

definition reset_state_file :: "'v fs_env \<Rightarrow> string \<Rightarrow> u64 \<Rightarrow> (fsys, unit) io" where
  "reset_state_file E root reset_count =
     io_bind (io_get (read_json E (path_join root ''state.json''))) (\<lambda>r.
       case r of
         Inl _ \<Rightarrow> io_ok ()
       | Inr v \<Rightarrow>
           io_bind (io_try (write_file E (path_join root ''state.json'')
             (jt_print (fe_text E)
               (jt_set (fe_text E) (jt_set (fe_text E) v ''status'' (jstr (fe_json E) ''stopped''))
                 ''rootfsResetCount'' (ju64 (fe_json E) reset_count))))) (\<lambda>_. io_ok ()))"

definition remove_if_exists :: "'v fs_env \<Rightarrow> string \<Rightarrow> (fsys, unit) io" where
  "remove_if_exists E p =
     io_bind (io_get (path_exists E p)) (\<lambda>there. if there then remove_dir_all E p else io_ok ())"

definition cmd_reset :: "'v fs_env \<Rightarrow> string \<Rightarrow> bool \<Rightarrow> (fsys, 'v option) io" where
  "cmd_reset E cid json =
     (let root = container_dir E cid; J = fe_json E in
     io_bind (io_read (ensure_stopped_for_fs_state E cid root ''reset'')) (\<lambda>_.
     io_bind (io_read (read_overlay_state E root)) (\<lambda>(ov, old_count).
     io_bind (cleanup_overlay_rootfs E root) (\<lambda>_.
     io_bind (remove_if_exists E (ov_upper ov)) (\<lambda>_.
     io_bind (remove_if_exists E (ov_work ov)) (\<lambda>_.
     io_bind (create_dir_all E (ov_upper ov)) (\<lambda>_.
     io_bind (create_dir_all E (ov_work ov)) (\<lambda>_.
     io_bind (create_dir_all E (ov_merged ov)) (\<lambda>_.
     io_bind (mount_overlay E ov) (\<lambda>_.
     let reset_count = sat_succ old_count in
     io_bind (write_overlay_state E root ov reset_count) (\<lambda>_.
     io_bind (reset_state_file E root reset_count) (\<lambda>_.
       report E json
         [(''id'', jstr J cid), (''backend'', jstr J ''overlayfs''), (''reset'', jbool J True),
          (''resetCount'', ju64 J reset_count), (''upperdir'', jstr J (ov_upper ov)), (''workdir'', jstr J (ov_work ov)),
          (''merged'', jstr J (ov_merged ov))]))))))))))))"

section \<open>Reports on the changes\<close>

text \<open>
  The layers of an overlay and the times of its files are what the kernel reports for the paths: \<open>F\<close> follows the
  links in the middle of a path of a layer, \<open>X\<close> gives the times.
\<close>

definition scan_of ::
  "'v fs_env \<Rightarrow> (fsys \<Rightarrow> string \<Rightarrow> string list \<Rightarrow> string \<Rightarrow> string list \<Rightarrow> tree option) \<Rightarrow>
   (fsys \<Rightarrow> string \<Rightarrow> string list \<Rightarrow> stat_extra) \<Rightarrow> fsys \<Rightarrow> overlay \<Rightarrow> diff_entry list io_result" where
  "scan_of E F X s ov =
     scan_overlay_diff
       (filter_map (\<lambda>l. map_option (\<lambda>t. \<lparr>lay_tree = t, lay_follow = F s l\<rparr>) (fe_walk E s l)) (ov_lowers ov))
       (X s (ov_upper ov)) (find_node E (ov_upper ov) s)"

definition cmd_changed_files ::
  "'v fs_env \<Rightarrow> (fsys \<Rightarrow> overlay \<Rightarrow> diff_entry list io_result) \<Rightarrow> string \<Rightarrow> fsys \<Rightarrow> 'v io_result" where
  "cmd_changed_files E scan cid s =
     rbind (read_overlay_state E (container_dir E cid) s) (\<lambda>(ov, _).
     rbind (scan s ov) (\<lambda>es. Ok (changed_files_json (fe_json E) cid es)))"

definition cmd_diff ::
  "'v fs_env \<Rightarrow> (fsys \<Rightarrow> overlay \<Rightarrow> diff_entry list io_result) \<Rightarrow> string \<Rightarrow> fsys \<Rightarrow> 'v io_result" where
  "cmd_diff E scan cid s =
     rbind (read_overlay_state E (container_dir E cid) s) (\<lambda>(ov, _).
     rbind (scan s ov) (\<lambda>es. Ok (diff_json (fe_json E) cid es)))"

text \<open>\<^verbatim>\<open>cmd_mark\<close> with its file, and \<^verbatim>\<open>cmd_effects\<close> from the file.\<close>

definition marker_path :: "string \<Rightarrow> string \<Rightarrow> string" where
  "marker_path root name = path_join (path_join root ''markers'') (name @ ''.json'')"

definition mark_container ::
  "'v fs_env \<Rightarrow> (fsys \<Rightarrow> overlay \<Rightarrow> diff_entry list io_result) \<Rightarrow> string \<Rightarrow> string \<Rightarrow> (fsys, unit) io" where
  "mark_container E scan cid name =
     (let root = container_dir E cid in
      io_bind (io_read (\<lambda>s. cmd_mark (fe_json E) cid name (read_overlay_state E root s) (scan s))) (\<lambda>v.
      io_bind (create_dir_all E (path_join root ''markers'')) (\<lambda>_.
        write_file E (marker_path root name) (jt_print (fe_text E) v))))"

definition container_effects ::
  "'v fs_env \<Rightarrow> (fsys \<Rightarrow> overlay \<Rightarrow> diff_entry list io_result) \<Rightarrow> string \<Rightarrow> string \<Rightarrow> fsys \<Rightarrow>
   (effect_entry list \<times> 'v) io_result" where
  "container_effects E scan cid since s =
     (let root = container_dir E cid in
      cmd_effects (fe_json E) cid since (read_overlay_state E root s) (read_json E (marker_path root since) s) (scan s))"

end
