(* ===== verification/Materialize.thy ===== *)
theory Materialize
  imports Overlay_Diff
begin

text \<open>
  Flattening a stack of layers into one tree for an exported checkpoint: \<^verbatim>\<open>materialize_lowerdirs\<close> of
  \<^verbatim>\<open>rollout.rs\<close>. The destination is a tree too; where the code follows a symbolic link of the
  destination, the run leaves the tree, which is an outcome of its own.
\<close>

datatype stop =
    Fails io_error
  | Leaves "string list" string bool  \<comment> \<open>the link, its target, whether the directory there was emptied\<close>

type_synonym 'a mat = "stop + 'a"

fun of_io :: "'a io_result \<Rightarrow> 'a mat" where
  "of_io (Inl e) = Inl (Fails e)"
| "of_io (Inr a) = Inr a"

lemma of_io_Inr [simp]: "of_io r = Inr a \<longleftrightarrow> r = Inr a"
  by (cases r) simp_all

fun rfold :: "('a \<Rightarrow> 's \<Rightarrow> 'e + 's) \<Rightarrow> 'a list \<Rightarrow> 's \<Rightarrow> 'e + 's" where
  "rfold f [] s = Inr s"
| "rfold f (x # xs) s = rbind (f x s) (rfold f xs)"

lemma rbind_cong [fundef_cong]:
  "r = r' \<Longrightarrow> (\<And>a. r' = Inr a \<Longrightarrow> f a = g a) \<Longrightarrow> rbind r f = rbind r' g"
  by (cases r') auto

lemma rfold_cong [fundef_cong]:
  "xs = ys \<Longrightarrow> s = s' \<Longrightarrow> (\<And>x t. x \<in> set ys \<Longrightarrow> f x t = g x t) \<Longrightarrow> rfold f xs s = rfold g ys s'"
proof (induction xs arbitrary: ys s s')
  case (Cons x xs)
  then have "rfold f xs t = rfold g xs t" for t by auto
  with Cons.prems show ?case by (cases "g x s") auto
qed simp

section \<open>One node\<close>

definition overlay_xattr :: "string \<Rightarrow> bool" where
  "overlay_xattr n \<longleftrightarrow> n = ''trusted.overlay.whiteout'' \<or> n = ''trusted.overlay.opaque''"

definition copy_xattrs_without_overlay :: "host \<Rightarrow> meta \<Rightarrow> meta \<Rightarrow> meta io_result" where
  "copy_xattrs_without_overlay H src m = set_xattrs H src (filter (\<lambda>n. \<not> overlay_xattr n) (list_xattrs src)) m"

definition copy_metadata_without_overlay_xattrs :: "host \<Rightarrow> (u32 \<Rightarrow> u32) \<Rightarrow> meta \<Rightarrow> meta \<Rightarrow> meta io_result" where
  "copy_metadata_without_overlay_xattrs H strip src m =
     rbind (chmod H (perm src AND 0xFFF) m) (\<lambda>m. rbind (copy_owner H strip src m) (copy_xattrs_without_overlay H src))"

text \<open>What \<^verbatim>\<open>copy_materialized_path\<close> leaves in place of the destination for what is no directory.\<close>

fun copy_leaf :: "host \<Rightarrow> tree \<Rightarrow> tree option io_result" where
  "copy_leaf H (File m c) = made H (File m c)
     (rbind (copy_metadata_without_overlay_xattrs H (chown_perm H) m (fresh H 0x1B6)) (\<lambda>m'. Ok (Some (File m' c))))"
| "copy_leaf H (Symlink m l) = made H (Symlink m l)
     (rbind (copy_owner H (\<lambda>p. p) m (fresh H 0x1FF)) (\<lambda>m'.
     rbind (copy_xattrs_without_overlay H m m') (\<lambda>m'. Ok (Some (Symlink m' l)))))"
| "copy_leaf H (Char_Device m ma mi) = made H (Char_Device m ma mi)
     (rbind (copy_metadata_without_overlay_xattrs H (chown_perm H) m (fresh H (perm m))) (\<lambda>m'. Ok (Some (Char_Device m' ma mi))))"
| "copy_leaf H (Block_Device m ma mi) = made H (Block_Device m ma mi)
     (rbind (copy_metadata_without_overlay_xattrs H (chown_perm H) m (fresh H (perm m))) (\<lambda>m'. Ok (Some (Block_Device m' ma mi))))"
| "copy_leaf H (Fifo m) = made H (Fifo m)
     (rbind (copy_metadata_without_overlay_xattrs H (chown_perm H) m (fresh H (perm m))) (\<lambda>m'. Ok (Some (Fifo m'))))"
| "copy_leaf H _ = Ok None"

text \<open>
  A directory: \<^verbatim>\<open>remove_dir_contents\<close> empties an existing directory when the layer's is opaque,
  \<^verbatim>\<open>create_dir_all\<close> accepts an existing directory and fails on anything else (\<^verbatim>\<open>EEXIST\<close> is 17). Both follow
  a symbolic link: \<open>D\<close> tells whether the link at that path leads to a directory.
\<close>

definition open_dir ::
  "host \<Rightarrow> (string list \<Rightarrow> string \<Rightarrow> bool) \<Rightarrow> string list \<Rightarrow> tree \<Rightarrow> tree option \<Rightarrow> (meta \<times> (string \<times> tree) list) mat" where
  "open_dir H D rel s d =
     (case d of
        None \<Rightarrow> of_io (made H s (Ok (fresh H 0x1FF, [])))
      | Some (Dir dm des) \<Rightarrow> of_io (made H s (Ok (dm, if is_overlay_opaque_dir s then [] else des)))
      | Some (Symlink _ l) \<Rightarrow>
          if D rel l then Inl (Leaves rel l (is_overlay_opaque_dir s)) else Inl (Fails (IoError (OsError 17) []))
      | Some _ \<Rightarrow> Inl (Fails (IoError (OsError 17) [])))"

definition put_entry :: "string \<Rightarrow> tree option \<Rightarrow> (string \<times> tree) list \<Rightarrow> (string \<times> tree) list" where
  "put_entry n c es = (case c of None \<Rightarrow> AList.delete n es | Some t \<Rightarrow> AList.update n t es)"

section \<open>One layer\<close>

text \<open>\<open>apply_layer H D rel src dst\<close>: the entries \<open>dst\<close> of the directory at \<open>rel\<close> after the layer's \<open>src\<close>.\<close>

fun apply_layer ::
  "host \<Rightarrow> (string list \<Rightarrow> string \<Rightarrow> bool) \<Rightarrow> string list \<Rightarrow> tree \<Rightarrow> (string \<times> tree) list \<Rightarrow> (string \<times> tree) list mat" where
  "apply_layer H D rel (Dir m es) dst =
     rfold (\<lambda>x dst.
       rbind (if is_overlay_whiteout (snd x) then Inr None
              else if is_dir (snd x) then
                rbind (open_dir H D (rel @ [fst x]) (snd x) (map_of dst (fst x))) (\<lambda>d.
                rbind (of_io (copy_metadata_without_overlay_xattrs H (\<lambda>p. p) (meta_of (snd x)) (fst d))) (\<lambda>dm.
                rbind (apply_layer H D (rel @ [fst x]) (snd x) (snd d)) (\<lambda>des.
                rbind (of_io (copy_metadata_without_overlay_xattrs H (\<lambda>p. p) (meta_of (snd x)) dm)) (\<lambda>dm.
                  Inr (Some (Dir dm des))))))
              else of_io (copy_leaf H (snd x))) (\<lambda>c.
       Inr (put_entry (fst x) c dst))) (in_order es) dst"
| "apply_layer H D rel t dst = Inl (Fails (IoError (OsError 20) []))"

definition materialize_lowerdirs ::
  "host \<Rightarrow> (string list \<Rightarrow> string \<Rightarrow> bool) \<Rightarrow> string \<Rightarrow> bool \<Rightarrow> tree list \<Rightarrow> tree mat" where
  "materialize_lowerdirs H D dst dst_exists lowers =
     (if dst_exists then Inl (Fails (IoError Other (''materialize destination '' @ dst @ '' already exists'')))
      else rbind (rfold (apply_layer H D []) (rev lowers) []) (\<lambda>es.
        of_io (make_tree_readonly H (Dir (fresh H 0x1FF) es))))"

section \<open>The flattened tree is the merged view\<close>

definition apply_node ::
  "host \<Rightarrow> (string list \<Rightarrow> string \<Rightarrow> bool) \<Rightarrow> string list \<Rightarrow> string \<times> tree \<Rightarrow> tree option \<Rightarrow> tree option mat" where
  "apply_node H D rel x d =
     (if is_overlay_whiteout (snd x) then Inr None
      else if is_dir (snd x) then
        rbind (open_dir H D (rel @ [fst x]) (snd x) d) (\<lambda>d.
        rbind (of_io (copy_metadata_without_overlay_xattrs H (\<lambda>p. p) (meta_of (snd x)) (fst d))) (\<lambda>dm.
        rbind (apply_layer H D (rel @ [fst x]) (snd x) (snd d)) (\<lambda>des.
        rbind (of_io (copy_metadata_without_overlay_xattrs H (\<lambda>p. p) (meta_of (snd x)) dm)) (\<lambda>dm.
          Inr (Some (Dir dm des))))))
      else of_io (copy_leaf H (snd x)))"

lemma apply_layer_nodes:
  "apply_layer H D rel (Dir m es) dst =
     rfold (\<lambda>x dst. rbind (apply_node H D rel x (map_of dst (fst x))) (\<lambda>c. Inr (put_entry (fst x) c dst))) (in_order es) dst"
  by (simp add: apply_node_def)

lemma map_of_put_entry: "map_of (put_entry n c es) = (map_of es)(n := c)"
  by (cases c) (simp_all add: put_entry_def update_conv' delete_conv')

text \<open>Each step changes the entry of its own name only.\<close>

lemma rfold_keyed:
  assumes "distinct (map fst xs)"
    and "rfold (\<lambda>x d. rbind (g x (map_of d (fst x))) (\<lambda>c. Inr (put_entry (fst x) c d))) xs d = Inr d'"
  shows "case map_of xs n of None \<Rightarrow> map_of d' n = map_of d n | Some c \<Rightarrow> g (n, c) (map_of d n) = Inr (map_of d' n)"
  using assms
proof (induction xs arbitrary: d)
  case (Cons x xs)
  then obtain c where c: "g x (map_of d (fst x)) = Inr c"
    and rest: "rfold (\<lambda>x d. rbind (g x (map_of d (fst x))) (\<lambda>c. Inr (put_entry (fst x) c d))) xs (put_entry (fst x) c d) = Inr d'"
    by auto
  have IH: "case map_of xs n of None \<Rightarrow> map_of d' n = map_of (put_entry (fst x) c d) n
    | Some e \<Rightarrow> g (n, e) (map_of (put_entry (fst x) c d) n) = Inr (map_of d' n)"
    using Cons.IH rest Cons.prems(1) by simp
  have absent: "map_of xs (fst x) = None"
    using Cons.prems(1) by (simp add: map_of_eq_None_iff)
  show ?case
  proof (cases "n = fst x")
    case True
    with IH absent c show ?thesis by (cases x) (simp add: map_of_put_entry)
  next
    case False
    with IH show ?thesis by (cases x; cases "map_of xs n") (simp_all add: map_of_put_entry)
  qed
qed simp

text \<open>A node as the flattened tree keeps it: its type, content, target and numbers; no sockets.\<close>

definition content :: "tree \<Rightarrow> tree" where
  "content t = with_meta \<lparr>perm = 0, uid = 0, gid = 0, xattrs = []\<rparr> (bare t)"

definition shown :: "tree \<Rightarrow> tree option" where
  "shown s = (if is_socket s then None else Some (content s))"

definition represents :: "(string \<times> tree) list \<Rightarrow> tree list \<Rightarrow> bool" where
  "represents es ts \<longleftrightarrow>
     (\<forall>n q. map_option content (and_then (map_of es n) (\<lambda>c. lookup c q)) = and_then (merged ts (n # q)) shown)"

lemma content_simps [simp]:
  "is_dir (content t) = is_dir t" "is_symlink (content t) = is_symlink t" "is_socket (content t) = is_socket t"
  "content (with_meta m t) = content t"
  by (simp_all add: content_def)

lemma content_dir: "content (Dir m es) = content (Dir m' es')"
  by (simp add: content_def)

lemma copy_leaf_content: "copy_leaf H c = Ok o' \<Longrightarrow> \<not> is_dir c \<Longrightarrow> map_option content o' = shown c"
  by (cases c) (auto simp: shown_def content_def)

lemma copy_leaf_not_dir: "copy_leaf H c = Ok (Some t) \<Longrightarrow> \<not> is_dir t"
  by (cases c) auto

lemma whiteout_not_dir: "is_overlay_whiteout c \<Longrightarrow> \<not> is_dir c"
  by (cases c) (simp_all add: is_overlay_whiteout_def)

lemma content_of_readonly:
  "map_option bare a = map_option readonly_of b \<Longrightarrow> map_option content a = map_option content b"
proof -
  have "content (bare t) = content t" "content (readonly_of t) = content t" for t
    by (simp_all add: content_def readonly_of_def)
  then have "map_option content x = map_option content (map_option bare x)"
    "map_option content x = map_option content (map_option readonly_of x)" for x
    by (cases x; simp)+
  then show "map_option bare a = map_option readonly_of b \<Longrightarrow> map_option content a = map_option content b" by metis
qed

text \<open>The directory a layer's directory is merged with.\<close>

lemma open_dir_represents:
  assumes "represents dst ts" "open_dir H D rel s (map_of dst n) = Inr (dm, des)" "is_overlay_opaque_dir s = ovl_opaque s"
  shows "represents des (if ovl_opaque s then [] else merge_below (filter_map (child_of n) ts))"
proof (cases "ovl_opaque s")
  case True
  with assms(2,3) have "des = []" by (auto simp: open_dir_def split: option.splits tree.splits if_splits)
  with True show ?thesis by (simp add: represents_def)
next
  case False
  let ?cs = "filter_map (child_of n) ts"
  have at: "map_option content (map_of dst n) = and_then (first_node ?cs) shown"
    using assms(1) [unfolded represents_def, rule_format, of n "[]"]
    by (cases "map_of dst n") (simp_all only: merged_step merged_head, simp_all)
  from assms(2,3) False consider "map_of dst n = None" "des = []" | "map_of dst n = Some (Dir dm des)"
    by (auto simp: open_dir_def split: option.splits tree.splits if_splits)
  then show ?thesis
  proof cases
    case 1
    with at have "and_then (first_node ?cs) shown = None" by simp
    then have "merge_below ?cs = []"
      by (cases ?cs) (auto simp: first_node_def shown_def split: if_splits, (metis is_dir.simps is_socket.elims(2))+)
    with 1 False show ?thesis by (simp add: represents_def)
  next
    case 2
    with at obtain c where c: "first_node ?cs = Some c" "is_dir c"
      by (auto simp: shown_def split: if_splits dest!: sym [of "Some _"]) (metis content_simps(1) is_dir.simps(1))
    then have vis: "visible ?cs = merge_below ?cs"
      by (cases ?cs) (auto simp: first_node_def split: if_splits)
    have "map_option content (and_then (map_of des n') (\<lambda>c. lookup c q)) = and_then (merged (merge_below ?cs) (n' # q)) shown" for n' q
    proof -
      have "map_option content (lookup (Dir dm des) (n' # q)) = and_then (merged ts (n # n' # q)) shown"
        using assms(1) [unfolded represents_def, rule_format, of n "n' # q"] 2 by simp
      moreover have "lookup (Dir dm des) (n' # q) = and_then (map_of des n') (\<lambda>c. lookup c q)"
        by (cases "map_of des n'") simp_all
      ultimately show ?thesis by (simp only: merged_step [of ts n] vis)
    qed
    with False show ?thesis by (simp add: represents_def)
  qed
qed

lemma apply_layer_represents:
  "wf_tree s \<Longrightarrow> conventional s \<Longrightarrow> represents dst ts \<Longrightarrow> apply_layer H D rel s dst = Inr es' \<Longrightarrow> represents es' (s # ts)"
proof (induction "size s" arbitrary: s rel dst ts es' rule: less_induct)
  case less
  from less.prems(4) obtain m es where s: "s = Dir m es" by (cases s) auto
  from less.prems(1) s have d: "distinct (map fst (in_order es))" by simp
  have step: "case map_of es n of None \<Rightarrow> map_of es' n = map_of dst n
      | Some c \<Rightarrow> apply_node H D rel (n, c) (map_of dst n) = Inr (map_of es' n)" for n
    using rfold_keyed [OF d less.prems(4) [unfolded s apply_layer_nodes], of n] less.prems(1) s by simp
  have "map_option content (and_then (map_of es' n) (\<lambda>c. lookup c q)) = and_then (merged (s # ts) (n # q)) shown" for n q
  proof (cases "map_of es n")
    case None
    with step [of n] have "map_of es' n = map_of dst n" by simp
    with less.prems(3) [unfolded represents_def, rule_format, of n q] None show ?thesis
      unfolding s merged_over by simp
  next
    case (Some c)
    with step [of n] have node: "apply_node H D rel (n, c) (map_of dst n) = Inr (map_of es' n)" by simp
    have conv: "conventional c" by (rule conventional_child [OF less.prems(2), of n]) (simp add: s Some)
    note w = whiteout_agrees [OF conv]
    let ?ts = "if ovl_opaque c then [] else merge_below (filter_map (child_of n) ts)"
    consider "ovl_whiteout c" | "\<not> ovl_whiteout c" "\<not> is_dir c" | "\<not> ovl_whiteout c" "is_dir c" by blast
    then show ?thesis
    proof cases
      case 1
      with node have "map_of es' n = None" by (simp add: apply_node_def w)
      with 1 Some show ?thesis unfolding s merged_over by simp
    next
      case 2
      with node have leaf: "copy_leaf H c = Ok (map_of es' n)" by (simp add: apply_node_def w)
      have "map_option content (and_then (map_of es' n) (\<lambda>c. lookup c q)) = (if q = [] then shown c else None)"
        using copy_leaf_content [OF leaf 2(2)] copy_leaf_not_dir [of H c] leaf
        by (cases "map_of es' n") (auto simp: lookup_not_dir)
      with 2 Some show ?thesis unfolding s merged_over by (simp add: merged_leaf)
    next
      case 3
      from node 3 obtain dm des dm' dm'' des' where
        open_d: "open_dir H D (rel @ [n]) c (map_of dst n) = Inr (dm, des)" and
        rec: "apply_layer H D (rel @ [n]) c des = Inr des'" and es'n: "Some (Dir dm'' des') = map_of es' n"
        by (auto simp: apply_node_def w)
      note es'n = es'n [symmetric]
      have c_in: "(n, c) \<in> set es" using Some by (rule map_of_SomeD)
      then have smaller: "size c < size s" unfolding s using size_entry by fastforce
      have wf: "wf_tree c" using less.prems(1) c_in s by auto
      have rep: "represents des' (c # ?ts)"
        using less.hyps [OF smaller wf conv _ rec] open_dir_represents [OF less.prems(3) open_d opaque_agrees [OF conv 3(2)]] by blast
      then have deep: "map_option content (lookup (Dir dm'' des') (n' # q')) = and_then (merged (c # ?ts) (n' # q')) shown" for n' q'
        using rep [unfolded represents_def, rule_format, of n' q']
        by (cases "map_of des' n'") (simp_all only: lookup.simps entries_of.simps option.case and_then.simps)
      have "map_option content (lookup (Dir dm'' des') q) = and_then (merged (c # ?ts) q) shown"
      proof (cases q)
        case Nil
        from 3(2) obtain mc ec where "c = Dir mc ec" by (cases c) simp_all
        with Nil show ?thesis by (simp add: shown_def content_def)
      qed (use deep in simp)
      with 3 Some es'n show ?thesis unfolding s merged_over by simp
    qed
  qed
  then show ?case unfolding represents_def by blast
qed

text \<open>Taking the write permissions away keeps the contents, on any host where it succeeds.\<close>

lemma readonly_entries:
  "rcollect (\<lambda>x. rbind (g (snd x)) (\<lambda>c. Ok (fst x, c))) xs = Ok ys \<Longrightarrow>
     (case map_of xs n of None \<Rightarrow> map_of ys n = None | Some c \<Rightarrow> \<exists>c'. g c = Ok c' \<and> map_of ys n = Some c')"
  by (induction xs arbitrary: ys) (auto split: option.splits)

lemma readonly_meta_keeps: "readonly_meta H t c = Ok c' \<Longrightarrow> content c' = content c \<and> entries_of c' = entries_of c"
  by (cases c) (auto simp: readonly_meta_def chmod_def os_result_def content_def split: option.splits if_splits)

lemma readonly_tree_contents:
  "make_tree_readonly H t = Ok t' \<Longrightarrow> map_option content (lookup t' p) = map_option content (lookup t p)"
proof (induction p arbitrary: t t')
  case Nil
  then obtain m es where t: "t = Dir m es" by (cases t) auto
  from Nil obtain es' where "readonly_meta H (Dir m es') (Dir m es') = Ok t'"
    by (auto simp: t make_tree_readonly_entries simp del: make_tree_readonly.simps)
  from readonly_meta_keeps [OF this] show ?case by (simp add: t content_dir [of m es' m es])
next
  case (Cons n p)
  then obtain m es where t: "t = Dir m es" by (cases t) auto
  from Cons.prems obtain es' where es': "rcollect (\<lambda>x. rbind (readonly_entry H (snd x)) (\<lambda>c. Ok (fst x, c))) (in_order es) = Ok es'"
    "readonly_meta H (Dir m es') (Dir m es') = Ok t'"
    by (auto simp: t make_tree_readonly_entries simp del: make_tree_readonly.simps)
  have t': "entries_of t' = es'" using readonly_meta_keeps [OF es'(2)] by simp
  note at = readonly_entries [OF es'(1), of n]
  show ?case
  proof (cases "map_of (in_order es) n")
    case (Some c)
    with at obtain c' where c': "readonly_entry H c = Ok c'" "map_of es' n = Some c'" by auto
    have "map_option content (lookup c' p) = map_option content (lookup c p)"
    proof (cases "is_dir c")
      case True
      then have "\<not> is_symlink c" by (cases c) simp_all
      with True c'(1) obtain d where "make_tree_readonly H c = Ok d" "readonly_meta H c d = Ok c'"
        by (auto simp: readonly_entry_def simp del: make_tree_readonly.simps)
      then have c': "map_option content (lookup d p) = map_option content (lookup c p)"
        "content c' = content d" "entries_of c' = entries_of d"
        using Cons.IH readonly_meta_keeps by blast+
      then show ?thesis by (cases p) simp_all
    next
      case False
      with c'(1) have "content c' = content c" using readonly_meta_keeps
        by (auto simp: readonly_entry_def split: if_splits)
      moreover have "\<not> is_dir c'" using False \<open>content c' = content c\<close> by (metis content_simps(1))
      ultimately show ?thesis using False by (cases "p = []") (simp_all add: lookup_not_dir)
    qed
    with c'(2) Some show ?thesis by (simp add: t t')
  qed (use at in \<open>simp add: t t'\<close>)
qed

lemma materialized_is_merged:
  assumes "\<forall>t \<in> set lowers. wf_tree t \<and> conventional t"
    and "materialize_lowerdirs H D dst False lowers = Inr t" "p \<noteq> []"
  shows "map_option content (lookup t p) = and_then (merged lowers p) shown"
proof -
  obtain es where es: "rfold (apply_layer H D []) (rev lowers) [] = Inr es"
    and t: "make_tree_readonly H (Dir (fresh H 0x1FF) es) = Ok t"
    using assms(2) by (auto simp: materialize_lowerdirs_def simp del: make_tree_readonly.simps)
  have "represents es' (rev ls @ ts)"
    if "\<forall>t \<in> set ls. wf_tree t \<and> conventional t" "represents ds ts" "rfold (apply_layer H D []) ls ds = Inr es'" for ls ts ds es'
    using that
  proof (induction ls arbitrary: ds ts)
    case (Cons l ls)
    then obtain ds' where "apply_layer H D [] l ds = Inr ds'" "rfold (apply_layer H D []) ls ds' = Inr es'" by auto
    with Cons show ?case using apply_layer_represents by fastforce
  qed simp
  from this [of "rev lowers" "[]" "[]" es] es assms(1) have rep: "represents es lowers"
    by (simp add: represents_def)
  obtain n q where p: "p = n # q" using assms(3) by (cases p) simp_all
  have "map_option content (lookup t p) = map_option content (lookup (Dir (fresh H 0x1FF) es) p)"
    by (rule readonly_tree_contents [OF t])
  also have "\<dots> = and_then (merged lowers p) shown"
    using rep [unfolded represents_def, rule_format, of n q] unfolding p
    by (cases "map_of es n") (simp_all only: lookup.simps entries_of.simps option.case and_then.simps)
  finally show ?thesis .
qed


lemma copy_without_overlay_privileged:
  "privileged H \<Longrightarrow> wf_meta src \<Longrightarrow> xattrs m = [] \<Longrightarrow> \<exists>m'. copy_xattrs_without_overlay H src m = Ok m'"
  unfolding copy_xattrs_without_overlay_def
  by (subst set_xattrs_privileged)
    (simp_all add: list_xattrs_def wf_meta_def distinct_filter)

lemma copy_leaf_total:
  assumes "privileged H" "wf_meta (meta_of c)" "\<not> is_dir c" "\<not> is_socket c"
  shows "\<exists>t. copy_leaf H c = Ok (Some t) \<and> content t = content c"
proof -
  have "is_ok (copy_leaf H c)"
    using assms copy_without_overlay_privileged [OF assms(1,2)]
    by (cases c) (auto simp: is_ok_rbind copy_metadata_without_overlay_xattrs_def chmod_def copy_owner_privileged
        privileged_def fresh_def is_ok_iff)
  then obtain o' where o': "copy_leaf H c = Ok o'" by (auto simp: is_ok_iff)
  with copy_leaf_content [OF o' assms(3)] assms(4) show ?thesis by (auto simp: shown_def)
qed

text \<open>
  A layer's directory over a lower layer's file stops the export with an error, and over a lower layer's
  symbolic link to a directory it leaves the tree: the copy goes on in the directory the link leads to, which
  is emptied first when the layer's directory is opaque. In the merged view the directory simply replaces both.
\<close>

theorem materialize_directory_over_leaf:
  assumes "privileged H" "wf_meta (meta_of c)" "\<not> is_dir c" "\<not> is_socket c" "\<not> is_overlay_whiteout c"
  shows "materialize_lowerdirs H D dst False [Dir m [(d, Dir md fs)], Dir m' [(d, c)]] =
      (case c of
         Symlink _ l \<Rightarrow>
           if D [d] l then Inl (Leaves [d] l (is_overlay_opaque_dir (Dir md fs))) else Inl (Fails (IoError (OsError 17) []))
       | _ \<Rightarrow> Inl (Fails (IoError (OsError 17) []))) \<and>
    merged [Dir m [(d, Dir md fs)], Dir m' [(d, c)]] [d] = Some (Dir md fs)"
proof -
  obtain t where t: "copy_leaf H c = Ok (Some t)" "content t = content c"
    using copy_leaf_total [OF assms(1-4)] by blast
  have below: "apply_layer H D [] (Dir m' [(d, c)]) [] = Inr [(d, t)]"
    using assms(3,5) t(1) by (simp add: put_entry_def)
  have w: "\<not> is_overlay_whiteout (Dir md fs)" by (simp add: is_overlay_whiteout_def)
  have shape: "case c of Symlink _ l \<Rightarrow> (\<exists>mt. t = Symlink mt l) | _ \<Rightarrow> \<not> is_symlink t \<and> \<not> is_dir t"
    using t(2) assms(3) by (cases c; cases t) (simp_all add: content_def)
  have over: "apply_layer H D [] (Dir m [(d, Dir md fs)]) [(d, t)] =
      (case c of
         Symlink _ l \<Rightarrow>
           if D [d] l then Inl (Leaves [d] l (is_overlay_opaque_dir (Dir md fs))) else Inl (Fails (IoError (OsError 17) []))
       | _ \<Rightarrow> Inl (Fails (IoError (OsError 17) [])))"
    using shape w by (cases c; cases t) (auto simp: open_dir_def)
  have "materialize_lowerdirs H D dst False [Dir m [(d, Dir md fs)], Dir m' [(d, c)]] =
    rbind (apply_layer H D [] (Dir m [(d, Dir md fs)]) [(d, t)]) (\<lambda>es. of_io (make_tree_readonly H (Dir (fresh H 0x1FF) es)))"
    unfolding materialize_lowerdirs_def
    by (cases "apply_layer H D [] (Dir m [(d, Dir md fs)]) [(d, t)]")
      (simp_all add: below del: apply_layer.simps make_tree_readonly.simps)
  then show ?thesis
    unfolding over using w by (auto simp: child_of_def split: tree.split)
qed

theorem materialize_directory_over_leaf_witness:
  "materialize_lowerdirs linux_host (\<lambda>_ _. True) ''/tmp/x'' False
     [Dir (plain_meta 0x1ED) [(''lib'', Dir (sample_overlay_meta ''y'') [])], Dir (plain_meta 0x1ED) [(''lib'', Symlink (plain_meta 0x1FF) ''/usr/lib'')]] =
   Inl (Leaves [''lib''] ''/usr/lib'' True) \<and>
   materialize_lowerdirs linux_host (\<lambda>_ _. True) ''/tmp/x'' False
     [Dir (plain_meta 0x1ED) [(''f'', Dir (sample_overlay_meta ''y'') [])], Dir (plain_meta 0x1ED) [(''f'', File (plain_meta 0x1A4) [1])]] =
   Inl (Fails (IoError (OsError 17) []))"
proof -
  have o': "is_overlay_opaque_dir (Dir (sample_overlay_meta ''y'') [])"
    by (simp add: is_overlay_opaque_dir_def lgetxattr_value_def sample_overlay_meta_def)
  have wf: "wf_meta (plain_meta 0x1FF)" "wf_meta (plain_meta 0x1A4)" by (simp_all add: wf_meta_def plain_meta_def)
  have w: "\<not> is_overlay_whiteout (Symlink (plain_meta 0x1FF) ''/usr/lib'')" "\<not> is_overlay_whiteout (File (plain_meta 0x1A4) [1])"
    by (simp_all add: is_overlay_whiteout_def)
  show ?thesis
    using materialize_directory_over_leaf [where D = "\<lambda>_ _. True", OF linux_privileged _ _ _ w(1), THEN conjunct1]
      materialize_directory_over_leaf [where D = "\<lambda>_ _. True", OF linux_privileged _ _ _ w(2), THEN conjunct1]
    by (simp only: tree.case meta_of.simps is_dir.simps is_socket.simps simp_thms wf o' if_True)
qed


end
