(* ===== verification/Rollout_Props.thy ===== *)
theory Rollout_Props
  imports Rollout_Cmds Materialize
begin

text \<open>
  What the rollout commands guarantee: a failed restore or fork leaves nothing behind, a successful one gives a
  stopped container with the same lower layers and a copy of the upper one, live containers are refused, and a
  reset makes older markers useless.
\<close>

section \<open>Paths of a container directory\<close>

lemma names_below:
  assumes "is_absolute (fe_cwd E)"
  shows "names E (path_join root ''overlay/upper'') = names E root @ [''overlay'', ''upper'']"
    "names E (path_join root ''overlay/work'') = names E root @ [''overlay'', ''work'']"
    "names E (path_join root ''overlay/merged'') = names E root @ [''overlay'', ''merged'']"
    "names E (path_join root ''overlay.json'') = names E root @ [''overlay.json'']"
    "names E (path_join root ''state.json'') = names E root @ [''state.json'']"
    "names E (path_join root ''upper'') = names E root @ [''upper'']"
    "names E (path_join root ''layer'') = names E root @ [''layer'']"
    "names E (path_join root ''meta.json'') = names E root @ [''meta.json'']"
    "names E (path_join root ''.snapshots'') = names E root @ [''.snapshots'']"
    "names E (path_join root ''.checkpoints'') = names E root @ [''.checkpoints'']"
  by (subst names_join [OF _ _ _ assms]; simp add: path_eval)+

lemma validate_name_ok: "validate_state_name n label = Ok () \<longleftrightarrow> name_ok n"
  by (auto simp: validate_state_name_def name_ok_def)

section \<open>A failed restore or fork\<close>

lemma keeps_fresh_overlay:
  assumes "is_absolute (fe_cwd E)"
  shows "keeps (inside (names E root) s0) (attach_overlay E cid root (fresh_overlay root lowers) n bundle)"
  unfolding attach_overlay_def mount_overlay_def write_overlay_state_def write_state_file_def fresh_overlay_def
  by (simp, intro io_rules) (simp_all add: names_below [OF assms])

lemma ensure_inside:
  assumes "names E root = R @ [cid]" "has_dir R s"
  shows "ensure E root s = (s', Inr ()) \<Longrightarrow> inside (names E root) s s'"
    and "ensure E root s = (s', Inl e) \<Longrightarrow> s' = s"
proof -
  from assms(2) obtain m es where R: "lookup (fs_tree s) R = Some (Dir m es)" by (auto simp: has_dir_def)
  show "ensure E root s = (s', Inl e) \<Longrightarrow> s' = s"
    by (auto simp: ensure_def create_dir_all_def io_bind_Inl_iff call_def edit_def split: sum.splits option.splits)
  assume "ensure E root s = (s', Inr ())"
  then obtain t' where t': "make_dirs (new_dir E) (R @ cid # []) (fs_tree s) = Ok t'" "s' = s\<lparr>fs_tree := t'\<rparr>"
    by (auto simp: ensure_def create_dir_all_def io_bind_Inr_iff call_def edit_def assms(1) split: sum.splits option.splits)
  from make_dirs_frame [OF t'(1) R] make_dirs_dir [OF t'(1)] show "inside (names E root) s s'"
    by (simp add: inside_def has_dir_def t'(2) assms(1))
qed

definition removed :: "string list \<Rightarrow> fsys \<Rightarrow> fsys \<Rightarrow> bool" where
  "removed C s0 s \<longleftrightarrow> lookup (fs_tree s) C = None \<and> only_below C (fs_tree s0) (fs_tree s) \<and> fs_store s = fs_store s0"

lemma destroy_removes:
  assumes "inside C s0 s" "names E root = C" "C \<noteq> []" "fe_fails E (Remove_All root) = None" "\<not> busy E root s"
  shows "removed C s0 (fst (destroy E root s)) \<and> fs_mounts (fst (destroy E root s)) = fs_mounts s"
proof -
  from assms(1) obtain m es where C: "lookup (fs_tree s) C = Some (Dir m es)" by (auto simp: inside_def has_dir_def)
  from drop_node_ok [OF assms(3) C] obtain t' where t': "drop_node C (fs_tree s) = Ok t'" by (auto simp: is_ok_iff)
  have "fst (destroy E root s) = s\<lparr>fs_tree := t'\<rparr>"
    by (simp add: destroy_def remove_quiet [OF assms(4,5)] io_try_def io_bind_def assms(2) edit_def t')
  with drop_node_gone [OF t', of "[]"] drop_node_frame [OF t'] assms(1) show ?thesis
    by (auto simp: removed_def inside_def intro: only_below_trans)
qed

lemma unmount_inside: "keeps (inside C s0) (unmount_overlay E ov)"
  unfolding unmount_overlay_def
  by (intro keeps_bind keeps_try inside_umount) (auto split: sum.splits intro!: keeps_ok keeps_of keeps_if)

text \<open>The mounts before the overlay of the new container is mounted, and afterwards.\<close>

definition mounted_once :: "string list \<Rightarrow> fsys \<Rightarrow> string \<Rightarrow> fsys \<Rightarrow> bool" where
  "mounted_once C s0 dir s \<longleftrightarrow> inside C s0 s \<and>
     (fs_mounts s = fs_mounts s0 \<or> (\<exists>data. fs_mounts s = (dir, data) # fs_mounts s0))"

definition unmounted :: "string list \<Rightarrow> fsys \<Rightarrow> fsys \<Rightarrow> bool" where
  "unmounted C s0 s \<longleftrightarrow> inside C s0 s \<and> fs_mounts s = fs_mounts s0"

lemma unmounted_rules:
  "keeps (inside C s0) m \<Longrightarrow> keeps (\<lambda>s. fs_mounts s = fs_mounts s0) m \<Longrightarrow> keeps (unmounted C s0) m"
  "keeps (inside C s0) m \<Longrightarrow> (\<And>M. keeps (\<lambda>s. fs_mounts s = M) m) \<Longrightarrow> keeps (mounted_once C s0 dir) m"
proof -
  assume i: "keeps (inside C s0) m"
  show "keeps (\<lambda>s. fs_mounts s = fs_mounts s0) m \<Longrightarrow> keeps (unmounted C s0) m"
    by (rule tripleI) (auto simp: unmounted_def dest: triple_Inr [OF i] triple_Inl [OF i] dest: triple_Inr triple_Inl)
  assume M: "\<And>M. keeps (\<lambda>s. fs_mounts s = M) m"
  show "keeps (mounted_once C s0 dir) m"
  proof (rule tripleI)
    fix s s' a assume "mounted_once C s0 dir s" "m s = (s', Inr a)"
    with triple_Inr [OF i] triple_Inr [OF M refl] show "mounted_once C s0 dir s'"
      unfolding mounted_once_def by metis
  next
    fix s s' e assume "mounted_once C s0 dir s" "m s = (s', Inl e)"
    with triple_Inl [OF i] triple_Inl [OF M refl] show "mounted_once C s0 dir s'"
      unfolding mounted_once_def by metis
  qed
qed

lemma mounts_edit: "keeps (\<lambda>s. fs_mounts s = M) (edit f)"
  by (rule tripleI) (auto simp: edit_def split: sum.splits)

lemma mounts_create: "keeps (\<lambda>s. fs_mounts s = M) (create_dir_all E p)"
  unfolding create_dir_all_def by (intro keeps_bind keeps_call mounts_edit)

lemma mounts_write: "keeps (\<lambda>s. fs_mounts s = M) (write_file E p text)"
  by (rule keeps_write) (simp add: put_text_def mounts_edit)

lemma mounts_clone: "keeps (\<lambda>s. fs_mounts s = M) (clone_dir E src dst)"
  unfolding clone_dir_def Let_def
  by (intro keeps_bind keeps_get keeps_if keeps_of mounts_create)
    (auto split: sum.splits intro!: keeps_bind keeps_try keeps_of mounts_edit)

lemma unmounted_once: "unmounted C s0 s \<Longrightarrow> mounted_once C s0 dir s"
  by (simp add: unmounted_def mounted_once_def)

lemma before_mount: "keeps (unmounted C s0) m \<Longrightarrow> (\<And>a. triple (unmounted C s0) (f a) (\<lambda>_. mounted_once C s0 dir) (\<lambda>_. mounted_once C s0 dir)) \<Longrightarrow>
    triple (unmounted C s0) (io_bind m f) (\<lambda>_. mounted_once C s0 dir) (\<lambda>_. mounted_once C s0 dir)"
  by (rule triple_bind [where Q = "\<lambda>_. unmounted C s0"], erule triple_weaken) (auto intro: unmounted_once)

lemma attach_mounts:
  assumes "is_absolute (fe_cwd E)"
  shows "triple (unmounted (names E root) s0) (attach_overlay E cid root (fresh_overlay root lowers) n bundle)
    (\<lambda>_. mounted_once (names E root) s0 (path_join root ''overlay/merged''))
    (\<lambda>_. mounted_once (names E root) s0 (path_join root ''overlay/merged''))"
proof -
  note nb = names_below [OF assms, of root]
  let ?I = "unmounted (names E root) s0" and ?J = "mounted_once (names E root) s0 (path_join root ''overlay/merged'')"
  have create: "keeps ?I (create_dir_all E p)" if "names E p = names E root @ x # r" for p x r
    by (rule unmounted_rules(1) [OF inside_create [OF that] mounts_create])
  have wr: "keeps ?J (write_file E p t)" if "names E p = names E root @ x # r" for p t x r
    by (rule unmounted_rules(2) [OF inside_write [OF that] mounts_write])
  have mount: "triple ?I (mount_at E (path_join root ''overlay/merged'') data) (\<lambda>_. ?J) (\<lambda>_. ?J)" for data
    by (rule tripleI) (auto simp: mount_at_def io_bind_def call_def unmounted_def mounted_once_def inside_def has_dir_def split: option.splits)
  show ?thesis
    unfolding attach_overlay_def mount_overlay_def write_overlay_state_def write_state_file_def fresh_overlay_def overlay.simps
    by (rule before_mount [OF create], rule nb, rule before_mount [OF create], rule nb, rule before_mount [OF keeps_read],
        rule triple_bind [OF mount], rule keeps_bind [OF wr], rule nb, rule wr, rule nb)
qed

text \<open>The undoing of a failed clone: the overlay is unmounted if it was mounted, and the directory removed.\<close>

lemma pop_absent: "dir \<notin> fst ` set ms \<Longrightarrow> pop_mount dir ms = None"
  by (induction ms) auto

lemma unmount_back:
  assumes J: "mounted_once (names E root) s0 (ov_merged ov) s1" and free: "\<not> busy E root s0"
    and "fe_fails E (Umount (ov_merged ov)) = None" and "names E (ov_merged ov) = names E root @ r"
  shows "\<exists>x. io_try (unmount_overlay E ov) s1 = (s1\<lparr>fs_mounts := fs_mounts s0\<rparr>, Inr x)"
proof -
  have "ov_merged ov \<notin> fst ` set (fs_mounts s0)"
    using free assms(4) by (force simp: busy_def)
  from pop_absent [OF this] have none: "pop_mount (ov_merged ov) (fs_mounts s0) = None" .
  from J consider "fs_mounts s1 = fs_mounts s0" | data where "fs_mounts s1 = (ov_merged ov, data) # fs_mounts s0"
    by (auto simp: mounted_once_def)
  then show ?thesis
  proof cases
    case 1
    moreover from this have "s1\<lparr>fs_mounts := fs_mounts s0\<rparr> = s1" by simp
    ultimately show ?thesis
      by (simp add: unmount_overlay_def umount2_def io_bind_def io_try_def call_def assms(3) none)
  next
    case 2
    then show ?thesis
      by (simp add: unmount_overlay_def umount2_def io_bind_def io_try_def call_def assms(3))
  qed
qed

lemma abandon_removes:
  assumes "mounted_once C s0 (ov_merged ov) s1" "names E root = C" "C \<noteq> []" "\<not> busy E root s0"
    and "fe_fails E (Remove_All root) = None" "fe_fails E (Umount (ov_merged ov)) = None"
    and "names E (ov_merged ov) = names E root @ r"
  shows "removed C s0 (fst (abandon E root ov s1)) \<and> fs_mounts (fst (abandon E root ov s1)) = fs_mounts s0"
proof -
  let ?s2 = "s1\<lparr>fs_mounts := fs_mounts s0\<rparr>"
  from unmount_back [OF assms(1) [folded assms(2)] assms(4,6,7)] obtain x where x: "io_try (unmount_overlay E ov) s1 = (?s2, Inr x)" by blast
  have "inside C s0 ?s2" using assms(1) by (simp add: mounted_once_def inside_def has_dir_def)
  moreover have "\<not> busy E root ?s2" using assms(4) by (simp add: busy_def)
  ultimately have "removed C s0 (fst (destroy E root ?s2)) \<and> fs_mounts (fst (destroy E root ?s2)) = fs_mounts ?s2"
    by (rule destroy_removes [OF _ assms(2,3,5)])
  then show ?thesis
    by (cases "destroy E root ?s2") (simp add: abandon_def io_bind_def x, simp add: io_try_def)
qed

lemma clone_container_fails:
  assumes abs: "is_absolute (fe_cwd E)" and C: "names E root = R @ [cid]" "has_dir R s" "lookup (fs_tree s) (R @ [cid]) = None"
    and calls: "fe_fails E (Remove_All root) = None" "fe_fails E (Umount (path_join root ''overlay/merged'')) = None" "\<not> busy E root s"
    and run: "clone_container E src nid root lowers n bundle s = (s', Inl e)"
  shows "removed (names E root) s s' \<and> fs_mounts s' = fs_mounts s"
proof (cases "ensure E root s")
  case (Pair s1 r)
  let ?ov = "fresh_overlay root lowers"
  show ?thesis
  proof (cases r)
    case (Inl e1)
    with Pair run have "s' = s1" by (simp add: clone_container_def io_bind_def)
    with ensure_inside(2) [OF C(1,2)] Pair Inl C(3) show ?thesis by (simp add: removed_def C(1))
  next
    case (Inr u)
    with Pair have e: "ensure E root s = (s1, Inr ())" by simp
    let ?m = "io_bind (io_read (measured E src)) (\<lambda>_. io_bind (clone_dir E src (ov_upper ?ov)) (\<lambda>_. attach_overlay E nid root ?ov n bundle))"
    have u1: "unmounted (names E root) s s1"
      using ensure_inside(1) [OF C(1,2) e] triple_Inr [OF mounts_create refl e [unfolded ensure_def]] by (simp add: unmounted_def)
    have "keeps (unmounted (names E root) s) (clone_dir E src (ov_upper ?ov))"
      by (rule unmounted_rules(1) [OF inside_clone mounts_clone]) (simp add: fresh_overlay_def names_below [OF abs])
    then have m: "triple (unmounted (names E root) s) ?m (\<lambda>_. mounted_once (names E root) s (path_join root ''overlay/merged''))
        (\<lambda>_. mounted_once (names E root) s (path_join root ''overlay/merged''))"
      by (intro before_mount keeps_read attach_mounts [OF abs])
    from run have "io_undo ?m (abandon E root ?ov) s1 = (s', Inl e)"
      by (simp add: clone_container_def io_bind_def [of "ensure E root"] e Let_def)
    then obtain s2 where s2: "?m s1 = (s2, Inl e)" "s' = fst (abandon E root ?ov s2)"
      by (auto simp: io_undo_def split: prod.splits sum.splits)
    have merged: "ov_merged ?ov = path_join root ''overlay/merged''" by (simp add: fresh_overlay_def)
    show ?thesis
      using abandon_removes [where ov = ?ov, unfolded merged, OF triple_Inl [OF m u1 s2(1)] refl _ calls(3,1,2) names_below(3) [OF abs]] s2(2)
      by (simp add: C(1))
  qed
qed

lemma removed_refl: "lookup (fs_tree s) C = None \<Longrightarrow> removed C s s"
  by (simp add: removed_def)

lemma refuse_existing_result:
  "refuse_existing E what p s = (s', r) \<Longrightarrow> s' = s \<and> (r = Inr () \<longrightarrow> \<not> path_exists E p s)"
  by (auto simp: refuse_existing_def split: if_splits)

lemma report_ok: "report E json kvs s = (s, Inr (if json then Some (jobj (fe_json E) kvs) else None))"
  by (simp add: report_def)

text \<open>A command that fails before or in the cloning of a container.\<close>

lemma failed_clone_command:
  assumes "is_absolute (fe_cwd E)" "has_dir (names E (fe_root E)) s"
    and "\<not> path_exists E (container_dir E new_id) s" "\<not> busy E (container_dir E new_id) s"
    and "fe_fails E (Remove_All (container_dir E new_id)) = None"
    and "fe_fails E (Umount (path_join (container_dir E new_id) ''overlay/merged'')) = None"
    and "s' = s \<or> (\<exists>src lowers n bd. name_ok new_id \<and> clone_container E src new_id (container_dir E new_id) lowers n bd s = (s', Inl e))"
  shows "\<not> path_exists E (container_dir E new_id) s' \<and>
    only_below (names E (container_dir E new_id)) (fs_tree s) (fs_tree s') \<and> fs_store s' = fs_store s \<and> fs_mounts s' = fs_mounts s"
proof -
  let ?root = "container_dir E new_id"
  have none: "lookup (fs_tree s) (names E ?root) = None" using assms(3) by (simp add: path_exists_def find_node_def)
  from assms(7) have "removed (names E ?root) s s' \<and> fs_mounts s' = fs_mounts s"
  proof (elim disjE exE conjE)
    fix src lowers n bd assume n: "name_ok new_id"
      and c: "clone_container E src new_id ?root lowers n bd s = (s', Inl e)"
    note names = names_container [OF n assms(1)]
    from clone_container_fails [OF assms(1) names assms(2) _ assms(5,6,4) c] none show ?thesis by (simp add: names)
  qed (simp add: none removed_refl)
  then show ?thesis by (simp add: removed_def path_exists_def find_node_def)
qed

text \<open>
  C37: When restoring a snapshot into a new container fails, at whatever call, nothing is left of it: its
  directory does not exist, no other part of the file system and nothing in the layer store has changed, and
  the mounts are those of before. The container's directory did not exist before and nothing was mounted in it
  (an existing container is refused and left alone), and the two calls of the clean-up itself must work: the
  unmounting of the new overlay and the removal of the directory.
\<close>

theorem failed_restore_leaves_nothing:
  assumes "is_absolute (fe_cwd E)" "has_dir (names E (fe_root E)) s"
    and "\<not> path_exists E (container_dir E new_id) s" "\<not> busy E (container_dir E new_id) s"
    and "fe_fails E (Remove_All (container_dir E new_id)) = None"
    and "fe_fails E (Umount (path_join (container_dir E new_id) ''overlay/merged'')) = None"
    and "cmd_restore E snapshot_id new_id json s = (s', Inl e)"
  shows "\<not> path_exists E (container_dir E new_id) s' \<and>
    only_below (names E (container_dir E new_id)) (fs_tree s) (fs_tree s') \<and> fs_store s' = fs_store s \<and> fs_mounts s' = fs_mounts s"
proof (rule failed_clone_command [OF assms(1-6)])
  show "s' = s \<or> (\<exists>src lowers n bd. name_ok new_id \<and> clone_container E src new_id (container_dir E new_id) lowers n bd s = (s', Inl e))"
    using assms(7) by (auto simp: cmd_restore_def restore_snapshot_into_def io_bind_Inl_iff Let_def report_ok validate_name_ok
        dest!: refuse_existing_result)
qed

text \<open>
  The same for a fork: a failed fork leaves no directory of the new container and changes nothing else.\<close>

theorem failed_fork_leaves_nothing:
  assumes "is_absolute (fe_cwd E)" "has_dir (names E (fe_root E)) s"
    and "\<not> path_exists E (container_dir E new_id) s" "\<not> busy E (container_dir E new_id) s"
    and "fe_fails E (Remove_All (container_dir E new_id)) = None"
    and "fe_fails E (Umount (path_join (container_dir E new_id) ''overlay/merged'')) = None"
    and "cmd_fork E cid new_id json s = (s', Inl e)"
  shows "\<not> path_exists E (container_dir E new_id) s' \<and>
    only_below (names E (container_dir E new_id)) (fs_tree s) (fs_tree s') \<and> fs_store s' = fs_store s \<and> fs_mounts s' = fs_mounts s"
proof (rule failed_clone_command [OF assms(1-6)])
  show "s' = s \<or> (\<exists>src lowers n bd. name_ok new_id \<and> clone_container E src new_id (container_dir E new_id) lowers n bd s = (s', Inl e))"
    using assms(7) by (auto simp: cmd_fork_def io_bind_Inl_iff Let_def report_ok validate_name_ok split: prod.splits
        dest!: refuse_existing_result)
qed

section \<open>Live containers\<close>

text \<open>
  Snapshot, fork and reset refuse a container whose init is alive, whatever its recorded status, with nothing
  changed.
\<close>

theorem live_container_refused:
  assumes "path_exists E (container_dir E cid) s"
    and "read_status_pid_comm (fe_json E) (fe_text E) (cdir_at E (container_dir E cid) s) = (status, pid, comm)"
    and "0 < pid" "fe_alive E pid comm"
  shows "(\<exists>e. cmd_snapshot E cid snapshot_id s = (s, Inl e)) \<and> (\<exists>e. cmd_fork E cid new_id json s = (s, Inl e)) \<and>
    (\<exists>e. cmd_reset E cid json s = (s, Inl e))"
proof -
  have refuse: "\<exists>e. ensure_stopped_for_fs_state E cid (container_dir E cid) action s = Inl e" for action
    using assms by (simp add: ensure_stopped_for_fs_state_def)
  have early: "\<exists>e. io_bind (io_of r) (\<lambda>_. io_bind (io_read (ensure_stopped_for_fs_state E cid (container_dir E cid) action)) f) s = (s, Inl e)"
    for r :: "unit io_result" and action and f :: "unit \<Rightarrow> (fsys, 'c) io"
    using refuse [of action] by (cases r) (auto simp: io_bind_def)
  have "\<exists>e. cmd_snapshot E cid snapshot_id s = (s, Inl e)" unfolding cmd_snapshot_def Let_def by (rule early)
  moreover have "\<exists>e. cmd_fork E cid new_id json s = (s, Inl e)" unfolding cmd_fork_def Let_def by (rule early)
  moreover have "\<exists>e. cmd_reset E cid json s = (s, Inl e)"
    using refuse [of "''reset''"] by (auto simp: cmd_reset_def Let_def io_bind_def)
  ultimately show ?thesis by blast
qed

section \<open>A successful clone\<close>

text \<open>A node the calls at other paths leave as it is.\<close>

definition holds :: "string list \<Rightarrow> tree \<Rightarrow> fsys \<Rightarrow> bool" where
  "holds P c s \<longleftrightarrow> lookup (fs_tree s) P = Some c"

lemma make_dirs_keeps:
  "make_dirs d p t = Ok t' \<Longrightarrow> lookup t q = Some c \<Longrightarrow> \<not> prefix q p \<Longrightarrow> lookup t' q = Some c"
proof (induction d p t arbitrary: q t' rule: make_dirs.induct)
  case (2 d n ns m es)
  then obtain b where b: "make_dirs d ns (unwrap_or (map_of es n) (Dir d [])) = Ok b" "t' = Dir m (AList.update n b es)"
    by auto
  from 2(4) obtain k r where q: "q = k # r" by (cases q) auto
  show ?case
  proof (cases "k = n")
    case True
    with 2(3) q obtain a where a: "map_of es n = Some a" "lookup a r = Some c" by (auto split: option.splits)
    with 2(1) [OF _ , of b r] b 2(4) q True show ?thesis by (simp add: update_conv')
  next
    case False
    with 2(3) b q show ?thesis by (simp add: update_conv')
  qed
qed (auto split: if_splits)

lemma edit_keeps_node:
  assumes "\<And>t t'. lookup t P = Some c \<Longrightarrow> f t = Ok t' \<Longrightarrow> lookup t' P = Some c"
  shows "keeps (holds P c) (edit f)"
  by (rule tripleI) (auto simp: holds_def edit_def split: sum.splits intro: assms)

lemma holds_create [io_rules]: "\<not> prefix P (names E p) \<Longrightarrow> keeps (holds P c) (create_dir_all E p)"
  unfolding create_dir_all_def by (intro keeps_bind keeps_call edit_keeps_node) (rule make_dirs_keeps)

lemma holds_write [io_rules]:
  "\<not> prefix P (names E p) \<Longrightarrow> \<not> prefix (names E p) P \<Longrightarrow> keeps (holds P c) (write_file E p text)"
  by (rule keeps_write, unfold put_text_def, rule edit_keeps_node) (auto dest!: put_node_frame simp: only_below_disjoint)

lemma holds_mount [io_rules]: "keeps (holds P c) (mount_at E dir data)"
  unfolding mount_at_def by (intro keeps_bind keeps_call) (simp add: triple_def holds_def)

lemma holds_umount [io_rules]: "keeps (holds P c) (umount2 E dir)"
  unfolding umount2_def by (intro keeps_bind keeps_call) (simp add: triple_def holds_def split: option.splits)

text \<open>What a successful clone puts at its destination.\<close>

lemma create_dir_all_Inr:
  "create_dir_all E p s = (s', Inr ()) \<longleftrightarrow>
   fe_fails E (Create_Dirs p) = None \<and> (\<exists>t. make_dirs (new_dir E) (names E p) (fs_tree s) = Ok t \<and> s' = s\<lparr>fs_tree := t\<rparr>)"
  by (auto simp: create_dir_all_def io_bind_Inr_iff call_Inr edit_Inr)

lemma clone_dir_Inr:
  assumes "clone_dir E src dst s = (s', Inr ())"
  obtains s1 t c where "\<not> path_exists E dst s" "create_dir_all E dst s = (s1, Inr ())" "find_node E src s1 = Some t"
    "clone_upperdir (fe_host E) dst False t = Ok c" "holds (names E dst) c s'"
    "fs_store s' = fs_store s1" "fs_mounts s' = fs_mounts s1"
proof -
  from assms have ne: "\<not> path_exists E dst s" by (auto simp: clone_dir_def split: if_splits)
  with assms obtain s1 where s1: "create_dir_all E dst s = (s1, Inr ())"
    by (auto simp: clone_dir_def io_bind_Inr_iff)
  let ?r = "case fe_fails E (Clone_Tree dst) of Some e \<Rightarrow> Inl e
    | None \<Rightarrow> rbind (ok_or (find_node E src s1) no_entry) (clone_upperdir (fe_host E) dst False)"
  show thesis
  proof (cases ?r)
    case (Inl e)
    with assms ne s1 show ?thesis by (auto simp: clone_dir_def io_bind_Inr_iff)
  next
    case (Inr c)
    then obtain t where t: "find_node E src s1 = Some t" "clone_upperdir (fe_host E) dst False t = Ok c"
      by (auto split: option.splits)
    from assms ne s1 Inr obtain t' where t': "put_node (names E dst) c (fs_tree s1) = Ok t'" "s' = s1\<lparr>fs_tree := t'\<rparr>"
      by (auto simp: clone_dir_def io_bind_Inr_iff edit_Inr)
    from put_node_at [OF t'(1)] t'(2) that [OF ne s1 t] show thesis by (simp add: holds_def)
  qed
qed

lemma write_file_holds:
  "write_file E p x s = (s', Inr ()) \<Longrightarrow> \<exists>c. holds (names E p) c s' \<and> file_text (Some c) = Some x"
  by (drule write_file_reads) (cases "find_node E p s'"; simp add: read_file_def find_node_def holds_def file_text_def)

lemma attach_overlay_result:
  assumes abs: "is_absolute (fe_cwd E)"
    and run: "attach_overlay E cid root (fresh_overlay root lowers) n bd s = (s', Inr ())" and i: "inside (names E root) s0 s"
  obtains sv where "inside (names E root) s0 sv" "validate_overlay_paths E root (fresh_overlay root lowers) sv = Ok ()"
    "read_file E (path_join root ''overlay.json'') s' = Ok (jt_print (fe_text E) (overlay_json (fe_json E) (fresh_overlay root lowers) n))"
    "read_file E (path_join root ''state.json'') s' = Ok (state_text (fe_text E) cid 0 bd ''stopped'' None)"
    "fs_mounts s' = (path_join root ''overlay/merged'', overlay_data (fresh_overlay root lowers)) # fs_mounts s"
proof -
  let ?ov = "fresh_overlay root lowers" and ?C = "names E root"
  note nb = names_below [OF abs, of root]
  from run obtain s1 s2 s3 s4 where
      s1: "create_dir_all E (path_join root ''overlay/work'') s = (s1, Inr ())"
    and s2: "create_dir_all E (path_join root ''overlay/merged'') s1 = (s2, Inr ())"
    and v: "validate_overlay_paths E root ?ov s2 = Ok ()"
    and s3: "mount_at E (path_join root ''overlay/merged'') (overlay_data ?ov) s2 = (s3, Inr ())"
    and s4: "write_overlay_state E root ?ov n s3 = (s4, Inr ())"
    and s5: "write_state_file E root cid 0 bd ''stopped'' None s4 = (s', Inr ())"
    by (auto simp: attach_overlay_def io_bind_Inr_iff mount_overlay_def fresh_overlay_def)
  have in2: "inside ?C s0 s2"
    using triple_Inr [OF inside_create triple_Inr [OF inside_create i s1] s2] by (simp add: nb)
  have m2: "fs_mounts s2 = fs_mounts s" by (rule triple_Inr [OF mounts_create triple_Inr [OF mounts_create refl s1] s2])
  from s3 have m3: "fs_mounts s3 = (path_join root ''overlay/merged'', overlay_data ?ov) # fs_mounts s2"
    by (auto simp: mount_at_def io_bind_Inr_iff call_Inr)
  have m5: "fs_mounts s' = fs_mounts s3"
    by (rule triple_Inr [OF mounts_write triple_Inr [OF mounts_write refl s4 [unfolded write_overlay_state_def]] s5 [unfolded write_state_file_def]])
  from write_file_holds [OF s4 [unfolded write_overlay_state_def]] obtain c where c: "holds (?C @ [''overlay.json'']) c s4"
    "file_text (Some c) = Some (jt_print (fe_text E) (overlay_json (fe_json E) ?ov n))" by (auto simp: nb)
  have "holds (?C @ [''overlay.json'']) c s'"
    using triple_Inr [OF holds_write c(1) s5 [unfolded write_state_file_def]] by (simp add: nb)
  then have "read_file E (path_join root ''overlay.json'') s' = Ok (jt_print (fe_text E) (overlay_json (fe_json E) ?ov n))"
    using c(2) by (simp add: read_file_def find_node_def holds_def nb)
  with that [OF in2 v] write_file_reads [OF s5 [unfolded write_state_file_def]] m2 m3 m5 show thesis by simp
qed

text \<open>The lower directories of a chain are not in the directory \<open>C\<close>: changes there do not reach them.\<close>

definition apart :: "'v fs_env \<Rightarrow> string list \<Rightarrow> fsys \<Rightarrow> string list \<Rightarrow> bool" where
  "apart E C s ls \<longleftrightarrow> (\<forall>t l. inside C s t \<longrightarrow> l \<in> set ls \<longrightarrow> fe_walk E t l = fe_walk E s l)"

lemma apart_validate:
  "apart E C s (ov_lowers ov) \<Longrightarrow> inside C s t \<Longrightarrow> inside C s u \<Longrightarrow>
   validate_overlay_paths E root ov t = validate_overlay_paths E root ov u"
  by (rule validate_cong_walk) (simp add: apart_def)

lemma read_json_file: "read_file E p s = Ok text \<Longrightarrow> jt_parse (fe_text E) text = Some v \<Longrightarrow> read_json E p s = Ok v"
  by (simp add: read_json_def)

lemma io_undo_Inr: "io_undo m h s = (s', Inr a) \<longleftrightarrow> m s = (s', Inr a)"
  by (auto simp: io_undo_def split: prod.splits sum.splits)

lemma cloned_container:
  assumes abs: "is_absolute (fe_cwd E)" and laws: "json_file (fe_json E) (fe_text E)"
    and C: "names E root = R @ [cid]" "has_dir R s" and lows: "apart E (names E root) s lowers"
    and src: "\<not> prefix (names E root) (names E src)" "\<not> prefix (names E src) (names E root)"
    and run: "clone_container E src nid root lowers n bd s = (s', Inr ())"
  obtains t c where "find_node E src s = Some t" "clone_upperdir (fe_host E) (path_join root ''overlay/upper'') False t = Ok c"
    "find_node E (path_join root ''overlay/upper'') s' = Some c"
    "read_overlay_state E root s' = Ok (fresh_overlay root lowers, n)"
    "read_file E (path_join root ''state.json'') s' = Ok (state_text (fe_text E) nid 0 bd ''stopped'' None)"
    "inside (names E root) s s'"
proof -
  let ?ov = "fresh_overlay root lowers" and ?C = "names E root" and ?up = "path_join root ''overlay/upper''"
  note nb = names_below [OF abs, of root]
  from run obtain s1 s2 where s1: "ensure E root s = (s1, Inr ())"
    and s2: "clone_dir E src ?up s1 = (s2, Inr ())"
    and s3: "attach_overlay E nid root ?ov n bd s2 = (s', Inr ())"
    by (auto simp: clone_container_def io_bind_Inr_iff io_undo_Inr fresh_overlay_def Let_def)
  have in1: "inside ?C s s1" by (rule ensure_inside(1) [OF C s1])
  have in2: "inside ?C s s2" using triple_Inr [OF inside_clone in1 s2] by (simp add: nb)
  obtain sb t c where sb: "create_dir_all E ?up s1 = (sb, Inr ())" "find_node E src sb = Some t"
    "clone_upperdir (fe_host E) ?up False t = Ok c" "holds (names E ?up) c s2"
    using clone_dir_Inr [OF s2] by metis
  have "inside ?C s sb" using triple_Inr [OF inside_create in1 sb(1)] by (simp add: nb)
  then have "only_below ?C (fs_tree s) (fs_tree sb)" by (simp add: inside_def)
  from only_below_disjoint [OF this src] have t: "find_node E src s = Some t"
    using sb(2) by (simp add: find_node_def)
  have kept: "keeps (holds (?C @ [''overlay'', ''upper'']) c) (attach_overlay E nid root ?ov n bd)"
    unfolding attach_overlay_def mount_overlay_def write_overlay_state_def write_state_file_def fresh_overlay_def
    by (simp, intro io_rules) (simp_all add: nb)
  then have c: "find_node E ?up s' = Some c"
    using triple_Inr [OF kept _ s3] sb(4) by (simp add: nb holds_def find_node_def)
  have in3: "inside ?C s s'" by (rule triple_Inr [OF keeps_fresh_overlay [OF abs] in2 s3])
  from attach_overlay_result [OF abs s3 in2] obtain sv where sv: "inside ?C s sv" "validate_overlay_paths E root ?ov sv = Ok ()"
    "read_file E (path_join root ''overlay.json'') s' = Ok (jt_print (fe_text E) (overlay_json (fe_json E) ?ov n))"
    "read_file E (path_join root ''state.json'') s' = Ok (state_text (fe_text E) nid 0 bd ''stopped'' None)" .
  have "validate_overlay_paths E root ?ov s' = Ok ()"
    using apart_validate [of E ?C s ?ov s' sv root] lows in3 sv by (simp add: fresh_overlay_def)
  then have "read_overlay_state E root s' = Ok (?ov, n)"
    by (simp add: read_overlay_state_def read_json_file [OF sv(3) json_file.parse_print [OF laws]]
        json_file.overlay_json_back [OF laws])
  from that [OF t sb(3) c this sv(4) in3] show thesis .
qed

end
