(* ===== verification/Rollout_Copies.thy ===== *)
theory Rollout_Copies
  imports Rollout_Props
begin

text \<open>
  The copies the rollout commands make: a fork and a restored snapshot hold the same files as the container they
  come from, with its lower layers and reset count.
\<close>

section \<open>The content of a copy\<close>

text \<open>Names of a directory are distinct, at every level.\<close>

fun uniq_names :: "tree \<Rightarrow> bool" where
  "uniq_names (Dir m es) \<longleftrightarrow> distinct (map fst es) \<and> (\<forall>x \<in> set es. uniq_names (snd x))"
| "uniq_names t \<longleftrightarrow> True"

lemma uniq_child: "uniq_names t \<Longrightarrow> map_of (entries_of t) n = Some c \<Longrightarrow> uniq_names c"
  by (cases t) (auto dest!: map_of_SomeD)

lemma wf_uniq: "wf_tree t \<Longrightarrow> uniq_names t"
  by (induction t rule: wf_tree.induct) auto

text \<open>Two trees hold the same files, up to sockets, which no copy has.\<close>

definition same_files :: "tree \<Rightarrow> tree \<Rightarrow> bool" where
  "same_files t' t \<longleftrightarrow> (\<forall>p. map_option content (lookup t' p) = and_then (lookup t p) shown)"

lemma shown_content: "and_then (map_option content x) shown = and_then x shown"
  by (cases x) (simp_all add: shown_def content_def)

lemma shown_twice: "and_then (and_then x shown) shown = and_then x shown"
  by (cases x) (simp_all add: shown_def content_def)

lemma same_files_trans:
  assumes "same_files u t'" "same_files t' t" shows "same_files u t"
  unfolding same_files_def
proof
  fix p
  have "map_option content (lookup u p) = and_then (map_option content (lookup t' p)) shown"
    using assms(1) by (simp add: same_files_def shown_content)
  also have "\<dots> = and_then (lookup t p) shown" using assms(2) by (simp add: same_files_def shown_twice)
  finally show "map_option content (lookup u p) = and_then (lookup t p) shown" .
qed

lemma clone_node_content: "clone_path H t = Ok c \<Longrightarrow> map_option content c = shown t"
  by (cases t) (auto simp: shown_def content_def)

lemma clone_child_uniq:
  assumes "uniq_names t" "clone_path H t = Ok (Some t')"
  shows "case map_of (entries_of t) n of None \<Rightarrow> map_of (entries_of t') n = None
    | Some c \<Rightarrow> clone_path H c = Ok (map_of (entries_of t') n)"
proof (cases t)
  case (Dir m es)
  with assms(2) obtain cs m' where
    cs: "rcollect (\<lambda>x. rbind (clone_path H (snd x)) (\<lambda>c. Ok (map_option (Pair (fst x)) c))) (in_order es) = Ok cs"
    and t': "t' = Dir m' (filter_map (\<lambda>c. c) cs)"
    by auto
  from assms(1) Dir have d: "distinct (map fst es)" by simp
  from collect_entries [OF cs, of n] d show ?thesis unfolding Dir t' entries_of.simps by simp
qed (use assms(2) in auto)

lemma clone_same_files:
  assumes "uniq_names t" "clone_path H t = Ok (Some t')" shows "same_files t' t"
proof -
  have "map_option content (lookup t' p) = and_then (lookup t p) shown" for p
    using assms
  proof (induction p arbitrary: t t')
    case Nil
    then show ?case using clone_node_content by fastforce
  next
    case (Cons n p)
    note child = clone_child_uniq [OF Cons.prems, of n]
    show ?case
    proof (cases "map_of (entries_of t) n")
      case (Some c)
      with child have c: "clone_path H c = Ok (map_of (entries_of t') n)" by simp
      show ?thesis
      proof (cases "map_of (entries_of t') n")
        case None
        with clone_node_content [OF c] have "is_socket c" by (simp add: shown_def split: if_splits)
        with None Some show ?thesis by (cases c; cases p) (simp_all add: shown_def)
      next
        case (Some c')
        with c Cons.IH [OF uniq_child [OF Cons.prems(1) \<open>map_of (entries_of t) n = Some c\<close>], of c'] \<open>map_of (entries_of t) n = Some c\<close>
        show ?thesis by simp
      qed
    qed (use child in simp)
  qed
  then show ?thesis by (simp add: same_files_def)
qed

lemma rcollect_entry:
  assumes "rcollect (\<lambda>x. rbind (f (snd x)) (\<lambda>c. Ok (map_option (Pair (fst x)) c))) xs = Ok cs"
    and "y \<in> set (filter_map (\<lambda>c. c) cs)"
  shows "\<exists>x c. x \<in> set xs \<and> f (snd x) = Ok (Some c) \<and> y = (fst x, c)"
proof -
  from assms(2) have "Some y \<in> set cs" by (auto simp: set_filter_map)
  from rcollect_Inr_set [OF assms(1) this] show ?thesis by auto
qed

lemma rcollect_distinct:
  assumes "rcollect (\<lambda>x. rbind (f (snd x)) (\<lambda>c. Ok (map_option (Pair (fst x)) c))) xs = Ok cs" "distinct (map fst xs)"
  shows "distinct (map fst (filter_map (\<lambda>c. c) cs))"
  using assms
proof (induction xs arbitrary: cs)
  case (Cons x xs)
  then obtain c cs' where c: "f (snd x) = Ok c" "cs = map_option (Pair (fst x)) c # cs'"
    and cs': "rcollect (\<lambda>x. rbind (f (snd x)) (\<lambda>c. Ok (map_option (Pair (fst x)) c))) xs = Ok cs'" by auto
  have "fst y \<in> fst ` set xs" if "y \<in> set (filter_map (\<lambda>c. c) cs')" for y
    using rcollect_entry [OF cs' that] by force
  with Cons.IH [OF cs'] Cons.prems(2) show ?case by (cases c) (auto simp: c(2))
qed simp

lemma clone_uniq: "clone_path H t = Ok (Some t') \<Longrightarrow> uniq_names t \<Longrightarrow> uniq_names t'"
proof (induction H t arbitrary: t' rule: clone_path.induct)
  case (1 H m es)
  then obtain cs m' where
    cs: "rcollect (\<lambda>x. rbind (clone_path H (snd x)) (\<lambda>c. Ok (map_option (Pair (fst x)) c))) (in_order es) = Ok cs"
    and t': "t' = Dir m' (filter_map (\<lambda>c. c) cs)" by auto
  have "uniq_names (snd y)" if "y \<in> set (filter_map (\<lambda>c. c) cs)" for y
  proof -
    from rcollect_entry [OF cs that] obtain x c where x: "x \<in> set es" "clone_path H (snd x) = Ok (Some c)" "y = (fst x, c)"
      by auto
    from 1(1) [of x c] x 1(3) show ?thesis by auto
  qed
  with rcollect_distinct [OF cs] 1(3) show ?case by (simp add: t')
qed auto

lemma clone_upperdir_files:
  assumes "clone_upperdir H dst False t = Ok c" "uniq_names t"
  shows "same_files c t" "uniq_names c"
proof -
  from assms(1) have "clone_path H t = Ok (Some c)"
    by (auto simp: clone_upperdir_def split: if_splits option.splits)
  with assms(2) show "same_files c t" "uniq_names c" by (auto intro: clone_same_files clone_uniq)
qed

section \<open>Fork\<close>

lemma ensure_stopped_exists: "ensure_stopped_for_fs_state E cid root action s = Ok () \<Longrightarrow> path_exists E root s"
  by (auto simp: ensure_stopped_for_fs_state_def split: if_splits)

text \<open>
  C36: A fork that succeeds gives a container whose upper directory holds the files of the source's, whose overlay
  has the same lower directories and reset count, and which is recorded as stopped; outside its directory nothing
  has changed.
\<close>

theorem fork_copies_container:
  assumes "is_absolute (fe_cwd E)" "json_file (fe_json E) (fe_text E)" "has_dir (names E (fe_root E)) s"
    and source: "read_overlay_state E (container_dir E cid) s = Ok (ov, n)" "find_node E (ov_upper ov) s = Some t" "uniq_names t"
    and "apart E (names E (container_dir E new_id)) s (ov_lowers ov)"
    and "\<not> prefix (names E (container_dir E new_id)) (names E (ov_upper ov))"
    and "\<not> prefix (names E (ov_upper ov)) (names E (container_dir E new_id))"
    and run: "cmd_fork E cid new_id json s = (s', Inr out)"
  shows "\<exists>c. find_node E (path_join (container_dir E new_id) ''overlay/upper'') s' = Some c \<and> same_files c t \<and>
    read_overlay_state E (container_dir E new_id) s' = Ok (fresh_overlay (container_dir E new_id) (ov_lowers ov), n) \<and>
    read_file E (path_join (container_dir E new_id) ''state.json'') s' =
      Ok (state_text (fe_text E) new_id 0 (bundle_or_empty E (container_dir E cid) s) ''stopped'' None) \<and>
    only_below (names E (container_dir E new_id)) (fs_tree s) (fs_tree s')"
proof -
  let ?root = "container_dir E new_id"
  from run source(1) have name: "name_ok new_id"
    and cl: "clone_container E (ov_upper ov) new_id ?root (ov_lowers ov) n (bundle_or_empty E (container_dir E cid) s) s = (s', Inr ())"
    by (auto simp: cmd_fork_def io_bind_Inr_iff Let_def report_ok validate_name_ok dest!: refuse_existing_result)
  from cloned_container [OF assms(1,2) names_container [OF name assms(1)] assms(3,7-9) cl] obtain t0 c
    where t0: "find_node E (ov_upper ov) s = Some t0" and c: "clone_upperdir (fe_host E) (path_join ?root ''overlay/upper'') False t0 = Ok c"
      "find_node E (path_join ?root ''overlay/upper'') s' = Some c"
      "read_overlay_state E ?root s' = Ok (fresh_overlay ?root (ov_lowers ov), n)"
      "read_file E (path_join ?root ''state.json'') s' =
        Ok (state_text (fe_text E) new_id 0 (bundle_or_empty E (container_dir E cid) s) ''stopped'' None)"
      "inside (names E ?root) s s'" .
  from t0 source(2) have "t0 = t" by simp
  with clone_upperdir_files(1) [OF c(1)] source(3) c show ?thesis by (simp add: inside_def)
qed

section \<open>Snapshot and restore\<close>

context json_file
begin

lemma path_list_strs: "path_list J msg (map (jstr J) ls) = Ok ls"
  unfolding path_list_def by (induction ls) (simp_all add: as_str_str)

lemma snapshot_json_back:
  "snapshot_lowers J (snapshot_json J sid cid ov bd n st) = Ok (ov_lowers ov)"
  "meta_tail J ls (snapshot_json J sid cid ov bd n st) = \<lparr>fm_lowers = ls, fm_bundle = bd, fm_reset = n\<rparr>"
  by (simp_all add: snapshot_lowers_def meta_tail_def snapshot_json_def get_str_def get_array_def get_u64_def json_laws path_list_strs)

end

lemma create_dir_below:
  assumes "create_dir_all E p s = (s', Inr ())" "names E p = R @ n # q" "has_dir R s"
  shows "only_below (R @ [n]) (fs_tree s) (fs_tree s')" "has_dir R s'"
proof -
  from triple_Inr [OF inside_create [OF assms(2)] inside_refl [OF assms(3)] assms(1)] show "has_dir R s'"
    by (simp add: inside_def)
  from assms show "only_below (R @ [n]) (fs_tree s) (fs_tree s')"
    by (auto simp: create_dir_all_Inr has_dir_def dest: make_dirs_frame)
qed

lemma snapshot_result:
  assumes abs: "is_absolute (fe_cwd E)" and root: "runtime_root_dir E = Ok r" "has_dir (names E r) s"
    and ov: "read_overlay_state E (container_dir E cid) s = Ok (ov, n)"
    and sep: "\<not> prefix (names E r @ [''.snapshots'']) (names E (ov_upper ov))"
      "\<not> prefix (names E (ov_upper ov)) (names E r @ [''.snapshots''])"
    and run: "cmd_snapshot E cid sid s = (s1, Inr ())"
  obtains sn t c st where "snapshot_paths_of E sid = Ok sn" "names E (sn_root sn) = names E r @ [''.snapshots'', sid]"
    "names E (sn_upper sn) = names E (sn_root sn) @ [''upper'']" "names E (sn_meta sn) = names E (sn_root sn) @ [''meta.json'']"
    "find_node E (ov_upper ov) s = Some t" "clone_upperdir (fe_host E) (sn_upper sn) False t = Ok c"
    "find_node E (sn_upper sn) s1 = Some c"
    "read_file E (sn_meta sn) s1 = Ok (jt_print (fe_text E)
       (snapshot_json (fe_json E) sid cid ov (bundle_or_empty E (container_dir E cid) s) n st))"
proof -
  let ?base = "path_join (path_join r ''.snapshots'') sid"
  define sn :: snapshot_paths where "sn = \<lparr>sn_root = ?base, sn_upper = path_join ?base ''upper'', sn_meta = path_join ?base ''meta.json''\<rparr>"
  have sn: "snapshot_paths_of E sid = Ok sn"
    "sn_root sn = path_join (path_join r ''.snapshots'') sid" "sn_upper sn = path_join (sn_root sn) ''upper''"
    "sn_meta sn = path_join (sn_root sn) ''meta.json''"
    using root(1) by (simp_all add: snapshot_paths_of_def Let_def sn_def)
  from run ov sn(1) obtain sa sb st where name: "name_ok sid" and sa: "create_dir_all E (sn_root sn) s = (sa, Inr ())"
    and sb: "clone_dir E (ov_upper ov) (sn_upper sn) sa = (sb, Inr ())"
    and w: "write_file E (sn_meta sn) (jt_print (fe_text E)
       (snapshot_json (fe_json E) sid cid ov (bundle_or_empty E (container_dir E cid) s) n st)) sb = (s1, Inr ())"
    by (auto simp: cmd_snapshot_def io_bind_Inr_iff Let_def validate_name_ok io_undo_Inr dest!: refuse_existing_result)
  have nr: "names E (sn_root sn) = names E r @ [''.snapshots'', sid]"
    using names_join [of sid E "path_join r ''.snapshots''"] name_ok_path [OF name] abs names_below(9) [OF abs]
    by (simp add: sn(2))
  have nu: "names E (sn_upper sn) = names E (sn_root sn) @ [''upper'']" "names E (sn_meta sn) = names E (sn_root sn) @ [''meta.json'']"
    using names_below [OF abs, of "sn_root sn"] by (simp_all add: sn(3,4))
  obtain sc t c where sc: "create_dir_all E (sn_upper sn) sa = (sc, Inr ())" "find_node E (ov_upper ov) sc = Some t"
    "clone_upperdir (fe_host E) (sn_upper sn) False t = Ok c" "holds (names E (sn_upper sn)) c sb"
    using clone_dir_Inr [OF sb] by metis
  have na: "names E (sn_root sn) = names E r @ ''.snapshots'' # [sid]" "names E (sn_upper sn) = names E r @ ''.snapshots'' # [sid, ''upper'']"
    by (simp_all add: nr nu)
  note a = create_dir_below [OF sa na(1) root(2)]
  note b = create_dir_below [OF sc(1) na(2) a(2)]
  from only_below_disjoint [OF only_below_trans [OF a(1) b(1)] sep] have t: "find_node E (ov_upper ov) s = Some t"
    using sc(2) by (simp add: find_node_def)
  have c: "find_node E (sn_upper sn) s1 = Some c"
    using triple_Inr [OF holds_write sc(4) w] by (simp add: nu holds_def find_node_def)
  from that [OF sn(1) nr nu t sc(3) c write_file_reads [OF w]] show thesis .
qed

text \<open>What lies under a path is the same when the node there is.\<close>

lemma find_below:
  "find_node E p s2 = find_node E p s1 \<Longrightarrow> names E q = names E p @ r \<Longrightarrow> find_node E q s2 = find_node E q s1"
  by (simp add: find_node_def lookup_append)

lemma snapshot_meta_back:
  assumes "json_file (fe_json E) (fe_text E)"
    and "read_file E (sn_meta sn) s = Ok (jt_print (fe_text E) (snapshot_json (fe_json E) sid cid ov bd n st))"
    and "read_snapshot_meta E sn s = Ok meta"
  shows "meta = \<lparr>fm_lowers = ov_lowers ov, fm_bundle = bd, fm_reset = n\<rparr>"
  using assms(3) by (auto simp: read_snapshot_meta_def read_json_file [OF assms(2) json_file.parse_print [OF assms(1)]]
      json_file.snapshot_json_back [OF assms(1)])

text \<open>
  C35: A snapshot that is still there when it is restored gives a container whose upper directory holds the files
  the source had when the snapshot was taken, whatever happened to the source since, with the same lower
  directories, reset count and bundle.
\<close>

theorem snapshot_restore_roundtrip:
  assumes abs: "is_absolute (fe_cwd E)" and laws: "json_file (fe_json E) (fe_text E)"
    and root: "runtime_root_dir E = Ok (fe_root E)" "has_dir (names E (fe_root E)) s"
    and ov: "read_overlay_state E (container_dir E cid) s = Ok (ov, n)" "find_node E (ov_upper ov) s = Some t" "uniq_names t"
    and sep: "\<not> prefix (names E (fe_root E) @ [''.snapshots'']) (names E (ov_upper ov))"
      "\<not> prefix (names E (ov_upper ov)) (names E (fe_root E) @ [''.snapshots''])"
    and snap: "cmd_snapshot E cid sid s = (s1, Inr ())"
    and kept: "find_node E (path_join (path_join (fe_root E) ''.snapshots'') sid) s2 =
      find_node E (path_join (path_join (fe_root E) ''.snapshots'') sid) s1"
    and lows: "apart E (names E (container_dir E new_id)) s2 (ov_lowers ov)"
    and rest: "cmd_restore E sid new_id json s2 = (s3, Inr out)"
  shows "\<exists>c. find_node E (path_join (container_dir E new_id) ''overlay/upper'') s3 = Some c \<and> same_files c t \<and>
    read_overlay_state E (container_dir E new_id) s3 = Ok (fresh_overlay (container_dir E new_id) (ov_lowers ov), n) \<and>
    read_file E (path_join (container_dir E new_id) ''state.json'') s3 =
      Ok (state_text (fe_text E) new_id 0 (bundle_or_empty E (container_dir E cid) s) ''stopped'' None)"
proof -
  let ?new = "container_dir E new_id" and ?bd = "bundle_or_empty E (container_dir E cid) s" and ?R = "names E (fe_root E)"
  obtain sn t1 c1 st where sn: "snapshot_paths_of E sid = Ok sn" "names E (sn_root sn) = ?R @ [''.snapshots'', sid]"
    "names E (sn_upper sn) = names E (sn_root sn) @ [''upper'']" "names E (sn_meta sn) = names E (sn_root sn) @ [''meta.json'']"
    and c1: "find_node E (ov_upper ov) s = Some t1" "clone_upperdir (fe_host E) (sn_upper sn) False t1 = Ok c1"
    "find_node E (sn_upper sn) s1 = Some c1"
    and m1: "read_file E (sn_meta sn) s1 = Ok (jt_print (fe_text E) (snapshot_json (fe_json E) sid cid ov ?bd n st))"
    by (rule snapshot_result [OF abs root ov(1) sep snap])
  have "sn_root sn = path_join (path_join (fe_root E) ''.snapshots'') sid"
    using sn(1) root(1) by (auto simp: snapshot_paths_of_def Let_def)
  note kept' = kept [folded this]
  have up2: "find_node E (sn_upper sn) s2 = Some c1" using find_below [OF kept' sn(3)] c1(3) by simp
  have m2: "read_file E (sn_meta sn) s2 = Ok (jt_print (fe_text E) (snapshot_json (fe_json E) sid cid ov ?bd n st))"
    using find_below [OF kept' sn(4)] m1 by (simp add: read_file_def)
  from rest sn(1) obtain meta where name: "name_ok new_id" and meta: "read_snapshot_meta E sn s2 = Ok meta"
    and fresh: "\<not> path_exists E ?new s2"
    and cl: "clone_container E (sn_upper sn) new_id ?new (fm_lowers meta) (fm_reset meta) (fm_bundle meta) s2 = (s3, Inr ())"
    by (auto simp: cmd_restore_def restore_snapshot_into_def io_bind_Inr_iff Let_def validate_name_ok report_ok
        dest!: refuse_existing_result)
  note names = names_container [OF name abs]
  from lookup_dir_prefix [of "fs_tree s2" ?R "''.snapshots''" "[sid, ''upper'']" c1] up2
  have R2: "has_dir ?R s2" by (simp add: has_dir_def find_node_def sn)
  have "new_id \<noteq> ''.snapshots''"
    using fresh up2 lookup_append [of "fs_tree s2" "?R @ [new_id]" "[sid, ''upper'']"]
    by (auto simp: path_exists_def find_node_def names sn)
  then have par: "\<not> prefix (names E ?new) (names E (sn_upper sn))" "\<not> prefix (names E (sn_upper sn)) (names E ?new)"
    by (auto simp: names sn)
  note m = snapshot_meta_back [OF laws m2 meta]
  from cloned_container [OF abs laws names R2 lows par cl [unfolded m fs_meta.select_convs]] obtain t2 c2
    where c2: "find_node E (sn_upper sn) s2 = Some t2" "clone_upperdir (fe_host E) (path_join ?new ''overlay/upper'') False t2 = Ok c2"
      "find_node E (path_join ?new ''overlay/upper'') s3 = Some c2"
      "read_overlay_state E ?new s3 = Ok (fresh_overlay ?new (ov_lowers ov), n)"
      "read_file E (path_join ?new ''state.json'') s3 = Ok (state_text (fe_text E) new_id 0 ?bd ''stopped'' None)"
    by blast
  from c1(1) ov(2) have "t1 = t" by simp
  from clone_upperdir_files [OF c1(2)] ov(3) this have f1: "same_files c1 t" "uniq_names c1" by simp_all
  from c2(1) up2 clone_upperdir_files(1) [OF c2(2)] f1(2) have "same_files c2 c1" by simp
  from same_files_trans [OF this f1(1)] c2(3-5) show ?thesis by blast
qed

end
