(* ===== verification/Rollout_Progress.thy ===== *)
theory Rollout_Progress
  imports Rollout_Copies
begin

text \<open>
  Progress of the rollout commands: when no call fails, a stopped container can be snapshot, restored and forked.
  Inside one directory the calls are followed on the tree of that directory alone.
\<close>

section \<open>Calls inside a directory\<close>

lemma make_dirs_at:
  "lookup t C = Some c \<Longrightarrow> make_dirs d q c = Ok c' \<Longrightarrow> \<exists>t'. make_dirs d (C @ q) t = Ok t' \<and> lookup t' C = Some c'"
proof (induction t C rule: lookup.induct)
  case (2 t k ks)
  then obtain b where b: "map_of (entries_of t) k = Some b" "lookup b ks = Some c" by (auto split: option.splits)
  then obtain m es where t: "t = Dir m es" by (cases t) auto
  from 2(1) [OF b(1,2) 2(3)] b(1) show ?case by (auto simp: t update_conv')
qed simp

lemma put_node_in:
  "lookup t C = Some c \<Longrightarrow> put_node (n # q) x c = Ok c' \<Longrightarrow> \<exists>t'. put_node (C @ n # q) x t = Ok t' \<and> lookup t' C = Some c'"
proof (induction t C rule: lookup.induct)
  case (2 t k ks)
  then obtain b where b: "map_of (entries_of t) k = Some b" "lookup b ks = Some c" by (auto split: option.splits)
  then obtain m es where t: "t = Dir m es" by (cases t) auto
  obtain j js where j: "ks @ n # q = j # js" by (cases ks) auto
  from 2(1) [OF b(1,2) 2(3)] b(1) j show ?case by (auto simp: t update_conv')
qed simp

text \<open>A run that ends well, and the tree of the directory \<open>C\<close> after it.\<close>

definition leads :: "string list \<Rightarrow> (fsys, 'a) io \<Rightarrow> 'a \<Rightarrow> tree \<Rightarrow> tree \<Rightarrow> bool" where
  "leads C m a c c' \<longleftrightarrow> (\<forall>s. holds C c s \<longrightarrow> (\<exists>s'. m s = (s', Inr a) \<and> holds C c' s'))"

definition no_failures :: "'v fs_env \<Rightarrow> bool" where
  "no_failures E \<longleftrightarrow> (\<forall>c. fe_fails E c = None)"

lemma call_ok: "no_failures E \<Longrightarrow> call E c = io_ok ()"
  by (simp add: call_def no_failures_def)

lemma leads_bind: "leads C m a c c' \<Longrightarrow> leads C (f a) b c' c'' \<Longrightarrow> leads C (io_bind m f) b c c''"
  unfolding leads_def by (metis io_bind_Inr)

lemma leads_create:
  assumes "no_failures E" "names E p = C @ q" "make_dirs (new_dir E) q c = Ok c'"
  shows "leads C (create_dir_all E p) () c c'"
  unfolding leads_def
proof (intro allI impI)
  fix s assume "holds C c s"
  then have "lookup (fs_tree s) C = Some c" by (simp add: holds_def)
  from make_dirs_at [OF this assms(3)] obtain t' where "make_dirs (new_dir E) (C @ q) (fs_tree s) = Ok t'" "lookup t' C = Some c'"
    by blast
  then show "\<exists>s'. create_dir_all E p s = (s', Inr ()) \<and> holds C c' s'"
    by (simp add: create_dir_all_def call_ok [OF assms(1)] edit_def assms(2) holds_def)
qed

lemma leads_write:
  assumes "no_failures E" "names E p = C @ [n]" "map_of es n = None"
  shows "leads C (write_file E p x) () (Dir m es)
    (Dir m (AList.update n (File (fresh (fe_host E) (0x1B6 AND NOT (fe_umask E))) (bytes_of x)) es))"
  unfolding leads_def
proof (intro allI impI)
  fix s assume "holds C (Dir m es) s"
  then have C: "lookup (fs_tree s) C = Some (Dir m es)" by (simp add: holds_def)
  let ?f = "File (fresh (fe_host E) (0x1B6 AND NOT (fe_umask E))) (bytes_of x)"
  have "put_node [n] ?f (Dir m es) = Ok (Dir m (AList.update n ?f es))" by simp
  from put_node_in [OF C this] obtain t' where "put_node (C @ [n]) ?f (fs_tree s) = Ok t'"
    "lookup t' C = Some (Dir m (AList.update n ?f es))" by blast
  then show "\<exists>s'. write_file E p x s = (s', Inr ()) \<and> holds C (Dir m (AList.update n ?f es)) s'"
    using C assms(3)
    by (simp add: write_Inr put_text_def assms(1) [unfolded no_failures_def] edit_def assms(2) lookup_append written_def holds_def)
qed

lemma leads_mount: "no_failures E \<Longrightarrow> leads C (mount_at E dir data) () c c"
  by (simp add: leads_def mount_at_def call_ok holds_def)

lemma leads_clone:
  assumes "no_failures E" "names E dst = C @ q" "q \<noteq> []" "lookup c q = None" "make_dirs (new_dir E) q c = Ok c1" "put_node q u c1 = Ok c2"
    and "clone_upperdir (fe_host E) dst False t = Ok u"
    and src: "find_node E src s = Some t" "\<not> prefix (names E dst) (names E src)" "\<not> prefix (names E src) (names E dst)"
      "has_dir C s"
    and "holds C c s"
  shows "\<exists>s'. clone_dir E src dst s = (s', Inr ()) \<and> holds C c2 s'"
proof -
  obtain n r where q: "q = n # r" using assms(3) by (cases q) auto
  from leads_create [OF assms(1,2,5)] assms(12) obtain s1 where s1: "create_dir_all E dst s = (s1, Inr ())" "holds C c1 s1"
    by (auto simp: leads_def)
  have missing: "\<not> path_exists E dst s"
    using assms(2,4,12) by (simp add: path_exists_def find_node_def lookup_append holds_def)
  have "find_node E src s1 = Some t"
    using s1(1) src(1,2,3) make_dirs_keeps by (auto simp: create_dir_all_Inr find_node_def)
  moreover obtain t' where "put_node (C @ q) u (fs_tree s1) = Ok t'" "lookup t' C = Some c2"
    using put_node_in [of "fs_tree s1" C c1 n r u c2] s1(2) assms(6) by (auto simp: holds_def q)
  ultimately show ?thesis
    using missing s1 assms(1,2,7)
    by (simp add: clone_dir_def io_bind_def s1(1) edit_def holds_def no_failures_def)
qed

section \<open>Cloning a container\<close>

lemma leads_validate:
  "(\<And>s. I s \<Longrightarrow> validate_overlay_paths E root ov s = Ok ()) \<Longrightarrow> I s \<Longrightarrow>
   io_bind (io_read (validate_overlay_paths E root ov)) f s = f () s"
  by (simp add: io_bind_def)

lemma holds_leads: "leads C m a c c' \<Longrightarrow> holds C c s \<Longrightarrow> \<exists>s'. m s = (s', Inr a) \<and> holds C c' s'"
  by (simp add: leads_def)

lemma attach_succeeds:
  assumes abs: "is_absolute (fe_cwd E)" and ok: "no_failures E"
    and valid: "\<And>u. inside (names E root) s0 u \<Longrightarrow> validate_overlay_paths E root (fresh_overlay root lowers) u = Ok ()"
    and s: "inside (names E root) s0 s" "holds (names E root) (Dir d [(''overlay'', Dir d' [(''upper'', u)])]) s"
  shows "\<exists>s'. attach_overlay E cid root (fresh_overlay root lowers) n bd s = (s', Inr ())"
proof -
  let ?C = "names E root" and ?ov = "fresh_overlay root lowers" and ?d = "new_dir E"
  note nb = names_below [OF abs, of root]
  let ?c1 = "Dir d [(''overlay'', Dir d' [(''upper'', u), (''work'', Dir ?d [])])]"
  let ?c2 = "Dir d [(''overlay'', Dir d' [(''upper'', u), (''work'', Dir ?d []), (''merged'', Dir ?d [])])]"
  have "leads ?C (create_dir_all E (path_join root ''overlay/work'')) () (Dir d [(''overlay'', Dir d' [(''upper'', u)])]) ?c1"
    by (rule leads_create [OF ok nb(2)]) simp
  from holds_leads [OF this s(2)] obtain s1 where s1: "create_dir_all E (path_join root ''overlay/work'') s = (s1, Inr ())" "holds ?C ?c1 s1"
    by blast
  have "leads ?C (create_dir_all E (path_join root ''overlay/merged'')) () ?c1 ?c2"
    by (rule leads_create [OF ok nb(3)]) simp
  from holds_leads [OF this s1(2)] obtain s2 where s2: "create_dir_all E (path_join root ''overlay/merged'') s1 = (s2, Inr ())" "holds ?C ?c2 s2"
    by blast
  have "inside ?C s0 s2"
    using triple_Inr [OF inside_create triple_Inr [OF inside_create s(1) s1(1)] s2(1)] by (simp add: nb)
  then have v: "validate_overlay_paths E root ?ov s2 = Ok ()" by (rule valid)
  let ?m = "io_bind (mount_overlay E ?ov) (\<lambda>_. io_bind (write_overlay_state E root ?ov n) (\<lambda>_. write_state_file E root cid 0 bd ''stopped'' None))"
  have "\<exists>c3. leads ?C ?m () ?c2 c3"
    unfolding mount_overlay_def write_overlay_state_def write_state_file_def
    by (rule exI, rule leads_bind, rule leads_mount [OF ok], rule leads_bind, rule leads_write [OF ok nb(4)], simp,
        rule leads_write [OF ok nb(5)], simp)
  then obtain c3 where "leads ?C ?m () ?c2 c3" ..
  from holds_leads [OF this s2(2)] obtain s3 where "?m s2 = (s3, Inr ())" by blast
  with s1(1) s2(1) v show ?thesis
    by (simp add: attach_overlay_def fresh_overlay_def io_bind_def)
qed

lemma clone_container_succeeds:
  assumes abs: "is_absolute (fe_cwd E)" and ok: "no_failures E" and H: "privileged (fe_host E)"
    and C: "names E root = R @ [cid]" "has_dir R s" "lookup (fs_tree s) (names E root) = None"
    and src: "find_node E src s = Some (Dir m es)" "wf_tree (Dir m es)" "measured E src s = Ok st"
      "\<not> prefix (names E root) (names E src)" "\<not> prefix (names E src) (names E root)"
    and valid: "\<And>u. inside (names E root) s u \<Longrightarrow> validate_overlay_paths E root (fresh_overlay root lowers) u = Ok ()"
  shows "\<exists>s'. clone_container E src nid root lowers n bd s = (s', Inr ())"
proof -
  let ?C = "names E root" and ?ov = "fresh_overlay root lowers" and ?up = "path_join root ''overlay/upper''" and ?d = "new_dir E"
  note nb = names_below [OF abs, of root]
  have par: "\<not> prefix (names E src) (names E ?up)" "\<not> prefix (names E ?up) (names E src)"
    using src(4,5) prefix_same_cases [of "names E src" "names E ?up" ?C] by (auto simp: nb(1) dest: append_prefixD)
  from C(2) obtain m0 es0 where R: "lookup (fs_tree s) R = Some (Dir m0 es0)" by (auto simp: has_dir_def)
  have "map_of es0 cid = None" using C(3) R by (simp add: C(1) lookup_append split: option.splits)
  then have "leads R (create_dir_all E root) () (Dir m0 es0) (Dir m0 (AList.update cid (Dir ?d []) es0))"
    by (intro leads_create [OF ok C(1)]) simp
  from holds_leads [OF this] R obtain s1 where s1: "create_dir_all E root s = (s1, Inr ())"
    "holds R (Dir m0 (AList.update cid (Dir ?d []) es0)) s1" by (auto simp: holds_def)
  then have e: "ensure E root s = (s1, Inr ())" by (simp add: ensure_def)
  have h1: "holds ?C (Dir ?d []) s1" using s1(2) by (simp add: holds_def C(1) lookup_append update_conv')
  have in1: "inside ?C s s1" by (rule ensure_inside(1) [OF C(1,2) e])
  then have "only_below ?C (fs_tree s) (fs_tree s1)" by (simp add: inside_def)
  from only_below_disjoint [OF this src(4,5)] have f1: "find_node E src s1 = Some (Dir m es)"
    using src(1) by (simp add: find_node_def)
  then have me: "measured E src s1 = Ok st" using src(1,3) by (simp add: measured_def)
  obtain u where u: "clone_upperdir (fe_host E) ?up False (Dir m es) = Ok u"
    by (rule clone_upperdir_ok [OF H src(2)])
  let ?c2 = "Dir ?d [(''overlay'', Dir ?d [(''upper'', u)])]"
  have "\<exists>s2. clone_dir E src ?up s1 = (s2, Inr ()) \<and> holds ?C ?c2 s2"
  proof (rule leads_clone [OF ok nb(1) _ _ _ _ u f1 _ _ _ h1])
    show "make_dirs ?d [''overlay'', ''upper''] (Dir ?d []) = Ok (Dir ?d [(''overlay'', Dir ?d [(''upper'', Dir ?d [])])])" by simp
    show "put_node [''overlay'', ''upper''] u (Dir ?d [(''overlay'', Dir ?d [(''upper'', Dir ?d [])])]) = Ok ?c2" by simp
    show "[''overlay'', ''upper''] \<noteq> []" "lookup (Dir ?d []) [''overlay'', ''upper''] = None" by simp_all
    show "has_dir ?C s1" using in1 by (simp add: inside_def)
  qed (fact par)+
  then obtain s2 where s2: "clone_dir E src ?up s1 = (s2, Inr ())" "holds ?C ?c2 s2" by blast
  have "inside ?C s s2" using triple_Inr [OF inside_clone in1 s2(1)] by (simp add: nb)
  from attach_succeeds [OF abs ok valid this s2(2)] obtain s3
    where s3: "attach_overlay E nid root ?ov n bd s2 = (s3, Inr ())" by blast
  have "io_undo (io_bind (io_read (measured E src)) (\<lambda>_. io_bind (clone_dir E src ?up) (\<lambda>_. attach_overlay E nid root ?ov n bd)))
      (abandon E root ?ov) s1 = (s3, Inr ())"
    by (simp add: io_undo_def io_bind_def me s2(1) s3)
  then show ?thesis
    by (simp add: clone_container_def io_bind_def [of "ensure E root"] e fresh_overlay_def Let_def)
qed

section \<open>The commands\<close>

lemma apart_fresh:
  assumes "apart E (names E root) s lowers" "validate_overlay_paths E root (fresh_overlay root lowers) s = Ok ()"
    and "inside (names E root) s u"
  shows "validate_overlay_paths E root (fresh_overlay root lowers) u = Ok ()"
  using validate_cong_walk [of "fresh_overlay root lowers" E u s root] assms by (simp add: apart_def fresh_overlay_def)

lemma fork_succeeds:
  assumes abs: "is_absolute (fe_cwd E)" and ok: "no_failures E" and H: "privileged (fe_host E)"
    and new: "has_dir (names E (fe_root E)) s" "name_ok new_id" "\<not> path_exists E (container_dir E new_id) s"
    and source: "ensure_stopped_for_fs_state E cid (container_dir E cid) ''fork'' s = Ok ()"
      "read_overlay_state E (container_dir E cid) s = Ok (ov, n)"
    and upper: "find_node E (ov_upper ov) s = Some (Dir m es)" "wf_tree (Dir m es)" "measured E (ov_upper ov) s = Ok st"
      "\<not> prefix (names E (container_dir E new_id)) (names E (ov_upper ov))"
      "\<not> prefix (names E (ov_upper ov)) (names E (container_dir E new_id))"
    and lows: "apart E (names E (container_dir E new_id)) s (ov_lowers ov)"
      "validate_overlay_paths E (container_dir E new_id) (fresh_overlay (container_dir E new_id) (ov_lowers ov)) s = Ok ()"
  shows "\<exists>s' out. cmd_fork E cid new_id json s = (s', Inr out)"
proof -
  let ?new = "container_dir E new_id"
  have missing: "lookup (fs_tree s) (names E ?new) = None" using new(3) by (simp add: path_exists_def find_node_def)
  from clone_container_succeeds [OF abs ok H names_container [OF new(2) abs] new(1) missing upper apart_fresh [OF lows]]
  obtain s' where "clone_container E (ov_upper ov) new_id ?new (ov_lowers ov) n (bundle_or_empty E (container_dir E cid) s) s = (s', Inr ())"
    by blast
  then show ?thesis using new(2,3) source
    by (simp add: cmd_fork_def Let_def io_bind_def validate_name_ok [THEN iffD2] refuse_existing_def report_def)
qed

text \<open>
  A container whose init is not alive can be forked: when no call fails, the process has the privileges copying
  needs, the upper directory is within the limits and the new directories pass the checks, the fork succeeds.
\<close>

theorem stopped_container_forks:
  assumes abs: "is_absolute (fe_cwd E)" and ok: "no_failures E" and H: "privileged (fe_host E)"
    and new: "has_dir (names E (fe_root E)) s" "name_ok new_id" "\<not> path_exists E (container_dir E new_id) s"
    and source: "ensure_stopped_for_fs_state E cid (container_dir E cid) ''fork'' s = Ok ()"
      "read_overlay_state E (container_dir E cid) s = Ok (ov, n)"
    and upper: "find_node E (ov_upper ov) s = Some (Dir m es)" "wf_tree (Dir m es)" "measured E (ov_upper ov) s = Ok st"
      "\<not> prefix (names E (container_dir E new_id)) (names E (ov_upper ov))"
      "\<not> prefix (names E (ov_upper ov)) (names E (container_dir E new_id))"
    and lows: "apart E (names E (container_dir E new_id)) s (ov_lowers ov)"
      "validate_overlay_paths E (container_dir E new_id) (fresh_overlay (container_dir E new_id) (ov_lowers ov)) s = Ok ()"
  shows "\<exists>s' out. cmd_fork E cid new_id json s = (s', Inr out)"
  by (rule fork_succeeds [OF assms])

lemma measured_enough: "measured E p s = Ok st \<Longrightarrow> find_node E p s' = find_node E p s \<Longrightarrow> measured E p s' = Ok st"
  by (simp add: measured_def)

lemma snapshot_succeeds:
  assumes abs: "is_absolute (fe_cwd E)" and ok: "no_failures E" and H: "privileged (fe_host E)"
    and root: "runtime_root_dir E = Ok r" "has_dir (names E r) s" "lookup (fs_tree s) (names E r @ [''.snapshots'']) = None"
    and name: "name_ok sid"
    and source: "ensure_stopped_for_fs_state E cid (container_dir E cid) ''snapshot'' s = Ok ()"
      "read_overlay_state E (container_dir E cid) s = Ok (ov, n)"
    and upper: "find_node E (ov_upper ov) s = Some (Dir m es)" "wf_tree (Dir m es)" "measured E (ov_upper ov) s = Ok st"
    and sep: "\<not> prefix (names E r @ [''.snapshots'']) (names E (ov_upper ov))"
      "\<not> prefix (names E (ov_upper ov)) (names E r @ [''.snapshots''])"
  shows "\<exists>s'. cmd_snapshot E cid sid s = (s', Inr ())"
proof -
  let ?base = "path_join (path_join r ''.snapshots'') sid" and ?d = "new_dir E"
  have nr: "names E ?base = names E r @ [''.snapshots'', sid]"
    using names_join [of sid E "path_join r ''.snapshots''"] name_ok_path [OF name] abs names_below(9) [OF abs] by simp
  note nb = names_below [OF abs, of ?base]
  from root(2) obtain m0 es0 where R: "lookup (fs_tree s) (names E r) = Some (Dir m0 es0)" by (auto simp: has_dir_def)
  have none: "map_of es0 ''.snapshots'' = None" using root(3) R by (simp add: lookup_append split: option.splits)
  let ?c0 = "Dir m0 (AList.update ''.snapshots'' (Dir ?d [(sid, Dir ?d [])]) es0)"
  have "leads (names E r) (create_dir_all E ?base) () (Dir m0 es0) ?c0"
    by (rule leads_create [OF ok nr]) (simp add: none)
  from holds_leads [OF this] R obtain s1 where s1: "create_dir_all E ?base s = (s1, Inr ())" "holds (names E r) ?c0 s1"
    by (auto simp: holds_def)
  have h1: "holds (names E ?base) (Dir ?d []) s1" using s1(2) by (simp add: holds_def nr lookup_append update_conv')
  have par: "\<not> prefix (names E (ov_upper ov)) (names E (path_join ?base ''upper''))"
      "\<not> prefix (names E (path_join ?base ''upper'')) (names E (ov_upper ov))"
      "\<not> prefix (names E (ov_upper ov)) (names E ?base)"
    using sep prefix_same_cases [of "names E (ov_upper ov)" "names E (path_join ?base ''upper'')" "names E r @ [''.snapshots'']"]
      append_prefixD [of "names E r @ [''.snapshots'']" "[sid, ''upper'']" "names E (ov_upper ov)"]
      prefix_order.trans [of "names E (ov_upper ov)" "names E ?base" "names E (path_join ?base ''upper'')"]
    by (auto simp: nb nr)
  have f1: "find_node E (ov_upper ov) s1 = Some (Dir m es)"
    using s1(1) upper(1) par(3) make_dirs_keeps by (auto simp: create_dir_all_Inr find_node_def)
  obtain u where u: "clone_upperdir (fe_host E) (path_join ?base ''upper'') False (Dir m es) = Ok u"
    by (rule clone_upperdir_ok [OF H upper(2)])
  have "\<exists>s2. clone_dir E (ov_upper ov) (path_join ?base ''upper'') s1 = (s2, Inr ()) \<and> holds (names E ?base) (Dir ?d [(''upper'', u)]) s2"
  proof (rule leads_clone [OF ok nb(6) _ _ _ _ u f1 par(2,1) _ h1])
    show "make_dirs ?d [''upper''] (Dir ?d []) = Ok (Dir ?d [(''upper'', Dir ?d [])])" by simp
    show "put_node [''upper''] u (Dir ?d [(''upper'', Dir ?d [])]) = Ok (Dir ?d [(''upper'', u)])" by simp
    show "[''upper''] \<noteq> []" "lookup (Dir ?d []) [''upper''] = None" by simp_all
    show "has_dir (names E ?base) s1" using h1 by (simp add: has_dir_def holds_def)
  qed
  then obtain s2 where s2: "clone_dir E (ov_upper ov) (path_join ?base ''upper'') s1 = (s2, Inr ())"
    "holds (names E ?base) (Dir ?d [(''upper'', u)]) s2" by blast
  let ?text = "jt_print (fe_text E) (snapshot_json (fe_json E) sid cid ov (bundle_or_empty E (container_dir E cid) s) n st)"
  have "map_of [(''upper'', u)] ''meta.json'' = None" by simp
  from holds_leads [OF leads_write [OF ok nb(8) this] s2(2)] obtain s3
    where s3: "write_file E (path_join ?base ''meta.json'') ?text s2 = (s3, Inr ())" by blast
  have fresh: "\<not> path_exists E ?base s"
    using R none by (simp add: path_exists_def find_node_def nr lookup_append)
  show ?thesis using s1(1) s2(1) s3 fresh name source upper(3) root(1)
    by (simp add: cmd_snapshot_def Let_def io_bind_def validate_name_ok [THEN iffD2] refuse_existing_def snapshot_paths_of_def io_undo_def)
qed

lemma restore_succeeds:
  assumes abs: "is_absolute (fe_cwd E)" and ok: "no_failures E" and H: "privileged (fe_host E)"
    and new: "has_dir (names E (fe_root E)) s" "name_ok new_id" "\<not> path_exists E (container_dir E new_id) s"
    and snap: "name_ok sid" "snapshot_paths_of E sid = Ok sn" "read_snapshot_meta E sn s = Ok meta"
    and upper: "find_node E (sn_upper sn) s = Some (Dir m es)" "wf_tree (Dir m es)" "measured E (sn_upper sn) s = Ok st"
      "\<not> prefix (names E (container_dir E new_id)) (names E (sn_upper sn))"
      "\<not> prefix (names E (sn_upper sn)) (names E (container_dir E new_id))"
    and lows: "apart E (names E (container_dir E new_id)) s (fm_lowers meta)"
      "validate_overlay_paths E (container_dir E new_id) (fresh_overlay (container_dir E new_id) (fm_lowers meta)) s = Ok ()"
  shows "\<exists>s' out. cmd_restore E sid new_id json s = (s', Inr out)"
proof -
  let ?new = "container_dir E new_id"
  have missing: "lookup (fs_tree s) (names E ?new) = None" using new(3) by (simp add: path_exists_def find_node_def)
  from clone_container_succeeds [OF abs ok H names_container [OF new(2) abs] new(1) missing upper apart_fresh [OF lows]]
  obtain s' where "clone_container E (sn_upper sn) new_id ?new (fm_lowers meta) (fm_reset meta) (fm_bundle meta) s = (s', Inr ())"
    by blast
  then show ?thesis using new(2,3) snap
    by (simp add: cmd_restore_def restore_snapshot_into_def Let_def io_bind_def validate_name_ok [THEN iffD2] refuse_existing_def report_def)
qed

text \<open>Without the mount there is no new container.\<close>

lemma clone_container_mounts:
  "clone_container E src nid root lowers n bd s = (s', Inr ()) \<Longrightarrow> fe_fails E (Mount (path_join root ''overlay/merged'')) = None"
  by (auto simp: clone_container_def io_bind_Inr_iff io_undo_Inr attach_overlay_def mount_overlay_def mount_at_def
      fresh_overlay_def call_Inr Let_def)

lemma fork_mounts:
  "cmd_fork E cid nid json s = (s', Inr out) \<Longrightarrow> fe_fails E (Mount (path_join (container_dir E nid) ''overlay/merged'')) = None"
  by (auto simp: cmd_fork_def io_bind_Inr_iff Let_def dest!: clone_container_mounts refuse_existing_result split: prod.splits)

lemma restore_mounts:
  "cmd_restore E sid nid json s = (s', Inr out) \<Longrightarrow> fe_fails E (Mount (path_join (container_dir E nid) ''overlay/merged'')) = None"
  by (auto simp: cmd_restore_def restore_snapshot_into_def io_bind_Inr_iff Let_def dest!: clone_container_mounts refuse_existing_result)

section \<open>A container to copy\<close>

definition sample_upper_dir :: tree where
  "sample_upper_dir = Dir (plain_meta 0x1ED) [(''f'', File (plain_meta 0x1A4) [1, 2])]"

definition sample_ov :: overlay where
  "sample_ov = fresh_overlay ''/s/c'' [''/b'']"

definition sample_text :: string where
  "sample_text = jt_print codec (overlay_json jv sample_ov 3)"

definition sample_state :: string where
  "sample_state = jt_print codec (JObj [(''status'', JStr ''running''), (''pid'', JPos 7)])"

definition sample_marker :: string where
  "sample_marker = jt_print codec (JObj [(''backend'', JStr ''overlayfs''), (''resetCount'', JPos 3), (''files'', JArr [])])"

definition sample_box :: fsys where
  "sample_box = \<lparr>fs_tree = Dir (plain_meta 0x1ED)
     [(''b'', Dir (plain_meta 0x1ED) []),
      (''s'', Dir (plain_meta 0x1C0) [(''c'', Dir (plain_meta 0x1ED)
         [(''overlay'', Dir (plain_meta 0x1ED) [(''upper'', sample_upper_dir)]),
          (''overlay.json'', File (plain_meta 0x1A4) (bytes_of sample_text)),
          (''state.json'', File (plain_meta 0x1A4) (bytes_of sample_state)),
          (''markers'', Dir (plain_meta 0x1ED) [(''m.json'', File (plain_meta 0x1A4) (bytes_of sample_marker))])])])],
     fs_store = \<lparr>st_layers = \<lambda>_. None, st_links = \<lambda>_. None\<rparr>, fs_mounts = []\<rparr>"

lemma sample_env_simps [simp]:
  "fe_json sample_env = jv" "fe_text sample_env = codec" "fe_host sample_env = linux_host" "fe_cwd sample_env = ''/''"
  "fe_root sample_env = ''/s''" "fe_fails sample_env c = None" "fe_max_bytes sample_env = None" "fe_max_entries sample_env = None"
  "fe_walk sample_env s p = lookup (fs_tree s) (path_names p)" "fe_alive sample_env pid m = False"
  by (simp_all add: sample_env_def)

lemma sample_parse [simp]:
  "jt_parse codec sample_text = Some (overlay_json jv sample_ov 3)"
  "jt_parse codec sample_state = Some (JObj [(''status'', JStr ''running''), (''pid'', JPos 7)])"
  "jt_parse codec sample_marker = Some (JObj [(''backend'', JStr ''overlayfs''), (''resetCount'', JPos 3), (''files'', JArr [])])"
  by (simp_all add: sample_text_def sample_state_def sample_marker_def codec.parse_print)

lemmas path_steps = names_def path_join_def path_eval container_dir_def

lemma sample_names [simp]:
  "container_dir sample_env ''c'' = ''/s/c''" "container_dir sample_env ''d'' = ''/s/d''"
  "names sample_env ''/s'' = [''s'']" "names sample_env ''/s/c'' = [''s'', ''c'']" "names sample_env ''/s/d'' = [''s'', ''d'']"
  "names sample_env (ov_upper sample_ov) = [''s'', ''c'', ''overlay'', ''upper'']"
  by (simp_all add: path_steps sample_ov_def fresh_overlay_def)

lemma sample_read_overlay: "read_overlay_state sample_env ''/s/c'' sample_box = Ok (sample_ov, 3)"
proof -
  have "validate_overlay_paths sample_env ''/s/c'' sample_ov sample_box = Ok ()"
    by (simp add: validate_overlay_paths_def check_lowerdir_def walk_dir_def reject_overlay_lowerdir_chars_def
        reject_overlay_option_chars_def check_under_def same_path_def path_eval sample_ov_def fresh_overlay_def path_join_def
        sample_box_def)
  moreover have "read_json sample_env (path_join ''/s/c'' ''overlay.json'') sample_box = Ok (overlay_json jv sample_ov 3)"
    by (simp add: read_json_def read_file_def find_node_def file_text_def path_steps sample_box_def)
  ultimately show ?thesis
    by (simp add: read_overlay_state_def codec.overlay_json_back)
qed

lemma sample_fresh_valid:
  "lookup (fs_tree s) [''b''] = Some (Dir m es) \<Longrightarrow>
   validate_overlay_paths sample_env ''/s/d'' (fresh_overlay ''/s/d'' [''/b'']) s = Ok ()"
  by (simp add: validate_overlay_paths_def check_lowerdir_def walk_dir_def reject_overlay_lowerdir_chars_def
      reject_overlay_option_chars_def check_under_def same_path_def path_eval fresh_overlay_def path_join_def)

lemma sample_apart: "apart sample_env [''s'', ''d''] s [''/b'']"
proof -
  have "lookup (fs_tree t) [''b''] = lookup (fs_tree s) [''b'']" if "inside [''s'', ''d''] s t" for t
    using that only_below_disjoint [of "[''s'', ''d'']" "fs_tree s" "fs_tree t" "[''b'']"] by (simp add: inside_def)
  then show ?thesis by (simp add: apart_def path_eval)
qed

lemma sample_stopped: "ensure_stopped_for_fs_state sample_env ''c'' ''/s/c'' action sample_box = Ok ()"
  by (simp add: ensure_stopped_for_fs_state_def path_exists_def find_node_def sample_box_def split: prod.splits)

lemma sample_upper_facts:
  "find_node sample_env (ov_upper sample_ov) sample_box = Some sample_upper_dir"
  "measured sample_env (ov_upper sample_ov) sample_box = Ok \<lparr>st_entries = 1, st_bytes = 2\<rparr>"
  "wf_tree sample_upper_dir"
proof -
  show f: "find_node sample_env (ov_upper sample_ov) sample_box = Some sample_upper_dir"
    by (simp add: find_node_def sample_box_def)
  show "measured sample_env (ov_upper sample_ov) sample_box = Ok \<lparr>st_entries = 1, st_bytes = 2\<rparr>"
    by (simp add: measured_def f enforce_snapshot_limits_def measure_upperdir_def sample_upper_dir_def sat_add_def u64_max_def
        snapshot_limit_env_def)
  show "wf_tree sample_upper_dir"
    by (simp add: sample_upper_dir_def wf_meta_def plain_meta_def name_ok_def)
qed

section \<open>The properties on the sample\<close>

lemma sample_no_failures: "no_failures sample_env"
  by (simp add: no_failures_def)

lemma sample_json_laws: "json_file (fe_json sample_env) (fe_text sample_env)"
  by (simp add: codec.json_file_axioms)

lemma sample_new: "has_dir (names sample_env (fe_root sample_env)) sample_box" "name_ok ''d''"
  "\<not> path_exists sample_env (container_dir sample_env ''d'') sample_box" "is_absolute (fe_cwd sample_env)"
  by (simp_all add: has_dir_def sample_box_def name_ok_def path_exists_def find_node_def is_absolute_def)

lemma sample_lowers: "ov_lowers sample_ov = [''/b'']"
  by (simp add: sample_ov_def fresh_overlay_def)

lemma sample_b: "lookup (fs_tree sample_box) [''b''] = Some (Dir (plain_meta 0x1ED) [])"
  by (simp add: sample_box_def)

lemma sample_separate:
  "\<not> prefix (names sample_env (container_dir sample_env ''d'')) (names sample_env (ov_upper sample_ov))"
  "\<not> prefix (names sample_env (ov_upper sample_ov)) (names sample_env (container_dir sample_env ''d''))"
  by simp_all

lemmas sample_up = sample_upper_facts [unfolded sample_upper_dir_def]

lemma sample_forks: "\<exists>s' out. cmd_fork sample_env ''c'' ''d'' json sample_box = (s', Inr out)"
  by (rule fork_succeeds [OF sample_new(4) sample_no_failures _ sample_new(1-3) _ _ sample_up(1,3,2) sample_separate])
    (simp_all add: linux_privileged sample_stopped sample_read_overlay sample_lowers sample_apart sample_fresh_valid [OF sample_b])

theorem stopped_container_forks_witness: "\<exists>s' out. cmd_fork sample_env ''c'' ''d'' True sample_box = (s', Inr out)"
  by (rule stopped_container_forks [OF sample_new(4) sample_no_failures _ sample_new(1-3) _ _ sample_up(1,3,2) sample_separate])
    (simp_all add: linux_privileged sample_stopped sample_read_overlay sample_lowers sample_apart sample_fresh_valid [OF sample_b])

theorem fork_copies_container_witness:
  "\<exists>s' out c. cmd_fork sample_env ''c'' ''d'' False sample_box = (s', Inr out) \<and>
     find_node sample_env ''/s/d/overlay/upper'' s' = Some c \<and> same_files c sample_upper_dir"
proof -
  from sample_forks obtain s' out where run: "cmd_fork sample_env ''c'' ''d'' False sample_box = (s', Inr out)" by blast
  have "\<exists>c. find_node sample_env (path_join (container_dir sample_env ''d'') ''overlay/upper'') s' = Some c \<and> same_files c sample_upper_dir"
    using fork_copies_container [OF sample_new(4) sample_json_laws sample_new(1) _ sample_upper_facts(1) wf_uniq [OF sample_upper_facts(3)]
      _ sample_separate run] sample_read_overlay sample_lowers sample_apart by fastforce
  with run show ?thesis by (simp add: path_join_def is_absolute_def)
qed

text \<open>An environment in which one call fails.\<close>

definition failing :: "fs_call \<Rightarrow> jval fs_env" where
  "failing c = sample_env\<lparr>fe_fails := \<lambda>c'. if c' = c then Some (IoError Other ''failed'') else None\<rparr>"

lemma failing_simps [simp]:
  "fe_fails (failing c) c' = (if c' = c then Some (IoError Other ''failed'') else None)" "names (failing c) p = names sample_env p"
  "container_dir (failing c) cid = container_dir sample_env cid" "fe_cwd (failing c) = ''/''" "fe_root (failing c) = ''/s''"
  "find_node (failing c) p s = find_node sample_env p s"
  by (simp_all add: failing_def names_def container_dir_def find_node_def)

lemma nothing_mounted: "\<not> busy E p sample_box"
  by (simp add: busy_def sample_box_def)

theorem failed_fork_leaves_nothing_witness:
  "\<exists>s' e. cmd_fork (failing (Mount ''/s/d/overlay/merged'')) ''c'' ''d'' False sample_box = (s', Inl e) \<and>
     \<not> path_exists (failing (Mount ''/s/d/overlay/merged'')) ''/s/d'' s'"
proof -
  let ?E = "failing (Mount ''/s/d/overlay/merged'')"
  obtain s' r where run: "cmd_fork ?E ''c'' ''d'' False sample_box = (s', r)" by (cases "cmd_fork ?E ''c'' ''d'' False sample_box")
  have "r \<noteq> Inr out" for out using fork_mounts [of ?E "''c''" "''d''" False sample_box s' out] run
    by (auto simp: path_join_def is_absolute_def)
  then obtain e where e: "r = Inl e" by (cases r) auto
  have "\<not> path_exists ?E (container_dir ?E ''d'') s'"
    using failed_fork_leaves_nothing [OF _ _ _ _ _ _ run [unfolded e]] sample_new
    by (simp add: path_exists_def nothing_mounted)
  with run e show ?thesis by auto
qed

theorem failed_restore_leaves_nothing_witness:
  "\<exists>s' e. cmd_restore (failing (Mount ''/s/d/overlay/merged'')) ''one'' ''d'' False sample_box = (s', Inl e) \<and>
     \<not> path_exists (failing (Mount ''/s/d/overlay/merged'')) ''/s/d'' s'"
proof -
  let ?E = "failing (Mount ''/s/d/overlay/merged'')"
  obtain s' r where run: "cmd_restore ?E ''one'' ''d'' False sample_box = (s', r)"
    by (cases "cmd_restore ?E ''one'' ''d'' False sample_box")
  have "r \<noteq> Inr out" for out using restore_mounts [of ?E "''one''" "''d''" False sample_box s' out] run
    by (auto simp: path_join_def is_absolute_def)
  then obtain e where e: "r = Inl e" by (cases r) auto
  have "\<not> path_exists ?E (container_dir ?E ''d'') s'"
    using failed_restore_leaves_nothing [OF _ _ _ _ _ _ run [unfolded e]] sample_new
    by (simp add: path_exists_def nothing_mounted)
  with run e show ?thesis by auto
qed

definition living :: "jval fs_env" where
  "living = sample_env\<lparr>fe_alive := \<lambda>_ _. True\<rparr>"

lemma living_simps [simp]:
  "fe_json living = jv" "fe_text living = codec" "fe_alive living pid m" "names living p = names sample_env p"
  "container_dir living x = container_dir sample_env x"
  by (simp_all add: living_def names_def container_dir_def)

lemma sample_cdir: "cd_state (cdir_of (Dir m [(''overlay'', u), (''overlay.json'', j), (''state.json'', File m' (bytes_of x)), k])) = Some x"
  by (simp add: cdir_of_def file_text_def)

theorem live_container_refused_witness:
  "(\<exists>e. cmd_snapshot living ''c'' ''one'' sample_box = (sample_box, Inl e)) \<and>
   (\<exists>e. cmd_fork living ''c'' ''d'' False sample_box = (sample_box, Inl e)) \<and>
   (\<exists>e. cmd_reset living ''c'' False sample_box = (sample_box, Inl e))"
proof (rule live_container_refused)
  show "path_exists living (container_dir living ''c'') sample_box"
    by (simp add: path_exists_def find_node_def sample_box_def)
  show "read_status_pid_comm (fe_json living) (fe_text living) (cdir_at living (container_dir living ''c'') sample_box) =
      (Some ''running'', 7, None)"
    by (simp add: cdir_at_def find_node_def sample_box_def read_status_pid_comm_def sample_cdir get_str_def get_i64_def i64_as_i32_def)
qed simp_all

section \<open>Snapshot and restore on the sample\<close>

lemma snapshot_frame:
  assumes abs: "is_absolute (fe_cwd E)" and root: "runtime_root_dir E = Ok r" "has_dir (names E r) s"
    and run: "cmd_snapshot E cid sid s = (s1, Inr ())"
  shows "only_below (names E r @ [''.snapshots'']) (fs_tree s) (fs_tree s1)" "name_ok sid"
proof -
  let ?base = "path_join (path_join r ''.snapshots'') sid"
  from run root(1) obtain src sa sb x where name: "name_ok sid" and sa: "create_dir_all E ?base s = (sa, Inr ())"
    and sb: "clone_dir E src (path_join ?base ''upper'') sa = (sb, Inr ())"
    and w: "write_file E (path_join ?base ''meta.json'') x sb = (s1, Inr ())"
    by (auto simp: cmd_snapshot_def io_bind_Inr_iff Let_def validate_name_ok io_undo_Inr snapshot_paths_of_def
        split: prod.splits dest!: refuse_existing_result)
  have nr: "names E ?base = names E r @ ''.snapshots'' # [sid]"
    using names_join [of sid E "path_join r ''.snapshots''"] name_ok_path [OF name] abs names_below(9) [OF abs] by simp
  note nb = names_below [OF abs, of ?base]
  let ?S = "names E r @ [''.snapshots'']"
  from create_dir_below [OF sa nr root(2)] have a: "only_below ?S (fs_tree s) (fs_tree sa)" by simp
  have "has_dir (?S @ [sid]) sa"
    using sa make_dirs_dir by (auto simp: create_dir_all_Inr nr has_dir_def)
  then have "has_dir ?S sa" using lookup_dir_prefix [of "fs_tree sa" ?S sid "[]"] by (auto simp: has_dir_def)
  then have "inside ?S sa sa" by (rule inside_refl)
  from triple_Inr [OF inside_write triple_Inr [OF inside_clone this sb] w] have "inside ?S sa s1" by (simp add: nb nr)
  with a show "only_below ?S (fs_tree s) (fs_tree s1)" by (auto simp: inside_def intro: only_below_trans)
  show "name_ok sid" by (rule name)
qed

lemma sample_runtime_root: "runtime_root_dir sample_env = Ok ''/s''"
  by (simp add: runtime_root_dir_def container_dir_def path_parent_def path_join_def is_absolute_def trivial_piece_def)

lemma sample_snapshot_separate:
  "\<not> prefix (names sample_env ''/s'' @ [''.snapshots'']) (names sample_env (ov_upper sample_ov))"
  "\<not> prefix (names sample_env (ov_upper sample_ov)) (names sample_env ''/s'' @ [''.snapshots''])"
  by simp_all

lemma sample_root_dir: "has_dir (names sample_env ''/s'') sample_box" "name_ok ''one''"
  by (simp_all add: has_dir_def sample_box_def name_ok_def)

lemma sample_snapshots: "\<exists>s1. cmd_snapshot sample_env ''c'' ''one'' sample_box = (s1, Inr ())"
proof (rule snapshot_succeeds [OF sample_new(4) sample_no_failures _ sample_runtime_root sample_root_dir(1) _ sample_root_dir(2)
      _ _ sample_up(1,3,2) sample_snapshot_separate])
  show "lookup (fs_tree sample_box) (names sample_env ''/s'' @ [''.snapshots'']) = None" by (simp add: sample_box_def)
qed (simp_all add: linux_privileged sample_stopped sample_read_overlay)

lemma sample_clone: "clone_upperdir linux_host dst False sample_upper_dir = Ok c \<Longrightarrow>
    c = Dir (plain_meta 0x1ED) [(''f'', File (plain_meta 0x1A4) [1, 2])]"
  by (simp add: clone_upperdir_def sample_upper_dir_def copy_metadata_fresh [OF linux_privileged] wf_meta_def plain_meta_def
      kept_xattrs_def) (simp add: linux_host_def)

theorem snapshot_restore_roundtrip_witness:
  "\<exists>s1 s3 out c. cmd_snapshot sample_env ''c'' ''one'' sample_box = (s1, Inr ()) \<and>
     cmd_restore sample_env ''one'' ''d'' False s1 = (s3, Inr out) \<and>
     find_node sample_env ''/s/d/overlay/upper'' s3 = Some c \<and> same_files c sample_upper_dir"
proof -
  from sample_snapshots obtain s1 where snap: "cmd_snapshot sample_env ''c'' ''one'' sample_box = (s1, Inr ())" by blast
  have read: "read_overlay_state sample_env (container_dir sample_env ''c'') sample_box = Ok (sample_ov, 3)"
    by (simp add: sample_read_overlay)
  note below = snapshot_frame(1) [OF sample_new(4) sample_runtime_root sample_root_dir(1) snap]
  have b1: "lookup (fs_tree s1) [''b''] = Some (Dir (plain_meta 0x1ED) [])"
    using only_below_disjoint [OF below, of "[''b'']"] sample_b by simp
  have d1: "\<not> path_exists sample_env (container_dir sample_env ''d'') s1"
    using only_below_disjoint [OF below, of "[''s'', ''d'']"] sample_new(3) by (simp add: path_exists_def find_node_def)
  obtain sn t c st where sn: "snapshot_paths_of sample_env ''one'' = Ok sn" "names sample_env (sn_root sn) = names sample_env ''/s'' @ [''.snapshots'', ''one'']"
    "names sample_env (sn_upper sn) = names sample_env (sn_root sn) @ [''upper'']"
    and t: "find_node sample_env (ov_upper sample_ov) sample_box = Some t" "clone_upperdir (fe_host sample_env) (sn_upper sn) False t = Ok c"
    and c: "find_node sample_env (sn_upper sn) s1 = Some c"
    and m: "read_file sample_env (sn_meta sn) s1 = Ok (jt_print (fe_text sample_env)
       (snapshot_json (fe_json sample_env) ''one'' ''c'' sample_ov (bundle_or_empty sample_env (container_dir sample_env ''c'') sample_box) 3 st))"
    by (rule snapshot_result [OF sample_new(4) sample_runtime_root sample_root_dir(1) read sample_snapshot_separate snap])
  have cv: "c = Dir (plain_meta 0x1ED) [(''f'', File (plain_meta 0x1A4) [1, 2])]"
    using t sample_upper_facts(1) by (intro sample_clone) simp
  have meta: "read_snapshot_meta sample_env sn s1 = Ok \<lparr>fm_lowers = [''/b''],
      fm_bundle = bundle_or_empty sample_env (container_dir sample_env ''c'') sample_box, fm_reset = 3\<rparr>"
    using b1 by (simp add: read_snapshot_meta_def read_json_file [OF m] codec.parse_print codec.snapshot_json_back
        sample_lowers check_available_def walk_dir_def path_eval)
  have "has_dir [''s''] s1"
    using c lookup_dir_prefix [of "fs_tree s1" "[''s'']" "''.snapshots''" "[''one'', ''upper'']" c] sn
    by (simp add: find_node_def has_dir_def)
  moreover have "measured sample_env (sn_upper sn) s1 = measured sample_env (ov_upper sample_ov) sample_box"
    by (simp only: measured_def c cv sample_up(1))
  ultimately have "\<exists>s' out. cmd_restore sample_env ''one'' ''d'' False s1 = (s', Inr out)"
    using c cv sn by (intro restore_succeeds [OF sample_new(4) sample_no_failures _ _ sample_new(2) d1 sample_root_dir(2) sn(1) meta _ sample_up(3) _])
      (simp_all add: linux_privileged sample_up(2) sample_apart sample_fresh_valid [OF b1])
  then obtain s3 out where rest: "cmd_restore sample_env ''one'' ''d'' False s1 = (s3, Inr out)" by blast
  have "\<exists>c. find_node sample_env (path_join (container_dir sample_env ''d'') ''overlay/upper'') s3 = Some c \<and> same_files c sample_upper_dir"
    using snapshot_restore_roundtrip [OF sample_new(4) sample_json_laws _ _ read sample_upper_facts(1) wf_uniq [OF sample_upper_facts(3)]
      _ _ snap refl _ rest] sample_runtime_root sample_root_dir(1) sample_snapshot_separate sample_lowers sample_apart by fastforce
  with snap rest show ?thesis by (simp add: path_join_def is_absolute_def)
qed

end
