(* ===== verification/Portable.thy ===== *)
theory Portable
  imports Tar Rollout_Progress Spawn
begin

text \<open>
  Checkpoints that travel: \<^verbatim>\<open>export-checkpoint\<close> flattens the layers of a checkpoint and writes them as an archive,
  \<^verbatim>\<open>import-checkpoint\<close> unpacks an archive, installs its root file system as a layer and records a checkpoint on it.
  At the end, the two commands of \<^verbatim>\<open>rollout.rs\<close> that hand over to other parts: the exported diff and \<^verbatim>\<open>activate\<close>.
\<close>

section \<open>Unpacking on a directory tree\<close>

text \<open>Removing whatever is at a path; nothing happens when there is nothing.\<close>

fun discard :: "string list \<Rightarrow> tree \<Rightarrow> tree" where
  "discard [] t = t"
| "discard [n] (Dir m es) = Dir m (filter (\<lambda>e. fst e \<noteq> n) es)"
| "discard (n # ns) (Dir m es) =
     (case map_of es n of None \<Rightarrow> Dir m es | Some c \<Rightarrow> Dir m (AList.update n (discard ns c) es))"
| "discard (n # ns) t = t"

text \<open>\<^verbatim>\<open>create_dir_all\<close> of the parent of a path: the path's names but the last.\<close>

definition create_parents :: "'v fs_env \<Rightarrow> string \<Rightarrow> (fsys, unit) io" where
  "create_parents E p =
     io_bind (call E (Create_Dirs (unwrap_or (path_parent p) []))) (\<lambda>_. edit (make_dirs (new_dir E) (butlast (names E p))))"

definition remove_path_any :: "'v fs_env \<Rightarrow> string \<Rightarrow> (fsys, unit) io" where
  "remove_path_any E p = io_bind (call E (Remove_All p)) (\<lambda>_. edit (\<lambda>t. Ok (discard (names E p) t)))"

text \<open>A node that must be new (\<^verbatim>\<open>O_EXCL\<close>, symlink and mknod), and a change of permissions.\<close>

definition make_new :: "'v fs_env \<Rightarrow> string \<Rightarrow> tree \<Rightarrow> (fsys, unit) io" where
  "make_new E p n =
     io_bind (call E (Write_File p)) (\<lambda>_.
     edit (\<lambda>t. if lookup t (names E p) = None then put_node (names E p) n t else Err AlreadyExists ''File exists''))"

definition set_permissions :: "'v fs_env \<Rightarrow> string \<Rightarrow> u32 \<Rightarrow> (fsys, unit) io" where
  "set_permissions E p mode =
     edit (\<lambda>t. rbind (ok_or (lookup t (names E p)) no_entry) (\<lambda>n.
       rbind (chmod (fe_host E) mode (meta_of n)) (\<lambda>m. put_node (names E p) (with_meta m n) t)))"

definition new_special :: "'v fs_env \<Rightarrow> u8 \<Rightarrow> u32 \<Rightarrow> u32 \<Rightarrow> u32 \<Rightarrow> tree" where
  "new_special E flag mode ma mi =
     (let m = fresh (fe_host E) (mode AND 0xFFF AND NOT (fe_umask E))
      in if flag = 0x33 then Char_Device m ma mi else if flag = 0x34 then Block_Device m ma mi else Fifo m)"

definition new_file :: "'v fs_env \<Rightarrow> u8 list \<Rightarrow> tree" where
  "new_file E c = File (fresh (fe_host E) (0x1B6 AND NOT (fe_umask E))) c"

fun unpack_op :: "'v fs_env \<Rightarrow> tar_op \<Rightarrow> (fsys, unit) io" where
  "unpack_op E (Op_Mkdir p mode) = io_seq [create_dir_all E p, set_permissions E p mode]"
| "unpack_op E (Op_Symlink p l) =
     io_seq [create_parents E p, io_bind (io_try (remove_path_any E p)) (\<lambda>_. io_ok ()), make_new E p (Symlink (fresh (fe_host E) 0x1FF) l)]"
| "unpack_op E (Op_File p c mode) = io_seq [create_parents E p, make_new E p (new_file E c), set_permissions E p mode]"
| "unpack_op E (Op_Partial p c) = io_seq [create_parents E p, make_new E p (new_file E c)]"
| "unpack_op E (Op_Node p flag mode ma mi) =
     io_seq [create_parents E p, io_bind (io_try (remove_path_any E p)) (\<lambda>_. io_ok ()), make_new E p (new_special E flag mode ma mi)]"
| "unpack_op E (Op_Clear p) = io_seq [create_parents E p, io_bind (io_try (remove_path_any E p)) (\<lambda>_. io_ok ())]"

text \<open>
  The calls follow symbolic links on the way to their path, and \<^verbatim>\<open>create_dir_all\<close> at its end as well. What they do then
  lies outside the names of the path: it is a parameter, \<open>thru\<close>.
\<close>

definition link_at :: "tree \<Rightarrow> string list \<Rightarrow> bool" where
  "link_at t p = (case lookup t p of Some n \<Rightarrow> is_symlink n | None \<Rightarrow> False)"

definition crosses :: "'v fs_env \<Rightarrow> tar_op \<Rightarrow> tree \<Rightarrow> bool" where
  "crosses E act t =
     (let ns = names E (op_path act); k = (case act of Op_Mkdir _ _ \<Rightarrow> Suc (length ns) | _ \<Rightarrow> length ns)
      in list_ex (\<lambda>i. link_at t (take i ns)) [0..<k])"

definition unpack :: "'v fs_env \<Rightarrow> (tar_op \<Rightarrow> fsys \<Rightarrow> unit io_result \<times> fsys) \<Rightarrow> tar_op \<Rightarrow> fsys \<Rightarrow> unit io_result \<times> fsys" where
  "unpack E thru act s =
     (if crosses E act (fs_tree s) then thru act s else case unpack_op E act s of (s', r) \<Rightarrow> (r, s'))"

section \<open>What unpacking an archive leaves\<close>

text \<open>
  The image of a tree after its way through an archive: new owners, the permissions of the header (and of the umask, for devices),
  no extended attributes, no sockets.
\<close>

fun unpacked :: "'v fs_env \<Rightarrow> tree \<Rightarrow> tree option" where
  "unpacked E (Dir m es) =
     Some (Dir (fresh (fe_host E) (perm m AND 0xFFF)) (concat (map (\<lambda>x. case unpacked E (snd x) of None \<Rightarrow> [] | Some c \<Rightarrow> [(fst x, c)]) (in_order es))))"
| "unpacked E (File m c) = Some (File (fresh (fe_host E) (perm m AND 0xFFF)) c)"
| "unpacked E (Symlink m l) = Some (Symlink (fresh (fe_host E) 0x1FF) l)"
| "unpacked E (Char_Device m ma mi) = Some (Char_Device (fresh (fe_host E) (perm m AND 0xFFF AND NOT (fe_umask E))) ma mi)"
| "unpacked E (Block_Device m ma mi) = Some (Block_Device (fresh (fe_host E) (perm m AND 0xFFF AND NOT (fe_umask E))) ma mi)"
| "unpacked E (Fifo m) = Some (Fifo (fresh (fe_host E) (perm m AND 0xFFF AND NOT (fe_umask E))))"
| "unpacked E (Socket m) = None"

section \<open>Edits along a path\<close>

lemma put_put: "put_node p x t = Ok t' \<Longrightarrow> put_node p y t' = put_node p y t"
proof (induction p x t arbitrary: t' rule: put_node.induct)
  case (3 n a ns x m es)
  then obtain c c' where c: "map_of es n = Some c" "put_node (a # ns) x c = Ok c'" "t' = Dir m (AList.update n c' es)"
    by (auto split: option.splits)
  from 3(1) [OF c(1,2)] c show ?case by (simp add: update_conv' update_last)
qed (auto simp: update_last)

lemma put_snoc: "lookup t p = Some (Dir m es) \<Longrightarrow> put_node (p @ [n]) x t = put_node p (Dir m (AList.update n x es)) t"
proof (induction t p rule: lookup.induct)
  case (2 t k ks)
  then obtain c where c: "map_of (entries_of t) k = Some c" "lookup c ks = Some (Dir m es)" by (auto split: option.splits)
  then obtain m' es' where t: "t = Dir m' es'" by (cases t) auto
  from 2(1) [OF c] c(1) t show ?case by (cases ks) (auto simp: t)
qed simp

lemma put_present: "lookup t p = Some c \<Longrightarrow> \<exists>t'. put_node p x t = Ok t'"
proof (induction t p rule: lookup.induct)
  case (2 t k ks)
  then obtain c' where c: "map_of (entries_of t) k = Some c'" "lookup c' ks = Some c" by (auto split: option.splits)
  then obtain m' es' where t: "t = Dir m' es'" by (cases t) auto
  from 2(1) [OF c] c(1) t show ?case by (cases ks) auto
qed simp

lemma put_same: "lookup t p = Some x \<Longrightarrow> put_node p x t = Ok t"
proof (induction t p rule: lookup.induct)
  case (2 t k ks)
  then obtain c where c: "map_of (entries_of t) k = Some c" "lookup c ks = Some x" by (auto split: option.splits)
  then obtain m es where t: "t = Dir m es" by (cases t) auto
  from 2(1) [OF c] c t show ?case by (cases ks) (auto simp: update_triv)
qed simp

lemma make_dirs_present: "lookup t p = Some (Dir m es) \<Longrightarrow> make_dirs d p t = Ok t"
proof (induction t p rule: lookup.induct)
  case (2 t k ks)
  then obtain c where c: "map_of (entries_of t) k = Some c" "lookup c ks = Some (Dir m es)" by (auto split: option.splits)
  then obtain m' es' where t: "t = Dir m' es'" by (cases t) auto
  from 2(1) [OF c] c(1) t show ?case by (simp add: update_triv)
qed simp

lemma make_dirs_snoc:
  "lookup t p = Some (Dir m es) \<Longrightarrow> map_of es n = None \<Longrightarrow> make_dirs d (p @ [n]) t = put_node (p @ [n]) (Dir d []) t"
proof (induction t p rule: lookup.induct)
  case (2 t k ks)
  then obtain c where c: "map_of (entries_of t) k = Some c" "lookup c ks = Some (Dir m es)" by (auto split: option.splits)
  then obtain m' es' where t: "t = Dir m' es'" by (cases t) auto
  from 2(1) [OF c 2(3)] c(1) t show ?case by (cases ks) auto
qed simp

lemma discard_absent: "lookup t p = None \<Longrightarrow> discard p t = t"
proof (induction p t rule: discard.induct)
  case (2 n m es)
  then have "n \<notin> fst ` set es" by (simp add: map_of_eq_None_iff split: option.splits)
  then show ?case by (auto simp: filter_id_conv)
next
  case (3 n a ns m es)
  then show ?case by (auto simp: update_triv split: option.splits)
qed simp_all

text \<open>A directory is reached through directories only.\<close>

lemma lookup_take_dir:
  assumes "lookup t p = Some (Dir m es)" "i \<le> length p" shows "\<exists>m' es'. lookup t (take i p) = Some (Dir m' es')"
proof (cases "i = length p")
  case False
  with assms have "p = take i p @ p ! i # drop (Suc i) p" by (simp add: id_take_nth_drop)
  with assms(1) lookup_dir_prefix [of t "take i p"] show ?thesis by metis
qed (use assms in simp)

lemma new_not_crossing:
  assumes "lookup t p = Some (Dir m es)" "map_of es n = None" "names E (op_path act) = p @ [n]"
  shows "\<not> crosses E act t"
proof -
  have "lookup t (p @ [n]) = None" using assms(1,2) by (simp add: lookup_append)
  moreover have "\<not> link_at t (take i p)" if "i \<le> length p" for i
    using lookup_take_dir [OF assms(1) that] by (auto simp: link_at_def)
  ultimately have "\<not> link_at t (take i (p @ [n]))" for i
    by (cases "i \<le> length p") (simp_all add: link_at_def)
  then show ?thesis by (auto simp: crosses_def Let_def assms(3) list_ex_iff split: tar_op.splits)
qed

section \<open>One entry\<close>

text \<open>A run of operations that puts a node at a path and changes nothing else.\<close>

definition puts :: "(fsys \<Rightarrow> unit io_result \<times> fsys) \<Rightarrow> string list \<Rightarrow> tree \<Rightarrow> fsys \<Rightarrow> bool" where
  "puts f p x s \<longleftrightarrow> (\<exists>t'. put_node p x (fs_tree s) = Ok t' \<and> f s = (Ok (), s\<lparr>fs_tree := t'\<rparr>))"

lemma edit_Ok: "f (fs_tree s) = Ok t \<Longrightarrow> edit f s = (s\<lparr>fs_tree := t\<rparr>, Ok ())"
  by (simp add: edit_def)

lemma make_new_at:
  assumes "no_failures E" "names E p = q @ [n]" "lookup (fs_tree s) q = Some (Dir m es)" "map_of es n = None"
    "put_node (q @ [n]) x (fs_tree s) = Ok t"
  shows "make_new E p x s = (s\<lparr>fs_tree := t\<rparr>, Ok ())"
  using assms by (simp add: make_new_def call_ok edit_def lookup_append)

lemma set_permissions_at:
  assumes "privileged (fe_host E)" "names E p = q" "lookup (fs_tree s) q = Some x"
    "put_node q (with_meta ((meta_of x)\<lparr>perm := mode AND 0xFFF\<rparr>) x) (fs_tree s) = Ok t"
  shows "set_permissions E p mode s = (s\<lparr>fs_tree := t\<rparr>, Ok ())"
  using assms by (simp add: set_permissions_def edit_def chmod_def os_result_def privileged_def)

lemma create_parents_at:
  assumes "no_failures E" "names E p = q @ [n]" "lookup (fs_tree s) q = Some (Dir m es)"
  shows "create_parents E p s = (s, Ok ())"
  using assms make_dirs_present [OF assms(3)] by (simp add: create_parents_def call_ok edit_def)

lemma remove_nothing:
  assumes "no_failures E" "names E p = q @ [n]" "lookup (fs_tree s) q = Some (Dir m es)" "map_of es n = None"
  shows "remove_path_any E p s = (s, Ok ())"
  using assms by (simp add: remove_path_any_def call_ok edit_def discard_absent lookup_append)

text \<open>What a node of the archive puts at its path, before the entries of a directory.\<close>

fun unpacked_node :: "'v fs_env \<Rightarrow> tree \<Rightarrow> tree option" where
  "unpacked_node E (Dir m es) = Some (Dir (fresh (fe_host E) (perm m AND 0xFFF)) [])"
| "unpacked_node E t = unpacked E t"

lemma mode_twice: "(w AND 0xFFF) AND 0xFFF = w AND 0xFFF" "(w AND 0xFFF) AND 0xFFF AND v = w AND 0xFFF AND v" for w :: u32
  by (simp_all add: and.assoc)

lemma fresh_perm [simp]: "(fresh H p)\<lparr>perm := q\<rparr> = fresh H q"
  by (simp add: fresh_def)

lemma fresh_meta [simp]: "with_meta q (new_file E c) = File q c" "meta_of (new_file E c) = fresh (fe_host E) (0x1B6 AND NOT (fe_umask E))"
  by (simp_all add: new_file_def)

lemma node_puts:
  assumes E: "no_failures E" "privileged (fe_host E)" and p: "names E p = q @ [n]"
    and s: "lookup (fs_tree s) q = Some (Dir m es)" "map_of es n = None" and x: "unpacked_node E x = Some y"
  shows "puts (exec_ops (unpack E thru) (node_op p x)) (q @ [n]) y s"
proof -
  define t where "t z = projr (put_node (q @ [n]) z (fs_tree s))" for z
  have t: "put_node (q @ [n]) z (fs_tree s) = Ok (t z)" for z
    using put_node_ok [OF s(1), of n z] by (auto simp: t_def is_ok_iff)
  have cross: "\<not> crosses E act (fs_tree s)" if "op_path act = p" for act
    using new_not_crossing [OF s, of E act] p that by simp
  have at: "lookup (t z) (q @ [n]) = Some z" for z by (rule put_node_at [OF t])
  have again: "put_node (q @ [n]) y (t z) = Ok (t y)" for y z using put_put [OF t] t by simp
  have dirs: "create_dir_all E p s = (s\<lparr>fs_tree := t (Dir (new_dir E) [])\<rparr>, Ok ())"
    using make_dirs_snoc [OF s] t by (simp add: create_dir_all_def call_ok [OF E(1)] edit_def p)
  note new = make_new_at [OF E(1) p s t] create_parents_at [OF E(1) p s(1)] remove_nothing [OF E(1) p s]
  have perms: "set_permissions E p mode (s\<lparr>fs_tree := t z\<rparr>) = (s\<lparr>fs_tree := t (with_meta ((meta_of z)\<lparr>perm := mode AND 0xFFF\<rparr>) z)\<rparr>, Ok ())" for z mode
    using set_permissions_at [OF E(2) p, of "s\<lparr>fs_tree := t z\<rparr>" z mode] at again by simp
  have one: "puts (exec_ops (unpack E thru) [act]) (q @ [n]) z s"
    if "op_path act = p" "unpack_op E act s = (s\<lparr>fs_tree := t z\<rparr>, Ok ())" for act z
    using that by (simp add: puts_def t unpack_def cross)
  have mk: "unpack_op E (Op_Mkdir p mode) s = (s\<lparr>fs_tree := t (Dir (fresh (fe_host E) (mode AND 0xFFF)) [])\<rparr>, Ok ())" for mode
    by (simp add: io_bind_def dirs perms new_dir_def)
  have ln: "unpack_op E (Op_Symlink p l) s = (s\<lparr>fs_tree := t (Symlink (fresh (fe_host E) 0x1FF) l)\<rparr>, Ok ())" for l
    by (simp add: io_bind_def io_try_def new)
  have fl: "unpack_op E (Op_File p c mode) s = (s\<lparr>fs_tree := t (File (fresh (fe_host E) (mode AND 0xFFF)) c)\<rparr>, Ok ())" for c mode
    by (simp add: io_bind_def new perms)
  have nd: "unpack_op E (Op_Node p flag mode ma mi) s = (s\<lparr>fs_tree := t (new_special E flag mode ma mi)\<rparr>, Ok ())" for flag mode ma mi
    by (simp add: io_bind_def io_try_def new)
  have "\<exists>act. node_op p x = [act] \<and> op_path act = p \<and> unpack_op E act s = (s\<lparr>fs_tree := t y\<rparr>, Ok ())"
    using x by (cases x) (auto simp del: unpack_op.simps simp: mk ln fl nd mode_twice new_special_def)
  then obtain act where "node_op p x = [act]" "op_path act = p" "unpack_op E act s = (s\<lparr>fs_tree := t y\<rparr>, Ok ())" by blast
  then show ?thesis using one by (simp del: exec_ops.simps)
qed

section \<open>A whole archive\<close>

lemma puts_then:
  assumes "puts f p x s" and "\<And>t. put_node p x (fs_tree s) = Ok t \<Longrightarrow> puts g p y (s\<lparr>fs_tree := t\<rparr>)"
  shows "puts (\<lambda>s. then_do (f s) g) p y s"
proof -
  from assms(1) obtain t where t: "put_node p x (fs_tree s) = Ok t" "f s = (Ok (), s\<lparr>fs_tree := t\<rparr>)" by (auto simp: puts_def)
  with assms(2) [OF t(1)] put_put [OF t(1)] show ?thesis by (simp add: puts_def)
qed

lemma puts_nothing: "lookup (fs_tree s) p = Some x \<Longrightarrow> puts (exec_ops exec []) p x s"
  by (simp add: puts_def put_same)

lemma puts_entry:
  assumes "lookup (fs_tree s) p = Some (Dir m es)" "n \<notin> fst ` set es"
  shows "puts f (p @ [n]) y s \<longleftrightarrow> puts f p (Dir m (es @ [(n, y)])) s"
  using put_snoc [OF assms(1), of n y] by (simp add: puts_def update_absent [OF assms(2)])

lemma puts_append:
  "puts (exec_ops exec xs) p x s \<Longrightarrow> (\<And>t. put_node p x (fs_tree s) = Ok t \<Longrightarrow> puts (exec_ops exec ys) p y (s\<lparr>fs_tree := t\<rparr>)) \<Longrightarrow>
   puts (exec_ops exec (xs @ ys)) p y s"
  using puts_then [of "exec_ops exec xs" p x s "exec_ops exec ys" y] by (simp add: puts_def exec_ops_append)

definition unpacked_entries :: "'v fs_env \<Rightarrow> (string \<times> tree) list \<Rightarrow> (string \<times> tree) list" where
  "unpacked_entries E xs = concat (map (\<lambda>x. case unpacked E (snd x) of None \<Rightarrow> [] | Some c \<Rightarrow> [(fst x, c)]) xs)"

lemma unpacked_Dir: "unpacked E (Dir m es) = Some (Dir (fresh (fe_host E) (perm m AND 0xFFF)) (unpacked_entries E (in_order es)))"
  by (simp add: unpacked_entries_def)

declare unpacked.simps(1) [simp del] unpacked_Dir [simp]

text \<open>The operations of one entry, with what lies below it.\<close>

definition entry_ops :: "string \<Rightarrow> string list \<Rightarrow> string \<times> tree \<Rightarrow> tar_op list" where
  "entry_ops dst rel x = node_op (foldl path_join dst (rel @ [fst x])) (snd x) @ tree_ops dst (rel @ [fst x]) (snd x)"

lemma tree_ops_Dir: "tree_ops dst rel (Dir m es) = concat (map (entry_ops dst rel) (in_order es))"
  by (simp only: tree_ops.simps entry_ops_def [abs_def])

definition good_env :: "'v fs_env \<Rightarrow> bool" where
  "good_env E \<longleftrightarrow> no_failures E \<and> privileged (fe_host E) \<and> is_absolute (fe_cwd E)"

lemma names_child: "good_env E \<Longrightarrow> name_ok n \<Longrightarrow> names E (foldl path_join dst (rel @ [n])) = names E (foldl path_join dst rel) @ [n]"
  using names_join [of n E "foldl path_join dst rel"] name_ok_path [of n] by (simp add: good_env_def)

lemma entries_put:
  assumes E: "good_env E" and P: "names E (foldl path_join dst rel) = P"
    and one: "\<And>x s m es. x \<in> set xs \<Longrightarrow> lookup (fs_tree s) P = Some (Dir m es) \<Longrightarrow> fst x \<notin> fst ` set es \<Longrightarrow>
      puts (exec_ops (unpack E thru) (entry_ops dst rel x)) P (Dir m (es @ unpacked_entries E [x])) s"
    and s: "lookup (fs_tree s) P = Some (Dir m es)" "fst ` set xs \<inter> fst ` set es = {}" "distinct (map fst xs)"
  shows "puts (exec_ops (unpack E thru) (concat (map (entry_ops dst rel) xs))) P (Dir m (es @ unpacked_entries E xs)) s"
  using one s
proof (induction xs arbitrary: s es)
  case Nil
  then show ?case using puts_nothing by (simp add: unpacked_entries_def del: exec_ops.simps)
next
  case (Cons x xs)
  have u: "es @ unpacked_entries E (x # xs) = (es @ unpacked_entries E [x]) @ unpacked_entries E xs" by (simp add: unpacked_entries_def)
  have first: "puts (exec_ops (unpack E thru) (entry_ops dst rel x)) P (Dir m (es @ unpacked_entries E [x])) s"
    using Cons.prems by (intro Cons.prems(1)) auto
  show ?case
    unfolding u list.map concat.simps
  proof (rule puts_append [OF first])
    fix t assume t: "put_node P (Dir m (es @ unpacked_entries E [x])) (fs_tree s) = Ok t"
    have "fst ` set (unpacked_entries E [x]) \<subseteq> {fst x}" by (auto simp: unpacked_entries_def split: option.splits)
    then have "set (map fst (unpacked_entries E [x])) \<subseteq> {fst x}" by simp
    moreover have "fst x \<notin> set (map fst xs)" "set (map fst xs) \<inter> set (map fst es) = {}" using Cons.prems(3,4) by auto
    ultimately have "set (map fst xs) \<inter> set (map fst (es @ unpacked_entries E [x])) = {}"
      unfolding map_append set_append by (simp only: Int_Un_distrib) blast
    then have "fst ` set xs \<inter> fst ` set (es @ unpacked_entries E [x]) = {}" by (simp only: set_map)
    moreover have "lookup (fs_tree (s\<lparr>fs_tree := t\<rparr>)) P = Some (Dir m (es @ unpacked_entries E [x]))" using put_node_at [OF t] by simp
    moreover have "distinct (map fst xs)" using Cons.prems(4) by simp
    ultimately show "puts (exec_ops (unpack E thru) (concat (map (entry_ops dst rel) xs))) P
        (Dir m ((es @ unpacked_entries E [x]) @ unpacked_entries E xs)) (s\<lparr>fs_tree := t\<rparr>)"
      using Cons.prems(1) by (intro Cons.IH) simp_all
  qed
qed

lemma tree_put:
  assumes "good_env E" "wf_tree x" "is_dir x" "names E (foldl path_join dst rel) = P" "lookup (fs_tree s) P = Some (Dir m [])"
  shows "puts (exec_ops (unpack E thru) (tree_ops dst rel x)) P (Dir m (unpacked_entries E (in_order (entries_of x)))) s"
  using assms
proof (induction x arbitrary: rel P s m)
  case (Dir m' es')
  have one: "puts (exec_ops (unpack E thru) (entry_ops dst rel x)) P (Dir m (es @ unpacked_entries E [x])) s"
    if x: "x \<in> set (in_order es')" and s: "lookup (fs_tree s) P = Some (Dir m es)" "fst x \<notin> fst ` set es" for x s m es
  proof -
    have ok: "name_ok (fst x)" "wf_tree (snd x)" using Dir.prems(2) x by auto
    let ?p = "foldl path_join dst (rel @ [fst x])"
    have p: "names E ?p = P @ [fst x]" using names_child [OF Dir.prems(1) ok(1)] Dir.prems(4) by simp
    have new: "map_of es (fst x) = None" using s(2) by (simp add: map_of_eq_None_iff)
    have E: "no_failures E" "privileged (fe_host E)" using Dir.prems(1) by (simp_all add: good_env_def)
    show ?thesis
    proof (cases "unpacked_node E (snd x)")
      case None
      then have "entry_ops dst rel x = []" "unpacked_entries E [x] = []" by (cases "snd x"; simp add: entry_ops_def unpacked_entries_def)+
      with puts_nothing [OF s(1)] show ?thesis by (simp del: exec_ops.simps)
    next
      case (Some y)
      note node = node_puts [OF E p s(1) new Some, of thru]
      show ?thesis
      proof (cases "is_dir (snd x)")
        case False
        with Some have "entry_ops dst rel x = node_op ?p (snd x)" "unpacked_entries E [x] = [(fst x, y)]"
          by (cases "snd x"; simp add: entry_ops_def unpacked_entries_def)+
        with node puts_entry [OF s] show ?thesis by simp
      next
        case True
        then obtain mx ex where d: "snd x = Dir mx ex" by (cases "snd x") auto
        with Some have y: "y = Dir (fresh (fe_host E) (perm mx AND 0xFFF)) []" by simp
        let ?z = "Dir (fresh (fe_host E) (perm mx AND 0xFFF)) (unpacked_entries E (in_order ex))"
        have "puts (exec_ops (unpack E thru) (entry_ops dst rel x)) (P @ [fst x]) ?z s"
          unfolding entry_ops_def
        proof (rule puts_append [OF node])
          fix t assume "put_node (P @ [fst x]) y (fs_tree s) = Ok t"
          from put_node_at [OF this] have "lookup (fs_tree (s\<lparr>fs_tree := t\<rparr>)) (P @ [fst x]) = Some (Dir (fresh (fe_host E) (perm mx AND 0xFFF)) [])"
            by (simp add: y)
          moreover have "x \<in> set es'" "snd x \<in> Basic_BNFs.snds x" using x by (simp_all add: prod_set_defs)
          ultimately show "puts (exec_ops (unpack E thru) (tree_ops dst (rel @ [fst x]) (snd x))) (P @ [fst x]) ?z (s\<lparr>fs_tree := t\<rparr>)"
            using Dir.IH [OF _ _ Dir.prems(1) ok(2) True p] by (simp only: d entries_of.simps)
        qed
        with puts_entry [OF s] show ?thesis by (simp add: unpacked_entries_def d)
      qed
    qed
  qed
  show ?case
    unfolding tree_ops_Dir
    using entries_put [where xs = "in_order es'", OF Dir.prems(1,4) one Dir.prems(5)] Dir.prems(2) by simp
qed simp_all

text \<open>
  An archive is unpacked like the tree of its two entries.
\<close>

definition archive_tree :: "u8 list \<Rightarrow> tree \<Rightarrow> tree" where
  "archive_tree manifest x =
     Dir (plain_meta 0x1ED) [(''.rsrun'', Dir (plain_meta 0x1ED) [(''checkpoint.json'', File (plain_meta 0x1A4) manifest)]),
       (''rootfs'', Dir (plain_meta 0x1ED) (entries_of x))]"

lemma archive_order: "in_order [(''.rsrun'', a), (''rootfs'', b)] = [(''.rsrun'', a), (''rootfs'', b)]"
  by (simp add: less_char_def)

lemma archive_ops: "is_dir x \<Longrightarrow> artifact_ops dst manifest x = tree_ops dst [] (archive_tree manifest x)"
  by (cases x) (simp_all add: artifact_ops_def archive_tree_def archive_order fixed_modes)

definition archive_image :: "'v fs_env \<Rightarrow> u8 list \<Rightarrow> tree \<Rightarrow> (string \<times> tree) list" where
  "archive_image E manifest x =
     [(''.rsrun'', Dir (fresh (fe_host E) 0x1ED) [(''checkpoint.json'', File (fresh (fe_host E) 0x1A4) manifest)]),
      (''rootfs'', Dir (fresh (fe_host E) 0x1ED) (unpacked_entries E (in_order (entries_of x))))]"

lemma archive_image: "unpacked_entries E (in_order (entries_of (archive_tree manifest x))) = archive_image E manifest x"
  by (simp add: archive_tree_def archive_order archive_image_def unpacked_Dir fixed_modes unpacked_entries_def)

lemma wf_archive: "wf_tree x \<Longrightarrow> is_dir x \<Longrightarrow> wf_tree (archive_tree manifest x)"
  by (cases x) (auto simp: archive_tree_def plain_meta_def wf_meta_def name_ok_def)

lemma unpack_archive:
  assumes E: "good_env E" and x: "wf_tree x" "tar_tree_ok x" "is_dir x"
    and w: "write_checkpoint_artifact_tar manifest x = Some (Ok bytes)" "length manifest < 8 ^ 11"
    and s: "lookup (fs_tree s) (names E dst) = Some (Dir m [])"
  shows "puts (extract_checkpoint_artifact_tar (unpack E thru) dst bytes) (names E dst) (Dir m (archive_image E manifest x)) s"
proof -
  note ops = exported_ops [OF w(1) x(2) w(2)]
  have "puts (exec_ops (unpack E thru) (tree_ops dst [] (archive_tree manifest x))) (names E dst)
      (Dir m (unpacked_entries E (in_order (entries_of (archive_tree manifest x))))) s"
    using wf_archive [OF x(1,3)] s by (intro tree_put [OF E]) (simp_all add: archive_tree_def)
  then show ?thesis by (simp add: puts_def ops archive_ops [OF x(3)] archive_image)
qed

section \<open>Export\<close>

text \<open>The names of the temporary directories.\<close>

definition temp_name :: "string \<Rightarrow> string \<Rightarrow> nat \<Rightarrow> string" where
  "temp_name pre checkpoint_id pid = pre @ checkpoint_id @ ''-'' @ dec_nat pid"

text \<open>
  An export can also end where the flattening leaves the tree, or in the panic of a number that does not fit its field.
\<close>

datatype export_stop = Stopped stop | Panicked

definition lift_io :: "(fsys, 'a) io \<Rightarrow> (fsys, export_stop, 'a) comp" where
  "lift_io m = (\<lambda>s. case m s of (s', Inl e) \<Rightarrow> (s', Inl (Stopped (Fails e))) | (s', Inr a) \<Rightarrow> (s', Inr a))"

text \<open>The flattening at a path; what a failed one leaves there is not said.\<close>

definition materialize_at ::
  "'v fs_env \<Rightarrow> (string list \<Rightarrow> string \<Rightarrow> bool) \<Rightarrow> string \<Rightarrow> string list \<Rightarrow> (fsys, export_stop, unit) comp" where
  "materialize_at E D dst lowers =
     io_bind (io_get (path_exists E dst)) (\<lambda>there.
     io_bind (if there then io_ok () else lift_io (create_dir_all E dst)) (\<lambda>_.
     io_bind (io_get (\<lambda>s. rbind (of_io (rcollect (\<lambda>l. ok_or (fe_walk E s l) no_entry) lowers))
       (materialize_lowerdirs (fe_host E) D dst there))) (\<lambda>r.
       case r of
         Inr t \<Rightarrow> lift_io (edit (put_node (names E dst) t))
       | Inl e \<Rightarrow>
           io_bind (lift_io (io_try (if there then io_ok () else edit (put_node (names E dst) (fe_debris E (Dir (new_dir E) []))))))
             (\<lambda>_. io_of (Inl (Stopped e))))))"

definition export_json :: "'v json_api \<Rightarrow> string \<Rightarrow> string \<Rightarrow> u64 \<Rightarrow> 'v" where
  "export_json J checkpoint_id bundle reset_count = jobj J
     [(''version'', ju64 J 1), (''kind'', jstr J ''portable-checkpoint''), (''backend'', jstr J ''overlayfs''),
      (''format'', jstr J ''flattened-rootfs''), (''id'', jstr J checkpoint_id), (''bundle'', jstr J bundle),
      (''resetCount'', ju64 J reset_count)]"

text \<open>The bytes go to the standard output; here they are the result.\<close>

definition write_artifact :: "'v fs_env \<Rightarrow> string \<Rightarrow> fs_meta \<Rightarrow> string \<Rightarrow> (fsys, export_stop, u8 list) comp" where
  "write_artifact E checkpoint_id meta rootfs =
     io_bind (lift_io (io_read (\<lambda>s. ok_or (find_node E rootfs s) no_entry))) (\<lambda>t.
       case write_checkpoint_artifact_tar
           (bytes_of (jt_print (fe_text E) (export_json (fe_json E) checkpoint_id (fm_bundle meta) (fm_reset meta)))) t of
         None \<Rightarrow> io_of (Inl Panicked)
       | Some r \<Rightarrow> lift_io (io_of r))"

definition cmd_export_checkpoint ::
  "'v fs_env \<Rightarrow> (string list \<Rightarrow> string \<Rightarrow> bool) \<Rightarrow> nat \<Rightarrow> string \<Rightarrow> string \<Rightarrow> (fsys, export_stop, u8 list) comp" where
  "cmd_export_checkpoint E D pid checkpoint_id format =
     io_bind (lift_io (io_of (validate_state_name checkpoint_id ''checkpoint id''))) (\<lambda>_.
     if format \<noteq> ''tar'' then lift_io (io_of (Err Other ''export-checkpoint only supports --format tar for now''))
     else
     io_bind (lift_io (io_of (checkpoint_paths_of E checkpoint_id))) (\<lambda>ck.
     io_bind (lift_io (io_read (read_checkpoint_meta E ck))) (\<lambda>meta.
     io_bind (lift_io (io_of (runtime_root_dir E))) (\<lambda>r.
     let tmp = path_join r (temp_name ''.export-'' checkpoint_id pid); rootfs = path_join tmp ''rootfs'' in
     io_bind (lift_io (remove_if_exists E tmp)) (\<lambda>_.
     io_bind (io_try (io_bind (materialize_at E D rootfs (fm_lowers meta)) (\<lambda>_. write_artifact E checkpoint_id meta rootfs))) (\<lambda>result.
     if result = Inl Panicked then io_of result
     else io_bind (lift_io (io_try (remove_dir_all E tmp))) (\<lambda>_. io_of result)))))))"

section \<open>Import\<close>

definition unpack_artifact ::
  "'v fs_env \<Rightarrow> (tar_op \<Rightarrow> fsys \<Rightarrow> unit io_result \<times> fsys) \<Rightarrow> string \<Rightarrow> u8 list \<Rightarrow> (fsys, unit) io" where
  "unpack_artifact E thru dst input = (\<lambda>s. case extract_checkpoint_artifact_tar (unpack E thru) dst input s of (r, s') \<Rightarrow> (s', r))"

definition install_flattened :: "'v fs_env \<Rightarrow> string \<Rightarrow> (fsys, layer_ref) io" where
  "install_flattened E src = (\<lambda>s.
     case rbind (runtime_root_dir E) (\<lambda>r. rbind (ok_or (find_node E src s) no_entry) (\<lambda>t.
            install_overlay2_layer_as (fe_host E) r ''flattened-rootfs'' None t (fs_store s))) of
       Inl e \<Rightarrow> (s, Inl e)
     | Inr (l, S) \<Rightarrow> (s\<lparr>fs_store := S\<rparr>, Ok l))"

definition import_json :: "'v json_api \<Rightarrow> string \<Rightarrow> string \<Rightarrow> u64 \<Rightarrow> string \<Rightarrow> layer_ref \<Rightarrow> 'v" where
  "import_json J checkpoint_id bundle reset_count lowerdir layer = jobj J
     [(''version'', ju64 J 1), (''kind'', jstr J ''checkpoint''), (''backend'', jstr J ''overlayfs''), (''id'', jstr J checkpoint_id),
      (''source_id'', jnull J), (''bundle'', jstr J bundle), (''resetCount'', ju64 J reset_count), (''entries'', jnull J),
      (''bytes'', jnull J), (''layer'', jstr J lowerdir), (''lowerdirs'', jarr J [jstr J lowerdir]),
      (''parent_lowerdirs'', jarr J []), (''layers'', jarr J [layer_ref_json J layer]), (''portable'', jbool J True)]"

text \<open>Between the creation of the temporary directory and its removal.\<close>

definition import_into_store ::
  "'v fs_env \<Rightarrow> (tar_op \<Rightarrow> fsys \<Rightarrow> unit io_result \<times> fsys) \<Rightarrow> string \<Rightarrow> u8 list io_result \<Rightarrow> (fsys, layer_ref \<times> 'v) io" where
  "import_into_store E thru tmp artifact =
     io_bind (io_of artifact) (\<lambda>input.
     io_bind (unpack_artifact E thru tmp input) (\<lambda>_.
     io_bind (io_read (read_json E (path_join tmp ''.rsrun/checkpoint.json''))) (\<lambda>manifest.
     if get_str (fe_json E) manifest ''kind'' \<noteq> Some ''portable-checkpoint'' then io_of (Err Other ''artifact is not an rsrun checkpoint'')
     else
       io_bind (install_flattened E (path_join tmp ''rootfs'')) (\<lambda>layer. io_ok (layer, manifest)))))"

text \<open>\<open>artifact\<close> is what opening and reading the file gives.\<close>

definition cmd_import_checkpoint ::
  "'v fs_env \<Rightarrow> (tar_op \<Rightarrow> fsys \<Rightarrow> unit io_result \<times> fsys) \<Rightarrow> nat \<Rightarrow> string \<Rightarrow> u8 list io_result \<Rightarrow> bool \<Rightarrow> (fsys, 'v option) io" where
  "cmd_import_checkpoint E thru pid checkpoint_id artifact json =
     io_bind (io_of (validate_state_name checkpoint_id ''checkpoint id'')) (\<lambda>_.
     io_bind (io_of (checkpoint_paths_of E checkpoint_id)) (\<lambda>ck.
     io_bind (refuse_existing E (''checkpoint '' @ checkpoint_id) (ck_root ck)) (\<lambda>_.
     io_bind (io_of (runtime_root_dir E)) (\<lambda>r.
     let tmp = path_join r (temp_name ''.import-'' checkpoint_id pid); J = fe_json E in
     io_bind (remove_if_exists E tmp) (\<lambda>_.
     io_bind (create_dir_all E tmp) (\<lambda>_.
     io_bind (io_try (import_into_store E thru tmp artifact)) (\<lambda>result.
     io_bind (io_try (remove_dir_all E tmp)) (\<lambda>_.
     io_bind (io_of result) (\<lambda>(layer, manifest).
     io_bind (io_of (resolve_layer_ref r layer)) (\<lambda>lowerdir.
     io_bind (create_dir_all E (ck_root ck)) (\<lambda>_.
     io_bind (write_file E (ck_meta ck) (jt_print (fe_text E)
       (import_json J checkpoint_id (unwrap_or (get_str J manifest ''bundle'') []) (unwrap_or (get_u64 J manifest ''resetCount'') 0)
         lowerdir layer))) (\<lambda>_.
       report E json
         [(''id'', jstr J checkpoint_id), (''imported'', jbool J True), (''backend'', jstr J ''overlayfs''), (''layer'', jstr J lowerdir)]))))))))))))"

section \<open>The exported diff, and activation\<close>

datatype 'v exported = Printed 'v | Archived "u8 list"

text \<open>The node at the path an entry of the scan has in the upper directory.\<close>

definition upper_node :: "'v fs_env \<Rightarrow> overlay \<Rightarrow> fsys \<Rightarrow> string list \<Rightarrow> tree option" where
  "upper_node E ov s q = and_then (find_node E (ov_upper ov) s) (\<lambda>t. lookup t q)"

definition cmd_export_diff ::
  "'v fs_env \<Rightarrow> (fsys \<Rightarrow> overlay \<Rightarrow> diff_entry list io_result) \<Rightarrow> string \<Rightarrow> string \<Rightarrow> fsys \<Rightarrow> export_stop + 'v exported" where
  "cmd_export_diff E scan cid format s =
     (case rbind (read_overlay_state E (container_dir E cid) s) (\<lambda>(ov, _). rbind (scan s ov) (\<lambda>es. Ok (ov, es))) of
        Inl e \<Rightarrow> Inl (Stopped (Fails e))
      | Inr (ov, es) \<Rightarrow>
          if format = ''json'' then Inr (Printed (diff_json (fe_json E) cid es))
          else if format = ''tar'' then
            (case write_overlay_tar (upper_node E ov s) es of
               None \<Rightarrow> Inl Panicked
             | Some (Inl e) \<Rightarrow> Inl (Stopped (Fails e))
             | Some (Inr bytes) \<Rightarrow> Inr (Archived bytes))
          else if format = ''patch'' then
            Inl (Stopped (Fails (IoError Other ''export-diff --format patch is not implemented; use tar or json'')))
          else
            Inl (Stopped (Fails (IoError Other
              (''unsupported export-diff format '' @ format @ ''; expected tar, json, or patch'')))))"

text \<open>A container restored from a snapshot or forked is started by the \<^verbatim>\<open>activate\<close> of the life cycle; \<open>bundle\<close> is the path given.\<close>

definition rollout_activate ::
  "'v json_api \<Rightarrow> 'v json_text \<Rightarrow> 'v create_env \<Rightarrow> spawn_env \<Rightarrow> (int \<Rightarrow> bool) \<Rightarrow> string io_result \<Rightarrow> string \<Rightarrow> string \<Rightarrow>
   ext_plan \<Rightarrow> bool \<Rightarrow> deadline \<Rightarrow> spawned \<Rightarrow> spawned \<times> 'v option io_result" where
  "rollout_activate J T ce k alive rootfs cid bundle ext json d s =
     (case validate_state_name cid ''container id'' of
        Inl e \<Rightarrow> (s, Inl e)
      | Inr _ \<Rightarrow>
          (case cmd_activate J T ce k alive rootfs cid ext d s of
             (s', Inl e) \<Rightarrow> (s', Inl e)
           | (s', Inr _) \<Rightarrow> (s', Ok (if json then Some (jobj J
               [(''id'', jstr J cid), (''activated'', jbool J True), (''backend'', jstr J ''overlayfs''), (''bundle'', jstr J bundle)])
               else None))))"

end
