(* ===== verification/Portable_Trip.thy ===== *)
theory Portable_Trip
  imports Portable
begin

text \<open>
  A checkpoint that is exported on one host and imported on another: what arrives.
\<close>

section \<open>Contents\<close>

text \<open>What survives: the type, content, target and numbers of each node; sockets do not.\<close>

definition kept :: "tree option \<Rightarrow> tree option" where
  "kept o' = and_then o' shown"

definition no_socket :: "tree \<Rightarrow> tree option" where
  "no_socket c = (if is_socket c then None else Some c)"

lemma kept_content: "kept o' = and_then (map_option content o') no_socket"
  by (cases o') (simp_all add: kept_def shown_def no_socket_def)

lemma kept_again: "map_option content a = kept b \<Longrightarrow> kept a = kept b"
  unfolding kept_content [of a] by (cases b) (simp_all add: kept_def shown_def no_socket_def)

lemma unpacked_entry: "z \<in> set (unpacked_entries E xs) \<Longrightarrow> \<exists>x \<in> set xs. fst x = fst z \<and> unpacked E (snd x) = Some (snd z)"
  by (force simp: unpacked_entries_def split: option.splits)

lemma unpacked_names: "fst ` set (unpacked_entries E xs) \<subseteq> fst ` set xs"
  by (rule image_subsetI) (metis unpacked_entry image_eqI)

lemma map_of_unpacked: "distinct (map fst xs) \<Longrightarrow> map_of (unpacked_entries E xs) n = and_then (map_of xs n) (unpacked E)"
proof (induction xs)
  case (Cons x xs)
  have "map_of (unpacked_entries E xs) (fst x) = None"
    using Cons.prems unpacked_names [of E xs] by (simp add: map_of_eq_None_iff) blast
  with Cons show ?case by (cases "unpacked E (snd x)") (auto simp: unpacked_entries_def)
qed (simp add: unpacked_entries_def)

lemma unpacked_shown: "map_option content (unpacked E x) = shown x"
  by (cases x) (simp_all add: shown_def content_def)

lemma unpacked_lookup: "wf_tree x \<Longrightarrow> unpacked E x = Some y \<Longrightarrow> map_option content (lookup y p) = kept (lookup x p)"
proof (induction p arbitrary: x y)
  case Nil
  then show ?case using unpacked_shown [of E x] by (simp add: kept_def)
next
  case (Cons n p)
  show ?case
  proof (cases x)
    case (Dir m es)
    then have y: "entries_of y = unpacked_entries E (in_order es)" using Cons.prems(2) by (auto simp: unpacked_Dir)
    have m: "map_of (entries_of y) n = and_then (map_of es n) (unpacked E)"
      unfolding y using Cons.prems(1) by (simp add: Dir map_of_unpacked)
    show ?thesis
    proof (cases "map_of es n")
      case (Some c)
      then have wf: "wf_tree c" using Cons.prems(1) wf_tree_child [of x n c] by (simp add: Dir)
      show ?thesis
      proof (cases "unpacked E c")
        case None
        then obtain ms where "c = Socket ms" by (cases c) auto
        with None Some m show ?thesis by (cases p) (simp_all add: Dir kept_def shown_def)
      next
        case d: (Some d)
        with Cons.IH [OF wf d] Some m show ?thesis by (simp add: Dir)
      qed
    qed (use m in \<open>simp add: Dir kept_def\<close>)
  qed (use Cons.prems(2) in \<open>auto simp: kept_def\<close>)
qed

lemma clone_of_content: "map_option content (clone_of H t) = shown t"
  by (simp add: clone_of_def shown_def content_def)

lemma built_layer_shown:
  assumes "privileged H" "wf_tree t" "is_dir t" "build_layer H f parent d t = Ok l"
  shows "map_option content (lookup (ld_diff l) p) = kept (lookup t p)"
proof -
  obtain m es where t: "t = Dir m es" using assms(3) by (cases t) auto
  from build_layer_total [OF assms(1) assms(2) [unfolded t], of f parent d] assms(4) obtain c
    where c: "clone_path H t = Ok (Some c)" "ld_diff l = readonly c" by (auto simp: t simp del: clone_path.simps readonly.simps)
  have "map_option content (lookup (readonly c) p) = map_option content (lookup c p)"
    by (rule content_of_readonly [OF readonly_lookup])
  also have "\<dots> = map_option content (map_option bare (lookup c p))" by (cases "lookup c p") (simp_all add: content_def)
  also have "\<dots> = kept (lookup t p)"
    unfolding clone_lookup [OF assms(1,2) c(1)] kept_def by (cases "lookup t p") (simp_all add: clone_of_content)
  finally show ?thesis by (simp add: c(2))
qed

lemma wf_fresh: "p AND 0xFFF = p \<Longrightarrow> wf_meta (fresh H p)"
  by (simp add: wf_meta_def fresh_def)

lemma wf_masked: "(p AND 0xFFF AND q) AND 0xFFF = p AND 0xFFF AND q" for p :: u32
  by (rule bit_word_eqI) (auto simp: bit_simps)

lemma wf_unpacked: "wf_tree x \<Longrightarrow> unpacked E x = Some y \<Longrightarrow> wf_tree y"
proof (induction x arbitrary: y)
  case (Dir m es)
  have "distinct (map fst (unpacked_entries E xs))" if "distinct (map fst xs)" for xs
    using that
  proof (induction xs)
    case (Cons x xs)
    then have "fst x \<notin> fst ` set (unpacked_entries E xs)" using Cons.prems unpacked_names [of E xs] by (simp only: list.map distinct.simps set_map) blast
    with Cons show ?case by (auto simp: unpacked_entries_def split: option.splits)
  qed (simp add: unpacked_entries_def)
  moreover have "name_ok (fst z) \<and> wf_tree (snd z)" if z: "z \<in> set (unpacked_entries E (in_order es))" for z
  proof -
    from z obtain x where x: "x \<in> set es" "unpacked E (snd x) = Some (snd z)" "fst z = fst x"
      using unpacked_entry [OF z] by auto
    moreover have "snd x \<in> Basic_BNFs.snds x" by (simp add: prod_set_defs)
    ultimately show ?thesis using Dir.IH [of x "snd x" "snd z"] Dir.prems(1) by auto
  qed
  ultimately show ?case using Dir.prems by (auto simp: unpacked_Dir wf_fresh mode_twice)
qed (auto simp: wf_fresh mode_twice wf_masked)

section \<open>Metadata\<close>

context json_file
begin

lemma export_json_back:
  "get_str J (export_json J i b n) ''kind'' = Some ''portable-checkpoint''" "get_str J (export_json J i b n) ''bundle'' = Some b"
  "get_u64 J (export_json J i b n) ''resetCount'' = Some n"
  by (simp_all add: export_json_def get_str_def get_u64_def json_laws)

lemma import_json_back:
  "resolve_layer_ref r l = Ok p \<Longrightarrow> checkpoint_lowers J r (import_json J i b n p l) = Ok [p]"
  "meta_tail J ls (import_json J i b n p l) = \<lparr>fm_lowers = ls, fm_bundle = b, fm_reset = n\<rparr>"
  by (simp_all add: import_json_def checkpoint_lowers_def meta_tail_def get_str_def get_u64_def get_array_def json_laws
      layer_ref_roundtrip [OF json_value_axioms] path_list_def)

end

section \<open>The import, call by call\<close>

lemma drop_node_in:
  "lookup t C = Some c \<Longrightarrow> drop_node (n # q) c = Ok c' \<Longrightarrow> \<exists>t'. drop_node (C @ n # q) t = Ok t' \<and> lookup t' C = Some c'"
proof (induction t C rule: lookup.induct)
  case (2 t k ks)
  then obtain b where b: "map_of (entries_of t) k = Some b" "lookup b ks = Some c" by (auto split: option.splits)
  then obtain m es where t: "t = Dir m es" by (cases t) auto
  obtain j js where j: "ks @ n # q = j # js" by (cases ks) auto
  from 2(1) [OF b(1,2) 2(3)] b(1) j show ?case by (auto simp: t update_conv')
qed simp

lemma removes_entry:
  assumes "no_failures E" "names E p = C @ [n]" "map_of es n = Some (Dir m' es')" "holds C (Dir m es) s" "\<not> busy E p s"
  shows "\<exists>s'. remove_dir_all E p s = (s', Inr ()) \<and> holds C (Dir m (filter (\<lambda>e. fst e \<noteq> n) es)) s'"
proof -
  have C: "lookup (fs_tree s) C = Some (Dir m es)" using assms(4) by (simp add: holds_def)
  have quiet: "fe_fails E (Remove_All p) = None" using assms(1) by (simp add: no_failures_def)
  have "drop_node [n] (Dir m es) = Ok (Dir m (filter (\<lambda>e. fst e \<noteq> n) es))" using assms(3) by simp
  from drop_node_in [OF C this] show ?thesis
    by (auto simp: remove_quiet [OF quiet assms(5)] edit_def assms(2) holds_def)
qed

text \<open>What lies in the temporary directory is put into the store.\<close>

lemma import_into_store_succeeds:
  assumes E: "good_env E" and J: "json_file (fe_json E) (fe_text E)" and r: "runtime_root_dir E = Ok r"
    and x: "wf_tree x" "tar_tree_ok x" "is_dir x"
    and bytes: "write_checkpoint_artifact_tar (bytes_of (jt_print (fe_text E) manifest)) x = Some (Ok bytes)"
      "length (jt_print (fe_text E) manifest) < 8 ^ 11" "get_str (fe_json E) manifest ''kind'' = Some ''portable-checkpoint''"
    and s: "lookup (fs_tree s) (names E tmp) = Some (Dir m [])" "store_ok (fs_store s)"
  shows "\<exists>t S l. let u = Dir (fresh (fe_host E) 0x1ED) (unpacked_entries E (in_order (entries_of x))) in
    import_into_store E thru tmp (Ok bytes) s = (s\<lparr>fs_tree := t, fs_store := S\<rparr>, Ok (l, manifest)) \<and>
    put_node (names E tmp) (Dir m (archive_image E (bytes_of (jt_print (fe_text E) manifest)) x)) (fs_tree s) = Ok t \<and>
    install_overlay2_layer_as (fe_host E) r ''flattened-rootfs'' None u (fs_store s) = Ok (l, S)"
proof -
  let ?text = "jt_print (fe_text E) manifest" and ?u = "Dir (fresh (fe_host E) 0x1ED) (unpacked_entries E (in_order (entries_of x)))"
  have abs: "is_absolute (fe_cwd E)" "privileged (fe_host E)" using E by (simp_all add: good_env_def)
  from unpack_archive [OF E x bytes(1) _ s(1), of thru] bytes(2) obtain t
    where t: "put_node (names E tmp) (Dir m (archive_image E (bytes_of ?text) x)) (fs_tree s) = Ok t"
      "unpack_artifact E thru tmp bytes s = (s\<lparr>fs_tree := t\<rparr>, Ok ())"
    by (auto simp: puts_def unpack_artifact_def bytes_of_def)
  have "names E (path_join tmp ''.rsrun/checkpoint.json'') = names E tmp @ [''.rsrun'', ''checkpoint.json'']"
    "names E (path_join tmp ''rootfs'') = names E tmp @ [''rootfs'']"
    by (subst names_join [OF _ _ _ abs(1)]; simp add: path_eval)+
  then have found: "find_node E (path_join tmp ''.rsrun/checkpoint.json'') (s\<lparr>fs_tree := t\<rparr>) = Some (File (fresh (fe_host E) 0x1A4) (bytes_of ?text))"
    "find_node E (path_join tmp ''rootfs'') (s\<lparr>fs_tree := t\<rparr>) = Some ?u"
    by (simp_all add: find_node_def put_node_lookup [OF t(1)] archive_image_def)
  have parsed: "read_json E (path_join tmp ''.rsrun/checkpoint.json'') (s\<lparr>fs_tree := t\<rparr>) = Ok manifest"
    by (simp add: read_json_def read_file_def found file_text_def json_file.parse_print [OF J])
  obtain mx ex where d: "x = Dir mx ex" using x(3) by (cases x) auto
  have "wf_tree (Dir (plain_meta 0x1ED) ex)" using x(1) by (simp add: d plain_meta_def wf_meta_def)
  from wf_unpacked [OF this, of E] have "wf_tree ?u" by (simp add: d fixed_modes)
  from install_total [OF abs(2) this s(2)] obtain l S
    where i: "install_overlay2_layer_as (fe_host E) r ''flattened-rootfs'' None ?u (fs_store s) = Ok (l, S)" by blast
  have "import_into_store E thru tmp (Ok bytes) s = (s\<lparr>fs_tree := t, fs_store := S\<rparr>, Ok (l, manifest))"
    by (simp add: import_into_store_def io_bind_def t(2) parsed bytes(3) install_flattened_def r found i)
  with t(1) i show ?thesis unfolding Let_def by blast
qed

lemma temp_name_ok:
  assumes "name_ok cid" shows "name_ok (temp_name ''.import-'' cid pid)" "temp_name ''.import-'' cid pid \<noteq> ''.checkpoints''"
proof -
  have "CHR ''/'' \<notin> ascii_digits" "CHR 0x00 \<notin> ascii_digits" by (simp_all add: ascii_digits_def)
  with set_dec_nat [of pid] have "CHR ''/'' \<notin> set (dec_nat pid)" "CHR 0x00 \<notin> set (dec_nat pid)" by blast+
  with assms show "name_ok (temp_name ''.import-'' cid pid)" by (simp add: name_ok_def temp_name_def)
  show "temp_name ''.import-'' cid pid \<noteq> ''.checkpoints''" by (simp add: temp_name_def)
qed

text \<open>The calls on the tree keep the store and the mounts.\<close>

lemma keeps_rest: "keeps (\<lambda>s. (fs_store s, fs_mounts s) = R) (edit f)"
  by (rule tripleI) (auto simp: edit_def split: sum.splits)

lemma rest_rules:
  "keeps (\<lambda>s. (fs_store s, fs_mounts s) = R) (create_dir_all E p)" "keeps (\<lambda>s. (fs_store s, fs_mounts s) = R) (remove_dir_all E p)"
  "keeps (\<lambda>s. (fs_store s, fs_mounts s) = R) (write_file E p text)"
  by (auto simp: create_dir_all_def put_text_def intro!: keeps_bind keeps_call keeps_rest keeps_remove keeps_write)

lemma busy_mounts: "fs_mounts s = fs_mounts s' \<Longrightarrow> busy E p s = busy E p s'"
  by (simp add: busy_def)

lemma update_snoc: "n \<notin> fst ` set es \<Longrightarrow> AList.update n y (es @ [(n, x)]) = es @ [(n, y)]"
  by (induction es) auto

lemma update_new_filter: "n \<notin> fst ` set es \<Longrightarrow> filter (\<lambda>e. fst e \<noteq> n) (es @ [(n, x)]) = es"
  by (auto simp: filter_id_conv)

lemma new_checkpoint:
  assumes "\<forall>c. map_of es a = Some c \<longrightarrow> is_dir c" "lookup (Dir m es) [a, b] = None"
  shows "\<exists>es'. make_dirs dm [a, b] (Dir m es) = Ok (Dir m es') \<and> lookup (Dir m es') [a, b] = Some (Dir dm [])"
proof (cases "map_of es a")
  case (Some c)
  with assms(1) obtain mc ec where "c = Dir mc ec" by (cases c) auto
  with Some assms(2) show ?thesis by (auto simp: update_conv' split: option.splits)
qed (simp add: update_conv')

lemma import_succeeds:
  assumes E: "good_env E" and J: "json_file (fe_json E) (fe_text E)" and r: "runtime_root_dir E = Ok r"
    and x: "wf_tree x" "tar_tree_ok x" "is_dir x"
    and bytes: "write_checkpoint_artifact_tar (bytes_of (jt_print (fe_text E) (export_json (fe_json E) i b n))) x = Some (Ok bytes)"
      "length (jt_print (fe_text E) (export_json (fe_json E) i b n)) < 8 ^ 11"
    and s: "has_dir (names E r) s" "store_ok (fs_store s)" "name_ok cid"
      "\<not> path_exists E (path_join (path_join r ''.checkpoints'') cid) s"
      "\<forall>c. find_node E (path_join r ''.checkpoints'') s = Some c \<longrightarrow> is_dir c"
      "\<not> path_exists E (path_join r (temp_name ''.import-'' cid pid)) s" "\<not> busy E (path_join r (temp_name ''.import-'' cid pid)) s"
  shows "\<exists>s' out l S p. cmd_import_checkpoint E thru pid cid (Ok bytes) json s = (s', Ok out) \<and>
    install_overlay2_layer_as (fe_host E) r ''flattened-rootfs'' None
      (Dir (fresh (fe_host E) 0x1ED) (unpacked_entries E (in_order (entries_of x)))) (fs_store s) = Ok (l, S) \<and> fs_store s' = S \<and>
    resolve_layer_ref r l = Ok p \<and>
    read_file E (path_join (path_join (path_join r ''.checkpoints'') cid) ''meta.json'') s' =
      Ok (jt_print (fe_text E) (import_json (fe_json E) cid b n p l))"
proof -
  let ?tn = "temp_name ''.import-'' cid pid" and ?R = "names E r" and ?d = "new_dir E"
  let ?tmp = "path_join r ?tn" and ?ck = "path_join (path_join r ''.checkpoints'') cid"
  have ok: "no_failures E" and abs: "is_absolute (fe_cwd E)" using E by (simp_all add: good_env_def)
  note nb = names_below [OF abs]
  have nt: "names E ?tmp = ?R @ [?tn]" using names_join [OF _ _ _ abs] name_ok_path [OF temp_name_ok(1) [OF s(3)]] by simp
  have nc: "names E ?ck = ?R @ [''.checkpoints'', cid]" using names_join [OF _ _ _ abs] name_ok_path [OF s(3)] nb(10) by simp
  from s(1) obtain m es where R: "lookup (fs_tree s) ?R = Some (Dir m es)" by (auto simp: has_dir_def)
  have none: "map_of es ?tn = None"
    using s(6) R by (auto simp: path_exists_def find_node_def nt lookup_append split: option.splits)
  then have fresh: "?tn \<notin> fst ` set es" by (simp add: map_of_eq_None_iff)
  have "leads ?R (create_dir_all E ?tmp) () (Dir m es) (Dir m (es @ [(?tn, Dir ?d [])]))"
    by (rule leads_create [OF ok nt]) (simp add: none update_absent [OF fresh])
  from holds_leads [OF this] R obtain s1 where s1: "create_dir_all E ?tmp s = (s1, Ok ())" "holds ?R (Dir m (es @ [(?tn, Dir ?d [])])) s1"
    by (auto simp: holds_def)
  have st1: "(fs_store s1, fs_mounts s1) = (fs_store s, fs_mounts s)" by (rule triple_Inr [OF rest_rules(1) _ s1(1)]) simp
  have t1: "lookup (fs_tree s1) (names E ?tmp) = Some (Dir ?d [])"
    using s1(2) none by (simp add: holds_def nt lookup_append map_add_def)
  let ?man = "export_json (fe_json E) i b n"
  from import_into_store_succeeds [OF E J r x bytes json_file.export_json_back(1) [OF J] t1, of thru] s(2) obtain t S l where
    i: "import_into_store E thru ?tmp (Ok bytes) s1 = (s1\<lparr>fs_tree := t, fs_store := S\<rparr>, Ok (l, ?man))"
      "put_node (names E ?tmp) (Dir ?d (archive_image E (bytes_of (jt_print (fe_text E) ?man)) x)) (fs_tree s1) = Ok t"
      "install_overlay2_layer_as (fe_host E) r ''flattened-rootfs'' None
        (Dir (fresh (fe_host E) 0x1ED) (unpacked_entries E (in_order (entries_of x)))) (fs_store s) = Ok (l, S)"
    using st1 by (auto simp: Let_def)
  let ?s2 = "s1\<lparr>fs_tree := t, fs_store := S\<rparr>" and ?im = "Dir ?d (archive_image E (bytes_of (jt_print (fe_text E) ?man)) x)"
  have h2: "holds ?R (Dir m (es @ [(?tn, ?im)])) ?s2"
    using put_node_at [of ?R] i(2) put_snoc [OF s1(2) [unfolded holds_def], of ?tn ?im] by (simp add: holds_def nt update_snoc [OF fresh])
  have "\<not> busy E ?tmp ?s2" using s(7) st1 by (simp add: busy_def)
  from removes_entry [OF ok nt _ h2 this] obtain s3 where
    s3: "remove_dir_all E ?tmp ?s2 = (s3, Ok ())" "holds ?R (Dir m es) s3"
    using none update_new_filter [OF fresh, of ?im] by (auto simp: map_add_def)
  obtain es4 where es4: "make_dirs ?d [''.checkpoints'', cid] (Dir m es) = Ok (Dir m es4)"
    "lookup (Dir m es4) [''.checkpoints'', cid] = Some (Dir ?d [])"
    using new_checkpoint [of es "''.checkpoints''" m cid ?d] s(4,5) R by (auto simp: path_exists_def find_node_def nc nb(10) lookup_append)
  from holds_leads [OF leads_create [OF ok nc es4(1)] s3(2)] obtain s4 where
    s4: "create_dir_all E ?ck s3 = (s4, Ok ())" "holds ?R (Dir m es4) s4" by blast
  have h4: "holds (names E ?ck) (Dir ?d []) s4" using s4(2) es4(2) by (simp add: holds_def nc lookup_append del: lookup.simps)
  obtain h where "l = installed_ref r ''flattened-rootfs'' (layer_digest h)" using install_effect [OF s(2) i(3)] by blast
  then obtain p where p: "resolve_layer_ref r l = Ok p" by (auto simp: resolve_layer_ref_def installed_ref_def)
  let ?text = "jt_print (fe_text E) (import_json (fe_json E) cid b n p l)" and ?meta = "path_join ?ck ''meta.json''"
  have "names E ?meta = names E ?ck @ [''meta.json'']" by (rule nb(8))
  from holds_leads [OF leads_write [OF ok this] h4] obtain s5 where s5: "write_file E ?meta ?text s4 = (s5, Ok ())" by auto
  have "(fs_store s3, fs_mounts s3) = (S, fs_mounts s1)" by (rule triple_Inr [OF rest_rules(2) _ s3(1)]) simp
  then have "(fs_store s4, fs_mounts s4) = (S, fs_mounts s1)" by (rule triple_Inr [OF rest_rules(1) _ s4(1)])
  then have "(fs_store s5, fs_mounts s5) = (S, fs_mounts s1)" by (rule triple_Inr [OF rest_rules(3) _ s5])
  then have st: "fs_store s5 = S" by simp
  have "cmd_import_checkpoint E thru pid cid (Ok bytes) json s = (s5, Ok (if json then Some (jobj (fe_json E)
      [(''id'', jstr (fe_json E) cid), (''imported'', jbool (fe_json E) True), (''backend'', jstr (fe_json E) ''overlayfs''),
       (''layer'', jstr (fe_json E) p)]) else None))"
    using s(4,6)
    by (simp add: cmd_import_checkpoint_def validate_name_ok [THEN iffD2] s(3) checkpoint_paths_of_def r Let_def refuse_existing_def
        remove_if_exists_def io_bind_def io_try_def s1(1) i(1) s3(1) p s4(1) s5 report_def
        json_file.export_json_back [OF J])
  with i(3) st p write_file_reads [OF s5] show ?thesis by blast
qed

section \<open>The export, call by call\<close>

lemma export_name_ok:
  assumes "name_ok cid" shows "name_ok (temp_name ''.export-'' cid pid)"
proof -
  have "CHR ''/'' \<notin> ascii_digits" "CHR 0x00 \<notin> ascii_digits" by (simp_all add: ascii_digits_def)
  with set_dec_nat [of pid] have "CHR ''/'' \<notin> set (dec_nat pid)" "CHR 0x00 \<notin> set (dec_nat pid)" by blast+
  with assms show ?thesis by (simp add: name_ok_def temp_name_def)
qed

lemma lift_io_ok: "lift_io (io_ok a) = io_ok a"
  by (rule ext) (simp add: lift_io_def)

lemma io_try_at: "io_try m s = (fst (m s), Inr (snd (m s)))"
  by (simp add: io_try_def split: prod.splits)

lemma lift_io_try: "lift_io (io_try m) s = (fst (m s), Inr (snd (m s)))"
  by (simp add: lift_io_def io_try_def split: prod.splits)

lemma export_succeeds:
  fixes E :: "'v fs_env" and D
  assumes E: "no_failures E" "is_absolute (fe_cwd E)" and r: "runtime_root_dir E = Ok r" and name: "name_ok cid"
    and meta: "read_checkpoint_meta E \<lparr>ck_root = path_join (path_join r ''.checkpoints'') cid,
        ck_layer = path_join (path_join (path_join r ''.checkpoints'') cid) ''layer'',
        ck_meta = path_join (path_join (path_join r ''.checkpoints'') cid) ''meta.json''\<rparr> s = Ok meta"
    and tmp: "tmp = path_join r (temp_name ''.export-'' cid pid)"
    and s: "has_dir (names E r) s" "\<not> path_exists E tmp s" "apart E (names E r @ [temp_name ''.export-'' cid pid]) s (fm_lowers meta)"
    and ts: "rcollect (\<lambda>l. ok_or (fe_walk E s l) no_entry) (fm_lowers meta) = Ok ts"
    and flat: "materialize_lowerdirs (fe_host E) D (path_join tmp ''rootfs'') False ts = Inr x"
    and written: "write_checkpoint_artifact_tar
      (bytes_of (jt_print (fe_text E) (export_json (fe_json E) cid (fm_bundle meta) (fm_reset meta)))) x = Some (Ok bytes)"
  shows "\<exists>s'. cmd_export_checkpoint E D pid cid ''tar'' s = (s', Inr bytes)"
proof -
  let ?R = "names E r" and ?n = "temp_name ''.export-'' cid pid" and ?root = "path_join tmp ''rootfs''"
  have nt: "names E tmp = ?R @ [?n]" using names_join [OF _ _ _ E(2)] name_ok_path [OF export_name_ok [OF name]] tmp by simp
  have nr: "names E ?root = ?R @ [?n, ''rootfs'']"
    by (subst names_join [OF _ _ _ E(2)]) (simp_all add: path_eval nt)
  from s(1) obtain m es where R: "lookup (fs_tree s) ?R = Some (Dir m es)" by (auto simp: has_dir_def)
  have none: "map_of es ?n = None"
    using s(2) R by (auto simp: path_exists_def find_node_def nt lookup_append split: option.splits)
  have there: "\<not> path_exists E ?root s" using R none by (simp add: path_exists_def find_node_def nr lookup_append)
  let ?es = "AList.update ?n (Dir (new_dir E) [(''rootfs'', Dir (new_dir E) [])]) es"
  have "leads ?R (create_dir_all E ?root) () (Dir m es) (Dir m ?es)"
    by (rule leads_create [OF E(1) nr]) (simp add: none)
  from holds_leads [OF this] R obtain s1 where s1: "create_dir_all E ?root s = (s1, Ok ())" "holds ?R (Dir m ?es) s1"
    by (auto simp: holds_def)
  have at: "lookup (fs_tree s1) (?R @ [?n, ''rootfs'']) = Some (Dir (new_dir E) [])" "has_dir (?R @ [?n]) s1"
    using s1(2) by (simp_all add: holds_def has_dir_def lookup_append update_conv')
  have "(fs_store s1, fs_mounts s1) = (fs_store s, fs_mounts s)" by (rule triple_Inr [OF rest_rules(1) _ s1(1)]) simp
  then have "fs_store s1 = fs_store s" by simp
  with create_dir_below(1) [OF s1(1) nr s(1)] at(2) have "inside (?R @ [?n]) s s1" by (simp add: inside_def)
  with s(3) have "rcollect (\<lambda>l. ok_or (fe_walk E s1 l) no_entry) (fm_lowers meta) = Ok ts"
    unfolding ts [symmetric] by (intro rcollect_cong) (simp_all add: apart_def)
  note walk = this
  from put_present [OF at(1), of x] obtain t where t: "put_node (?R @ [?n, ''rootfs'']) x (fs_tree s1) = Ok t" by blast
  have mat: "materialize_at E D ?root (fm_lowers meta) s = (s1\<lparr>fs_tree := t\<rparr>, Inr ())"
    by (simp add: materialize_at_def io_bind_def there lift_io_def s1(1) walk flat edit_def nr t)
  have art: "write_artifact E cid meta ?root (s1\<lparr>fs_tree := t\<rparr>) = (s1\<lparr>fs_tree := t\<rparr>, Inr bytes)"
    by (simp add: write_artifact_def io_bind_def lift_io_def find_node_def nr put_node_at [OF t] written)
  have skip: "lift_io (remove_if_exists E tmp) s = (s, Inr ())"
    using s(2) by (simp add: lift_io_def remove_if_exists_def io_bind_def)
  show ?thesis
    by (simp add: cmd_export_checkpoint_def validate_name_ok [THEN iffD2] name checkpoint_paths_of_def r Let_def io_bind_def
        lift_io_ok lift_io_def [of "io_read _"] meta skip [unfolded tmp] mat [unfolded tmp] art [unfolded tmp] lift_io_try io_try_at)
qed

section \<open>From one host to another\<close>

lemma installed_layer:
  assumes "store_ok S" "install_overlay2_layer_as H r f parent src S = Ok (l, S')" "f = ''flattened-rootfs''"
  shows "\<exists>d. resolve_layer_ref r l = Ok (path_join (path_join (layer_store_root r) ''l'') (short_layer_link d)) \<and>
    st_links S' (short_layer_link d) = Some d \<and>
    (st_layers S d = None \<longrightarrow> (\<exists>L. build_layer H f parent d src = Ok L \<and> st_layers S' d = Some L))"
proof -
  obtain h where h: "digest_tree src = Ok h" "l = installed_ref r f (layer_digest h)"
    "st_links S' (short_layer_link (layer_digest h)) = Some (layer_digest h)"
    using assms(1,2) by (rule install_effect)
  have "\<exists>L. build_layer H f parent (layer_digest h) src = Ok L \<and> st_layers S' (layer_digest h) = Some L"
    if "st_layers S (layer_digest h) = None"
    using assms(2) that by (auto simp: install_overlay2_layer_as_def h(1) Let_def add_link_def split: if_splits option.splits)
  moreover have "resolve_layer_ref r l = Ok (path_join (path_join (layer_store_root r) ''l'') (short_layer_link (layer_digest h)))"
    by (simp add: h(2) resolve_layer_ref_def installed_ref_def assms(3))
  ultimately show ?thesis using h(3) by (intro exI [of _ "layer_digest h"] conjI impI)
qed

lemma materialized_dir: "privileged H \<Longrightarrow> materialize_lowerdirs H D dst False ts = Inr x \<Longrightarrow> is_dir x"
  by (auto simp: materialize_lowerdirs_def make_tree_readonly_privileged simp del: make_tree_readonly.simps)

text \<open>The tree shows, below its root, what overlayfs shows of the layers, without the sockets.\<close>

definition shows_merged :: "tree list \<Rightarrow> tree \<Rightarrow> bool" where
  "shows_merged ts t \<longleftrightarrow> (\<forall>q. q \<noteq> [] \<longrightarrow> map_option content (lookup t q) = kept (merged ts q))"

lemma trip_keeps_view:
  assumes "privileged (fe_host E)" "\<forall>t \<in> set ts. wf_tree t \<and> conventional t" "wf_tree x" "is_dir x"
    and flat: "materialize_lowerdirs H D dst False ts = Inr x"
    and built: "build_layer (fe_host E) f parent d (Dir (fresh (fe_host E) 0x1ED) (unpacked_entries E (in_order (entries_of x)))) = Ok L"
  shows "shows_merged ts (ld_diff L)"
  unfolding shows_merged_def
proof (intro allI impI)
  fix q :: "string list" assume q: "q \<noteq> []"
  let ?u = "Dir (fresh (fe_host E) 0x1ED) (unpacked_entries E (in_order (entries_of x)))"
  obtain m es where x: "x = Dir m es" using assms(4) by (cases x) auto
  let ?x = "Dir (plain_meta 0x1ED) es"
  have wf: "wf_tree ?x" using assms(3) by (simp add: x plain_meta_def wf_meta_def)
  have u: "unpacked E ?x = Some ?u" by (simp add: x fixed_modes)
  have "kept (lookup ?u q) = kept (lookup ?x q)" by (rule kept_again [OF unpacked_lookup [OF wf u]])
  also have "lookup ?x q = lookup x q" using q by (cases q) (simp_all add: x)
  also have "kept (lookup x q) = kept (merged ts q)"
    by (rule kept_again) (use materialized_is_merged [OF assms(2) flat q] in \<open>simp add: kept_def\<close>)
  finally show "map_option content (lookup (ld_diff L) q) = kept (merged ts q)"
    using built_layer_shown [OF assms(1) wf_unpacked [OF wf u] _ built] by simp
qed

text \<open>
  C34: A checkpoint that is exported on one host and imported on another arrives: both commands succeed, the
  record of the new checkpoint is read back with the bundle and reset count of the old one and a single lower
  directory, the short link of an installed layer, and that layer, unless one of the same digest was there before,
  shows at every path below its root what overlayfs shows of the exported layers, with the same content, link target
  and device number; sockets stay behind. It holds when no call fails and the processes are privileged; the
  checkpoint can be read, and its layers, well-formed and conventional (without the two markers the kernel and the code
  read differently), lie apart from the temporary directory and can be flattened into a tree that fits the archive
  format; both state directories exist, the temporary directories do not, and nothing is mounted in the importing one;
  the importing store is sound and has no checkpoint of the new id, while other checkpoints may be there.
\<close>

theorem portable_checkpoint:
  fixes E E' :: "'v fs_env" and D
  assumes J: "json_file (fe_json E') (fe_text E')" "fe_json E = fe_json E'" "fe_text E = fe_text E'"
    and E: "good_env E" "runtime_root_dir E = Ok r" "name_ok cid" "tmp = path_join r (temp_name ''.export-'' cid pid)"
    and meta: "read_checkpoint_meta E \<lparr>ck_root = path_join (path_join r ''.checkpoints'') cid,
        ck_layer = path_join (path_join (path_join r ''.checkpoints'') cid) ''layer'',
        ck_meta = path_join (path_join (path_join r ''.checkpoints'') cid) ''meta.json''\<rparr> s = Ok meta"
    and s: "has_dir (names E r) s" "\<not> path_exists E tmp s" "apart E (names E r @ [temp_name ''.export-'' cid pid]) s (fm_lowers meta)"
    and ts: "rcollect (\<lambda>l. ok_or (fe_walk E s l) no_entry) (fm_lowers meta) = Ok ts" "\<forall>t \<in> set ts. wf_tree t \<and> conventional t"
    and flat: "materialize_lowerdirs (fe_host E) D (path_join tmp ''rootfs'') False ts = Inr x" "wf_tree x" "tar_tree_ok x"
    and fits: "text = jt_print (fe_text E) (export_json (fe_json E) cid (fm_bundle meta) (fm_reset meta))" "length text < 8 ^ 11"
    and written: "write_checkpoint_artifact_tar (bytes_of text) x = Some (Ok bytes)"
    and E': "good_env E'" "runtime_root_dir E' = Ok r'" "name_ok cid'" "has_dir (names E' r') u" "store_ok (fs_store u)"
      "\<not> path_exists E' (path_join (path_join r' ''.checkpoints'') cid') u"
      "\<forall>c. find_node E' (path_join r' ''.checkpoints'') u = Some c \<longrightarrow> is_dir c"
      "\<not> path_exists E' (path_join r' (temp_name ''.import-'' cid' pid')) u" "\<not> busy E' (path_join r' (temp_name ''.import-'' cid' pid')) u"
  shows "(\<exists>s'. cmd_export_checkpoint E D pid cid ''tar'' s = (s', Inr bytes)) \<and>
    (\<exists>u' out v p d. cmd_import_checkpoint E' thru pid' cid' (Ok bytes) json u = (u', Inr out) \<and>
       read_json E' (path_join (path_join (path_join r' ''.checkpoints'') cid') ''meta.json'') u' = Ok v \<and>
       checkpoint_lowers (fe_json E') r' v = Ok [p] \<and> p = path_join (path_join (layer_store_root r') ''l'') (short_layer_link d) \<and>
       meta_tail (fe_json E') [p] v = \<lparr>fm_lowers = [p], fm_bundle = fm_bundle meta, fm_reset = fm_reset meta\<rparr> \<and>
       st_links (fs_store u') (short_layer_link d) = Some d \<and>
       (st_layers (fs_store u) d = None \<longrightarrow> (\<exists>L. st_layers (fs_store u') d = Some L \<and> shows_merged ts (ld_diff L))))"
proof
  have ok: "no_failures E" "is_absolute (fe_cwd E)" "privileged (fe_host E)" "privileged (fe_host E')" using E(1) E'(1) by (simp_all add: good_env_def)
  show "\<exists>s'. cmd_export_checkpoint E D pid cid ''tar'' s = (s', Inr bytes)"
    by (rule export_succeeds [OF ok(1,2) E(2,3) meta E(4) s ts(1) flat(1) written [unfolded fits(1)]])
  have dir: "is_dir x" by (rule materialized_dir [OF ok(3) flat(1)])
  let ?man = "export_json (fe_json E') cid (fm_bundle meta) (fm_reset meta)"
  have man: "text = jt_print (fe_text E') ?man" by (simp add: fits(1) J)
  let ?u = "Dir (fresh (fe_host E') 0x1ED) (unpacked_entries E' (in_order (entries_of x)))"
  from import_succeeds [OF E'(1) J(1) E'(2) flat(2,3) dir written [unfolded man] fits(2) [unfolded man] E'(4,5,3,6,7,8,9)]
  obtain u' out l S p where imp: "cmd_import_checkpoint E' thru pid' cid' (Ok bytes) json u = (u', Inr out)"
    "install_overlay2_layer_as (fe_host E') r' ''flattened-rootfs'' None ?u (fs_store u) = Ok (l, S)" "fs_store u' = S"
    "resolve_layer_ref r' l = Ok p"
    "read_file E' (path_join (path_join (path_join r' ''.checkpoints'') cid') ''meta.json'') u' =
      Ok (jt_print (fe_text E') (import_json (fe_json E') cid' (fm_bundle meta) (fm_reset meta) p l))" by blast
  from installed_layer [OF E'(5) imp(2) refl] obtain d where
    d: "resolve_layer_ref r' l = Ok (path_join (path_join (layer_store_root r') ''l'') (short_layer_link d))"
      "st_links S (short_layer_link d) = Some d"
      "st_layers (fs_store u) d = None \<longrightarrow> (\<exists>L. build_layer (fe_host E') ''flattened-rootfs'' None d ?u = Ok L \<and> st_layers S d = Some L)" by (elim exE conjE)
  note parsed = json_file.import_json_back [OF J(1)]
  have "read_json E' (path_join (path_join (path_join r' ''.checkpoints'') cid') ''meta.json'') u' =
      Ok (import_json (fe_json E') cid' (fm_bundle meta) (fm_reset meta) p l)"
    by (rule read_json_file [OF imp(5) json_file.parse_print [OF J(1)]])
  moreover have "\<exists>L. st_layers S d = Some L \<and> shows_merged ts (ld_diff L)" if "st_layers (fs_store u) d = None"
    using mp [OF d(3) that] trip_keeps_view [OF ok(4) ts(2) flat(2) dir flat(1)] by blast
  ultimately show "\<exists>u' out v p d. cmd_import_checkpoint E' thru pid' cid' (Ok bytes) json u = (u', Inr out) \<and>
       read_json E' (path_join (path_join (path_join r' ''.checkpoints'') cid') ''meta.json'') u' = Ok v \<and>
       checkpoint_lowers (fe_json E') r' v = Ok [p] \<and> p = path_join (path_join (layer_store_root r') ''l'') (short_layer_link d) \<and>
       meta_tail (fe_json E') [p] v = \<lparr>fm_lowers = [p], fm_bundle = fm_bundle meta, fm_reset = fm_reset meta\<rparr> \<and>
       st_links (fs_store u') (short_layer_link d) = Some d \<and>
       (st_layers (fs_store u) d = None \<longrightarrow> (\<exists>L. st_layers (fs_store u') d = Some L \<and> shows_merged ts (ld_diff L)))"
    using imp(1,3) d(1,2) imp(4) parsed(1) [OF imp(4)] parsed(2) by fastforce
qed

text \<open>Owners and attributes do not travel: whatever the exporting host had, the unpacking process owns every node.\<close>

theorem owners_do_not_travel:
  assumes "wf_tree x" "unpacked E x = Some y" "lookup y p = Some n"
  shows "uid (meta_of n) = fst (me (fe_host E)) \<and> gid (meta_of n) = snd (me (fe_host E)) \<and> xattrs (meta_of n) = []"
  using assms
proof (induction p arbitrary: x y)
  case Nil
  then show ?case by (cases x) (auto simp: fresh_def)
next
  case (Cons k p)
  then obtain c where c: "map_of (entries_of y) k = Some c" "lookup c p = Some n" by (auto split: option.splits)
  then obtain m es where x: "x = Dir m es" using Cons.prems(2) by (cases x) auto
  with Cons.prems(1,2) c(1) have "and_then (map_of es k) (unpacked E) = Some c" by (auto simp: map_of_unpacked)
  then obtain d where "map_of es k = Some d" "unpacked E d = Some c" by (cases "map_of es k") auto
  with Cons.IH [of d c] c(2) Cons.prems(1) wf_tree_child [of x k d] show ?case by (simp add: x)
qed

text \<open>A host with one checkpoint on one layer, which holds one file.\<close>

definition saved_layer :: tree where
  "saved_layer = Dir (plain_meta 0x1ED) [(''f'', File (plain_meta 0x1A4) [1, 2])]"

definition saved_record :: jval where
  "saved_record = JObj [(''kind'', JStr ''checkpoint''), (''backend'', JStr ''overlayfs''), (''bundle'', JStr ''/x''), (''resetCount'', JPos 3),
     (''lowerdirs'', JArr [JStr ''/b''])]"

definition saved_host :: fsys where
  "saved_host = \<lparr>fs_tree = Dir (plain_meta 0x1ED)
     [(''b'', saved_layer),
      (''s'', Dir (plain_meta 0x1C0) [(''.checkpoints'', Dir (plain_meta 0x1ED)
        [(''one'', Dir (plain_meta 0x1ED) [(''meta.json'', File (plain_meta 0x1A4) (bytes_of (jt_print codec saved_record)))])])])],
     fs_store = \<lparr>st_layers = \<lambda>_. None, st_links = \<lambda>_. None\<rparr>, fs_mounts = []\<rparr>"

definition saved_meta :: fs_meta where
  "saved_meta = \<lparr>fm_lowers = [''/b''], fm_bundle = ''/x'', fm_reset = 3\<rparr>"

definition saved_flat :: tree where
  "saved_flat = Dir (plain_meta 0x16D) [(''f'', File (plain_meta 0x124) [1, 2])]"

lemma saved_flattens: "materialize_lowerdirs linux_host D dst False [saved_layer] = Inr saved_flat"
proof -
  have c: "copy_leaf linux_host (File (plain_meta 0x1A4) [1, 2]) = Ok (Some (File (plain_meta 0x1A4) [1, 2]))"
    by (simp add: copy_metadata_without_overlay_xattrs_def copy_xattrs_without_overlay_def chmod_def copy_owner_def
        os_result_def list_xattrs_def fresh_def linux_host_def plain_meta_def)
  have "apply_layer linux_host D [] saved_layer [] = Inr [(''f'', File (plain_meta 0x1A4) [1, 2])]"
    by (simp add: saved_layer_def put_entry_def is_overlay_whiteout_def c del: copy_leaf.simps rbind_Inr_iff)
  then have "materialize_lowerdirs linux_host D dst False [saved_layer] =
      Inr (readonly (Dir (fresh linux_host 0x1FF) [(''f'', File (plain_meta 0x1A4) [1, 2])]))"
    unfolding materialize_lowerdirs_def
    by (simp add: make_tree_readonly_privileged linux_privileged del: apply_layer.simps make_tree_readonly.simps readonly.simps)
  also have "readonly (Dir (fresh linux_host 0x1FF) [(''f'', File (plain_meta 0x1A4) [1, 2])]) = saved_flat"
    by (simp add: saved_flat_def readonly_of_def fresh_def linux_host_def plain_meta_def)
  finally show ?thesis .
qed

lemma saved_meta_read:
  "read_checkpoint_meta sample_env \<lparr>ck_root = path_join (path_join ''/s'' ''.checkpoints'') ''one'',
     ck_layer = path_join (path_join (path_join ''/s'' ''.checkpoints'') ''one'') ''layer'',
     ck_meta = path_join (path_join (path_join ''/s'' ''.checkpoints'') ''one'') ''meta.json''\<rparr> saved_host = Ok saved_meta"
proof -
  have "names sample_env (path_join (path_join (path_join ''/s'' ''.checkpoints'') ''one'') ''meta.json'') = [''s'', ''.checkpoints'', ''one'', ''meta.json'']"
    by (simp add: path_steps)
  then have "read_json sample_env (path_join (path_join (path_join ''/s'' ''.checkpoints'') ''one'') ''meta.json'') saved_host = Ok saved_record"
    by (simp add: read_json_def read_file_def find_node_def saved_host_def file_text_def codec.parse_print)
  moreover have "checkpoint_lowers jv ''/s'' saved_record = Ok [''/b'']" "meta_tail jv [''/b''] saved_record = saved_meta"
    by (simp_all add: saved_record_def checkpoint_lowers_def meta_tail_def saved_meta_def get_str_def get_array_def get_u64_def path_list_def)
  ultimately show ?thesis
    by (simp add: read_checkpoint_meta_def sample_runtime_root check_available_def walk_dir_def path_eval saved_host_def saved_layer_def)
qed

lemma saved_manifest_fits: "length (jt_print codec (export_json jv ''one'' ''/x'' 3)) < 8 ^ 11"
  by (simp add: codec_def export_json_def separated_def json_escape_def esc_char_def dec_u64_def dec_nat_def show_base.simps)

lemma saved_written:
  assumes "length manifest < 8 ^ 11"
  shows "\<exists>bytes. write_checkpoint_artifact_tar manifest saved_flat = Some (Ok bytes)"
proof -
  note w = write_tar_header_total
  obtain h1 h2 h3 hf where
    h1: "write_tar_header ''.rsrun/'' 0x1ED 0 0x35 None = Some (Ok h1)" and
    h2: "write_tar_header ''.rsrun/checkpoint.json'' 0x1A4 (length manifest) 0x30 None = Some (Ok h2)" and
    h3: "write_tar_header ''rootfs/'' 0x1ED 0 0x35 None = Some (Ok h3)" and
    hf: "write_tar_header ''rootfs/f'' 0x124 2 0x30 None = Some (Ok hf)"
    using w [of "''.rsrun/''" "0x1ED" 0 "0x35"] w [of "''.rsrun/checkpoint.json''" "0x1A4" "length manifest" "0x30"] w [of "''rootfs/''" "0x1ED" 0 "0x35"]
      w [of "''rootfs/f''" "0x124" 2 "0x30"] assms by auto
  have two: "Suc (Suc 0) = 2" by simp
  have m: "tar_mode (File (plain_meta 0x124) c) = 0x124" for c by (simp add: tar_mode_def plain_meta_def)
  have "write_tree_tar [''rootfs''] saved_flat = Some (Ok (hf @ [1, 2] @ pad_tar 2))"
    unfolding saved_flat_def using hf by (simp add: slash_path_def ends_with_def strip_suffix_def m two)
  then show ?thesis using h1 h2 h3 by (simp add: write_checkpoint_artifact_tar_def)
qed

lemma saved_apart: "apart sample_env [''s'', n] s [''/b'']"
  using only_below_disjoint [of "[''s'', n]" _ _ "[''b'']"] by (simp add: apart_def inside_def path_eval)

theorem portable_checkpoint_witness:
  "\<exists>bytes s' u' out d L. cmd_export_checkpoint sample_env (\<lambda>_ _. True) 7 ''one'' ''tar'' saved_host = (s', Inr bytes) \<and>
     cmd_import_checkpoint sample_env (\<lambda>_ s. (Ok (), s)) 8 ''two'' (Ok bytes) False sample_box = (u', Inr out) \<and>
     st_layers (fs_store u') d = Some L \<and> map_option content (lookup (ld_diff L) [''f'']) = Some (content (File (plain_meta 0) [1, 2]))"
proof -
  let ?man = "jt_print (fe_text sample_env) (export_json (fe_json sample_env) ''one'' (fm_bundle saved_meta) (fm_reset saved_meta))"
  have fits: "length ?man < 8 ^ 11" using saved_manifest_fits by (simp add: saved_meta_def)
  with saved_written [of "bytes_of ?man"] obtain bytes where w: "write_checkpoint_artifact_tar (bytes_of ?man) saved_flat = Some (Ok bytes)"
    by (auto simp: bytes_of_def)
  have good: "good_env sample_env" by (simp add: good_env_def sample_no_failures linux_privileged is_absolute_def)
  have two: "name_ok ''two''" and empty: "st_layers (fs_store sample_box) d = None" for d by (simp_all add: name_ok_def sample_box_def)
  have pieces: "\<not> path_exists sample_env (path_join ''/s'' (temp_name ''.export-'' ''one'' 7)) saved_host"
    "\<not> path_exists sample_env (path_join ''/s'' (temp_name ''.import-'' ''two'' 8)) sample_box"
    "\<not> path_exists sample_env (path_join (path_join ''/s'' ''.checkpoints'') ''two'') sample_box"
    "has_dir (names sample_env ''/s'') saved_host"
    "\<forall>c. find_node sample_env (path_join ''/s'' ''.checkpoints'') sample_box = Some c \<longrightarrow> is_dir c"
    by (simp_all add: path_exists_def find_node_def path_steps temp_name_def dec_nat_def show_base.simps digit_char_def saved_host_def sample_box_def has_dir_def)
  have free: "\<not> busy sample_env p sample_box" for p by (simp add: busy_def sample_box_def)
  have wf: "\<forall>t \<in> set [saved_layer]. wf_tree t \<and> conventional t" "wf_tree saved_flat" "tar_tree_ok saved_flat" "store_ok (fs_store sample_box)"
    by (simp_all add: saved_layer_def saved_flat_def wf_meta_def plain_meta_def name_ok_def ascii_text_def store_ok_def sample_box_def)
  have walk: "rcollect (\<lambda>l. ok_or (fe_walk sample_env saved_host l) no_entry) (fm_lowers saved_meta) = Ok [saved_layer]"
    by (simp add: saved_meta_def path_eval saved_host_def)
  have ap: "apart sample_env (names sample_env ''/s'' @ [temp_name ''.export-'' ''one'' 7]) saved_host (fm_lowers saved_meta)"
    using saved_apart by (simp add: saved_meta_def)
  from portable_checkpoint [where thru = "\<lambda>_ s. (Ok (), s)" and json = False and D = "\<lambda>_ _. True",
    OF sample_json_laws refl refl good sample_runtime_root sample_root_dir(2) refl saved_meta_read pieces(4,1) ap walk wf(1)
      saved_flattens [folded sample_env_simps(3)] wf(2,3) refl fits w good sample_runtime_root two sample_root_dir(1) wf(4) pieces(3,5,2) free]
  obtain s' u' out d where run: "cmd_export_checkpoint sample_env (\<lambda>_ _. True) 7 ''one'' ''tar'' saved_host = (s', Inr bytes)"
      "cmd_import_checkpoint sample_env (\<lambda>_ s. (Ok (), s)) 8 ''two'' (Ok bytes) False sample_box = (u', Inr out)"
      "st_layers (fs_store sample_box) d = None \<longrightarrow> (\<exists>L. st_layers (fs_store u') d = Some L \<and> shows_merged [saved_layer] (ld_diff L))"
    by (elim conjE exE) (rule that)
  from run(3) empty obtain L where L: "st_layers (fs_store u') d = Some L" "shows_merged [saved_layer] (ld_diff L)" by auto
  have "map_option content (lookup (ld_diff L) [''f'']) = kept (merged [saved_layer] [''f''])"
    by (rule L(2) [unfolded shows_merged_def, rule_format]) simp
  also have "\<dots> = Some (content (File (plain_meta 0) [1, 2]))"
    by (simp add: saved_layer_def child_of_def kept_def shown_def content_def)
  finally show ?thesis using run(1,2) L(1) by blast
qed

end
