(* ===== verification/Rollout_Reset.thy ===== *)
theory Rollout_Reset
  imports Rollout_Progress
begin

text \<open>
  Reset: the container is back on its lower layers, and a marker taken before no longer counts. And the names the
  commands accept for a new container.
\<close>

section \<open>What a reset leaves\<close>

lemma keeps_reset_state_file:
  "\<not> prefix P (names E (path_join root ''state.json'')) \<Longrightarrow> \<not> prefix (names E (path_join root ''state.json'')) P \<Longrightarrow>
   keeps (holds P c) (reset_state_file E root n)"
  unfolding reset_state_file_def
  by (intro keeps_bind keeps_get) (auto split: sum.splits intro!: io_rules)

lemma removed_then_created:
  assumes "remove_if_exists E p s = (s1, Inr ())"
  shows "lookup (fs_tree s1) (names E p) = None"
proof (cases "path_exists E p s")
  case True
  with assms have "remove_dir_all E p s = (s1, Inr ())" by (simp add: remove_if_exists_def)
  then show ?thesis using drop_node_gone [of "names E p" _ _ "[]"] by (auto simp: remove_Inr)
next
  case False
  with assms show ?thesis by (simp add: remove_if_exists_def path_exists_def find_node_def)
qed

lemma remove_keeps_missing:
  assumes "remove_if_exists E p s = (s1, Inr ())" "lookup (fs_tree s) q = None"
  shows "lookup (fs_tree s1) q = None"
proof (cases "path_exists E p s")
  case True
  with assms(1) obtain t where t: "drop_node (names E p) (fs_tree s) = Ok t" "s1 = s\<lparr>fs_tree := t\<rparr>"
    by (auto simp: remove_if_exists_def remove_Inr)
  show ?thesis
  proof (cases "prefix (names E p) q")
    case True
    then obtain r where "q = names E p @ r" by (auto simp: prefix_def)
    with drop_node_gone [OF t(1), of r] show ?thesis by (simp add: t(2))
  next
    case False
    from only_below_bare [OF drop_node_frame [OF t(1)] this] assms(2) show ?thesis by (simp add: t(2))
  qed
next
  case False
  with assms show ?thesis by (simp add: remove_if_exists_def)
qed

lemma reset_steps:
  assumes "cmd_reset E cid json s = (s', Inr out)" "read_overlay_state E (container_dir E cid) s = Ok (ov, n)"
  obtains s0 s1 s2 s3 s4 s5 s6 s7 where
    "cleanup_overlay_rootfs E (container_dir E cid) s = (s0, Inr ())"
    "remove_if_exists E (ov_upper ov) s0 = (s1, Inr ())" "remove_if_exists E (ov_work ov) s1 = (s2, Inr ())"
    "create_dir_all E (ov_upper ov) s2 = (s3, Inr ())" "create_dir_all E (ov_work ov) s3 = (s4, Inr ())"
    "create_dir_all E (ov_merged ov) s4 = (s5, Inr ())" "mount_overlay E ov s5 = (s6, Inr ())"
    "write_overlay_state E (container_dir E cid) ov (sat_succ n) s6 = (s7, Inr ())"
    "reset_state_file E (container_dir E cid) (sat_succ n) s7 = (s', Inr ())"
  using assms by (auto simp: cmd_reset_def Let_def io_bind_Inr_iff report_ok)

lemma reset_overlay_json:
  assumes abs: "is_absolute (fe_cwd E)"
    and "cmd_reset E cid json s = (s', Inr out)" "read_overlay_state E (container_dir E cid) s = Ok (ov, n)"
  shows "read_file E (path_join (container_dir E cid) ''overlay.json'') s' =
    Ok (jt_print (fe_text E) (overlay_json (fe_json E) ov (sat_succ n)))"
proof -
  let ?root = "container_dir E cid"
  obtain s6 s7 where w: "write_overlay_state E ?root ov (sat_succ n) s6 = (s7, Inr ())"
    and r: "reset_state_file E ?root (sat_succ n) s7 = (s', Inr ())"
    by (rule reset_steps [OF assms(2,3)])
  note nb = names_below [OF abs, of ?root]
  from write_file_holds [OF w [unfolded write_overlay_state_def]] obtain c where c: "holds (names E ?root @ [''overlay.json'']) c s7"
    "file_text (Some c) = Some (jt_print (fe_text E) (overlay_json (fe_json E) ov (sat_succ n)))" by (auto simp: nb)
  have "holds (names E ?root @ [''overlay.json'']) c s'"
    by (rule triple_Inr [OF keeps_reset_state_file c(1) r]) (simp_all add: nb)
  with c(2) show ?thesis by (simp add: read_file_def find_node_def holds_def nb)
qed

text \<open>
  After a reset the upper directory of a container with the default directories is empty, and its overlay state
  has the same layers and the next reset count, which stays at the largest number once it is reached.
\<close>

theorem reset_empties_upper:
  assumes "is_absolute (fe_cwd E)" "json_file (fe_json E) (fe_text E)"
    and "read_overlay_state E (container_dir E cid) s = Ok (fresh_overlay (container_dir E cid) lowers, n)"
    and "cmd_reset E cid json s = (s', Inr out)"
  shows "find_node E (path_join (container_dir E cid) ''overlay/upper'') s' = Some (Dir (new_dir E) []) \<and>
    read_json E (path_join (container_dir E cid) ''overlay.json'') s' =
      Ok (overlay_json (fe_json E) (fresh_overlay (container_dir E cid) lowers) (if n = - 1 then n else n + 1))"
proof -
  let ?root = "container_dir E cid" and ?ov = "fresh_overlay (container_dir E cid) lowers"
  let ?P = "names E (container_dir E cid) @ [''overlay'', ''upper'']"
  note nb = names_below [OF assms(1), of ?root]
  obtain s0 s1 s2 s3 s4 s5 s6 s7 where
    r: "remove_if_exists E (ov_upper ?ov) s0 = (s1, Inr ())" "remove_if_exists E (ov_work ?ov) s1 = (s2, Inr ())"
      "create_dir_all E (ov_upper ?ov) s2 = (s3, Inr ())" and k: "create_dir_all E (ov_work ?ov) s3 = (s4, Inr ())"
      "create_dir_all E (ov_merged ?ov) s4 = (s5, Inr ())" "mount_overlay E ?ov s5 = (s6, Inr ())"
      "write_overlay_state E ?root ?ov (sat_succ n) s6 = (s7, Inr ())" "reset_state_file E ?root (sat_succ n) s7 = (s', Inr ())"
    by (rule reset_steps [OF assms(4,3)])
  have up: "names E (ov_upper ?ov) = ?P" by (simp add: fresh_overlay_def nb)
  from remove_keeps_missing [OF r(2) removed_then_created [OF r(1)]] r(3) make_dirs_new
  have h3: "holds ?P (Dir (new_dir E) []) s3" by (auto simp: create_dir_all_Inr up holds_def)
  have h5: "holds ?P (Dir (new_dir E) []) s5"
    using triple_Inr [OF holds_create triple_Inr [OF holds_create h3 k(1)] k(2)] by (simp add: fresh_overlay_def nb)
  have h6: "holds ?P (Dir (new_dir E) []) s6"
    by (rule triple_Inr [OF holds_mount h5 k(3) [unfolded mount_overlay_def]])
  have h7: "holds ?P (Dir (new_dir E) []) s7"
    using triple_Inr [OF holds_write h6 k(4) [unfolded write_overlay_state_def]] by (simp add: nb)
  have "holds ?P (Dir (new_dir E) []) s'" by (rule triple_Inr [OF keeps_reset_state_file h7 k(5)]) (simp_all add: nb)
  then show ?thesis
    using read_json_file [OF reset_overlay_json [OF assms(1,4,3)] json_file.parse_print [OF assms(2)]]
    by (simp add: holds_def find_node_def nb sat_succ_def)
qed

text \<open>
  A marker taken before a reset is refused after it, however the markers and layers look: the counts differ.
  Only a reset at the largest count is not seen.
\<close>

theorem reset_invalidates_markers:
  assumes "is_absolute (fe_cwd E)" "json_file (fe_json E) (fe_text E)"
    and "read_overlay_state E (container_dir E cid) s = Ok (ov, n)" "n \<noteq> - 1"
    and "cmd_reset E cid json s = (s', Inr out)"
    and "read_json E (marker_path (container_dir E cid) since) s' = Ok marker" "get_u64 (fe_json E) marker ''resetCount'' = Some n"
  shows "\<exists>e. container_effects E scan cid since s' = Inl e"
proof (cases "read_overlay_state E (container_dir E cid) s'")
  case (Inl e)
  then show ?thesis by (cases "validate_state_name since ''marker name''") (simp_all add: container_effects_def cmd_effects_def)
next
  case (Inr x)
  have "read_json E (path_join (container_dir E cid) ''overlay.json'') s' = Ok (overlay_json (fe_json E) ov (n + 1))"
    using read_json_file [OF reset_overlay_json [OF assms(1,5,3)] json_file.parse_print [OF assms(2)]] assms(4)
    by (simp add: sat_succ_def)
  with Inr have x: "x = (ov, n + 1)"
    by (auto simp: read_overlay_state_def json_file.overlay_json_back [OF assms(2)])
  have "n \<noteq> n + 1" by simp
  with Inr assms(6,7) show ?thesis
    by (cases "validate_state_name since ''marker name''"; cases "read_marker (fe_json E) (Ok marker)")
      (auto simp: container_effects_def cmd_effects_def x read_marker_def split: if_splits)
qed

section \<open>Names of new containers\<close>

text \<open>
  The name of the snapshot directory is accepted as a container id, and then all snapshots lie inside that
  container: destroying it removes every snapshot.
\<close>

theorem reserved_name_accepted:
  assumes "is_absolute (fe_cwd E)" "runtime_root_dir E = Ok (fe_root E)" "name_ok snapshot_id"
    and "fe_fails E (Remove_All (container_dir E ''.snapshots'')) = None"
    and "destroy E (container_dir E ''.snapshots'') s = (s', Inr ())"
  shows "validate_state_name ''.snapshots'' ''container id'' = Ok () \<and>
    (\<exists>sn. snapshot_paths_of E snapshot_id = Ok sn \<and> sn_root sn = path_join (container_dir E ''.snapshots'') snapshot_id \<and>
       \<not> path_exists E (sn_root sn) s')"
proof -
  let ?C = "names E (container_dir E ''.snapshots'')"
  have gone: "lookup (fs_tree s') ?C = None"
  proof (cases "busy E (container_dir E ''.snapshots'') s")
    case True
    then have "\<exists>e. snd (remove_dir_all E (container_dir E ''.snapshots'') s) = Inl e \<and> kind_of e = OsError 16"
      using assms(4) by (simp add: remove_dir_all_def remove_error_def)
    with assms(5) show ?thesis by (auto simp: destroy_def io_bind_def io_try_def split: prod.splits)
  next
    case False
    note quiet = remove_quiet [OF assms(4) False]
    show ?thesis
    proof (cases "drop_node ?C (fs_tree s)")
      case (Inl e)
      with assms(5) have "kind_of e = NotFound" "s' = s"
        by (auto simp: destroy_def quiet io_bind_def io_try_def edit_def split: if_splits)
      with drop_node_missing [OF Inl] show ?thesis by simp
    next
      case (Inr t)
      with assms(5) have "s' = s\<lparr>fs_tree := t\<rparr>"
        by (auto simp: destroy_def quiet io_bind_def io_try_def edit_def)
      with drop_node_gone [OF Inr, of "[]"] show ?thesis by simp
    qed
  qed
  let ?base = "path_join (container_dir E ''.snapshots'') snapshot_id"
  have "names E ?base = ?C @ [snapshot_id]"
    using names_join [of snapshot_id E "container_dir E ''.snapshots''"] name_ok_path [OF assms(3)] assms(1) by simp
  with gone have "\<not> path_exists E ?base s'" by (simp add: path_exists_def find_node_def lookup_append)
  moreover have "validate_state_name ''.snapshots'' ''container id'' = Ok ()" by (simp add: validate_name_ok name_ok_def)
  ultimately show ?thesis using assms(2) by (simp add: snapshot_paths_of_def container_dir_def Let_def)
qed

section \<open>A reset of the sample\<close>

lemma sample_cleanup: "cleanup_overlay_rootfs sample_env ''/s/c'' sample_box = (sample_box, Inr ())"
  by (simp add: cleanup_overlay_rootfs_def sample_read_overlay unmount_overlay_def umount2_def io_bind_def io_try_def call_def)
    (simp add: sample_box_def)

lemma sample_path_names [simp]:
  "names sample_env ''/s/c/overlay/upper'' = [''s'', ''c'', ''overlay'', ''upper'']"
  "names sample_env ''/s/c/overlay/work'' = [''s'', ''c'', ''overlay'', ''work'']"
  "names sample_env ''/s/c/overlay/merged'' = [''s'', ''c'', ''overlay'', ''merged'']"
  "names sample_env ''/s/c/overlay.json'' = [''s'', ''c'', ''overlay.json'']"
  "names sample_env ''/s/c/state.json'' = [''s'', ''c'', ''state.json'']"
  by (simp_all add: path_steps)

lemma sample_resets:
  obtains s' out where "cmd_reset sample_env ''c'' False sample_box = (s', Inr out)"
    "lookup (fs_tree s') [''s'', ''c'', ''markers'', ''m.json''] = Some (File (plain_meta 0x1A4) (bytes_of sample_marker))"
proof -
  have p: "path_join ''/s/c'' ''overlay.json'' = ''/s/c/overlay.json''" "path_join ''/s/c'' ''state.json'' = ''/s/c/state.json''"
    "ov_upper sample_ov = ''/s/c/overlay/upper''" "ov_work sample_ov = ''/s/c/overlay/work''" "ov_merged sample_ov = ''/s/c/overlay/merged''"
    by (simp_all add: path_join_def is_absolute_def sample_ov_def fresh_overlay_def)
  have "case cmd_reset sample_env ''c'' False sample_box of (s', r) \<Rightarrow> is_ok r \<and>
      lookup (fs_tree s') [''s'', ''c'', ''markers'', ''m.json''] = Some (File (plain_meta 0x1A4) (bytes_of sample_marker))"
    by (simp add: cmd_reset_def Let_def io_bind_def sample_stopped sample_read_overlay sample_cleanup p report_ok)
      (simp add: sample_box_def remove_if_exists_def path_exists_def find_node_def io_bind_def remove_dir_all_def create_dir_all_def
        edit_def call_def mount_overlay_def mount_at_def p write_overlay_state_def write_file_def put_text_def written_def sample_upper_dir_def
        remove_error_def busy_def reset_state_file_def read_json_def read_file_def file_text_def io_try_def)
  with that show thesis by (cases "cmd_reset sample_env ''c'' False sample_box") (auto simp: is_ok_iff)
qed

theorem reset_empties_upper_witness:
  "\<exists>s' out. cmd_reset sample_env ''c'' False sample_box = (s', Inr out) \<and>
     find_node sample_env ''/s/c/overlay/upper'' s' = Some (Dir (new_dir sample_env) [])"
proof -
  obtain s' out where run: "cmd_reset sample_env ''c'' False sample_box = (s', Inr out)" by (rule sample_resets)
  have "read_overlay_state sample_env (container_dir sample_env ''c'') sample_box =
      Ok (fresh_overlay (container_dir sample_env ''c'') [''/b''], 3)"
    using sample_read_overlay by (simp add: sample_ov_def)
  from reset_empties_upper [OF sample_new(4) sample_json_laws this run] run show ?thesis
    by (auto simp: path_join_def is_absolute_def)
qed

theorem reset_invalidates_markers_witness:
  "\<exists>s' out e. cmd_reset sample_env ''c'' False sample_box = (s', Inr out) \<and>
     container_effects sample_env (\<lambda>_ _. Ok []) ''c'' ''m'' s' = Inl e"
proof -
  obtain s' out where run: "cmd_reset sample_env ''c'' False sample_box = (s', Inr out)"
    and marker: "lookup (fs_tree s') [''s'', ''c'', ''markers'', ''m.json''] = Some (File (plain_meta 0x1A4) (bytes_of sample_marker))"
    by (rule sample_resets)
  have "names sample_env ''/s/c/markers/m.json'' = [''s'', ''c'', ''markers'', ''m.json'']" by (simp add: path_steps)
  then have m: "read_json sample_env (marker_path (container_dir sample_env ''c'') ''m'') s' =
      Ok (JObj [(''backend'', JStr ''overlayfs''), (''resetCount'', JPos 3), (''files'', JArr [])])"
    by (simp add: marker_path_def path_join_def is_absolute_def read_json_def read_file_def find_node_def file_text_def marker del: lookup.simps)
  have "read_overlay_state sample_env (container_dir sample_env ''c'') sample_box = Ok (sample_ov, 3)" by (simp add: sample_read_overlay)
  from reset_invalidates_markers [OF sample_new(4) sample_json_laws this _ run m] run show ?thesis
    by (auto simp: get_u64_def)
qed

theorem reserved_name_accepted_witness:
  "\<not> path_exists sample_env ''/s/.snapshots/one''
     (fst (destroy sample_env ''/s/.snapshots'' \<lparr>fs_tree = Dir (plain_meta 0x1ED) [(''s'', Dir (plain_meta 0x1C0)
        [(''.snapshots'', Dir (plain_meta 0x1ED) [(''one'', Dir (plain_meta 0x1ED) [])])])],
        fs_store = \<lparr>st_layers = \<lambda>_. None, st_links = \<lambda>_. None\<rparr>, fs_mounts = []\<rparr>))"
proof -
  let ?s = "\<lparr>fs_tree = Dir (plain_meta 0x1ED) [(''s'', Dir (plain_meta 0x1C0)
        [(''.snapshots'', Dir (plain_meta 0x1ED) [(''one'', Dir (plain_meta 0x1ED) [])])])],
        fs_store = \<lparr>st_layers = \<lambda>_. None, st_links = \<lambda>_. None\<rparr>, fs_mounts = []\<rparr>"
  have p: "container_dir sample_env ''.snapshots'' = ''/s/.snapshots''" "names sample_env ''/s/.snapshots'' = [''s'', ''.snapshots'']"
    by (simp_all add: path_steps)
  have "snd (destroy sample_env ''/s/.snapshots'' ?s) = Inr ()"
    by (simp add: destroy_def remove_dir_all_def remove_error_def busy_def io_bind_def io_try_def edit_def p)
  then have run: "destroy sample_env (container_dir sample_env ''.snapshots'') ?s = (fst (destroy sample_env ''/s/.snapshots'' ?s), Inr ())"
    by (simp add: p prod_eq_iff)
  from reserved_name_accepted [OF sample_new(4) _ sample_root_dir(2) _ run] sample_runtime_root p show ?thesis
    by (auto simp: path_join_def is_absolute_def)
qed

end
