(* ===== verification/Syscalls.thy ===== *)
theory Syscalls
  imports Computations Plan
begin

unbundle bit_operations_syntax

text \<open>
  The container's init as a computation over the history of its system calls. The kernel is a
  parameter: a function from the calls made so far and the next call to an errno or a value. \<^verbatim>\<open>fork\<close>
  answers 0 in the process that is followed, as it does in a child. One computation is one process.
\<close>

section \<open>Calls and histories\<close>

text \<open>
  The calls by what they act on: descriptors, processes, mounts, nodes of the file system, credentials.
  \<open>Write_File\<close> is \<^verbatim>\<open>std::fs::write\<close>; a call that makes two descriptors answers both in one number.
\<close>

datatype fd_call =
    Read int
  | Write int "u8 list"
  | Open string u32
  | Close int
  | Dup2 int int
  | Poll int int
  | Close_Range u32
  | Open_Max
  | Ns_Type int
  | Tiocsctty int
  | Openat int string u32
  | Pipe2
  | Getfl int
  | Setfl int u32
  | Openpty
  | Connect string
  | Send_Fd int int
  | Bpf_Load "u8 list" u32
  | Bpf_Attach int int u32

datatype proc_call =
    Fork
  | Waitpid int
  | Kill int int
  | Pidfd_Open int
  | Execve string "string list" "string list"
  | Setns int u32
  | Setsid
  | Set_Errno nat
  | Setpgid
  | Unshare u32
  | Pause
  | Set_Undumpable
  | Sched_Setattr int "u8 list"
  | Wait_Nohang int
  | Sleep nat

datatype mount_call =
    Mount_At "string option" string "string option" u64 "string option"
  | Open_Tree string u32
  | Mount_Setattr int u32 u64 int
  | Move_Mount int string u32
  | Pivot_Root string string
  | Umount2 string u32
  | Chroot string
  | Chdir string

datatype node_call =
    Create_Dir_All string
  | Remove_Dir string
  | Mknod string u32 u64
  | Chmod string u32
  | Unlink string
  | Symlink_At string string
  | Umask u32
  | Sethostname string
  | Write_File string "u8 list"

datatype cred_call =
    Prlimit u32 u64 u64
  | Setgroups "u32 list"
  | Setresgid u32
  | Setresuid u32
  | No_New_Privs
  | Keepcaps
  | Set_Seccomp u16 "sock_filter list"
  | Capbset_Drop nat
  | Ambient_Raise nat
  | Capset "(u32 \<times> u32 \<times> u32) list"
  | Capget

datatype syscall = Fd fd_call | Proc proc_call | Mnt mount_call | Node node_call | Cred cred_call

type_synonym answer = "nat + int"

type_synonym history = "(syscall \<times> answer) list"

text \<open>\<open>kn_errno\<close> is the errno the process inherited from the one that made it.\<close>

record kernel =
  kn_answer :: "history \<Rightarrow> syscall \<Rightarrow> answer"
  kn_errno :: nat

text \<open>
  How the process ends: with an exit code, by a signal, in the program of the container, in a hook (a
  process forked for it), or not at all, when a call is interrupted more often than the bound of the
  model allows.
\<close>

datatype ending = Exited nat | Signalled nat | Executed string "string list" "string list"
  | Hook_Program string "string list" "string list" | Blocked

type_synonym 'a process = "(history, ending, 'a) comp"

definition fd_pair :: "int \<Rightarrow> int \<times> int" where
  "fd_pair v = (v div 2 ^ 31, v mod 2 ^ 31)"

definition sys :: "kernel \<Rightarrow> syscall \<Rightarrow> (history, 'e, answer) comp" where
  "sys K c = (\<lambda>h. (h @ [(c, kn_answer K h c)], Inr (kn_answer K h c)))"

text \<open>\<^verbatim>\<open>let _ = call\<close>.\<close>

definition sys_any :: "kernel \<Rightarrow> syscall \<Rightarrow> (history, 'e, unit) comp" where
  "sys_any K c = io_bind (sys K c) (\<lambda>_. io_ok ())"

definition exit_process :: "nat \<Rightarrow> 'a process" where
  "exit_process code = io_of (Inl (Exited code))"

text \<open>A panic: the release profile has \<^verbatim>\<open>panic = "abort"\<close>, so it ends the process with SIGABRT (6).\<close>

definition panic_process :: "'a process" where
  "panic_process = io_of (Inl (Signalled 6))"

section \<open>child_die\<close>

definition last_errno :: "kernel \<Rightarrow> history \<Rightarrow> nat" where
  "last_errno K h =
     (case filter_map (\<lambda>x. case snd x of Inl e \<Rightarrow> Some e | Inr _ \<Rightarrow> None) (rev h) of [] \<Rightarrow> kn_errno K | e # _ \<Rightarrow> e)"

text \<open>The digits the loop stores, the lowest first; \<open>d\<close> cells of the array are left.\<close>

fun errno_digits :: "nat \<Rightarrow> nat \<Rightarrow> u8 list" where
  "errno_digits 0 e = []"
| "errno_digits (Suc d) e = (if e = 0 then [] else of_nat (48 + e mod 10) # errno_digits d (e div 10))"

definition errno_line :: "nat \<Rightarrow> u8 list" where
  "errno_line e = bytes_of '' errno='' @ rev (if e = 0 then [48] else errno_digits 10 e) @ [10]"

definition child_die :: "kernel \<Rightarrow> int \<Rightarrow> nat \<Rightarrow> string \<Rightarrow> 'a process" where
  "child_die K err_fd code reason =
     io_bind (io_when (0 < err_fd)
       (io_bind (sys_any K (Fd (Write err_fd (bytes_of ''rsrun-child: '')))) (\<lambda>_.
        io_bind (sys_any K (Fd (Write err_fd (bytes_of reason)))) (\<lambda>_.
        io_bind (io_get (last_errno K)) (\<lambda>e.
        sys_any K (Fd (Write err_fd (errno_line e)))))))) (\<lambda>_.
     exit_process code)"

text \<open>A store to the errno cell, kept in the history as an event that answers the errno.\<close>

definition set_errno :: "nat \<Rightarrow> unit process" where
  "set_errno e = (\<lambda>h. (h @ [(Proc (Set_Errno e), Inl e)], Inr ()))"

text \<open>A call whose failure ends the process, and one that is repeated while it is interrupted (\<^verbatim>\<open>EINTR\<close> is 4).\<close>

definition sys_must :: "kernel \<Rightarrow> int \<Rightarrow> nat \<Rightarrow> string \<Rightarrow> syscall \<Rightarrow> int process" where
  "sys_must K err_fd code reason c =
     io_bind (sys K c) (\<lambda>r. case r of Inl _ \<Rightarrow> child_die K err_fd code reason | Inr v \<Rightarrow> io_ok v)"

fun sys_retry :: "kernel \<Rightarrow> nat \<Rightarrow> syscall \<Rightarrow> answer process" where
  "sys_retry K 0 c = io_of (Inl Blocked)"
| "sys_retry K (Suc n) c = io_bind (sys K c) (\<lambda>r. if r = Inl 4 then sys_retry K n c else io_ok r)"

text \<open>
  \<^verbatim>\<open>close_unpreserved_inherited_fds\<close>: one call, or the descriptors one by one on a kernel without it
  (\<^verbatim>\<open>ENOSYS\<close> is 38).
\<close>

definition close_unpreserved_inherited_fds :: "kernel \<Rightarrow> u32 \<Rightarrow> unit process" where
  "close_unpreserved_inherited_fds K preserve_fds =
     (let first = (if unat preserve_fds + 3 < 2 ^ 32 then 3 + preserve_fds else -1) in
      io_bind (sys K (Fd (Close_Range first))) (\<lambda>r.
      if r = Inl 38 then
        io_bind (sys K (Fd Open_Max)) (\<lambda>m.
          case m of
            Inl _ \<Rightarrow> io_ok ()
          | Inr lim \<Rightarrow> io_seq (map (\<lambda>fd. sys_any K (Fd (Close (int fd)))) [unat first ..< nat lim]))
      else io_ok ()))"

section \<open>The diagnostic\<close>

lemma errno_digits_length: "length (errno_digits d e) \<le> d"
  by (induction d e rule: errno_digits.induct) auto

lemma u8_of_char_of: "n < 256 \<Longrightarrow> (of_char (char_of n) :: u8) = of_nat n"
  using of_nat_of_char [of "char_of n", where 'a = "8 word"] by simp

lemma errno_digits_dec: "0 < e \<Longrightarrow> e < 10 ^ d \<Longrightarrow> rev (errno_digits d e) = bytes_of (dec_nat e)"
proof (induction d arbitrary: e)
  case (Suc d)
  have digit: "of_nat (48 + e mod 10) = (of_char (digit_char (e mod 10)) :: u8)"
    by (simp add: digit_char_def u8_of_char_of)
  show ?case
  proof (cases "e < 10")
    case True
    then show ?thesis using Suc.prems digit
      by (cases d) (simp_all add: dec_nat_def show_base.simps [of 10 e] bytes_of_def)
  next
    case False
    then have "0 < e div 10" "e div 10 < 10 ^ d" using Suc.prems by (auto simp: less_mult_imp_div_less)
    from Suc.IH [OF this] show ?thesis using False digit
      by (simp add: dec_nat_def show_base.simps [of 10 e] bytes_of_def)
  qed
qed simp

text \<open>
  The diagnostic of a dying child: for every errno of 32 bits the loop writes the decimal
  digits of the errno, most significant first, and the line fits the 32 bytes of its buffer.
\<close>
theorem errno_line_exact:
  assumes "e < 2 ^ 31"
  shows "errno_line e = bytes_of ('' errno='' @ dec_nat e @ [CHR 0x0A]) \<and> length (errno_line e) \<le> 32"
proof
  have e: "e < 10 ^ 10" using assms by simp
  then have "rev (if e = 0 then [48] else errno_digits 10 e) = bytes_of (dec_nat e)"
    using errno_digits_dec [OF _ e] by (simp add: dec_nat_def show_base.simps [of 10 0] digit_char_def u8_of_char_of bytes_of_def)
  then show "errno_line e = bytes_of ('' errno='' @ dec_nat e @ [CHR 0x0A])"
    by (simp add: errno_line_def bytes_of_def)
  show "length (errno_line e) \<le> 32"
    using errno_digits_length [of 10 e] by (simp add: errno_line_def bytes_of_def)
qed

theorem errno_line_exact_witness: "errno_line 2147483647 = bytes_of ('' errno=2147483647'' @ [CHR 0x0A]) \<and> length (errno_line 13) \<le> 32"
  using errno_line_exact [of 2147483647] errno_line_exact [of 13]
  by (simp add: dec_nat_def show_base.simps digit_char_def u8_of_char_of)

end
