(* ===== verification/Child.thy ===== *)
theory Child
  imports Syscalls Fs_Tree
begin

text \<open>
  \<^verbatim>\<open>child_run\<close>: the path of the new process from the clone to \<^verbatim>\<open>execve\<close>. The strings of the plan
  are UTF-8 (they come from JSON), so \<^verbatim>\<open>to_str\<close> never falls back to its default. \<open>n\<close> bounds how often
  one blocking call is repeated.
\<close>

section \<open>Constants of the kernel interface\<close>

abbreviation (input) "O_RDONLY_CLOEXEC \<equiv> (0x80000 :: u32)"
abbreviation (input) "O_WRONLY_CLOEXEC \<equiv> (0x80001 :: u32)"
abbreviation (input) "O_WRONLY_CREAT \<equiv> (0x41 :: u32)"
abbreviation (input) "MS_REMOUNT \<equiv> (0x20 :: u64)"
abbreviation (input) "MNT_DETACH \<equiv> (2 :: u32)"
abbreviation (input) "S_IFCHR \<equiv> (0x2000 :: u32)"
abbreviation (input) "S_IFBLK \<equiv> (0x6000 :: u32)"

text \<open>The arguments of the child besides the plan.\<close>

record child_args =
  ch_rootfs :: string
  ch_fifo_fd :: int
  ch_err_fd :: int
  ch_userns_read_fd :: int
  ch_pty_slave_fd :: int
  ch_pid_relay_write :: int
  ch_idmap_userns_fds :: "int list"

text \<open>\<^verbatim>\<open>nix::mount::mount\<close> refuses a target with an interior NUL without a call (\<^verbatim>\<open>EINVAL\<close> is 22).\<close>

definition nix_mount ::
  "kernel \<Rightarrow> string option \<Rightarrow> string \<Rightarrow> string option \<Rightarrow> u64 \<Rightarrow> string option \<Rightarrow> answer process" where
  "nix_mount K src target fstype flags data =
     (if NUL \<in> set target then io_ok (Inl 22) else sys K (Mnt (Mount_At src target fstype flags data)))"

definition mount_any ::
  "kernel \<Rightarrow> string option \<Rightarrow> string \<Rightarrow> string option \<Rightarrow> u64 \<Rightarrow> string option \<Rightarrow> unit process" where
  "mount_any K src target fstype flags data = io_bind (nix_mount K src target fstype flags data) (\<lambda>_. io_ok ())"

section \<open>User namespace and namespaces to join\<close>

definition wait_userns :: "kernel \<Rightarrow> nat \<Rightarrow> compiled_plan \<Rightarrow> child_args \<Rightarrow> unit process" where
  "wait_userns K n plan a =
     io_when (cp_wants_userns plan)
       (io_bind (sys_retry K n (Fd (Read (ch_userns_read_fd a)))) (\<lambda>r.
        io_bind (if r = Inr 1 then io_ok ()
                 else if r = Inr 0 then child_die K (ch_err_fd a) 110 ''userns sync pipe closed before write''
                 else child_die K (ch_err_fd a) 110 ''read userns sync pipe failed'') (\<lambda>_.
        io_seq [sys_any K (Fd (Close (ch_userns_read_fd a))),
          io_bind (sys_must K (ch_err_fd a) 111 ''setresgid 0 failed'' (Cred (Setresgid 0))) (\<lambda>_. io_ok ()),
          io_bind (sys_must K (ch_err_fd a) 111 ''setresuid 0 failed'' (Cred (Setresuid 0))) (\<lambda>_. io_ok ())])))"

fun join_namespaces :: "kernel \<Rightarrow> int \<Rightarrow> bool \<Rightarrow> (namespace_kind \<times> string) list \<Rightarrow> bool process" where
  "join_namespaces K err_fd joined_pid_ns [] = io_ok joined_pid_ns"
| "join_namespaces K err_fd joined_pid_ns ((kind, path) # rest) =
     (if NUL \<in> set path then child_die K err_fd 112 ''namespace path has interior NUL''
      else
        io_bind (sys_must K err_fd 112 ''open namespace path failed'' (Fd (Open path O_RDONLY_CLOEXEC))) (\<lambda>fd.
        io_bind (sys K (Fd (Ns_Type fd))) (\<lambda>actual.
        io_bind (if actual = Inr (uint (clone_flag kind)) then io_ok ()
                 else io_bind (sys_any K (Fd (Close fd))) (\<lambda>_. child_die K err_fd 112 ''namespace path type mismatch'')) (\<lambda>_.
        io_bind (sys_must K err_fd 112 ''setns failed'' (Proc (Setns fd (clone_flag kind)))) (\<lambda>_.
        io_bind (sys_any K (Fd (Close fd))) (\<lambda>_.
        join_namespaces K err_fd (joined_pid_ns \<or> kind = NsPid) rest))))))"

definition pid_bytes :: "int \<Rightarrow> u8 list" where
  "pid_bytes pid = (let w = word_of_int pid :: u32
     in [ucast w, ucast (drop_bit 8 w), ucast (drop_bit 16 w), ucast (drop_bit 24 w)])"

definition relay_pid :: "kernel \<Rightarrow> child_args \<Rightarrow> bool \<Rightarrow> unit process" where
  "relay_pid K a joined_pid_ns =
     (if joined_pid_ns then
        io_bind (sys_must K (ch_err_fd a) 119 ''fork after setns(NEWPID) failed'' (Proc Fork)) (\<lambda>grand.
        if 0 < grand then
          io_bind (sys_any K (Fd (Write (ch_pid_relay_write a) (pid_bytes grand)))) (\<lambda>_.
          io_bind (sys_any K (Fd (Close (ch_pid_relay_write a)))) (\<lambda>_.
          exit_process 0))
        else sys_any K (Fd (Close (ch_pid_relay_write a))))
      else io_when (0 \<le> ch_pid_relay_write a) (sys_any K (Fd (Close (ch_pid_relay_write a)))))"

section \<open>Mounts and the root directory\<close>

definition apply_idmap_bind :: "kernel \<Rightarrow> string \<Rightarrow> string \<Rightarrow> int \<Rightarrow> bool process" where
  "apply_idmap_bind K source target userns_fd =
     (if NUL \<in> set target then io_ok False
      else
        io_bind (sys K (Mnt (Open_Tree source (1 OR 0x80000 OR 0x8000)))) (\<lambda>r.
          case r of
            Inl _ \<Rightarrow> io_ok False
          | Inr tree_fd \<Rightarrow>
              io_bind (sys K (Mnt (Mount_Setattr tree_fd (0x1000 OR 0x8000) 0x00100000 userns_fd))) (\<lambda>r.
                case r of
                  Inl _ \<Rightarrow> io_bind (sys_any K (Fd (Close tree_fd))) (\<lambda>_. io_ok False)
                | Inr _ \<Rightarrow>
                    io_bind (sys K (Mnt (Move_Mount tree_fd target 4))) (\<lambda>r.
                    io_bind (sys_any K (Fd (Close tree_fd))) (\<lambda>_. io_ok (is_ok r))))))"

definition propagate :: "kernel \<Rightarrow> mount_op \<Rightarrow> unit process" where
  "propagate K m = io_when (mo_propagation m \<noteq> 0) (mount_any K None (mo_target m) None (mo_propagation m) None)"

definition run_mount :: "kernel \<Rightarrow> child_args \<Rightarrow> nat \<times> mount_op \<Rightarrow> unit process" where
  "run_mount K a im =
     (case im of (idx, m) \<Rightarrow>
        let src_opt = (if mo_source m = [] then None else Some (mo_source m));
            fstype_opt = (if mo_fstype m = [] \<or> mo_fstype m = ''none'' then None else Some (mo_fstype m));
            fds = ch_idmap_userns_fds a
        in io_bind (sys_any K (Node (Create_Dir_All (mo_target m)))) (\<lambda>_.
           if mo_idmap_uid m \<noteq> [] \<and> idx < length fds \<and> 0 \<le> fds ! idx then
             io_bind (apply_idmap_bind K (mo_source m) (mo_target m) (fds ! idx)) (\<lambda>ok.
               if ok then propagate K m else child_die K (ch_err_fd a) 130 ''idmapped bind mount failed'')
           else
             io_bind (nix_mount K src_opt (mo_target m) fstype_opt (mo_flags m) (mo_data m)) (\<lambda>r.
               io_when (is_ok r) (propagate K m))))"

definition must_any :: "kernel \<Rightarrow> int \<Rightarrow> nat \<Rightarrow> string \<Rightarrow> syscall \<Rightarrow> unit process" where
  "must_any K err_fd code reason c = io_bind (sys_must K err_fd code reason c) (\<lambda>_. io_ok ())"

definition private_root :: "kernel \<Rightarrow> child_args \<Rightarrow> unit process" where
  "private_root K a =
     io_seq [must_any K (ch_err_fd a) 101 ''mount / private failed'' (Mnt (Mount_At None ''/'' None (MS_REC OR MS_PRIVATE) None)),
       must_any K (ch_err_fd a) 102 ''bind rootfs failed''
         (Mnt (Mount_At (Some (ch_rootfs a)) (ch_rootfs a) None (MS_BIND OR MS_REC) None))]"

definition switch_root :: "kernel \<Rightarrow> compiled_plan \<Rightarrow> child_args \<Rightarrow> unit process" where
  "switch_root K plan a =
     (if cp_no_pivot plan then
        io_seq [must_any K (ch_err_fd a) 103 ''chroot failed'' (Mnt (Chroot (ch_rootfs a))),
          must_any K (ch_err_fd a) 104 ''chdir / failed'' (Mnt (Chdir ''/''))]
      else
        let put_old = path_join (ch_rootfs a) ''.rsrun_old'' in
        io_seq [sys_any K (Node (Create_Dir_All put_old)),
          must_any K (ch_err_fd a) 103 ''pivot_root failed'' (Mnt (Pivot_Root (ch_rootfs a) put_old)),
          must_any K (ch_err_fd a) 104 ''chdir / failed'' (Mnt (Chdir ''/'')),
          must_any K (ch_err_fd a) 105 ''umount old_root failed'' (Mnt (Umount2 ''/.rsrun_old'' MNT_DETACH)),
          sys_any K (Node (Remove_Dir ''/.rsrun_old''))])"

section \<open>Hooks inside the container\<close>

text \<open>The macros of the C library on a wait status.\<close>

definition wifexited :: "u32 \<Rightarrow> bool" where
  "wifexited st \<longleftrightarrow> st AND 0x7f = 0"

definition wexitstatus :: "u32 \<Rightarrow> u32" where
  "wexitstatus st = drop_bit 8 st AND 0xff"

definition wifsignaled :: "u32 \<Rightarrow> bool" where
  "wifsignaled st \<longleftrightarrow> 2 \<le> sint (ucast ((st AND 0x7f) + 1) :: 8 word)"

definition hook_timed :: "kernel \<Rightarrow> nat \<Rightarrow> int \<Rightarrow> int \<Rightarrow> u64 \<Rightarrow> unit process" where
  "hook_timed K n err_fd pid limit =
     io_bind (sys K (Proc (Pidfd_Open pid))) (\<lambda>r.
       case r of
         Inl _ \<Rightarrow> io_ok ()
       | Inr pidfd \<Rightarrow>
           io_bind (sys_retry K n (Fd (Poll pidfd (min (uint limit) (2 ^ 31 - 1))))) (\<lambda>rc.
           io_bind (sys_any K (Fd (Close pidfd))) (\<lambda>_.
             if rc = Inr 0 then
               io_bind (sys_any K (Proc (Kill pid 9))) (\<lambda>_.
               io_bind (sys_any K (Proc (Waitpid pid))) (\<lambda>_.
               child_die K err_fd 116 ''hook timeout, killed''))
             else if is_ok rc then io_ok ()
             else child_die K err_fd 114 ''hook poll failed'')))"

definition run_hook_unsafe :: "kernel \<Rightarrow> nat \<Rightarrow> int \<Rightarrow> hook_cmd \<Rightarrow> unit process" where
  "run_hook_unsafe K n err_fd h =
     io_bind (sys_must K err_fd 113 ''hook fork failed'' (Proc Fork)) (\<lambda>pid.
     if pid = 0 then
       io_bind (sys K (Proc (Execve (hc_path h) (hc_args h) (hc_env h)))) (\<lambda>r.
         case r of Inr _ \<Rightarrow> io_of (Inl (Hook_Program (hc_path h) (hc_args h) (hc_env h))) | Inl _ \<Rightarrow> exit_process 127)
     else
       io_bind (case hc_timeout_ms h of None \<Rightarrow> io_ok () | Some limit \<Rightarrow> hook_timed K n err_fd pid limit) (\<lambda>_.
       io_bind (sys_retry K n (Proc (Waitpid pid))) (\<lambda>r.
         case r of
           Inl _ \<Rightarrow> child_die K err_fd 114 ''hook waitpid failed''
         | Inr v \<Rightarrow>
             (let st = word_of_int v in
              if wifexited st \<and> wexitstatus st \<noteq> 0 then child_die K err_fd 115 ''hook exited nonzero''
              else if wifsignaled st then child_die K err_fd 115 ''hook killed by signal''
              else io_ok ()))))"

definition run_hooks_unsafe :: "kernel \<Rightarrow> nat \<Rightarrow> int \<Rightarrow> hook_cmd list \<Rightarrow> unit process" where
  "run_hooks_unsafe K n err_fd hs = io_each (run_hook_unsafe K n err_fd) hs"

section \<open>Devices, masked paths, sysctls\<close>

definition make_device :: "kernel \<Rightarrow> default_device \<Rightarrow> unit process" where
  "make_device K dev =
     (let make = (\<lambda>flag.
        io_bind (sys K (Node (Mknod (dd_path dev) (dd_mode dev OR flag) (makedev (dd_major dev) (dd_minor dev))))) (\<lambda>r.
          case r of
            Inl _ \<Rightarrow> io_bind (sys_any K (Fd (Open (dd_path dev) O_WRONLY_CREAT))) (\<lambda>_.
              mount_any K (Some (dd_path dev)) (dd_path dev) None MS_BIND None)
          | Inr _ \<Rightarrow> sys_any K (Node (Chmod (dd_path dev) (dd_mode dev)))))
      in if dd_kind dev = CHR ''c'' then make S_IFCHR
         else if dd_kind dev = CHR ''b'' then make S_IFBLK
         else io_ok ())"

definition make_devices :: "kernel \<Rightarrow> default_device list \<Rightarrow> unit process" where
  "make_devices K devs =
     io_bind (sys K (Node (Umask 0))) (\<lambda>prev.
     io_bind (io_each (make_device K) devs) (\<lambda>_.
     sys_any K (Node (Umask (case prev of Inr v \<Rightarrow> word_of_int v | Inl _ \<Rightarrow> -1)))))"

definition make_symlink :: "kernel \<Rightarrow> string \<times> string \<Rightarrow> unit process" where
  "make_symlink K lk = io_seq [sys_any K (Node (Unlink (snd lk))), sys_any K (Node (Symlink_At (fst lk) (snd lk)))]"

definition mask_path :: "kernel \<Rightarrow> string \<Rightarrow> unit process" where
  "mask_path K p =
     io_bind (nix_mount K (Some ''/dev/null'') p None MS_BIND None) (\<lambda>r.
       io_when (\<not> is_ok r) (mount_any K (Some ''tmpfs'') p (Some ''tmpfs'') MS_RDONLY None))"

definition make_readonly :: "kernel \<Rightarrow> string \<Rightarrow> unit process" where
  "make_readonly K p =
     io_bind (nix_mount K (Some p) p None (MS_BIND OR MS_REC) None) (\<lambda>r.
       io_when (is_ok r) (mount_any K None p None (MS_BIND OR MS_REC OR MS_REMOUNT OR MS_RDONLY) None))"

definition write_sysctl :: "kernel \<Rightarrow> string \<times> u8 list \<Rightarrow> unit process" where
  "write_sysctl K pv =
     io_bind (sys K (Fd (Open (fst pv) O_WRONLY_CLOEXEC))) (\<lambda>r.
       case r of
         Inl _ \<Rightarrow> io_ok ()
       | Inr fd \<Rightarrow> io_bind (sys_any K (Fd (Write fd (snd pv)))) (\<lambda>_. sys_any K (Fd (Close fd))))"

definition close_create_stdio_before_tty_wait :: "kernel \<Rightarrow> int \<Rightarrow> int \<Rightarrow> int \<Rightarrow> unit process" where
  "close_create_stdio_before_tty_wait K fifo_fd err_fd pty_slave_fd =
     io_each (\<lambda>fd. io_when (fd \<noteq> fifo_fd \<and> fd \<noteq> err_fd \<and> fd \<noteq> pty_slave_fd) (sys_any K (Fd (Close fd)))) [0, 1, 2]"

section \<open>The gate\<close>

text \<open>Wait until \<^verbatim>\<open>start\<close> writes to the fifo, or closes it (\<^verbatim>\<open>EAGAIN\<close> is 11).\<close>

fun wait_fifo :: "kernel \<Rightarrow> nat \<Rightarrow> int \<Rightarrow> int \<Rightarrow> unit process" where
  "wait_fifo K 0 err_fd fifo_fd = io_of (Inl Blocked)"
| "wait_fifo K (Suc n) err_fd fifo_fd =
     io_bind (sys K (Fd (Poll fifo_fd (-1)))) (\<lambda>p.
     if p = Inl 4 then wait_fifo K n err_fd fifo_fd
     else if \<not> is_ok p then child_die K err_fd 107 ''poll fifo failed''
     else
       io_bind (sys K (Fd (Read fifo_fd))) (\<lambda>r.
       if is_ok r then io_ok ()
       else if r = Inl 4 \<or> r = Inl 11 then wait_fifo K n err_fd fifo_fd
       else child_die K err_fd 107 ''read fifo failed''))"

section \<open>Capabilities and the user\<close>

definition lo32 :: "u64 \<Rightarrow> u32" where
  "lo32 w = ucast w"

definition hi32 :: "u64 \<Rightarrow> u32" where
  "hi32 w = ucast (drop_bit 32 w)"

text \<open>The two words of the kernel's version 3 interface: effective, permitted, inheritable.\<close>

definition cap_data :: "u64 \<Rightarrow> u64 \<Rightarrow> u64 \<Rightarrow> (u32 \<times> u32 \<times> u32) list" where
  "cap_data e p i = [(lo32 e, lo32 p, lo32 i), (hi32 e, hi32 p, hi32 i)]"

definition raise_ambient :: "kernel \<Rightarrow> cap_bitmasks \<Rightarrow> unit process" where
  "raise_ambient K caps =
     io_each (\<lambda>cap. io_when (cb_ambient caps AND push_bit cap 1 \<noteq> 0) (sys_any K (Cred (Ambient_Raise cap)))) [0 ..< 64]"

definition apply_capabilities :: "kernel \<Rightarrow> int \<Rightarrow> cap_bitmasks \<Rightarrow> unit process" where
  "apply_capabilities K err_fd caps =
     io_seq [io_each (\<lambda>cap. io_when (cb_bounding caps AND push_bit cap 1 = 0) (sys_any K (Cred (Capbset_Drop cap)))) [0 ..< 64],
       must_any K err_fd 109 ''capset failed''
         (Cred (Capset (cap_data (cb_effective caps) (cb_permitted caps) (cb_inheritable caps)))),
       raise_ambient K caps]"

text \<open>\<^verbatim>\<open>capget\<close> answers the permitted set that is left.\<close>

definition reapply_effective :: "kernel \<Rightarrow> int \<Rightarrow> cap_bitmasks \<Rightarrow> unit process" where
  "reapply_effective K err_fd caps =
     io_bind (sys_must K err_fd 109 ''capget after setresuid failed'' (Cred Capget)) (\<lambda>v.
       let got = word_of_int v :: u64 in
       must_any K err_fd 109 ''reapply effective caps failed''
         (Cred (Capset [(lo32 got AND lo32 (cb_effective caps), lo32 got, lo32 (cb_inheritable caps)),
           (hi32 got AND hi32 (cb_effective caps), hi32 got, hi32 (cb_inheritable caps))])))"

definition change_user :: "kernel \<Rightarrow> compiled_plan \<Rightarrow> child_args \<Rightarrow> unit process" where
  "change_user K plan a =
     io_seq [io_when (cp_user_gid plan \<noteq> 0) (must_any K (ch_err_fd a) 109 ''setresgid failed'' (Cred (Setresgid (cp_user_gid plan)))),
       io_when (cp_user_uid plan \<noteq> 0)
         (io_seq [must_any K (ch_err_fd a) 109 ''prctl SET_KEEPCAPS failed'' (Cred Keepcaps),
            must_any K (ch_err_fd a) 109 ''setresuid failed'' (Cred (Setresuid (cp_user_uid plan))),
            case cp_caps plan of
              None \<Rightarrow> io_ok ()
            | Some caps \<Rightarrow> io_seq [reapply_effective K (ch_err_fd a) caps, raise_ambient K caps]])]"

definition install_seccomp :: "kernel \<Rightarrow> compiled_plan \<Rightarrow> child_args \<Rightarrow> unit process" where
  "install_seccomp K plan a =
     (let f = ep_seccomp_bpf (cp_ext plan) in
      io_when (f \<noteq> []) (must_any K (ch_err_fd a) 109 ''prctl PR_SET_SECCOMP failed''
        (Cred (Set_Seccomp (of_nat (length f)) f))))"

section \<open>Terminal and security labels\<close>

definition claim_tty :: "kernel \<Rightarrow> child_args \<Rightarrow> unit process" where
  "claim_tty K a =
     (let pty = ch_pty_slave_fd a; err_fd = ch_err_fd a in
      io_when (0 \<le> pty)
        (io_seq [must_any K err_fd 116 ''setsid failed'' (Proc Setsid),
           must_any K err_fd 117 ''ioctl TIOCSCTTY failed'' (Fd (Tiocsctty pty)),
           io_each (\<lambda>newfd. must_any K err_fd 118 ''dup2 pty slave failed'' (Fd (Dup2 pty newfd))) [0, 1, 2],
           io_when (2 < pty) (sys_any K (Fd (Close pty)))]))"

text \<open>The write of a label is complete or the process ends.\<close>

definition write_label :: "kernel \<Rightarrow> int \<Rightarrow> nat \<Rightarrow> string \<Rightarrow> int \<Rightarrow> u8 list \<Rightarrow> unit process" where
  "write_label K err_fd code reason fd bytes =
     io_bind (sys K (Fd (Write fd bytes))) (\<lambda>w.
     io_bind (sys_any K (Fd (Close fd))) (\<lambda>_.
     if w = Inr (int (length bytes)) then io_ok () else child_die K err_fd code reason))"

definition apply_apparmor :: "kernel \<Rightarrow> int \<Rightarrow> string \<Rightarrow> unit process" where
  "apply_apparmor K err_fd profile =
     (if 256 < 5 + length profile then child_die K err_fd 120 ''apparmor profile name too long''
      else
        io_bind (sys K (Fd (Open ''/proc/self/attr/apparmor/exec'' O_WRONLY_CLOEXEC))) (\<lambda>r.
        io_bind (case r of
            Inr fd \<Rightarrow> io_ok fd
          | Inl _ \<Rightarrow> sys_must K err_fd 120 ''open apparmor attr failed (kernel module loaded?)''
              (Fd (Open ''/proc/self/attr/exec'' O_WRONLY_CLOEXEC))) (\<lambda>fd.
        write_label K err_fd 120 ''write apparmor profile failed'' fd (bytes_of (''exec '' @ profile)))))"

definition apply_selinux :: "kernel \<Rightarrow> int \<Rightarrow> string \<Rightarrow> unit process" where
  "apply_selinux K err_fd label =
     io_bind (sys_must K err_fd 121 ''open selinux attr failed (kernel module loaded?)''
       (Fd (Open ''/proc/self/attr/exec'' O_WRONLY_CLOEXEC))) (\<lambda>fd.
     write_label K err_fd 121 ''write selinux label failed'' fd (bytes_of label))"

section \<open>The final exec\<close>

fun env_path :: "string list \<Rightarrow> string" where
  "env_path [] = ''/bin:/usr/bin''"
| "env_path (item # rest) = (case strip_prefix ''PATH='' item of Some path \<Rightarrow> path | None \<Rightarrow> env_path rest)"

definition execve :: "kernel \<Rightarrow> string \<Rightarrow> string list \<Rightarrow> string list \<Rightarrow> nat process" where
  "execve K path argv envp =
     io_bind (sys K (Proc (Execve path argv envp))) (\<lambda>r.
       case r of Inr _ \<Rightarrow> io_of (Inl (Executed path argv envp)) | Inl e \<Rightarrow> io_ok e)"

definition candidate :: "string \<Rightarrow> string \<Rightarrow> string" where
  "candidate dir argv0 = (if dir = [] then ''.'' else dir) @ ''/'' @ argv0"

text \<open>\<^verbatim>\<open>ENOENT\<close> is 2, \<^verbatim>\<open>ENOTDIR\<close> 20, \<^verbatim>\<open>EACCES\<close> 13.\<close>

fun search_path :: "kernel \<Rightarrow> string \<Rightarrow> string list \<Rightarrow> string list \<Rightarrow> bool \<Rightarrow> string list \<Rightarrow> unit process" where
  "search_path K argv0 argv envp saw_eacces [] = io_when saw_eacces (set_errno 13)"
| "search_path K argv0 argv envp saw_eacces (dir # dirs) =
     (let path = candidate dir argv0 in
      if NUL \<in> set path then search_path K argv0 argv envp saw_eacces dirs
      else
        io_bind (execve K path argv envp) (\<lambda>e.
        if e = 2 \<or> e = 20 then search_path K argv0 argv envp saw_eacces dirs
        else if e = 13 then search_path K argv0 argv envp True dirs
        else io_ok ()))"

definition exec_with_env_path :: "kernel \<Rightarrow> string \<Rightarrow> string list \<Rightarrow> string list \<Rightarrow> unit process" where
  "exec_with_env_path K argv0 argv envp =
     (if CHR ''/'' \<in> set argv0 then io_bind (execve K argv0 argv envp) (\<lambda>_. io_ok ())
      else search_path K argv0 argv envp False (split_on CHR '':'' (env_path envp)))"

definition final_exec :: "kernel \<Rightarrow> compiled_plan \<Rightarrow> child_args \<Rightarrow> unit process" where
  "final_exec K plan a =
     (case cp_argv plan of
        [] \<Rightarrow> child_die K (ch_err_fd a) 108 ''empty argv''
      | argv0 # _ \<Rightarrow>
          io_bind (exec_with_env_path K argv0 (cp_argv plan) (cp_envp plan)) (\<lambda>_.
          child_die K (ch_err_fd a) 127 ''exec failed''))"

section \<open>child_run\<close>

text \<open>Everything up to the gate: namespaces, mounts, the root directory, devices and paths.\<close>

definition setup_steps :: "kernel \<Rightarrow> nat \<Rightarrow> compiled_plan \<Rightarrow> child_args \<Rightarrow> unit process list" where
  "setup_steps K n plan a =
     [wait_userns K n plan a,
       io_bind (join_namespaces K (ch_err_fd a) False (cp_join_namespaces plan)) (relay_pid K a),
       private_root K a,
       io_each (run_mount K a) (enumerate 0 (cp_mounts plan)),
       switch_root K plan a,
       io_when (cp_rootfs_propagation plan \<noteq> 0) (mount_any K None ''/'' None (cp_rootfs_propagation plan) None),
       io_when (cp_set_hostname plan) (sys_any K (Node (Sethostname (cp_hostname plan)))),
       run_hooks_unsafe K n (ch_err_fd a) (hk_create_container (ep_hooks (cp_ext plan))),
       make_devices K (cp_default_devices plan),
       io_each (make_symlink K) (cp_default_symlinks plan),
       io_each (mask_path K) (cp_masked_paths plan),
       io_each (make_readonly K) (cp_readonly_paths plan),
       io_when (cp_root_readonly plan) (mount_any K None ''/'' None (MS_BIND OR MS_REMOUNT OR MS_RDONLY) None),
       io_each (write_sysctl K) (cp_sysctls plan),
       sys_any K (Mnt (Chdir (cp_cwd plan))),
       io_when (cp_terminal plan \<and> 0 \<le> ch_pty_slave_fd a)
         (close_create_stdio_before_tty_wait K (ch_fifo_fd a) (ch_err_fd a) (ch_pty_slave_fd a))]"

definition child_setup :: "kernel \<Rightarrow> nat \<Rightarrow> compiled_plan \<Rightarrow> child_args \<Rightarrow> unit process" where
  "child_setup K n plan a = io_seq (setup_steps K n plan a)"

definition wait_start :: "kernel \<Rightarrow> nat \<Rightarrow> child_args \<Rightarrow> unit process" where
  "wait_start K n a =
     io_seq [wait_fifo K n (ch_err_fd a) (ch_fifo_fd a), sys_any K (Fd (Close (ch_fifo_fd a)))]"

text \<open>From the gate on: limits, the seccomp filter, capabilities, the user, the terminal, hooks, labels.\<close>

definition child_confine :: "kernel \<Rightarrow> nat \<Rightarrow> compiled_plan \<Rightarrow> child_args \<Rightarrow> unit process" where
  "child_confine K n plan a =
     io_seq [io_each (\<lambda>(resource, soft, hard). sys_any K (Cred (Prlimit resource soft hard))) (cp_rlimits plan),
       io_when (cp_user_additional_gids plan \<noteq> []) (sys_any K (Cred (Setgroups (cp_user_additional_gids plan)))),
       (case cp_user_umask plan of None \<Rightarrow> io_ok () | Some m \<Rightarrow> sys_any K (Node (Umask m))),
       io_when (cp_no_new_privileges plan) (sys_any K (Cred No_New_Privs)),
       install_seccomp K plan a,
       (case cp_caps plan of None \<Rightarrow> io_ok () | Some caps \<Rightarrow> apply_capabilities K (ch_err_fd a) caps),
       change_user K plan a,
       claim_tty K a,
       run_hooks_unsafe K n (ch_err_fd a) (hk_start_container (ep_hooks (cp_ext plan))),
       (case cp_apparmor_profile plan of None \<Rightarrow> io_ok () | Some p \<Rightarrow> apply_apparmor K (ch_err_fd a) p),
       (case cp_selinux_label plan of None \<Rightarrow> io_ok () | Some l \<Rightarrow> apply_selinux K (ch_err_fd a) l)]"

definition child_run :: "kernel \<Rightarrow> nat \<Rightarrow> compiled_plan \<Rightarrow> child_args \<Rightarrow> unit process" where
  "child_run K n plan a = io_seq [child_setup K n plan a, wait_start K n a, child_confine K n plan a, final_exec K plan a]"

end
