(* ===== verification/Child_Confine.thy ===== *)
theory Child_Confine
  imports Child
begin

text \<open>
  What has happened before the program of the container runs. \<open>does m Q\<close> says that a computation only
  appends to the history, does not end in that program, and when it succeeds has appended calls with \<open>Q\<close>.
\<close>

section \<open>The calculus\<close>

definition does :: "'a process \<Rightarrow> ('a \<Rightarrow> history \<Rightarrow> bool) \<Rightarrow> bool" where
  "does m Q \<longleftrightarrow>
     (\<forall>h. \<exists>cs. fst (m h) = h @ cs \<and>
        (case snd (m h) of Inr a \<Rightarrow> Q a cs | Inl e \<Rightarrow> (\<forall>p x y. e \<noteq> Executed p x y)))"

named_theorems does_rules \<open>rules of the calculus\<close>

lemma doesI:
  "(\<And>h. \<exists>cs. fst (m h) = h @ cs \<and> (case snd (m h) of Inr a \<Rightarrow> Q a cs | Inl e \<Rightarrow> (\<forall>p x y. e \<noteq> Executed p x y))) \<Longrightarrow> does m Q"
  by (simp add: does_def)

lemma does_Inr: "does m Q \<Longrightarrow> m h = (h', Inr a) \<Longrightarrow> \<exists>cs. h' = h @ cs \<and> Q a cs"
  unfolding does_def by (drule spec [of _ h]) simp

lemma does_not_executed: "does m Q \<Longrightarrow> m h \<noteq> (h', Inl (Executed p x y))"
  unfolding does_def by (drule spec [of _ h]) auto

lemma does_weaken: "does m Q \<Longrightarrow> (\<And>a cs. Q a cs \<Longrightarrow> Q' a cs) \<Longrightarrow> does m Q'"
  unfolding does_def by (elim all_forward ex_forward conj_forward) (auto split: sum.splits)

lemma does_both:
  assumes "does m Q" "does m Q'" shows "does m (\<lambda>a cs. Q a cs \<and> Q' a cs)"
proof (rule doesI)
  fix h
  from assms obtain cs cs' where "fst (m h) = h @ cs" "case snd (m h) of Inr a \<Rightarrow> Q a cs | Inl e \<Rightarrow> (\<forall>p x y. e \<noteq> Executed p x y)"
    "fst (m h) = h @ cs'" "case snd (m h) of Inr a \<Rightarrow> Q' a cs' | Inl e \<Rightarrow> (\<forall>p x y. e \<noteq> Executed p x y)"
    unfolding does_def by meson
  then show "\<exists>cs. fst (m h) = h @ cs \<and>
      (case snd (m h) of Inr a \<Rightarrow> Q a cs \<and> Q' a cs | Inl e \<Rightarrow> (\<forall>p x y. e \<noteq> Executed p x y))"
    by (cases "snd (m h)") auto
qed

lemma does_bind:
  assumes "does m Q" and "\<And>a. does (f a) (\<lambda>b cs. \<forall>cs1. Q a cs1 \<longrightarrow> Q' b (cs1 @ cs))"
  shows "does (io_bind m f) Q'"
proof (rule doesI)
  fix h
  from assms(1) obtain cs1 where 1: "fst (m h) = h @ cs1"
    "case snd (m h) of Inr a \<Rightarrow> Q a cs1 | Inl e \<Rightarrow> (\<forall>p x y. e \<noteq> Executed p x y)"
    unfolding does_def by blast
  show "\<exists>cs. fst (io_bind m f h) = h @ cs \<and>
      (case snd (io_bind m f h) of Inr a \<Rightarrow> Q' a cs | Inl e \<Rightarrow> (\<forall>p x y. e \<noteq> Executed p x y))"
  proof (cases "snd (m h)")
    case (Inl e)
    then show ?thesis using 1 by (cases "m h") (auto simp: io_bind_def)
  next
    case (Inr a)
    with 1 have m: "m h = (h @ cs1, Inr a)" and q: "Q a cs1" by (cases "m h"; simp)+
    from assms(2) obtain cs2 where 2: "fst (f a (h @ cs1)) = (h @ cs1) @ cs2"
      "case snd (f a (h @ cs1)) of Inr b \<Rightarrow> (\<forall>cs1. Q a cs1 \<longrightarrow> Q' b (cs1 @ cs2)) | Inl e \<Rightarrow> (\<forall>p x y. e \<noteq> Executed p x y)"
      unfolding does_def by blast
    then show ?thesis using m q
      by (intro exI [of _ "cs1 @ cs2"]) (auto simp: io_bind_Inr split: sum.splits)
  qed
qed

lemma does_ok [does_rules]: "Q a [] \<Longrightarrow> does (io_ok a) Q"
  by (simp add: does_def)

lemma does_return [does_rules]: "Q a [] \<Longrightarrow> does (\<lambda>h. (h, Inr a)) Q"
  by (simp add: does_def)

lemma does_get [does_rules]: "(\<And>h. Q (f h) []) \<Longrightarrow> does (io_get f) Q"
  by (simp add: does_def)

lemma does_end [does_rules]: "(\<And>p x y. e \<noteq> Executed p x y) \<Longrightarrow> does (io_of (Inl e)) Q"
  by (simp add: does_def)

lemma does_exit [does_rules]: "does (exit_process code) Q"
  by (simp add: exit_process_def does_end)

lemma does_sys: "(\<And>r. Q r [(c, r)]) \<Longrightarrow> does (sys K c) Q"
  by (simp add: does_def sys_def)

lemma does_sys_any: "(\<And>r. Q () [(c, r)]) \<Longrightarrow> does (sys_any K c) Q"
  by (simp add: does_def sys_any_def sys_def io_bind_def)

section \<open>Calls of a class\<close>

text \<open>Every call that is appended lies in a class; a dying child only writes.\<close>

abbreviation calls_in :: "(syscall \<Rightarrow> bool) \<Rightarrow> history \<Rightarrow> bool" where
  "calls_in A cs \<equiv> (\<forall>x \<in> set cs. A (fst x))"

abbreviation within :: "(syscall \<Rightarrow> bool) \<Rightarrow> 'a process \<Rightarrow> bool" where
  "within A m \<equiv> does m (\<lambda>_. calls_in A)"

lemma within_bind [does_rules]: "within A m \<Longrightarrow> (\<And>a. within A (f a)) \<Longrightarrow> within A (io_bind m f)"
proof (rule does_bind [where Q = "\<lambda>_. calls_in A"])
  show "does (f a) (\<lambda>b cs. \<forall>cs1. calls_in A cs1 \<longrightarrow> calls_in A (cs1 @ cs))" if "\<And>a. within A (f a)" for a
    using that by (rule does_weaken) auto
qed

lemma within_seq [does_rules]: "(\<And>m. m \<in> set ms \<Longrightarrow> within A m) \<Longrightarrow> within A (io_seq ms)"
proof (induction ms)
  case (Cons m ms)
  then show ?case unfolding io_seq.simps by (intro within_bind) simp_all
qed (simp add: does_ok)

lemma within_sys [does_rules]: "A c \<Longrightarrow> within A (sys K c)"
  by (simp add: does_sys)

lemma within_sys_any [does_rules]: "A c \<Longrightarrow> within A (sys_any K c)"
  by (simp add: does_sys_any)

lemma within_if [does_rules]: "(b \<Longrightarrow> does m Q) \<Longrightarrow> (\<not> b \<Longrightarrow> does m' Q) \<Longrightarrow> does (if b then m else m') Q"
  by simp

lemma does_true: "does m Q \<Longrightarrow> within (\<lambda>_. True) m"
  by (erule does_weaken) simp

lemma does_die [does_rules]: "does (child_die K err_fd code reason) Q"
proof -
  have "within (\<lambda>_. True) (io_when (0 < err_fd)
       (io_bind (sys_any K (Fd (Write err_fd (bytes_of ''rsrun-child: '')))) (\<lambda>_.
        io_bind (sys_any K (Fd (Write err_fd (bytes_of reason)))) (\<lambda>_.
        io_bind (io_get (last_errno K)) (\<lambda>e.
        sys_any K (Fd (Write err_fd (errno_line e))))))))"
    by (intro does_rules) simp_all
  then show ?thesis
    unfolding child_die_def by (rule does_bind) (rule does_exit)
qed

lemma does_must: "(\<And>v. Q v [(c, Inr v)]) \<Longrightarrow> does (sys_must K err_fd code reason c) Q"
  unfolding sys_must_def
proof (rule does_bind [where Q = "\<lambda>r cs. cs = [(c, r)]"])
  fix r assume *: "\<And>v. Q v [(c, Inr v)]"
  show "does (case r of Inl _ \<Rightarrow> child_die K err_fd code reason | Inr v \<Rightarrow> io_ok v) (\<lambda>b cs. \<forall>cs1. cs1 = [(c, r)] \<longrightarrow> Q b (cs1 @ cs))"
    using * by (cases r) (simp_all add: does_die does_ok del: io_run)
qed (simp add: does_sys)

lemma does_must_any: "(\<And>v. Q () [(c, Inr v)]) \<Longrightarrow> does (must_any K err_fd code reason c) Q"
  unfolding must_any_def
  by (rule does_bind [where Q = "\<lambda>v cs. cs = [(c, Inr v)]"]) (simp_all add: does_must does_ok)

lemma within_must [does_rules]:
  "A c \<Longrightarrow> within A (sys_must K err_fd code reason c)" "A c \<Longrightarrow> within A (must_any K err_fd code reason c)"
  by (simp_all add: does_must does_must_any)

lemma within_retry [does_rules]: "A c \<Longrightarrow> within A (sys_retry K n c)"
proof (induction n)
  case (Suc n)
  then show ?case unfolding sys_retry.simps by (intro within_bind within_sys within_if does_ok) simp_all
qed (simp add: does_end del: io_run)

lemma within_option [does_rules]:
  "(x = None \<Longrightarrow> does m Q) \<Longrightarrow> (\<And>a. x = Some a \<Longrightarrow> does (f a) Q) \<Longrightarrow> does (case x of None \<Rightarrow> m | Some a \<Rightarrow> f a) Q"
  by (cases x) simp_all

lemma within_sum [does_rules]:
  "(\<And>e. x = Inl e \<Longrightarrow> does (g e) Q) \<Longrightarrow> (\<And>a. x = Inr a \<Longrightarrow> does (f a) Q) \<Longrightarrow> does (case x of Inl e \<Rightarrow> g e | Inr a \<Rightarrow> f a) Q"
  by (cases x) simp_all

lemma within_hook:
  assumes "\<And>x. A (Fd x)" and "\<And>x. (\<And>fd ty. x \<noteq> Setns fd ty) \<Longrightarrow> (\<And>fl. x \<noteq> Unshare fl) \<Longrightarrow> A (Proc x)"
  shows "within A (run_hook_unsafe K n err_fd hk)"
  unfolding run_hook_unsafe_def hook_timed_def Let_def
  by (intro does_rules assms) (simp_all add: assms)

lemma within_hooks:
  "(\<And>x. A (Fd x)) \<Longrightarrow> (\<And>x. (\<And>fd ty. x \<noteq> Setns fd ty) \<Longrightarrow> (\<And>fl. x \<noteq> Unshare fl) \<Longrightarrow> A (Proc x)) \<Longrightarrow> within A (run_hooks_unsafe K n err_fd hs)"
  unfolding run_hooks_unsafe_def by (rule within_seq) (auto intro: within_hook)

section \<open>Sequences\<close>

lemma does_seq_Nil: "does (io_seq []) (\<lambda>_ cs. cs = [])"
  by (simp add: does_ok del: io_run)

lemma does_seq_Cons:
  assumes "does m Q" and "does (io_seq ms) (\<lambda>_. Q')"
  shows "does (io_seq (m # ms)) (\<lambda>_ cs. \<exists>cs1 cs2. cs = cs1 @ cs2 \<and> Q () cs1 \<and> Q' cs2)"
  unfolding io_seq.simps by (rule does_bind [OF assms(1)], rule does_weaken [OF assms(2)]) auto

lemma seq_executed:
  assumes "does m Q" and "io_seq (m # ms) h = (h', Inl (Executed p x y))"
  shows "\<exists>cs. Q () cs \<and> io_seq ms (h @ cs) = (h', Inl (Executed p x y))"
  using assms(2) does_not_executed [OF assms(1)] does_Inr [OF assms(1)]
  by (fastforce simp: io_bind_Inl_iff)

text \<open>The calls of a history, and a single call that succeeded.\<close>

abbreviation issued :: "history \<Rightarrow> syscall list" where
  "issued cs \<equiv> map fst cs"

definition succeeded :: "syscall \<Rightarrow> history \<Rightarrow> bool" where
  "succeeded c cs \<longleftrightarrow> (\<exists>v. cs = [(c, Inr v)])"

lemma does_each_any: "does (io_each (\<lambda>x. sys_any K (f x)) xs) (\<lambda>_ cs. issued cs = map f xs)"
proof (induction xs)
  case (Cons x xs)
  have "does (sys_any K (f x)) (\<lambda>_ cs. issued cs = [f x])" by (simp add: does_sys_any)
  from does_seq_Cons [OF this Cons.IH] show ?case by (auto elim: does_weaken)
qed (simp add: does_ok del: io_run)

lemma does_each_when:
  "does (io_each (\<lambda>x. io_when (b x) (sys_any K (f x))) xs) (\<lambda>_ cs. issued cs = map f (filter b xs))"
proof (induction xs)
  case (Cons x xs)
  have "does (io_when (b x) (sys_any K (f x))) (\<lambda>_ cs. issued cs = (if b x then [f x] else []))"
    by (intro does_rules) (simp_all add: does_sys_any)
  from does_seq_Cons [OF this Cons.IH] show ?case by (auto elim!: does_weaken)
qed (simp add: does_ok del: io_run)

lemma does_when_any: "does (io_when b (sys_any K c)) (\<lambda>_ cs. issued cs = (if b then [c] else []))"
  by (intro does_rules) (simp_all add: does_sys_any)

lemma does_succeeded: "does (must_any K err_fd code reason c) (\<lambda>_. succeeded c)"
  by (simp add: does_must_any succeeded_def)

lemma does_when_succeeded:
  "does (io_when b (must_any K err_fd code reason c)) (\<lambda>_ cs. if b then succeeded c cs else cs = [])"
  by (intro does_rules) (auto intro: does_succeeded [THEN does_weaken])

section \<open>Capabilities\<close>

lemma bit_flag: "(w AND push_bit n 1 = 0) \<longleftrightarrow> \<not> bit w n" for w :: u64
  by (simp add: bit_iff_and_push_bit_not_eq_0)

definition ambient_raised :: "cap_bitmasks \<Rightarrow> history \<Rightarrow> bool" where
  "ambient_raised caps cs \<longleftrightarrow> issued cs = map (\<lambda>c. Cred (Ambient_Raise c)) (filter (bit (cb_ambient caps)) [0 ..< 64])"

text \<open>The bounding set keeps what was asked for only; the three sets are installed; the ambient set is raised.\<close>

definition caps_applied :: "cap_bitmasks option \<Rightarrow> history \<Rightarrow> bool" where
  "caps_applied co cs \<longleftrightarrow>
     (case co of
        None \<Rightarrow> cs = []
      | Some caps \<Rightarrow> \<exists>drops set_caps raises. cs = drops @ set_caps @ raises \<and>
          issued drops = map (\<lambda>c. Cred (Capbset_Drop c)) (filter (\<lambda>c. \<not> bit (cb_bounding caps) c) [0 ..< 64]) \<and>
          succeeded (Cred (Capset (cap_data (cb_effective caps) (cb_permitted caps) (cb_inheritable caps)))) set_caps \<and>
          ambient_raised caps raises)"

text \<open>After the change of the user: the effective set is what is left of the permitted set and was asked for.\<close>

definition caps_restored :: "cap_bitmasks option \<Rightarrow> history \<Rightarrow> bool" where
  "caps_restored co cs \<longleftrightarrow>
     (case co of
        None \<Rightarrow> cs = []
      | Some caps \<Rightarrow> \<exists>got set_caps raises. cs = (Cred Capget, Inr got) # set_caps @ raises \<and>
          succeeded (Cred (Capset (cap_data (word_of_int got AND cb_effective caps) (word_of_int got) (cb_inheritable caps)))) set_caps \<and>
          ambient_raised caps raises)"

definition user_changed :: "compiled_plan \<Rightarrow> history \<Rightarrow> bool" where
  "user_changed plan cs \<longleftrightarrow>
     (\<exists>group user. cs = group @ user \<and>
        (if cp_user_gid plan \<noteq> 0 then succeeded (Cred (Setresgid (cp_user_gid plan))) group else group = []) \<and>
        (if cp_user_uid plan \<noteq> 0
         then \<exists>keepc set_uid restored. user = keepc @ set_uid @ restored \<and> succeeded (Cred Keepcaps) keepc \<and>
           succeeded (Cred (Setresuid (cp_user_uid plan))) set_uid \<and> caps_restored (cp_caps plan) restored
         else user = []))"

lemma does_raise_ambient: "does (raise_ambient K caps) (\<lambda>_. ambient_raised caps)"
  unfolding raise_ambient_def ambient_raised_def bit_flag not_not by (rule does_each_when)

lemma does_apply_capabilities: "does (apply_capabilities K err_fd caps) (\<lambda>_. caps_applied (Some caps))"
  unfolding apply_capabilities_def bit_flag
  by (rule does_weaken [OF does_seq_Cons [OF does_each_when does_seq_Cons [OF does_succeeded
        does_seq_Cons [OF does_raise_ambient does_seq_Nil]]]])
    (auto simp: caps_applied_def)

lemma half_words [simp]: "lo32 (v AND w) = lo32 v AND lo32 w" "hi32 (v AND w) = hi32 v AND hi32 w"
  by (auto simp: lo32_def hi32_def bit_simps intro!: bit_eqI)

definition effective_restored :: "cap_bitmasks \<Rightarrow> history \<Rightarrow> bool" where
  "effective_restored caps cs \<longleftrightarrow> (\<exists>got set_caps. cs = (Cred Capget, Inr got) # set_caps \<and>
     succeeded (Cred (Capset (cap_data (word_of_int got AND cb_effective caps) (word_of_int got) (cb_inheritable caps)))) set_caps)"

lemma does_reapply: "does (reapply_effective K err_fd caps) (\<lambda>_. effective_restored caps)"
  unfolding reapply_effective_def effective_restored_def
  by (rule does_bind [where Q = "\<lambda>v cs. cs = [(Cred Capget, Inr v)]"])
    (auto simp: Let_def cap_data_def intro!: does_must does_succeeded [THEN does_weaken])

lemma does_restore:
  "does (case co of None \<Rightarrow> io_ok () | Some caps \<Rightarrow> io_seq [reapply_effective K err_fd caps, raise_ambient K caps])
     (\<lambda>_. caps_restored co)"
proof (cases co)
  case (Some caps)
  show ?thesis unfolding Some option.case
    by (rule does_weaken [OF does_seq_Cons [OF does_reapply does_seq_Cons [OF does_raise_ambient does_seq_Nil]]])
      (auto simp: caps_restored_def effective_restored_def, blast)
qed (simp add: caps_restored_def does_ok del: io_run)

lemma does_change_user: "does (change_user K plan a) (\<lambda>_. user_changed plan)"
proof -
  have user: "does (io_when (cp_user_uid plan \<noteq> 0)
      (io_seq [must_any K (ch_err_fd a) 109 ''prctl SET_KEEPCAPS failed'' (Cred Keepcaps),
         must_any K (ch_err_fd a) 109 ''setresuid failed'' (Cred (Setresuid (cp_user_uid plan))),
         case cp_caps plan of None \<Rightarrow> io_ok ()
         | Some caps \<Rightarrow> io_seq [reapply_effective K (ch_err_fd a) caps, raise_ambient K caps]]))
    (\<lambda>_ cs. if cp_user_uid plan \<noteq> 0
       then \<exists>keepc set_uid restored. cs = keepc @ set_uid @ restored \<and> succeeded (Cred Keepcaps) keepc \<and>
         succeeded (Cred (Setresuid (cp_user_uid plan))) set_uid \<and> caps_restored (cp_caps plan) restored
       else cs = [])"
    by (rule within_if)
      (rule does_weaken [OF does_seq_Cons [OF does_succeeded does_seq_Cons [OF does_succeeded
         does_seq_Cons [OF does_restore does_seq_Nil]]]], auto simp: does_ok simp del: io_run)
  show ?thesis
    unfolding change_user_def
    by (rule does_weaken [OF does_seq_Cons [OF does_when_succeeded does_seq_Cons [OF user does_seq_Nil]]])
      (auto simp: user_changed_def split del: if_split)
qed

section \<open>Setup and confinement\<close>

text \<open>Calls that change credentials, and calls that change mounts or namespaces.\<close>

fun changes_creds :: "syscall \<Rightarrow> bool" where
  "changes_creds (Cred _) \<longleftrightarrow> True"
| "changes_creds _ \<longleftrightarrow> False"

fun changes_mounts :: "syscall \<Rightarrow> bool" where
  "changes_mounts (Mnt _) \<longleftrightarrow> True"
| "changes_mounts (Proc (Setns _ _)) \<longleftrightarrow> True"
| "changes_mounts (Proc (Unshare _)) \<longleftrightarrow> True"
| "changes_mounts _ \<longleftrightarrow> False"

text \<open>Before the gate the only change of credentials is to become root of the new user namespace.\<close>

definition setup_call :: "syscall \<Rightarrow> bool" where
  "setup_call c \<longleftrightarrow> \<not> changes_creds c \<or> c \<in> {Cred (Setresgid 0), Cred (Setresuid 0)}"

definition quiet_call :: "syscall \<Rightarrow> bool" where
  "quiet_call c \<longleftrightarrow> \<not> changes_creds c \<and> \<not> changes_mounts c"

lemma call_classes [simp]:
  "setup_call (Fd x)" "setup_call (Proc pc)" "setup_call (Mnt m)" "setup_call (Node nd)"
  "setup_call (Cred (Setresgid 0))" "setup_call (Cred (Setresuid 0))"
  "quiet_call (Fd x)" "quiet_call (Node nd)" "quiet_call (Proc Setsid)"
  by (simp_all add: setup_call_def quiet_call_def)

lemma quiet_proc [simp]:
  "(\<And>fd ty. pc \<noteq> Setns fd ty) \<Longrightarrow> (\<And>fl. pc \<noteq> Unshare fl) \<Longrightarrow> quiet_call (Proc pc)"
  by (cases pc) (simp_all add: quiet_call_def, blast+)

lemma within_nix_mount [does_rules]: "within setup_call (nix_mount K src target fstype flags data)"
  unfolding nix_mount_def by (intro does_rules) simp_all

lemma within_mount_any [does_rules]: "within setup_call (mount_any K src target fstype flags data)"
  unfolding mount_any_def by (intro does_rules) simp_all

lemma within_join [does_rules]: "within setup_call (join_namespaces K err_fd b nss)"
proof (induction nss arbitrary: b)
  case (Cons ns nss)
  obtain kind path where "ns = (kind, path)" by (cases ns)
  then show ?case unfolding join_namespaces.simps by (simp only: join_namespaces.simps) (intro does_rules Cons.IH, simp_all)
qed (simp add: does_ok del: io_run)

lemma within_setup_steps: "m \<in> set (setup_steps K n plan a) \<Longrightarrow> within setup_call m"
proof -
  have mount: "within setup_call (run_mount K a im)" for im
    unfolding run_mount_def apply_idmap_bind_def propagate_def Let_def
    by (cases im) (simp only: prod.case, intro does_rules, simp_all)
  have dev: "within setup_call (make_device K d)" for d
    unfolding make_device_def Let_def by (intro does_rules) simp_all
  have "within setup_call (wait_userns K n plan a)" "within setup_call (switch_root K plan a)"
    "within setup_call (relay_pid K a b)" "within setup_call (make_symlink K lk)" for b lk
    unfolding wait_userns_def switch_root_def relay_pid_def make_symlink_def Let_def
    by (intro does_rules; auto intro!: does_rules)+
  moreover have "within setup_call (mask_path K p)" "within setup_call (make_readonly K p)"
    "within setup_call (write_sysctl K pv)" for p pv
    unfolding mask_path_def make_readonly_def write_sysctl_def by (intro does_rules; simp)+
  moreover have "within setup_call (private_root K a)" "within setup_call (make_devices K ds)" for ds
    unfolding private_root_def make_devices_def by (intro does_rules; auto intro!: does_rules dev)+
  moreover assume "m \<in> set (setup_steps K n plan a)"
  ultimately show ?thesis
    unfolding setup_steps_def close_create_stdio_before_tty_wait_def
    by (auto intro!: does_rules mount within_hooks)
qed

lemma within_setup: "within setup_call (child_setup K n plan a)"
  unfolding child_setup_def by (intro within_seq within_setup_steps)

lemma within_gate: "within quiet_call (wait_start K n a)"
proof -
  have "within quiet_call (wait_fifo K n err_fd fifo_fd)" for n err_fd fifo_fd
    by (induction n) (simp add: does_end del: io_run, simp only: wait_fifo.simps, intro does_rules, simp_all)
  then show ?thesis unfolding wait_start_def by (intro does_rules) (auto intro: does_rules)
qed

section \<open>From the gate to the program\<close>

text \<open>The calls of the limits phase, in order; none of their failures ends the process.\<close>

definition limits_of :: "compiled_plan \<Rightarrow> syscall list" where
  "limits_of plan =
     map (\<lambda>(resource, soft, hard). Cred (Prlimit resource soft hard)) (cp_rlimits plan) @
     (if cp_user_additional_gids plan \<noteq> [] then [Cred (Setgroups (cp_user_additional_gids plan))] else []) @
     (case cp_user_umask plan of None \<Rightarrow> [] | Some m \<Rightarrow> [Node (Umask m)]) @
     (if cp_no_new_privileges plan then [Cred No_New_Privs] else [])"

definition filter_installed :: "compiled_plan \<Rightarrow> history \<Rightarrow> bool" where
  "filter_installed plan cs \<longleftrightarrow>
     (let f = ep_seccomp_bpf (cp_ext plan) in
      if f \<noteq> [] then succeeded (Cred (Set_Seccomp (of_nat (length f)) f)) cs else cs = [])"

definition confined :: "compiled_plan \<Rightarrow> history \<Rightarrow> bool" where
  "confined plan cs \<longleftrightarrow>
     (\<exists>limits seccomp caps user rest. cs = limits @ seccomp @ caps @ user @ rest \<and>
        issued limits = limits_of plan \<and> filter_installed plan seccomp \<and> caps_applied (cp_caps plan) caps \<and>
        user_changed plan user \<and> calls_in quiet_call rest)"

lemma does_seq_append:
  assumes "does (io_seq ms) (\<lambda>_. Q)" and "does (io_seq ns) (\<lambda>_. Q')"
  shows "does (io_seq (ms @ ns)) (\<lambda>_ cs. \<exists>cs1 cs2. cs = cs1 @ cs2 \<and> Q cs1 \<and> Q' cs2)"
proof -
  have "io_seq (ms @ ns) = io_bind (io_seq ms) (\<lambda>_. io_seq ns)"
    by (induction ms) (simp_all add: io_bind_def fun_eq_iff split: prod.split sum.split)
  moreover have "does (io_seq ns) (\<lambda>b cs. \<forall>cs1. Q cs1 \<longrightarrow> (\<exists>cs2 cs3. cs1 @ cs = cs2 @ cs3 \<and> Q cs2 \<and> Q' cs3))"
    by (rule does_weaken [OF assms(2)]) auto
  ultimately show ?thesis using does_bind [OF assms(1)] by simp
qed

lemma does_limits:
  "does (io_seq [io_each (\<lambda>(resource, soft, hard). sys_any K (Cred (Prlimit resource soft hard))) (cp_rlimits plan),
       io_when (cp_user_additional_gids plan \<noteq> []) (sys_any K (Cred (Setgroups (cp_user_additional_gids plan)))),
       (case cp_user_umask plan of None \<Rightarrow> io_ok () | Some m \<Rightarrow> sys_any K (Node (Umask m))),
       io_when (cp_no_new_privileges plan) (sys_any K (Cred No_New_Privs))]) (\<lambda>_ cs. issued cs = limits_of plan)"
proof -
  have 1: "does (io_each (\<lambda>(resource, soft, hard). sys_any K (Cred (Prlimit resource soft hard))) (cp_rlimits plan))
      (\<lambda>_ cs. issued cs = map (\<lambda>(resource, soft, hard). Cred (Prlimit resource soft hard)) (cp_rlimits plan))"
    using does_each_any [of K "\<lambda>(resource, soft, hard). Cred (Prlimit resource soft hard)"] by (simp add: case_prod_unfold)
  have 2: "does (case cp_user_umask plan of None \<Rightarrow> io_ok () | Some m \<Rightarrow> sys_any K (Node (Umask m)))
      (\<lambda>_ cs. issued cs = (case cp_user_umask plan of None \<Rightarrow> [] | Some m \<Rightarrow> [Node (Umask m)]))"
    by (intro within_option) (simp_all add: does_ok does_sys_any del: io_run)
  show ?thesis
    by (rule does_weaken [OF does_seq_Cons [OF 1 does_seq_Cons [OF does_when_any does_seq_Cons [OF 2
          does_seq_Cons [OF does_when_any does_seq_Nil]]]]])
      (auto simp: limits_of_def split del: if_split option.split)
qed

lemma does_seccomp: "does (install_seccomp K plan a) (\<lambda>_. filter_installed plan)"
  unfolding install_seccomp_def filter_installed_def Let_def by (rule does_when_succeeded)

lemma within_rest:
  "within quiet_call (io_seq [claim_tty K a,
     run_hooks_unsafe K n (ch_err_fd a) (hk_start_container (ep_hooks (cp_ext plan))),
     (case cp_apparmor_profile plan of None \<Rightarrow> io_ok () | Some p \<Rightarrow> apply_apparmor K (ch_err_fd a) p),
     (case cp_selinux_label plan of None \<Rightarrow> io_ok () | Some l \<Rightarrow> apply_selinux K (ch_err_fd a) l)])"
proof -
  have tty: "within quiet_call (claim_tty K a)"
    unfolding claim_tty_def Let_def by (intro does_rules) (auto intro!: does_rules)
  have label: "within quiet_call (write_label K err_fd code reason fd bytes)" for err_fd code reason fd bytes
    unfolding write_label_def by (intro does_rules) simp_all
  have "within quiet_call (apply_apparmor K (ch_err_fd a) p)" "within quiet_call (apply_selinux K (ch_err_fd a) p)" for p
    unfolding apply_apparmor_def apply_selinux_def by (intro does_rules label; simp)+
  with tty show ?thesis
    by (intro within_seq) (auto intro!: does_rules within_hooks)
qed

lemma does_confine: "does (child_confine K n plan a) (\<lambda>_. confined plan)"
proof -
  have caps: "does (case cp_caps plan of None \<Rightarrow> io_ok () | Some caps \<Rightarrow> apply_capabilities K (ch_err_fd a) caps)
      (\<lambda>_. caps_applied (cp_caps plan))"
    by (cases "cp_caps plan") (simp_all add: does_apply_capabilities does_ok caps_applied_def del: io_run)
  show ?thesis
    unfolding child_confine_def
    using does_seq_append [OF does_limits [of K plan] does_seq_Cons [OF does_seccomp [of K plan a] does_seq_Cons [OF caps
      does_seq_Cons [OF does_change_user [of K plan a] within_rest [of K a n plan]]]]]
    unfolding append_Cons append_Nil
    by (rule does_weaken) (unfold confined_def, blast)
qed

section \<open>The program\<close>

lemma execve_run:
  "execve K p x y h = (h @ [(Proc (Execve p x y), kn_answer K h (Proc (Execve p x y)))],
     case kn_answer K h (Proc (Execve p x y)) of Inr _ \<Rightarrow> Inl (Executed p x y) | Inl e \<Rightarrow> Inr e)"
  by (simp add: execve_def io_bind_def sys_def split: sum.split)

text \<open>A failed attempt to execute a file.\<close>

definition attempt :: "string list \<Rightarrow> string list \<Rightarrow> syscall \<times> answer \<Rightarrow> bool" where
  "attempt argv envp x \<longleftrightarrow> (\<exists>p e. x = (Proc (Execve p argv envp), Inl e))"

lemma search_executed:
  assumes "search_path K argv0 argv envp b dirs h = (h', Inl (Executed p x y))"
  shows "\<exists>tried v. h' = h @ tried @ [(Proc (Execve p x y), Inr v)] \<and> list_all (attempt argv envp) tried \<and> x = argv \<and> y = envp"
  using assms
proof (induction dirs arbitrary: b h)
  case (Cons dir dirs)
  let ?c = "Proc (Execve (candidate dir argv0) argv envp)"
  show ?case
  proof (cases "NUL \<in> set (candidate dir argv0)")
    case False
    show ?thesis
    proof (cases "kn_answer K h ?c")
      case (Inl e)
      then obtain b' where "search_path K argv0 argv envp b' dirs (h @ [(?c, Inl e)]) = (h', Inl (Executed p x y))"
        using Cons.prems False by (auto simp: Let_def io_bind_def execve_run split: if_splits)
      from Cons.IH [OF this] obtain tried v where "h' = h @ ((?c, Inl e) # tried) @ [(Proc (Execve p x y), Inr v)]"
        "list_all (attempt argv envp) tried" "x = argv" "y = envp" by auto
      then show ?thesis by (intro exI [of _ "(?c, Inl e) # tried"]) (auto simp: attempt_def [of _ _ "(?c, Inl e)"])
    next
      case (Inr v)
      then show ?thesis using Cons.prems False
        by (intro exI [of _ "[]"]) (auto simp: Let_def io_bind_def execve_run)
    qed
  qed (use Cons in \<open>simp add: Let_def\<close>)
qed (simp add: set_errno_def io_bind_def split: if_splits)

lemma final_executed:
  assumes "final_exec K plan a h = (h', Inl (Executed p x y))"
  shows "\<exists>tried v. h' = h @ tried @ [(Proc (Execve p x y), Inr v)] \<and>
    list_all (attempt (cp_argv plan) (cp_envp plan)) tried \<and> x = cp_argv plan \<and> y = cp_envp plan"
proof -
  have die: "child_die K err_fd code reason h \<noteq> (h', Inl (Executed p x y))" for err_fd code reason h
    by (rule does_not_executed [OF does_die])
  from assms obtain argv0 rest where argv: "cp_argv plan = argv0 # rest"
    by (cases "cp_argv plan") (simp_all add: final_exec_def die)
  with assms die have run: "exec_with_env_path K argv0 (cp_argv plan) (cp_envp plan) h = (h', Inl (Executed p x y))"
    by (auto simp: final_exec_def io_bind_Inl_iff)
  show ?thesis
  proof (cases "CHR ''/'' \<in> set argv0")
    case True
    with run show ?thesis
      by (intro exI [of _ "[]"]) (auto simp: exec_with_env_path_def io_bind_def execve_run split: sum.splits)
  next
    case False
    with run show ?thesis by (simp only: exec_with_env_path_def if_False search_executed)
  qed
qed

section \<open>The gate\<close>

definition started :: "child_args \<Rightarrow> history \<Rightarrow> bool" where
  "started a cs \<longleftrightarrow> (\<exists>v. (Fd (Read (ch_fifo_fd a)), Inr v) \<in> set cs) \<and> calls_in quiet_call cs"

lemma does_wait_fifo:
  "does (wait_fifo K n err_fd fifo_fd) (\<lambda>_ cs. (\<exists>v. (Fd (Read fifo_fd), Inr v) \<in> set cs) \<and> calls_in quiet_call cs)"
proof (induction n)
  case (Suc n)
  let ?poll = "Fd (Poll fifo_fd (- 1))" and ?read = "Fd (Read fifo_fd)"
  let ?Q = "\<lambda>cs. (\<exists>v. (?read, Inr v) \<in> set cs) \<and> calls_in quiet_call cs"
  have again: "does (wait_fifo K n err_fd fifo_fd) (\<lambda>b cs. \<forall>cs1. cs1 = [(?poll, p)] \<longrightarrow> ?Q (cs1 @ cs))"
    "does (wait_fifo K n err_fd fifo_fd) (\<lambda>b cs. \<forall>cs1. cs1 = [(?read, r)] \<longrightarrow> (\<forall>cs2. cs2 = [(?poll, p)] \<longrightarrow> ?Q (cs2 @ cs1 @ cs)))"
    for p r by (rule does_weaken [OF Suc]; auto)+
  show ?case
    unfolding wait_fifo.simps
    apply (rule does_bind [where Q = "\<lambda>p cs. cs = [(?poll, p)]"], simp add: does_sys)
    apply (intro within_if again(1) does_die)
    apply (rule does_bind [where Q = "\<lambda>r cs. cs = [(?read, r)]"], simp add: does_sys)
    apply (intro within_if again(2) does_die)
    by (auto simp: is_ok_iff intro!: does_ok)
qed (simp add: does_end del: io_run)

lemma does_gate: "does (wait_start K n a) (\<lambda>_. started a)"
  unfolding wait_start_def
  by (rule does_weaken [OF does_seq_Cons [OF does_wait_fifo does_seq_Cons [OF within_sys_any [where A = quiet_call] does_seq_Nil]]])
    (simp, elim exE conjE, simp add: started_def ball_Un, blast)

lemma child_run_parts:
  assumes "does (child_setup K n plan a) (\<lambda>_. Q)" and "child_run K n plan a h0 = (h, Inl (Executed path argv envp))"
  shows "\<exists>setup gate conf tried v. h = h0 @ setup @ gate @ conf @ tried @ [(Proc (Execve path argv envp), Inr v)] \<and>
    Q setup \<and> started a gate \<and> confined plan conf \<and>
    list_all (attempt argv envp) tried \<and> argv = cp_argv plan \<and> envp = cp_envp plan"
proof -
  note run = assms(2) [unfolded child_run_def]
  obtain prep where prep: "Q prep"
    and r1: "io_seq [wait_start K n a, child_confine K n plan a, final_exec K plan a] (h0 @ prep) = (h, Inl (Executed path argv envp))"
    using seq_executed [OF assms(1) run] by blast
  obtain gate where gate: "started a gate"
    and r2: "io_seq [child_confine K n plan a, final_exec K plan a] ((h0 @ prep) @ gate) = (h, Inl (Executed path argv envp))"
    using seq_executed [OF does_gate r1] by blast
  obtain conf where conf: "confined plan conf"
    and r3: "io_seq [final_exec K plan a] (((h0 @ prep) @ gate) @ conf) = (h, Inl (Executed path argv envp))"
    using seq_executed [OF does_confine r2] by blast
  from r3 have "final_exec K plan a (((h0 @ prep) @ gate) @ conf) = (h, Inl (Executed path argv envp))"
    by (auto simp: io_bind_Inl_iff)
  from final_executed [OF this] obtain tried v where "h = h0 @ prep @ gate @ conf @ tried @ [(Proc (Execve path argv envp), Inr v)]"
    "list_all (attempt (cp_argv plan) (cp_envp plan)) tried" "argv = cp_argv plan" "envp = cp_envp plan"
    by auto
  with prep gate conf show ?thesis by blast
qed

text \<open>
  C13: The program of the container only runs confined. When the init reaches its \<^verbatim>\<open>execve\<close>, its
  history is: a setup that changes no credentials (but for becoming root of a new user namespace); the
  start signal read from the fifo; then the limits, the seccomp filter, the capabilities and the
  user, in this order, each exactly as the plan says and each of the last three successful; then calls
  that change neither credentials nor mounts nor namespaces; and last the attempts to execute, with
  the arguments and the environment of the plan.
\<close>
theorem program_runs_confined:
  assumes "child_run K n plan a h0 = (h, Inl (Executed path argv envp))"
  shows "\<exists>setup gate conf tried v. h = h0 @ setup @ gate @ conf @ tried @ [(Proc (Execve path argv envp), Inr v)] \<and>
    calls_in setup_call setup \<and> started a gate \<and> confined plan conf \<and>
    list_all (attempt argv envp) tried \<and> argv = cp_argv plan \<and> envp = cp_envp plan"
  by (rule child_run_parts [OF within_setup assms])

section \<open>The root directory and the namespaces\<close>

text \<open>A property of the calls of one member of a sequence, kept when other calls surround them.\<close>

lemma does_member:
  assumes "m \<in> set ms" and "does m (\<lambda>_. Q)" and "\<And>m. m \<in> set ms \<Longrightarrow> within A m"
    and "\<And>cs1 cs cs2. Q cs \<Longrightarrow> Q (cs1 @ cs @ cs2)"
  shows "does (io_seq ms) (\<lambda>_. Q)"
proof -
  from assms(1) obtain xs ys where ms: "ms = xs @ m # ys" by (auto simp: in_set_conv_decomp)
  have "within A (io_seq xs)" "within A (io_seq ys)" by (rule within_seq; use assms(3) ms in auto)+
  from does_seq_append [OF this(1) does_seq_Cons [OF assms(2) this(2)]]
  show ?thesis unfolding ms by (rule does_weaken) (auto simp del: append_assoc simp: append_assoc [symmetric] intro: assms(4) [of _ _ "_", simplified])
qed

text \<open>
  The calls that change the root directory, one right after the other: \<^verbatim>\<open>chroot\<close> and \<^verbatim>\<open>chdir\<close>, or
  \<^verbatim>\<open>pivot_root\<close>, \<^verbatim>\<open>chdir\<close> and the unmounting of the old root.
\<close>

definition in_new_root :: "compiled_plan \<Rightarrow> child_args \<Rightarrow> history \<Rightarrow> bool" where
  "in_new_root plan a cs \<longleftrightarrow>
     (if cp_no_pivot plan
      then \<exists>before v w after. cs = before @ [(Mnt (Chroot (ch_rootfs a)), Inr v), (Mnt (Chdir ''/''), Inr w)] @ after
      else \<exists>before v w u after. cs = before @
        [(Mnt (Pivot_Root (ch_rootfs a) (path_join (ch_rootfs a) ''.rsrun_old'')), Inr v),
         (Mnt (Chdir ''/''), Inr w), (Mnt (Umount2 ''/.rsrun_old'' 2), Inr u)] @ after)"

text \<open>
  The namespace was opened, the kernel confirmed the type of what was opened, and then it was entered:
  three calls in a row.
\<close>

definition entered :: "namespace_kind \<times> string \<Rightarrow> history \<Rightarrow> bool" where
  "entered kp cs \<longleftrightarrow> (case kp of (kind, path) \<Rightarrow>
     \<exists>before fd v after. cs = before @
       [(Fd (Open path 0x80000), Inr fd), (Fd (Ns_Type fd), Inr (uint (clone_flag kind))),
        (Proc (Setns fd (clone_flag kind)), Inr v)] @ after)"

lemma in_new_root_more: "in_new_root plan a cs \<Longrightarrow> in_new_root plan a (cs1 @ cs @ cs2)"
  unfolding in_new_root_def by (simp split: if_split_asm; metis append.assoc append_Cons)

lemma does_switch_root: "does (switch_root K plan a) (\<lambda>_. in_new_root plan a)"
proof -
  have chroot: "does (io_seq [must_any K (ch_err_fd a) 103 ''chroot failed'' (Mnt (Chroot (ch_rootfs a))),
      must_any K (ch_err_fd a) 104 ''chdir / failed'' (Mnt (Chdir ''/''))])
    (\<lambda>_ cs. \<exists>before v w after. cs = before @ [(Mnt (Chroot (ch_rootfs a)), Inr v), (Mnt (Chdir ''/''), Inr w)] @ after)"
    by (rule does_weaken [OF does_seq_Cons [OF does_succeeded does_seq_Cons [OF does_succeeded does_seq_Nil]]])
      (force simp: succeeded_def intro: exI [of _ "[]"])
  have pivot: "does (io_seq [sys_any K (Node (Create_Dir_All p)),
      must_any K (ch_err_fd a) 103 ''pivot_root failed'' (Mnt (Pivot_Root (ch_rootfs a) p)),
      must_any K (ch_err_fd a) 104 ''chdir / failed'' (Mnt (Chdir ''/'')),
      must_any K (ch_err_fd a) 105 ''umount old_root failed'' (Mnt (Umount2 ''/.rsrun_old'' 2)),
      sys_any K (Node (Remove_Dir ''/.rsrun_old''))])
    (\<lambda>_ cs. \<exists>before v w u after. cs = before @ [(Mnt (Pivot_Root (ch_rootfs a) p), Inr v),
       (Mnt (Chdir ''/''), Inr w), (Mnt (Umount2 ''/.rsrun_old'' 2), Inr u)] @ after)" for p
    by (rule does_weaken [OF does_seq_Cons [OF does_true [OF does_sys_any [where Q = "\<lambda>_ _. True"]] does_seq_Cons [OF does_succeeded
          does_seq_Cons [OF does_succeeded does_seq_Cons [OF does_succeeded does_seq_Cons [OF does_true [OF does_sys_any [where Q = "\<lambda>_ _. True"]] does_seq_Nil]]]]]])
      (simp, simp, elim exE conjE, simp add: succeeded_def, elim exE, simp, blast)
  show ?thesis
    unfolding switch_root_def in_new_root_def Let_def
    by (cases "cp_no_pivot plan") (simp_all only: if_True if_False not_True_eq_False chroot pivot)
qed

lemma succeeded_in: "succeeded c cs \<Longrightarrow> calls_in A cs \<longleftrightarrow> A c"
  by (auto simp: succeeded_def)

lemma issued_in: "issued cs = ls \<Longrightarrow> calls_in A cs \<longleftrightarrow> list_all A ls"
proof -
  have "calls_in A cs \<longleftrightarrow> list_all A (issued cs)" by (induction cs) auto
  then show "issued cs = ls \<Longrightarrow> calls_in A cs \<longleftrightarrow> list_all A ls" by simp
qed

lemma confined_no_mounts:
  assumes "confined plan cs" shows "calls_in (\<lambda>c. \<not> changes_mounts c) cs"
proof -
  let ?A = "\<lambda>c. \<not> changes_mounts c"
  have raised: "calls_in ?A cs" if "ambient_raised caps cs" for caps cs
    using issued_in [OF that [unfolded ambient_raised_def], of ?A] by (simp add: list_all_iff)
  have caps: "calls_in ?A cs" if "caps_applied co cs" for co cs
  proof (cases co)
    case (Some caps)
    with that obtain drops sets raises where "cs = drops @ sets @ raises"
      "issued drops = map (\<lambda>c. Cred (Capbset_Drop c)) (filter (\<lambda>c. \<not> bit (cb_bounding caps) c) [0 ..< 64])"
      "succeeded (Cred (Capset (cap_data (cb_effective caps) (cb_permitted caps) (cb_inheritable caps)))) sets"
      "ambient_raised caps raises"
      unfolding caps_applied_def Some option.case by blast
    with raised issued_in [OF this(2), of ?A] succeeded_in [OF this(3), of ?A]
    show ?thesis by (simp add: list_all_iff ball_Un)
  qed (use that in \<open>simp add: caps_applied_def\<close>)
  have restored: "calls_in ?A cs" if "caps_restored co cs" for co cs
    using that raised by (cases co) (fastforce simp: caps_restored_def succeeded_def)+
  from assms obtain limits seccomp caps user rest where cs: "cs = limits @ seccomp @ caps @ user @ rest"
    "issued limits = limits_of plan" "filter_installed plan seccomp" "caps_applied (cp_caps plan) caps"
    "user_changed plan user" "calls_in quiet_call rest"
    unfolding confined_def by blast
  have "calls_in ?A limits"
    using issued_in [OF cs(2), of ?A] by (auto simp: limits_of_def list_all_iff split: option.splits)
  moreover have "calls_in ?A seccomp"
    using cs(3) by (auto simp: filter_installed_def succeeded_def Let_def split: if_splits)
  moreover have "calls_in ?A user"
    using cs(5) restored by (fastforce simp: user_changed_def succeeded_def split: if_splits)
  moreover have "calls_in ?A rest" using cs(6) by (simp add: quiet_call_def)
  ultimately show ?thesis using caps [OF cs(4)] by (simp add: cs(1) ball_Un)
qed

lemma entered_more: "entered kp cs \<Longrightarrow> entered kp (cs1 @ cs @ cs2)"
  unfolding entered_def by (cases kp) (simp, metis append.assoc append_Cons)

lemma entered_Cons: "entered kp cs \<Longrightarrow> entered kp (x # cs)" and entered_append: "entered kp cs \<Longrightarrow> entered kp (cs @ cs2)"
  using entered_more [of kp cs "[x]" "[]"] entered_more [of kp cs "[]" cs2] by simp_all

lemma entered_now:
  "entered (kind, path) ((Fd (Open path 0x80000), Inr fd) # (Fd (Ns_Type fd), Inr (uint (clone_flag kind))) #
     (Proc (Setns fd (clone_flag kind)), Inr v) # cs)"
  by (simp add: entered_def) (rule exI [of _ "[]"], simp)

lemma does_join: "does (join_namespaces K err_fd b nss) (\<lambda>_ cs. \<forall>kp \<in> set nss. entered kp cs)"
proof (induction nss arbitrary: b)
  case (Cons ns nss)
  obtain kind path where ns: "ns = (kind, path)" by (cases ns)
  let ?op = "Fd (Open path 0x80000)" and ?ty = "\<lambda>fd. Fd (Ns_Type fd)" and ?set = "\<lambda>fd. Proc (Setns fd (clone_flag kind))"
  let ?want = "Inr (uint (clone_flag kind))"
  have rest: "does (join_namespaces K err_fd b' nss)
      (\<lambda>_ cs. \<forall>c5. length c5 = 1 \<longrightarrow> (\<forall>c4. (\<exists>v. c4 = [(?set fd, Inr v)]) \<longrightarrow> (\<forall>c3. actual = ?want \<and> c3 = [] \<longrightarrow>
        (\<forall>c2. c2 = [(?ty fd, actual)] \<longrightarrow> (\<forall>c1. c1 = [(?op, Inr fd)] \<longrightarrow>
        (\<forall>kp \<in> set (ns # nss). entered kp (c1 @ c2 @ c3 @ c4 @ c5 @ cs)))))))" for b' fd actual
    by (rule does_weaken [OF Cons.IH], auto simp: ns length_Suc_conv intro: entered_now, (rule entered_Cons)+, blast)
  have type_ok: "does (if actual = ?want then io_ok ()
        else io_bind (sys_any K (Fd (Close fd))) (\<lambda>_. child_die K err_fd 112 ''namespace path type mismatch''))
      (\<lambda>_ cs. actual = ?want \<and> cs = [])" for actual fd
    by (intro within_if does_ok does_bind [OF does_sys_any [of "\<lambda>_ _. True"]] does_die) simp_all
  show ?case
    unfolding ns join_namespaces.simps
    apply (intro within_if does_die)
    apply (rule does_bind [where Q = "\<lambda>fd cs. cs = [(?op, Inr fd)]"], simp add: does_must)
    subgoal for fd
      apply (rule does_bind [where Q = "\<lambda>r cs. cs = [(?ty fd, r)]"], simp add: does_sys)
      apply (rule does_bind [OF type_ok])
      apply (rule does_bind [where Q = "\<lambda>_ cs. \<exists>v. cs = [(?set fd, Inr v)]"], simp add: does_must)
      apply (rule does_bind [where Q = "\<lambda>_ cs. length cs = 1"], simp add: does_sys_any)
      by (rule does_weaken [OF rest [of _ fd]]) (unfold ns, blast)
    done
qed (simp add: does_ok del: io_run)

lemma does_join_relay:
  "does (io_bind (join_namespaces K err_fd b nss) (relay_pid K a)) (\<lambda>_ cs. \<forall>kp \<in> set nss. entered kp cs)"
proof -
  have relay: "within (\<lambda>_. True) (relay_pid K a b)" for b
    unfolding relay_pid_def by (intro does_rules; simp)
  show ?thesis
    by (rule does_bind [OF does_join], rule does_weaken [OF relay]) (auto intro: entered_append)
qed

lemma does_setup:
  "does (child_setup K n plan a) (\<lambda>_ cs. \<exists>joined switched. cs = joined @ switched \<and>
     (\<forall>kp \<in> set (cp_join_namespaces plan). entered kp joined) \<and> in_new_root plan a switched)"
proof -
  let ?join = "io_bind (join_namespaces K (ch_err_fd a) False (cp_join_namespaces plan)) (relay_pid K a)"
  let ?before = "[wait_userns K n plan a, ?join, private_root K a, io_each (run_mount K a) (enumerate 0 (cp_mounts plan))]"
  obtain after where steps: "setup_steps K n plan a = ?before @ switch_root K plan a # after"
    by (simp add: setup_steps_def)
  have "does (io_seq ?before) (\<lambda>_ cs. \<forall>kp \<in> set (cp_join_namespaces plan). entered kp cs)"
    by (rule does_member [OF _ does_join_relay])
      (use steps in \<open>auto intro: within_setup_steps [of _ K n plan a] entered_more\<close>)
  moreover have "within setup_call (io_seq after)"
    by (intro within_seq within_setup_steps [of _ K n plan a]) (simp add: steps)
  ultimately show ?thesis
    unfolding child_setup_def steps
    by (rule does_weaken [OF does_seq_append [OF _ does_seq_Cons [OF does_switch_root [of K plan a]]]])
      (use in_new_root_more [of plan a _ "[]"] in fastforce)
qed

lemma gate_keeps_mounts: "started a cs \<Longrightarrow> calls_in (\<lambda>c. \<not> changes_mounts c) cs"
  by (simp add: started_def quiet_call_def)

lemma attempts_keep_mounts: "list_all (attempt argv envp) cs \<Longrightarrow> calls_in (\<lambda>c. \<not> changes_mounts c) cs"
  by (auto simp: attempt_def list_all_iff)

text \<open>
  C14: The program of the container runs in its own root and namespaces. When the init reaches its
  \<^verbatim>\<open>execve\<close>, its history is: a part in which every namespace of the plan that is given by a path was
  opened, its type confirmed by the kernel and then entered, three calls in a row; a part in which the
  root directory was changed (\<^verbatim>\<open>pivot_root\<close>, \<^verbatim>\<open>chdir\<close> and the unmounting of the old root in a row, or
  \<^verbatim>\<open>chroot\<close> and \<^verbatim>\<open>chdir\<close> where the plan says so); the reading of the start signal; and the rest, which
  ends with the \<^verbatim>\<open>execve\<close>. From the start signal on no call changes a mount, a root directory or a
  namespace (\<^verbatim>\<open>setns\<close> or \<^verbatim>\<open>unshare\<close>).
\<close>
theorem program_runs_in_its_root:
  assumes "child_run K n plan a h0 = (h, Inl (Executed path argv envp))"
  shows "\<exists>joined switched gate rest v.
    h = h0 @ joined @ switched @ gate @ rest @ [(Proc (Execve path argv envp), Inr v)] \<and>
    (\<forall>kp \<in> set (cp_join_namespaces plan). entered kp joined) \<and> in_new_root plan a switched \<and>
    started a gate \<and> calls_in (\<lambda>c. \<not> changes_mounts c) (gate @ rest)"
proof -
  from child_run_parts [OF does_setup assms] obtain joined switched gate conf tried v
    where run: "h = h0 @ (joined @ switched) @ gate @ conf @ tried @ [(Proc (Execve path argv envp), Inr v)]"
      "\<forall>kp \<in> set (cp_join_namespaces plan). entered kp joined" "in_new_root plan a switched"
      and parts: "started a gate" "confined plan conf" "list_all (attempt argv envp) tried"
    by blast
  have "calls_in (\<lambda>c. \<not> changes_mounts c) (gate @ (conf @ tried))"
    using gate_keeps_mounts [OF parts(1)] confined_no_mounts [OF parts(2)] attempts_keep_mounts [OF parts(3)]
    by (simp add: ball_Un)
  with run parts(1) show ?thesis
    by (intro exI [of _ joined] exI [of _ switched] exI [of _ gate] exI [of _ "conf @ tried"] exI [of _ v]) simp
qed

end
