(* ===== verification/Child_Exec.thy ===== *)
theory Child_Exec
  imports Child_Confine
begin

text \<open>
  The end of the init: it always ends when the kernel interrupts it only finitely often; which file
  the search along \<^verbatim>\<open>PATH\<close> executes; what the two words of the capability interface hold; and what the
  init goes on without.
\<close>

section \<open>The init ends\<close>

definition interrupted :: "syscall \<times> answer \<Rightarrow> bool" where
  "interrupted x \<longleftrightarrow> snd x \<in> {Inl 4, Inl 11}"

text \<open>A kernel that answers \<^verbatim>\<open>EINTR\<close> or \<^verbatim>\<open>EAGAIN\<close> at most \<open>N\<close> times in a run.\<close>

definition patient :: "kernel \<Rightarrow> nat \<Rightarrow> bool" where
  "patient K N \<longleftrightarrow> (\<forall>h c. kn_answer K h c \<in> {Inl 4, Inl 11} \<longrightarrow> length (filter interrupted h) < N)"

lemma patientD: "patient K N \<Longrightarrow> kn_answer K h c \<in> {Inl 4, Inl 11} \<Longrightarrow> length (filter interrupted h) < N"
  unfolding patient_def by blast

lemma interrupted_pair [simp]: "interrupted (c, r) \<longleftrightarrow> r = Inl 4 \<or> r = Inl 11"
  by (simp add: interrupted_def)

lemma sys_retry_run:
  "sys_retry K (Suc n) c h =
     (let r = kn_answer K h c in if r = Inl 4 then sys_retry K n c (h @ [(c, r)]) else (h @ [(c, r)], Inr r))"
  by (simp add: io_bind_def sys_def Let_def)

lemma sys_retry_fuel:
  assumes "patient K N" and "N < n + length (filter interrupted h)" "N < m + length (filter interrupted h)" "0 < n" "0 < m"
  shows "sys_retry K n c h = sys_retry K m c h \<and> snd (sys_retry K n c h) \<noteq> Inl Blocked"
  using assms(2-)
proof (induction n arbitrary: m h)
  case (Suc n)
  then obtain m' where m: "m = Suc m'" by (cases m) auto
  show ?case
  proof (cases "kn_answer K h c = Inl 4")
    case True
    then have "length (filter interrupted h) < N" using patientD [OF assms(1), of h c] by simp
    with Suc.prems True have "sys_retry K n c (h @ [(c, Inl 4)]) = sys_retry K m' c (h @ [(c, Inl 4)]) \<and>
        snd (sys_retry K n c (h @ [(c, Inl 4)])) \<noteq> Inl Blocked"
      unfolding m by (intro Suc.IH) auto
    with True show ?thesis unfolding m sys_retry_run by simp metis
  qed (simp add: m sys_retry_run Let_def del: sys_retry.simps)
qed simp

lemma wait_fifo_fuel:
  assumes "patient K N" and "N < n + length (filter interrupted h)" "N < m + length (filter interrupted h)" "0 < n" "0 < m"
  shows "wait_fifo K n err_fd fd h = wait_fifo K m err_fd fd h \<and> snd (wait_fifo K n err_fd fd h) \<noteq> Inl Blocked"
  using assms(2-)
proof (induction n arbitrary: m h)
  case (Suc n)
  then obtain m' where m: "m = Suc m'" by (cases m) auto
  let ?poll = "Fd (Poll fd (- 1))" and ?read = "Fd (Read fd)"
  have again: "wait_fifo K n err_fd fd h' = wait_fifo K m' err_fd fd h' \<and> snd (wait_fifo K n err_fd fd h') \<noteq> Inl Blocked"
    if "length (filter interrupted h') = Suc (length (filter interrupted h))" "length (filter interrupted h) < N" for h'
    using Suc.prems that unfolding m by (intro Suc.IH) auto
  have die: "snd (child_die K err_fd code reason h') \<noteq> Inl Blocked" for code reason h'
    by (simp add: child_die_def io_bind_def exit_process_def sys_any_def sys_def)
  show ?case
  proof (cases "kn_answer K h ?poll")
    case (Inl e)
    then have "e = 4 \<longrightarrow> length (filter interrupted h) < N" using patientD [OF assms(1), of h ?poll] by simp
    then show ?thesis using Inl die again [of "h @ [(?poll, Inl 4)]"]
      by (auto simp: m io_bind_def sys_def)
  next
    case (Inr v)
    let ?h = "h @ [(?poll, Inr v)]"
    have len: "length (filter interrupted ?h) = length (filter interrupted h)" by simp
    show ?thesis
    proof (cases "kn_answer K ?h ?read")
      case (Inl e)
      then have "e = 4 \<or> e = 11 \<longrightarrow> length (filter interrupted h) < N" using patientD [OF assms(1), of ?h ?read] len by auto
      then show ?thesis using Inl \<open>kn_answer K h ?poll = Inr v\<close> die
          again [of "?h @ [(?read, Inl e)]"]
        by (auto simp: m io_bind_def sys_def)
    next
      case (Inr w)
      with \<open>kn_answer K h ?poll = Inr v\<close> show ?thesis by (simp add: m io_bind_def sys_def)
    qed
  qed
qed simp

text \<open>Computations that never stay blocked.\<close>

definition unblocked :: "'a process \<Rightarrow> bool" where
  "unblocked m \<longleftrightarrow> (\<forall>h. snd (m h) \<noteq> Inl Blocked)"

named_theorems live_rules \<open>computations that end\<close>

lemma live_bind [live_rules]: "unblocked m \<Longrightarrow> (\<And>a. unblocked (f a)) \<Longrightarrow> unblocked (io_bind m f)"
  by (auto simp: unblocked_def io_bind_def split: prod.splits sum.splits) (metis snd_conv)

lemma live_basic [live_rules]:
  "unblocked (io_ok a)" "unblocked (\<lambda>h. (h, Inr a))" "unblocked (io_get f)" "unblocked (exit_process code)" "unblocked (sys K c)"
  "e \<noteq> Blocked \<Longrightarrow> unblocked (io_of (Inl e))" "unblocked (set_errno n)"
  by (simp_all add: unblocked_def exit_process_def sys_def set_errno_def)

lemma live_if [live_rules]: "(b \<Longrightarrow> unblocked m) \<Longrightarrow> (\<not> b \<Longrightarrow> unblocked m') \<Longrightarrow> unblocked (if b then m else m')"
  by simp

lemma live_option [live_rules]:
  "(x = None \<Longrightarrow> unblocked m) \<Longrightarrow> (\<And>a. x = Some a \<Longrightarrow> unblocked (f a)) \<Longrightarrow> unblocked (case x of None \<Rightarrow> m | Some a \<Rightarrow> f a)"
  by (cases x) simp_all

lemma live_sum [live_rules]:
  "(\<And>e. x = Inl e \<Longrightarrow> unblocked (g e)) \<Longrightarrow> (\<And>a. x = Inr a \<Longrightarrow> unblocked (f a)) \<Longrightarrow>
   unblocked (case x of Inl e \<Rightarrow> g e | Inr a \<Rightarrow> f a)"
  by (cases x) simp_all

lemma live_seq [live_rules]: "(\<And>m. m \<in> set ms \<Longrightarrow> unblocked m) \<Longrightarrow> unblocked (io_seq ms)"
  by (induction ms) (auto intro!: live_rules)

lemma live_calls [live_rules]:
  "unblocked (sys_any K c)" "unblocked (child_die K err_fd code reason)" "unblocked (sys_must K err_fd code reason c)"
  "unblocked (must_any K err_fd code reason c)" "unblocked (nix_mount K src target fstype flags data)"
  "unblocked (mount_any K src target fstype flags data)" "unblocked (execve K p x y)"
  unfolding sys_any_def child_die_def sys_must_def must_any_def nix_mount_def mount_any_def execve_def
  by (intro live_rules; simp)+

lemma live_join [live_rules]: "unblocked (join_namespaces K err_fd b nss)"
  by (induction K err_fd b nss rule: join_namespaces.induct) (simp_all only: join_namespaces.simps, (intro live_rules; simp)+)

lemma live_search [live_rules]: "unblocked (search_path K argv0 argv envp b dirs)"
  by (induction dirs arbitrary: b) (simp_all only: search_path.simps Let_def, (intro live_rules; simp)+)

lemma live_retry: "patient K N \<Longrightarrow> N < n \<Longrightarrow> unblocked (sys_retry K n c)"
  using sys_retry_fuel [of K N n _ n] by (simp add: unblocked_def)

lemma live_fifo: "patient K N \<Longrightarrow> N < n \<Longrightarrow> unblocked (wait_fifo K n err_fd fd)"
  using wait_fifo_fuel [of K N n _ n] by (simp add: unblocked_def)

lemma live_hooks:
  assumes "patient K N" "N < n" shows "unblocked (run_hooks_unsafe K n err_fd hs)"
proof -
  have "unblocked (run_hook_unsafe K n err_fd hk)" for hk
    unfolding run_hook_unsafe_def hook_timed_def Let_def by (intro live_rules live_retry [OF assms]; simp)
  then show ?thesis unfolding run_hooks_unsafe_def by (intro live_seq) auto
qed

lemma live_setup:
  assumes "patient K N" "N < n" shows "unblocked (child_setup K n plan a)"
proof -
  have mount: "unblocked (run_mount K a im)" for im
    unfolding run_mount_def apply_idmap_bind_def propagate_def Let_def
    by (cases im) (simp only: prod.case, (intro live_rules; simp))
  have dev: "unblocked (make_device K d)" for d
    unfolding make_device_def Let_def by (intro live_rules; simp)
  have "unblocked (wait_userns K n plan a)" "unblocked (switch_root K plan a)"
    "unblocked (relay_pid K a b)" "unblocked (make_symlink K lk)" for b lk
    unfolding wait_userns_def switch_root_def relay_pid_def make_symlink_def Let_def
    by (intro live_rules live_retry [OF assms]; auto intro!: live_rules)+
  moreover have "unblocked (mask_path K p)" "unblocked (make_readonly K p)" "unblocked (write_sysctl K pv)" for p pv
    unfolding mask_path_def make_readonly_def write_sysctl_def by (intro live_rules; simp)+
  moreover have "unblocked (private_root K a)" "unblocked (make_devices K ds)" for ds
    unfolding private_root_def make_devices_def by (intro live_rules; auto intro!: live_rules dev)+
  ultimately have "unblocked m" if "m \<in> set (setup_steps K n plan a)" for m
    using that unfolding setup_steps_def close_create_stdio_before_tty_wait_def
    by (auto intro!: live_rules mount live_hooks [OF assms])
  then show ?thesis unfolding child_setup_def by (rule live_seq)
qed

lemma live_confine:
  assumes "patient K N" "N < n" shows "unblocked (child_confine K n plan a)"
proof -
  have "unblocked (claim_tty K a)" "unblocked (change_user K plan a)"
    unfolding claim_tty_def change_user_def reapply_effective_def raise_ambient_def Let_def
    by (auto intro!: live_rules split: option.split)
  moreover have "unblocked (apply_apparmor K (ch_err_fd a) p)" "unblocked (apply_selinux K (ch_err_fd a) p)" for p
    unfolding apply_apparmor_def apply_selinux_def write_label_def by (intro live_rules; simp)+
  moreover have "unblocked (install_seccomp K plan a)" "unblocked (apply_capabilities K (ch_err_fd a) caps)" for caps
    unfolding install_seccomp_def apply_capabilities_def raise_ambient_def Let_def by (auto intro!: live_rules)
  ultimately show ?thesis
    unfolding child_confine_def by (auto intro!: live_rules live_hooks [OF assms])
qed

lemma live_run:
  assumes "patient K N" "N < n" shows "unblocked (child_run K n plan a)"
proof -
  have "unblocked (wait_start K n a)" "unblocked (final_exec K plan a)"
    unfolding wait_start_def final_exec_def exec_with_env_path_def
    by (auto intro!: live_rules live_fifo [OF assms] split: list.split)
  with live_setup [OF assms] live_confine [OF assms] show ?thesis
    unfolding child_run_def by (auto intro!: live_rules)
qed

text \<open>Beyond the number of interruptions the bound makes no difference.\<close>

lemma fuel_irrelevant:
  assumes "patient K N" "N < n" "N < m"
  shows "child_run K n plan a = child_run K m plan a"
proof -
  have retry: "sys_retry K n c = sys_retry K m c" for c
    using sys_retry_fuel [OF assms(1), of n _ m] assms(2,3) by (auto simp: fun_eq_iff)
  have fifo: "wait_fifo K n e f = wait_fifo K m e f" for e f
    using wait_fifo_fuel [OF assms(1), of n _ m] assms(2,3) by (auto simp: fun_eq_iff)
  have "run_hook_unsafe K n e = run_hook_unsafe K m e" for e
    unfolding run_hook_unsafe_def hook_timed_def retry by simp
  then have hooks: "run_hooks_unsafe K n e hs = run_hooks_unsafe K m e hs" for e hs
    unfolding run_hooks_unsafe_def by simp
  show ?thesis
    unfolding child_run_def child_setup_def setup_steps_def wait_userns_def wait_start_def child_confine_def retry fifo hooks by simp
qed

lemma never_returns: "child_run K n plan a h \<noteq> (h', Inr ())"
proof -
  have die: "snd (child_die K err_fd code reason h) \<noteq> Inr ()" for err_fd code reason h
    by (simp add: child_die_def io_bind_def exit_process_def sys_any_def sys_def)
  have "snd (final_exec K plan a h) \<noteq> Inr ()" for h
    using die by (auto simp: final_exec_def io_bind_def split: list.split prod.split sum.split)
  then show ?thesis unfolding child_run_def
    by (auto simp: io_bind_Inr_iff) (metis snd_conv)
qed

text \<open>
  C15: The init always ends. When the kernel interrupts it at most \<open>N\<close> times, the path from the
  clone ends for every plan, in an exit code, a hook or the program of the container; and the bound
  of the model is then immaterial, the run is the same for every bound above \<open>N\<close>.
\<close>
theorem init_always_ends:
  assumes "patient K N" and "N < n" "N < m"
  shows "\<exists>h' e. child_run K n plan a h = (h', Inl e) \<and> e \<noteq> Blocked \<and> child_run K m plan a h = (h', Inl e)"
proof -
  obtain h' r where run: "child_run K n plan a h = (h', r)" by fastforce
  moreover have "r \<noteq> Inr ()" using never_returns run by blast
  moreover have "r \<noteq> Inl Blocked" using live_run [OF assms(1,2)] run by (metis unblocked_def snd_conv)
  ultimately show ?thesis using fuel_irrelevant [OF assms] by (cases r) auto
qed

section \<open>The search along PATH\<close>

definition errno_answer :: "answer \<Rightarrow> nat" where
  "errno_answer r = (case r of Inl e \<Rightarrow> e | Inr _ \<Rightarrow> 0)"

lemma last_errno_snoc [simp]: "last_errno K (h @ [(c, Inl e)]) = e" "last_errno K (h @ [(c, Inr v)]) = last_errno K h"
  by (simp_all add: last_errno_def)

definition skipped :: "answer \<Rightarrow> bool" where
  "skipped r \<longleftrightarrow> r \<in> {Inl 2, Inl 20, Inl 13}"

text \<open>
  The search as the documentation of \<^verbatim>\<open>execvp\<close> describes it: the value of the first \<^verbatim>\<open>PATH\<close> of the environment or a
  default, and the file in each of its directories, the current directory for an empty one.
\<close>

definition search_dirs :: "string list \<Rightarrow> string list" where
  "search_dirs envp = split_on CHR '':''
     (case find (\<lambda>item. take 5 item = ''PATH='') envp of Some item \<Rightarrow> drop 5 item | None \<Rightarrow> ''/bin:/usr/bin'')"

definition files_tried :: "string \<Rightarrow> string list \<Rightarrow> string list" where
  "files_tried argv0 dirs =
     filter (\<lambda>p. NUL \<notin> set p) (map (\<lambda>d. case d of [] \<Rightarrow> ''./'' @ argv0 | _ \<Rightarrow> d @ ''/'' @ argv0) dirs)"

lemma env_path_dirs: "split_on CHR '':'' (env_path envp) = search_dirs envp"
proof -
  have general: "strip_prefix p item = (if take (length p) item = p then Some (drop (length p) item) else None)" for p item :: string
    by (induction p item rule: strip_prefix.induct) auto
  have "strip_prefix ''PATH='' item = (if take 5 item = ''PATH='' then Some (drop 5 item) else None)" for item
    using general [of "''PATH=''" item] by (simp add: eval_nat_numeral del: strip_prefix.simps)
  then have "env_path envp = (case find (\<lambda>item. take 5 item = ''PATH='') envp of Some item \<Rightarrow> drop 5 item | None \<Rightarrow> ''/bin:/usr/bin'')"
    by (induction envp) auto
  then show ?thesis by (simp add: search_dirs_def)
qed

lemma files_tried_candidates: "files_tried argv0 dirs = filter (\<lambda>p. NUL \<notin> set p) (map (\<lambda>d. candidate d argv0) dirs)"
  unfolding files_tried_def by (rule arg_cong [where f = "filter _"]) (auto simp: candidate_def split: list.split)

text \<open>The declarative outcome: the first file that is not skipped decides; else the errno of the search.\<close>

definition search_outcome :: "(string \<Rightarrow> answer) \<Rightarrow> string list \<Rightarrow> string list \<Rightarrow> nat \<Rightarrow> string list \<Rightarrow> ending + nat" where
  "search_outcome ans argv envp e0 ps =
     (case find (\<lambda>p. \<not> skipped (ans p)) ps of
        Some p \<Rightarrow> (case ans p of Inr _ \<Rightarrow> Inl (Executed p argv envp) | Inl e \<Rightarrow> Inr e)
      | None \<Rightarrow> Inr (if Inl 13 \<in> ans ` set ps then 13 else if ps = [] then e0 else errno_answer (ans (last ps))))"

definition outcome_of :: "kernel \<Rightarrow> history \<times> (ending + unit) \<Rightarrow> ending + nat" where
  "outcome_of K r = (case snd r of Inl x \<Rightarrow> Inl x | Inr _ \<Rightarrow> Inr (last_errno K (fst r)))"

lemma search_path_outcome:
  assumes "\<And>h p. kn_answer K h (Proc (Execve p argv envp)) = ans p"
  shows "outcome_of K (search_path K argv0 argv envp b dirs h) =
    (if b \<and> find (\<lambda>p. \<not> skipped (ans p)) (files_tried argv0 dirs) = None then Inr 13
     else search_outcome ans argv envp (last_errno K h) (files_tried argv0 dirs))"
proof (induction dirs arbitrary: b h)
  case Nil
  then show ?case by (simp add: outcome_of_def set_errno_def search_outcome_def files_tried_def)
next
  case (Cons dir dirs)
  let ?p = "candidate dir argv0"
  show ?case
  proof (cases "NUL \<in> set ?p")
    case True
    with Cons show ?thesis by (simp add: Let_def files_tried_candidates)
  next
    case False
    then have ps: "files_tried argv0 (dir # dirs) = ?p # files_tried argv0 dirs" by (simp add: files_tried_candidates)
    consider v where "ans ?p = Inr v" | e where "ans ?p = Inl e" "e = 2 \<or> e = 20" | "ans ?p = Inl 13"
      | e where "ans ?p = Inl e" "e \<noteq> 2" "e \<noteq> 20" "e \<noteq> 13" by (cases "ans ?p") auto
    then show ?thesis
      by cases (auto simp: ps False Let_def execve_run assms io_bind_def outcome_of_def search_outcome_def skipped_def
          Cons.IH [unfolded outcome_of_def] errno_answer_def)
  qed
qed

text \<open>
  C39: Which file is executed for the program of a container, and with what. For a kernel that answers each file the
  same whenever it is asked, a name with a slash is executed as it is; otherwise the files \<^verbatim>\<open>dir/name\<close> for the
  directories of the first \<^verbatim>\<open>PATH\<close> of the container's environment (else of \<^verbatim>\<open>/bin:/usr/bin\<close>; the current
  directory for an empty one) are tried in order. Those the kernel refuses with \<^verbatim>\<open>ENOENT\<close>, \<^verbatim>\<open>ENOTDIR\<close> or \<^verbatim>\<open>EACCES\<close>
  are skipped, and the first other file decides: it is executed with the arguments and the environment given, or its
  errno is the one of the search. When all are skipped the errno is \<^verbatim>\<open>EACCES\<close> if one of them had it,
  else that of the last.
\<close>
theorem exec_search_exact:
  assumes "\<forall>h p. kn_answer K h (Proc (Execve p argv envp)) = ans p"
  shows "outcome_of K (exec_with_env_path K argv0 argv envp h) =
    search_outcome ans argv envp (last_errno K h)
      (if CHR ''/'' \<in> set argv0 then [argv0] else files_tried argv0 (search_dirs envp))"
proof (cases "CHR ''/'' \<in> set argv0")
  case True
  then show ?thesis using assms
    by (cases "ans argv0") (auto simp: exec_with_env_path_def execve_run io_bind_def outcome_of_def search_outcome_def
      skipped_def errno_answer_def)
next
  case False
  then show ?thesis using search_path_outcome [of K argv envp ans argv0 False] assms
    by (simp add: exec_with_env_path_def env_path_dirs)
qed

section \<open>Capabilities\<close>

text \<open>
  The words of the capability interface. For a plan compiled from capability names, the init
  hands the kernel, in the word and at the bit of a capability, a set effective, permitted or
  inheritable bit exactly when a name of that capability is in the list of the configuration.
\<close>
theorem capset_words_exact:
  assumes "cap_bit name = Some b"
  shows "(bit (fst (cap_data (cap_mask es) (cap_mask ps) (cap_mask is) ! (b div 32))) (b mod 32) \<longleftrightarrow> (\<exists>n \<in> set es. cap_bit n = Some b)) \<and>
    (bit (fst (snd (cap_data (cap_mask es) (cap_mask ps) (cap_mask is) ! (b div 32)))) (b mod 32) \<longleftrightarrow> (\<exists>n \<in> set ps. cap_bit n = Some b)) \<and>
    (bit (snd (snd (cap_data (cap_mask es) (cap_mask ps) (cap_mask is) ! (b div 32)))) (b mod 32) \<longleftrightarrow> (\<exists>n \<in> set is. cap_bit n = Some b))"
proof -
  have b: "b < 64" using cap_bit_le [OF assms] by simp
  have masks: "bit (cap_mask ns) b \<longleftrightarrow> (\<exists>n \<in> set ns. cap_bit n = Some b)" for ns
    using cap_mask_from_bits [of 0 ns b] by (simp add: cap_mask_def)
  have words: "bit (if b < 32 then lo32 w else hi32 w) (b mod 32) \<longleftrightarrow> bit w b" for w
    using b by (auto simp: lo32_def hi32_def bit_simps bit_drop_bit_eq mod_if)
  have "b div 32 = (if b < 32 then 0 else 1)" using b by (auto simp: div_if)
  then show ?thesis using words masks by (auto simp: cap_data_def split: if_splits)
qed

section \<open>What the init goes on without\<close>

text \<open>
  The hardening of paths is best effort. Whatever the kernel answers, masking a path, making a
  path read-only and writing a sysctl never stop the init, although their failure leaves the
  container with the access the configuration wanted to take away; the same holds for the
  supplementary groups, and a configuration without additional groups never asks for them at all.
\<close>
theorem hardening_is_best_effort:
  "snd (mask_path K p h) = Inr () \<and> snd (make_readonly K p h) = Inr () \<and> snd (write_sysctl K pv h) = Inr () \<and>
   snd ((sys_any K (Cred (Setgroups gs)) :: unit process) h) = Inr () \<and>
   (cp_user_additional_gids plan = [] \<longrightarrow> (\<forall>gs. Cred (Setgroups gs) \<notin> set (limits_of plan)))"
  by (auto simp: mask_path_def make_readonly_def write_sysctl_def nix_mount_def mount_any_def sys_any_def sys_def
      io_bind_def limits_of_def split: prod.splits sum.splits option.splits)

text \<open>
  A mount with \<^verbatim>\<open>gidMappings\<close> but no \<^verbatim>\<open>uidMappings\<close> is not id-mapped: the user namespace that was
  prepared for it makes no difference, the init mounts it as any other.
\<close>
theorem gid_only_idmap_ignored:
  assumes "mo_idmap_uid m = []"
  shows "run_mount K a (idx, m) = run_mount K (a\<lparr>ch_idmap_userns_fds := []\<rparr>) (idx, m)"
  using assms by (simp add: run_mount_def)

section \<open>A concrete run\<close>

text \<open>A kernel that agrees to every call; \<^verbatim>\<open>/usr/bin/sh\<close> does not exist, and \<^verbatim>\<open>capget\<close> has eight capabilities left.\<close>

definition sample_answer :: "history \<Rightarrow> syscall \<Rightarrow> answer" where
  "sample_answer h c =
     (case c of
        Fd (Ns_Type _) \<Rightarrow> Inr 0x40000000
      | Fd (Read _) \<Rightarrow> Inr 1
      | Fd (Write _ bs) \<Rightarrow> Inr (int (length bs))
      | Proc Fork \<Rightarrow> Inr 77
      | Proc (Waitpid _) \<Rightarrow> Inr 0
      | Proc (Execve p _ _) \<Rightarrow> if p = ''/usr/bin/sh'' then Inl 2 else Inr 0
      | Cred Capget \<Rightarrow> Inr 0xff
      | _ \<Rightarrow> Inr 3)"

definition sample_kernel :: kernel where
  "sample_kernel = \<lparr>kn_answer = sample_answer, kn_errno = 0\<rparr>"

definition sample_caps :: cap_bitmasks where
  "sample_caps = \<lparr>cb_bounding = 0x20, cb_effective = 0x20, cb_permitted = 0x20, cb_inheritable = 0, cb_ambient = 0\<rparr>"

definition sample_plan :: compiled_plan where
  "sample_plan =
     \<lparr>cp_join_namespaces = [(NsNetwork, ''/run/netns/a'')],
      cp_ext = ext_default\<lparr>ep_seccomp_bpf := [\<lparr>sf_code = 6, sf_jt = 0, sf_jf = 0, sf_k = 0x7fff0000\<rparr>]\<rparr>,
      cp_clone_flags = 0, cp_wants_userns = False, cp_uid_map_data = [], cp_gid_map_data = [],
      cp_set_hostname = True, cp_rlimits = [(7, 1024, 1024)], cp_caps = Some sample_caps,
      cp_no_new_privileges = True, cp_default_devices = [], cp_default_symlinks = [],
      cp_masked_paths = [''/proc/kcore''], cp_readonly_paths = [''/proc/sys''], cp_user_uid = 1000, cp_user_gid = 1000,
      cp_user_additional_gids = [], cp_user_umask = None, cp_apparmor_profile = Some ''docker-default'',
      cp_selinux_label = None, cp_sysctls = [], cp_rootfs_propagation = 0, cp_no_pivot = False,
      cp_oom_score_adj = None, cp_scheduler = None, cp_hostname = ''box'', cp_root_path = ''/b/rootfs'',
      cp_root_readonly = True,
      cp_mounts = [\<lparr>mo_source = ''proc'', mo_target = ''/b/rootfs/proc'', mo_fstype = ''proc'', mo_flags = 0,
        mo_propagation = 0, mo_data = None, mo_idmap_uid = [], mo_idmap_gid = []\<rparr>],
      cp_terminal = False, cp_console_socket = None, cp_argv = [''sh'', ''-c'', ''true''],
      cp_envp = [''PATH=/usr/bin:/bin''], cp_cwd = ''/''\<rparr>"

definition sample_args :: child_args where
  "sample_args = \<lparr>ch_rootfs = ''/b/rootfs'', ch_fifo_fd = 5, ch_err_fd = 6, ch_userns_read_fd = -1,
     ch_pty_slave_fd = -1, ch_pid_relay_write = -1, ch_idmap_userns_fds = [-1]\<rparr>"

lemma sample_run:
  "snd (child_run sample_kernel 1 sample_plan sample_args []) =
     Inl (Executed ''/bin/sh'' [''sh'', ''-c'', ''true''] [''PATH=/usr/bin:/bin''])"
  by code_simp

lemma sample_history: "child_run sample_kernel 1 sample_plan sample_args [] = (fst (child_run sample_kernel 1 sample_plan sample_args []),
    Inl (Executed ''/bin/sh'' [''sh'', ''-c'', ''true''] [''PATH=/usr/bin:/bin'']))"
  by (rule prod_eqI) (simp_all only: fst_conv snd_conv sample_run)

lemma sample_patient: "patient sample_kernel 0"
  by (auto simp: patient_def sample_kernel_def sample_answer_def split: syscall.splits fd_call.splits proc_call.splits cred_call.splits if_splits)

theorem program_runs_confined_witness:
  "\<exists>before conf after. fst (child_run sample_kernel 1 sample_plan sample_args []) = before @ conf @ after \<and>
     confined sample_plan conf"
  using program_runs_confined [OF sample_history] by (metis append.assoc)

theorem program_runs_in_its_root_witness:
  "\<exists>joined switched rest. fst (child_run sample_kernel 1 sample_plan sample_args []) = joined @ switched @ rest \<and>
     entered (NsNetwork, ''/run/netns/a'') joined \<and> in_new_root sample_plan sample_args switched"
proof -
  obtain joined switched gate rest v where h: "fst (child_run sample_kernel 1 sample_plan sample_args []) =
      [] @ joined @ switched @ gate @ rest @ [(Proc (Execve ''/bin/sh'' [''sh'', ''-c'', ''true''] [''PATH=/usr/bin:/bin'']), Inr v)]"
    and "\<forall>kp \<in> set (cp_join_namespaces sample_plan). entered kp joined" "in_new_root sample_plan sample_args switched"
    using program_runs_in_its_root [OF sample_history] by blast
  moreover from this(2) have "entered (NsNetwork, ''/run/netns/a'') joined" by (simp add: sample_plan_def)
  ultimately show ?thesis by auto
qed

theorem init_always_ends_witness:
  "\<exists>h e. child_run sample_kernel 1 sample_plan sample_args [] = (h, Inl e) \<and> e \<noteq> Blocked \<and>
     child_run sample_kernel 2 sample_plan sample_args [] = (h, Inl e)"
  by (rule init_always_ends [OF sample_patient]) simp_all

theorem exec_search_exact_witness:
  "outcome_of sample_kernel (exec_with_env_path sample_kernel ''sh'' [''sh''] [''PATH=/usr/bin:/bin''] []) =
    Inl (Executed ''/bin/sh'' [''sh''] [''PATH=/usr/bin:/bin''])"
  using exec_search_exact [of sample_kernel "[''sh'']" "[''PATH=/usr/bin:/bin'']"
      "\<lambda>p. if p = ''/usr/bin/sh'' then Inl 2 else Inr 0" "''sh''" "[]"]
  by (simp add: sample_kernel_def sample_answer_def search_outcome_def skipped_def files_tried_def search_dirs_def)

theorem capset_words_exact_witness:
  "bit (fst (cap_data (cap_mask [''CAP_CHECKPOINT_RESTORE'']) (cap_mask []) (cap_mask []) ! (40 div 32))) (40 mod 32)"
  using capset_words_exact [of "''CAP_CHECKPOINT_RESTORE''" 40 "[''CAP_CHECKPOINT_RESTORE'']" "[]" "[]"]
  by (simp add: cap_bit_def cap_table_def)

theorem hardening_is_best_effort_witness:
  "Cred (Setgroups []) \<notin> set (limits_of sample_plan) \<and> Cred (Setgroups [4]) \<notin> set (limits_of sample_plan)"
  using hardening_is_best_effort [of sample_kernel "[]" "[]" "([], [])" "[]" sample_plan]
  by (simp add: sample_plan_def)

theorem gid_only_idmap_ignored_witness:
  "run_mount sample_kernel (sample_args\<lparr>ch_idmap_userns_fds := [9]\<rparr>) (0, (hd (cp_mounts sample_plan))\<lparr>mo_idmap_gid := [48]\<rparr>) =
   run_mount sample_kernel (sample_args\<lparr>ch_idmap_userns_fds := []\<rparr>) (0, (hd (cp_mounts sample_plan))\<lparr>mo_idmap_gid := [48]\<rparr>)"
  using gid_only_idmap_ignored [of "(hd (cp_mounts sample_plan))\<lparr>mo_idmap_gid := [48]\<rparr>" sample_kernel
      "sample_args\<lparr>ch_idmap_userns_fds := [9]\<rparr>" 0] by (simp add: sample_plan_def)

end
