(* ===== verification/Exec_Process.thy ===== *)
theory Exec_Process
  imports Child_Confine State_Files
begin

text \<open>
  \<^verbatim>\<open>rsrun exec\<close>, the process itself: reading \<^verbatim>\<open>process.json\<close>, applying its fields in the forked child,
  and the path from the fork to \<^verbatim>\<open>execve\<close>.
\<close>

section \<open>process.json\<close>

record exec_process =
  xp_args :: "string list"
  xp_env :: "string list"
  xp_cwd :: string
  xp_uid :: u32
  xp_gid :: u32
  xp_additional_gids :: "u32 list"
  xp_no_new_privileges :: bool
  xp_capabilities :: "cap_bitmasks option"
  xp_apparmor_profile :: "string option"
  xp_selinux_label :: "string option"
  xp_terminal :: bool

text \<open>The closure \<^verbatim>\<open>get\<close> of the capability sets.\<close>

definition exec_cap_set :: "'v json_api \<Rightarrow> 'v \<Rightarrow> string \<Rightarrow> u64" where
  "exec_cap_set J c key =
     (case get_array J c key of
        None \<Rightarrow> 0
      | Some a \<Rightarrow> foldl (\<lambda>m x. case and_then (jas_str J x) cap_bit of Some b \<Rightarrow> m OR push_bit b 1 | None \<Rightarrow> m) 0 a)"

text \<open>A string that is not empty and has no NUL; others are dropped without an error.\<close>

definition exec_label :: "'v json_api \<Rightarrow> 'v \<Rightarrow> string \<Rightarrow> string option" where
  "exec_label J v key = and_then (nonempty (get_str J v key)) (\<lambda>s. case cstr s of Inr c \<Rightarrow> Some c | Inl _ \<Rightarrow> None)"

definition exec_process_of :: "'v json_api \<Rightarrow> 'v \<Rightarrow> exec_process io_result" where
  "exec_process_of J v =
     rbind (ok_or (get_array J v ''args'') (IoError Other ''process.json: missing args'')) (\<lambda>args_array.
     let args = filter_map (jas_str J) args_array in
     if args = [] then Err Other ''process.json: empty args''
     else
       let user = jget J v ''user''; ufield = (\<lambda>k. and_then user (\<lambda>u. get_u64 J u k)) in
       Ok \<lparr>xp_args = args,
         xp_env = (case get_array J v ''env'' of None \<Rightarrow> [] | Some a \<Rightarrow> filter_map (jas_str J) a),
         xp_cwd = unwrap_or (get_str J v ''cwd'') ''/'',
         xp_uid = ucast (unwrap_or (ufield ''uid'') 0),
         xp_gid = ucast (unwrap_or (ufield ''gid'') 0),
         xp_additional_gids =
           (case and_then user (\<lambda>u. get_array J u ''additionalGids'') of
              None \<Rightarrow> [] | Some a \<Rightarrow> filter_map (\<lambda>x. map_option ucast (jas_u64 J x)) a),
         xp_no_new_privileges = unwrap_or (get_bool J v ''noNewPrivileges'') False,
         xp_capabilities = map_option (\<lambda>c. \<lparr>cb_bounding = exec_cap_set J c ''bounding'', cb_effective = exec_cap_set J c ''effective'',
            cb_permitted = exec_cap_set J c ''permitted'', cb_inheritable = exec_cap_set J c ''inheritable'',
            cb_ambient = exec_cap_set J c ''ambient''\<rparr>) (jget J v ''capabilities''),
         xp_apparmor_profile = exec_label J v ''apparmorProfile'',
         xp_selinux_label = exec_label J v ''selinuxLabel'',
         xp_terminal = unwrap_or (get_bool J v ''terminal'') False\<rparr>)"

definition parse_exec_process :: "'v json_api \<Rightarrow> 'v json_text \<Rightarrow> string \<Rightarrow> string io_result \<Rightarrow> exec_process io_result" where
  "parse_exec_process J T path bytes =
     (case bytes of
        Inl e \<Rightarrow> Err Other (''exec: read process.json from '' @ path @ '': '' @ message_of e)
      | Inr b \<Rightarrow> rbind (ok_or (jt_parse T b) (IoError InvalidData ''json'')) (exec_process_of J))"

text \<open>The process of the direct form, \<^verbatim>\<open>cmd_exec_rollout\<close>.\<close>

definition rollout_process :: "string list \<Rightarrow> string list \<Rightarrow> string option \<Rightarrow> exec_process io_result" where
  "rollout_process args env cwd =
     (if args = [] then Err Other ''exec: missing command''
      else Ok \<lparr>xp_args = args, xp_env = env, xp_cwd = unwrap_or cwd ''/'', xp_uid = 0, xp_gid = 0, xp_additional_gids = [],
        xp_no_new_privileges = False, xp_capabilities = None, xp_apparmor_profile = None, xp_selinux_label = None,
        xp_terminal = False\<rparr>)"

section \<open>Applying the fields\<close>

text \<open>The user transition: the code to exit with, or nothing.\<close>

definition exec_user :: "kernel \<Rightarrow> exec_process \<Rightarrow> (nat + unit) process" where
  "exec_user K pj =
     (if xp_uid pj = 0 then io_ok (Inr ())
      else
        io_bind (sys K (Cred Keepcaps)) (\<lambda>r.
        if \<not> is_ok r then io_ok (Inl 102)
        else
          io_bind (sys K (Cred (Setresuid (xp_uid pj)))) (\<lambda>r.
          if \<not> is_ok r then io_ok (Inl 103)
          else
            io_bind (case xp_capabilities pj of None \<Rightarrow> io_ok ()
               | Some caps \<Rightarrow> io_seq [reapply_effective K 2 caps, raise_ambient K caps]) (\<lambda>_.
            io_ok (Inr ())))))"

definition exec_labels :: "kernel \<Rightarrow> exec_process \<Rightarrow> unit process" where
  "exec_labels K pj =
     io_seq [io_when (xp_no_new_privileges pj) (sys_any K (Cred No_New_Privs)),
       (case xp_apparmor_profile pj of None \<Rightarrow> io_ok () | Some p \<Rightarrow> apply_apparmor K 2 p),
       (case xp_selinux_label pj of None \<Rightarrow> io_ok () | Some l \<Rightarrow> apply_selinux K 2 l)]"

definition exec_apply :: "kernel \<Rightarrow> exec_process \<Rightarrow> (nat + unit) process" where
  "exec_apply K pj =
     io_bind (io_when (xp_additional_gids pj \<noteq> []) (sys_any K (Cred (Setgroups (xp_additional_gids pj))))) (\<lambda>_.
     io_bind (case xp_capabilities pj of None \<Rightarrow> io_ok () | Some caps \<Rightarrow> apply_capabilities K 2 caps) (\<lambda>_.
     io_bind (if xp_gid pj \<noteq> 0 then sys K (Cred (Setresgid (xp_gid pj))) else io_ok (Inr 0)) (\<lambda>r.
     if \<not> is_ok r then io_ok (Inl 101)
     else
       io_bind (exec_user K pj) (\<lambda>r.
         case r of
           Inl code \<Rightarrow> io_ok (Inl code)
         | Inr _ \<Rightarrow> io_bind (exec_labels K pj) (\<lambda>_. io_ok (Inr ()))))))"

section \<open>The child\<close>

text \<open>
  The descriptors the child inherits: the two ends of each pipe of the direct form, the slave of the
  terminal, the directory of the cgroup; -1 stands for none, as in the code.
\<close>

record exec_fds =
  xf_agent :: bool
  xf_stdin :: "int \<times> int"
  xf_stdout :: "int \<times> int"
  xf_stderr :: "int \<times> int"
  xf_pty_slave :: int
  xf_cgroup :: int

abbreviation close_fd :: "kernel \<Rightarrow> int \<Rightarrow> (history, 'e, unit) comp" where
  "close_fd K fd \<equiv> sys_any K (Fd (Close fd))"

abbreviation close_if :: "kernel \<Rightarrow> int \<Rightarrow> (history, 'e, unit) comp" where
  "close_if K fd \<equiv> io_when (0 \<le> fd) (close_fd K fd)"

definition clear_nonblock :: "kernel \<Rightarrow> int \<Rightarrow> unit process" where
  "clear_nonblock K fd =
     io_bind (sys K (Fd (Getfl fd))) (\<lambda>r.
       case r of Inl _ \<Rightarrow> io_ok () | Inr flags \<Rightarrow> sys_any K (Fd (Setfl fd (word_of_int flags AND NOT 0x800))))"

definition must_or_exit :: "kernel \<Rightarrow> nat \<Rightarrow> syscall \<Rightarrow> unit process" where
  "must_or_exit K code c = io_bind (sys K c) (\<lambda>r. if is_ok r then io_ok () else exit_process code)"

definition exec_stdio :: "kernel \<Rightarrow> exec_fds \<Rightarrow> unit process" where
  "exec_stdio K f =
     io_when (xf_agent f)
       (io_seq [close_fd K (fst (xf_stdout f)), close_fd K (fst (xf_stderr f)), close_fd K (snd (xf_stdin f)),
          must_or_exit K 119 (Fd (Dup2 (fst (xf_stdin f)) 0)),
          must_or_exit K 119 (Fd (Dup2 (snd (xf_stdout f)) 1)),
          must_or_exit K 119 (Fd (Dup2 (snd (xf_stderr f)) 2)),
          clear_nonblock K 0, clear_nonblock K 1, clear_nonblock K 2,
          close_fd K (fst (xf_stdin f)), close_fd K (snd (xf_stdout f)), close_fd K (snd (xf_stderr f)),
          sys_any K (Proc Setpgid)])"

definition exec_tty :: "kernel \<Rightarrow> int \<Rightarrow> unit process" where
  "exec_tty K pty =
     io_when (0 \<le> pty)
       (io_seq [must_or_exit K 116 (Proc Setsid), must_or_exit K 117 (Fd (Tiocsctty pty)),
          io_each (\<lambda>newfd. must_or_exit K 118 (Fd (Dup2 pty newfd))) [0, 1, 2],
          io_when (2 < pty) (close_fd K pty)])"

text \<open>
  \<^verbatim>\<open>CString::new(..).unwrap()\<close>: a NUL in the directory, the arguments or the environment panics, which
  aborts the forked child.
\<close>

definition unwrap_cstrs :: "string list \<Rightarrow> unit process" where
  "unwrap_cstrs ss = (if \<exists>s \<in> set ss. NUL \<in> set s then panic_process else io_ok ())"

definition exec_final :: "kernel \<Rightarrow> exec_process \<Rightarrow> unit process" where
  "exec_final K pj =
     io_seq [unwrap_cstrs [xp_cwd pj], sys_any K (Mnt (Chdir (xp_cwd pj))),
       unwrap_cstrs (xp_args pj @ xp_env pj),
       exec_with_env_path K (hd (xp_args pj)) (xp_args pj) (xp_env pj),
       exit_process 127]"

definition exec_child :: "kernel \<Rightarrow> exec_process \<Rightarrow> exec_fds \<Rightarrow> unit process" where
  "exec_child K pj f =
     io_seq [exec_stdio K f, close_if K (xf_cgroup f), exec_tty K (xf_pty_slave f),
       io_bind (exec_apply K pj) (\<lambda>r. case r of Inl code \<Rightarrow> exit_process code | Inr _ \<Rightarrow> io_ok ()),
       exec_final K pj]"

section \<open>exec and create read a process alike\<close>

lemma foldl_cap_mask:
  "foldl (\<lambda>m x. case and_then (jas_str J x) cap_bit of Some b \<Rightarrow> m OR push_bit b 1 | None \<Rightarrow> m) acc a =
     cap_mask_from acc (filter_map (jas_str J) a)"
proof (induction a arbitrary: acc)
  case (Cons x a)
  then show ?case by (cases "jas_str J x") (simp_all split: option.split)
qed simp

lemma exec_cap_set_mask: "exec_cap_set J c key = cap_mask (get_strings J c key)"
  by (simp add: exec_cap_set_def get_strings_def cap_mask_def foldl_cap_mask split: option.split)

lemma rcollect_cstr: "rcollect cstr ss = Inr ts \<Longrightarrow> ts = ss"
  by (induction ss arbitrary: ts) auto

lemma transpose_cstr: "transpose_opt (map_option cstr l) = Inr x \<Longrightarrow> x = l \<and> (\<forall>s. l = Some s \<longrightarrow> NUL \<notin> set s)"
  by (cases l) (auto simp: cstr_def split: if_splits)

lemma plan_process_fields:
  assumes "from_spec s = Ok plan"
  shows "cp_argv plan = sp_args s \<and> cp_envp plan = sp_env s \<and> cp_cwd plan = sp_cwd s \<and> cp_user_uid plan = sp_user_uid s \<and>
    cp_user_gid plan = sp_user_gid s \<and> cp_user_additional_gids plan = sp_user_additional_gids s \<and>
    cp_no_new_privileges plan = sp_no_new_privileges s \<and> cp_caps plan = map_option cap_bitmasks_of (sp_capabilities s) \<and>
    cp_apparmor_profile plan = sp_apparmor_profile s \<and> cp_selinux_label plan = sp_selinux_label s \<and>
    (\<forall>l. sp_apparmor_profile s = Some l \<or> sp_selinux_label s = Some l \<longrightarrow> NUL \<notin> set l)"
  using assms unfolding from_spec_def Let_def
  by (auto split: prod.splits dest!: rcollect_cstr transpose_cstr)

text \<open>
  C18: \<^verbatim>\<open>exec\<close> gives a process the same identity create would give it: read from the same process object
  of a configuration that create accepts, the arguments, the environment, the directory, the user and
  groups, the five capability sets, the no-new-privileges flag, the security labels and the terminal
  flag agree with the compiled plan, although the two parsers are written twice.
\<close>
theorem exec_agrees_with_create:
  assumes "spec_from_value J v bundle = Ok s" and "from_spec s = Ok plan"
    and "jget J v ''process'' = Some p" and "exec_process_of J p = Ok x"
  shows "xp_args x = cp_argv plan \<and> xp_env x = cp_envp plan \<and> xp_cwd x = cp_cwd plan \<and> xp_uid x = cp_user_uid plan \<and>
    xp_gid x = cp_user_gid plan \<and> xp_additional_gids x = cp_user_additional_gids plan \<and>
    xp_no_new_privileges x = cp_no_new_privileges plan \<and> xp_capabilities x = cp_caps plan \<and>
    xp_apparmor_profile x = cp_apparmor_profile plan \<and> xp_selinux_label x = cp_selinux_label plan \<and>
    xp_terminal x = sp_terminal s"
proof -
  note plan = plan_process_fields [OF assms(2)]
  have label: "exec_label J p k = nonempty (get_str J p k)" if "\<And>l. nonempty (get_str J p k) = Some l \<Longrightarrow> NUL \<notin> set l" for k
    using that by (cases "nonempty (get_str J p k)") (simp_all add: exec_label_def cstr_def)
  have s: "sp_args s = string_array J (the (jget J p ''args''))" "sp_env s = (case jget J p ''env'' of None \<Rightarrow> [] | Some e \<Rightarrow> string_array J e)"
    "sp_cwd s = unwrap_or (get_str J p ''cwd'') ''/''" "sp_terminal s = unwrap_or (get_bool J p ''terminal'') False"
    "sp_user_uid s = ucast (unwrap_or (and_then (jget J p ''user'') (\<lambda>u. get_u64 J u ''uid'')) 0)"
    "sp_user_gid s = ucast (unwrap_or (and_then (jget J p ''user'') (\<lambda>u. get_u64 J u ''gid'')) 0)"
    "sp_user_additional_gids s = (case jget J p ''user'' of None \<Rightarrow> []
       | Some u \<Rightarrow> get_items J (\<lambda>g. map_option ucast (jas_u64 J g)) u ''additionalGids'')"
    "sp_no_new_privileges s = unwrap_or (get_bool J p ''noNewPrivileges'') False"
    "sp_capabilities s = map_option (parse_capabilities J) (jget J p ''capabilities'')"
    "sp_apparmor_profile s = nonempty (get_str J p ''apparmorProfile'')" "sp_selinux_label s = nonempty (get_str J p ''selinuxLabel'')"
    using assms(1,3) by (auto simp: spec_from_value_def Let_def)
  have labels: "exec_label J p ''apparmorProfile'' = sp_apparmor_profile s" "exec_label J p ''selinuxLabel'' = sp_selinux_label s"
    using label plan unfolding s(10,11) by blast+
  obtain a where a: "get_array J p ''args'' = Some a" using assms(4) by (auto simp: exec_process_of_def)
  have x: "x = \<lparr>xp_args = filter_map (jas_str J) a, xp_env = (case get_array J p ''env'' of None \<Rightarrow> [] | Some a \<Rightarrow> filter_map (jas_str J) a),
         xp_cwd = unwrap_or (get_str J p ''cwd'') ''/'',
         xp_uid = ucast (unwrap_or (and_then (jget J p ''user'') (\<lambda>u. get_u64 J u ''uid'')) 0),
         xp_gid = ucast (unwrap_or (and_then (jget J p ''user'') (\<lambda>u. get_u64 J u ''gid'')) 0),
         xp_additional_gids = (case and_then (jget J p ''user'') (\<lambda>u. get_array J u ''additionalGids'') of
              None \<Rightarrow> [] | Some a \<Rightarrow> filter_map (\<lambda>x. map_option ucast (jas_u64 J x)) a),
         xp_no_new_privileges = unwrap_or (get_bool J p ''noNewPrivileges'') False,
         xp_capabilities = map_option (\<lambda>c. cap_bitmasks_of (parse_capabilities J c)) (jget J p ''capabilities''),
         xp_apparmor_profile = sp_apparmor_profile s, xp_selinux_label = sp_selinux_label s,
         xp_terminal = unwrap_or (get_bool J p ''terminal'') False\<rparr>"
    using assms(4) a unfolding exec_process_of_def
    by (simp add: Let_def labels exec_cap_set_mask cap_bitmasks_of_def parse_capabilities_def split: if_splits)
  have "string_array J (the (jget J p ''args'')) = filter_map (jas_str J) a"
    using a by (auto simp: get_array_def string_array_def)
  then show ?thesis
    using plan by (auto simp: x s get_items_def get_array_def string_array_def option.map_comp o_def split: option.split)
qed

definition shell_process :: jval where
  "shell_process = JObj [(''args'', JArr [JStr ''sh'']), (''user'', JObj [(''uid'', JPos 1000), (''gid'', JPos 100)]),
     (''capabilities'', JObj [(''bounding'', JArr [JStr ''CAP_KILL''])])]"

definition shell_config :: jval where
  "shell_config = JObj [(''process'', shell_process), (''root'', JObj [(''path'', JStr ''/rootfs'')])]"

lemma shell_parses: "\<exists>x. exec_process_of jv shell_process = Ok x \<and> xp_uid x = 1000"
  by (simp add: exec_process_of_def shell_process_def get_defs)

lemma shell_plan: "\<exists>s plan. spec_from_value jv shell_config ''/b'' = Ok s \<and> from_spec s = Ok plan"
  by (simp add: spec_from_value_def shell_config_def shell_process_def get_defs parse_rootfs_backend_def string_array_def
      get_items_def get_strings_def parse_capabilities_def nonempty_def parse_sysctls_def Let_def from_spec_def cstr_def is_absolute_def)

theorem exec_agrees_with_create_witness:
  "\<exists>x (s :: jval spec) plan. exec_process_of jv shell_process = Ok x \<and> from_spec s = Ok plan \<and> cp_user_uid plan = 1000 \<and>
     xp_capabilities x = cp_caps plan"
proof -
  obtain x s plan where *: "spec_from_value jv shell_config ''/b'' = Ok s" "from_spec s = Ok plan"
    "exec_process_of jv shell_process = Ok x" "xp_uid x = 1000"
    using shell_parses shell_plan by blast
  have "jget jv shell_config ''process'' = Some shell_process" by (simp add: shell_config_def)
  from exec_agrees_with_create [OF *(1,2) this *(3)] *(4)
  have "cp_user_uid plan = 1000" "xp_capabilities x = cp_caps plan" by simp_all
  with * show ?thesis by (intro exI [of _ x] exI [of _ s] exI [of _ plan] conjI) simp_all
qed

section \<open>What happens before the program\<close>

definition groups_set :: "exec_process \<Rightarrow> history \<Rightarrow> bool" where
  "groups_set pj cs \<longleftrightarrow> issued cs = (if xp_additional_gids pj \<noteq> [] then [Cred (Setgroups (xp_additional_gids pj))] else [])"

definition exec_user_changed :: "exec_process \<Rightarrow> history \<Rightarrow> bool" where
  "exec_user_changed pj cs \<longleftrightarrow>
     (if xp_uid pj \<noteq> 0
      then \<exists>keepc set_uid restored. cs = keepc @ set_uid @ restored \<and> succeeded (Cred Keepcaps) keepc \<and>
        succeeded (Cred (Setresuid (xp_uid pj))) set_uid \<and> caps_restored (xp_capabilities pj) restored
      else cs = [])"

definition exec_applied :: "exec_process \<Rightarrow> history \<Rightarrow> bool" where
  "exec_applied pj cs \<longleftrightarrow>
     (\<exists>groups caps group user nnp labels. cs = groups @ caps @ group @ user @ nnp @ labels \<and>
        groups_set pj groups \<and> caps_applied (xp_capabilities pj) caps \<and>
        (if xp_gid pj \<noteq> 0 then succeeded (Cred (Setresgid (xp_gid pj))) group else group = []) \<and>
        exec_user_changed pj user \<and>
        issued nnp = (if xp_no_new_privileges pj then [Cred No_New_Privs] else []) \<and> calls_in quiet_call labels)"

lemma exec_appliedI:
  assumes "groups_set pj groups" "caps_applied (xp_capabilities pj) caps"
    "if xp_gid pj \<noteq> 0 then succeeded (Cred (Setresgid (xp_gid pj))) gid_set else gid_set = []" "exec_user_changed pj user"
    "issued nnp = (if xp_no_new_privileges pj then [Cred No_New_Privs] else [])" "calls_in quiet_call labels"
  shows "exec_applied pj (groups @ caps @ gid_set @ user @ nnp @ labels)"
  unfolding exec_applied_def
  by (intro exI [of _ groups] exI [of _ caps] exI [of _ gid_set] exI [of _ user] exI [of _ nnp] exI [of _ labels] conjI refl assms)

lemma does_exec_user: "does (exec_user K pj) (\<lambda>r cs. r = Inr () \<longrightarrow> exec_user_changed pj cs)"
proof -
  let ?rest = "case xp_capabilities pj of None \<Rightarrow> io_ok ()
     | Some caps \<Rightarrow> io_seq [reapply_effective K 2 caps, raise_ambient K caps]"
  have rest: "does (io_bind ?rest (\<lambda>_. io_ok (Inr () :: nat + unit))) (\<lambda>r cs. r = Inr () \<longrightarrow> caps_restored (xp_capabilities pj) cs)"
    by (rule does_bind [OF does_restore]) (simp add: does_ok del: io_run)
  show ?thesis
    unfolding exec_user_def
    apply (intro within_if does_ok)
     apply (simp add: exec_user_changed_def)
    apply (rule does_bind [where Q = "\<lambda>r cs. cs = [(Cred Keepcaps, r)]"], simp add: does_sys)
    subgoal for r
      apply (intro within_if does_ok)
       apply simp
      apply (rule does_bind [where Q = "\<lambda>r cs. cs = [(Cred (Setresuid (xp_uid pj)), r)]"], simp add: does_sys)
      subgoal for r'
        apply (intro within_if does_ok)
         apply simp
        apply (rule does_weaken [OF rest])
        subgoal for u cs
          unfolding exec_user_changed_def succeeded_def is_ok_iff not_not
          by (elim exE) (simp, intro impI exI [of _ "[(Cred Keepcaps, r)]"] exI [of _ "[(Cred (Setresuid (xp_uid pj)), r')]"] exI [of _ cs], simp)
        done
      done
    done
qed

lemma within_labels: "within quiet_call (write_label K err_fd code reason fd bytes)" "within quiet_call (apply_apparmor K err_fd p)"
    "within quiet_call (apply_selinux K err_fd p)"
proof -
  show label: "within quiet_call (write_label K err_fd code reason fd bytes)" for err_fd code reason fd bytes
    unfolding write_label_def by (intro does_rules) simp_all
  show "within quiet_call (apply_apparmor K err_fd p)" "within quiet_call (apply_selinux K err_fd p)"
    unfolding apply_apparmor_def apply_selinux_def by (intro does_rules label; simp)+
qed

lemma does_exec_labels: "does (exec_labels K pj) (\<lambda>_ cs. \<exists>nnp labels. cs = nnp @ labels \<and>
    issued nnp = (if xp_no_new_privileges pj then [Cred No_New_Privs] else []) \<and> calls_in quiet_call labels)"
proof -
  have 1: "within quiet_call (case xp_apparmor_profile pj of None \<Rightarrow> io_ok () | Some p \<Rightarrow> apply_apparmor K 2 p)"
    "within quiet_call (case xp_selinux_label pj of None \<Rightarrow> io_ok () | Some p \<Rightarrow> apply_selinux K 2 p)"
    by (intro within_option within_labels; simp add: does_ok del: io_run)+
  show ?thesis
    unfolding exec_labels_def
    by (rule does_weaken [OF does_seq_Cons [OF does_when_any does_seq_Cons [OF 1(1) does_seq_Cons [OF 1(2) does_seq_Nil]]]])
      (elim exE conjE, hypsubst, intro exI conjI, rule refl, assumption, simp add: ball_Un)
qed

lemma does_groups: "does (io_when (xp_additional_gids pj \<noteq> []) (sys_any K (Cred (Setgroups (xp_additional_gids pj))))) (\<lambda>_. groups_set pj)"
  unfolding groups_set_def by (rule does_when_any)

lemma does_gid: "does (if xp_gid pj \<noteq> 0 then sys K (Cred (Setresgid (xp_gid pj))) else io_ok (Inr 0))
    (\<lambda>r cs. is_ok r \<longrightarrow> (if xp_gid pj \<noteq> 0 then succeeded (Cred (Setresgid (xp_gid pj))) cs else cs = []))"
  by (intro within_if does_sys does_ok) (auto simp: succeeded_def is_ok_iff)

lemma does_exec_apply: "does (exec_apply K pj) (\<lambda>r cs. r = Inr () \<longrightarrow> exec_applied pj cs)"
proof -
  have caps: "does (case xp_capabilities pj of None \<Rightarrow> io_ok () | Some caps \<Rightarrow> apply_capabilities K 2 caps)
      (\<lambda>_. caps_applied (xp_capabilities pj))"
    by (cases "xp_capabilities pj") (simp_all add: does_apply_capabilities does_ok caps_applied_def del: io_run)
  have fin: "does (io_bind (exec_labels K pj) (\<lambda>_. io_ok (Inr () :: nat + unit))) (\<lambda>r cs. \<exists>nnp labels. cs = nnp @ labels \<and>
      issued nnp = (if xp_no_new_privileges pj then [Cred No_New_Privs] else []) \<and> calls_in quiet_call labels)"
    by (rule does_bind [OF does_exec_labels]) (simp add: does_ok del: io_run)
  show ?thesis
    unfolding exec_apply_def
    apply (rule does_bind [OF does_groups], rule does_bind [OF caps], rule does_bind [OF does_gid])
    subgoal for _ _ r
      apply (intro within_if does_ok)
       apply simp
      apply (rule does_bind [OF does_exec_user])
      subgoal for u
        apply (intro within_sum does_ok)
         apply simp
        apply (rule does_weaken [OF fin])
        subgoal for v w cs
          apply (elim exE conjE)
          apply hypsubst
          apply (intro allI impI exec_appliedI)
               apply assumption
              apply assumption
             apply (erule mp, simp only: not_not)
            apply (erule mp, cases v, simp only:)
           apply assumption
          apply assumption
          done
        done
      done
    done
qed


section \<open>The program\<close>

lemma within_stdio: "within quiet_call (exec_stdio K f)" "within quiet_call (close_if K fd)" "within quiet_call (exec_tty K pty)"
  unfolding exec_stdio_def exec_tty_def must_or_exit_def clear_nonblock_def
  by (intro does_rules; (auto simp del: io_run intro!: does_rules split: sum.split))+

lemma does_exec_identity:
  "does (io_bind (exec_apply K pj) (\<lambda>r. case r of Inl code \<Rightarrow> exit_process code | Inr _ \<Rightarrow> io_ok ())) (\<lambda>_. exec_applied pj)"
  by (rule does_bind [OF does_exec_apply]) (intro within_sum does_exit does_ok, simp)

definition chdir_tried :: "exec_process \<Rightarrow> history \<Rightarrow> bool" where
  "chdir_tried pj cs \<longleftrightarrow> issued cs = [Mnt (Chdir (xp_cwd pj))]"

lemma does_unwrap: "does (unwrap_cstrs ss) (\<lambda>_ cs. cs = [] \<and> (\<forall>s \<in> set ss. NUL \<notin> set s))"
  unfolding unwrap_cstrs_def panic_process_def by (intro does_rules) auto

lemma does_chdir: "does (sys_any K (Mnt (Chdir (xp_cwd pj)))) (\<lambda>_. chdir_tried pj)"
  by (simp add: does_sys_any chdir_tried_def)

lemma exec_search_executed:
  assumes "io_seq [exec_with_env_path K argv0 argv envp, exit_process 127] h = (h', Inl (Executed p x y))"
  shows "\<exists>tried v. h' = h @ tried @ [(Proc (Execve p x y), Inr v)] \<and> list_all (attempt argv envp) tried \<and> x = argv \<and> y = envp"
proof -
  from assms have run: "exec_with_env_path K argv0 argv envp h = (h', Inl (Executed p x y))"
    by (auto simp: io_bind_Inl_iff exit_process_def)
  show ?thesis
  proof (cases "CHR ''/'' \<in> set argv0")
    case True
    with run show ?thesis
      by (intro exI [of _ "[]"]) (auto simp: exec_with_env_path_def io_bind_def execve_run split: sum.splits)
  qed (use run in \<open>simp only: exec_with_env_path_def if_False search_executed\<close>)
qed

lemma exec_child_parts:
  assumes "exec_child K pj f h0 = (h, Inl (Executed path argv envp))"
  shows "\<exists>wiring identity dir tried v. h = h0 @ wiring @ identity @ dir @ tried @ [(Proc (Execve path argv envp), Inr v)] \<and>
    calls_in quiet_call wiring \<and> exec_applied pj identity \<and> chdir_tried pj dir \<and> list_all (attempt argv envp) tried \<and>
    argv = xp_args pj \<and> envp = xp_env pj \<and> (\<forall>s \<in> set (argv @ envp). NUL \<notin> set s)"
proof -
  let ?last = "io_seq [exec_with_env_path K (hd (xp_args pj)) (xp_args pj) (xp_env pj), exit_process 127]"
  note run = assms [unfolded exec_child_def]
  obtain w1 where w1: "calls_in quiet_call w1"
    and r: "io_seq [close_if K (xf_cgroup f), exec_tty K (xf_pty_slave f),
       io_bind (exec_apply K pj) (\<lambda>r. case r of Inl code \<Rightarrow> exit_process code | Inr _ \<Rightarrow> io_ok ()), exec_final K pj] (h0 @ w1) =
      (h, Inl (Executed path argv envp))"
    using seq_executed [OF within_stdio(1) run] by blast
  obtain w2 where w2: "calls_in quiet_call w2"
    and r: "io_seq [exec_tty K (xf_pty_slave f),
       io_bind (exec_apply K pj) (\<lambda>r. case r of Inl code \<Rightarrow> exit_process code | Inr _ \<Rightarrow> io_ok ()), exec_final K pj] ((h0 @ w1) @ w2) =
      (h, Inl (Executed path argv envp))"
    using seq_executed [OF within_stdio(2) r] by blast
  obtain w3 where w3: "calls_in quiet_call w3"
    and r: "io_seq [io_bind (exec_apply K pj) (\<lambda>r. case r of Inl code \<Rightarrow> exit_process code | Inr _ \<Rightarrow> io_ok ()), exec_final K pj]
      (((h0 @ w1) @ w2) @ w3) = (h, Inl (Executed path argv envp))"
    using seq_executed [OF within_stdio(3) r] by blast
  obtain i where i: "exec_applied pj i" and r: "io_seq [exec_final K pj] ((((h0 @ w1) @ w2) @ w3) @ i) = (h, Inl (Executed path argv envp))"
    using seq_executed [OF does_exec_identity r] by blast
  from r have "exec_final K pj ((((h0 @ w1) @ w2) @ w3) @ i) = (h, Inl (Executed path argv envp))" by (auto simp: io_bind_Inl_iff)
  note r = this [unfolded exec_final_def]
  from seq_executed [OF does_unwrap r] have r: "io_seq (sys_any K (Mnt (Chdir (xp_cwd pj))) # unwrap_cstrs (xp_args pj @ xp_env pj) #
      [exec_with_env_path K (hd (xp_args pj)) (xp_args pj) (xp_env pj), exit_process 127]) ((((h0 @ w1) @ w2) @ w3) @ i) = (h, Inl (Executed path argv envp))"
    by auto
  obtain d where d: "chdir_tried pj d" and r: "io_seq (unwrap_cstrs (xp_args pj @ xp_env pj) #
      [exec_with_env_path K (hd (xp_args pj)) (xp_args pj) (xp_env pj), exit_process 127]) (((((h0 @ w1) @ w2) @ w3) @ i) @ d) = (h, Inl (Executed path argv envp))"
    using seq_executed [OF does_chdir r] by blast
  from seq_executed [OF does_unwrap r] have nul: "\<forall>s \<in> set (xp_args pj @ xp_env pj). NUL \<notin> set s"
    and r: "?last (((((h0 @ w1) @ w2) @ w3) @ i) @ d) = (h, Inl (Executed path argv envp))" by auto
  from exec_search_executed [OF r] obtain tried v where "h = h0 @ (w1 @ w2 @ w3) @ i @ d @ tried @ [(Proc (Execve path argv envp), Inr v)]"
    "list_all (attempt argv envp) tried" "argv = xp_args pj" "envp = xp_env pj" by auto
  with w1 w2 w3 i d nul show ?thesis
    by (intro exI [of _ "w1 @ w2 @ w3"] exI [of _ i] exI [of _ d] exI [of _ tried] exI [of _ v] conjI) (simp_all add: ball_Un)
qed

text \<open>
  C17: The program \<^verbatim>\<open>exec\<close> starts runs as \<^verbatim>\<open>process.json\<close> asks. When the child reaches its \<^verbatim>\<open>execve\<close>, its
  history is: the wiring of its standard streams and terminal, which changes neither credentials nor mounts nor
  namespaces; then the groups, the capabilities, the group id, the user and the no-new-privileges flag,
  in this order, each exactly as asked; one attempt to enter the directory, whose outcome is ignored;
  and the attempts to execute, with the arguments and the environment asked for, none of which holds a NUL.
\<close>
theorem exec_runs_as_asked:
  assumes "exec_child K pj f h0 = (h, Inl (Executed path argv envp))"
  shows "\<exists>wiring identity dir tried v. h = h0 @ wiring @ identity @ dir @ tried @ [(Proc (Execve path argv envp), Inr v)] \<and>
    calls_in quiet_call wiring \<and> exec_applied pj identity \<and> chdir_tried pj dir \<and> list_all (attempt argv envp) tried \<and>
    argv = xp_args pj \<and> envp = xp_env pj \<and> (\<forall>s \<in> set (argv @ envp). NUL \<notin> set s)"
  by (rule exec_child_parts [OF assms])

definition restricts :: "syscall \<Rightarrow> bool" where
  "restricts c \<longleftrightarrow> (case c of Cred (Set_Seccomp _ _) \<Rightarrow> True | Cred (Prlimit _ _ _) \<Rightarrow> True | _ \<Rightarrow> False)"

lemma restricts_eqs: "restricts (Fd x) = False" "restricts (Proc pc) = False" "restricts (Mnt m) = False" "restricts (Node nd) = False"
    "restricts (Cred Keepcaps) = False" "restricts (Cred Capget) = False" "restricts (Cred No_New_Privs) = False"
    "restricts (Cred (Setgroups gs)) = False" "restricts (Cred (Setresgid g)) = False" "restricts (Cred (Setresuid u)) = False"
    "restricts (Cred (Capbset_Drop b)) = False" "restricts (Cred (Ambient_Raise b)) = False" "restricts (Cred (Capset ds)) = False"
  by (simp_all add: restricts_def)

lemma quiet_not_restricts: "calls_in quiet_call cs \<Longrightarrow> calls_in (\<lambda>c. \<not> restricts c) cs"
  by (auto simp: quiet_call_def restricts_def split: syscall.splits cred_call.splits)

lemma issued_not_restricts: "(\<And>c. c \<in> set (issued cs) \<Longrightarrow> \<not> restricts c) \<Longrightarrow> calls_in (\<lambda>c. \<not> restricts c) cs"
  by auto

lemma ambient_not_restricts: "ambient_raised caps cs \<Longrightarrow> calls_in (\<lambda>c. \<not> restricts c) cs"
  by (rule issued_not_restricts) (auto simp: ambient_raised_def restricts_eqs)

lemma caps_not_restricts: "caps_applied co cs \<Longrightarrow> calls_in (\<lambda>c. \<not> restricts c) cs"
proof (cases co)
  case (Some caps)
  moreover assume "caps_applied co cs"
  ultimately obtain drops set_caps raises where *: "cs = drops @ set_caps @ raises"
    "issued drops = map (\<lambda>c. Cred (Capbset_Drop c)) (filter (\<lambda>c. \<not> bit (cb_bounding caps) c) [0 ..< 64])"
    "succeeded (Cred (Capset (cap_data (cb_effective caps) (cb_permitted caps) (cb_inheritable caps)))) set_caps"
    "ambient_raised caps raises" by (auto simp: caps_applied_def)
  have "calls_in (\<lambda>c. \<not> restricts c) drops"
    by (rule issued_not_restricts) (auto simp: *(2) restricts_eqs)
  with * ambient_not_restricts [OF *(4)] show ?thesis by (auto simp: succeeded_def restricts_eqs)
qed (simp add: caps_applied_def)

lemma restored_not_restricts: "caps_restored co cs \<Longrightarrow> calls_in (\<lambda>c. \<not> restricts c) cs"
proof (cases co)
  case (Some caps)
  moreover assume "caps_restored co cs"
  ultimately obtain got set_caps raises where *: "cs = (Cred Capget, Inr got) # set_caps @ raises"
    "succeeded (Cred (Capset (cap_data (word_of_int got AND cb_effective caps) (word_of_int got) (cb_inheritable caps)))) set_caps"
    "ambient_raised caps raises" by (auto simp: caps_restored_def)
  with ambient_not_restricts [OF *(3)] show ?thesis by (auto simp: succeeded_def restricts_eqs)
qed (simp add: caps_restored_def)

lemma user_not_restricts:
  assumes "exec_user_changed pj cs" shows "calls_in (\<lambda>c. \<not> restricts c) cs"
proof (cases "xp_uid pj = 0")
  case False
  with assms obtain keepc set_uid restored where *: "cs = keepc @ set_uid @ restored" "succeeded (Cred Keepcaps) keepc"
    "succeeded (Cred (Setresuid (xp_uid pj))) set_uid" "caps_restored (xp_capabilities pj) restored"
    by (auto simp: exec_user_changed_def)
  with restored_not_restricts [OF *(4)] show ?thesis by (auto simp: succeeded_def restricts_eqs)
qed (use assms in \<open>simp add: exec_user_changed_def\<close>)

lemma identity_not_restricts:
  assumes "exec_applied pj cs" shows "calls_in (\<lambda>c. \<not> restricts c) cs"
proof -
  from assms obtain groups caps group user nnp labels where *: "cs = groups @ caps @ group @ user @ nnp @ labels"
    "groups_set pj groups" "caps_applied (xp_capabilities pj) caps"
    "if xp_gid pj \<noteq> 0 then succeeded (Cred (Setresgid (xp_gid pj))) group else group = []" "exec_user_changed pj user"
    "issued nnp = (if xp_no_new_privileges pj then [Cred No_New_Privs] else [])" "calls_in quiet_call labels"
    unfolding exec_applied_def by blast
  have "calls_in (\<lambda>c. \<not> restricts c) groups" "calls_in (\<lambda>c. \<not> restricts c) nnp"
    using *(2,6) by (intro issued_not_restricts; auto simp: groups_set_def restricts_eqs split: if_splits)+
  moreover have "calls_in (\<lambda>c. \<not> restricts c) group"
    using *(4) by (auto simp: succeeded_def restricts_eqs split: if_splits)
  ultimately show ?thesis
    using caps_not_restricts [OF *(3)] user_not_restricts [OF *(5)] quiet_not_restricts [OF *(7)]
    by (simp add: *(1) ball_Un)
qed

text \<open>
  A program started by \<^verbatim>\<open>exec\<close> runs under neither a seccomp filter nor resource limits of its own: on its way to
  \<^verbatim>\<open>execve\<close> the child installs no filter and sets no limit, whatever \<^verbatim>\<open>process.json\<close> says. The filter of the init is
  an attribute of that process and of its descendants, and the exec'd process is not one of them.
\<close>
theorem exec_is_not_filtered:
  assumes "exec_child K pj f h0 = (h, Inl (Executed path argv envp))"
  shows "\<exists>cs. h = h0 @ cs \<and> calls_in (\<lambda>c. \<not> restricts c) cs"
proof -
  from exec_child_parts [OF assms] obtain wiring identity dir tried v where
    *: "h = h0 @ wiring @ identity @ dir @ tried @ [(Proc (Execve path argv envp), Inr v)]" "calls_in quiet_call wiring"
      "exec_applied pj identity" "chdir_tried pj dir" "list_all (attempt argv envp) tried"
    by (elim exE conjE)
  have "calls_in (\<lambda>c. \<not> restricts c) dir"
    by (rule issued_not_restricts) (use *(4) in \<open>auto simp: chdir_tried_def restricts_eqs\<close>)
  moreover have "calls_in (\<lambda>c. \<not> restricts c) tried"
    using *(5) by (auto simp: list_all_iff attempt_def restricts_eqs)
  ultimately have "calls_in (\<lambda>c. \<not> restricts c) (wiring @ identity @ dir @ tried @ [(Proc (Execve path argv envp), Inr v)])"
    using quiet_not_restricts [OF *(2)] identity_not_restricts [OF *(3)] by (simp add: ball_Un restricts_eqs)
  with *(1) show ?thesis by blast
qed

definition obliging_kernel :: kernel where
  "obliging_kernel = \<lparr>kn_answer = \<lambda>_ _. Inr 0, kn_errno = 0\<rparr>"

definition shell_exec :: exec_process where
  "shell_exec = \<lparr>xp_args = [''/bin/sh'', ''-c'', ''true''], xp_env = [''PATH=/bin''], xp_cwd = ''/'', xp_uid = 1000, xp_gid = 100,
     xp_additional_gids = [4], xp_no_new_privileges = True, xp_capabilities = None,
     xp_apparmor_profile = None, xp_selinux_label = None, xp_terminal = False\<rparr>"

definition no_fds :: exec_fds where
  "no_fds = \<lparr>xf_agent = True, xf_stdin = (4, 5), xf_stdout = (6, 7), xf_stderr = (8, 9), xf_pty_slave = -1, xf_cgroup = 10\<rparr>"

lemma shell_exec_run: "snd (exec_child obliging_kernel shell_exec no_fds []) =
    Inl (Executed ''/bin/sh'' [''/bin/sh'', ''-c'', ''true''] [''PATH=/bin''])"
  by code_simp

lemma shell_exec_history: "exec_child obliging_kernel shell_exec no_fds [] =
    (fst (exec_child obliging_kernel shell_exec no_fds []), Inl (Executed ''/bin/sh'' [''/bin/sh'', ''-c'', ''true''] [''PATH=/bin'']))"
  by (rule prod_eqI) (simp_all only: fst_conv snd_conv shell_exec_run)

theorem exec_runs_as_asked_witness:
  "\<exists>wiring identity rest. fst (exec_child obliging_kernel shell_exec no_fds []) = [] @ wiring @ identity @ rest \<and>
     exec_applied shell_exec identity"
  using exec_runs_as_asked [OF shell_exec_history] by blast

theorem exec_is_not_filtered_witness:
  "\<not> list_ex (restricts \<circ> fst) (fst (exec_child obliging_kernel shell_exec no_fds []))"
  using exec_is_not_filtered [OF shell_exec_history] by (auto simp: list_ex_iff)

end
