(* ===== verification/Child_User.thy ===== *)
theory Child_User
  imports Child_Exec Exec_Process
begin

text \<open>
  Capabilities are set before the user changes, in the init and in \<^verbatim>\<open>exec\<close> alike. The kernel lets a process
  take another user only while \<^verbatim>\<open>CAP_SETUID\<close> is effective, so a process that is to run without it never
  gets as far as its program.
\<close>

section \<open>The rule of the kernel\<close>

text \<open>The capability sets last installed.\<close>

fun capset_of :: "syscall \<times> answer \<Rightarrow> (u32 \<times> u32 \<times> u32) list option" where
  "capset_of (Cred (Capset ds), Inr _) = Some ds"
| "capset_of _ = None"

definition last_capset :: "history \<Rightarrow> (u32 \<times> u32 \<times> u32) list option" where
  "last_capset h = (case rev (filter_map capset_of h) of [] \<Rightarrow> None | ds # _ \<Rightarrow> Some ds)"

text \<open>\<^verbatim>\<open>CAP_SETUID\<close> is number 7.\<close>

definition setuid_given_up :: "history \<Rightarrow> bool" where
  "setuid_given_up h = (case last_capset h of Some ((effective, _, _) # _) \<Rightarrow> \<not> bit effective 7 | _ \<Rightarrow> False)"

text \<open>
  setresuid(2), for a process of user 0: without \<^verbatim>\<open>CAP_SETUID\<close> in the effective set another user is refused
  with EPERM.
\<close>

definition guards_setuid :: "kernel \<Rightarrow> bool" where
  "guards_setuid K \<longleftrightarrow> (\<forall>h u. setuid_given_up h \<longrightarrow> u \<noteq> 0 \<longrightarrow> kn_answer K h (Cred (Setresuid u)) = Inl 1)"

section \<open>The capability sets on the way\<close>

lemma last_capset_append:
  "last_capset (h @ cs) = (case last_capset cs of Some ds \<Rightarrow> Some ds | None \<Rightarrow> last_capset h)"
  by (simp add: last_capset_def filter_map_append split: list.split)

lemma last_capset_none: "(\<And>ds. Cred (Capset ds) \<notin> set (issued cs)) \<Longrightarrow> last_capset cs = None"
proof -
  assume *: "\<And>ds. Cred (Capset ds) \<notin> set (issued cs)"
  have "capset_of x = None" if "x \<in> set cs" for x
    using that * by (cases x rule: capset_of.cases) (force intro: rev_image_eqI)+
  then have "filter_map capset_of cs = []" by (induction cs) auto
  then show ?thesis by (simp add: last_capset_def)
qed

lemma caps_give_up_setuid:
  assumes "caps_applied (Some caps) cs" and "\<not> bit (cb_effective caps) 7"
  shows "setuid_given_up (h @ cs)"
proof -
  let ?ds = "cap_data (cb_effective caps) (cb_permitted caps) (cb_inheritable caps)"
  from assms(1) obtain drops v raises where *: "cs = drops @ [(Cred (Capset ?ds), Inr v)] @ raises" "ambient_raised caps raises"
    by (auto simp: caps_applied_def succeeded_def)
  have "last_capset raises = None"
    by (rule last_capset_none) (use *(2) in \<open>auto simp: ambient_raised_def\<close>)
  moreover have "last_capset [(Cred (Capset ?ds), Inr v :: answer)] = Some ?ds" by (simp add: last_capset_def)
  ultimately have "last_capset (h @ cs) = Some ?ds" by (simp only: *(1) last_capset_append option.case)
  with assms(2) show ?thesis by (simp add: setuid_given_up_def cap_data_def lo32_def bit_simps)
qed

lemma given_up_later:
  "setuid_given_up h \<Longrightarrow> (\<And>ds. Cred (Capset ds) \<notin> set (issued cs)) \<Longrightarrow> setuid_given_up (h @ cs)"
  by (simp add: setuid_given_up_def last_capset_append last_capset_none)

section \<open>The init\<close>

lemma seq_returned:
  assumes "does m Q" and "io_seq (m # ms) h = (h', Inr ())"
  shows "\<exists>cs. Q () cs \<and> io_seq ms (h @ cs) = (h', Inr ())"
  using assms(2) does_Inr [OF assms(1)]
  by (auto simp: io_bind_def split: prod.splits sum.splits)

lemma seq_stuck:
  assumes "\<And>h'. m h \<noteq> (h', Inl (Executed p x y))" and "\<And>h'. m h \<noteq> (h', Inr ())"
  shows "io_seq (m # ms) h \<noteq> (h'', Inl (Executed p x y))"
  using assms by (cases "m h"; cases "snd (m h)") (auto simp: io_bind_def)

lemma die_no_return: "child_die K err_fd code reason h \<noteq> (h', Inr a)"
proof
  assume "child_die K err_fd code reason h = (h', Inr a)"
  from does_Inr [OF does_die [where Q = "\<lambda>_ _. False"] this] show False by simp
qed

lemma user_change_refused:
  assumes "guards_setuid K" and "setuid_given_up h" and "cp_user_uid plan \<noteq> 0"
  shows "change_user K plan a h \<noteq> (h', Inr ())"
proof
  assume run: "change_user K plan a h = (h', Inr ())"
  let ?gid = "io_when (cp_user_gid plan \<noteq> 0) (must_any K (ch_err_fd a) 109 ''setresgid failed'' (Cred (Setresgid (cp_user_gid plan))))"
  let ?setuid = "must_any K (ch_err_fd a) 109 ''setresuid failed'' (Cred (Setresuid (cp_user_uid plan)))"
  let ?caps = "case cp_caps plan of None \<Rightarrow> io_ok () | Some caps \<Rightarrow> io_seq [reapply_effective K (ch_err_fd a) caps, raise_ambient K caps]"
  from seq_returned [OF does_when_succeeded run [unfolded change_user_def]] assms(3) obtain cs
    where cs: "if cp_user_gid plan \<noteq> 0 then succeeded (Cred (Setresgid (cp_user_gid plan))) cs else cs = []"
    and r: "io_seq [io_seq [must_any K (ch_err_fd a) 109 ''prctl SET_KEEPCAPS failed'' (Cred Keepcaps), ?setuid, ?caps]] (h @ cs) = (h', Inr ())"
    by (auto simp del: io_seq.simps)
  then have "io_seq (must_any K (ch_err_fd a) 109 ''prctl SET_KEEPCAPS failed'' (Cred Keepcaps) # [?setuid, ?caps]) (h @ cs) = (h', Inr ())"
    by (auto simp: io_bind_def split: prod.splits sum.splits)
  from seq_returned [OF does_succeeded this] obtain ks where ks: "succeeded (Cred Keepcaps) ks"
    and r: "io_seq [?setuid, ?caps] ((h @ cs) @ ks) = (h', Inr ())" by blast
  have "setuid_given_up ((h @ cs) @ ks)"
    by (intro given_up_later assms(2)) (use cs ks in \<open>auto simp: succeeded_def split: if_splits\<close>)
  with assms(1,3) have "kn_answer K ((h @ cs) @ ks) (Cred (Setresuid (cp_user_uid plan))) = Inl 1"
    unfolding guards_setuid_def by blast
  then have "snd (?setuid ((h @ cs) @ ks)) \<noteq> Inr ()"
    by (auto simp: must_any_def sys_must_def sys_def io_bind_def die_no_return split: prod.splits sum.splits)
  with r show False by (auto simp: io_bind_def split: prod.splits sum.splits)
qed


lemma confine_refused:
  assumes "guards_setuid K" and "cp_caps plan = Some caps" and "\<not> bit (cb_effective caps) 7" and "cp_user_uid plan \<noteq> 0"
  shows "child_confine K n plan a h \<noteq> (h', Inr ())"
proof
  assume "child_confine K n plan a h = (h', Inr ())"
  note run = this [unfolded child_confine_def]
  have any: "does (io_each (\<lambda>(resource, soft, hard). sys_any K (Cred (Prlimit resource soft hard))) (cp_rlimits plan)) (\<lambda>_ _. True)"
    "does (io_when b (sys_any K c)) (\<lambda>_ _. True)" "does (case um of None \<Rightarrow> io_ok () | Some m \<Rightarrow> sys_any K (Node (Umask m))) (\<lambda>_ _. True)"
    "does (install_seccomp K plan a) (\<lambda>_ _. True)" for b c um
    by (auto intro!: does_each_any [THEN does_weaken] does_when_any [THEN does_weaken] does_seccomp [THEN does_weaken] does_rules
        simp: case_prod_unfold does_sys_any split: option.split)
  note step = seq_returned [OF any(1)] seq_returned [OF any(2)] seq_returned [OF any(3)] seq_returned [OF any(4)]
  from step(1) [OF run] obtain c1 where r: "io_seq (io_when (cp_user_additional_gids plan \<noteq> []) (sys_any K (Cred (Setgroups (cp_user_additional_gids plan)))) #
       [(case cp_user_umask plan of None \<Rightarrow> io_ok () | Some m \<Rightarrow> sys_any K (Node (Umask m))),
       io_when (cp_no_new_privileges plan) (sys_any K (Cred No_New_Privs)), install_seccomp K plan a,
       (case cp_caps plan of None \<Rightarrow> io_ok () | Some caps \<Rightarrow> apply_capabilities K (ch_err_fd a) caps),
       change_user K plan a, claim_tty K a, run_hooks_unsafe K n (ch_err_fd a) (hk_start_container (ep_hooks (cp_ext plan))),
       (case cp_apparmor_profile plan of None \<Rightarrow> io_ok () | Some p \<Rightarrow> apply_apparmor K (ch_err_fd a) p),
       (case cp_selinux_label plan of None \<Rightarrow> io_ok () | Some l \<Rightarrow> apply_selinux K (ch_err_fd a) l)]) (h @ c1) = (h', Inr ())"
    by blast
  from step(2) [OF r] obtain h2 where r: "io_seq ((case cp_user_umask plan of None \<Rightarrow> io_ok () | Some m \<Rightarrow> sys_any K (Node (Umask m))) #
       [io_when (cp_no_new_privileges plan) (sys_any K (Cred No_New_Privs)), install_seccomp K plan a,
       (case cp_caps plan of None \<Rightarrow> io_ok () | Some caps \<Rightarrow> apply_capabilities K (ch_err_fd a) caps),
       change_user K plan a, claim_tty K a, run_hooks_unsafe K n (ch_err_fd a) (hk_start_container (ep_hooks (cp_ext plan))),
       (case cp_apparmor_profile plan of None \<Rightarrow> io_ok () | Some p \<Rightarrow> apply_apparmor K (ch_err_fd a) p),
       (case cp_selinux_label plan of None \<Rightarrow> io_ok () | Some l \<Rightarrow> apply_selinux K (ch_err_fd a) l)]) h2 = (h', Inr ())"
    by blast
  from step(3) [OF r] step(2) step(4) obtain h3 where r: "io_seq (apply_capabilities K (ch_err_fd a) caps #
       [change_user K plan a, claim_tty K a, run_hooks_unsafe K n (ch_err_fd a) (hk_start_container (ep_hooks (cp_ext plan))),
       (case cp_apparmor_profile plan of None \<Rightarrow> io_ok () | Some p \<Rightarrow> apply_apparmor K (ch_err_fd a) p),
       (case cp_selinux_label plan of None \<Rightarrow> io_ok () | Some l \<Rightarrow> apply_selinux K (ch_err_fd a) l)]) h3 = (h', Inr ())"
    unfolding assms(2) option.case by blast
  from seq_returned [OF does_apply_capabilities r] obtain cs where "caps_applied (Some caps) cs"
    and r: "io_seq (change_user K plan a # [claim_tty K a, run_hooks_unsafe K n (ch_err_fd a) (hk_start_container (ep_hooks (cp_ext plan))),
       (case cp_apparmor_profile plan of None \<Rightarrow> io_ok () | Some p \<Rightarrow> apply_apparmor K (ch_err_fd a) p),
       (case cp_selinux_label plan of None \<Rightarrow> io_ok () | Some l \<Rightarrow> apply_selinux K (ch_err_fd a) l)]) (h3 @ cs) = (h', Inr ())" by blast
  with assms(3) have "setuid_given_up (h3 @ cs)" by (intro caps_give_up_setuid)
  from user_change_refused [OF assms(1) this assms(4)] r show False
    unfolding io_seq.simps(2) io_bind_def by (auto split: prod.splits sum.splits)
qed


text \<open>
  C16: A container whose process is to run as another user without \<^verbatim>\<open>CAP_SETUID\<close> never starts. The init sets the
  capabilities before it changes the user; under the kernel's rule the change is then refused, so no
  outcome of the init is the program, whatever else the plan says and however the other calls end.
\<close>
theorem user_without_setuid_never_starts:
  assumes "guards_setuid K" and "cp_caps plan = Some caps" and "\<not> bit (cb_effective caps) 7" and "cp_user_uid plan \<noteq> 0"
  shows "snd (child_run K n plan a h0) \<noteq> Inl (Executed path argv envp)"
proof
  assume "snd (child_run K n plan a h0) = Inl (Executed path argv envp)"
  then have run: "io_seq [child_setup K n plan a, wait_start K n a, child_confine K n plan a, final_exec K plan a] h0 =
      (fst (child_run K n plan a h0), Inl (Executed path argv envp))"
    unfolding child_run_def by (auto intro: prod_eqI)
  obtain h1 where r: "io_seq [wait_start K n a, child_confine K n plan a, final_exec K plan a] h1 =
      (fst (child_run K n plan a h0), Inl (Executed path argv envp))"
    using seq_executed [OF within_setup run] by blast
  obtain h2 where r: "io_seq [child_confine K n plan a, final_exec K plan a] h2 =
      (fst (child_run K n plan a h0), Inl (Executed path argv envp))"
    using seq_executed [OF within_gate r] by blast
  have "child_confine K n plan a h2 \<noteq> (h', Inl (Executed path argv envp))" for h'
    by (rule does_not_executed [OF does_confine])
  from seq_stuck [where m = "child_confine K n plan a" and h = h2, OF this confine_refused [OF assms]] r show False by blast
qed

section \<open>exec\<close>

lemma exec_user_refused:
  assumes "guards_setuid K" and "setuid_given_up h" and "xp_uid pj \<noteq> 0"
  shows "exec_user K pj h \<noteq> (h', Inr (Inr ()))"
proof -
  have "setuid_given_up (h @ [(Cred Keepcaps, r)])" for r by (rule given_up_later [OF assms(2)]) simp
  with assms(1,3) have "kn_answer K (h @ [(Cred Keepcaps, r)]) (Cred (Setresuid (xp_uid pj))) = Inl 1" for r
    unfolding guards_setuid_def by blast
  with assms(3) show ?thesis by (auto simp: exec_user_def sys_def io_bind_def split: if_splits)
qed

lemma exec_identity_refused:
  assumes "guards_setuid K" and "xp_capabilities pj = Some caps" and "\<not> bit (cb_effective caps) 7" and "xp_uid pj \<noteq> 0"
  shows "exec_apply K pj h \<noteq> (h', Inr (Inr ()))"
proof
  assume run: "exec_apply K pj h = (h', Inr (Inr ()))"
  then obtain h1 h2 where caps: "apply_capabilities K 2 caps h1 = (h2, Inr ())"
    and r: "io_bind (if xp_gid pj \<noteq> 0 then sys K (Cred (Setresgid (xp_gid pj))) else io_ok (Inr 0)) (\<lambda>r.
      if \<not> is_ok r then io_ok (Inl 101)
      else io_bind (exec_user K pj) (\<lambda>r. case r of Inl code \<Rightarrow> io_ok (Inl code)
         | Inr _ \<Rightarrow> io_bind (exec_labels K pj) (\<lambda>_. io_ok (Inr ())))) h2 = (h', Inr (Inr ()))"
    unfolding exec_apply_def assms(2) option.case io_bind_def [of "io_when _ _"] io_bind_def [of "apply_capabilities _ _ _"]
    by (auto split: prod.splits sum.splits)
  from does_Inr [OF does_apply_capabilities caps] obtain cs where "h2 = h1 @ cs" "caps_applied (Some caps) cs" by blast
  with assms(3) have gone: "setuid_given_up h2" by (simp add: caps_give_up_setuid)
  then have "setuid_given_up (h2 @ [(Cred (Setresgid (xp_gid pj)), v)])" for v by (rule given_up_later) simp
  with exec_user_refused [OF assms(1) _ assms(4)] gone r show False
    by (auto simp: io_bind_def sys_def split: prod.splits sum.splits if_splits)
qed

text \<open>
  \<^verbatim>\<open>exec\<close> has the same order: a process that is to run as another user without \<^verbatim>\<open>CAP_SETUID\<close> never executes its
  program.
\<close>
theorem exec_user_without_setuid_never_runs:
  assumes "guards_setuid K" and "xp_capabilities pj = Some caps" and "\<not> bit (cb_effective caps) 7" and "xp_uid pj \<noteq> 0"
  shows "snd (exec_child K pj f h0) \<noteq> Inl (Executed path argv envp)"
proof
  let ?id = "io_bind (exec_apply K pj) (\<lambda>r. case r of Inl code \<Rightarrow> exit_process code | Inr _ \<Rightarrow> io_ok ())"
  assume "snd (exec_child K pj f h0) = Inl (Executed path argv envp)"
  then have run: "io_seq [exec_stdio K f, close_if K (xf_cgroup f), exec_tty K (xf_pty_slave f), ?id, exec_final K pj] h0 =
      (fst (exec_child K pj f h0), Inl (Executed path argv envp))"
    unfolding exec_child_def by (auto intro: prod_eqI)
  obtain h1 where r: "io_seq [close_if K (xf_cgroup f), exec_tty K (xf_pty_slave f), ?id, exec_final K pj] h1 =
      (fst (exec_child K pj f h0), Inl (Executed path argv envp))"
    using seq_executed [OF within_stdio(1) run] by blast
  obtain h2 where r: "io_seq [exec_tty K (xf_pty_slave f), ?id, exec_final K pj] h2 =
      (fst (exec_child K pj f h0), Inl (Executed path argv envp))"
    using seq_executed [OF within_stdio(2) r] by blast
  obtain h3 where r: "io_seq [?id, exec_final K pj] h3 = (fst (exec_child K pj f h0), Inl (Executed path argv envp))"
    using seq_executed [OF within_stdio(3) r] by blast
  have "?id h3 \<noteq> (h', Inl (Executed path argv envp))" for h'
    by (rule does_not_executed [OF does_exec_identity])
  moreover have "?id h3 \<noteq> (h', Inr ())" for h'
    using exec_identity_refused [OF assms] unfolding io_bind_def exit_process_def by (auto split: prod.splits sum.splits)
  ultimately show False using seq_stuck [where m = ?id and h = h3] r by blast
qed

text \<open>A kernel that grants everything but the change of user without the capability.\<close>

definition guarding_kernel :: kernel where
  "guarding_kernel = \<lparr>kn_answer = \<lambda>h c. case c of Cred (Setresuid u) \<Rightarrow> if setuid_given_up h \<and> u \<noteq> 0 then Inl 1 else Inr 0
     | Fd (Read _) \<Rightarrow> Inr 1 | _ \<Rightarrow> Inr 0, kn_errno = 0\<rparr>"

lemma guarding_kernel: "guards_setuid guarding_kernel"
  by (simp add: guards_setuid_def guarding_kernel_def)

theorem user_without_setuid_never_starts_witness:
  "snd (child_run guarding_kernel 1 (sample_plan\<lparr>cp_caps := Some (sample_caps\<lparr>cb_effective := 0\<rparr>)\<rparr>) sample_args []) \<noteq>
     Inl (Executed ''/bin/sh'' [''sh'', ''-c'', ''true''] [''PATH=/usr/bin:/bin''])"
  by (rule user_without_setuid_never_starts [OF guarding_kernel, where caps = "sample_caps\<lparr>cb_effective := 0\<rparr>"])
    (simp_all add: sample_plan_def)

theorem exec_user_without_setuid_never_runs_witness:
  "snd (exec_child guarding_kernel (shell_exec\<lparr>xp_capabilities := Some (sample_caps\<lparr>cb_effective := 0\<rparr>)\<rparr>) no_fds []) \<noteq>
     Inl (Executed ''/bin/sh'' [''/bin/sh'', ''-c'', ''true''] [''PATH=/bin''])"
  by (rule exec_user_without_setuid_never_runs [OF guarding_kernel, where caps = "sample_caps\<lparr>cb_effective := 0\<rparr>"])
    (simp_all add: shell_exec_def)

end
