(* ===== verification/Machine.thy ===== *)
theory Machine
  imports Spawn Json_Codec
begin

text \<open>
  The container as a state machine: its directory and its init process, moved by the commands of the
  runtime and by the exit of the process. Each step is one command of the model with the outcomes of
  its calls; the steps only tie those outcomes to the process they observe.
\<close>

section \<open>Reading the state file back\<close>

text \<open>
  The text of \<^verbatim>\<open>write_state\<close> is a JSON object with the status and the pid that were written, and an
  indexed assignment to an object changes that key only.
\<close>

locale state_json = json_file J T for J :: "'v json_api" and T +
  assumes strings: "json_strings (jt_str T)"
    and state_text_value: "0 \<le> pid \<Longrightarrow> pid < 2 ^ 31 \<Longrightarrow>
      \<exists>v. jt_parse T (state_text T cid pid bundle st comm) = Some v \<and>
        get_str J v ''status'' = Some st \<and> get_i64 J v ''pid'' = Some (word_of_int pid)"
    and set_status: "jt_parse T (state_text T cid pid bundle st comm) = Some v \<Longrightarrow> 0 \<le> pid \<Longrightarrow> pid < 2 ^ 31 \<Longrightarrow>
      get_str J (jt_set T v ''status'' (jstr J st')) ''status'' = Some st' \<and>
      get_i64 J (jt_set T v ''status'' (jstr J st')) ''pid'' = get_i64 J v ''pid'' \<and>
      (st' \<in> {''paused'', ''running''} \<longrightarrow>
         replace_created_status_with_running (jt_print T (jt_set T v ''status'' (jstr J st'))) = None)"
    and set_again: "jt_set T (jt_set T v k x) k y = jt_set T v k y"

lemma state_text_object:
  assumes "0 \<le> pid" "pid < 2 ^ 31"
  shows "state_text codec cid pid bundle st comm = put_val (JObj [(''ociVersion'', JStr ''1.0.2''), (''id'', JStr cid),
    (''status'', JStr st), (''pid'', JPos (word_of_int pid)), (''bundle'', JStr bundle), (''annotations'', JObj []),
    (''commHint'', case comm of Some s \<Rightarrow> JStr s | None \<Rightarrow> JNull)])"
proof -
  have "unat (word_of_int pid :: u64) = nat pid"
    using assms by (simp add: unat_eq_nat_uint uint_word_of_int)
  then have "dec_u64 (word_of_int pid :: u64) = dec_int pid"
    using assms by (simp add: dec_u64_def dec_int_def)
  moreover have "json_escape ''ociVersion'' = ''\"ociVersion\"''" "json_escape ''id'' = ''\"id\"''"
    "json_escape ''status'' = ''\"status\"''" "json_escape ''pid'' = ''\"pid\"''" "json_escape ''bundle'' = ''\"bundle\"''"
    "json_escape ''annotations'' = ''\"annotations\"''" "json_escape ''commHint'' = ''\"commHint\"''"
    "json_escape ''1.0.2'' = ''\"1.0.2\"''"
    by (simp_all add: json_escape_def esc_char_def)
  ultimately show ?thesis
    by (simp add: state_text_def codec_def separated_def split: option.split)
qed

lemma codec_state_value:
  assumes "0 \<le> pid" "pid < 2 ^ 31" "jt_parse codec (state_text codec cid pid bd st comm) = Some v"
  shows "jt_set codec v ''status'' (JStr st') = JObj [(''ociVersion'', JStr ''1.0.2''), (''id'', JStr cid),
    (''status'', JStr st'), (''pid'', JPos (word_of_int pid)), (''bundle'', JStr bd), (''annotations'', JObj []),
    (''commHint'', case comm of Some s \<Rightarrow> JStr s | None \<Rightarrow> JNull)]"
  using assms(3) unfolding state_text_object [OF assms(1,2)]
  by (auto simp: codec_def codec_roundtrip simp del: put_val.simps)

lemma jv_set_again: "jv_set (jv_set v k x) k y = jv_set v k y"
proof (cases v)
  case (JObj kvs)
  have keys: "k \<in> fst ` set (map (\<lambda>kv. if fst kv = k then (k, x) else kv) kvs) \<longleftrightarrow> k \<in> fst ` set kvs"
    by (induction kvs) auto
  show ?thesis
  proof (cases "k \<in> fst ` set kvs")
    case True
    with keys show ?thesis by (simp add: JObj del: set_map)
  next
    case False
    moreover from this have "map (\<lambda>kv. if fst kv = k then (k, y) else kv) kvs = kvs" by (intro map_idI) force
    ultimately show ?thesis by (simp add: JObj)
  qed
qed simp_all

lemma small_pid: "0 \<le> pid \<Longrightarrow> pid < 2 ^ 31 \<Longrightarrow> 0 \<le> sint (word_of_int pid :: i64)"
  by (simp add: sint_sbintrunc' signed_take_bit_int_eq_self)

interpretation codec: state_json jv codec
proof (intro state_json.intro state_json_axioms.intro)
  show "json_file jv codec" by (rule codec.json_file_axioms)
next
  show "json_strings (jt_str codec)" by (simp add: codec_def js.json_strings_axioms)
next
  fix pid :: int and cid bd st comm assume pid: "0 \<le> pid" "pid < 2 ^ 31"
  then show "\<exists>v. jt_parse codec (state_text codec cid pid bd st comm) = Some v \<and>
      get_str jv v ''status'' = Some st \<and> get_i64 jv v ''pid'' = Some (word_of_int pid)"
    unfolding state_text_object [OF pid]
    by (simp add: codec_def codec_roundtrip get_str_def get_i64_def small_pid del: put_val.simps)
next
  fix pid :: int and cid bd st comm v st'
  assume v: "jt_parse codec (state_text codec cid pid bd st comm) = Some v" and pid: "0 \<le> pid" "pid < 2 ^ 31"
  have "jt_parse codec (state_text codec cid pid bd st comm) = Some (JObj [(''ociVersion'', JStr ''1.0.2''), (''id'', JStr cid),
    (''status'', JStr st), (''pid'', JPos (word_of_int pid)), (''bundle'', JStr bd), (''annotations'', JObj []),
    (''commHint'', case comm of Some s \<Rightarrow> JStr s | None \<Rightarrow> JNull)])"
    unfolding state_text_object [OF pid] by (simp add: codec_def codec_roundtrip del: put_val.simps)
  with v have "get_i64 jv v ''pid'' = Some (word_of_int pid)"
    using small_pid [OF pid] by (auto simp: get_i64_def)
  moreover have "jt_print codec (jt_set codec v ''status'' (JStr st')) = state_text codec cid pid bd st' comm"
    unfolding codec_state_value [OF pid v] state_text_object [OF pid] by (simp add: codec_def)
  moreover have "replace_created_status_with_running (state_text codec cid pid bd st' comm) = None"
    if "st' \<in> {''paused'', ''running''}"
    by (rule js.patch_needs_created [OF _ that pid(1)]) (simp add: codec_def)
  ultimately show "get_str jv (jt_set codec v ''status'' (jstr jv st')) ''status'' = Some st' \<and>
      get_i64 jv (jt_set codec v ''status'' (jstr jv st')) ''pid'' = get_i64 jv v ''pid'' \<and>
      (st' \<in> {''paused'', ''running''} \<longrightarrow>
         replace_created_status_with_running (jt_print codec (jt_set codec v ''status'' (jstr jv st'))) = None)"
    using small_pid [OF pid] by (auto simp: codec_state_value [OF pid v] get_str_def get_i64_def)
next
  show "jt_set codec (jt_set codec v k x) k y = jt_set codec v k y" for v k x y
    by (simp add: codec_def jv_set_again)
qed

section \<open>The machine\<close>

datatype phase = Parked | Released | Ended

record machine =
  mc_dir :: world
  mc_init :: "(int \<times> phase) option"
  mc_untidy :: bool
  mc_leftover :: bool

text \<open>A process is alive when it is the init and has not ended: process ids are not reused in between.\<close>

definition alive_in :: "(int \<times> phase) option \<Rightarrow> int \<Rightarrow> bool" where
  "alive_in i p \<longleftrightarrow> i = Some (p, Parked) \<or> i = Some (p, Released)"

fun after_kills :: "effect list \<Rightarrow> (int \<times> phase) option \<Rightarrow> (int \<times> phase) option" where
  "after_kills es None = None"
| "after_kills es (Some (p, ph)) = Some (p, if Kill p \<in> set es then Ended else ph)"

definition valid_pid :: "int \<Rightarrow> bool" where
  "valid_pid p \<longleftrightarrow> 0 < p \<and> p < 2 ^ 31"

abbreviation spawn_state :: "machine \<Rightarrow> spawned" where
  "spawn_state m \<equiv> \<lparr>ss_dir = mc_dir m, ss_init = None\<rparr>"

text \<open>
  Every command steps with every outcome of its calls. Two flags only record history: \<open>mc_untidy\<close>,
  that some failed create or activation changed something in an environment in which a call without
  clean-up fails (\<^const>\<open>bare_calls_ok\<close>), and \<open>mc_leftover\<close>, that some failed create could not remove
  its directory. No command reads them. Start opens the fifo of a parked init only.
\<close>

definition bare_failure :: "spawn_env \<Rightarrow> deadline \<Rightarrow> spawned \<Rightarrow> spawned \<Rightarrow> int io_result \<Rightarrow> bool" where
  "bare_failure k d s s' r \<longleftrightarrow> (case r of Inl _ \<Rightarrow> s' \<noteq> s \<and> \<not> bare_calls_ok k d | Inr _ \<Rightarrow> False)"

definition stuck_failure :: "spawn_env \<Rightarrow> spawned \<Rightarrow> spawned \<Rightarrow> int io_result \<Rightarrow> bool" where
  "stuck_failure k s s' r \<longleftrightarrow> (case r of Inl _ \<Rightarrow> s' \<noteq> s \<and> \<not> pe_destroy_ok k | Inr _ \<Rightarrow> False)"

definition newer :: "int option \<Rightarrow> (int \<times> phase) option \<Rightarrow> (int \<times> phase) option" where
  "newer new old = (case new of None \<Rightarrow> old | Some p \<Rightarrow> Some (p, Parked))"

datatype command = Create_Cmd | Activate_Cmd | Start_Cmd | Exit_Init | State_Cmd | Freeze_Cmd | Delete_Cmd bool

inductive step :: "'v json_api \<Rightarrow> 'v json_text \<Rightarrow> string \<Rightarrow> command \<Rightarrow> machine \<Rightarrow> machine \<Rightarrow> bool" for J T cid where
  created: "cmd_create J T ce k cid ext_pid ext console no_pivot d (spawn_state m) = (s, r) \<Longrightarrow>
    (\<And>p. ss_init s = Some p \<Longrightarrow> valid_pid p) \<Longrightarrow>
    step J T cid Create_Cmd m \<lparr>mc_dir = ss_dir s, mc_init = newer (ss_init s) (mc_init m),
      mc_untidy = (mc_untidy m \<or> bare_failure k d (spawn_state m) s r),
      mc_leftover = (mc_leftover m \<or> stuck_failure k (spawn_state m) s r)\<rparr>"
| activated: "cmd_activate J T ce k (alive_in (mc_init m)) merged cid ext d (spawn_state m) = (s, r) \<Longrightarrow>
    (\<And>p. ss_init s = Some p \<Longrightarrow> valid_pid p) \<Longrightarrow>
    step J T cid Activate_Cmd m (m\<lparr>mc_dir := ss_dir s, mc_init := newer (ss_init s) (mc_init m),
      mc_untidy := (mc_untidy m \<or> bare_failure k d (spawn_state m) s r)\<rparr>)"
| started: "cmd_start J T k d cid (mc_dir m) = (w, True, hs, r) \<Longrightarrow> mc_init m = Some (p, Parked) \<Longrightarrow>
    step J T cid Start_Cmd m (m\<lparr>mc_dir := w, mc_init := Some (p, Released)\<rparr>)"
| start_refused: "cmd_start J T k d cid (mc_dir m) = (w, False, hs, r) \<Longrightarrow> step J T cid Start_Cmd m (m\<lparr>mc_dir := w\<rparr>)"
| exited: "mc_init m = Some (p, ph) \<Longrightarrow> step J T cid Exit_Init m (m\<lparr>mc_init := Some (p, Ended)\<rparr>)"
| queried: "cmd_state J T ji (alive_in (mc_init m)) cid (mc_dir m) = (w, r) \<Longrightarrow> step J T cid State_Cmd m (m\<lparr>mc_dir := w\<rparr>)"
| frozen: "mc_dir m = Some c \<Longrightarrow> cmd_freeze J T cg cid b c = (c', r) \<Longrightarrow> step J T cid Freeze_Cmd m (m\<lparr>mc_dir := Some c'\<rparr>)"
| deleted: "cmd_delete J T k d cid force (mc_dir m) = (w, es, r) \<Longrightarrow> de_alive k = alive_in (mc_init m) \<Longrightarrow>
    step J T cid (Delete_Cmd force) m (m\<lparr>mc_dir := w, mc_init := after_kills es (mc_init m)\<rparr>)"

inductive_cases stepE: "step J T cid l m m'"

definition initial :: machine where
  "initial = \<lparr>mc_dir = None, mc_init = None, mc_untidy = False, mc_leftover = False\<rparr>"

inductive reachable :: "'v json_api \<Rightarrow> 'v json_text \<Rightarrow> string \<Rightarrow> machine \<Rightarrow> bool" for J T cid where
  start: "reachable J T cid initial"
| move: "reachable J T cid m \<Longrightarrow> step J T cid l m m' \<Longrightarrow> reachable J T cid m'"

section \<open>The invariant\<close>

text \<open>
  While the init lives, the state file is what create or start wrote, or that document with its status
  set to paused or running, and the pid file names the init.
\<close>

inductive state_file_of :: "'v json_api \<Rightarrow> 'v json_text \<Rightarrow> string \<Rightarrow> int \<Rightarrow> string \<Rightarrow> bool" for J T cid p where
  written: "st \<in> {''created'', ''running''} \<Longrightarrow> state_file_of J T cid p (state_text T cid p bd st comm)"
| rewritten: "jt_parse T (state_text T cid p bd st comm) = Some v \<Longrightarrow> st' \<in> {''paused'', ''running''} \<Longrightarrow>
    state_file_of J T cid p (jt_print T (jt_set T v ''status'' (jstr J st')))"

inductive_cases state_file_ofE: "state_file_of J T cid p t"

definition names_init :: "'v json_api \<Rightarrow> 'v json_text \<Rightarrow> string \<Rightarrow> int \<Rightarrow> cdir \<Rightarrow> bool" where
  "names_init J T cid p c \<longleftrightarrow> cd_pid c = Some (dec_int p) \<and> (\<exists>t. cd_state c = Some t \<and> state_file_of J T cid p t)"

definition consistent :: "'v json_api \<Rightarrow> 'v json_text \<Rightarrow> string \<Rightarrow> machine \<Rightarrow> bool" where
  "consistent J T cid m \<longleftrightarrow>
     (\<forall>p. alive_in (mc_init m) p \<longrightarrow> valid_pid p \<and> (\<exists>c. mc_dir m = Some c \<and> names_init J T cid p c))"

lemma alive_simps [simp]: "alive_in (Some (q, ph)) p \<longleftrightarrow> q = p \<and> ph \<noteq> Ended" "\<not> alive_in None p"
  by (cases ph; auto simp: alive_in_def)+

lemma alive_after_kills: "alive_in (after_kills es i) p \<Longrightarrow> alive_in i p \<and> Kill p \<notin> set es"
  by (cases i rule: option.exhaust) (auto split: if_splits)

lemma read_pid_dec: "valid_pid p \<Longrightarrow> cd_pid c = Some (dec_int p) \<Longrightarrow> read_pid c = Ok p"
proof -
  assume p: "valid_pid p" and c: "cd_pid c = Some (dec_int p)"
  then have d: "dec_int p = dec_nat (nat p)" by (simp add: valid_pid_def dec_int_def)
  have "trim (dec_nat (nat p)) = dec_nat (nat p)" using set_dec_nat by (intro trim_ascii_digits) blast
  moreover have "parse_i32 (dec_nat (nat p)) = Some p"
  proof -
    have "hd (dec_nat (nat p)) \<noteq> CHR ''-''" using dec_nat_hd [of "nat p"] by (auto simp: ascii_digits_def)
    then show ?thesis using p parse_dec_nat [of "nat p" "2 ^ 31"]
      by (cases "dec_nat (nat p)") (auto simp: parse_i32_def valid_pid_def)
  qed
  ultimately show ?thesis by (simp add: read_pid_def c d)
qed

lemma pid_as_i32: "valid_pid p \<Longrightarrow> i64_as_i32 (word_of_int p) = p"
  by (simp add: i64_as_i32_def valid_pid_def unsigned_of_int sint_sbintrunc' take_bit_int_eq_self signed_take_bit_int_eq_self)

context state_json
begin

definition status_settable :: "string \<Rightarrow> int \<Rightarrow> 'v \<Rightarrow> bool" where
  "status_settable cid p v \<longleftrightarrow> (\<exists>bd st comm v0. jt_parse T (state_text T cid p bd st comm) = Some v0 \<and>
     (\<forall>x. jt_set T v ''status'' x = jt_set T v0 ''status'' x))"

lemma file_value:
  assumes "state_file_of J T cid p t" "valid_pid p"
  shows "\<exists>v st. jt_parse T t = Some v \<and> get_str J v ''status'' = Some st \<and> st \<noteq> ''stopped'' \<and>
    get_i64 J v ''pid'' = Some (word_of_int p) \<and> status_settable cid p v"
proof -
  have p: "0 \<le> p" "p < 2 ^ 31" using assms(2) by (simp_all add: valid_pid_def)
  from assms(1) show ?thesis
  proof cases
    case (written st bd comm)
    from state_text_value [OF p, of cid bd st comm] obtain v where v:
      "jt_parse T t = Some v" "get_str J v ''status'' = Some st" "get_i64 J v ''pid'' = Some (word_of_int p)"
      using written by blast
    have "status_settable cid p v" using v(1) unfolding status_settable_def written(1) by blast
    moreover have "st \<noteq> ''stopped''" using written by auto
    ultimately show ?thesis using v by blast
  next
    case (rewritten bd st comm v st')
    let ?v = "jt_set T v ''status'' (jstr J st')"
    from state_text_value [OF p, of cid bd st comm] rewritten(2) have "get_i64 J v ''pid'' = Some (word_of_int p)" by auto
    with set_status [OF rewritten(2) p, of st']
    have "get_str J ?v ''status'' = Some st'" "get_i64 J ?v ''pid'' = Some (word_of_int p)" by auto
    moreover have "status_settable cid p ?v" using rewritten(2) set_again unfolding status_settable_def by blast
    moreover have "st' \<noteq> ''stopped''" using rewritten by auto
    ultimately show ?thesis using rewritten(1) parse_print by blast
  qed
qed

lemma live_status:
  assumes "names_init J T cid p c" "valid_pid p"
  shows "\<exists>v st. and_then (cd_state c) (jt_parse T) = Some v \<and> get_str J v ''status'' = Some st \<and> st \<noteq> ''stopped'' \<and>
    get_i64 J v ''pid'' = Some (word_of_int p) \<and> read_status_pid_comm J T c = (Some st, p, get_str J v ''commHint'')"
proof -
  obtain t where t: "cd_state c = Some t" "state_file_of J T cid p t" using assms(1) by (auto simp: names_init_def)
  from file_value [OF t(2) assms(2)] t(1) show ?thesis
    by (auto simp: read_status_pid_comm_def pid_as_i32 [OF assms(2)])
qed

lemma names_read_pid: "names_init J T cid p c \<Longrightarrow> valid_pid p \<Longrightarrow> read_pid c = Ok p"
  by (simp add: names_init_def read_pid_dec)

lemma names_written:
  "cd_pid c = Some (dec_int p) \<Longrightarrow> cd_state c = Some (state_text T cid p bd st comm) \<Longrightarrow>
     st \<in> {''created'', ''running''} \<Longrightarrow> names_init J T cid p c"
  by (auto simp: names_init_def intro: written)

text \<open>What each command does to a directory that names a live init.\<close>

lemma start_keeps:
  assumes "names_init J T cid p c" "valid_pid p" "mark_state_running J T cid p c = Ok c'"
  shows "names_init J T cid p c'"
proof -
  have p: "0 \<le> p" "p < 2 ^ 31" using assms(2) by (simp_all add: valid_pid_def)
  have T: "T = \<lparr>jt_parse = jt_parse T, jt_print = jt_print T, jt_set = jt_set T, jt_str = jt_str T\<rparr>" by simp
  obtain t where t: "cd_state c = Some t" "state_file_of J T cid p t" "cd_pid c = Some (dec_int p)"
    using assms(1) by (auto simp: names_init_def)
  show ?thesis
  proof (cases "replace_created_status_with_running t")
    case (Some t')
    from t(2) obtain bd comm where "t' = state_text T cid p bd ''running'' comm"
    proof cases
      case (written st bd comm)
      with Some json_strings.patch_state_text [OF strings T] json_strings.patch_needs_created [OF strings T _ p(1)] that
      show thesis by auto
    next
      case (rewritten bd st comm v st')
      with Some set_status [OF rewritten(2) p, of st'] show thesis by auto
    qed
    with Some t assms(3) show ?thesis
      by (intro names_written [where st = "''running''"]) (auto simp: mark_state_running_def)
  next
    case None
    with t assms(3) obtain bd comm where "c' = write_state T cid p bd ''running'' comm c"
      by (auto simp: mark_state_running_def)
    with t show ?thesis by (intro names_written [where st = "''running''"]) (auto simp: write_state_def)
  qed
qed

lemma freeze_keeps:
  assumes "names_init J T cid p c" "valid_pid p" "cmd_freeze J T cg cid b c = (c', r)"
  shows "names_init J T cid p c'"
proof -
  let ?st = "if b then ''paused'' else ''running''"
  obtain t where t: "cd_state c = Some t" "state_file_of J T cid p t" "cd_pid c = Some (dec_int p)"
    using assms(1) by (auto simp: names_init_def)
  from file_value [OF t(2) assms(2)] obtain v bd st comm v0 where v: "jt_parse T t = Some v"
    and v0: "jt_parse T (state_text T cid p bd st comm) = Some v0" "\<And>x. jt_set T v ''status'' x = jt_set T v0 ''status'' x"
    unfolding status_settable_def by blast
  have "c' = c \<or> c' = c\<lparr>cd_state := Some (jt_print T (jt_set T v0 ''status'' (jstr J ?st)))\<rparr>"
    using assms(3) t v v0(2) by (auto simp: cmd_freeze_def update_status_def read_json_state_def split: prod.splits sum.splits)
  moreover have "state_file_of J T cid p (jt_print T (jt_set T v0 ''status'' (jstr J ?st)))"
    by (rule rewritten [OF v0(1)]) simp
  ultimately show ?thesis using assms(1) t(3) by (auto simp: names_init_def)
qed

lemma state_keeps:
  assumes "names_init J T cid p c" "valid_pid p" "alive p" "cmd_state J T ji alive cid (Some c) = (w, r)"
  shows "w = Some c"
proof -
  from live_status [OF assms(1,2)] obtain v st t where "cd_state c = Some t" "jt_parse T t = Some v"
    "get_i64 J v ''pid'' = Some (word_of_int p)"
    by (cases "cd_state c") auto
  with assms(3,4) show ?thesis by (simp add: cmd_state_def pid_as_i32 [OF assms(2)] Let_def)
qed

lemma delete_keeps:
  assumes "names_init J T cid p c" "valid_pid p" "de_alive k p" "cmd_delete J T k d cid force (Some c) = (w, es, r)"
    and "Kill p \<notin> set es"
  shows "w = Some c"
proof -
  from live_status [OF assms(1,2)] obtain st comm where
    s: "read_status_pid_comm J T c = (Some st, p, comm)" "st \<noteq> ''stopped''" by blast
  have "0 < p" using assms(2) by (simp add: valid_pid_def)
  with s assms(3-) names_read_pid [OF assms(1,2)] show ?thesis
    by (auto simp: cmd_delete_def delete_wait_def prefix_effects_def split: sum.splits if_splits)
qed

lemma activate_needs_dead:
  assumes "names_init J T cid p c" "valid_pid p" "ss_dir s = Some c"
  shows "\<exists>e. cmd_activate J T ce k alive merged cid ext d s = (s, Inl e)"
proof -
  from live_status [OF assms(1,2)] obtain st comm where
    s: "read_status_pid_comm J T c = (Some st, p, comm)" "st \<noteq> ''stopped''" by blast
  show ?thesis
    using assms(3) s
    by (cases "cmd_activate J T ce k alive merged cid ext d s"; cases "snd (cmd_activate J T ce k alive merged cid ext d s)")
      (auto simp: cmd_activate_def guarded_Err split: if_splits)
qed

end

section \<open>Every step keeps the invariant\<close>

lemma create_fails_clean:
  assumes "cmd_create J T ce k cid ext_pid ext console no_pivot d s = (s', Inl e)"
    and ok: "s' \<noteq> s \<Longrightarrow> bare_calls_ok k d" and "ss_init s = None"
  shows "s' = s \<or> ss_dir s = None \<and> ss_init s' = None \<and> (pe_destroy_ok k \<longrightarrow> ss_dir s' = None)"
proof -
  from assms(1) consider "s' = s"
    | b spec where "ss_dir s = None" "spawn_container_init J T k cid b spec ext_pid ext console no_pivot d Bundle_Configured True
         (s\<lparr>ss_dir := Some empty_cdir\<rparr>) = (s', Inl e)"
    by (auto simp: cmd_create_def guarded_Err split: if_splits)
  then show ?thesis
  proof cases
    case (2 b spec)
    show ?thesis
    proof (cases "s' = s")
      case False
      have "torn_down (True \<and> pe_destroy_ok k) (spawn_container_init J T k cid b spec ext_pid ext console no_pivot d
          Bundle_Configured True (s\<lparr>ss_dir := Some empty_cdir\<rparr>))"
        by (rule spawn_torn_down [OF ok [OF False]]) (simp add: assms)
      with 2 show ?thesis by (simp add: torn_down_def)
    qed simp
  qed simp
qed

lemma guarded_keep: "guarded keep r s f = (s', x) \<longleftrightarrow>
    s' = s \<and> (\<exists>e. r = Inl e \<and> x = Inl e) \<or> (\<exists>a. r = Inr a \<and> f a = (s', x))"
  by (cases r) auto

lemma activate_cases:
  assumes "cmd_activate J T ce k alive merged cid ext d s = (s', x)"
  shows "s' = s \<and> (\<exists>e. x = Inl e) \<or> (\<exists>b spec rootfs c. ss_dir s = Some c \<and>
    spawn_container_init J T k cid b spec False ext None False d (Prepared_Rootfs rootfs) False s = (s', x))"
proof -
  have some: "ok_or v e = Inr c \<Longrightarrow> v = Some c" for v :: world and e c by (cases v) simp_all
  from assms show ?thesis
    unfolding cmd_activate_def case_prod_unfold guarded_keep
    apply (elim disjE exE conjE)
            apply (simp; fail)+
    apply (drule some)
    apply (intro disjI2 exI conjI)
     apply assumption+
    done
qed

lemma activate_fails_clean:
  assumes "cmd_activate J T ce k alive merged cid ext d s = (s', Inl e)"
    and ok: "s' \<noteq> s \<Longrightarrow> bare_calls_ok k d" and "ss_init s = None"
  shows "ss_init s' = None"
proof (cases "s' = s")
  case False
  note ok = ok [OF False]
  from activate_cases [OF assms(1)] show ?thesis
proof (elim disjE exE conjE)
  fix b spec rootfs
  assume run: "spawn_container_init J T k cid b spec False ext None False d (Prepared_Rootfs rootfs) False s = (s', Inl e)"
  have "torn_down (False \<and> pe_destroy_ok k) (spawn_container_init J T k cid b spec False ext None False d
      (Prepared_Rootfs rootfs) False s)"
    by (rule spawn_torn_down [OF ok assms(3)])
  with run show ?thesis by (simp add: torn_down_def)
qed (simp add: assms)
qed (simp add: assms)

lemma activate_result:
  assumes "cmd_activate J T ce k alive merged cid ext d s = (s', Ok pid)"
  shows "\<exists>c bd comm. ss_dir s' = Some c \<and> ss_init s' = Some pid \<and>
    cd_state c = Some (state_text T cid pid bd ''created'' comm) \<and> cd_pid c = Some (dec_int pid)"
  using activate_cases [OF assms]
proof (elim disjE exE conjE)
  fix b spec rootfs c
  assume "spawn_container_init J T k cid b spec False ext None False d (Prepared_Rootfs rootfs) False s = (s', Ok pid)"
    and "ss_dir s = Some c"
  from spawn_success [OF this] show ?thesis by blast
qed simp

lemma newer_simps [simp]: "newer None i = i" "newer (Some p) i = Some (p, Parked)"
  by (simp_all add: newer_def)

lemma consistentI: "(\<And>p. alive_in (mc_init m) p \<Longrightarrow> valid_pid p \<and> (\<exists>c. mc_dir m = Some c \<and> names_init J T cid p c)) \<Longrightarrow>
    consistent J T cid m"
  by (simp add: consistent_def)

lemma consistentE:
  assumes "consistent J T cid m" "alive_in (mc_init m) p"
  obtains c where "valid_pid p" "mc_dir m = Some c" "names_init J T cid p c"
  using assms by (auto simp: consistent_def)

lemma alive_kills: "alive_in (after_kills es i) p \<Longrightarrow> alive_in i p \<and> Kill p \<notin> set es"
  by (cases i rule: option.exhaust) (auto split: if_splits)

lemma step_keeps_flags:
  assumes "step J T cid l m m'"
  shows "mc_untidy m \<Longrightarrow> mc_untidy m'" "mc_leftover m \<Longrightarrow> mc_leftover m'"
  using assms by (auto elim: stepE)

context state_json
begin

lemma fresh_consistent:
  assumes "ss_dir s = Some c" "ss_init s = Some pid" "cd_state c = Some (state_text T cid pid bd ''created'' comm)"
    "cd_pid c = Some (dec_int pid)" "\<And>p. ss_init s = Some p \<Longrightarrow> valid_pid p"
    "mc_dir m = ss_dir s" "mc_init m = newer (ss_init s) i"
  shows "consistent J T cid m"
  using assms names_written [of c pid cid bd "''created''" comm] by (intro consistentI) auto

lemma step_consistent:
  assumes inv: "consistent J T cid m" and "step J T cid l m m'" and tidy: "\<not> mc_untidy m'"
  shows "consistent J T cid m'"
  using assms(2)
proof cases
  case (created ce k ext_pid ext console no_pivot d s r)
  show ?thesis
  proof (cases r)
    case (Inl e)
    with tidy created(2) have "s \<noteq> spawn_state m \<Longrightarrow> bare_calls_ok k d" by (simp add: bare_failure_def)
    from create_fails_clean [OF created(3) [unfolded Inl] this]
    have "s = spawn_state m \<or> mc_dir m = None \<and> ss_init s = None" by auto
    with inv show ?thesis unfolding created(2) by (auto simp: consistent_def)
  next
    case (Inr pid)
    from create_result [OF created(3) [unfolded Inr]] obtain c bd comm where
      "ss_dir s = Some c" "ss_init s = Some pid" "cd_state c = Some (state_text T cid pid bd ''created'' comm)"
      "cd_pid c = Some (dec_int pid)" by blast
    from fresh_consistent [OF this created(4)] show ?thesis by (simp add: created(2))
  qed
next
  case (activated ce k merged ext d s r)
  show ?thesis
  proof (cases r)
    case (Inl e)
    with tidy activated(2) have "s \<noteq> spawn_state m \<Longrightarrow> bare_calls_ok k d" by (simp add: bare_failure_def)
    from activate_fails_clean [OF activated(3) [unfolded Inl] this] have none: "ss_init s = None" by simp
    show ?thesis
    proof (rule consistentI)
      fix p assume "alive_in (mc_init m') p"
      then have "alive_in (mc_init m) p" by (simp add: none activated(2))
      with inv obtain c where c: "valid_pid p" "mc_dir m = Some c" "names_init J T cid p c" by (rule consistentE)
      from activate_needs_dead [OF c(3,1), of "spawn_state m" ce k "alive_in (mc_init m)" merged ext d] c(2) activated(3)
      have "s = spawn_state m" by auto
      with c show "valid_pid p \<and> (\<exists>c. mc_dir m' = Some c \<and> names_init J T cid p c)" by (simp add: activated(2))
    qed
  next
    case (Inr pid)
    from activate_result [OF activated(3) [unfolded Inr]] obtain c bd comm where
      "ss_dir s = Some c" "ss_init s = Some pid" "cd_state c = Some (state_text T cid pid bd ''created'' comm)"
      "cd_pid c = Some (dec_int pid)" by blast
    from fresh_consistent [OF this activated(4)] show ?thesis by (simp add: activated(2))
  qed
next
  case (started k d w hs r p)
  then obtain c where c: "valid_pid p" "mc_dir m = Some c" "names_init J T cid p c"
    using consistentE [OF inv, of p] by auto
  have "w = Some c \<or> (\<exists>c'. w = Some c' \<and> mark_state_running J T cid p c = Ok c')"
    using started(3) c names_read_pid [OF c(3,1)]
    by (auto simp: cmd_start_def split: sum.splits if_splits)
  with c start_keeps [OF c(3,1)] show ?thesis unfolding started(2) by (auto simp: consistent_def)
next
  case (start_refused k d w hs r)
  then have "w = mc_dir m" by (auto simp: cmd_start_def split: option.splits sum.splits if_splits)
  with inv show ?thesis by (simp add: start_refused(2) consistent_def)
next
  case (exited p ph)
  then show ?thesis by (simp add: consistent_def)
next
  case (queried ji w r)
  show ?thesis unfolding queried(2)
  proof (rule consistentI)
    fix p assume "alive_in (mc_init (m\<lparr>mc_dir := w\<rparr>)) p"
    then have a: "alive_in (mc_init m) p" by simp
    with inv obtain c where c: "valid_pid p" "mc_dir m = Some c" "names_init J T cid p c" by (rule consistentE)
    with state_keeps [OF c(3,1), where alive = "alive_in (mc_init m)", OF a] queried(3) show "valid_pid p \<and> (\<exists>c. mc_dir (m\<lparr>mc_dir := w\<rparr>) = Some c \<and> names_init J T cid p c)"
      by auto
  qed
next
  case (frozen c cg b c' r)
  with inv freeze_keeps [of cid _ c cg b c' r] show ?thesis by (auto simp: consistent_def)
next
  case (deleted k d force w es r)
  show ?thesis
  proof (rule consistentI)
    fix p assume "alive_in (mc_init m') p"
    then have a: "alive_in (mc_init m) p" "Kill p \<notin> set es" using alive_kills by (auto simp: deleted(2))
    from inv a(1) obtain c where c: "valid_pid p" "mc_dir m = Some c" "names_init J T cid p c" by (rule consistentE)
    have "w = Some c"
      using delete_keeps [OF c(3,1), of k d force w es r] deleted a c by simp
    with c show "valid_pid p \<and> (\<exists>c. mc_dir m' = Some c \<and> names_init J T cid p c)" by (simp add: deleted(2))
  qed
qed

lemma reachable_consistent: "reachable J T cid m \<Longrightarrow> \<not> mc_untidy m \<Longrightarrow> consistent J T cid m"
proof (induction rule: reachable.induct)
  case (move m l m')
  then show ?case using step_consistent step_keeps_flags(1) by blast
qed (simp add: initial_def consistent_def)

end

section \<open>The lifecycle of the OCI specification\<close>

datatype oci_status = No_Container | Created | Running | Stopped

text \<open>The moves of the specification, with this runtime's activation and forced deletion.\<close>

inductive oci_move :: "command \<Rightarrow> oci_status \<Rightarrow> oci_status \<Rightarrow> bool" where
  oci_create: "oci_move Create_Cmd No_Container Created"
| oci_activate: "oci_move Activate_Cmd Stopped Created"
| oci_start: "oci_move Start_Cmd Created Running"
| oci_exit: "x \<in> {Created, Running} \<Longrightarrow> oci_move Exit_Init x Stopped"
| oci_delete: "oci_move (Delete_Cmd force) Stopped No_Container"
| oci_force: "x \<in> {Created, Running} \<Longrightarrow> y \<in> {Stopped, No_Container} \<Longrightarrow> oci_move (Delete_Cmd True) x y"

inductive_simps oci_move_simps [simp]: "oci_move l x y"

definition status_of :: "world \<Rightarrow> (int \<times> phase) option \<Rightarrow> oci_status" where
  "status_of d i = (case d of None \<Rightarrow> No_Container
     | Some _ \<Rightarrow> (case i of None \<Rightarrow> Stopped | Some (_, ph) \<Rightarrow>
         (case ph of Parked \<Rightarrow> Created | Released \<Rightarrow> Running | Ended \<Rightarrow> Stopped)))"

definition oci_status :: "machine \<Rightarrow> oci_status" where
  "oci_status m = status_of (mc_dir m) (mc_init m)"

lemma status_simps [simp]: "status_of None i = No_Container" "status_of (Some c) None = Stopped"
  "status_of (Some c) (Some (p, Parked)) = Created" "status_of (Some c) (Some (p, Released)) = Running"
  "status_of (Some c) (Some (p, Ended)) = Stopped"
  by (simp_all add: status_of_def)

lemma status_dead: "\<forall>p. \<not> alive_in i p \<Longrightarrow> status_of (Some c) i = Stopped"
  by (auto simp: status_of_def alive_in_def split: option.split phase.split)

lemma status_live: "alive_in i p \<Longrightarrow> status_of (Some c) i \<in> {Created, Running}"
  by (auto simp: alive_in_def)

definition has_dir :: "spawn_result \<Rightarrow> bool" where
  "has_dir r \<longleftrightarrow> ss_dir (fst r) \<noteq> None"

lemma has_dir_guarded: "ss_dir (cl s) \<noteq> None \<Longrightarrow> (\<And>a. has_dir (f a)) \<Longrightarrow> has_dir (guarded cl r s f)"
  by (cases r) (simp_all add: has_dir_def)

lemma cleanup_keeps_dir: "ss_dir (cleanup_failed_spawn T ok cid b False s) = None \<longleftrightarrow> ss_dir s = None"
  by (simp add: cleanup_failed_spawn_def Let_def)

lemma record_has_dir: "ss_dir s \<noteq> None \<Longrightarrow> has_dir (spawn_record J T k cid b plan comm ext_pid False init s)"
  unfolding spawn_record_def Let_def
  by (intro has_dir_guarded) (simp_all add: cleanup_keeps_dir has_dir_def del: not_None_eq)

lemma clone_has_dir: "ss_dir s \<noteq> None \<Longrightarrow> has_dir (spawn_clone J T k cid b plan comm ext_pid False s)"
  unfolding spawn_clone_def Let_def case_prod_unfold
  by (intro has_dir_guarded record_has_dir) simp_all

lemma spawn_has_dir:
  "ss_dir s \<noteq> None \<Longrightarrow> has_dir (spawn_container_init J T k cid b spec ext_pid ext console no_pivot d source False s)"
  unfolding spawn_container_init_def Let_def
  by (intro has_dir_guarded clone_has_dir) (simp_all add: cleanup_keeps_dir del: not_None_eq split: option.split)

lemma activate_has_dir:
  assumes "cmd_activate J T ce k alive merged cid ext d s = (s', x)" "ss_dir s = Some c"
  obtains c' where "ss_dir s' = Some c'"
  using activate_cases [OF assms(1)] assms(2)
proof (elim disjE exE conjE)
  fix b spec rootfs
  assume "spawn_container_init J T k cid b spec False ext None False d (Prepared_Rootfs rootfs) False s = (s', x)"
  with spawn_has_dir [of s J T k cid b spec False ext None False d "Prepared_Rootfs rootfs"] assms(2) that
  show thesis by (auto simp: has_dir_def)
qed (use that in simp)

lemma state_dir: "cmd_state J T ji alive cid d = (w, r) \<Longrightarrow> w = None \<longleftrightarrow> d = None"
  by (cases d) (auto simp: cmd_state_def Let_def split: option.splits if_splits)

lemma delete_kills: "cmd_delete J T k d cid force w = (w', es, r) \<Longrightarrow> Kill p \<in> set es \<Longrightarrow> force"
proof (cases w)
  case (Some c)
  assume run: "cmd_delete J T k d cid force w = (w', es, r)" and k: "Kill p \<in> set es"
  then have "delete_wait J T k d force c = (w', es, r)"
    using Some by (auto simp: cmd_delete_def split: prod.splits if_splits sum.splits)
  from delete_wait_facts [OF this] k show force by blast
qed (auto simp: cmd_delete_def split: if_splits)

context state_json
begin

lemma step_refines:
  assumes inv: "consistent J T cid m" and "step J T cid l m m'" and tidy: "\<not> mc_untidy m'" "\<not> mc_leftover m'"
  shows "oci_status m' = oci_status m \<or> oci_move l (oci_status m) (oci_status m')"
  using assms(2)
proof cases
  case (created ce k ext_pid ext console no_pivot d s r)
  show ?thesis
  proof (cases r)
    case (Inl e)
    with tidy created(2) have ok: "s \<noteq> spawn_state m \<Longrightarrow> bare_calls_ok k d" "s \<noteq> spawn_state m \<Longrightarrow> pe_destroy_ok k"
      by (simp_all add: bare_failure_def stuck_failure_def)
    from create_fails_clean [OF created(3) [unfolded Inl] ok(1)] ok(2)
    have "s = spawn_state m \<or> mc_dir m = None \<and> ss_dir s = None \<and> ss_init s = None" by auto
    then have "oci_status m' = oci_status m" unfolding created(2) oci_status_def by (elim disjE) simp_all
    then show ?thesis by (rule disjI1)
  next
    case (Inr pid)
    from create_result [OF created(3) [unfolded Inr]] obtain c where
      "mc_dir m = None" "ss_dir s = Some c" "ss_init s = Some pid" by auto
    then have "oci_status m = No_Container" "oci_status m' = Created" unfolding created(2) oci_status_def by simp_all
    then show ?thesis by (simp add: created(1))
  qed
next
  case (activated ce k merged ext d s r)
  show ?thesis
  proof (cases "\<exists>p. alive_in (mc_init m) p")
    case True
    then obtain p c where c: "valid_pid p" "mc_dir m = Some c" "names_init J T cid p c"
      using consistentE [OF inv] by metis
    from activate_needs_dead [OF c(3,1), of "spawn_state m" ce k "alive_in (mc_init m)" merged ext d] c(2) activated(3)
    have "s = spawn_state m" by auto
    then show ?thesis by (simp add: activated(2) oci_status_def)
  next
    case False
    show ?thesis
    proof (cases "mc_dir m")
      case None
      then have "s = spawn_state m" using activate_cases [OF activated(3)] by auto
      then show ?thesis by (simp add: activated(2) oci_status_def)
    next
      case (Some c)
      with activate_has_dir [OF activated(3)] obtain c' where "ss_dir s = Some c'" by auto
      with Some False status_dead show ?thesis
        by (cases "ss_init s") (auto simp: activated(1,2) oci_status_def)
    qed
  qed
next
  case (started k d w hs r p)
  from consistentE [OF inv, of p] started(4) obtain c where c: "mc_dir m = Some c" by auto
  have "w \<noteq> None" using started(3) unfolding c by (auto simp: cmd_start_def split: sum.splits if_splits)
  with c show ?thesis by (auto simp: started(1,2,4) oci_status_def)
next
  case (start_refused k d w hs r)
  then have "w = mc_dir m" by (auto simp: cmd_start_def split: option.splits sum.splits if_splits)
  then show ?thesis by (simp add: start_refused(2) oci_status_def)
next
  case (exited p ph)
  then show ?thesis by (cases "mc_dir m"; cases ph) (simp_all add: oci_status_def)
next
  case (queried ji w r)
  have "w = None \<longleftrightarrow> mc_dir m = None"
    by (rule state_dir [OF queried(3)])
  then show ?thesis by (cases w; cases "mc_dir m") (simp_all add: queried(2) oci_status_def status_of_def)
next
  case (frozen c cg b c' r)
  then show ?thesis by (simp add: oci_status_def status_of_def)
next
  case (deleted k d force w es r)
  show ?thesis
  proof (cases "\<exists>p. alive_in (mc_init m) p")
    case True
    then obtain p c where a: "alive_in (mc_init m) p" and c: "valid_pid p" "mc_dir m = Some c" "names_init J T cid p c"
      using consistentE [OF inv] by metis
    from a c(2) have live: "oci_status m \<in> {Created, Running}" using status_live [OF a] by (simp add: oci_status_def)
    show ?thesis
    proof (cases "Kill p \<in> set es")
      case True
      then have "force" using deleted(3) delete_kills [of J T k d cid force "mc_dir m" w es r p] by simp
      moreover have "status_of w (after_kills es (mc_init m)) \<in> {Stopped, No_Container}"
        using a True by (cases w) (auto simp: alive_in_def)
      ultimately show ?thesis using live by (simp add: oci_status_def deleted(1,2))
    next
      case False
      with delete_keeps [OF c(3,1), of k d force w es r] deleted(3,4) a c(2) have "w = Some c" by simp
      moreover have "after_kills es (mc_init m) = mc_init m" using a False by (auto simp: alive_in_def)
      ultimately show ?thesis using c by (simp add: oci_status_def deleted(2))
    qed
  next
    case False
    then have dead: "\<forall>p. \<not> alive_in (after_kills es (mc_init m)) p" using alive_kills by blast
    show ?thesis
    proof (cases "mc_dir m")
      case None
      then have "w = None" using deleted(3) by (auto simp: cmd_delete_def split: if_splits)
      with None show ?thesis by (simp add: oci_status_def deleted(2))
    next
      case (Some c)
      with False dead status_dead show ?thesis by (cases w) (simp_all add: oci_status_def deleted(1,2))
    qed
  qed
qed

end

section \<open>Properties\<close>

lemma live_kill:
  assumes "read_pid c = Ok p"
  shows "(\<forall>sig n. parse_signal sig = Ok n \<longrightarrow> fst (cmd_kill errno c sig) = Some (p, n)) \<and>
    (\<forall>sig e. parse_signal sig = Inl e \<longrightarrow> cmd_kill errno c sig = (None, Inl e))"
  using assms by (simp add: cmd_kill_def)

lemma parse_term: "parse_signal ''TERM'' = Ok 15"
  by (simp add: parse_signal_def signal_names_def ascii_upper_def char_of_def bit_simps Let_def)

text \<open>
  C9: As long as the init of a container lives, whatever commands ran before, in whatever order and
  with whatever outcomes, the directory is there, its pid file names that init, and its state file
  reads back with that pid and a status that is not stopped; except after a create or an activation
  that failed half way in an environment in which one of the calls without a clean-up closure fails
  (\<^verbatim>\<open>mc_untidy\<close>; orphan\_after\_bare\_failure shows what that does).
\<close>
theorem live_init_is_recorded:
  assumes "state_json J T" "reachable J T cid m" "\<not> mc_untidy m" "alive_in (mc_init m) p"
  shows "\<exists>c st comm. mc_dir m = Some c \<and> read_pid c = Ok p \<and>
    read_status_pid_comm J T c = (Some st, p, comm) \<and> st \<noteq> ''stopped''"
proof -
  note J = assms(1)
  from state_json.reachable_consistent [OF J assms(2,3)] assms(4) obtain c where
    c: "valid_pid p" "mc_dir m = Some c" "names_init J T cid p c" by (rule consistentE)
  with state_json.live_status [OF J c(3,1)] state_json.names_read_pid [OF J c(3,1)] show ?thesis by blast
qed

text \<open>
  C10: A live container cannot be lost or doubled: in every reachable state with a live init, unless an
  earlier create or activation failed half way in an environment in which one of the calls without a
  clean-up closure fails, create and activate fail and start no second init, a delete without force
  changes nothing and sends nothing, and a kill sends any signal it can parse to the init and
  nothing otherwise.
\<close>
theorem live_container_protected:
  assumes "state_json J T" "reachable J T cid m" "\<not> mc_untidy m" "alive_in (mc_init m) p"
  shows "(\<exists>e. cmd_create J T ce k cid x ext y z d (spawn_state m) = (spawn_state m, Inl e)) \<and>
    (\<exists>e. cmd_activate J T ce k (alive_in (mc_init m)) merged cid ext d (spawn_state m) = (spawn_state m, Inl e)) \<and>
    (de_alive kd = alive_in (mc_init m) \<longrightarrow>
       (\<exists>e. cmd_delete J T kd d cid False (mc_dir m) = (mc_dir m, [], Inl e))) \<and>
    (\<exists>c. mc_dir m = Some c \<and>
       (\<forall>sig n. parse_signal sig = Ok n \<longrightarrow> fst (cmd_kill errno c sig) = Some (p, n)) \<and>
       (\<forall>sig e. parse_signal sig = Inl e \<longrightarrow> cmd_kill errno c sig = (None, Inl e)))"
proof -
  from state_json.reachable_consistent [OF assms(1-3)] assms(4) obtain c where
    c: "valid_pid p" "mc_dir m = Some c" "names_init J T cid p c" by (rule consistentE)
  have "\<exists>e. cmd_create J T ce k cid x ext y z d (spawn_state m) = (spawn_state m, Inl e)"
    by (rule create_refused) (simp add: c)
  moreover have "\<exists>e. cmd_activate J T ce k (alive_in (mc_init m)) merged cid ext d (spawn_state m) = (spawn_state m, Inl e)"
    by (rule state_json.activate_needs_dead [OF assms(1) c(3,1)]) (simp add: c)
  moreover have "\<exists>e. cmd_delete J T kd d cid False (mc_dir m) = (mc_dir m, [], Inl e)" if "de_alive kd = alive_in (mc_init m)"
    using state_json.live_status [OF assms(1) c(3,1)] c(1,2) assms(4) that by (auto simp: cmd_delete_def valid_pid_def)
  ultimately show ?thesis
    using c(2) live_kill [OF state_json.names_read_pid [OF assms(1) c(3,1)]] by blast
qed

text \<open>
  C11: The runtime implements the lifecycle of the OCI specification: seen through the existence of the
  directory and the phase of the init, every command either changes nothing or makes the move the
  specification gives it; only create and activate make a container created, only start makes it
  running, only delete removes it, and only with force while it lives. This holds for every outcome of
  every command, on every run on which no create or activation failed half way in an environment in
  which a call without a clean-up closure fails (\<^verbatim>\<open>mc_untidy\<close>) or, for create, the removal of the
  directory fails (\<^verbatim>\<open>mc_leftover\<close>).
\<close>
theorem refines_oci_lifecycle:
  assumes "state_json J T" "reachable J T cid m" "step J T cid l m m'" "\<not> mc_untidy m'" "\<not> mc_leftover m'"
  shows "oci_status m' = oci_status m \<or> oci_move l (oci_status m) (oci_status m')"
proof -
  have "\<not> mc_untidy m" using step_keeps_flags(1) [OF assms(3)] assms(4) by blast
  from state_json.step_refines [OF assms(1) state_json.reachable_consistent [OF assms(1,2) this] assms(3-5)]
  show ?thesis .
qed

section \<open>A run\<close>

definition ready_start :: start_env where
  "ready_start = \<lparr>se_root = ''/run/rsrun/x'', se_now = 0, se_open = Ok (), se_write = Ok (), se_now2 = 0\<rparr>"

abbreviation (input) parked :: "cdir \<Rightarrow> machine" where
  "parked c \<equiv> \<lparr>mc_dir = Some c, mc_init = Some (7, Parked), mc_untidy = False, mc_leftover = False\<rparr>"

lemma sample_machine: "\<exists>c. step jv codec ''x'' Create_Cmd initial (parked c) \<and> read_pid c = Ok 7"
proof -
  obtain s where run: "cmd_create jv codec sample_create fine_env ''x'' False ext_default None False None
      \<lparr>ss_dir = None, ss_init = None\<rparr> = (s, Ok 7)"
    using sample_create_run [of jv codec None] by (metis prod.collapse)
  from create_result [OF this] obtain c where c: "ss_dir s = Some c" "ss_init s = Some 7" "cd_pid c = Some (dec_int 7)"
    by blast
  have run': "cmd_create jv codec sample_create fine_env ''x'' False ext_default None False None
      (spawn_state initial) = (s, Ok 7)"
    using run by (simp add: initial_def)
  have "step jv codec ''x'' Create_Cmd initial \<lparr>mc_dir = ss_dir s, mc_init = newer (ss_init s) (mc_init initial),
      mc_untidy = (mc_untidy initial \<or> bare_failure fine_env None (spawn_state initial) s (Ok 7)),
      mc_leftover = (mc_leftover initial \<or> stuck_failure fine_env (spawn_state initial) s (Ok 7))\<rparr>"
    by (rule created [OF run']) (simp add: c valid_pid_def)
  with c show ?thesis
    using read_pid_dec [of 7 c] by (auto simp: valid_pid_def bare_failure_def stuck_failure_def initial_def)
qed

theorem live_init_is_recorded_witness:
  "\<exists>m c. reachable jv codec ''x'' m \<and> alive_in (mc_init m) 7 \<and> mc_dir m = Some c \<and> read_pid c = Ok 7"
proof -
  obtain c where s: "step jv codec ''x'' Create_Cmd initial (parked c)"
    using sample_machine by blast
  have r: "reachable jv codec ''x'' (parked c)" by (rule move [OF start s])
  have a: "\<not> mc_untidy (parked c)" "alive_in (mc_init (parked c)) 7" by simp_all
  from live_init_is_recorded [OF codec.state_json_axioms r a] r a show ?thesis by blast
qed

theorem live_container_protected_witness:
  "\<exists>c. reachable jv codec ''x'' (parked c) \<and> fst (cmd_kill None c ''TERM'') = Some (7, 15)"
proof -
  obtain c where s: "step jv codec ''x'' Create_Cmd initial (parked c)"
    using sample_machine by blast
  have r: "reachable jv codec ''x'' (parked c)" by (rule move [OF start s])
  have a: "\<not> mc_untidy (parked c)" "alive_in (mc_init (parked c)) 7" by simp_all
  from live_container_protected [OF codec.state_json_axioms r a] r parse_term show ?thesis by auto
qed

theorem refines_oci_lifecycle_witness:
  "\<exists>c. oci_move Create_Cmd (oci_status initial) (oci_status (parked c))"
proof -
  obtain c where s: "step jv codec ''x'' Create_Cmd initial (parked c)"
    using sample_machine by blast
  have "\<not> mc_untidy (parked c)" "\<not> mc_leftover (parked c)" by simp_all
  from refines_oci_lifecycle [OF codec.state_json_axioms start s this] show ?thesis
    by (auto simp: oci_status_def initial_def)
qed

section \<open>The calls without a clean-up\<close>

abbreviation (input) pid_write_fails :: "io_error \<Rightarrow> spawn_env \<Rightarrow> spawn_env" where
  "pid_write_fails e k \<equiv> k\<lparr>pe_write_pid := Inl e\<rparr>"

definition unrecorded :: "cdir \<Rightarrow> bool" where
  "unrecorded c \<longleftrightarrow> cd_pid c = None \<and> cd_state c = None"

definition orphaned :: "io_error \<Rightarrow> int \<Rightarrow> spawn_result \<Rightarrow> bool" where
  "orphaned e pid r \<longleftrightarrow> snd r = Inl e \<and> ss_init (fst r) = Some pid \<and>
     (\<exists>c. ss_dir (fst r) = Some c \<and> unrecorded c)"

text \<open>A call that succeeded in the first run succeeds in the second.\<close>

lemma guarded_follow:
  "guarded cl r s f = (s0, Inr x) \<Longrightarrow> r' = r \<Longrightarrow> (\<And>a. f a = (s0, Inr x) \<Longrightarrow> orphaned e pid (g a)) \<Longrightarrow>
     orphaned e pid (guarded cl' r' s' g)"
  by (cases r) auto

lemma record_orphan:
  assumes "spawn_record J T k cid bundle plan comm ext_pid destroy init s = (s0, Ok pid)"
    and "ss_dir s = Some c" "unrecorded c" "ss_init s = Some init"
  shows "orphaned e pid (spawn_record J T (pid_write_fails e k) cid bundle plan comm ext_pid destroy init s)"
  using assms by (auto simp: spawn_record_def Let_def orphaned_def)

lemma clone_orphan:
  assumes "spawn_clone J T k cid bundle plan comm ext_pid destroy s = (s0, Ok pid)"
    and "ss_dir s = Some c" "unrecorded c"
  shows "orphaned e pid (spawn_clone J T (pid_write_fails e k) cid bundle plan comm ext_pid destroy s)"
  using assms(1) unfolding spawn_clone_def Let_def case_prod_unfold
  apply -
  apply (erule guarded_follow, simp)+
  apply (erule record_orphan)
  using assms(2,3) by simp_all

lemma spawn_orphan:
  assumes "spawn_container_init J T k cid bundle spec ext_pid ext console no_pivot d source destroy s = (s0, Ok pid)"
    and "ss_dir s = Some c" "unrecorded c"
  shows "orphaned e pid (spawn_container_init J T (pid_write_fails e k) cid bundle spec ext_pid ext console no_pivot d
      source destroy s)"
proof -
  have *: "\<exists>c. ss_dir (case overlay of None \<Rightarrow> on_dir (\<lambda>c. c\<lparr>cd_fifo := True\<rparr>) (on_dir (\<lambda>c. c\<lparr>cd_fifo := False\<rparr>) s)
       | Some (m :: string, t) \<Rightarrow> on_dir (\<lambda>c. c\<lparr>cd_overlay := Some t\<rparr>)
          (on_dir (\<lambda>c. c\<lparr>cd_fifo := True\<rparr>) (on_dir (\<lambda>c. c\<lparr>cd_fifo := False\<rparr>) s))) = Some c \<and> unrecorded c" for overlay
    using assms(2,3) by (auto simp: unrecorded_def split: option.split)
  show ?thesis
    using assms(1) unfolding spawn_container_init_def Let_def
    apply -
    apply (erule guarded_follow, simp split: rootfs_source.split)+
    apply (rule exE [OF *])
    apply (erule clone_orphan, blast, blast)
    done
qed

lemma create_orphan:
  assumes "cmd_create J T ce k cid ext_pid ext console no_pivot d \<lparr>ss_dir = None, ss_init = None\<rparr> = (s0, Ok pid)"
  shows "orphaned e pid (cmd_create J T ce (pid_write_fails e k) cid ext_pid ext console no_pivot d
      \<lparr>ss_dir = None, ss_init = None\<rparr>)"
proof -
  from assms obtain b spec where run: "spawn_container_init J T k cid b spec ext_pid ext console no_pivot d
      Bundle_Configured True \<lparr>ss_dir = Some empty_cdir, ss_init = None\<rparr> = (s0, Ok pid)"
    and same: "cmd_create J T ce (pid_write_fails e k) cid ext_pid ext console no_pivot d \<lparr>ss_dir = None, ss_init = None\<rparr> =
      spawn_container_init J T (pid_write_fails e k) cid b spec ext_pid ext console no_pivot d
      Bundle_Configured True \<lparr>ss_dir = Some empty_cdir, ss_init = None\<rparr>"
    by (auto simp: cmd_create_def)
  have "unrecorded empty_cdir" by (simp add: unrecorded_def empty_cdir_def)
  from spawn_orphan [OF run _ this, of e] same show ?thesis by simp
qed

lemma unrecorded_delete:
  assumes "unrecorded c" "cmd_delete J T kd d cid force (Some c) = (w, es, r)"
  shows "Kill q \<notin> set es"
proof -
  have pid: "\<exists>x. read_pid c = Inl x" using assms(1) by (simp add: unrecorded_def read_pid_def)
  from assms(2) consider "es = []" | "delete_finish J T kd d c = (w, es, r)"
    using pid by (auto simp: cmd_delete_def delete_wait_def split: prod.splits if_splits sum.splits)
  then show ?thesis
  proof cases
    case 2
    from delete_finish_facts [OF this] show ?thesis by blast
  qed simp
qed

lemma unrecorded_quiet_delete:
  assumes "unrecorded c"
  shows "\<exists>es. cmd_delete J T (quiet_delete True) None cid False (Some c) = (None, es, Ok ())"
  using assms
  by (simp add: unrecorded_def cmd_delete_def quiet_delete_def delete_wait_def delete_finish_def read_pid_def
      read_status_pid_comm_def deadline_check_def Let_def)

text \<open>
  C12: What the refinement has to leave out. Take any create that succeeds and let only the first write
  after its clone fail, that of the pid file: create reports that error, but the init it cloned stays
  parked on the fifo, and the directory it leaves has neither a pid file nor a state file. No delete of
  that directory, forced or not, sends a signal to any process, and a delete without force whose calls
  succeed removes the directory: the init outlives its container.
\<close>
theorem orphan_after_bare_failure:
  assumes "cmd_create J T ce k cid ext_pid ext console no_pivot d \<lparr>ss_dir = None, ss_init = None\<rparr> = (s0, Ok pid)"
  shows "\<exists>s c. cmd_create J T ce (k\<lparr>pe_write_pid := Inl e\<rparr>) cid ext_pid ext console no_pivot d
      \<lparr>ss_dir = None, ss_init = None\<rparr> = (s, Inl e) \<and>
    ss_init s = Some pid \<and> ss_dir s = Some c \<and> cd_pid c = None \<and> cd_state c = None \<and>
    (\<forall>kd d' force w es r q. cmd_delete J T kd d' cid force (Some c) = (w, es, r) \<longrightarrow> Kill q \<notin> set es) \<and>
    (\<exists>es. cmd_delete J T (quiet_delete True) None cid False (Some c) = (None, es, Ok ()))"
proof -
  from create_orphan [OF assms, of e] obtain s c where s:
    "cmd_create J T ce (k\<lparr>pe_write_pid := Inl e\<rparr>) cid ext_pid ext console no_pivot d \<lparr>ss_dir = None, ss_init = None\<rparr> = (s, Inl e)"
    "ss_init s = Some pid" "ss_dir s = Some c" and c: "unrecorded c"
    unfolding orphaned_def by (metis prod.collapse)
  have "cd_pid c = None" "cd_state c = None" using c by (simp_all add: unrecorded_def)
  then show ?thesis
    using s unrecorded_delete [OF c] unrecorded_quiet_delete [OF c] by (intro exI [of _ s] exI [of _ c]) blast
qed

theorem orphan_after_bare_failure_witness:
  "\<exists>s. cmd_create jv codec sample_create (fine_env\<lparr>pe_write_pid := Inl (os_error 28)\<rparr>) ''x'' False ext_default None False None
      \<lparr>ss_dir = None, ss_init = None\<rparr> = (s, Inl (os_error 28)) \<and> ss_init s = Some 7"
proof -
  obtain s where run: "cmd_create jv codec sample_create fine_env ''x'' False ext_default None False None
      \<lparr>ss_dir = None, ss_init = None\<rparr> = (s, Ok 7)"
    using sample_create_run [of jv codec None] by (metis prod.collapse)
  from orphan_after_bare_failure [OF run, of "os_error 28"] show ?thesis by blast
qed

end
