(* ===== verification/Ext_Compile.thy ===== *)
theory Ext_Compile
  imports Devices Cgroup Hooks_Compile State_Files
begin

text \<open>
  \<^verbatim>\<open>rsrun_ext::compile\<close>, which puts the four extension compilers together, and \<^verbatim>\<open>Spec::from_bundle\<close>,
  which reads the configuration it works on. All features are on, as in the default build.
\<close>

definition linux_field :: "'v json_api \<Rightarrow> 'v spec \<Rightarrow> string \<Rightarrow> 'v option" where
  "linux_field J spec k = and_then (jget J (sp_raw spec) ''linux'') (\<lambda>l. jget J l k)"

definition ext_compile :: "'v json_api \<Rightarrow> target \<Rightarrow> bool \<Rightarrow> 'v spec \<Rightarrow> string \<Rightarrow> ext_plan io_result" where
  "ext_compile J t v2 spec container_id =
     rbind (seccomp_compile J t (linux_field J spec ''seccomp'')) (\<lambda>seccomp_bpf.
     let cg = cgroup_compile J v2 (linux_field J spec ''resources'') container_id in
     rbind (devices_compile J (linux_field J spec ''resources'') (linux_field J spec ''devices'')) (\<lambda>device_cgroup_bpf.
     rbind (hooks_compile J (jget J (sp_raw spec) ''hooks'')) (\<lambda>hooks.
     Ok \<lparr>ep_seccomp_bpf = seccomp_bpf, ep_cgroup_v2_path = fst cg, ep_cgroup_v2_writes = snd cg,
       ep_device_cgroup_bpf = device_cgroup_bpf, ep_hooks = hooks\<rparr>)))"

text \<open>The files of the host, by path.\<close>

type_synonym reader = "string \<Rightarrow> string io_result"

definition from_bundle :: "'v json_api \<Rightarrow> 'v json_text \<Rightarrow> reader \<Rightarrow> string \<Rightarrow> 'v spec io_result" where
  "from_bundle J T read bundle =
     rbind (read (path_join bundle ''config.json'')) (\<lambda>bytes.
     rbind (ok_or (jt_parse T bytes) (IoError InvalidData ''json'')) (\<lambda>v.
     spec_from_value J v bundle))"

text \<open>Whether the extensions compile does not depend on the identifier of the container.\<close>

lemma devices_compile_ok: "\<exists>p. devices_compile J r x = Ok p"
  by (simp add: devices_compile_def Let_def)

lemma ext_compile_ok:
  "is_ok (ext_compile J t v2 spec cid) \<longleftrightarrow>
     is_ok (seccomp_compile J t (linux_field J spec ''seccomp'')) \<and> is_ok (hooks_compile J (jget J (sp_raw spec) ''hooks''))"
  using devices_compile_ok [of J "linux_field J spec ''resources''" "linux_field J spec ''devices''"]
  by (cases "seccomp_compile J t (linux_field J spec ''seccomp'')"; cases "hooks_compile J (jget J (sp_raw spec) ''hooks'')")
    (auto simp: ext_compile_def Let_def)

lemma ext_compile_any_id: "is_ok (ext_compile J t v2 spec cid) \<Longrightarrow> is_ok (ext_compile J t v2' spec cid')"
  by (simp add: ext_compile_ok)

end
