(* ===== verification/Cli_Validate.thy ===== *)
theory Cli_Validate
  imports Ext_Compile Spawn
begin

text \<open>
  \<^verbatim>\<open>rsrun validate-bundle\<close> of \<^verbatim>\<open>rsrun-cli/src/main.rs\<close>: the reasons a bundle is refused for, each check
  in the order of the source, and what acceptance promises for a later create.
\<close>

section \<open>The checks\<close>

text \<open>\<^verbatim>\<open>value["linux"]\<close>, or \<^verbatim>\<open>null\<close>; a chain of two \<^verbatim>\<open>get\<close>s.\<close>

definition get_or_null :: "'v json_api \<Rightarrow> 'v \<Rightarrow> string \<Rightarrow> 'v" where
  "get_or_null J v k = unwrap_or (jget J v k) (jnull J)"

definition get2 :: "'v json_api \<Rightarrow> 'v \<Rightarrow> string \<Rightarrow> string \<Rightarrow> 'v option" where
  "get2 J v a b = and_then (jget J v a) (\<lambda>x. jget J x b)"

definition reason_if :: "bool \<Rightarrow> string \<Rightarrow> string list" where
  "reason_if b r = (if b then [r] else [])"

definition rlimit_reason :: "'v json_api \<Rightarrow> 'v \<Rightarrow> string option" where
  "rlimit_reason J rlimit =
     (case (get_u64 J rlimit ''soft'', get_u64 J rlimit ''hard'') of
        (Some soft, Some hard) \<Rightarrow>
          if hard < soft
          then Some (''process.rlimits['' @ unwrap_or (get_str J rlimit ''type'') ''unknown'' @ ''] has soft greater than hard'')
          else None
      | _ \<Rightarrow> None)"

definition validate_rlimits :: "'v json_api \<Rightarrow> 'v \<Rightarrow> string list" where
  "validate_rlimits J value =
     (case and_then (get2 J value ''process'' ''rlimits'') (jas_array J) of
        None \<Rightarrow> [] | Some rlimits \<Rightarrow> filter_map (rlimit_reason J) rlimits)"

definition has_ns :: "'v json_api \<Rightarrow> 'v \<Rightarrow> string \<Rightarrow> bool" where
  "has_ns J value name =
     (case and_then (get2 J value ''linux'' ''namespaces'') (jas_array J) of
        None \<Rightarrow> False | Some items \<Rightarrow> (\<exists>ns \<in> set items. get_str J ns ''type'' = Some name))"

definition sysctl_reasons :: "'v json_api \<Rightarrow> 'v \<Rightarrow> string \<Rightarrow> string list" where
  "sysctl_reasons J value key =
     reason_if (starts_with key ''net.'' \<and> \<not> has_ns J value ''network'')
       (''linux.sysctl.'' @ key @ '' requires a network namespace'') @
     reason_if (key \<in> {''kernel.hostname'', ''kernel.domainname''} \<and> \<not> has_ns J value ''uts'')
       (''linux.sysctl.'' @ key @ '' requires a UTS namespace'')"

definition set_hostname :: "'v json_api \<Rightarrow> 'v \<Rightarrow> bool" where
  "set_hostname J value = (nonempty (get_str J value ''hostname'') \<noteq> None)"

definition validate_sysctls :: "'v json_api \<Rightarrow> 'v \<Rightarrow> string list" where
  "validate_sysctls J value =
     (case and_then (get2 J value ''linux'' ''sysctl'') (jas_object J) of
        None \<Rightarrow> []
      | Some sysctls \<Rightarrow>
          reason_if (set_hostname J value \<and> ''kernel.hostname'' \<in> set (map fst sysctls))
            ''linux.sysctl.kernel.hostname conflicts with hostname'' @
          concat (map (sysctl_reasons J value) (map fst sysctls)))"

definition is_recursive_mount_attr :: "string \<Rightarrow> bool" where
  "is_recursive_mount_attr option =
     (option \<in> set [''rro'', ''rrw'', ''rnoexec'', ''rexec'', ''rnosuid'', ''rsuid'', ''rnodev'', ''rdev'', ''rrelatime'',
        ''rnorelatime'', ''rnoatime'', ''ratime'', ''rnodiratime'', ''rdiratime''])"

definition option_reasons :: "string \<Rightarrow> string \<Rightarrow> string list" where
  "option_reasons dest option =
     reason_if (option = ''tmpcopyup'') (''mount option tmpcopyup is not supported for '' @ dest) @
     reason_if (is_recursive_mount_attr option)
       (''recursive mount option '' @ option @ '' is not supported for '' @ dest)"

definition mount_reasons :: "'v json_api \<Rightarrow> 'v \<Rightarrow> string list" where
  "mount_reasons J mount =
     (let dest = unwrap_or (get_str J mount ''destination'') ''<unknown>''
      in case get_array J mount ''options'' of
           None \<Rightarrow> [] | Some options \<Rightarrow> concat (map (option_reasons dest) (filter_map (jas_str J) options)))"

definition validate_mount_options :: "'v json_api \<Rightarrow> 'v \<Rightarrow> string list" where
  "validate_mount_options J value =
     (case get_array J value ''mounts'' of None \<Rightarrow> [] | Some mounts \<Rightarrow> concat (map (mount_reasons J) mounts))"

text \<open>\<open>v2\<close>: whether \<^verbatim>\<open>/sys/fs/cgroup/cgroup.controllers\<close> exists.\<close>

definition collect_validation_reasons :: "'v json_api \<Rightarrow> bool \<Rightarrow> 'v \<Rightarrow> string list" where
  "collect_validation_reasons J v2 value =
     (let linux = get_or_null J value ''linux'' in
      reason_if (jget J linux ''resources'' \<noteq> None \<and> \<not> v2) ''cgroup v2 is not available on this host'' @
      reason_if (nonempty (get_str J linux ''mountLabel'') \<noteq> None) ''linux.mountLabel is not supported'' @
      concat (map (\<lambda>key. reason_if (jget J linux key \<noteq> None) (''linux.'' @ key @ '' is not supported''))
        [''intelRdt'', ''memoryPolicy'', ''timeOffsets'']) @
      reason_if (get2 J value ''process'' ''consoleSize'' \<noteq> None) ''process.consoleSize is not supported'' @
      reason_if (get2 J value ''process'' ''ioPriority'' \<noteq> None) ''process.ioPriority is not supported'' @
      (if get2 J value ''process'' ''rlimits'' \<noteq> None then validate_rlimits J value else []) @
      validate_sysctls J value @
      validate_mount_options J value)"

section \<open>validate-bundle\<close>

definition compile_reasons :: "'v json_api \<Rightarrow> target \<Rightarrow> bool \<Rightarrow> 'v spec io_result \<Rightarrow> string list" where
  "compile_reasons J t v2 spec =
     (case spec of
        Inl e \<Rightarrow> [''config.json is not supported: '' @ message_of e]
      | Inr s \<Rightarrow>
          (case ext_compile J t v2 s ''validate'' of
             Inl e \<Rightarrow> [''extension plan compile failed: '' @ message_of e] | Inr _ \<Rightarrow> []))"

definition bundle_reasons :: "'v json_api \<Rightarrow> 'v json_text \<Rightarrow> reader \<Rightarrow> target \<Rightarrow> bool \<Rightarrow> string \<Rightarrow> string list" where
  "bundle_reasons J T read t v2 canonical =
     compile_reasons J t v2 (from_bundle J T read canonical) @
     (case read (path_join canonical ''config.json'') of
        Inl _ \<Rightarrow> [''config.json is missing or invalid JSON''] @ collect_validation_reasons J v2 (jnull J)
      | Inr bytes \<Rightarrow>
          (case jt_parse T bytes of
             None \<Rightarrow> [''config.json is missing or invalid JSON''] @ collect_validation_reasons J v2 (jnull J)
           | Some value \<Rightarrow> collect_validation_reasons J v2 value))"

text \<open>The lines printed, and the result; \<open>canonical\<close> is the outcome of \<^verbatim>\<open>canonicalize\<close>.\<close>

definition validation_lines :: "'v json_api \<Rightarrow> 'v json_text \<Rightarrow> bool \<Rightarrow> string list \<Rightarrow> string list" where
  "validation_lines J T json reasons =
     (if json then [jt_print T (jobj J [(''supported'', jbool J (reasons = [])), (''reasons'', jarr J (map (jstr J) reasons)),
         (''safe_to_fallback'', jbool J (reasons \<noteq> []))])]
      else if reasons = [] then [''supported'']
      else ''unsupported'' # map ((@) ''- '') reasons)"

definition validate_bundle ::
  "'v json_api \<Rightarrow> 'v json_text \<Rightarrow> reader \<Rightarrow> target \<Rightarrow> bool \<Rightarrow> string io_result \<Rightarrow> bool \<Rightarrow> string list \<times> unit io_result" where
  "validate_bundle J T read t v2 canonical json =
     (case canonical of
        Inl e \<Rightarrow> ([], Inl e)
      | Inr dir \<Rightarrow>
          (let reasons = bundle_reasons J T read t v2 dir
           in (validation_lines J T json reasons,
               if reasons = [] then Ok () else Err Other ''bundle is not fully supported'')))"

section \<open>create and activate of the command line\<close>

text \<open>\<^verbatim>\<open>create_with_ext\<close> up to the call of the core: the extension plan it hands over.\<close>

definition create_with_ext ::
  "'v json_api \<Rightarrow> 'v json_text \<Rightarrow> reader \<Rightarrow> target \<Rightarrow> bool \<Rightarrow> string io_result \<Rightarrow> string \<Rightarrow> ext_plan io_result" where
  "create_with_ext J T read t v2 canonical cid =
     rbind canonical (\<lambda>dir. rbind (from_bundle J T read dir) (\<lambda>spec. ext_compile J t v2 spec cid))"

definition stored_bundle_for_container :: "'v json_api \<Rightarrow> 'v json_text \<Rightarrow> cdir \<Rightarrow> string io_result" where
  "stored_bundle_for_container J T c =
     rbind (read_json_state T c) (\<lambda>value.
       ok_or (nonempty (get_str J value ''bundle'')) (IoError Other ''activate requires --bundle because stored bundle is empty''))"

definition activate_with_ext ::
  "'v json_api \<Rightarrow> 'v json_text \<Rightarrow> reader \<Rightarrow> target \<Rightarrow> bool \<Rightarrow> (string \<Rightarrow> string io_result) \<Rightarrow> string option \<Rightarrow> cdir \<Rightarrow> string \<Rightarrow>
   (string \<times> ext_plan) io_result" where
  "activate_with_ext J T read t v2 canonicalize bundle c cid =
     rbind (case bundle of Some path \<Rightarrow> canonicalize path
            | None \<Rightarrow> rbind (stored_bundle_for_container J T c) canonicalize) (\<lambda>dir.
     rbind (from_bundle J T read dir) (\<lambda>spec.
     rbind (ext_compile J t v2 spec cid) (\<lambda>ext. Ok (dir, ext))))"

section \<open>What is accepted\<close>

lemma reason_if_Nil [simp]: "reason_if b r = [] \<longleftrightarrow> \<not> b"
  by (simp add: reason_if_def)

lemma filter_map_Nil: "filter_map f xs = [] \<longleftrightarrow> (\<forall>x \<in> set xs. f x = None)"
  by (induction xs) (auto split: option.split)

lemma rlimit_fine: "rlimit_reason J r = None \<longleftrightarrow>
    (\<forall>soft hard. get_u64 J r ''soft'' = Some soft \<and> get_u64 J r ''hard'' = Some hard \<longrightarrow> soft \<le> hard)"
  by (auto simp: rlimit_reason_def not_less split: option.split)

definition namespaced_sysctl :: "'v json_api \<Rightarrow> 'v \<Rightarrow> string \<Rightarrow> bool" where
  "namespaced_sysctl J value key \<longleftrightarrow>
     (starts_with key ''net.'' \<longrightarrow> has_ns J value ''network'') \<and>
     (key \<in> {''kernel.hostname'', ''kernel.domainname''} \<longrightarrow> has_ns J value ''uts'')"

definition plain_option :: "string \<Rightarrow> bool" where
  "plain_option option \<longleftrightarrow> option \<noteq> ''tmpcopyup'' \<and> \<not> is_recursive_mount_attr option"

lemma sysctl_fine: "sysctl_reasons J value key = [] \<longleftrightarrow> namespaced_sysctl J value key"
  by (auto simp: sysctl_reasons_def namespaced_sysctl_def)

lemma mount_fine: "mount_reasons J m = [] \<longleftrightarrow>
    (\<forall>opts. get_array J m ''options'' = Some opts \<longrightarrow> (\<forall>opt \<in> set (filter_map (jas_str J) opts). plain_option opt))"
  by (auto simp: mount_reasons_def option_reasons_def plain_option_def Let_def split: option.split)

lemma rlimits_fine: "validate_rlimits J value = [] \<longleftrightarrow>
    (\<forall>rs. and_then (get2 J value ''process'' ''rlimits'') (jas_array J) = Some rs \<longrightarrow>
       (\<forall>r \<in> set rs. \<forall>soft hard. get_u64 J r ''soft'' = Some soft \<and> get_u64 J r ''hard'' = Some hard \<longrightarrow> soft \<le> hard))"
  unfolding validate_rlimits_def
  by (cases "and_then (get2 J value ''process'' ''rlimits'') (jas_array J)")
    (simp_all add: filter_map_Nil rlimit_fine del: and_then_Some and_then_None)

lemma sysctls_fine: "validate_sysctls J value = [] \<longleftrightarrow>
    (\<forall>ss. and_then (get2 J value ''linux'' ''sysctl'') (jas_object J) = Some ss \<longrightarrow>
       \<not> (set_hostname J value \<and> ''kernel.hostname'' \<in> set (map fst ss)) \<and>
       (\<forall>key \<in> set (map fst ss). namespaced_sysctl J value key))"
  unfolding validate_sysctls_def
  by (cases "and_then (get2 J value ''linux'' ''sysctl'') (jas_object J)")
    (auto simp: sysctl_fine simp del: and_then_Some and_then_None)

lemma options_fine: "validate_mount_options J value = [] \<longleftrightarrow>
    (\<forall>ms. get_array J value ''mounts'' = Some ms \<longrightarrow> (\<forall>m \<in> set ms. \<forall>opts. get_array J m ''options'' = Some opts \<longrightarrow>
       (\<forall>opt \<in> set (filter_map (jas_str J) opts). plain_option opt)))"
  unfolding validate_mount_options_def
  by (cases "get_array J value ''mounts''") (simp_all add: mount_fine)

text \<open>
  What the checks of validate-bundle accept, exactly: cgroup v2 when resources are asked for, none of
  the unsupported fields, no resource limit with its soft value above its hard value, every network or
  host name sysctl together with its namespace and none that contradicts the host name, and none of the
  mount options of its list.
\<close>
theorem validation_exact:
  "collect_validation_reasons J v2 value = [] \<longleftrightarrow>
     (let linux = get_or_null J value ''linux'' in
      (jget J linux ''resources'' \<noteq> None \<longrightarrow> v2) \<and> nonempty (get_str J linux ''mountLabel'') = None \<and>
      (\<forall>key \<in> {''intelRdt'', ''memoryPolicy'', ''timeOffsets''}. jget J linux key = None) \<and>
      (\<forall>key \<in> {''consoleSize'', ''ioPriority''}. get2 J value ''process'' key = None)) \<and>
     (\<forall>rs. and_then (get2 J value ''process'' ''rlimits'') (jas_array J) = Some rs \<longrightarrow>
        (\<forall>r \<in> set rs. \<forall>soft hard. get_u64 J r ''soft'' = Some soft \<and> get_u64 J r ''hard'' = Some hard \<longrightarrow> soft \<le> hard)) \<and>
     (\<forall>ss. and_then (get2 J value ''linux'' ''sysctl'') (jas_object J) = Some ss \<longrightarrow>
        \<not> (set_hostname J value \<and> ''kernel.hostname'' \<in> set (map fst ss)) \<and>
        (\<forall>key \<in> set (map fst ss). namespaced_sysctl J value key)) \<and>
     (\<forall>ms. get_array J value ''mounts'' = Some ms \<longrightarrow> (\<forall>m \<in> set ms. \<forall>opts. get_array J m ''options'' = Some opts \<longrightarrow>
        (\<forall>opt \<in> set (filter_map (jas_str J) opts). plain_option opt)))"
proof -
  have "(if get2 J value ''process'' ''rlimits'' \<noteq> None then validate_rlimits J value else []) = [] \<longleftrightarrow>
      validate_rlimits J value = []"
    by (simp add: validate_rlimits_def)
  then show ?thesis
    unfolding collect_validation_reasons_def Let_def append_is_Nil_conv rlimits_fine [symmetric] sysctls_fine [symmetric]
      options_fine [symmetric] by auto
qed

theorem validation_exact_witness:
  "collect_validation_reasons jv True (JObj [(''linux'', JObj [(''resources'', JObj [])]), (''mounts'', JArr [])]) = []"
  by (subst validation_exact) (simp add: get_or_null_def get2_def set_hostname_def get_defs nonempty_def)

text \<open>
  The list is not complete: four recursive attributes of the OCI specification are accepted.
\<close>
lemma recursive_options_gap:
  "opt \<in> {''rstrictatime'', ''rnostrictatime'', ''rsymfollow'', ''rnosymfollow''} \<Longrightarrow> option_reasons dest opt = []"
  by (auto simp: option_reasons_def is_recursive_mount_attr_def)

text \<open>
  C38: A bundle that validate-bundle accepts is not refused by the parser or by the extension compilers
  when it is created on the same host, whatever the identifier: the configuration parses, the seccomp
  profile, the device rules and the hooks compile.
\<close>
theorem validated_bundle_compiles:
  assumes "snd (validate_bundle J T read t v2 canonical json) = Ok ()"
  shows "is_ok (create_with_ext J T read t v2 canonical cid)"
proof -
  from assms obtain dir where dir: "canonical = Inr dir" "bundle_reasons J T read t v2 dir = []"
    by (auto simp: validate_bundle_def Let_def split: sum.splits if_splits)
  then have "compile_reasons J t v2 (from_bundle J T read dir) = []" by (simp add: bundle_reasons_def)
  then obtain spec where "from_bundle J T read dir = Inr spec" "is_ok (ext_compile J t v2 spec ''validate'')"
    by (auto simp: compile_reasons_def is_ok_def split: sum.splits)
  then show ?thesis using ext_compile_any_id [of J t v2 spec "''validate''" v2 cid] by (simp add: create_with_ext_def dir)
qed

text \<open>
  A bundle with a NUL in an argument: \<^verbatim>\<open>CompiledPlan::from_spec\<close> refuses it, and validate-bundle
  does not run it.
\<close>

definition nul_config :: jval where
  "nul_config = JObj [(''process'', JObj [(''args'', JArr [JStr [NUL]])]), (''root'', JObj [(''path'', JStr ''/rootfs'')])]"

definition nul_bundle :: reader where
  "nul_bundle p = Ok ''config''"

definition one_doc :: "jval \<Rightarrow> jval json_text" where
  "one_doc v = \<lparr>jt_parse = (\<lambda>_. Some v), jt_print = (\<lambda>_. []), jt_set = (\<lambda>v _ _. v), jt_str = json_escape\<rparr>"

lemma nul_spec: "\<exists>s. from_bundle jv (one_doc nul_config) nul_bundle ''/b'' = Ok s \<and> sp_args s = [[NUL]] \<and> sp_raw s = nul_config"
  by (simp add: from_bundle_def nul_bundle_def one_doc_def spec_from_value_def nul_config_def get_defs
      parse_rootfs_backend_def string_array_def Let_def)

lemma nul_compiles: "is_ok (ext_compile jv X86_64 True s cid)" if "sp_raw s = nul_config"
  by (simp add: ext_compile_ok linux_field_def that nul_config_def seccomp_compile_def hooks_compile_def)

lemma nul_reasons: "bundle_reasons jv (one_doc nul_config) nul_bundle X86_64 True ''/b'' = []"
proof -
  obtain s where s: "from_bundle jv (one_doc nul_config) nul_bundle ''/b'' = Ok s" "sp_raw s = nul_config"
    using nul_spec by blast
  have "collect_validation_reasons jv True nul_config = []"
    by (simp add: collect_validation_reasons_def nul_config_def get_or_null_def get2_def get_defs nonempty_def
        validate_sysctls_def validate_mount_options_def Let_def)
  moreover have "compile_reasons jv X86_64 True (Ok s) = []"
    using nul_compiles [OF s(2), of "''validate''"] by (auto simp: compile_reasons_def is_ok_def split: sum.splits)
  ultimately show ?thesis unfolding bundle_reasons_def s(1) by (simp add: nul_bundle_def one_doc_def)
qed

theorem validated_bundle_compiles_witness:
  "snd (validate_bundle jv (one_doc nul_config) nul_bundle X86_64 True (Ok ''/b'') False) = Ok () \<and>
   is_ok (create_with_ext jv (one_doc nul_config) nul_bundle X86_64 True (Ok ''/b'') ''c1'')"
proof -
  have "snd (validate_bundle jv (one_doc nul_config) nul_bundle X86_64 True (Ok ''/b'') False) = Ok ()"
    by (simp add: validate_bundle_def nul_reasons)
  with validated_bundle_compiles [OF this] show ?thesis by blast
qed

text \<open>
  The gap: there is a bundle that validate-bundle calls supported and whose plan create cannot compile.
\<close>
theorem validated_bundle_not_created:
  "\<exists>s. snd (validate_bundle jv (one_doc nul_config) nul_bundle X86_64 True (Ok ''/b'') False) = Ok () \<and>
     from_bundle jv (one_doc nul_config) nul_bundle ''/b'' = Ok s \<and> \<not> is_ok (from_spec s)"
proof -
  obtain s where s: "from_bundle jv (one_doc nul_config) nul_bundle ''/b'' = Ok s" "sp_args s = [[NUL]]"
    using nul_spec by blast
  have "\<not> is_ok (from_spec s)"
  proof
    assume "is_ok (from_spec s)"
    then obtain p where "from_spec s = Inr p" by (auto simp: is_ok_def split: sum.splits)
    then show False by (auto simp: from_spec_def s(2) cstr_def Let_def split: prod.splits)
  qed
  moreover have "snd (validate_bundle jv (one_doc nul_config) nul_bundle X86_64 True (Ok ''/b'') False) = Ok ()"
    by (simp add: validate_bundle_def nul_reasons)
  ultimately show ?thesis using s(1) by blast
qed

end
