(* ===== verification/Cli.thy ===== *)
theory Cli
  imports Cli_Validate Json_Codec
begin

text \<open>
  The command line of \<^verbatim>\<open>rsrun-cli/src/main.rs\<close>: the commands, how each is turned into a call of the core,
  which of them are re-executed from a protected copy of the binary first, and how the outcome is
  reported. Parsing the arguments themselves is \<^verbatim>\<open>clap\<close>'s; the model starts from its result.
\<close>

section \<open>Durations\<close>

definition duration_unit :: "string \<Rightarrow> string \<times> nat" where
  "duration_unit s =
     (case strip_suffix ''ms'' s of Some n \<Rightarrow> (n, 1)
      | None \<Rightarrow> (case strip_suffix ''s'' s of Some n \<Rightarrow> (n, 1000)
      | None \<Rightarrow> (case strip_suffix ''m'' s of Some n \<Rightarrow> (n, 60000)
      | None \<Rightarrow> (s, 1000))))"

definition checked_mul :: "u64 \<Rightarrow> nat \<Rightarrow> u64 option" where
  "checked_mul a m = (if unat a * m < 2 ^ 64 then Some (of_nat (unat a * m)) else None)"

definition parse_duration_ms :: "string \<Rightarrow> u64 io_result" where
  "parse_duration_ms s0 =
     (let s = trim s0 in
      if s = [] then Err Other ''empty duration''
      else
        let (num, mult) = duration_unit s in
        rbind (ok_or (parse_u64 num) (IoError Other (''bad duration: '' @ s))) (\<lambda>value.
        ok_or (checked_mul value mult) (IoError Other (''duration too large: '' @ s))))"

definition parse_optional_duration_ms :: "string option \<Rightarrow> u64 option io_result" where
  "parse_optional_duration_ms s = transpose_opt (map_option parse_duration_ms s)"

section \<open>Commands\<close>

record create_args =
  cr_bundle :: string
  cr_pid_file :: "string option"
  cr_console_socket :: "string option"
  cr_preserve_fds :: "u32 option"
  cr_no_pivot :: bool
  cr_timeout :: "string option"
  cr_id :: string

text \<open>The arguments that are accepted and unused are left out.\<close>

record exec_args =
  ex_process :: "string option"
  ex_pid_file :: "string option"
  ex_detach :: bool
  ex_timeout :: "string option"
  ex_kill_tree :: bool
  ex_max_output_bytes :: nat
  ex_json :: bool
  ex_stdin :: "string option"
  ex_console_socket :: "string option"
  ex_cwd :: "string option"
  ex_env :: "string list"
  ex_id :: string
  ex_command :: "string list"

datatype rollout_cmd =
    Reset bool string
  | Changed_Files bool string
  | Diff bool string
  | Export_Diff string string
  | Mark string string
  | Effects_Since string bool string
  | Snapshot string string
  | Checkpoint bool string string string
  | Export_Checkpoint string string
  | Import_Checkpoint bool string string
  | Restore bool string string
  | Fork_Checkpoint bool string string
  | Fork_State bool string string

datatype cli_cmd =
    Create create_args
  | Start "string option" string
  | Delete bool "string option" string
  | Rollout rollout_cmd
  | Activate "string option" bool "string option" string
  | State string
  | Kill_Cmd string string
  | Exec exec_args
  | Features
  | Validate_Bundle string bool
  | List
  | Spec
  | Pause string
  | Resume string
  | Update "string option" string
  | Stats string
  | Events bool string

section \<open>The calls of the core\<close>

record rollout_exec_opts =
  ro_timeout_ms :: "u64 option"
  ro_kill_tree :: bool
  ro_max_output_bytes :: nat
  ro_cwd :: "string option"
  ro_env :: "string list"
  ro_json :: bool
  ro_stdin :: "u8 list option"

datatype core_call =
    Call_Create string string "string option" "string option" u32 bool "u64 option"
  | Call_Start string "u64 option"
  | Call_Delete string bool "u64 option"
  | Call_Rollout rollout_cmd
  | Call_Activate string "string option" bool "u64 option"
  | Call_State string
  | Call_Kill string string
  | Call_Exec_Full string string "string option" bool "string option"
  | Call_Exec_Rollout string "string list" rollout_exec_opts
  | Call_Features
  | Call_Validate string bool
  | Call_List
  | Call_Pause string
  | Call_Resume string
  | Call_Update string "string option"
  | Call_Stats string
  | Call_Events string bool

text \<open>\<open>input\<close> reads a file, \<open>stdin\<close> the standard input.\<close>

definition read_exec_stdin ::
  "(string \<Rightarrow> u8 list io_result) \<Rightarrow> u8 list io_result \<Rightarrow> string option \<Rightarrow> u8 list option io_result" where
  "read_exec_stdin input stdin path =
     (case path of None \<Rightarrow> Ok None
      | Some p \<Rightarrow> rbind (if components p = components ''-'' then stdin else input p) (\<lambda>b. Ok (Some b)))"

definition dispatch_exec ::
  "(string \<Rightarrow> u8 list io_result) \<Rightarrow> u8 list io_result \<Rightarrow> exec_args \<Rightarrow> core_call io_result" where
  "dispatch_exec input stdin a =
     (if ex_command a \<noteq> [] then
        if ex_detach a then Err Other ''direct exec command form does not support --detach''
        else if ex_console_socket a \<noteq> None then Err Other ''direct exec command form does not support --console-socket''
        else
          rbind (parse_optional_duration_ms (ex_timeout a)) (\<lambda>timeout.
          rbind (read_exec_stdin input stdin (ex_stdin a)) (\<lambda>payload.
          Ok (Call_Exec_Rollout (ex_id a) (ex_command a)
            \<lparr>ro_timeout_ms = timeout, ro_kill_tree = ex_kill_tree a, ro_max_output_bytes = ex_max_output_bytes a,
             ro_cwd = ex_cwd a, ro_env = ex_env a, ro_json = ex_json a, ro_stdin = payload\<rparr>)))
      else
        rbind (ok_or (ex_process a) (IoError Other ''exec requires either -p/--process or a command after --'')) (\<lambda>process.
        Ok (Call_Exec_Full (ex_id a) process (ex_pid_file a) (ex_detach a) (ex_console_socket a))))"

definition with_timeout :: "string option \<Rightarrow> (u64 option \<Rightarrow> core_call) \<Rightarrow> core_call io_result" where
  "with_timeout timeout f = rbind (parse_optional_duration_ms timeout) (\<lambda>t. Ok (f t))"

fun dispatch :: "(string \<Rightarrow> u8 list io_result) \<Rightarrow> u8 list io_result \<Rightarrow> cli_cmd \<Rightarrow> core_call io_result" where
  "dispatch input stdin (Create a) = with_timeout (cr_timeout a)
     (Call_Create (cr_id a) (cr_bundle a) (cr_pid_file a) (cr_console_socket a) (unwrap_or (cr_preserve_fds a) 0) (cr_no_pivot a))"
| "dispatch input stdin (Start timeout cid) = with_timeout timeout (Call_Start cid)"
| "dispatch input stdin (Delete force timeout cid) = with_timeout timeout (Call_Delete cid force)"
| "dispatch input stdin (Rollout r) = Ok (Call_Rollout r)"
| "dispatch input stdin (Activate bundle json timeout cid) = with_timeout timeout (Call_Activate cid bundle json)"
| "dispatch input stdin (State cid) = Ok (Call_State cid)"
| "dispatch input stdin (Kill_Cmd cid signal) = Ok (Call_Kill cid signal)"
| "dispatch input stdin (Exec a) = dispatch_exec input stdin a"
| "dispatch input stdin Features = Ok Call_Features"
| "dispatch input stdin (Validate_Bundle bundle json) = Ok (Call_Validate bundle json)"
| "dispatch input stdin List = Ok Call_List"
| "dispatch input stdin Spec = Err Other ''spec subcommand not implemented''"
| "dispatch input stdin (Pause cid) = Ok (Call_Pause cid)"
| "dispatch input stdin (Resume cid) = Ok (Call_Resume cid)"
| "dispatch input stdin (Update resources cid) = Ok (Call_Update cid resources)"
| "dispatch input stdin (Stats cid) = Ok (Call_Stats cid)"
| "dispatch input stdin (Events stats cid) = Ok (Call_Events cid stats)"

fun command_needs_sealed_reexec :: "cli_cmd \<Rightarrow> bool" where
  "command_needs_sealed_reexec (Create _) = True"
| "command_needs_sealed_reexec (Exec _) = True"
| "command_needs_sealed_reexec (Activate _ _ _ _) = True"
| "command_needs_sealed_reexec _ = False"

section \<open>Reporting\<close>

definition zero_pad :: "nat \<Rightarrow> int \<Rightarrow> string" where
  "zero_pad w i =
     (let sign = (if i < 0 then ''-'' else ''''); ds = dec_nat (nat \<bar>i\<bar>)
      in sign @ replicate (w - length sign - length ds) (CHR ''0'') @ ds)"

text \<open>The fields of \<^verbatim>\<open>struct tm\<close>; \<open>None\<close> when \<^verbatim>\<open>gmtime_r\<close> fails.\<close>

record tm =
  tm_year :: int
  tm_mon :: int
  tm_mday :: int
  tm_hour :: int
  tm_min :: int
  tm_sec :: int

definition timestamp :: "tm option \<Rightarrow> string" where
  "timestamp t =
     (case t of None \<Rightarrow> ''1970-01-01T00:00:00Z''
      | Some t \<Rightarrow> zero_pad 4 (tm_year t + 1900) @ ''-'' @ zero_pad 2 (tm_mon t + 1) @ ''-'' @ zero_pad 2 (tm_mday t) @ ''T'' @
          zero_pad 2 (tm_hour t) @ '':'' @ zero_pad 2 (tm_min t) @ '':'' @ zero_pad 2 (tm_sec t) @ ''Z'')"

definition escape_quotes :: "string \<Rightarrow> string" where
  "escape_quotes s = concat (map (\<lambda>c. if c = QUOTE then [BACKSLASH, QUOTE] else [c]) s)"

definition error_line :: "bool \<Rightarrow> tm option \<Rightarrow> string \<Rightarrow> string" where
  "error_line json t msg =
     (if json then ''{\"level\":\"error\",\"time\":\"'' @ timestamp t @ ''\",\"msg\":\"'' @ escape_quotes msg @ ''\"}'' @ [CHR 10]
      else ''rsrun: '' @ msg @ [CHR 10])"

text \<open>The global options and the environment variables they set.\<close>

record cli =
  cli_root :: "string option"
  cli_log :: "string option"
  cli_log_format :: "string option"
  cli_systemd_cgroup :: bool
  cli_cmd :: cli_cmd

record cli_env =
  env_root :: "string option"
  env_json :: bool
  env_systemd :: bool

definition set_env :: "cli \<Rightarrow> cli_env \<Rightarrow> cli_env" where
  "set_env c e = \<lparr>env_root = (case cli_root c of Some p \<Rightarrow> Some p | None \<Rightarrow> env_root e),
     env_json = (env_json e \<or> cli_log_format c = Some ''json''),
     env_systemd = (env_systemd e \<or> cli_systemd_cgroup c)\<rparr>"

text \<open>Where standard error goes: \<^verbatim>\<open>--log\<close> redirects it once the binary is protected, if the file can be opened.\<close>

datatype sink = Stderr | Log_File string

definition redirect :: "(string \<Rightarrow> bool) \<Rightarrow> cli \<Rightarrow> sink" where
  "redirect opens c = (case cli_log c of None \<Rightarrow> Stderr | Some p \<Rightarrow> if opens p then Log_File p else Stderr)"

text \<open>
  \<open>reexec\<close> is the outcome of the protected re-execution when it returns, \<open>run\<close> the core under an
  environment. The result is the call that was made, the exit code and what is reported where.
\<close>

definition main ::
  "unit io_result \<Rightarrow> (string \<Rightarrow> bool) \<Rightarrow> (string \<Rightarrow> u8 list io_result) \<Rightarrow> u8 list io_result \<Rightarrow>
   (cli_env \<Rightarrow> core_call \<Rightarrow> unit io_result) \<Rightarrow> tm option \<Rightarrow> cli \<Rightarrow> cli_env \<Rightarrow> core_call option \<times> nat \<times> (sink \<times> string) option" where
  "main reexec opens input stdin run t c e =
     (case (if command_needs_sealed_reexec (cli_cmd c) then reexec else Ok ()) of
        Inl err \<Rightarrow> (None, 1, Some (Stderr, ''rsrun: CVE-2019-5736 mitigation failed: '' @ message_of err @ [CHR 10]))
      | Inr _ \<Rightarrow>
          (let e' = set_env c e; report = (\<lambda>err. Some (redirect opens c, error_line (env_json e') t (message_of err))) in
           case dispatch input stdin (cli_cmd c) of
             Inl err \<Rightarrow> (None, 1, report err)
           | Inr call \<Rightarrow> (Some call, case run e' call of Inr _ \<Rightarrow> (0, None) | Inl err \<Rightarrow> (1, report err))))"

definition sub_features :: "'v json_api \<Rightarrow> 'v" where
  "sub_features J =
     jobj J [(''ociVersionMin'', jstr J ''1.0.0''), (''ociVersionMax'', jstr J ''1.0.2''),
       (''linux'', jobj J [
          (''namespaces'', jarr J (map (jstr J) [''mount'', ''pid'', ''ipc'', ''uts'', ''network'', ''cgroup'', ''user''])),
          (''capabilities'', jnull J), (''cgroup'', jobj J []), (''seccomp'', jnull J), (''apparmor'', jnull J),
          (''selinux'', jnull J), (''intelRdt'', jnull J), (''mountExtensions'', jnull J)]),
       (''annotations'', jnull J), (''potentiallyUnsafeConfigAnnotations'', jnull J)]"

section \<open>Properties of durations\<close>

lemma letters_word [simp]: "set ''ms'' \<subseteq> word_chars" "set ''s'' \<subseteq> word_chars" "set ''m'' \<subseteq> word_chars"
  by (auto simp: word_chars_def)

lemma trim_duration: "u \<in> {''ms'', ''s'', ''m'', ''''} \<Longrightarrow> trim (dec_nat n @ u) = dec_nat n @ u"
  using set_dec_nat [of n] by (intro trim_word) (auto simp: word_chars_def)

lemma digits_end: "dec_nat n @ u = r @ [c] \<Longrightarrow> u = [] \<Longrightarrow> c \<in> ascii_digits"
  using set_dec_nat [of n] by auto

lemma no_suffix: "c \<notin> ascii_digits \<Longrightarrow> strip_suffix (p @ [c]) (dec_nat n) = None"
  using digits_end [of n "[]"] by (metis append.assoc append_Nil2 not_None_eq strip_suffix_iff)

lemma no_ms_before_s: "strip_suffix ''ms'' (dec_nat n @ ''s'') = None"
proof (rule ccontr)
  assume "strip_suffix ''ms'' (dec_nat n @ ''s'') \<noteq> None"
  then obtain r where "dec_nat n @ ''s'' = r @ ''ms''" by (auto simp: strip_suffix_iff)
  then have "dec_nat n = r @ ''m''" by simp
  then have "CHR ''m'' \<in> ascii_digits" using set_dec_nat [of n] by auto
  then show False by (simp add: ascii_digits_def)
qed

lemma other_suffix: "last u \<noteq> last p \<Longrightarrow> u \<noteq> [] \<Longrightarrow> p \<noteq> [] \<Longrightarrow> strip_suffix p (s @ u) = None"
  using strip_suffix_iff [of p "s @ u"] by (metis last_appendR not_None_eq)

definition unit_ms :: "string \<Rightarrow> nat" where
  "unit_ms u = (if u = ''ms'' then 1 else if u = ''m'' then 60000 else 1000)"

lemma duration_unit_dec:
  assumes "u \<in> {''ms'', ''s'', ''m'', ''''}"
  shows "duration_unit (dec_nat n @ u) = (dec_nat n, unit_ms u)"
proof -
  have e: "strip_suffix p (dec_nat n @ p) = Some (dec_nat n)" for p by (simp add: strip_suffix_iff)
  have d: "CHR ''s'' \<notin> ascii_digits" "CHR ''m'' \<notin> ascii_digits" by (simp_all add: ascii_digits_def)
  have plain: "strip_suffix ''ms'' (dec_nat n) = None" "strip_suffix ''s'' (dec_nat n) = None" "strip_suffix ''m'' (dec_nat n) = None"
    using no_suffix [OF d(1), of "''m''"] no_suffix [OF d(1), of "[]"] no_suffix [OF d(2), of "[]"] by simp_all
  have m: "strip_suffix ''ms'' (dec_nat n @ ''m'') = None" "strip_suffix ''s'' (dec_nat n @ ''m'') = None"
    by (rule other_suffix; simp)+
  from assms show ?thesis
    using e [of "''ms''"] e [of "''s''"] e [of "''m''"] plain m no_ms_before_s
    by (auto simp: duration_unit_def unit_ms_def)
qed

text \<open>
  Durations: a decimal number with one of the units \<^verbatim>\<open>ms\<close>, \<^verbatim>\<open>s\<close>, \<^verbatim>\<open>m\<close> or none (seconds) is read as its
  exact number of milliseconds, and when that number or its product does not fit 64 bits the duration is
  refused instead of wrapping around.
\<close>
theorem duration_exact:
  assumes "u \<in> {''ms'', ''s'', ''m'', ''''}"
  shows "parse_duration_ms (dec_nat n @ u) =
    (if n * unit_ms u < 2 ^ 64 then Ok (of_nat (n * unit_ms u))
     else if n < 2 ^ 64 then Err Other (''duration too large: '' @ dec_nat n @ u)
     else Err Other (''bad duration: '' @ dec_nat n @ u))"
proof -
  have one: "1 \<le> unit_ms u" by (simp add: unit_ms_def)
  then have le: "n \<le> n * unit_ms u" by simp
  have big: "parse_u64 (dec_nat n) = None" if "\<not> n < 2 ^ 64"
  proof -
    have "hd (dec_nat n) \<noteq> CHR ''+''" using dec_nat_hd [of n] plus_not_digit by metis
    then show ?thesis
      using that parse_show_base [of 10 n] by (cases "dec_nat n") (auto simp: parse_u64_def parse_unsigned_def dec_nat_def)
  qed
  have small: "parse_u64 (dec_nat n) = Some (of_nat n)" "unat (of_nat n :: u64) = n" if "n < 2 ^ 64"
    using that by (simp_all add: parse_u64_def parse_dec_nat unat_of_nat take_bit_nat_eq_self)
  show ?thesis
  proof (cases "n < 2 ^ 64")
    case True
    then show ?thesis
      unfolding parse_duration_ms_def trim_duration [OF assms] duration_unit_dec [OF assms] Let_def prod.case
      by (simp add: checked_mul_def small)
  next
    case False
    then have "\<not> n * unit_ms u < 2 ^ 64" using le by linarith
    with False show ?thesis
      unfolding parse_duration_ms_def trim_duration [OF assms] duration_unit_dec [OF assms] Let_def prod.case
      by (simp add: big)
  qed
qed

theorem duration_exact_witness:
  "parse_duration_ms (dec_nat 3 @ ''m'') = Ok 180000 \<and> \<not> is_ok (parse_duration_ms (dec_nat (2 ^ 63) @ ''s''))"
  using duration_exact [of "''m''" 3] duration_exact [of "''s''" "2 ^ 63"] by (simp add: unit_ms_def)

section \<open>Properties of the commands\<close>

text \<open>The calls that put a process derived from the runtime inside a container.\<close>

fun enters_container :: "core_call \<Rightarrow> bool" where
  "enters_container (Call_Create _ _ _ _ _ _ _) = True"
| "enters_container (Call_Activate _ _ _ _) = True"
| "enters_container (Call_Exec_Full _ _ _ _ _) = True"
| "enters_container (Call_Exec_Rollout _ _ _) = True"
| "enters_container _ = False"

lemma dispatch_enters: "dispatch input stdin c = Inr call \<Longrightarrow> enters_container call \<longleftrightarrow> command_needs_sealed_reexec c"
  by (cases c) (auto simp: with_timeout_def dispatch_exec_def split: if_splits)

text \<open>
  Protection against overwriting the runtime's binary (CVE-2019-5736): a call that puts a process of
  the runtime into a container is only ever made when the re-execution from a protected copy did not
  fail; no other command pays for it; and the exit code is 0 exactly when a call was made and succeeded.
\<close>
theorem entry_is_protected:
  assumes "main reexec opens input stdin run t c e = (call, xc, err)"
  shows "(\<forall>k. call = Some k \<longrightarrow> (enters_container k \<longleftrightarrow> command_needs_sealed_reexec (cli_cmd c)) \<and>
      (enters_container k \<longrightarrow> reexec = Ok ())) \<and>
    (\<not> command_needs_sealed_reexec (cli_cmd c) \<longrightarrow> main (Ok ()) opens input stdin run t c e = (call, xc, err)) \<and>
    (xc = 0 \<longleftrightarrow> (\<exists>k. call = Some k \<and> run (set_env c e) k = Ok ())) \<and> (xc = 0 \<longleftrightarrow> err = None)"
proof -
  show ?thesis
    using assms dispatch_enters [of input stdin "cli_cmd c"]
    by (cases "command_needs_sealed_reexec (cli_cmd c)"; cases reexec; cases "dispatch input stdin (cli_cmd c)")
      (auto simp: main_def Let_def split: sum.splits)
qed

definition plain_cli :: "cli_cmd \<Rightarrow> cli" where
  "plain_cli c = \<lparr>cli_root = None, cli_log = None, cli_log_format = None, cli_systemd_cgroup = False, cli_cmd = c\<rparr>"

definition no_env :: cli_env where
  "no_env = \<lparr>env_root = None, env_json = False, env_systemd = False\<rparr>"

theorem entry_is_protected_witness:
  "\<exists>call err. main (Err Other ''memfd'') (\<lambda>_. True) (\<lambda>_. Ok []) (Ok []) (\<lambda>_ _. Ok ()) None
     (plain_cli (Activate None False None ''x'')) no_env = (call, 1, err) \<and> call = None"
proof -
  obtain call xc err where r: "main (Err Other ''memfd'') (\<lambda>_. True) (\<lambda>_. Ok []) (Ok []) (\<lambda>_ _. Ok ()) None
     (plain_cli (Activate None False None ''x'')) no_env = (call, xc, err)" by (metis prod_cases3)
  then have "xc = 1" by (auto simp: main_def plain_cli_def)
  moreover have "call = None" using entry_is_protected [OF r] by (cases call) (auto simp: plain_cli_def)
  ultimately show ?thesis using r by blast
qed

section \<open>The JSON log line\<close>

definition log_safe :: "char \<Rightarrow> bool" where
  "log_safe c \<longleftrightarrow> c \<noteq> BACKSLASH \<and> 32 \<le> (of_char c :: nat)"

abbreviation quote_char :: "char \<Rightarrow> string" where
  "quote_char c \<equiv> (if c = QUOTE then [BACKSLASH, QUOTE] else [c])"

lemma quote_esc: "log_safe c \<Longrightarrow> quote_char c = esc_char c"
  by (auto simp: log_safe_def esc_char_def)

lemma quote_shorter: "length (quote_char c) \<le> length (esc_char c)" "\<not> log_safe c \<Longrightarrow> length (quote_char c) < length (esc_char c)"
  by (auto simp: log_safe_def esc_char_def)

lemma concat_shorter: "length (concat (map quote_char s)) \<le> length (concat (map esc_char s))"
  using quote_shorter(1) by (induction s) (simp_all add: add_mono)

lemma escape_exact: "QUOTE # escape_quotes s @ [QUOTE] = json_escape s \<longleftrightarrow> (\<forall>c \<in> set s. log_safe c)"
proof
  assume "\<forall>c \<in> set s. log_safe c"
  then show "QUOTE # escape_quotes s @ [QUOTE] = json_escape s"
    unfolding escape_quotes_def json_escape_def by (simp add: quote_esc cong: map_cong)
next
  assume "QUOTE # escape_quotes s @ [QUOTE] = json_escape s"
  then have "length (concat (map quote_char s)) = length (concat (map esc_char s))"
    by (simp add: escape_quotes_def json_escape_def)
  then show "\<forall>c \<in> set s. log_safe c"
  proof (induction s)
    case (Cons c s)
    have "length (quote_char c) = length (esc_char c)" "length (concat (map quote_char s)) = length (concat (map esc_char s))"
      using Cons.prems quote_shorter(1) [of c] concat_shorter [of s] by (simp_all split: if_splits)
    with Cons.IH quote_shorter(2) [of c] show ?case by auto
  qed simp
qed

definition log_object :: "string \<Rightarrow> string \<Rightarrow> jval" where
  "log_object time msg = JObj [(''level'', JStr ''error''), (''time'', JStr time), (''msg'', JStr msg)]"

lemma zero_pad_safe: "set (zero_pad w i) \<subseteq> insert (CHR ''-'') ascii_digits"
proof -
  have "CHR ''0'' \<in> ascii_digits" by (simp add: ascii_digits_def)
  then show ?thesis using set_dec_nat [of "nat \<bar>i\<bar>"] by (auto simp: zero_pad_def Let_def)
qed

lemma timestamp_safe: "c \<in> set (timestamp t) \<Longrightarrow> log_safe c \<and> c \<noteq> QUOTE"
proof -
  assume c: "c \<in> set (timestamp t)"
  have "set (timestamp t) \<subseteq> set ''-:TZ'' \<union> ascii_digits"
  proof (cases t)
    case None
    then show ?thesis by (auto simp: timestamp_def ascii_digits_def)
  next
    case (Some v)
    then show ?thesis using zero_pad_safe by (simp add: timestamp_def) blast
  qed
  with c show ?thesis by (auto simp: log_safe_def ascii_digits_def)
qed

lemma escape_none: "QUOTE \<notin> set s \<Longrightarrow> escape_quotes s = s"
  unfolding escape_quotes_def by (induction s) auto

lemma log_line_object:
  "error_line True t msg = put_val (log_object (timestamp t) msg) @ [CHR 10] \<longleftrightarrow> (\<forall>c \<in> set msg. log_safe c)"
proof -
  have safe: "\<forall>c \<in> set (timestamp t). log_safe c" "QUOTE \<notin> set (timestamp t)" using timestamp_safe by blast+
  have time: "json_escape (timestamp t) = QUOTE # timestamp t @ [QUOTE]"
    using escape_exact [THEN iffD2, OF safe(1)] by (simp only: escape_none [OF safe(2)])
  have words: "json_escape ''level'' = ''\"level\"''" "json_escape ''time'' = ''\"time\"''" "json_escape ''msg'' = ''\"msg\"''"
    "json_escape ''error'' = ''\"error\"''"
    by (simp_all add: json_escape_def esc_char_def)
  have "put_val (log_object (timestamp t) msg) @ [CHR 10] =
      ''{\"level\":\"error\",\"time\":\"'' @ timestamp t @ ''\",\"msg\":'' @ json_escape msg @ ''}'' @ [CHR 10]"
    by (simp add: log_object_def separated_def words time)
  moreover have "error_line True t msg =
      ''{\"level\":\"error\",\"time\":\"'' @ timestamp t @ ''\",\"msg\":'' @ (QUOTE # escape_quotes msg @ [QUOTE]) @ ''}'' @ [CHR 10]"
    by (simp add: error_line_def)
  ultimately have "error_line True t msg = put_val (log_object (timestamp t) msg) @ [CHR 10] \<longleftrightarrow>
      (QUOTE # escape_quotes msg @ [QUOTE]) = json_escape msg"
    by (simp only: append_same_eq same_append_eq)
  then show ?thesis by (simp only: escape_exact)
qed

text \<open>
  C40: The line of \<^verbatim>\<open>--log-format json\<close> is the JSON object with the level, the time and the message exactly
  when the message has no backslash and no control character: only quotes are escaped. For such a message
  a JSON parser (that of this library) reads the line, and finds the level, the time and the message as they were.
\<close>
theorem log_line_json_iff:
  "(error_line True t msg = put_val (log_object (timestamp t) msg) @ [CHR 10] \<longleftrightarrow> (\<forall>c \<in> set msg. log_safe c)) \<and>
   ((\<forall>c \<in> set msg. log_safe c) \<longrightarrow>
      (\<exists>v. codec_parse (butlast (error_line True t msg)) = Some v \<and> get_str jv v ''level'' = Some ''error'' \<and>
         get_str jv v ''time'' = Some (timestamp t) \<and> get_str jv v ''msg'' = Some msg))"
proof (intro conjI impI)
  show "error_line True t msg = put_val (log_object (timestamp t) msg) @ [CHR 10] \<longleftrightarrow> (\<forall>c \<in> set msg. log_safe c)"
    by (rule log_line_object)
  let ?v = "log_object (timestamp t) msg"
  assume "\<forall>c \<in> set msg. log_safe c"
  then have "error_line True t msg = put_val ?v @ [CHR 10]" by (simp only: log_line_object)
  then have "codec_parse (butlast (error_line True t msg)) = Some ?v" by (simp add: codec_roundtrip)
  moreover have "get_str jv ?v ''level'' = Some ''error''" "get_str jv ?v ''time'' = Some (timestamp t)" "get_str jv ?v ''msg'' = Some msg"
    by (simp_all add: log_object_def get_str_def)
  ultimately show "\<exists>v. codec_parse (butlast (error_line True t msg)) = Some v \<and> get_str jv v ''level'' = Some ''error'' \<and>
         get_str jv v ''time'' = Some (timestamp t) \<and> get_str jv v ''msg'' = Some msg" by blast
qed

theorem log_line_json_iff_witness:
  "\<exists>v. codec_parse (butlast (error_line True None ''no \"x\"'')) = Some v \<and> get_str jv v ''msg'' = Some ''no \"x\"''"
proof -
  have "\<forall>c \<in> set ''no \"x\"''. log_safe c" by (simp add: log_safe_def)
  from mp [OF conjunct2 [OF log_line_json_iff [of None]] this]  show ?thesis by blast
qed

text \<open>A message that ends in a backslash gives a line that is not JSON.\<close>


lemma log_line_broken:
  "codec_parse (butlast (error_line True None [BACKSLASH])) = None"
  by code_simp

end
