(* ===== verification/Utf8_Lossy.thy ===== *)
theory Utf8_Lossy
  imports Utf8
begin

text \<open>\<^verbatim>\<open>String::from_utf8_lossy\<close>: bytes that need not be text, as the JSON reports print them.\<close>

section \<open>Lossy decoding\<close>

text \<open>The classes of bytes, and the definition above over them.\<close>

definition lead1 :: "u8 \<Rightarrow> bool" where
  "lead1 b \<longleftrightarrow> b < 0x80"

definition lead2 :: "u8 \<Rightarrow> bool" where
  "lead2 b \<longleftrightarrow> 0xC2 \<le> b \<and> b \<le> 0xDF"

definition lead3 :: "u8 \<Rightarrow> bool" where
  "lead3 b \<longleftrightarrow> 0xE0 \<le> b \<and> b \<le> 0xEF"

definition lead4 :: "u8 \<Rightarrow> bool" where
  "lead4 b \<longleftrightarrow> 0xF0 \<le> b \<and> b \<le> 0xF4"

definition second3 :: "u8 \<Rightarrow> u8 \<Rightarrow> bool" where
  "second3 b c = (if b = 0xE0 then 0xA0 \<le> c \<and> c \<le> 0xBF else if b = 0xED then 0x80 \<le> c \<and> c \<le> 0x9F else utf8_cont c)"

definition second4 :: "u8 \<Rightarrow> u8 \<Rightarrow> bool" where
  "second4 b c = (if b = 0xF0 then 0x90 \<le> c \<and> c \<le> 0xBF else if b = 0xF4 then 0x80 \<le> c \<and> c \<le> 0x8F else utf8_cont c)"

lemma utf8_ok_classes:
  "utf8_ok (b # bs) =
     (if lead1 b then utf8_ok bs
      else if lead2 b then (case bs of c1 # r \<Rightarrow> utf8_cont c1 \<and> utf8_ok r | _ \<Rightarrow> False)
      else if lead3 b then (case bs of c1 # c2 # r \<Rightarrow> second3 b c1 \<and> utf8_cont c2 \<and> utf8_ok r | _ \<Rightarrow> False)
      else if lead4 b then (case bs of c1 # c2 # c3 # r \<Rightarrow> second4 b c1 \<and> utf8_cont c2 \<and> utf8_cont c3 \<and> utf8_ok r | _ \<Rightarrow> False)
      else False)"
  by (simp only: utf8_ok.simps lead1_def lead2_def lead3_def lead4_def second3_def second4_def)

lemma zero_follows_nothing: "\<not> utf8_cont 0" "\<not> second3 b 0" "\<not> second4 b 0"
  by (simp_all add: utf8_cont_def second3_def second4_def)

text \<open>
  The unit a byte string starts with, as \<^verbatim>\<open>Utf8Chunks\<close> of the standard library finds it: whether it is a
  well-formed sequence, and how many bytes it takes. Past the end the library reads 0.
\<close>

definition byte_at :: "u8 list \<Rightarrow> nat \<Rightarrow> u8" where
  "byte_at bs i = (if i < length bs then bs ! i else 0)"

definition utf8_unit :: "u8 \<Rightarrow> u8 list \<Rightarrow> bool \<times> nat" where
  "utf8_unit b bs =
     (if lead1 b then (True, 0)
      else if lead2 b then (if utf8_cont (byte_at bs 0) then (True, 1) else (False, 0))
      else if lead3 b then
        (if \<not> second3 b (byte_at bs 0) then (False, 0)
         else if \<not> utf8_cont (byte_at bs 1) then (False, 1) else (True, 2))
      else if lead4 b then
        (if \<not> second4 b (byte_at bs 0) then (False, 0)
         else if \<not> utf8_cont (byte_at bs 1) then (False, 1)
         else if \<not> utf8_cont (byte_at bs 2) then (False, 2) else (True, 3))
      else (False, 0))"

text \<open>\<^verbatim>\<open>String::from_utf8_lossy\<close>, as bytes: each ill-formed unit becomes U+FFFD.\<close>

function from_utf8_lossy :: "u8 list \<Rightarrow> u8 list" where
  "from_utf8_lossy [] = []"
| "from_utf8_lossy (b # bs) =
     (if fst (utf8_unit b bs) then b # take (snd (utf8_unit b bs)) bs else [0xEF, 0xBF, 0xBD]) @
       from_utf8_lossy (drop (snd (utf8_unit b bs)) bs)"
  by pat_completeness auto
termination
  by (relation "measure length") simp_all

lemma unit_cases:
  obtains (one) "lead1 b" "utf8_unit b bs = (True, 0)"
  | (two) c1 r where "\<not> lead1 b" "lead2 b" "bs = c1 # r" "utf8_cont c1" "utf8_unit b bs = (True, 1)"
  | (three) c1 c2 r where "\<not> lead1 b" "\<not> lead2 b" "lead3 b" "bs = c1 # c2 # r" "second3 b c1" "utf8_cont c2" "utf8_unit b bs = (True, 2)"
  | (four) c1 c2 c3 r where "\<not> lead1 b" "\<not> lead2 b" "\<not> lead3 b" "lead4 b" "bs = c1 # c2 # c3 # r" "second4 b c1" "utf8_cont c2"
      "utf8_cont c3" "utf8_unit b bs = (True, 3)"
  | (bad) n where "utf8_unit b bs = (False, n)" "\<not> utf8_ok (b # bs)"
proof (cases "fst (utf8_unit b bs)")
  case True
  then show ?thesis
    using one two three four zero_follows_nothing
    by (cases bs; cases "tl bs"; cases "tl (tl bs)") (auto simp: utf8_unit_def byte_at_def split: if_splits)
next
  case False
  moreover have "\<not> utf8_ok (b # bs)"
  proof -
    note [simp del] = utf8_ok.simps
    note rules = utf8_ok_classes [of b] utf8_unit_def byte_at_def
    consider "lead1 b" | "\<not> lead1 b" "lead2 b" | "\<not> lead1 b" "\<not> lead2 b" "lead3 b"
      | "\<not> lead1 b" "\<not> lead2 b" "\<not> lead3 b" "lead4 b" | "\<not> lead1 b" "\<not> lead2 b" "\<not> lead3 b" "\<not> lead4 b" by blast
    then show ?thesis
    proof cases
      case 2
      with False show ?thesis by (cases bs) (auto simp: rules)
    next
      case 3
      with False show ?thesis by (cases bs; cases "tl bs") (auto simp: rules split: if_splits)
    next
      case 4
      with False show ?thesis by (cases bs; cases "tl bs"; cases "tl (tl bs)") (auto simp: rules split: if_splits)
    qed (use False in \<open>simp_all add: rules\<close>)
  qed
  ultimately show ?thesis using bad by (metis prod.collapse)
qed

text \<open>What comes out is well-formed, and a well-formed string is kept.\<close>

lemma lossy_identity: "utf8_ok bs \<Longrightarrow> from_utf8_lossy bs = bs"
proof (induction bs rule: from_utf8_lossy.induct)
  case (2 b bs)
  then show ?case by (cases b bs rule: unit_cases) (simp_all add: utf8_ok_classes del: utf8_ok.simps)
qed simp

lemma replacement_well_formed: "utf8_ok (0xEF # 0xBF # 0xBD # r) = utf8_ok r"
  by (simp add: utf8_cont_def)

lemma lossy_well_formed: "utf8_ok (from_utf8_lossy bs)"
proof (induction bs rule: from_utf8_lossy.induct)
  case (2 b bs)
  then show ?case
    by (cases b bs rule: unit_cases) (simp_all add: utf8_ok_classes [of b] replacement_well_formed del: utf8_ok.simps)
qed simp

end
