(* ===== verification/Exec_Wait.thy ===== *)
theory Exec_Wait
  imports Exec_Process Cli Deadline Utf8_Lossy
begin

text \<open>
  The parent of the direct form of \<^verbatim>\<open>rsrun exec\<close>: collecting the output, feeding the input, the timeout and
  the report. The loop runs over the history of system calls; each turn and each inner loop is bounded
  by a number of the model, and running out of it is an outcome of its own.
\<close>

section \<open>The world of the loop\<close>

text \<open>
  What the calls answer beside their number, as a function of the history they end: the bytes in the buffer of
  the last read, the clock in nanoseconds, the content of a file of the cgroup (opening, reading to the end and
  closing it; empty when that fails) and of its \<^verbatim>\<open>cgroup.procs\<close> by path.
\<close>

record exec_env =
  ee_buffer :: "history \<Rightarrow> u8 list"
  ee_clock :: "history \<Rightarrow> nat"
  ee_file :: "history \<Rightarrow> string \<Rightarrow> string"
  ee_procs :: "history \<Rightarrow> string"

datatype exec_stop = Failed io_error | Endless

type_synonym 'a exec = "(history, exec_stop, 'a) comp"

definition os_fail :: "nat \<Rightarrow> 'a exec" where
  "os_fail e = io_of (Inl (Failed (os_error e)))"

text \<open>\<^verbatim>\<open>str::lines\<close>.\<close>

definition strip_cr :: "string \<Rightarrow> string" where
  "strip_cr l = (case rev l of c # r \<Rightarrow> if c = CHR 13 then rev r else l | [] \<Rightarrow> l)"

definition str_lines :: "string \<Rightarrow> string list" where
  "str_lines s =
     (let ls = split_on (CHR 10) s
      in map strip_cr (if last ls = [] then butlast ls else ls))"

section \<open>Output\<close>

record captured =
  cs_data :: "u8 list"
  cs_bytes :: nat
  cs_truncated :: bool

definition captured_new :: captured where
  "captured_new = \<lparr>cs_data = [], cs_bytes = 0, cs_truncated = False\<rparr>"

definition push_chunk :: "nat \<Rightarrow> u8 list \<Rightarrow> captured \<Rightarrow> captured" where
  "push_chunk limit chunk s =
     (let bytes = cs_bytes s + length chunk
      in \<lparr>cs_data = (if length (cs_data s) < limit then cs_data s @ take (limit - length (cs_data s)) chunk else cs_data s),
          cs_bytes = bytes, cs_truncated = (cs_truncated s \<or> limit < bytes)\<rparr>)"

text \<open>EAGAIN is 11, EINTR 4, EPIPE 32.\<close>

fun read_stream_available :: "kernel \<Rightarrow> exec_env \<Rightarrow> nat \<Rightarrow> nat \<Rightarrow> int \<Rightarrow> captured \<Rightarrow> (int \<times> captured) exec" where
  "read_stream_available K E 0 limit fd s = io_of (Inl Endless)"
| "read_stream_available K E (Suc n) limit fd s =
     io_bind (sys K (Fd (Read fd))) (\<lambda>r.
       case r of
         Inr v \<Rightarrow>
           if 0 < v
           then io_bind (io_get (ee_buffer E)) (\<lambda>buf. read_stream_available K E n limit fd (push_chunk limit (take (nat v) buf) s))
           else io_bind (close_fd K fd) (\<lambda>_. io_ok (-1, s))
       | Inl e \<Rightarrow>
           if e = 11 \<or> e = 4 then io_ok (fd, s)
           else io_bind (close_fd K fd) (\<lambda>_. os_fail e))"

section \<open>Input\<close>

fun write_stdin_available :: "kernel \<Rightarrow> nat \<Rightarrow> int \<Rightarrow> u8 list \<Rightarrow> nat \<Rightarrow> (nat \<times> bool) exec" where
  "write_stdin_available K 0 fd stdin pos = io_of (Inl Endless)"
| "write_stdin_available K (Suc n) fd stdin pos =
     (if pos < length stdin
      then
        io_bind (sys K (Fd (Write fd (drop pos stdin)))) (\<lambda>r.
          case r of
            Inr v \<Rightarrow> if 0 < v then write_stdin_available K n fd stdin (pos + nat v) else io_ok (pos, True)
          | Inl e \<Rightarrow>
              if e = 11 \<or> e = 4 then io_ok (pos, True)
              else io_bind (close_fd K fd) (\<lambda>_. if e = 32 then io_ok (pos, False) else os_fail e))
      else io_bind (close_fd K fd) (\<lambda>_. io_ok (pos, False)))"

section \<open>Signals\<close>

definition read_cgroup_file :: "kernel \<Rightarrow> exec_env \<Rightarrow> int \<Rightarrow> string \<Rightarrow> string exec" where
  "read_cgroup_file K E dir_fd name =
     io_bind (sys K (Fd (Openat dir_fd name 0x80000))) (\<lambda>r.
       case r of Inl _ \<Rightarrow> io_ok '''' | Inr _ \<Rightarrow> io_get (\<lambda>h. ee_file E h name))"

definition kill_any :: "kernel \<Rightarrow> int \<Rightarrow> int \<Rightarrow> unit exec" where
  "kill_any K pid signal = sys_any K (Proc (proc_call.Kill pid signal))"

definition kill_exec_tree :: "kernel \<Rightarrow> exec_env \<Rightarrow> int \<Rightarrow> int \<Rightarrow> bool \<Rightarrow> int \<Rightarrow> unit exec" where
  "kill_exec_tree K E pid cgroup_fd kill_tree signal =
     io_seq [io_when kill_tree (kill_any K (- pid) signal), kill_any K pid signal,
       io_when (signal = 9 \<and> kill_tree)
         (io_bind (if 0 \<le> cgroup_fd then read_cgroup_file K E cgroup_fd ''cgroup.procs'' else io_get (ee_procs E)) (\<lambda>contents.
          io_each (\<lambda>line. case parse_i32 (trim line) of Some p \<Rightarrow> io_when (p \<noteq> pid) (kill_any K p signal) | None \<Rightarrow> io_ok ())
            (str_lines contents)))]"

section \<open>The loop\<close>

record wait_state =
  ws_out_fd :: int
  ws_err_fd :: int
  ws_stdout :: captured
  ws_stderr :: captured
  ws_pos :: nat
  ws_open :: bool
  ws_status :: "u32 option"
  ws_timed_out :: bool
  ws_term_at :: "nat option"
  ws_kill_sent :: bool

text \<open>The constants of one call.\<close>

record wait_ctx =
  wc_pid :: int
  wc_cgroup_fd :: int
  wc_stdin_fd :: int
  wc_start :: nat
  wc_opts :: rollout_exec_opts

definition pump :: "kernel \<Rightarrow> exec_env \<Rightarrow> nat \<Rightarrow> wait_ctx \<Rightarrow> wait_state \<Rightarrow> wait_state exec" where
  "pump K E n c w =
     (let limit = ro_max_output_bytes (wc_opts c) in
      io_bind (if 0 \<le> ws_out_fd w then read_stream_available K E n limit (ws_out_fd w) (ws_stdout w)
               else io_ok (ws_out_fd w, ws_stdout w)) (\<lambda>(out_fd, out).
      io_bind (if 0 \<le> ws_err_fd w then read_stream_available K E n limit (ws_err_fd w) (ws_stderr w)
               else io_ok (ws_err_fd w, ws_stderr w)) (\<lambda>(err_fd, err).
      io_bind (if ws_open w then write_stdin_available K n (wc_stdin_fd c) (unwrap_or (ro_stdin (wc_opts c)) []) (ws_pos w)
               else io_ok (ws_pos w, False)) (\<lambda>(pos, stdin_open).
      io_ok (w\<lparr>ws_out_fd := out_fd, ws_stdout := out, ws_err_fd := err_fd, ws_stderr := err, ws_pos := pos, ws_open := stdin_open\<rparr>)))))"

text \<open>\<^verbatim>\<open>waitpid(WNOHANG)\<close> answers the status, or -1 while the process runs.\<close>

definition poll_child :: "kernel \<Rightarrow> wait_ctx \<Rightarrow> wait_state \<Rightarrow> wait_state exec" where
  "poll_child K c w =
     (if ws_status w \<noteq> None then io_ok w
      else
        io_bind (sys K (Proc (Wait_Nohang (wc_pid c)))) (\<lambda>r.
          case r of
            Inr v \<Rightarrow> io_ok (if 0 \<le> v then w\<lparr>ws_status := Some (word_of_int v)\<rparr> else w)
          | Inl e \<Rightarrow> io_ok (if e = 4 then w else w\<lparr>ws_status := Some 0\<rparr>)))"

definition ended :: "wait_state \<Rightarrow> bool" where
  "ended w \<longleftrightarrow> ws_status w \<noteq> None \<and> ws_out_fd w < 0 \<and> ws_err_fd w < 0 \<and> \<not> ws_open w"

definition send_term :: "kernel \<Rightarrow> exec_env \<Rightarrow> wait_ctx \<Rightarrow> u64 \<Rightarrow> wait_state \<Rightarrow> wait_state exec" where
  "send_term K E c limit w =
     io_bind (io_get (ee_clock E)) (\<lambda>now.
     if \<not> ws_timed_out w \<and> unat limit * 1000000 \<le> now - wc_start c
     then io_bind (kill_exec_tree K E (wc_pid c) (wc_cgroup_fd c) (ro_kill_tree (wc_opts c)) 15) (\<lambda>_.
            io_ok (w\<lparr>ws_timed_out := True, ws_term_at := Some now\<rparr>))
     else io_ok w)"

definition send_kill :: "kernel \<Rightarrow> exec_env \<Rightarrow> wait_ctx \<Rightarrow> wait_state \<Rightarrow> wait_state exec" where
  "send_kill K E c w =
     io_bind (io_get (ee_clock E)) (\<lambda>now.
     if ws_timed_out w \<and> \<not> ws_kill_sent w \<and> (case ws_term_at w of Some t \<Rightarrow> 100000000 \<le> now - t | None \<Rightarrow> False)
     then io_bind (kill_exec_tree K E (wc_pid c) (wc_cgroup_fd c) (ro_kill_tree (wc_opts c)) 9) (\<lambda>_.
            io_ok (w\<lparr>ws_kill_sent := True\<rparr>))
     else io_ok w)"

definition enforce_timeout :: "kernel \<Rightarrow> exec_env \<Rightarrow> wait_ctx \<Rightarrow> wait_state \<Rightarrow> wait_state exec" where
  "enforce_timeout K E c w =
     (case (ws_status w, ro_timeout_ms (wc_opts c)) of
        (None, Some limit) \<Rightarrow> io_bind (send_term K E c limit w) (send_kill K E c)
      | _ \<Rightarrow> io_ok w)"

fun wait_turns :: "kernel \<Rightarrow> exec_env \<Rightarrow> nat \<Rightarrow> nat \<Rightarrow> wait_ctx \<Rightarrow> wait_state \<Rightarrow> wait_state exec" where
  "wait_turns K E n 0 c w = io_of (Inl Endless)"
| "wait_turns K E n (Suc m) c w =
     io_bind (pump K E n c w) (\<lambda>w.
     io_bind (poll_child K c w) (\<lambda>w.
     if ended w then io_ok w
     else
       io_bind (enforce_timeout K E c w) (\<lambda>w.
       io_bind (sys_any K (Proc (Sleep 5))) (\<lambda>_.
       wait_turns K E n m c w))))"

section \<open>The report\<close>

record cgroup_sample =
  cg_cpu_usage_usec :: u64
  cg_memory_current :: u64
  cg_memory_peak :: u64
  cg_pids_current :: u64
  cg_pids_peak :: u64
  cg_oom :: u64
  cg_oom_kill :: u64

definition empty_sample :: cgroup_sample where
  "empty_sample = \<lparr>cg_cpu_usage_usec = 0, cg_memory_current = 0, cg_memory_peak = 0, cg_pids_current = 0, cg_pids_peak = 0,
     cg_oom = 0, cg_oom_kill = 0\<rparr>"

definition cgroup_key_line :: "string \<Rightarrow> string \<Rightarrow> u64 option" where
  "cgroup_key_line key line =
     (case split_once (CHR 32) line of None \<Rightarrow> None | Some (k, v) \<Rightarrow> if k = key then parse_u64 (trim v) else None)"

definition parse_cgroup_key :: "string \<Rightarrow> string \<Rightarrow> u64" where
  "parse_cgroup_key s key = (case filter_map (cgroup_key_line key) (str_lines s) of [] \<Rightarrow> 0 | v # _ \<Rightarrow> v)"

definition read_cgroup_number :: "kernel \<Rightarrow> exec_env \<Rightarrow> int \<Rightarrow> string \<Rightarrow> u64 exec" where
  "read_cgroup_number K E dir_fd name =
     io_bind (read_cgroup_file K E dir_fd name) (\<lambda>s. io_ok (unwrap_or (parse_u64 (trim s)) 0))"

definition read_cgroup_sample :: "kernel \<Rightarrow> exec_env \<Rightarrow> int \<Rightarrow> cgroup_sample exec" where
  "read_cgroup_sample K E dir_fd =
     io_bind (read_cgroup_file K E dir_fd ''cpu.stat'') (\<lambda>cpu.
     io_bind (read_cgroup_file K E dir_fd ''memory.events'') (\<lambda>mem_events.
     io_bind (read_cgroup_number K E dir_fd ''memory.current'') (\<lambda>memory_current.
     io_bind (read_cgroup_number K E dir_fd ''memory.peak'') (\<lambda>memory_peak.
     io_bind (read_cgroup_number K E dir_fd ''pids.current'') (\<lambda>pids_current.
     io_bind (read_cgroup_number K E dir_fd ''pids.peak'') (\<lambda>pids_peak.
     io_ok \<lparr>cg_cpu_usage_usec = parse_cgroup_key cpu ''usage_usec'', cg_memory_current = memory_current,
       cg_memory_peak = memory_peak, cg_pids_current = pids_current, cg_pids_peak = pids_peak,
       cg_oom = parse_cgroup_key mem_events ''oom'', cg_oom_kill = parse_cgroup_key mem_events ''oom_kill''\<rparr>))))))"

record rollout_exec_result =
  re_exit_code :: "u32 option"
  re_signal :: "u32 option"
  re_timeout :: bool
  re_duration_ms :: nat
  re_stdout :: captured
  re_stderr :: captured
  re_cpu_ms :: u64
  re_max_rss_bytes :: u64
  re_pids_peak :: u64
  re_oom_killed :: bool

definition wtermsig :: "u32 \<Rightarrow> u32" where
  "wtermsig st = st AND 0x7f"

definition saturating_sub :: "u64 \<Rightarrow> u64 \<Rightarrow> u64" where
  "saturating_sub a b = (if b \<le> a then a - b else 0)"

definition exec_result :: "wait_ctx \<Rightarrow> wait_state \<Rightarrow> cgroup_sample \<Rightarrow> cgroup_sample \<Rightarrow> nat \<Rightarrow> rollout_exec_result" where
  "exec_result c w before after now =
     (let st = unwrap_or (ws_status w) 0
      in \<lparr>re_exit_code = (if wifexited st then Some (wexitstatus st) else None),
          re_signal = (if wifsignaled st then Some (wtermsig st) else None),
          re_timeout = ws_timed_out w, re_duration_ms = (now - wc_start c) div 1000000,
          re_stdout = ws_stdout w, re_stderr = ws_stderr w,
          re_cpu_ms = saturating_sub (cg_cpu_usage_usec after) (cg_cpu_usage_usec before) div 1000,
          re_max_rss_bytes = max (max (cg_memory_peak after) (cg_memory_current after)) (cg_memory_peak before),
          re_pids_peak = max (max (cg_pids_peak after) (cg_pids_current after)) (cg_pids_peak before),
          re_oom_killed = (cg_oom_kill before < cg_oom_kill after \<or> cg_oom before < cg_oom after)\<rparr>)"

definition initial_wait :: "int \<Rightarrow> int \<Rightarrow> bool \<Rightarrow> wait_state" where
  "initial_wait stdout_fd stderr_fd stdin_open =
     \<lparr>ws_out_fd = stdout_fd, ws_err_fd = stderr_fd, ws_stdout = captured_new, ws_stderr = captured_new, ws_pos = 0,
      ws_open = stdin_open, ws_status = None, ws_timed_out = False, ws_term_at = None, ws_kill_sent = False\<rparr>"

definition wait_tail :: "kernel \<Rightarrow> exec_env \<Rightarrow> wait_ctx \<Rightarrow> cgroup_sample \<Rightarrow> wait_state \<Rightarrow> rollout_exec_result exec" where
  "wait_tail K E c before w =
     io_bind (io_seq [close_if K (ws_out_fd w), close_if K (ws_err_fd w), io_when (ws_open w) (close_fd K (wc_stdin_fd c))]) (\<lambda>_.
     io_bind (if 0 \<le> wc_cgroup_fd c then read_cgroup_sample K E (wc_cgroup_fd c) else io_ok empty_sample) (\<lambda>after.
     io_get (\<lambda>h. exec_result c w before after (ee_clock E h))))"

definition wait_rollout_exec ::
  "kernel \<Rightarrow> exec_env \<Rightarrow> nat \<Rightarrow> nat \<Rightarrow> int \<Rightarrow> int \<Rightarrow> cgroup_sample \<Rightarrow> int \<Rightarrow> int \<Rightarrow> int \<Rightarrow> rollout_exec_opts \<Rightarrow> rollout_exec_result exec" where
  "wait_rollout_exec K E n m pid cgroup_fd before stdout_fd stderr_fd stdin_fd opts =
     io_bind (io_get (ee_clock E)) (\<lambda>start.
     let c = \<lparr>wc_pid = pid, wc_cgroup_fd = cgroup_fd, wc_stdin_fd = stdin_fd, wc_start = start, wc_opts = opts\<rparr>;
         no_input = unwrap_or (ro_stdin opts) [] = [] in
     io_bind (io_when (no_input \<and> 0 \<le> stdin_fd) (close_fd K stdin_fd)) (\<lambda>_.
     io_bind (wait_turns K E n m c (initial_wait stdout_fd stderr_fd (0 \<le> stdin_fd \<and> \<not> no_input))) (wait_tail K E c before)))"

definition failure_summary :: "rollout_exec_result \<Rightarrow> string" where
  "failure_summary r =
     (if re_timeout r then ''timeout''
      else case re_signal r of Some sig \<Rightarrow> ''signal '' @ dec_nat (unat sig)
      | None \<Rightarrow> ''exit '' @ dec_nat (unat (unwrap_or (re_exit_code r) 1)))"

text \<open>The object printed with \<^verbatim>\<open>--json\<close>.\<close>

definition exec_result_json :: "'v json_api \<Rightarrow> rollout_exec_result \<Rightarrow> 'v" where
  "exec_result_json J r =
     jobj J [(''exit_code'', jopt J (\<lambda>c. ju64 J (ucast c)) (re_exit_code r)), (''signal'', jopt J (\<lambda>c. ju64 J (ucast c)) (re_signal r)),
       (''timeout'', jbool J (re_timeout r)), (''duration_ms'', ju64 J (of_nat (re_duration_ms r))),
       (''stdout'', jstr J (byte_string (from_utf8_lossy (cs_data (re_stdout r))))), (''stderr'', jstr J (byte_string (from_utf8_lossy (cs_data (re_stderr r))))),
       (''stdout_bytes'', ju64 J (of_nat (cs_bytes (re_stdout r)))), (''stderr_bytes'', ju64 J (of_nat (cs_bytes (re_stderr r)))),
       (''stdout_truncated'', jbool J (cs_truncated (re_stdout r))), (''stderr_truncated'', jbool J (cs_truncated (re_stderr r))),
       (''cpu_ms'', ju64 J (re_cpu_ms r)), (''max_rss_bytes'', ju64 J (re_max_rss_bytes r)),
       (''pids_peak'', ju64 J (re_pids_peak r)), (''oom_killed'', jbool J (re_oom_killed r))]"

section \<open>The output\<close>

text \<open>What a stream of the given limit is after some bytes.\<close>

definition capture :: "nat \<Rightarrow> u8 list \<Rightarrow> captured" where
  "capture limit bs = \<lparr>cs_data = take limit bs, cs_bytes = length bs, cs_truncated = (limit < length bs)\<rparr>"

lemma capture_new: "captured_new = capture limit []"
  by (simp add: captured_new_def capture_def)

lemma push_capture [simp]: "push_chunk limit chunk (capture limit bs) = capture limit (bs @ chunk)"
  by (auto simp: push_chunk_def capture_def Let_def)

text \<open>The bytes the reads of one descriptor delivered, in the calls after a history.\<close>

fun delivered :: "exec_env \<Rightarrow> int \<Rightarrow> history \<Rightarrow> syscall \<times> answer \<Rightarrow> u8 list" where
  "delivered E fd h (Fd (Read fd'), Inr v) = (if fd' = fd then take (nat v) (ee_buffer E h) else [])"
| "delivered E fd h _ = []"

fun received :: "exec_env \<Rightarrow> int \<Rightarrow> history \<Rightarrow> history \<Rightarrow> u8 list" where
  "received E fd h [] = []"
| "received E fd h (x # cs) = delivered E fd (h @ [x]) x @ received E fd (h @ [x]) cs"

lemma received_append: "received E fd h (cs @ ds) = received E fd h cs @ received E fd (h @ cs) ds"
  by (induction cs arbitrary: h) simp_all

definition reads_only :: "int set \<Rightarrow> history \<Rightarrow> bool" where
  "reads_only fds cs \<longleftrightarrow> (\<forall>x \<in> set cs. \<forall>fd. fst x = Fd (Read fd) \<longrightarrow> fd \<in> fds)"

lemma reads_only_simps [simp]:
  "reads_only fds []" "reads_only fds (cs @ ds) \<longleftrightarrow> reads_only fds cs \<and> reads_only fds ds"
  "reads_only fds (x # cs) \<longleftrightarrow> (\<forall>fd. fst x = Fd (Read fd) \<longrightarrow> fd \<in> fds) \<and> reads_only fds cs"
  by (auto simp: reads_only_def)

lemma reads_only_none: "reads_only {} cs \<Longrightarrow> reads_only fds cs"
  by (auto simp: reads_only_def)

lemma delivered_other: "(\<And>fd'. fst x = Fd (Read fd') \<Longrightarrow> fd' \<noteq> fd) \<Longrightarrow> delivered E fd h x = []"
  by (cases "(E, fd, h, x)" rule: delivered.cases) auto

lemma received_other: "reads_only fds cs \<Longrightarrow> fd \<notin> fds \<Longrightarrow> received E fd h cs = []"
proof (induction cs arbitrary: h)
  case (Cons x cs)
  then have "delivered E fd (h @ [x]) x = []" by (intro delivered_other) auto
  with Cons show ?case by simp
qed simp

text \<open>What a computation adds to the history when it returns.\<close>

definition returns :: "'a exec \<Rightarrow> ('a \<Rightarrow> history \<Rightarrow> history \<Rightarrow> bool) \<Rightarrow> bool" where
  "returns m Q \<longleftrightarrow> (\<forall>h h' a. m h = (h', Inr a) \<longrightarrow> (\<exists>cs. h' = h @ cs \<and> Q a h cs))"

named_theorems returns_rules \<open>what the parts of the wait add to the history\<close>

lemma returnsD: "returns m Q \<Longrightarrow> m h = (h', Inr a) \<Longrightarrow> \<exists>cs. h' = h @ cs \<and> Q a h cs"
  by (auto simp: returns_def)

lemma returns_weaken: "returns m Q \<Longrightarrow> (\<And>a h cs. Q a h cs \<Longrightarrow> Q' a h cs) \<Longrightarrow> returns m Q'"
  unfolding returns_def by blast

lemma returns_bind:
  assumes "returns m Q" and "\<And>a. returns (f a) (\<lambda>b h cs. \<forall>h0 c0. h = h0 @ c0 \<longrightarrow> Q a h0 c0 \<longrightarrow> Q' b h0 (c0 @ cs))"
  shows "returns (io_bind m f) Q'"
  unfolding returns_def
proof (intro allI impI)
  fix h h' b assume "io_bind m f h = (h', Inr b)"
  then obtain t a where "m h = (t, Inr a)" "f a t = (h', Inr b)" by (auto simp: io_bind_Inr_iff)
  with returnsD [OF assms(1)] returnsD [OF assms(2)] show "\<exists>cs. h' = h @ cs \<and> Q' b h cs"
    by (metis append.assoc)
qed

lemma returns_ok [returns_rules]: "(\<And>h. Q a h []) \<Longrightarrow> returns (io_ok a) Q"
  by (simp add: returns_def)

lemma returns_get [returns_rules]: "(\<And>h. Q (f h) h []) \<Longrightarrow> returns (io_get f) Q"
  by (simp add: returns_def)

lemma returns_fail [returns_rules]: "returns (io_of (Inl e)) Q" "returns (os_fail en) Q"
  by (simp_all add: returns_def os_fail_def)

lemma returns_sys: "(\<And>r h. Q r h [(c, r)]) \<Longrightarrow> returns (sys K c) Q"
  by (simp add: returns_def sys_def)

abbreviation no_reads :: "'a exec \<Rightarrow> bool" where
  "no_reads m \<equiv> returns m (\<lambda>_ _. reads_only {})"

lemma no_reads_bind [returns_rules]:
  assumes "no_reads m" and "\<And>a. no_reads (f a)" shows "no_reads (io_bind m f)"
  by (rule returns_bind [OF assms(1)], rule returns_weaken [OF assms(2)]) simp

lemma no_reads_seq [returns_rules]: "(\<And>m. m \<in> set steps \<Longrightarrow> no_reads m) \<Longrightarrow> no_reads (io_seq steps)"
  by (induction steps) (auto intro!: no_reads_bind returns_ok)

lemma no_reads_if [returns_rules]: "(b \<Longrightarrow> returns m Q) \<Longrightarrow> (\<not> b \<Longrightarrow> returns m' Q) \<Longrightarrow> returns (if b then m else m') Q"
  by simp

lemma no_reads_sys [returns_rules]: "(\<And>fd. c \<noteq> Fd (Read fd)) \<Longrightarrow> no_reads (sys K c)" "(\<And>fd. c \<noteq> Fd (Read fd)) \<Longrightarrow> no_reads (sys_any K c)"
  by (auto simp: returns_def sys_def sys_any_def io_bind_def)

lemma no_reads_cgroup [returns_rules]: "no_reads (read_cgroup_file K E fd name)"
  unfolding read_cgroup_file_def by (intro returns_rules) (auto split: sum.split intro!: returns_rules)

lemma no_reads_kill [returns_rules]: "no_reads (kill_exec_tree K E pid cg tree signal)"
  unfolding kill_exec_tree_def kill_any_def
  by (intro returns_rules) (auto intro!: returns_rules split: option.split)

lemma no_reads_sample [returns_rules]: "no_reads (read_cgroup_sample K E fd)"
  unfolding read_cgroup_sample_def read_cgroup_number_def by (intro returns_rules) simp_all

text \<open>One stream: what it holds grows by what the reads delivered.\<close>

lemma read_stream_returns:
  "returns (read_stream_available K E n limit fd (capture limit bs))
     (\<lambda>(fd', s) h cs. reads_only {fd} cs \<and> fd' \<in> {fd, -1} \<and> s = capture limit (bs @ received E fd h cs))"
proof (induction n arbitrary: bs)
  case (Suc n)
  show ?case
    unfolding read_stream_available.simps
  proof (rule returns_bind [where Q = "\<lambda>r h cs. cs = [(Fd (Read fd), r)]"])
    fix r
    show "returns (case r of
         Inr v \<Rightarrow> if 0 < v
           then io_bind (io_get (ee_buffer E)) (\<lambda>buf. read_stream_available K E n limit fd (push_chunk limit (take (nat v) buf) (capture limit bs)))
           else io_bind (close_fd K fd) (\<lambda>_. io_ok (-1, capture limit bs))
       | Inl e \<Rightarrow> if e = 11 \<or> e = 4 then io_ok (fd, capture limit bs) else io_bind (close_fd K fd) (\<lambda>_. os_fail e)) 
      (\<lambda>b h cs. \<forall>h0 c0. h = h0 @ c0 \<longrightarrow> c0 = [(Fd (Read fd), r)] \<longrightarrow>
        (case b of (fd', s) \<Rightarrow> \<lambda>h cs. reads_only {fd} cs \<and> fd' \<in> {fd, -1} \<and> s = capture limit (bs @ received E fd h cs)) h0 (c0 @ cs))"
      (is "returns ?m ?Q'")
    proof (cases r)
      case (Inl e)
      then show ?thesis
        by (auto intro!: returns_rules returns_bind [where Q = "\<lambda>_ _ _. True" and f = "\<lambda>_. os_fail e"] simp: returns_def sys_any_def sys_def io_bind_def os_fail_def)
    next
      case (Inr v)
      show ?thesis
      proof (cases "0 < v")
        case True
        have "returns (read_stream_available K E n limit fd (capture limit (bs @ take (nat v) (ee_buffer E h)))) 
            (\<lambda>(fd', s) h' cs. reads_only {fd} cs \<and> fd' \<in> {fd, -1} \<and> s = capture limit ((bs @ take (nat v) (ee_buffer E h)) @ received E fd h' cs))" for h
          by (rule Suc.IH)
        with Inr True show ?thesis by (fastforce simp: returns_def io_bind_def)
      next
        case False
        with Inr show ?thesis by (auto simp: returns_def sys_any_def sys_def io_bind_def)
      qed
    qed
  qed (simp add: returns_sys)
qed (simp add: returns_rules del: io_run)


text \<open>The state of the loop: each stream holds what its descriptor delivered since the start.\<close>

definition streams :: "exec_env \<Rightarrow> int \<Rightarrow> int \<Rightarrow> nat \<Rightarrow> wait_state \<Rightarrow> u8 list \<Rightarrow> u8 list \<Rightarrow> bool" where
  "streams E so se limit w obs ebs \<longleftrightarrow>
     ws_out_fd w \<in> {so, -1} \<and> ws_err_fd w \<in> {se, -1} \<and> ws_stdout w = capture limit obs \<and> ws_stderr w = capture limit ebs"

abbreviation stream_step :: "exec_env \<Rightarrow> int \<Rightarrow> int \<Rightarrow> nat \<Rightarrow> u8 list \<Rightarrow> u8 list \<Rightarrow> wait_state \<Rightarrow> history \<Rightarrow> history \<Rightarrow> bool" where
  "stream_step E so se limit obs ebs w h cs \<equiv>
     reads_only {so, se} cs \<and> streams E so se limit w (obs @ received E so h cs) (ebs @ received E se h cs)"

lemma read_if_open:
  assumes "fd \<in> {so, -1}" "0 \<le> so"
  shows "returns (if 0 \<le> fd then read_stream_available K E n limit fd (capture limit bs) else io_ok (fd, capture limit bs))
     (\<lambda>(fd', s) h cs. reads_only {so} cs \<and> fd' \<in> {so, -1} \<and> s = capture limit (bs @ received E so h cs))"
proof (cases "fd = so")
  case True
  with assms(2) read_stream_returns show ?thesis by simp
qed (use assms in \<open>auto simp: returns_def\<close>)

lemma no_reads_stdin: "no_reads (write_stdin_available K n fd stdin pos)"
proof (induction n arbitrary: pos)
  case (Suc n)
  then show ?case
    unfolding write_stdin_available.simps
    by (intro returns_rules) (auto intro!: returns_rules split: sum.split simp del: io_run)
qed (simp add: returns_rules del: io_run)

lemma pump_returns:
  assumes "streams E so se limit w obs ebs" "0 \<le> so" "0 \<le> se" "so \<noteq> se" "limit = ro_max_output_bytes (wc_opts c)"
  shows "returns (pump K E n c w) (\<lambda>w' h cs. stream_step E so se limit obs ebs w' h cs \<and> ws_status w' = ws_status w)"
  unfolding returns_def
proof (intro allI impI)
  fix h h' w' assume "pump K E n c w h = (h', Inr w')"
  then obtain h1 fo s h2 fe t pos opn where
    1: "(if 0 \<le> ws_out_fd w then read_stream_available K E n limit (ws_out_fd w) (ws_stdout w) else io_ok (ws_out_fd w, ws_stdout w)) h = (h1, Inr (fo, s))"
    and 2: "(if 0 \<le> ws_err_fd w then read_stream_available K E n limit (ws_err_fd w) (ws_stderr w) else io_ok (ws_err_fd w, ws_stderr w)) h1 = (h2, Inr (fe, t))"
    and 3: "(if ws_open w then write_stdin_available K n (wc_stdin_fd c) (unwrap_or (ro_stdin (wc_opts c)) []) (ws_pos w) else io_ok (ws_pos w, False)) h2 = (h', Inr (pos, opn))"
    and w': "w' = w\<lparr>ws_out_fd := fo, ws_stdout := s, ws_err_fd := fe, ws_stderr := t, ws_pos := pos, ws_open := opn\<rparr>"
    unfolding pump_def Let_def assms(5) [symmetric] by (auto simp: io_bind_Inr_iff split del: if_split)
  note st = assms(1) [unfolded streams_def]
  have fds: "ws_out_fd w \<in> {so, -1}" "ws_err_fd w \<in> {se, -1}" and caps: "ws_stdout w = capture limit obs" "ws_stderr w = capture limit ebs"
    using st by blast+
  from returnsD [OF read_if_open [OF fds(1) assms(2)] 1 [unfolded caps]]
  obtain c1 where c1: "h1 = h @ c1" "reads_only {so} c1" "fo \<in> {so, -1}" "s = capture limit (obs @ received E so h c1)" by auto
  from returnsD [OF read_if_open [OF fds(2) assms(3)] 2 [unfolded caps]]
  obtain c2 where c2: "h2 = h1 @ c2" "reads_only {se} c2" "fe \<in> {se, -1}" "t = capture limit (ebs @ received E se h1 c2)" by auto
  have "no_reads (if ws_open w then write_stdin_available K n (wc_stdin_fd c) (unwrap_or (ro_stdin (wc_opts c)) []) (ws_pos w) else io_ok (ws_pos w, False))"
    by (auto intro!: no_reads_stdin returns_rules simp del: io_run)
  from returnsD [OF this 3] obtain c3 where c3: "h' = h2 @ c3" "reads_only {} c3" by blast
  have "received E so h2 c3 = []" "received E se h2 c3 = []" "received E so h1 c2 = []" "received E se h c1 = []"
    using received_other [OF c1(2)] received_other [OF c2(2)] received_other [OF c3(2)] assms(4) by simp_all
  with c1 c2 c3 w' show "\<exists>cs. h' = h @ cs \<and> stream_step E so se limit obs ebs w' h cs \<and> ws_status w' = ws_status w"
    by (intro exI [of _ "c1 @ c2 @ c3"]) (auto simp: streams_def received_append reads_only_def)
qed

lemma streams_status: "streams E so se limit (w\<lparr>ws_status := x\<rparr>) obs ebs = streams E so se limit w obs ebs"
    "streams E so se limit (w\<lparr>ws_timed_out := b, ws_term_at := y\<rparr>) obs ebs = streams E so se limit w obs ebs"
    "streams E so se limit (w\<lparr>ws_kill_sent := b\<rparr>) obs ebs = streams E so se limit w obs ebs"
  by (simp_all add: streams_def)

text \<open>The other parts of a turn read neither stream.\<close>

definition leaves_streams :: "wait_state exec \<Rightarrow> wait_state \<Rightarrow> bool" where
  "leaves_streams m w \<longleftrightarrow> returns m (\<lambda>w' _ cs. reads_only {} cs \<and> (\<forall>E so se limit obs ebs. streams E so se limit w' obs ebs = streams E so se limit w obs ebs))"

lemma poll_leaves: "leaves_streams (poll_child K c w) w"
  unfolding leaves_streams_def returns_def poll_child_def
  by (auto simp: io_bind_def sys_def streams_status split: sum.splits)

lemma leaves_bind:
  assumes "leaves_streams m w" and "\<And>w'. leaves_streams (f w') w'" shows "leaves_streams (io_bind m f) w"
  unfolding leaves_streams_def
  by (rule returns_bind [OF assms(1) [unfolded leaves_streams_def]], rule returns_weaken [OF assms(2) [unfolded leaves_streams_def]]) auto

lemma kill_then: "no_reads m \<Longrightarrow> (\<And>E so se limit obs ebs. streams E so se limit w' obs ebs = streams E so se limit w obs ebs) \<Longrightarrow>
    leaves_streams (io_bind m (\<lambda>_. io_ok w')) w"
  unfolding leaves_streams_def by (rule returns_bind, assumption) (simp add: returns_def)

lemma enforce_leaves: "leaves_streams (enforce_timeout K E c w) w"
proof -
  have same: "leaves_streams (io_ok w) w" for w by (simp add: leaves_streams_def returns_ok del: io_run)
  have get: "(\<And>a. leaves_streams (f a) w) \<Longrightarrow> leaves_streams (io_bind (io_get g) f) w" for f :: "'b \<Rightarrow> _" and g w
    by (simp add: leaves_streams_def returns_def)
  have "leaves_streams (send_term K E c limit w) w" "leaves_streams (send_kill K E c w) w" for w limit
    unfolding send_term_def send_kill_def by (auto intro!: get kill_then no_reads_kill same simp: streams_status simp del: io_run)
  then show ?thesis
    unfolding enforce_timeout_def by (auto intro!: leaves_bind same split: option.split)
qed


lemma turn_streams:
  assumes "leaves_streams m w" and "m h = (h', Inr w')" and "stream_step E so se limit obs ebs w h0 cs" and "h = h0 @ cs"
  shows "\<exists>ds. h' = h0 @ cs @ ds \<and> stream_step E so se limit obs ebs w' h0 (cs @ ds)"
proof -
  from returnsD [OF assms(1) [unfolded leaves_streams_def] assms(2)] obtain ds where ds: "h' = h @ ds" "reads_only {} ds"
    "streams E so se limit w' (obs @ received E so h0 cs) (ebs @ received E se h0 cs)" using assms(3) by auto
  have "received E fd (h0 @ cs) ds = []" for fd by (rule received_other [OF ds(2)]) simp
  with ds reads_only_none [OF ds(2)] assms(3,4) show ?thesis by (intro exI [of _ ds]) (simp add: received_append)
qed

lemma turns_returns:
  assumes "streams E so se limit w obs ebs" "0 \<le> so" "0 \<le> se" "so \<noteq> se" "limit = ro_max_output_bytes (wc_opts c)"
    and "wait_turns K E n m c w h = (h', Inr w')"
  shows "\<exists>cs. h' = h @ cs \<and> stream_step E so se limit obs ebs w' h cs \<and> ended w'"
  using assms(1,6)
proof (induction m arbitrary: w obs ebs h)
  case (Suc m)
  from Suc.prems(2) obtain h1 w1 h2 w2 where 1: "pump K E n c w h = (h1, Inr w1)" and 2: "poll_child K c w1 h1 = (h2, Inr w2)"
    and 3: "(if ended w2 then io_ok w2 else io_bind (enforce_timeout K E c w2) (\<lambda>w. io_bind (sys_any K (Proc (Sleep 5))) (\<lambda>_. wait_turns K E n m c w))) h2 = (h', Inr w')"
    by (auto simp: io_bind_Inr_iff split del: if_split)
  from returnsD [OF pump_returns [OF Suc.prems(1) assms(2-5)] 1] obtain c1 where
    c1: "h1 = h @ c1" "stream_step E so se limit obs ebs w1 h c1" by blast
  from turn_streams [OF poll_leaves 2 c1(2,1)] obtain c2 where
    c2: "h2 = h @ c1 @ c2" "stream_step E so se limit obs ebs w2 h (c1 @ c2)" by blast
  show ?case
  proof (cases "ended w2")
    case True
    with 3 c2 show ?thesis by (intro exI [of _ "c1 @ c2"]) simp
  next
    case False
    with 3 obtain h3 w3 where 4: "enforce_timeout K E c w2 h2 = (h3, Inr w3)"
      and 5: "wait_turns K E n m c w3 (h3 @ [(Proc (Sleep 5), kn_answer K h3 (Proc (Sleep 5)))]) = (h', Inr w')"
      by (auto simp: io_bind_Inr_iff sys_any_def sys_def)
    from turn_streams [OF enforce_leaves 4 c2(2,1)] obtain c3 where
      c3: "h3 = h @ (c1 @ c2) @ c3" "stream_step E so se limit obs ebs w3 h ((c1 @ c2) @ c3)" by blast
    let ?x = "(Proc (Sleep 5), kn_answer K h3 (Proc (Sleep 5)))" let ?cs = "(c1 @ c2) @ c3"
    from Suc.IH [OF _ 5] c3(2) obtain c4 where c4: "h' = (h3 @ [?x]) @ c4" "ended w'"
      "stream_step E so se limit (obs @ received E so h ?cs) (ebs @ received E se h ?cs) w' (h3 @ [?x]) c4" by blast
    then show ?thesis using c3
      by (intro exI [of _ "?cs @ [?x] @ c4"]) (simp add: received_append)
  qed
qed simp

text \<open>
  C21: The report of a direct exec holds the program's output exactly: each captured stream is the first bytes,
  up to the limit, of everything the reads of its pipe delivered, its byte count is that of all of them, and
  it is marked truncated exactly when they exceed the limit. The two streams are never mixed, however the reads,
  the polling and the signals interleave.
\<close>
theorem captured_output_exact:
  assumes "wait_rollout_exec K E n m pid cgroup_fd before so se stdin_fd opts h0 = (h, Inr r)"
    and "0 \<le> so" "0 \<le> se" "so \<noteq> se"
  shows "\<exists>cs. h = h0 @ cs \<and> re_stdout r = capture (ro_max_output_bytes opts) (received E so h0 cs) \<and>
    re_stderr r = capture (ro_max_output_bytes opts) (received E se h0 cs)"
proof -
  let ?c = "\<lparr>wc_pid = pid, wc_cgroup_fd = cgroup_fd, wc_stdin_fd = stdin_fd, wc_start = ee_clock E h0, wc_opts = opts\<rparr>"
  let ?limit = "ro_max_output_bytes opts"
  from assms(1) obtain h1 h2 w h3 after where
    1: "io_when (unwrap_or (ro_stdin opts) [] = [] \<and> 0 \<le> stdin_fd) (close_fd K stdin_fd :: unit exec) h0 = (h1, Inr ())"
    and 2: "wait_turns K E n m ?c (initial_wait so se (0 \<le> stdin_fd \<and> unwrap_or (ro_stdin opts) [] \<noteq> [])) h1 = (h2, Inr w)"
    and 3: "io_seq [close_if K (ws_out_fd w) :: unit exec, close_if K (ws_err_fd w), io_when (ws_open w) (close_fd K stdin_fd)] h2 = (h3, Inr ())"
    and 4: "(if 0 \<le> cgroup_fd then read_cgroup_sample K E cgroup_fd else io_ok empty_sample) h3 = (h, Inr after)"
    and r: "re_stdout r = ws_stdout w" "re_stderr r = ws_stderr w"
    unfolding wait_rollout_exec_def wait_tail_def Let_def wait_ctx.simps
    by (clarsimp simp: io_bind_Inr_iff exec_result_def Let_def simp del: io_seq.simps split del: if_split)
  have quiet: "no_reads (io_when b (close_fd K fd))" for b fd by (auto intro!: returns_rules simp del: io_run)
  from returnsD [OF quiet 1] obtain c1 where c1: "h1 = h0 @ c1" "reads_only {} c1" by blast
  have "streams E so se ?limit (initial_wait so se b) [] []" for b by (simp add: streams_def initial_wait_def capture_new)
  from turns_returns [OF this assms(2-4) _ 2] obtain c2 where c2: "h2 = h1 @ c2" "stream_step E so se ?limit [] [] w h1 c2" by auto
  have "no_reads (io_seq [close_if K (ws_out_fd w), close_if K (ws_err_fd w), io_when (ws_open w) (close_fd K stdin_fd)])"
    by (intro returns_rules) (auto intro!: returns_rules simp del: io_run)
  from returnsD [OF this 3] obtain c3 where c3: "h3 = h2 @ c3" "reads_only {} c3" by blast
  have "no_reads (if 0 \<le> cgroup_fd then read_cgroup_sample K E cgroup_fd else io_ok empty_sample)"
    by (auto intro!: returns_rules simp del: io_run)
  from returnsD [OF this 4] obtain c4 where c4: "h = h3 @ c4" "reads_only {} c4" by blast
  have "received E fd h' c1 = []" "received E fd h' c3 = []" "received E fd h' c4 = []" for fd h'
    using received_other [OF c1(2)] received_other [OF c3(2)] received_other [OF c4(2)] by simp_all
  with c1 c2 c3 c4 r show ?thesis
    by (intro exI [of _ "c1 @ c2 @ c3 @ c4"]) (simp add: received_append streams_def)
qed

end
