(* ===== verification/Exec_Signals.thy ===== *)
theory Exec_Signals
  imports Exec_Wait
begin

text \<open>
  The signals of a direct exec with a timeout: what the wait sends, when, and how often; and the case in
  which a timeout is not enforced.
\<close>

section \<open>The protocol\<close>

fun signal_of :: "syscall \<times> answer \<Rightarrow> (int \<times> int) option" where
  "signal_of (Proc (proc_call.Kill p s), _) = Some (p, s)"
| "signal_of _ = None"

definition signals :: "history \<Rightarrow> (int \<times> int) list" where
  "signals cs = filter_map signal_of cs"

lemma signals_simps [simp]:
  "signals [] = []" "signals (cs @ ds) = signals cs @ signals ds"
  "signals (x # cs) = (case signal_of x of Some s \<Rightarrow> [s] | None \<Rightarrow> []) @ signals cs"
  by (simp_all add: signals_def filter_map_append split: option.split)

definition term_signals :: "bool \<Rightarrow> int \<Rightarrow> (int \<times> int) list" where
  "term_signals tree pid = (if tree then [(- pid, 15)] else []) @ [(pid, 15)]"

text \<open>The members of a cgroup that a \<^verbatim>\<open>cgroup.procs\<close> lists, but for the process itself.\<close>

definition members :: "int \<Rightarrow> string \<Rightarrow> int list" where
  "members pid contents = filter (\<lambda>p. p \<noteq> pid) (filter_map (\<lambda>line. parse_i32 (trim line)) (str_lines contents))"

text \<open>
  The calls \<open>cs\<close> of a round of SIGKILL that begins after the calls \<open>h\<close>. Without a tree the process alone
  gets the signal. With one its group and itself get it first; then \<^verbatim>\<open>cgroup.procs\<close> is read, relative to
  the open cgroup directory or by its path, and each member listed in what was read gets it, in the
  order of the lines. A file that does not open counts as empty.
\<close>

definition kill_round :: "exec_env \<Rightarrow> bool \<Rightarrow> int \<Rightarrow> int \<Rightarrow> history \<Rightarrow> history \<Rightarrow> bool" where
  "kill_round E tree pid cg h cs \<longleftrightarrow>
     (if \<not> tree then signals cs = [(pid, 9)]
      else if 0 \<le> cg then
        \<exists>a r b. cs = a @ [(Fd (Openat cg ''cgroup.procs'' 0x80000), r)] @ b \<and> signals a = [(- pid, 9), (pid, 9)] \<and>
          signals b = map (\<lambda>p. (p, 9)) (members pid (case r of Inl _ \<Rightarrow> ''''
            | Inr _ \<Rightarrow> ee_file E (h @ a @ [(Fd (Openat cg ''cgroup.procs'' 0x80000), r)]) ''cgroup.procs''))
      else
        \<exists>a b. cs = a @ b \<and> signals a = [(- pid, 9), (pid, 9)] \<and>
          signals b = map (\<lambda>p. (p, 9)) (members pid (ee_procs E (h @ a))))"

lemma kill_round_more: "kill_round E tree pid cg h cs \<Longrightarrow> signals ds = [] \<Longrightarrow> kill_round E tree pid cg h (cs @ ds)"
proof (cases tree; cases "0 \<le> cg")
  assume r: "kill_round E tree pid cg h cs" "signals ds = []" "tree" "0 \<le> cg"
  then obtain a r b where "cs = a @ [(Fd (Openat cg ''cgroup.procs'' 0x80000), r)] @ b" "signals a = [(- pid, 9), (pid, 9)]"
    "signals b = map (\<lambda>p. (p, 9)) (members pid (case r of Inl _ \<Rightarrow> ''''
       | Inr _ \<Rightarrow> ee_file E (h @ a @ [(Fd (Openat cg ''cgroup.procs'' 0x80000), r)]) ''cgroup.procs''))"
    unfolding kill_round_def by auto
  with r show ?thesis unfolding kill_round_def
    by (simp, intro exI [of _ a] exI [of _ r] exI [of _ "b @ ds"]) simp
next
  assume r: "kill_round E tree pid cg h cs" "signals ds = []" "tree" "\<not> 0 \<le> cg"
  then obtain a b where "cs = a @ b" "signals a = [(- pid, 9), (pid, 9)]"
    "signals b = map (\<lambda>p. (p, 9)) (members pid (ee_procs E (h @ a)))"
    unfolding kill_round_def by auto
  with r show ?thesis unfolding kill_round_def
    by (simp, intro exI [of _ a] exI [of _ "b @ ds"]) simp
qed (simp_all add: kill_round_def)

definition overdue :: "exec_env \<Rightarrow> rollout_exec_opts \<Rightarrow> history \<Rightarrow> history \<Rightarrow> bool" where
  "overdue E opts h0 h \<longleftrightarrow>
     (\<exists>limit. ro_timeout_ms opts = Some limit \<and> unat limit * 1000000 \<le> ee_clock E h - ee_clock E h0)"

text \<open>
  The calls up to and with the first round of signals, and those up to the second round: SIGTERM once the limit has
  passed, a round of SIGKILL at least 100 ms later.
\<close>

definition terminated :: "exec_env \<Rightarrow> rollout_exec_opts \<Rightarrow> int \<Rightarrow> history \<Rightarrow> history \<Rightarrow> history \<Rightarrow> bool" where
  "terminated E opts pid h0 pre mid \<longleftrightarrow>
     signals pre = [] \<and> overdue E opts h0 (h0 @ pre) \<and> signals mid = term_signals (ro_kill_tree opts) pid"

definition killed :: "exec_env \<Rightarrow> rollout_exec_opts \<Rightarrow> int \<Rightarrow> int \<Rightarrow> history \<Rightarrow> history \<Rightarrow> history \<Rightarrow> history \<Rightarrow> bool" where
  "killed E opts pid cg h0 pre mid rest \<longleftrightarrow>
     terminated E opts pid h0 pre mid \<and> 100000000 \<le> ee_clock E (h0 @ pre @ mid) - ee_clock E (h0 @ pre) \<and>
     kill_round E (ro_kill_tree opts) pid cg (h0 @ pre @ mid) rest"

section \<open>The parts\<close>

definition adds :: "'a exec \<Rightarrow> (history \<Rightarrow> bool) \<Rightarrow> bool" where
  "adds m Q \<longleftrightarrow> (\<forall>h. \<exists>cs. fst (m h) = h @ cs \<and> Q cs)"

abbreviation silent :: "'a exec \<Rightarrow> bool" where
  "silent m \<equiv> adds m (\<lambda>cs. signals cs = [])"

named_theorems silent_rules \<open>parts of the wait that send no signal\<close>

lemma addsD: "adds m Q \<Longrightarrow> \<exists>cs. fst (m h) = h @ cs \<and> Q cs"
  by (auto simp: adds_def)

lemma adds_bind:
  assumes "adds m Q" and "\<And>a. adds (f a) Q'" and "\<And>cs. Q cs \<Longrightarrow> Q'' cs" and "\<And>cs ds. Q cs \<Longrightarrow> Q' ds \<Longrightarrow> Q'' (cs @ ds)"
  shows "adds (io_bind m f) Q''"
  unfolding adds_def
proof
  fix h
  obtain cs where cs: "fst (m h) = h @ cs" "Q cs" using addsD [OF assms(1)] by blast
  show "\<exists>cs. fst (io_bind m f h) = h @ cs \<and> Q'' cs"
  proof (cases "snd (m h)")
    case (Inl e)
    with cs have "m h = (h @ cs, Inl e)" by (simp add: prod_eq_iff)
    with cs assms(3) show ?thesis by (intro exI [of _ cs]) (simp add: io_bind_def)
  next
    case (Inr a)
    with cs have "m h = (h @ cs, Inr a)" by (simp add: prod_eq_iff)
    then have "io_bind m f h = f a (h @ cs)" by (simp add: io_bind_def)
    with addsD [OF assms(2), of a "h @ cs"] cs assms(4) show ?thesis by fastforce
  qed
qed

lemma silent_bind [silent_rules]: "silent m \<Longrightarrow> (\<And>a. silent (f a)) \<Longrightarrow> silent (io_bind m f)"
  by (rule adds_bind [where Q = "\<lambda>cs. signals cs = []" and Q' = "\<lambda>cs. signals cs = []"]) simp_all

lemma silent_basic [silent_rules]: "silent (io_ok a)" "silent (io_get f)" "silent (io_of r)" "silent (os_fail en)"
  by (simp_all add: adds_def os_fail_def)

lemma silent_sys [silent_rules]: "signal_of (c, Inr 0) = None \<Longrightarrow> silent (sys K c)" "signal_of (c, Inr 0) = None \<Longrightarrow> silent (sys_any K c)"
  by (cases "(c, Inr 0 :: answer)" rule: signal_of.cases; simp add: adds_def sys_def sys_any_def io_bind_def)+

lemma silent_if [silent_rules]: "(b \<Longrightarrow> adds m Q) \<Longrightarrow> (\<not> b \<Longrightarrow> adds m' Q) \<Longrightarrow> adds (if b then m else m') Q"
  by simp

lemma silent_read: "silent (read_stream_available K E n limit fd s)"
proof (induction n arbitrary: s)
  case (Suc n)
  then show ?case unfolding read_stream_available.simps
    by (intro silent_rules) (auto intro!: silent_rules split: sum.split simp del: io_run)
qed (simp add: silent_rules del: io_run)

lemma silent_write: "silent (write_stdin_available K n fd stdin pos)"
proof (induction n arbitrary: pos)
  case (Suc n)
  then show ?case unfolding write_stdin_available.simps
    by (intro silent_rules) (auto intro!: silent_rules split: sum.split simp del: io_run)
qed (simp add: silent_rules del: io_run)

lemma silent_pump: "silent (pump K E n c w)"
  unfolding pump_def Let_def case_prod_unfold
  by (intro silent_rules silent_read silent_write)

lemma silent_cgroup [silent_rules]: "silent (read_cgroup_file K E fd name)"
  unfolding read_cgroup_file_def by (intro silent_rules) (auto intro!: silent_rules split: sum.split simp del: io_run)

lemma silent_sample [silent_rules]: "silent (read_cgroup_sample K E fd)"
  unfolding read_cgroup_sample_def read_cgroup_number_def by (intro silent_rules)

text \<open>A round of signals always completes.\<close>

definition does_round :: "'a exec \<Rightarrow> (history \<Rightarrow> bool) \<Rightarrow> bool" where
  "does_round m Q \<longleftrightarrow> (\<forall>h. \<exists>cs a. m h = (h @ cs, Inr a) \<and> Q cs)"

lemma round_bind:
  assumes "does_round m Q" and "\<And>a. does_round (f a) Q'" and "\<And>cs ds. Q cs \<Longrightarrow> Q' ds \<Longrightarrow> Q'' (cs @ ds)"
  shows "does_round (io_bind m f) Q''"
  unfolding does_round_def
proof
  fix h
  obtain cs a where 1: "m h = (h @ cs, Inr a)" "Q cs" using assms(1) unfolding does_round_def by blast
  obtain ds b where 2: "f a (h @ cs) = ((h @ cs) @ ds, Inr b)" "Q' ds" using assms(2) unfolding does_round_def by blast
  from 1 2 assms(3) show "\<exists>cs a. io_bind m f h = (h @ cs, Inr a) \<and> Q'' cs"
    by (intro exI [of _ "cs @ ds"] exI [of _ b]) (simp add: io_bind_def)
qed

lemma round_kill: "does_round (kill_any K pid s) (\<lambda>cs. signals cs = [(pid, s)])"
  by (simp add: does_round_def kill_any_def sys_any_def sys_def io_bind_def)

lemma round_kill_if: "does_round (io_when b (kill_any K pid s)) (\<lambda>cs. signals cs = (if b then [(pid, s)] else []))"
  using round_kill by (simp add: does_round_def)

lemma each_member:
  "\<exists>cs. io_each (\<lambda>line. case parse_i32 (trim line) of Some p \<Rightarrow> io_when (p \<noteq> pid) (kill_any K p 9) | None \<Rightarrow> io_ok ()) ls h =
      (h @ cs, Inr ()) \<and>
     signals cs = map (\<lambda>p. (p, 9)) (filter (\<lambda>p. p \<noteq> pid) (filter_map (\<lambda>line. parse_i32 (trim line)) ls))"
proof (induction ls arbitrary: h)
  case (Cons l ls)
  show ?case
  proof (cases "\<exists>p. parse_i32 (trim l) = Some p \<and> p \<noteq> pid")
    case True
    then obtain p where p: "parse_i32 (trim l) = Some p" "p \<noteq> pid" by blast
    let ?x = "(Proc (proc_call.Kill p 9), kn_answer K h (Proc (proc_call.Kill p 9)))"
    from Cons.IH [of "h @ [?x]"] obtain cs where
      "io_each (\<lambda>line. case parse_i32 (trim line) of Some p \<Rightarrow> io_when (p \<noteq> pid) (kill_any K p 9) | None \<Rightarrow> io_ok ()) ls (h @ [?x]) =
        ((h @ [?x]) @ cs, Inr ())"
      "signals cs = map (\<lambda>p. (p, 9)) (filter (\<lambda>p. p \<noteq> pid) (filter_map (\<lambda>line. parse_i32 (trim line)) ls))" by blast
    with p show ?thesis
      by (intro exI [of _ "?x # cs"]) (simp add: io_bind_def kill_any_def sys_any_def sys_def)
  next
    case False
    with Cons.IH [of h] show ?thesis by (auto simp: io_bind_def split: option.split)
  qed
qed simp

lemma round_cgroup: "does_round (read_cgroup_file K E fd name) (\<lambda>cs. signals cs = [])"
  by (auto simp: does_round_def read_cgroup_file_def io_bind_def sys_def split: sum.split)

lemma round_done: "does_round (io_seq []) (\<lambda>cs. signals cs = [])"
  by (simp add: does_round_def)

lemma round_term: "does_round (kill_exec_tree K E pid cg tree 15) (\<lambda>cs. signals cs = term_signals tree pid)"
proof -
  have "kill_exec_tree K E pid cg tree 15 = io_bind (io_when tree (kill_any K (- pid) 15)) (\<lambda>_. io_bind (kill_any K pid 15) (\<lambda>_. io_seq [io_ok ()]))"
    by (simp add: kill_exec_tree_def)
  moreover have fin: "does_round (io_seq [io_ok ()] :: unit exec) (\<lambda>cs. signals cs = [])" by (simp add: does_round_def io_bind_def)
  have one: "does_round (io_bind (kill_any K pid 15) (\<lambda>_. io_seq [io_ok ()])) (\<lambda>cs. signals cs = [(pid, 15)])"
    by (rule round_bind [OF round_kill fin]) simp
  have "does_round (io_bind (io_when tree (kill_any K (- pid) 15)) (\<lambda>_. io_bind (kill_any K pid 15) (\<lambda>_. io_seq [io_ok ()])))
      (\<lambda>cs. signals cs = term_signals tree pid)"
    by (rule round_bind [OF round_kill_if one]) (simp add: term_signals_def)
  ultimately show ?thesis by (simp only:)
qed

lemma round_get: "(\<And>a. does_round (f a) Q) \<Longrightarrow> does_round (io_bind (io_get g) f) Q"
  by (simp add: does_round_def)

lemma bind_run: "m h = (h', Inr a) \<Longrightarrow> io_bind m f h = f a h'"
  by (simp add: io_bind_def)

lemma two_kills:
  obtains a where "signals a = [(- pid, 9), (pid, 9)]"
    "\<And>m :: unit exec. io_seq [kill_any K (- pid) 9, kill_any K pid 9, m] h = io_bind m (\<lambda>_. io_ok ()) (h @ a)"
proof -
  let ?k = "\<lambda>h p. (Proc (proc_call.Kill p 9), kn_answer K h (Proc (proc_call.Kill p 9)))"
  show thesis
    by (rule that [of "[?k h (- pid), ?k (h @ [?k h (- pid)]) pid]"])
      (simp_all add: kill_any_def sys_any_def sys_def io_bind_def)
qed

lemma each_listed:
  "\<exists>b. io_bind (io_each (\<lambda>line. case parse_i32 (trim line) of Some p \<Rightarrow> io_when (p \<noteq> pid) (kill_any K p 9) | None \<Rightarrow> io_ok ())
      (str_lines contents)) (\<lambda>_. io_ok ()) h = (h @ b, Inr ()) \<and> signals b = map (\<lambda>p. (p, 9)) (members pid contents)"
proof -
  from each_member [of pid K "str_lines contents" h] obtain b where
    "io_each (\<lambda>line. case parse_i32 (trim line) of Some p \<Rightarrow> io_when (p \<noteq> pid) (kill_any K p 9) | None \<Rightarrow> io_ok ())
      (str_lines contents) h = (h @ b, Inr ())" "signals b = map (\<lambda>p. (p, 9)) (members pid contents)"
    unfolding members_def by blast
  then show ?thesis by (intro exI [of _ b]) (simp add: io_bind_def)
qed

lemma bind_bind: "io_bind (io_bind m f) g = io_bind m (\<lambda>a. io_bind (f a) g)"
  by (auto simp: io_bind_def fun_eq_iff split: prod.split sum.split)

lemma round_kill9:
  "\<exists>cs. kill_exec_tree K E pid cg tree 9 h = (h @ cs, Inr ()) \<and> kill_round E tree pid cg h cs"
proof -
  obtain a where a: "signals a = [(- pid, 9), (pid, 9)]"
    and all: "\<And>m :: unit exec. io_seq [kill_any K (- pid) 9, kill_any K pid 9, m] h = io_bind m (\<lambda>_. io_ok ()) (h @ a)"
    by (rule two_kills) blast
  let ?each = "\<lambda>contents. io_bind (io_each (\<lambda>line. case parse_i32 (trim line) of
      Some p \<Rightarrow> io_when (p \<noteq> pid) (kill_any K p 9) | None \<Rightarrow> io_ok ()) (str_lines contents)) (\<lambda>_. io_ok ())"
  consider (one) "\<not> tree" | (dir) "tree" "0 \<le> cg" | (path) "tree" "\<not> 0 \<le> cg" by blast
  then show ?thesis
  proof cases
    case one
    then show ?thesis
      by (simp add: kill_exec_tree_def kill_any_def sys_any_def sys_def io_bind_def kill_round_def)
  next
    case dir
    let ?open = "Fd (Openat cg ''cgroup.procs'' 0x80000)"
    define r where "r = kn_answer K (h @ a) ?open"
    define contents where "contents = (case r of Inl _ \<Rightarrow> '''' | Inr _ \<Rightarrow> ee_file E (h @ a @ [(?open, r)]) ''cgroup.procs'')"
    have read: "read_cgroup_file K E cg ''cgroup.procs'' (h @ a) = (h @ a @ [(?open, r)], Inr contents)"
      by (simp add: read_cgroup_file_def io_bind_def sys_def contents_def r_def split: sum.split)
    obtain b where b: "?each contents (h @ a @ [(?open, r)]) = ((h @ a @ [(?open, r)]) @ b, Inr ())"
      "signals b = map (\<lambda>p. (p, 9)) (members pid contents)" using each_listed by blast
    have "kill_exec_tree K E pid cg tree 9 h = (h @ (a @ [(?open, r)] @ b), Inr ())"
      using dir b(1) unfolding kill_exec_tree_def
      by (simp only: simp_thms all if_True bind_bind bind_run [of "read_cgroup_file K E cg ''cgroup.procs''", OF read] append_assoc)
    moreover have "kill_round E tree pid cg h (a @ [(?open, r)] @ b)"
      using dir a b(2) unfolding kill_round_def contents_def by auto
    ultimately show ?thesis by blast
  next
    case path
    obtain b where b: "?each (ee_procs E (h @ a)) (h @ a) = ((h @ a) @ b, Inr ())"
      "signals b = map (\<lambda>p. (p, 9)) (members pid (ee_procs E (h @ a)))" using each_listed by blast
    have get: "io_get (ee_procs E) (h @ a) = (h @ a, Inr (ee_procs E (h @ a)))" by simp
    have "kill_exec_tree K E pid cg tree 9 h = (h @ (a @ b), Inr ())"
      using path b(1) unfolding kill_exec_tree_def
      by (simp only: simp_thms all if_True if_False bind_bind bind_run [of "io_get (ee_procs E)", OF get] append_assoc)
    moreover have "kill_round E tree pid cg h (a @ b)"
      using path a b(2) unfolding kill_round_def by auto
    ultimately show ?thesis by blast
  qed
qed

section \<open>The state of the protocol\<close>

text \<open>Where the wait stands after the calls \<open>cs\<close>, which began at \<open>h0\<close>.\<close>

definition stage :: "exec_env \<Rightarrow> wait_ctx \<Rightarrow> history \<Rightarrow> wait_state \<Rightarrow> history \<Rightarrow> bool" where
  "stage E c h0 w cs \<longleftrightarrow>
     (if \<not> ws_timed_out w then signals cs = [] \<and> \<not> ws_kill_sent w
      else if \<not> ws_kill_sent w then
        \<exists>pre mid. cs = pre @ mid \<and> terminated E (wc_opts c) (wc_pid c) h0 pre mid \<and> ws_term_at w = Some (ee_clock E (h0 @ pre))
      else \<exists>pre mid rest. cs = pre @ mid @ rest \<and> killed E (wc_opts c) (wc_pid c) (wc_cgroup_fd c) h0 pre mid rest)"

lemma stage_silent:
  assumes "stage E c h0 w cs" and "signals ds = []"
    and "ws_timed_out w' = ws_timed_out w" "ws_kill_sent w' = ws_kill_sent w" "ws_term_at w' = ws_term_at w"
  shows "stage E c h0 w' (cs @ ds)"
proof (cases "ws_timed_out w")
  case True
  show ?thesis
  proof (cases "ws_kill_sent w")
    case False
    with assms(1) True obtain pre mid where "cs = pre @ mid" "terminated E (wc_opts c) (wc_pid c) h0 pre mid"
      "ws_term_at w = Some (ee_clock E (h0 @ pre))" by (auto simp: stage_def)
    then have "cs @ ds = pre @ (mid @ ds)" "terminated E (wc_opts c) (wc_pid c) h0 pre (mid @ ds)"
      "ws_term_at w' = Some (ee_clock E (h0 @ pre))"
      using assms(2,5) by (simp_all add: terminated_def)
    with assms(3,4) True False show ?thesis unfolding stage_def by auto
  next
    case sent: True
    with assms(1) True obtain pre mid rest where "cs = pre @ mid @ rest" "killed E (wc_opts c) (wc_pid c) (wc_cgroup_fd c) h0 pre mid rest"
      by (auto simp: stage_def)
    then have "cs @ ds = pre @ mid @ (rest @ ds)" "killed E (wc_opts c) (wc_pid c) (wc_cgroup_fd c) h0 pre mid (rest @ ds)"
      using assms(2) kill_round_more by (simp_all add: killed_def)
    with assms(3-5) True sent show ?thesis unfolding stage_def by auto
  qed
qed (use assms in \<open>simp add: stage_def\<close>)

lemma send_term_stage:
  assumes "stage E c h0 w cs" "wc_start c = ee_clock E h0" "ro_timeout_ms (wc_opts c) = Some limit"
  shows "\<exists>ds w'. send_term K E c limit w (h0 @ cs) = (h0 @ cs @ ds, Inr w') \<and> stage E c h0 w' (cs @ ds)"
proof (cases "\<not> ws_timed_out w \<and> unat limit * 1000000 \<le> ee_clock E (h0 @ cs) - ee_clock E h0")
  case True
  from round_term obtain ds where ds: "kill_exec_tree K E (wc_pid c) (wc_cgroup_fd c) (ro_kill_tree (wc_opts c)) 15 (h0 @ cs) =
      ((h0 @ cs) @ ds, Inr ())" "signals ds = term_signals (ro_kill_tree (wc_opts c)) (wc_pid c)"
    unfolding does_round_def by (metis old.unit.exhaust)
  moreover have "terminated E (wc_opts c) (wc_pid c) h0 cs ds"
    using True assms ds(2) by (auto simp: terminated_def overdue_def stage_def)
  ultimately show ?thesis using True assms(1,2)
    by (intro exI [of _ ds] exI [of _ "w\<lparr>ws_timed_out := True, ws_term_at := Some (ee_clock E (h0 @ cs))\<rparr>"])
      (auto simp: send_term_def io_bind_def stage_def)
qed (use assms in \<open>auto simp: send_term_def intro!: exI [of _ "[]"]\<close>)

lemma send_kill_stage:
  assumes "stage E c h0 w cs"
  shows "\<exists>ds w'. send_kill K E c w (h0 @ cs) = (h0 @ cs @ ds, Inr w') \<and> stage E c h0 w' (cs @ ds)"
proof (cases "ws_timed_out w \<and> \<not> ws_kill_sent w \<and> (case ws_term_at w of Some t \<Rightarrow> 100000000 \<le> ee_clock E (h0 @ cs) - t | None \<Rightarrow> False)")
  case True
  from round_kill9 obtain ds where ds: "kill_exec_tree K E (wc_pid c) (wc_cgroup_fd c) (ro_kill_tree (wc_opts c)) 9 (h0 @ cs) =
      ((h0 @ cs) @ ds, Inr ())" "kill_round E (ro_kill_tree (wc_opts c)) (wc_pid c) (wc_cgroup_fd c) (h0 @ cs) ds"
    by blast
  from assms True obtain pre mid where pm: "cs = pre @ mid" "terminated E (wc_opts c) (wc_pid c) h0 pre mid"
      "ws_term_at w = Some (ee_clock E (h0 @ pre))" by (auto simp: stage_def)
  with True ds(2) have "killed E (wc_opts c) (wc_pid c) (wc_cgroup_fd c) h0 pre mid ds" by (auto simp: killed_def)
  with True ds(1) pm(1) show ?thesis
    by (intro exI [of _ ds] exI [of _ "w\<lparr>ws_kill_sent := True\<rparr>"]) (auto simp: send_kill_def io_bind_def stage_def)
qed (use assms in \<open>auto simp: send_kill_def intro!: exI [of _ "[]"]\<close>)


lemma enforce_stage:
  assumes "stage E c h0 w cs" "wc_start c = ee_clock E h0"
  shows "\<exists>ds w'. enforce_timeout K E c w (h0 @ cs) = (h0 @ cs @ ds, Inr w') \<and> stage E c h0 w' (cs @ ds)"
proof (cases "ws_status w = None \<and> ro_timeout_ms (wc_opts c) \<noteq> None")
  case True
  then obtain limit where l: "ro_timeout_ms (wc_opts c) = Some limit" by auto
  from send_term_stage [OF assms l] obtain ds w1 where 1: "send_term K E c limit w (h0 @ cs) = (h0 @ cs @ ds, Inr w1)"
    "stage E c h0 w1 (cs @ ds)" by blast
  from send_kill_stage [OF 1(2)] obtain es w2 where 2: "send_kill K E c w1 (h0 @ cs @ ds) = (h0 @ (cs @ ds) @ es, Inr w2)"
    "stage E c h0 w2 ((cs @ ds) @ es)" unfolding append_assoc by blast
  from 1 2 l True show ?thesis
    by (intro exI [of _ "ds @ es"] exI [of _ w2]) (simp add: enforce_timeout_def io_bind_def)
qed (use assms(1) in \<open>auto simp: enforce_timeout_def intro!: exI [of _ "[]"] split: option.split\<close>)

lemma pump_flags:
  "pump K E n c w h = (h', Inr w') \<Longrightarrow> ws_timed_out w' = ws_timed_out w \<and> ws_kill_sent w' = ws_kill_sent w \<and> ws_term_at w' = ws_term_at w"
  by (auto simp: pump_def Let_def io_bind_Inr_iff split: prod.splits)

lemma poll_runs: "\<exists>x r. poll_child K c w h = (h @ x, Inr (w\<lparr>ws_status := r\<rparr>)) \<and> signals x = []"
proof -
  have "w\<lparr>ws_status := ws_status w\<rparr> = w" by simp
  then show ?thesis
    by (cases "kn_answer K h (Proc (Wait_Nohang (wc_pid c)))")
      (auto simp: poll_child_def io_bind_def sys_def intro: exI [of _ "[]"] exI [of _ "ws_status w"])
qed

lemma turns_stage:
  assumes "stage E c h0 w cs" "wc_start c = ee_clock E h0"
  shows "\<exists>ds w'. fst (wait_turns K E n m c w (h0 @ cs)) = h0 @ ds \<and> stage E c h0 w' ds \<and>
    (\<forall>v. snd (wait_turns K E n m c w (h0 @ cs)) = Inr v \<longrightarrow> v = w')"
  using assms(1)
proof (induction m arbitrary: w cs)
  case 0
  then show ?case by (intro exI [of _ cs] exI [of _ w]) simp
next
  case (Suc m)
  obtain c1 where c1: "fst (pump K E n c w (h0 @ cs)) = (h0 @ cs) @ c1" "signals c1 = []" using addsD [OF silent_pump] by blast
  show ?case
  proof (cases "snd (pump K E n c w (h0 @ cs))")
    case (Inl e)
    with c1(1) have "pump K E n c w (h0 @ cs) = ((h0 @ cs) @ c1, Inl e)" by (simp add: prod_eq_iff)
    with stage_silent [OF Suc.prems c1(2)] show ?thesis
      by (intro exI [of _ "cs @ c1"] exI [of _ w]) (simp add: io_bind_def)
  next
    case (Inr w1)
    with c1(1) have p: "pump K E n c w (h0 @ cs) = ((h0 @ cs) @ c1, Inr w1)" by (simp add: prod_eq_iff)
    obtain x r where q: "poll_child K c w1 ((h0 @ cs) @ c1) = (((h0 @ cs) @ c1) @ x, Inr (w1\<lparr>ws_status := r\<rparr>))" "signals x = []"
      using poll_runs by blast
    let ?w2 = "w1\<lparr>ws_status := r\<rparr>" let ?cs = "cs @ c1 @ x"
    have st: "stage E c h0 ?w2 ?cs"
      by (rule stage_silent [OF Suc.prems]) (use c1 q pump_flags [OF p] in simp_all)
    show ?thesis
    proof (cases "ended ?w2")
      case True
      with p q st show ?thesis by (intro exI [of _ ?cs] exI [of _ ?w2]) (simp add: io_bind_def)
    next
      case False
      from enforce_stage [OF st assms(2)] obtain ds w3 where e: "enforce_timeout K E c ?w2 (h0 @ ?cs) = (h0 @ ?cs @ ds, Inr w3)"
        "stage E c h0 w3 (?cs @ ds)" by blast
      let ?x = "(Proc (Sleep 5), kn_answer K (h0 @ ?cs @ ds) (Proc (Sleep 5)))"
      have "stage E c h0 w3 ((?cs @ ds) @ [?x])" by (rule stage_silent [OF e(2)]) simp_all
      from Suc.IH [OF this] False p q e(1) show ?thesis
        by (simp add: io_bind_def sys_any_def sys_def)
    qed
  qed
qed

text \<open>The whole wait: the parts around the loop send nothing.\<close>

definition escalation :: "exec_env \<Rightarrow> rollout_exec_opts \<Rightarrow> int \<Rightarrow> int \<Rightarrow> history \<Rightarrow> history \<Rightarrow> bool" where
  "escalation E opts pid cg h0 cs \<longleftrightarrow>
     signals cs = [] \<or> (\<exists>pre mid. cs = pre @ mid \<and> terminated E opts pid h0 pre mid) \<or>
     (\<exists>pre mid rest. cs = pre @ mid @ rest \<and> killed E opts pid cg h0 pre mid rest)"


lemma stage_escalation:
  assumes "stage E c h0 w cs" shows "escalation E (wc_opts c) (wc_pid c) (wc_cgroup_fd c) h0 cs" "ws_timed_out w \<longleftrightarrow> signals cs \<noteq> []"
proof -
  show "escalation E (wc_opts c) (wc_pid c) (wc_cgroup_fd c) h0 cs" using assms unfolding stage_def escalation_def by (auto split: if_splits)
  have "term_signals tree pid \<noteq> []" for tree pid by (simp add: term_signals_def)
  then show "ws_timed_out w \<longleftrightarrow> signals cs \<noteq> []"
    using assms by (auto simp: stage_def terminated_def killed_def split: if_splits)
qed

text \<open>
  C22: The timeout of a direct exec, whatever the outcome of the wait: no signal is sent before the limit has passed;
  then SIGTERM goes to the process at most once (and to its process group with \<^verbatim>\<open>--kill-tree\<close>); one round of
  SIGKILL may follow, not before another 100 ms: to the process and, for a tree, to its group and to every member that
  \<^verbatim>\<open>cgroup.procs\<close> lists when it is read in that round, and to nobody else (a file that cannot be opened lists nobody).
  Without a timeout nothing is ever sent, and a report says timeout exactly when a signal was sent.
\<close>
theorem timeout_escalates_once:
  "\<exists>cs. fst (wait_rollout_exec K E n m pid cgroup_fd before so se stdin_fd opts h0) = h0 @ cs \<and> escalation E opts pid cgroup_fd h0 cs \<and>
     (case snd (wait_rollout_exec K E n m pid cgroup_fd before so se stdin_fd opts h0) of Inl _ \<Rightarrow> True
      | Inr r \<Rightarrow> re_timeout r = (signals cs \<noteq> []))"
proof -
  let ?c = "\<lparr>wc_pid = pid, wc_cgroup_fd = cgroup_fd, wc_stdin_fd = stdin_fd, wc_start = ee_clock E h0, wc_opts = opts\<rparr>"
  let ?none = "unwrap_or (ro_stdin opts) [] = []"
  let ?close = "io_when (?none \<and> 0 \<le> stdin_fd) (close_fd K stdin_fd) :: unit exec"
  let ?turns = "wait_turns K E n m ?c (initial_wait so se (0 \<le> stdin_fd \<and> \<not> ?none))"
  let ?tail = "wait_tail K E ?c before"
  have tail: "silent (?tail w)" "snd (?tail w h) = Inr r \<Longrightarrow> re_timeout r = ws_timed_out w" for w h r
  proof -
    show "silent (?tail w)" unfolding wait_tail_def io_seq.simps by (intro silent_rules; simp)
    show "snd (?tail w h) = Inr r \<Longrightarrow> re_timeout r = ws_timed_out w"
      unfolding wait_tail_def by (auto simp: io_bind_def exec_result_def Let_def split: prod.splits sum.splits)
  qed
  have "\<exists>c1. ?close h0 = (h0 @ c1, Inr ()) \<and> signals c1 = []"
    by (cases "?none \<and> 0 \<le> stdin_fd") (simp_all add: sys_any_def sys_def io_bind_def)
  then obtain c1 where c1: "?close h0 = (h0 @ c1, Inr ())" "signals c1 = []" by blast
  have "stage E ?c h0 (initial_wait so se b) c1" for b by (simp add: stage_def initial_wait_def c1(2))
  from turns_stage [OF this, of K n m "0 \<le> stdin_fd \<and> \<not> ?none"] obtain ds w where
    t: "fst (?turns (h0 @ c1)) = h0 @ ds" "stage E ?c h0 w ds" "\<And>v. snd (?turns (h0 @ c1)) = Inr v \<Longrightarrow> v = w" by auto
  have run: "wait_rollout_exec K E n m pid cgroup_fd before so se stdin_fd opts h0 = io_bind ?turns ?tail (h0 @ c1)"
    using c1(1) by (simp add: wait_rollout_exec_def Let_def io_bind_def [of ?close])
  show ?thesis
  proof (cases "snd (?turns (h0 @ c1))")
    case (Inl e)
    with t(1) have "?turns (h0 @ c1) = (h0 @ ds, Inl e)" by (simp add: prod_eq_iff)
    with stage_escalation [OF t(2)] show ?thesis unfolding run by (intro exI [of _ ds]) (simp add: io_bind_def)
  next
    case (Inr v)
    with t have turns: "?turns (h0 @ c1) = (h0 @ ds, Inr w)" by (simp add: prod_eq_iff)
    from addsD [OF tail(1), of w "h0 @ ds"] obtain es where es: "fst (?tail w (h0 @ ds)) = (h0 @ ds) @ es" "signals es = []" by blast
    from stage_escalation [OF stage_silent [OF t(2) es(2) refl refl refl]] es tail(2) [of w "h0 @ ds"] turns show ?thesis
      unfolding run by (intro exI [of _ "ds @ es"]) (auto simp: io_bind_def split: sum.split)
  qed
qed


section \<open>A timeout that is not enforced\<close>

text \<open>A kernel on which the process has ended and its pipes stay open and silent: something else holds them.\<close>

definition pipes_held :: "kernel \<Rightarrow> int \<Rightarrow> bool" where
  "pipes_held K pid \<longleftrightarrow> (\<forall>h fd. kn_answer K h (Fd (Read fd)) = Inl 11) \<and> (\<forall>h. \<exists>st \<ge> 0. kn_answer K h (Proc (Wait_Nohang pid)) = Inr st)"

lemma pump_held:
  assumes "pipes_held K pid" "0 \<le> ws_out_fd w" "0 \<le> ws_err_fd w" "\<not> ws_open w"
  shows "\<exists>cs. pump K E (Suc n) c w h = (h @ cs, Inr w) \<and> signals cs = []"
proof -
  have "w\<lparr>ws_out_fd := ws_out_fd w, ws_stdout := ws_stdout w, ws_err_fd := ws_err_fd w, ws_stderr := ws_stderr w,
      ws_pos := ws_pos w, ws_open := False\<rparr> = w" using assms(4) by simp
  then show ?thesis using assms
    by (simp add: pump_def Let_def io_bind_def sys_def pipes_held_def)
qed

lemma turns_held:
  assumes "pipes_held K (wc_pid c)" "0 \<le> ws_out_fd w" "0 \<le> ws_err_fd w" "\<not> ws_open w"
  shows "\<exists>cs. wait_turns K E (Suc n) m c w h = (h @ cs, Inl Endless) \<and> signals cs = []"
  using assms(2-4)
proof (induction m arbitrary: w h)
  case (Suc m)
  from pump_held [OF assms(1) Suc.prems] obtain cs where 1: "pump K E (Suc n) c w h = (h @ cs, Inr w)" "signals cs = []" by blast
  obtain ds r where 2: "poll_child K c w (h @ cs) = ((h @ cs) @ ds, Inr (w\<lparr>ws_status := Some r\<rparr>))" "signals ds = []"
  proof (cases "ws_status w")
    case None
    obtain st where "0 \<le> st" "kn_answer K (h @ cs) (Proc (Wait_Nohang (wc_pid c))) = Inr st"
      using assms(1) unfolding pipes_held_def by blast
    with None that [of "[(Proc (Wait_Nohang (wc_pid c)), Inr st)]" "word_of_int st"] show thesis
      by (simp add: poll_child_def io_bind_def sys_def)
  next
    case (Some r)
    with that [of "[]" r] show thesis by (simp add: poll_child_def)
  qed
  let ?w = "w\<lparr>ws_status := Some r\<rparr>" let ?x = "(Proc (Sleep 5), kn_answer K ((h @ cs) @ ds) (Proc (Sleep 5)))"
  from Suc.IH [of ?w "((h @ cs) @ ds) @ [?x]"] Suc.prems obtain es where
    3: "wait_turns K E (Suc n) m c ?w (((h @ cs) @ ds) @ [?x]) = ((((h @ cs) @ ds) @ [?x]) @ es, Inl Endless)" "signals es = []" by auto
  have "\<not> ended ?w" using Suc.prems by (simp add: ended_def)
  with 1 2 3 show ?case
    by (intro exI [of _ "cs @ ds @ [?x] @ es"]) (simp add: io_bind_def enforce_timeout_def sys_any_def sys_def)
qed simp

text \<open>
  C23: A direct exec can hang for ever in spite of its timeout. When the process has ended and something it
  started still holds its output pipes, no bound on the turns is enough for the wait to return, and no
  signal is ever sent: the timeout is only looked at while the process itself runs.
\<close>
theorem timeout_not_enforced:
  assumes "pipes_held K pid" "0 \<le> so" "0 \<le> se" and "unwrap_or (ro_stdin opts) [] = []"
  shows "\<exists>cs. wait_rollout_exec K E (Suc n) m pid cgroup_fd before so se stdin_fd opts h0 = (h0 @ cs, Inl Endless) \<and> signals cs = []"
proof -
  let ?c = "\<lparr>wc_pid = pid, wc_cgroup_fd = cgroup_fd, wc_stdin_fd = stdin_fd, wc_start = ee_clock E h0, wc_opts = opts\<rparr>"
  have held: "\<exists>cs. wait_turns K E (Suc n) m ?c (initial_wait so se False) h = (h @ cs, Inl Endless) \<and> signals cs = []" for h
    by (rule turns_held) (use assms in \<open>simp_all add: initial_wait_def\<close>)
  show ?thesis
  proof (cases "0 \<le> stdin_fd")
    case True
    let ?x = "(Fd (Close stdin_fd), kn_answer K h0 (Fd (Close stdin_fd)))"
    from held [of "h0 @ [?x]"] obtain cs where "wait_turns K E (Suc n) m ?c (initial_wait so se False) (h0 @ [?x]) = ((h0 @ [?x]) @ cs, Inl Endless)"
      "signals cs = []" by blast
    with True assms(4) show ?thesis
      by (intro exI [of _ "?x # cs"]) (simp add: wait_rollout_exec_def Let_def io_bind_def sys_any_def sys_def)
  next
    case False
    with held [of h0] assms(4) show ?thesis by (auto simp: wait_rollout_exec_def Let_def io_bind_def)
  qed
qed


section \<open>The wait returns\<close>

definition sleeps :: "history \<Rightarrow> nat" where
  "sleeps h = length (filter (\<lambda>x. fst x = Proc (Sleep 5)) h)"

fun delivers :: "syscall \<times> answer \<Rightarrow> bool" where
  "delivers (Fd (Read _), Inr v) = (0 < v)"
| "delivers _ = False"

definition chunks :: "history \<Rightarrow> nat" where
  "chunks h = length (filter delivers h)"

lemma counts [simp]:
  "sleeps [] = 0" "sleeps (cs @ ds) = sleeps cs + sleeps ds" "sleeps (x # cs) = (if fst x = Proc (Sleep 5) then 1 else 0) + sleeps cs"
  "chunks [] = 0" "chunks (cs @ ds) = chunks cs + chunks ds" "chunks (x # cs) = (if delivers x then 1 else 0) + chunks cs"
  by (simp_all add: sleeps_def chunks_def)

text \<open>
  A world that settles: at most \<open>B\<close> chunks of output are ever delivered, and after \<open>T\<close> turns the pipes are closed at
  their other ends and the process has ended. Interruptions and full or empty pipes are allowed before.
\<close>

definition settles :: "kernel \<Rightarrow> int \<Rightarrow> nat \<Rightarrow> nat \<Rightarrow> bool" where
  "settles K pid B T \<longleftrightarrow>
     (\<forall>h fd. case kn_answer K h (Fd (Read fd)) of Inr v \<Rightarrow> 0 < v \<longrightarrow> chunks h < B | Inl e \<Rightarrow> (e = 11 \<or> e = 4) \<and> sleeps h < T) \<and>
     (\<forall>h fd bs. bs \<noteq> [] \<longrightarrow> (case kn_answer K h (Fd (Write fd bs)) of Inr v \<Rightarrow> 0 < v \<or> sleeps h < T
        | Inl e \<Rightarrow> e = 32 \<or> (e = 11 \<or> e = 4) \<and> sleeps h < T)) \<and>
     (\<forall>h. T \<le> sleeps h \<longrightarrow> (\<exists>st \<ge> 0. kn_answer K h (Proc (Wait_Nohang pid)) = Inr st))"

lemma read_settles:
  assumes "settles K pid B T" and "B - chunks h < n"
  shows "\<exists>cs fd' s'. read_stream_available K E n limit fd s h = (h @ cs, Inr (fd', s')) \<and> sleeps cs = 0 \<and>
    (fd' = fd \<or> fd' = -1) \<and> (T \<le> sleeps h \<longrightarrow> fd' = -1)"
  using assms(2)
proof (induction n arbitrary: h s)
  case (Suc n)
  let ?r = "kn_answer K h (Fd (Read fd))"
  have read: "case ?r of Inr v \<Rightarrow> 0 < v \<longrightarrow> chunks h < B | Inl e \<Rightarrow> (e = 11 \<or> e = 4) \<and> sleeps h < T"
    using assms(1) by (simp add: settles_def)
  show ?case
  proof (cases ?r)
    case (Inl e)
    with read show ?thesis by (auto simp: io_bind_def sys_def)
  next
    case (Inr v)
    show ?thesis
    proof (cases "0 < v")
      case True
      let ?h = "h @ [(Fd (Read fd), Inr v)]"
      have "B - chunks ?h < n" using Suc.prems True read Inr by simp
      from Suc.IH [OF this, of "push_chunk limit (take (nat v) (ee_buffer E ?h)) s"] Inr True show ?thesis
        by (auto simp: io_bind_def sys_def)
    next
      case False
      with Inr show ?thesis by (simp add: io_bind_def sys_def sys_any_def)
    qed
  qed
qed simp

lemma write_settles:
  assumes "settles K pid B T" and "length stdin - pos < n"
  shows "\<exists>cs pos' opn. write_stdin_available K n fd stdin pos h = (h @ cs, Inr (pos', opn)) \<and> sleeps cs = 0 \<and> (T \<le> sleeps h \<longrightarrow> \<not> opn)"
  using assms(2)
proof (induction n arbitrary: h pos)
  case (Suc n)
  let ?r = "kn_answer K h (Fd (Write fd (drop pos stdin)))"
  have wr: "pos < length stdin \<Longrightarrow> (case ?r of Inr v \<Rightarrow> 0 < v \<or> sleeps h < T | Inl e \<Rightarrow> e = 32 \<or> (e = 11 \<or> e = 4) \<and> sleeps h < T)"
    using assms(1) by (simp add: settles_def)
  show ?case
  proof (cases "pos < length stdin")
    case False
    then show ?thesis by (simp add: io_bind_def sys_def sys_any_def) blast
  next
    case pos: True
    show ?thesis
    proof (cases ?r)
      case (Inl e)
      with wr [OF pos] consider "e = 32" | "e = 11 \<or> e = 4" "sleeps h < T" by auto
      then show ?thesis
      proof cases
        case 1
        with Inl pos show ?thesis by (simp add: io_bind_def sys_def sys_any_def) blast
      next
        case 2
        with Inl pos show ?thesis by (simp add: io_bind_def sys_def) blast
      qed
    next
      case (Inr v)
      show ?thesis
      proof (cases "0 < v")
        case True
        let ?h = "h @ [(Fd (Write fd (drop pos stdin)), Inr v)]"
        have "length stdin - (pos + nat v) < n" using Suc.prems True pos by linarith
        from Suc.IH [OF this, of ?h] Inr True pos show ?thesis by (auto simp: io_bind_def sys_def)
      next
        case False
        with Inr wr [OF pos] pos show ?thesis by (simp add: io_bind_def sys_def) blast
      qed
    qed
  qed
qed simp

lemma pump_settles:
  assumes "settles K (wc_pid c) B T" and "B < n" and "length (unwrap_or (ro_stdin (wc_opts c)) []) < n"
  shows "\<exists>cs w'. pump K E n c w h = (h @ cs, Inr w') \<and> sleeps cs = 0 \<and>
    (T \<le> sleeps h \<longrightarrow> ws_out_fd w' < 0 \<and> ws_err_fd w' < 0 \<and> \<not> ws_open w')"
proof -
  let ?limit = "ro_max_output_bytes (wc_opts c)" let ?stdin = "unwrap_or (ro_stdin (wc_opts c)) []"
  have stream: "\<exists>cs fd' s'. (if 0 \<le> fd then read_stream_available K E n ?limit fd s else io_ok (fd, s)) h = (h @ cs, Inr (fd', s')) \<and>
      sleeps cs = 0 \<and> (T \<le> sleeps h \<longrightarrow> fd' < 0)" for fd s h
    using read_settles [OF assms(1), of h n E ?limit fd s] assms(2) by (cases "0 \<le> fd") fastforce+
  obtain c1 fo so where 1: "(if 0 \<le> ws_out_fd w then read_stream_available K E n ?limit (ws_out_fd w) (ws_stdout w)
      else io_ok (ws_out_fd w, ws_stdout w)) h = (h @ c1, Inr (fo, so))" "sleeps c1 = 0" "T \<le> sleeps h \<longrightarrow> fo < 0" using stream by blast
  obtain c2 fe se where 2: "(if 0 \<le> ws_err_fd w then read_stream_available K E n ?limit (ws_err_fd w) (ws_stderr w)
      else io_ok (ws_err_fd w, ws_stderr w)) (h @ c1) = ((h @ c1) @ c2, Inr (fe, se))" "sleeps c2 = 0" "T \<le> sleeps (h @ c1) \<longrightarrow> fe < 0"
    using stream by blast
  obtain c3 pos opn where 3: "(if ws_open w then write_stdin_available K n (wc_stdin_fd c) ?stdin (ws_pos w) else io_ok (ws_pos w, False))
      ((h @ c1) @ c2) = (((h @ c1) @ c2) @ c3, Inr (pos, opn))" "sleeps c3 = 0" "T \<le> sleeps ((h @ c1) @ c2) \<longrightarrow> \<not> opn"
    using write_settles [OF assms(1), of ?stdin "ws_pos w" n "wc_stdin_fd c" "(h @ c1) @ c2"] assms(3) by (cases "ws_open w") fastforce+
  from 1 2 3 show ?thesis unfolding pump_def Let_def
    by (intro exI [of _ "c1 @ c2 @ c3"] exI) (auto simp: io_bind_def split del: if_split)
qed

lemma poll_settles: "T \<le> sleeps h \<Longrightarrow> settles K (wc_pid c) B T \<Longrightarrow>
    poll_child K c w h = (h', Inr w') \<Longrightarrow> ws_status w' \<noteq> None \<and> ws_out_fd w' = ws_out_fd w \<and> ws_err_fd w' = ws_err_fd w \<and> ws_open w' = ws_open w"
  by (fastforce simp: settles_def poll_child_def io_bind_def sys_def split: if_splits)

lemma sleeps_silent: "does_round m Q \<Longrightarrow> \<exists>cs a. m h = (h @ cs, Inr a)"
  unfolding does_round_def by blast

lemma enforce_runs: "\<exists>cs w'. enforce_timeout K E c w h = (h @ cs, Inr w')"
proof -
  have 1: "\<exists>cs w'. send_term K E c limit w h = (h @ cs, Inr w')" for limit w h
    using sleeps_silent [OF round_term, of K E "wc_pid c" "wc_cgroup_fd c" "ro_kill_tree (wc_opts c)" h]
    by (auto simp: send_term_def io_bind_def)
  have 2: "\<exists>cs w'. send_kill K E c w h = (h @ cs, Inr w')" for w h
    using round_kill9 [of K E "wc_pid c" "wc_cgroup_fd c" "ro_kill_tree (wc_opts c)" h]
    by (auto simp: send_kill_def io_bind_def)
  show ?thesis
  proof (cases "(ws_status w, ro_timeout_ms (wc_opts c))" rule: prod.exhaust)
    case (Pair s t)
    show ?thesis
    proof (cases "s = None \<and> t \<noteq> None")
      case True
      then obtain limit where l: "t = Some limit" by auto
      obtain cs w1 where a: "send_term K E c limit w h = (h @ cs, Inr w1)" using 1 by blast
      obtain ds w2 where b: "send_kill K E c w1 (h @ cs) = ((h @ cs) @ ds, Inr w2)" using 2 by blast
      from a b l True Pair show ?thesis by (simp add: enforce_timeout_def io_bind_def)
    next
      case False
      with Pair show ?thesis by (auto simp: enforce_timeout_def intro: exI [of _ "[]"] split: option.split)
    qed
  qed
qed

lemma turns_settle:
  assumes "settles K (wc_pid c) B T" and "B < n" and "length (unwrap_or (ro_stdin (wc_opts c)) []) < n" and "T < m + sleeps h" and "0 < m"
  shows "\<exists>h' w'. wait_turns K E n m c w h = (h', Inr w')"
  using assms(4,5)
proof (induction m arbitrary: w h)
  case (Suc m)
  from pump_settles [OF assms(1-3)] obtain cs w1 where 1: "pump K E n c w h = (h @ cs, Inr w1)" "sleeps cs = 0"
    "T \<le> sleeps h \<longrightarrow> ws_out_fd w1 < 0 \<and> ws_err_fd w1 < 0 \<and> \<not> ws_open w1" by blast
  obtain x r where 2: "poll_child K c w1 (h @ cs) = ((h @ cs) @ x, Inr (w1\<lparr>ws_status := r\<rparr>))" using poll_runs by blast
  let ?w2 = "w1\<lparr>ws_status := r\<rparr>"
  show ?case
  proof (cases "ended ?w2")
    case True
    with 1 2 show ?thesis by (simp add: io_bind_def)
  next
    case False
    have "\<not> T \<le> sleeps h"
    proof
      assume "T \<le> sleeps h"
      with poll_settles [OF _ assms(1) 2] 1 False show False by (simp add: ended_def)
    qed
    obtain ds w3 where 3: "enforce_timeout K E c ?w2 ((h @ cs) @ x) = (((h @ cs) @ x) @ ds, Inr w3)" using enforce_runs by blast
    let ?h = "(((h @ cs) @ x) @ ds) @ [(Proc (Sleep 5), kn_answer K (((h @ cs) @ x) @ ds) (Proc (Sleep 5)))]"
    have "T < m + sleeps ?h" "0 < m" using Suc.prems \<open>\<not> T \<le> sleeps h\<close> by simp_all
    from Suc.IH [OF this, of w3] 1 2 3 False show ?thesis by (simp add: io_bind_def sys_any_def sys_def)
  qed
qed simp

abbreviation completes :: "'a exec \<Rightarrow> bool" where
  "completes m \<equiv> does_round m (\<lambda>_. True)"

lemma completes_bind: "completes m \<Longrightarrow> (\<And>a. completes (f a)) \<Longrightarrow> completes (io_bind m f)"
  by (rule round_bind [where Q = "\<lambda>_. True" and Q' = "\<lambda>_. True"]) simp_all

lemma completes_basic: "completes (io_ok a)" "completes (io_get g)" "completes (sys_any K x)" "completes (read_cgroup_file K E fd name)"
  using round_cgroup [of K E fd name] by (simp_all add: does_round_def sys_any_def sys_def io_bind_def) blast

lemma completes_tail: "completes (wait_tail K E c before w)"
proof -
  have "completes (read_cgroup_sample K E fd)" for fd
    unfolding read_cgroup_sample_def read_cgroup_number_def by (intro completes_bind completes_basic)
  then show ?thesis
    unfolding wait_tail_def io_seq.simps by (intro completes_bind) (simp_all add: completes_basic del: io_run)
qed

lemma wait_settles:
  assumes "settles K pid B T" and "B < n" and "length (unwrap_or (ro_stdin opts) []) < n" and "T < m"
  shows "is_ok (snd (wait_rollout_exec K E n m pid cgroup_fd before so se stdin_fd opts h0))"
proof -
  let ?c = "\<lparr>wc_pid = pid, wc_cgroup_fd = cgroup_fd, wc_stdin_fd = stdin_fd, wc_start = ee_clock E h0, wc_opts = opts\<rparr>"
  let ?none = "unwrap_or (ro_stdin opts) [] = []"
  let ?close = "io_when (?none \<and> 0 \<le> stdin_fd) (close_fd K stdin_fd) :: unit exec"
  have "completes ?close" by (simp add: completes_basic del: io_run)
  then obtain c1 where c1: "?close h0 = (h0 @ c1, Inr ())" unfolding does_round_def by (metis old.unit.exhaust)
  have "\<exists>h' w'. wait_turns K E n m ?c (initial_wait so se (0 \<le> stdin_fd \<and> \<not> ?none)) (h0 @ c1) = (h', Inr w')"
    by (rule turns_settle [where B = B and T = T]) (use assms in simp_all)
  then obtain h' w' where t: "wait_turns K E n m ?c (initial_wait so se (0 \<le> stdin_fd \<and> \<not> ?none)) (h0 @ c1) = (h', Inr w')" by blast
  obtain cs r where "wait_tail K E ?c before w' h' = (h' @ cs, Inr r)" using completes_tail unfolding does_round_def by blast
  with c1 t show ?thesis by (simp add: wait_rollout_exec_def Let_def io_bind_def [of ?close] io_bind_def [of "wait_turns _ _ _ _ _ _"])
qed

text \<open>
  C24: The wait returns. In a world that settles - boundedly many chunks of output, and after some number of turns the
  pipes closed and the process ended - more turns than that and more inner rounds than chunks and input bytes are
  enough for a report, whatever interruptions, full pipes and signals happen on the way.
\<close>
theorem exec_wait_returns:
  assumes "settles K pid B T" and "B < n" and "length (unwrap_or (ro_stdin opts) []) < n" and "T < m"
  shows "is_ok (snd (wait_rollout_exec K E n m pid cgroup_fd before so se stdin_fd opts h0))"
  by (rule wait_settles [OF assms])

section \<open>Examples\<close>

text \<open>A program that prints three bytes and ends; a kernel on which the pipes stay open; a clock that advances.\<close>

definition brief_kernel :: kernel where
  "brief_kernel = \<lparr>kn_answer = \<lambda>h c. case c of
       Fd (Read fd) \<Rightarrow> Inr (if fd = 4 \<and> chunks h = 0 then 3 else 0)
     | Fd (Write _ bs) \<Rightarrow> Inr (int (length bs)) | _ \<Rightarrow> Inr 0, kn_errno = 0\<rparr>"

definition held_kernel :: kernel where
  "held_kernel = \<lparr>kn_answer = \<lambda>h c. case c of Fd (Read _) \<Rightarrow> Inl 11 | _ \<Rightarrow> Inr 0, kn_errno = 0\<rparr>"

definition brief_env :: exec_env where
  "brief_env = \<lparr>ee_buffer = \<lambda>_. [104, 105, 10], ee_clock = \<lambda>h. length h * 1000000, ee_file = \<lambda>_ _. [], ee_procs = \<lambda>_. []\<rparr>"

definition brief_opts :: rollout_exec_opts where
  "brief_opts = \<lparr>ro_timeout_ms = Some 1, ro_kill_tree = True, ro_max_output_bytes = 2, ro_cwd = None, ro_env = [], ro_json = True,
     ro_stdin = None\<rparr>"

abbreviation brief_wait :: "kernel \<Rightarrow> nat \<Rightarrow> history \<times> (exec_stop + rollout_exec_result)" where
  "brief_wait K m \<equiv> wait_rollout_exec K brief_env 2 m 9 (-1) empty_sample 4 5 6 brief_opts []"

lemma brief_settles: "settles brief_kernel 9 1 0"
  by (auto simp: settles_def brief_kernel_def drop_eq_Nil)

theorem exec_wait_returns_witness: "is_ok (snd (brief_wait brief_kernel 1))"
  by (rule exec_wait_returns [OF brief_settles]) (simp_all add: brief_opts_def)

theorem captured_output_exact_witness:
  "\<exists>h r. brief_wait brief_kernel 1 = (h, Inr r) \<and> re_stdout r = capture 2 (received brief_env 4 [] h)"
proof -
  have "is_ok (snd (brief_wait brief_kernel 1))" by (rule wait_settles [OF brief_settles]) (simp_all add: brief_opts_def)
  then obtain h r where r: "brief_wait brief_kernel 1 = (h, Inr r)" by (cases "brief_wait brief_kernel 1") (auto simp: is_ok_iff)
  have limit: "ro_max_output_bytes brief_opts = 2" by (simp add: brief_opts_def)
  from captured_output_exact [OF r, unfolded limit] have "re_stdout r = capture 2 (received brief_env 4 [] h)" by auto
  with r show ?thesis by blast
qed

theorem timeout_not_enforced_witness:
  "snd (brief_wait held_kernel 1000) = Inl Endless \<and> list_all (\<lambda>x. signal_of x = None) (fst (brief_wait held_kernel 3))"
proof -
  have held: "pipes_held held_kernel 9" by (auto simp: pipes_held_def held_kernel_def)
  have n: "2 = Suc 1" by simp
  have none: "unwrap_or (ro_stdin brief_opts) [] = []" by (simp add: brief_opts_def)
  have "\<exists>cs. brief_wait held_kernel m = ([] @ cs, Inl Endless) \<and> signals cs = []" for m
    unfolding n by (rule timeout_not_enforced [OF held _ _ none]) simp_all
  then have "snd (brief_wait held_kernel m) = Inl Endless" "signals (fst (brief_wait held_kernel m)) = []" for m by (metis append_Nil fst_conv snd_conv)+
  moreover have "signals cs = [] \<Longrightarrow> list_all (\<lambda>x. signal_of x = None) cs" for cs
    by (induction cs) (auto split: option.splits)
  ultimately show ?thesis by blast
qed

end
