(* ===== verification/Exec_Run.thy ===== *)
theory Exec_Run
  imports Exec_Signals
begin

text \<open>
  \<^verbatim>\<open>run_exec_process\<close> before and after the fork: the descriptors opened on the host, the namespaces entered, the
  cgroup, the pid file and the console, and the exit status handed back.
\<close>

section \<open>Helpers\<close>

definition close_pair :: "kernel \<Rightarrow> int \<times> int \<Rightarrow> unit exec" where
  "close_pair K p = io_seq [close_if K (fst p), close_if K (snd p)]"

text \<open>Clean up, then \<^verbatim>\<open>return Err(last_os_error())\<close>.\<close>

definition bail :: "kernel \<Rightarrow> unit exec list \<Rightarrow> 'a exec" where
  "bail K cleanup = io_bind (io_seq cleanup) (\<lambda>_. io_bind (io_get (last_errno K)) os_fail)"

fun write_all_fd :: "kernel \<Rightarrow> nat \<Rightarrow> int \<Rightarrow> u8 list \<Rightarrow> unit exec" where
  "write_all_fd K 0 fd data = io_of (Inl Endless)"
| "write_all_fd K (Suc n) fd data =
     (if data = [] then io_ok ()
      else
        io_bind (sys K (Fd (Write fd data))) (\<lambda>r.
          case r of
            Inr v \<Rightarrow>
              if 0 < v then write_all_fd K n fd (drop (nat v) data)
              else io_of (Inl (Failed (IoError WriteZero ''write returned 0'')))
          | Inl e \<Rightarrow> if e = 4 then write_all_fd K n fd data else os_fail e))"

definition write_cgroup_file :: "kernel \<Rightarrow> int \<Rightarrow> string \<Rightarrow> u8 list \<Rightarrow> (nat + unit) exec" where
  "write_cgroup_file K dir_fd name data =
     io_bind (sys K (Fd (Openat dir_fd name 0x80001))) (\<lambda>r.
       case r of
         Inl e \<Rightarrow> io_ok (Inl e)
       | Inr fd \<Rightarrow>
           io_bind (sys K (Fd (Write fd data))) (\<lambda>r.
           io_bind (close_fd K fd) (\<lambda>_. io_ok (case r of Inl e \<Rightarrow> Inl e | Inr _ \<Rightarrow> Inr ()))))"

section \<open>Namespaces\<close>

definition ns_types :: "string list" where
  "ns_types = [''user'', ''ipc'', ''uts'', ''net'', ''pid'', ''cgroup'', ''mnt'']"

fun open_namespaces :: "kernel \<Rightarrow> string \<Rightarrow> string list \<Rightarrow> (string \<times> int) list exec" where
  "open_namespaces K dir [] = io_ok []"
| "open_namespaces K dir (ns # nss) =
     io_bind (sys K (Fd (Open (dir @ ''/'' @ ns) 0x80000))) (\<lambda>r.
     io_bind (open_namespaces K dir nss) (\<lambda>fds.
     io_ok (case r of Inr fd \<Rightarrow> (ns, fd) # fds | Inl _ \<Rightarrow> fds)))"

text \<open>EINVAL (22) means that the user namespace is the one the runtime is in already.\<close>

fun enter_namespaces :: "kernel \<Rightarrow> unit exec list \<Rightarrow> (string \<times> int) list \<Rightarrow> unit exec" where
  "enter_namespaces K cleanup [] = io_ok ()"
| "enter_namespaces K cleanup ((ns, fd) # fds) =
     io_bind (sys K (Proc (Setns fd 0))) (\<lambda>r.
       if is_ok r \<or> (ns = ''user'' \<and> r = Inl 22) then enter_namespaces K cleanup fds
       else bail K cleanup)"

section \<open>Before the fork\<close>

record exec_request =
  rq_process :: exec_process
  rq_pid_file :: "string option"
  rq_detach :: bool
  rq_console :: "string option"
  rq_agent :: "rollout_exec_opts option"

record exec_launched =
  el_pid :: int
  el_fds :: exec_fds
  el_pty_master :: int
  el_pid_file :: int
  el_console :: int
  el_before :: cgroup_sample

definition open_cgroup :: "kernel \<Rightarrow> string \<Rightarrow> bool \<Rightarrow> int exec" where
  "open_cgroup K cid agent =
     (let path = ''/sys/fs/cgroup/rsrun-'' @ cid in
      if \<not> agent \<or> NUL \<in> set path then io_ok (-1)
      else io_bind (sys K (Fd (Open path 0x90000))) (\<lambda>r. io_ok (case r of Inr fd \<Rightarrow> fd | Inl _ \<Rightarrow> -1)))"

definition open_pid_file :: "kernel \<Rightarrow> unit exec list \<Rightarrow> string option \<Rightarrow> int exec" where
  "open_pid_file K cleanup path =
     (case path of
        None \<Rightarrow> io_ok (-1)
      | Some pf \<Rightarrow>
          if NUL \<in> set pf then io_of (Inl (Failed (IoError Other ''exec pid-file path contains NUL'')))
          else io_bind (sys K (Fd (Open pf 0x80241))) (\<lambda>r. case r of Inr fd \<Rightarrow> io_ok fd | Inl _ \<Rightarrow> bail K cleanup))"

definition connect_console :: "kernel \<Rightarrow> unit exec list \<Rightarrow> bool \<Rightarrow> string option \<Rightarrow> int exec" where
  "connect_console K cleanup terminal socket =
     (if \<not> terminal then io_ok (-1)
      else io_bind (sys K (Fd (Connect (unwrap_or socket '''')))) (\<lambda>r.
        case r of Inr fd \<Rightarrow> io_ok fd | Inl e \<Rightarrow> io_bind (io_seq cleanup) (\<lambda>_. os_fail e)))"

definition pipe :: "kernel \<Rightarrow> unit exec list \<Rightarrow> (int \<times> int) exec" where
  "pipe K cleanup = io_bind (sys K (Fd Pipe2)) (\<lambda>r. case r of Inr v \<Rightarrow> io_ok (fd_pair v) | Inl _ \<Rightarrow> bail K cleanup)"

definition no_pipe :: "int \<times> int" where
  "no_pipe = (-1, -1)"

text \<open>The pipes of the direct form, in the order standard output, error, input.\<close>

definition exec_pipes :: "kernel \<Rightarrow> unit exec list \<Rightarrow> bool \<Rightarrow> ((int \<times> int) \<times> (int \<times> int) \<times> (int \<times> int)) exec" where
  "exec_pipes K cleanup agent =
     (if \<not> agent then io_ok (no_pipe, no_pipe, no_pipe)
      else
        io_bind (pipe K cleanup) (\<lambda>out.
        io_bind (pipe K (close_pair K out # cleanup)) (\<lambda>err.
        io_bind (pipe K ([close_pair K out, close_pair K err] @ cleanup)) (\<lambda>inp.
        io_ok (out, err, inp)))))"

definition exec_pty :: "kernel \<Rightarrow> bool \<Rightarrow> (int \<times> int) exec" where
  "exec_pty K terminal =
     (if \<not> terminal then io_ok (-1, -1)
      else io_bind (sys K (Fd Openpty)) (\<lambda>r. case r of Inr v \<Rightarrow> io_ok (fd_pair v) | Inl e \<Rightarrow> os_fail e))"

text \<open>
  Up to the fork. \<open>root\<close> is the state directory, \<open>exists\<close> and \<open>alive\<close> are the tests for it and for \<^verbatim>\<open>/proc/<pid>/ns\<close>, \<open>pid\<close> the
  pid read from the state. The result carries what both sides of the fork go on with.
\<close>

definition exec_cross :: "kernel \<Rightarrow> exec_request \<Rightarrow> int \<Rightarrow> cgroup_sample \<Rightarrow> (string \<times> int) list \<Rightarrow> exec_launched exec" where
  "exec_cross K rq cgroup_fd before ns_fds =
     (let agent = rq_agent rq \<noteq> None; terminal = xp_terminal (rq_process rq) \<and> rq_console rq \<noteq> None;
          close_ns = map (\<lambda>(ns, fd). close_fd K fd) ns_fds; close_cg = close_if K cgroup_fd in
      io_bind (open_pid_file K (close_ns @ [close_cg]) (rq_pid_file rq)) (\<lambda>pid_file.
      io_bind (connect_console K ([close_if K pid_file] @ close_ns @ [close_cg]) terminal (rq_console rq)) (\<lambda>console.
      let close_files = [close_if K pid_file, close_if K console] in
      io_bind (exec_pipes K close_files agent) (\<lambda>(out, err, inp).
      let close_pipes = [close_pair K out, close_pair K err, close_pair K inp] in
      io_bind (enter_namespaces K (close_pipes @ close_ns @ close_files @ [close_cg]) ns_fds) (\<lambda>_.
      io_bind (io_seq close_ns) (\<lambda>_.
      io_bind (exec_pty K terminal) (\<lambda>(master, slave).
      io_bind (sys K (Proc Fork)) (\<lambda>r.
        case r of
          Inl _ \<Rightarrow> bail K ([close_if K master, close_if K slave] @ close_pipes @ close_files @ [close_cg])
        | Inr child \<Rightarrow>
            io_ok \<lparr>el_pid = child,
              el_fds = \<lparr>xf_agent = agent, xf_stdin = inp, xf_stdout = out, xf_stderr = err, xf_pty_slave = slave, xf_cgroup = cgroup_fd\<rparr>,
              el_pty_master = master, el_pid_file = pid_file, el_console = console, el_before = before\<rparr>))))))))"

definition exec_launch :: "kernel \<Rightarrow> exec_env \<Rightarrow> string \<Rightarrow> string \<Rightarrow> bool \<Rightarrow> int io_result \<Rightarrow> bool \<Rightarrow> exec_request \<Rightarrow>
   exec_launched exec" where
  "exec_launch K E cid root exists pid alive rq =
     io_bind (sys_any K (Proc Set_Undumpable)) (\<lambda>_.
     if \<not> exists then io_of (Inl (Failed (IoError Other (''container '' @ cid @ '' does not exist (root='' @ root @ '')''))))
     else case pid of Inl e \<Rightarrow> io_of (Inl (Failed e)) | Inr init_pid \<Rightarrow>
     if \<not> alive then io_of (Inl (Failed (IoError Other (''container '' @ cid @ '' init pid '' @ dec_int init_pid @ '' is no longer alive''))))
     else
       io_bind (open_cgroup K cid (rq_agent rq \<noteq> None)) (\<lambda>cgroup_fd.
       io_bind (if 0 \<le> cgroup_fd then read_cgroup_sample K E cgroup_fd else io_ok empty_sample) (\<lambda>before.
       io_bind (open_namespaces K (''/proc/'' @ dec_int init_pid @ ''/ns'') ns_types) (exec_cross K rq cgroup_fd before))))"

section \<open>The parent\<close>

definition exit_status :: "u32 \<Rightarrow> nat" where
  "exit_status st = (if wifexited st then unat (wexitstatus st) else 128 + unat (wtermsig st))"

text \<open>What is reported, and the result.\<close>

definition report_exec :: "rollout_exec_opts \<Rightarrow> rollout_exec_result \<Rightarrow> rollout_exec_result option \<times> unit io_result" where
  "report_exec opts r =
     (Some r,
      if ro_json opts \<or> (re_exit_code r = Some 0 \<and> \<not> re_timeout r) then Ok ()
      else Err Other (''exec: '' @ failure_summary r))"

definition exec_parent ::
  "kernel \<Rightarrow> exec_env \<Rightarrow> nat \<Rightarrow> nat \<Rightarrow> exec_request \<Rightarrow> exec_launched \<Rightarrow> (rollout_exec_result option \<times> unit io_result) exec" where
  "exec_parent K E n m rq l =
     (let f = el_fds l; pid = el_pid l; pid_text = bytes_of (dec_int pid) in
      io_bind (io_seq [close_if K (xf_pty_slave f),
          io_when (rq_agent rq \<noteq> None) (io_seq [close_fd K (snd (xf_stdout f)), close_fd K (snd (xf_stderr f)), close_fd K (fst (xf_stdin f))])]) (\<lambda>_.
      io_bind (if 0 \<le> el_console l \<and> 0 \<le> el_pty_master l
          then io_bind (sys K (Fd (Send_Fd (el_console l) (el_pty_master l)))) (\<lambda>r.
            case r of Inl e \<Rightarrow> os_fail e | Inr _ \<Rightarrow> io_seq [close_fd K (el_console l), close_fd K (el_pty_master l)])
          else io_ok ()) (\<lambda>_.
      io_bind (io_when (0 \<le> el_pid_file l) (io_seq [write_all_fd K n (el_pid_file l) pid_text, close_fd K (el_pid_file l)])) (\<lambda>_.
      io_bind (if 0 \<le> xf_cgroup f then write_cgroup_file K (xf_cgroup f) ''cgroup.procs'' pid_text else io_ok (Inr ())) (\<lambda>_.
        case rq_agent rq of
          Some opts \<Rightarrow>
            io_bind (wait_rollout_exec K E n m pid (xf_cgroup f) (el_before l) (fst (xf_stdout f)) (fst (xf_stderr f)) (snd (xf_stdin f)) opts) (\<lambda>r.
            io_bind (close_if K (xf_cgroup f)) (\<lambda>_. io_ok (report_exec opts r)))
        | None \<Rightarrow>
            io_bind (close_if K (xf_cgroup f)) (\<lambda>_.
            if rq_detach rq then io_ok (None, Ok ())
            else
              io_bind (sys K (Proc (Waitpid pid))) (\<lambda>r.
              let xc = exit_status (case r of Inr v \<Rightarrow> word_of_int v | Inl _ \<Rightarrow> 0) in
              io_ok (None, if xc = 0 then Ok () else Err Other (''exec: exit '' @ dec_nat xc)))))))))"

text \<open>\<^verbatim>\<open>cmd_exec_full\<close> and \<^verbatim>\<open>cmd_exec_rollout\<close>: the requests they make.\<close>

definition exec_full_request :: "exec_process io_result \<Rightarrow> string option \<Rightarrow> bool \<Rightarrow> string option \<Rightarrow> exec_request io_result" where
  "exec_full_request process pid_file detach console =
     rbind process (\<lambda>pj. Ok \<lparr>rq_process = (if console \<noteq> None then pj\<lparr>xp_terminal := True\<rparr> else pj), rq_pid_file = pid_file,
       rq_detach = detach, rq_console = console, rq_agent = None\<rparr>)"

definition exec_rollout_request :: "string list \<Rightarrow> rollout_exec_opts \<Rightarrow> exec_request io_result" where
  "exec_rollout_request args opts =
     rbind (rollout_process args (ro_env opts) (ro_cwd opts)) (\<lambda>pj.
       Ok \<lparr>rq_process = pj, rq_pid_file = None, rq_detach = False, rq_console = None, rq_agent = Some opts\<rparr>)"


section \<open>What the parts call\<close>

abbreviation stays :: "(syscall \<Rightarrow> bool) \<Rightarrow> 'a exec \<Rightarrow> bool" where
  "stays A m \<equiv> returns m (\<lambda>_ _. calls_in A)"

named_theorems stays_rules \<open>parts of exec that make calls of one class\<close>

lemma stays_bind [stays_rules]:
  assumes "stays A m" and "\<And>a. stays A (f a)" shows "stays A (io_bind m f)"
  by (rule returns_bind [OF assms(1)], rule returns_weaken [OF assms(2)]) auto

lemma stays_basic [stays_rules]: "stays A (io_ok a)" "stays A (io_get f)" "stays A (io_of (Inl e))" "stays A (os_fail en)"
  by (simp_all add: returns_def os_fail_def)

lemma stays_sys [stays_rules]: "A c \<Longrightarrow> stays A (sys K c)" "A c \<Longrightarrow> stays A (sys_any K c)"
  by (auto simp: returns_def sys_def sys_any_def io_bind_def)

lemma stays_seq [stays_rules]: "(\<And>m. m \<in> set steps \<Longrightarrow> stays A m) \<Longrightarrow> stays A (io_seq steps)"
  by (induction steps) (auto intro!: stays_bind stays_basic simp del: io_run)

lemma stays_if [stays_rules]: "(b \<Longrightarrow> returns m Q) \<Longrightarrow> (\<not> b \<Longrightarrow> returns m' Q) \<Longrightarrow> returns (if b then m else m') Q"
  by simp

lemma stays_sum [stays_rules]:
  "(\<And>e. x = Inl e \<Longrightarrow> returns (g e) Q) \<Longrightarrow> (\<And>a. x = Inr a \<Longrightarrow> returns (f a) Q) \<Longrightarrow> returns (case x of Inl e \<Rightarrow> g e | Inr a \<Rightarrow> f a) Q"
  by (cases x) simp_all

lemma stays_option [stays_rules]:
  "(x = None \<Longrightarrow> returns m Q) \<Longrightarrow> (\<And>a. x = Some a \<Longrightarrow> returns (f a) Q) \<Longrightarrow> returns (case x of None \<Rightarrow> m | Some a \<Rightarrow> f a) Q"
  by (cases x) simp_all

lemma stays_bail [stays_rules]: "returns (bail K cleanup) Q"
  by (auto simp: returns_def bail_def io_bind_Inr_iff os_fail_def)

lemma stays_then_fail [stays_rules]: "returns (io_bind m (\<lambda>_. os_fail e)) Q"
  by (auto simp: returns_def io_bind_Inr_iff os_fail_def)

text \<open>Calls that leave the process where it is: they neither enter a namespace nor fork.\<close>

definition local_call :: "syscall \<Rightarrow> bool" where
  "local_call c \<longleftrightarrow> (case c of Proc (Setns _ _) \<Rightarrow> False | Proc Fork \<Rightarrow> False | _ \<Rightarrow> True)"

lemma local_calls [simp]: "local_call (Fd x)" "local_call (Proc Set_Undumpable)" "\<not> local_call (Proc (Setns fd ty))" "\<not> local_call (Proc Fork)"
  by (simp_all add: local_call_def)

lemma local_parts:
  "stays local_call (open_cgroup K cid agent)" "stays local_call (read_cgroup_sample K E fd)"
  "stays local_call (open_pid_file K cleanup path)" "stays local_call (connect_console K cleanup terminal socket)"
  "stays local_call (exec_pipes K cleanup agent)" "stays local_call (exec_pty K terminal)"
proof -
  show "stays local_call (open_cgroup K cid agent)" "stays local_call (open_pid_file K cleanup path)"
    "stays local_call (exec_pty K terminal)"
    unfolding open_cgroup_def open_pid_file_def exec_pty_def Let_def by (intro stays_rules; simp)+
  show "stays local_call (connect_console K cleanup terminal socket)"
    unfolding connect_console_def by (intro stays_rules; simp)
  have cgf: "stays local_call (read_cgroup_file K E fd name)" for fd name
    unfolding read_cgroup_file_def by (intro stays_rules; simp)
  show "stays local_call (read_cgroup_sample K E fd)"
    unfolding read_cgroup_sample_def read_cgroup_number_def by (intro stays_rules cgf)
  have pipe: "stays local_call (pipe K cs)" for cs
    unfolding pipe_def by (intro stays_rules; simp)
  show "stays local_call (exec_pipes K cleanup agent)"
    unfolding exec_pipes_def case_prod_unfold by (intro stays_rules pipe)
qed


section \<open>The namespaces entered\<close>

definition ns_path :: "string \<Rightarrow> string \<Rightarrow> string" where
  "ns_path dir ns = dir @ ''/'' @ ns"

text \<open>What opening the namespaces left: those that opened, in the order of the list; a failure is passed over.\<close>

definition ns_opened :: "string \<Rightarrow> string list \<Rightarrow> (string \<times> int) list \<Rightarrow> history \<Rightarrow> bool" where
  "ns_opened dir nss fds cs \<longleftrightarrow>
     (\<exists>answers. cs = map2 (\<lambda>ns r. (Fd (Open (ns_path dir ns) 0x80000), r)) nss answers \<and> length answers = length nss \<and>
        fds = filter_map (\<lambda>(ns, r). case r of Inr fd \<Rightarrow> Some (ns, fd) | Inl _ \<Rightarrow> None) (zip nss answers))"

lemma open_namespaces_returns: "returns (open_namespaces K dir nss) (\<lambda>fds h cs. ns_opened dir nss fds cs)"
proof (induction nss)
  case (Cons ns nss)
  show ?case
    unfolding open_namespaces.simps
  proof (rule returns_bind [where Q = "\<lambda>r h cs. cs = [(Fd (Open (dir @ ''/'' @ ns) 0x80000), r)]"])
    fix r
    show "returns (io_bind (open_namespaces K dir nss) (\<lambda>fds. io_ok (case r of Inr fd \<Rightarrow> (ns, fd) # fds | Inl _ \<Rightarrow> fds)))
      (\<lambda>fds h cs. \<forall>h0 c0. h = h0 @ c0 \<longrightarrow> c0 = [(Fd (Open (dir @ ''/'' @ ns) 0x80000), r)] \<longrightarrow> ns_opened dir (ns # nss) fds (c0 @ cs))"
    proof (rule returns_bind [OF Cons.IH], rule returns_ok, intro allI impI)
      fix fds h h0 c0 h0' c0' assume "ns_opened dir nss fds c0" "c0' = [(Fd (Open (dir @ ''/'' @ ns) 0x80000), r)]"
      then obtain answers where "c0 = map2 (\<lambda>ns r. (Fd (Open (ns_path dir ns) 0x80000), r)) nss answers" "length answers = length nss"
        "fds = filter_map (\<lambda>(ns, r). case r of Inr fd \<Rightarrow> Some (ns, fd) | Inl _ \<Rightarrow> None) (zip nss answers)"
        "c0' = [(Fd (Open (ns_path dir ns) 0x80000), r)]" by (auto simp: ns_opened_def ns_path_def)
      then show "ns_opened dir (ns # nss) (case r of Inr fd \<Rightarrow> (ns, fd) # fds | Inl _ \<Rightarrow> fds) (c0' @ c0 @ [])"
        unfolding ns_opened_def by (intro exI [of _ "r # answers"]) (auto split: sum.split)
    qed
  qed (simp add: returns_sys)
qed (simp add: returns_ok ns_opened_def del: io_run)

text \<open>Entering goes through all of them, in order, and stops at the first refusal but for EINVAL on the user namespace.\<close>

definition ns_entered :: "(string \<times> int) list \<Rightarrow> history \<Rightarrow> bool" where
  "ns_entered fds cs \<longleftrightarrow> list_all2 (\<lambda>(ns, fd) x. fst x = Proc (Setns fd 0) \<and> (is_ok (snd x) \<or> (ns = ''user'' \<and> snd x = Inl 22))) fds cs"

lemma enter_namespaces_returns: "returns (enter_namespaces K cleanup fds) (\<lambda>_ _. ns_entered fds)"
proof (induction fds)
  case (Cons p fds)
  obtain ns fd where p: "p = (ns, fd)" by (cases p)
  show ?case
    unfolding p enter_namespaces.simps
  proof (rule returns_bind [where Q = "\<lambda>r h cs. cs = [(Proc (Setns fd 0), r)]"])
    fix r
    show "returns (if is_ok r \<or> (ns = ''user'' \<and> r = Inl 22) then enter_namespaces K cleanup fds else bail K cleanup)
      (\<lambda>_ h cs. \<forall>h0 c0. h = h0 @ c0 \<longrightarrow> c0 = [(Proc (Setns fd 0), r)] \<longrightarrow> ns_entered ((ns, fd) # fds) (c0 @ cs))"
      by (intro stays_if stays_bail, rule returns_weaken [OF Cons.IH]) (auto simp: ns_entered_def)
  qed (simp add: returns_sys)
qed (simp add: returns_ok ns_entered_def del: io_run)

text \<open>What a computation that ends in the fork adds: entering the namespaces, and the fork, among local calls.\<close>

definition forked :: "exec_launched \<Rightarrow> history \<Rightarrow> bool" where
  "forked l cs \<longleftrightarrow> (\<exists>c. cs = c @ [(Proc Fork, Inr (el_pid l))] \<and> calls_in local_call c)"

definition crossed :: "(string \<times> int) list \<Rightarrow> exec_launched \<Rightarrow> history \<Rightarrow> bool" where
  "crossed fds l cs \<longleftrightarrow> (\<exists>c entered rest. cs = c @ entered @ rest \<and> calls_in local_call c \<and> ns_entered fds entered \<and> forked l rest)"

lemma local_then:
  assumes "stays local_call m" and "\<And>a. returns (f a) (\<lambda>l _. Q l)" and "\<And>l c cs. calls_in local_call c \<Longrightarrow> Q l cs \<Longrightarrow> Q l (c @ cs)"
  shows "returns (io_bind m f) (\<lambda>l _. Q l)"
  by (rule returns_bind [OF assms(1)], rule returns_weaken [OF assms(2)]) (simp add: assms(3))

lemma forked_local: "calls_in local_call c \<Longrightarrow> forked l cs \<Longrightarrow> forked l (c @ cs)"
  unfolding forked_def by (elim exE conjE, rule_tac x = "c @ ca" in exI) auto

lemma crossed_local: "calls_in local_call c \<Longrightarrow> crossed fds l cs \<Longrightarrow> crossed fds l (c @ cs)"
  unfolding crossed_def by (elim exE conjE, rule_tac x = "c @ ca" in exI) (auto simp: ball_Un)

lemma cross_returns: "returns (exec_cross K rq cg before fds) (\<lambda>l _. crossed fds l)"
proof -
  have close: "stays local_call (io_seq (map (\<lambda>(ns, fd). close_fd K fd) fds))"
    by (intro stays_seq) (auto intro: stays_sys)
  have fork: "returns (io_bind (sys K (Proc Fork)) (\<lambda>r. case r of Inl _ \<Rightarrow> bail K cleanup | Inr child \<Rightarrow> io_ok (f child))) (\<lambda>l _. forked l)"
    if "\<And>child. el_pid (f child) = child" for cleanup f
    using that by (auto simp: returns_def io_bind_Inr_iff sys_def bail_def os_fail_def forked_def split: sum.splits)
  have tail: "returns (io_bind (enter_namespaces K cleanup fds) f) (\<lambda>l _. crossed fds l)" if "returns (f ()) (\<lambda>l _. forked l)" for cleanup f
  proof (rule returns_bind [OF enter_namespaces_returns])
    fix a :: unit
    have enter: "crossed fds l (c0 @ cs)" if "forked l cs" "ns_entered fds c0" for l c0 cs
      unfolding crossed_def using that by (intro exI [of _ "[]"] exI [of _ c0] exI [of _ cs]) simp
    have run: "returns (f a) (\<lambda>l _. forked l)" using that by simp
    show "returns (f a) (\<lambda>l h cs. \<forall>h0 c0. h = h0 @ c0 \<longrightarrow> ns_entered fds c0 \<longrightarrow> crossed fds l (c0 @ cs))"
      by (rule returns_weaken [OF run]) (simp add: enter)
  qed
  show ?thesis
    unfolding exec_cross_def Let_def case_prod_unfold
    by (rule local_then [where Q = "crossed fds", OF local_parts(3) _ crossed_local], rule local_then [where Q = "crossed fds", OF local_parts(4) _ crossed_local],
      rule local_then [where Q = "crossed fds", OF local_parts(5) _ crossed_local], rule tail, rule local_then [where Q = forked, OF close [unfolded case_prod_unfold] _ forked_local],
      rule local_then [where Q = forked, OF local_parts(6) _ forked_local], rule fork, simp)
qed


lemma launch_parts:
  assumes "exec_launch K E cid root exists pid alive rq h0 = (h, Inr l)"
  shows "\<exists>init_pid before opens fds mid entered after. exists \<and> alive \<and> pid = Ok init_pid \<and>
    h = h0 @ before @ opens @ mid @ entered @ after @ [(Proc Fork, Inr (el_pid l))] \<and>
    ns_opened (''/proc/'' @ dec_int init_pid @ ''/ns'') ns_types fds opens \<and> ns_entered fds entered \<and>
    calls_in local_call (before @ mid @ after)"
proof -
  from assms obtain init_pid where ok: "exists" "alive" "pid = Ok init_pid"
    unfolding exec_launch_def by (auto simp: io_bind_Inr_iff split: if_splits sum.splits)
  let ?dir = "''/proc/'' @ dec_int init_pid @ ''/ns''"
  define Q where "Q l cs \<longleftrightarrow> (\<exists>c opens fds rest. cs = c @ opens @ rest \<and> calls_in local_call c \<and> ns_opened ?dir ns_types fds opens \<and>
      crossed fds l rest)" for l cs
  have Q_local: "Q l (c @ cs)" if "calls_in local_call c" "Q l cs" for l c cs
    using that unfolding Q_def by (elim exE conjE, rule_tac x = "c @ ca" in exI) (auto simp: ball_Un)
  have spaces: "returns (io_bind (open_namespaces K ?dir ns_types) (exec_cross K rq cg before)) (\<lambda>l _. Q l)" for cg before
  proof (rule returns_bind [OF open_namespaces_returns])
    fix fds
    have "Q l (c0 @ cs)" if "ns_opened ?dir ns_types fds c0" "crossed fds l cs" for l c0 cs
      unfolding Q_def using that by (intro exI [of _ "[]"] exI [of _ c0] exI [of _ fds] exI [of _ cs]) simp
    then show "returns (exec_cross K rq cg before fds) (\<lambda>l h cs. \<forall>h0 c0. h = h0 @ c0 \<longrightarrow> ns_opened ?dir ns_types fds c0 \<longrightarrow> Q l (c0 @ cs))"
      by - (rule returns_weaken [OF cross_returns], simp)
  qed
  have sample: "stays local_call (if 0 \<le> cg then read_cgroup_sample K E cg else io_ok empty_sample)" for cg
    by (intro stays_if local_parts stays_basic)
  have "returns (exec_launch K E cid root exists pid alive rq) (\<lambda>l _. Q l)"
    unfolding exec_launch_def ok(3) using ok(1,2)
    by (simp only: sum.case not_True_eq_False if_False)
      (rule local_then [where Q = Q, OF stays_sys(2) _ Q_local], simp, rule local_then [where Q = Q, OF local_parts(1) _ Q_local], rule local_then [where Q = Q, OF sample _ Q_local], rule spaces)
  from returnsD [OF this assms] obtain c opens fds c' entered rest r where "h = h0 @ c @ opens @ c' @ entered @ rest"
    "ns_opened ?dir ns_types fds opens" "ns_entered fds entered" "forked l rest" "calls_in local_call c" "calls_in local_call c'"
    unfolding Q_def crossed_def by auto
  moreover from \<open>forked l rest\<close> obtain d where "rest = d @ [(Proc Fork, Inr (el_pid l))]" "calls_in local_call d" by (auto simp: forked_def)
  ultimately show ?thesis using ok
    by (intro exI [of _ init_pid] exI [of _ c] exI [of _ opens] exI [of _ fds] exI [of _ c'] exI [of _ entered] exI [of _ d]) (simp add: ball_Un)
qed

text \<open>
  C19: The process of \<^verbatim>\<open>exec\<close> is forked inside the container. When the runtime gets as far as the fork, the container's
  state and init existed, and before the fork it entered every namespace of the init it could open, in the fixed
  order user, ipc, uts, net, pid, cgroup, mnt, each successfully (but for EINVAL on the user
  namespace); the fork is the last call, and nothing else enters a namespace or forks. A namespace
  that does not open is passed over without an error.
\<close>
theorem exec_enters_namespaces:
  assumes "exec_launch K E cid root exists pid alive rq h0 = (h, Inr l)"
  shows "\<exists>init_pid before opens fds mid entered after. exists \<and> alive \<and> pid = Ok init_pid \<and>
    h = h0 @ before @ opens @ mid @ entered @ after @ [(Proc Fork, Inr (el_pid l))] \<and>
    ns_opened (''/proc/'' @ dec_int init_pid @ ''/ns'') ns_types fds opens \<and> ns_entered fds entered \<and>
    calls_in local_call (before @ mid @ after)"
  by (rule launch_parts [OF assms])

definition shell_request :: exec_request where
  "shell_request = \<lparr>rq_process = shell_exec, rq_pid_file = Some ''/run/p'', rq_detach = False, rq_console = None, rq_agent = None\<rparr>"

lemmas launch_defs = exec_launch_def open_cgroup_def ns_types_def exec_cross_def open_pid_file_def connect_console_def exec_pipes_def
  exec_pty_def shell_request_def Let_def io_bind_def sys_def sys_any_def

lemma shell_launched: "\<exists>h l. exec_launch obliging_kernel brief_env ''c1'' ''/run/rsrun/c1'' True (Ok 7) True shell_request [] = (h, Inr l)"
  by (simp add: launch_defs obliging_kernel_def no_pipe_def shell_exec_def)

theorem exec_enters_namespaces_witness:
  "\<exists>h l before rest. exec_launch obliging_kernel brief_env ''c1'' ''/run/rsrun/c1'' True (Ok 7) True shell_request [] = (h, Inr l) \<and>
     h = before @ rest @ [(Proc Fork, Inr (el_pid l))]"
proof -
  from shell_launched obtain h l where l: "exec_launch obliging_kernel brief_env ''c1'' ''/run/rsrun/c1'' True (Ok 7) True shell_request [] = (h, Inr l)"
    by blast
  from exec_enters_namespaces [OF this] obtain c1 c2 c3 c4 c5 where "h = [] @ c1 @ c2 @ c3 @ c4 @ c5 @ [(Proc Fork, Inr (el_pid l))]" by blast
  with l show ?thesis by (intro exI [of _ h] exI [of _ l] exI [of _ c1] exI [of _ "c2 @ c3 @ c4 @ c5"]) simp
qed

text \<open>A kernel on which no namespace of the init can be opened: the process is forked where the runtime is.\<close>

definition closed_kernel :: kernel where
  "closed_kernel = \<lparr>kn_answer = \<lambda>_ c. case c of Fd (Open p _) \<Rightarrow> if p = ''/run/p'' then Inr 3 else Inl 13 | _ \<Rightarrow> Inr 0, kn_errno = 0\<rparr>"

lemma unopened_namespaces_skipped:
  "\<exists>h l. exec_launch closed_kernel brief_env ''c1'' ''/run/rsrun/c1'' True (Ok 7) True shell_request [] = (h, Inr l) \<and>
     list_all (\<lambda>x. \<forall>fd ty. fst x \<noteq> Proc (Setns fd ty)) h"
  by (simp add: launch_defs closed_kernel_def no_pipe_def shell_exec_def)

section \<open>The cgroup\<close>

text \<open>
  The calls of a runtime that keeps away from the cgroup: the only paths it opens are the namespace
  links of the init and the pid file it was given, it opens nothing relative to a directory (as the
  files of a cgroup are), and it makes no call that reaches a file by its path otherwise.
\<close>

definition outside_cgroup :: "string option \<Rightarrow> int \<Rightarrow> syscall \<Rightarrow> bool" where
  "outside_cgroup pid_file init c \<longleftrightarrow>
     (case c of
        Fd (Openat _ _ _) \<Rightarrow> False
      | Fd (Open p _) \<Rightarrow> pid_file = Some p \<or> (\<exists>ns \<in> set ns_types. p = ''/proc/'' @ dec_int init @ ''/ns'' @ ''/'' @ ns)
      | Fd _ \<Rightarrow> True
      | Proc _ \<Rightarrow> True
      | _ \<Rightarrow> False)"

lemma outside_calls [simp]: "outside_cgroup pf i (Proc x)" "outside_cgroup pf i (Fd (Close fd))" "outside_cgroup pf i (Fd Pipe2)"
  "outside_cgroup pf i (Fd Openpty)" "outside_cgroup pf i (Fd (Connect sock))" "outside_cgroup pf i (Fd (Write fd data))"
  "outside_cgroup pf i (Fd (Send_Fd c fd'))" "outside_cgroup (Some p) i (Fd (Open p fl))"
  "ns \<in> set ns_types \<Longrightarrow> outside_cgroup pf i (Fd (Open (''/proc/'' @ dec_int i @ ''/ns'' @ ''/'' @ ns) fl))"
  by (simp_all add: outside_cgroup_def)

lemma outside_namespaces:
  "set nss \<subseteq> set ns_types \<Longrightarrow> stays (outside_cgroup pf i) (open_namespaces K (''/proc/'' @ dec_int i @ ''/ns'') nss)"
proof (induction nss)
  case (Cons ns nss)
  then have "outside_cgroup pf i (Fd (Open ((''/proc/'' @ dec_int i @ ''/ns'') @ ''/'' @ ns) 0x80000))"
    using outside_calls(9) [of ns pf i] by simp
  with Cons show ?case by (auto intro!: stays_rules simp del: io_run)
qed (auto intro!: stays_rules simp del: io_run)

lemma outside_parts:
  "stays (outside_cgroup pf i) (enter_namespaces K cleanup fds)"
  "stays (outside_cgroup pf i) (open_pid_file K cleanup pf)" "stays (outside_cgroup pf i) (connect_console K cleanup terminal socket)"
  "stays (outside_cgroup pf i) (exec_pipes K cleanup agent)" "stays (outside_cgroup pf i) (exec_pty K terminal)"
  "stays (outside_cgroup pf i) (write_all_fd K n fd data)"
proof -
  show "stays (outside_cgroup pf i) (enter_namespaces K cleanup fds)"
    by (induction fds) (auto intro!: stays_rules simp del: io_run)
  show "stays (outside_cgroup pf i) (write_all_fd K n fd data)"
    by (induction n arbitrary: data) (auto intro!: stays_rules simp del: io_run)
  show "stays (outside_cgroup pf i) (open_pid_file K cleanup pf)"
    unfolding open_pid_file_def by (cases pf) (simp_all only: option.case, (intro stays_rules; simp)+)
  show "stays (outside_cgroup pf i) (exec_pty K terminal)"
    unfolding exec_pty_def by (intro stays_rules; simp)
  show "stays (outside_cgroup pf i) (connect_console K cleanup terminal socket)"
    unfolding connect_console_def by (intro stays_rules; simp)
  have pipe: "stays (outside_cgroup pf i) (pipe K cs)" for cs
    unfolding pipe_def by (intro stays_rules; simp)
  show "stays (outside_cgroup pf i) (exec_pipes K cleanup agent)"
    unfolding exec_pipes_def case_prod_unfold by (intro stays_rules pipe)
qed

lemma outside_cross: "stays (outside_cgroup (rq_pid_file rq) i) (exec_cross K rq cg before fds)"
  unfolding exec_cross_def Let_def case_prod_unfold by (intro stays_rules outside_parts) (auto intro: stays_rules)

lemma exec_launch_process:
  assumes "rq_agent rq = None"
  shows "exec_launch K E cid root exists pid alive rq =
    io_bind (sys_any K (Proc Set_Undumpable)) (\<lambda>_.
     if \<not> exists then io_of (Inl (Failed (IoError Other (''container '' @ cid @ '' does not exist (root='' @ root @ '')''))))
     else case pid of Inl e \<Rightarrow> io_of (Inl (Failed e)) | Inr init_pid \<Rightarrow>
     if \<not> alive then io_of (Inl (Failed (IoError Other (''container '' @ cid @ '' init pid '' @ dec_int init_pid @ '' is no longer alive''))))
     else io_bind (open_namespaces K (''/proc/'' @ dec_int init_pid @ ''/ns'') ns_types) (exec_cross K rq (-1) empty_sample))"
  using assms by (simp add: exec_launch_def open_cgroup_def io_bind_def split: sum.split)

lemma outside_launch:
  assumes "rq_agent rq = None"
  shows "stays (outside_cgroup (rq_pid_file rq) i) (exec_launch K E cid root exists (Ok i) alive rq)"
  unfolding exec_launch_process [OF assms] sum.case by (intro stays_rules outside_namespaces outside_cross; simp)

lemma cross_cgroup: "exec_cross K rq cg before fds h = (h', Inr l) \<Longrightarrow> xf_cgroup (el_fds l) = cg"
  by (auto simp: exec_cross_def Let_def io_bind_Inr_iff case_prod_unfold bail_def os_fail_def split_sum_ex)

lemma launch_cgroup:
  assumes "rq_agent rq = None" and "exec_launch K E cid root exists pid alive rq h0 = (h, Inr l)"
  shows "xf_cgroup (el_fds l) = -1"
  using assms(2) unfolding exec_launch_process [OF assms(1)]
  by (auto simp: io_bind_Inr_iff dest: cross_cgroup split: if_splits sum.split_asm)


definition pidless_request :: exec_request where
  "pidless_request = shell_request\<lparr>rq_pid_file := None\<rparr>"

lemma shell_waited:
  "\<exists>h1 l h. exec_launch obliging_kernel brief_env ''c1'' ''/run/rsrun/c1'' True (Ok 7) True pidless_request [] = (h1, Inr l) \<and>
     exec_parent obliging_kernel brief_env 1 1 pidless_request l h1 = (h, Inr (None, Ok ()))"
  by (simp add: launch_defs pidless_request_def obliging_kernel_def no_pipe_def shell_exec_def exec_parent_def exit_status_def
      wifexited_def wexitstatus_def)


end
