(* ===== verification/Spec2Isabelle.thy ===== *)
theory Spec2Isabelle
  imports Ebpf_Verifier Cgroup Hooks_Compile Spawn Portable_Trip Rollout_Reset Child_User Machine Cli Exec_Run
begin

text \<open>
  Verification library of rsrun, an OCI container runtime in three crates under src/crates/: \<^verbatim>\<open>rsrun-core\<close> (parsing and
  compiling the configuration, the life cycle of a container, its init, exec, and the rollout commands over overlay
  directories), \<^verbatim>\<open>rsrun-ext\<close> (the compilers for cgroup limits, device programs, seccomp filters and hooks) and
  \<^verbatim>\<open>rsrun-cli\<close> (the command line). The definitions are translated from these files; PROJECT.json maps each of
  them to its lines.

  How the parts interact. \<^verbatim>\<open>main\<close> turns the command line into one call of the core. \<^verbatim>\<open>create\<close> reads config.json
  (\<open>Spec_Parse\<close>), compiles it into a plan (\<open>Plan\<close>) and an extension plan (\<open>Ext_Compile\<close>), makes the container's directory and
  cgroup, forks the init and runs the hooks (\<open>Spawn\<close>); the init (\<open>Child\<close>) carries the plan out call by call and ends in
  execve. Later commands (\<open>Lifecycle\<close>, \<open>Rollout_Cmds\<close>, \<open>Exec_Run\<close>) know the container only by the files \<^verbatim>\<open>create\<close> left
  (\<open>State_Files\<close>, \<open>Overlay_State\<close>) and the pid in them; \<open>Machine\<close> puts the commands together.

  * Shared ground. \<open>Prelude\<close> (machine integers as words, results as sums of an error and a value, the collections of
    lemmas), \<open>Rust_Str\<close>, \<open>Utf8\<close>, \<open>Utf8_Lossy\<close>, \<open>Paths\<close> (the parts of Rust's standard library the code uses), \<open>Ord_Map\<close> (BTreeMap, a
    locale interpreted on sorted association lists), \<open>Json_Api\<close> and \<open>Json_Codec\<close> (serde_json as a locale of accessors and
    constructors, and of writing and reading back; interpreted on a JSON datatype and a codec), \<open>Computations\<close> (computations over a state that keep the state on
    failure, with a triple for each exit).

  * Compilers. \<open>Ebpf\<close> gives the kernel's semantics of device programs, \<open>Devices\<close> the compiler of \<^verbatim>\<open>devices.rs\<close> with the
    verdict of its programs, \<open>Ebpf_Verifier\<close> a type system that stands for the kernel's verifier, its soundness, and that all emitted
    programs are typed. \<open>Seccomp\<close> and \<open>Syscall_Tables\<close> are \<^verbatim>\<open>seccomp.rs\<close> and both tables with the classic BPF semantics. \<open>Cgroup\<close> is \<^verbatim>\<open>cgroup.rs\<close> and
    the mirror of it in \<^verbatim>\<open>cmd_update\<close>. \<open>Hooks_Compile\<close> is \<^verbatim>\<open>hooks.rs\<close>, \<open>Ext_Compile\<close> \<^verbatim>\<open>lib.rs\<close>. \<open>Spec_Parse\<close> and \<open>Plan\<close> are \<^verbatim>\<open>spec.rs\<close> and \<^verbatim>\<open>plan.rs\<close>;
    their errors are stated exactly.

  * State and life cycle. \<open>State_Files\<close> holds \<^verbatim>\<open>ContainerPaths\<close> and the byte-level editing of state.json, \<open>Deadline\<close> deadlines and
    hooks, \<open>Lifecycle\<close> start, state, delete, kill, pause and resume, \<open>Spawn\<close> the parent side of create with each call's outcome as an
    input. A container's directory is a record of its optional files. \<open>Machine\<close> is the step relation whose steps are
    these commands, tied to one process: invariants by rule induction and a refinement of the OCI life cycle.

  * The init. \<open>Syscalls\<close> is the kernel interface: the state is the history of calls with their answers, and the kernel is a function of
    history and next call, so every theorem is over all kernels. \<open>Child\<close> is \<^verbatim>\<open>child_run\<close> in order; \<open>Child_Confine\<close> says what has happened before execve,
    \<open>Child_Exec\<close> that the init ends and what the search along PATH does, \<open>Child_User\<close> what the order of capset and setresuid refuses.

  * exec. \<open>Exec_Process\<close> parses process.json and runs the exec'd child, \<open>Exec_Wait\<close> is the parent's loop that collects
    output under a timeout, \<open>Exec_Signals\<close> its signals and its termination, \<open>Exec_Run\<close> the namespaces, the cgroup and the
    report around the fork.

  * Rollout. \<open>Fs_Tree\<close> is the file system as trees of nodes with metadata and attributes, \<open>Tree_Edit\<close> writing along
    a path, \<open>Tree_Copy\<close> the snapshot copies, \<open>Layer_Store\<close> the content-addressed layers, \<open>Overlay_Diff\<close> the comparison of an upper directory with
    its layers, \<open>Effects\<close> the markers, \<open>Materialize\<close> the flattening of layers, \<open>Tar\<close> the ustar artifacts, \<open>Portable\<close> and \<open>Portable_Trip\<close> the
    export and import of checkpoints and what arrives, \<open>Overlay_State\<close> the
    overlay of a container. \<open>Rollout_Fs\<close> and \<open>Rollout_Cmds\<close> are the commands on one tree with every call that can fail; \<open>Rollout_Props\<close>,
    \<open>Rollout_Copies\<close>, \<open>Rollout_Progress\<close>, \<open>Rollout_Reset\<close> their safety, their copies, their success and reset.

  * Command line. \<open>Cli_Validate\<close> is \<^verbatim>\<open>validate-bundle\<close>, \<open>Cli\<close> the commands, their dispatch, durations and error lines.

  What the lemmas show. Compilers: the meaning of the output (verdicts of BPF programs, knob values) equals that of the input.
  Parsers: exactly which inputs are accepted, and the error otherwise. State files and artifacts: round trips. Commands: what they leave on success
  and on each failure. The init and exec: what must have happened, and in which order, before a program runs. Where the
  code departs from what it means to do, the departure is a theorem and a finding of the manifest.

  Parameters. JSON values and their text (locales with interpretations); the kernel's answers, the clock, the content of read
  buffers (functions of the history); outcomes of the calls around create; which file system calls fail and what lies behind symbolic links.
  Numbers of the kernel interface (system call flags, errno, ioctl numbers) are those of Linux on x86-64.

  Bounds and fuel. Loops over data are structural or have a measure. A loop the kernel can prolong is bounded by a
  number and running out is an outcome of its own: the interruptible calls of \<open>Child\<close> (\<^verbatim>\<open>init_always_ends\<close> gives the number that is
  enough when the kernel interrupts finitely often), the rounds and turns of \<open>Exec_Wait\<close>
  (\<^verbatim>\<open>exec_wait_returns\<close>: more turns than the process lives and more rounds than chunks), waits in \<open>Deadline\<close>
  (the value None is waiting for ever). Fuel of parsers and of path walks is the length of the input and their lemmas say that it suffices.
  Arithmetic that can wrap is on words of the width of the source.

  Not modelled. Printing to the standard streams (results are values), command-line parsing by clap, the test modules, the bodies of the
  memfd re-execution (an input that says whether it succeeded), of loading and attaching the device program, of
  the helper processes of id-mapped mounts, and of passing descriptors over sockets (each one call with an outcome);
  the scope that the external command \<^verbatim>\<open>systemd-run\<close> creates; bookkeeping of descriptors in the parent of create.
\<close>

end
